(* ===== verification/Prelude.thy ===== *)
theory Prelude
  imports Main "HOL-Library.Word"
begin

text \<open>
  Shared vocabulary of the development: Go's error values with \<open>errors.As\<close>,
  the byte-string functions of the standard library the sources call
  (\<open>strings.TrimSpace\<close>, \<open>strings.Split\<close>, \<open>utf8.ValidString\<close>,
  \<open>hex.DecodeString\<close>), and the generic lemmas on lists, maps and sums that the
  component theories use. Go strings are byte sequences, so a Go \<open>string\<close> is an
  Isabelle \<open>string\<close> (a list of 8-bit characters) and \<open>len\<close> is \<open>length\<close>.
\<close>

named_theorems go_simps \<open>evaluation rules of the Go library functions\<close>
named_theorems frame_simps \<open>what an operation leaves unchanged\<close>

type_synonym u64 = "64 word"
type_synonym i64 = int

section \<open>Errors\<close>

datatype error_code =
    CodeInvalidArgument | CodeDaemonUnavailable | CodeInvalidState | CodePermissionDenied
  | CodeRevisionConflict | CodeUpstreamFailure | CodeNetworkFailure | CodeDataFailure
  | CodeInternal | CodeManagedField | CodeManagedOperation | CodeUnsupportedMutation
  | CodeSystemProxyConflict | CodeSystemProxyNotOwned | CodeTunConflict

text \<open>A value of the \<open>Details\<close> map, as far as the sources store one.\<close>

datatype detail = DBool bool | DU64 u64 | DInt int | DStr string

record api_error =
  err_code :: error_code
  err_message :: string
  err_details :: "(string \<times> detail) list"

definition api :: "error_code \<Rightarrow> string \<Rightarrow> api_error" where
  "api c m = \<lparr>err_code = c, err_message = m, err_details = []\<rparr>"

text \<open>
  The error trees the code builds: an \<open>APIError\<close>, \<open>diagnostics.Wrap\<close> (an API error
  with a cause), \<open>errors.Join\<close>, \<open>fmt.Errorf\<close> with \<open>%w\<close>,
  \<open>state.CommittedError\<close>, the two context errors, the two file-system sentinels the
  code tests for, \<open>io.EOF\<close>, \<open>os.ErrInvalid\<close> and any other error.
\<close>

datatype go_error =
    Api api_error
  | Failure api_error "go_error option"
  | Joined "go_error list"
  | Errorf string go_error
  | Committed go_error
  | Canceled
  | DeadlineExceeded
  | ErrNotExist
  | ErrExist
  | ErrInvalid
  | ErrEOF
  | Opaque string

text \<open>\<open>errors.As(err, &APIError)\<close>: the first API error in depth-first order.\<close>

fun as_api :: "go_error \<Rightarrow> api_error option"
  and as_api_list :: "go_error list \<Rightarrow> api_error option" where
  "as_api (Api a) = Some a"
| "as_api (Failure a _) = Some a"
| "as_api (Joined es) = as_api_list es"
| "as_api (Errorf _ e) = as_api e"
| "as_api (Committed e) = as_api e"
| "as_api _ = None"
| "as_api_list [] = None"
| "as_api_list (e # es) = (case as_api e of Some a \<Rightarrow> Some a | None \<Rightarrow> as_api_list es)"

text \<open>\<open>errors.As(err, &CommittedError)\<close>.\<close>

fun as_committed :: "go_error \<Rightarrow> go_error option"
  and as_committed_opt :: "go_error option \<Rightarrow> go_error option"
  and as_committed_list :: "go_error list \<Rightarrow> go_error option" where
  "as_committed (Committed e) = Some e"
| "as_committed (Failure _ c) = as_committed_opt c"
| "as_committed (Joined es) = as_committed_list es"
| "as_committed (Errorf _ e) = as_committed e"
| "as_committed _ = None"
| "as_committed_opt None = None"
| "as_committed_opt (Some e) = as_committed e"
| "as_committed_list [] = None"
| "as_committed_list (e # es) =
     (case as_committed e of Some a \<Rightarrow> Some a | None \<Rightarrow> as_committed_list es)"

text \<open>\<open>errors.Is(err, target)\<close> for a sentinel target (one of the constructors without
  arguments, compared by identity in Go).\<close>

fun error_is :: "go_error \<Rightarrow> go_error \<Rightarrow> bool"
  and error_is_opt :: "go_error \<Rightarrow> go_error option \<Rightarrow> bool"
  and error_is_list :: "go_error \<Rightarrow> go_error list \<Rightarrow> bool" where
  "error_is t (Api a) = (t = Api a)"
| "error_is t (Failure a c) = (t = Api a \<or> error_is_opt t c)"
| "error_is t (Joined es) = error_is_list t es"
| "error_is t (Errorf _ e) = error_is t e"
| "error_is t (Committed e) = error_is t e"
| "error_is t Canceled = (t = Canceled)"
| "error_is t DeadlineExceeded = (t = DeadlineExceeded)"
| "error_is t ErrNotExist = (t = ErrNotExist)"
| "error_is t ErrExist = (t = ErrExist)"
| "error_is t ErrInvalid = (t = ErrInvalid)"
| "error_is t ErrEOF = (t = ErrEOF)"
| "error_is t (Opaque s) = (t = Opaque s)"
| "error_is_opt t None = False"
| "error_is_opt t (Some e) = error_is t e"
| "error_is_list t [] = False"
| "error_is_list t (e # es) = (error_is t e \<or> error_is_list t es)"

text \<open>\<open>errors.Join\<close> drops nil errors and is nil when all of them are.\<close>

fun some_errors :: "go_error option list \<Rightarrow> go_error list" where
  "some_errors [] = []"
| "some_errors (None # es) = some_errors es"
| "some_errors (Some e # es) = e # some_errors es"

definition errors_join :: "go_error option list \<Rightarrow> go_error option" where
  "errors_join es = (case some_errors es of [] \<Rightarrow> None | xs \<Rightarrow> Some (Joined xs))"

lemma errors_join_None_iff [go_simps]: "errors_join es = None \<longleftrightarrow> (\<forall>e \<in> set es. e = None)"
  by (induction es rule: some_errors.induct) (auto simp: errors_join_def split: list.splits)

lemma errors_join_simps [simp]:
  "errors_join [] = None"
  "errors_join [None] = None"
  "errors_join [None, None] = None"
  "errors_join [Some e] = Some (Joined [e])"
  "errors_join [Some e, None] = Some (Joined [e])"
  "errors_join [None, Some e] = Some (Joined [e])"
  "errors_join [Some e, Some f] = Some (Joined [e, f])"
  by (simp_all add: errors_join_def)

text \<open>The constructors the packages share: \<open>dataError\<close> of \<open>internal/config\<close> and
  \<open>internal/subscription\<close> (the two bodies are the same).\<close>

definition dataError :: "string \<Rightarrow> go_error option list \<Rightarrow> go_error" where
  "dataError message causes =
     (case errors_join causes of
        None \<Rightarrow> Api (api CodeDataFailure message)
      | Some c \<Rightarrow> Failure (api CodeDataFailure message) (Some c))"

abbreviation data_error :: "string \<Rightarrow> go_error" where
  "data_error m \<equiv> dataError m []"

lemma as_api_dataError [simp]: "as_api (dataError m cs) = Some (api CodeDataFailure m)"
  by (simp add: dataError_def split: option.splits)

section \<open>Byte strings\<close>

text \<open>\<open>strings.HasPrefix\<close>, \<open>HasSuffix\<close>, \<open>TrimPrefix\<close>, \<open>TrimSuffix\<close>.\<close>

definition has_prefix :: "string \<Rightarrow> string \<Rightarrow> bool" where
  "has_prefix s p \<longleftrightarrow> take (length p) s = p"

definition has_suffix :: "string \<Rightarrow> string \<Rightarrow> bool" where
  "has_suffix s p \<longleftrightarrow> has_prefix (rev s) (rev p)"

definition trim_prefix :: "string \<Rightarrow> string \<Rightarrow> string" where
  "trim_prefix s p = (if has_prefix s p then drop (length p) s else s)"

lemma has_prefix_append [simp]: "has_prefix (p @ s) p"
  by (simp add: has_prefix_def)

lemma has_prefix_iff: "has_prefix s p \<longleftrightarrow> (\<exists>r. s = p @ r)"
  unfolding has_prefix_def by (metis append_eq_conv_conj append_take_drop_id)

lemma has_suffix_iff: "has_suffix s p \<longleftrightarrow> (\<exists>r. s = r @ p)"
  unfolding has_suffix_def has_prefix_iff
  by (metis rev_append rev_rev_ident)

text \<open>\<open>strings.Split(s, sep)\<close> for a one-byte separator.\<close>

fun split_on :: "char \<Rightarrow> string \<Rightarrow> string list" where
  "split_on c [] = [[]]"
| "split_on c (x # xs) =
     (if x = c then [] # split_on c xs
      else (case split_on c xs of [] \<Rightarrow> [[x]] | y # ys \<Rightarrow> (x # y) # ys))"

lemma split_on_not_Nil [simp]: "split_on c s \<noteq> []"
  by (induction s) (auto split: list.splits)

fun join_with :: "char \<Rightarrow> string list \<Rightarrow> string" where
  "join_with c [] = []"
| "join_with c [x] = x"
| "join_with c (x # y # ys) = x @ c # join_with c (y # ys)"

lemma join_split_on: "join_with c (split_on c s) = s"
proof (induction s)
  case (Cons x xs)
  then show ?case
    by (cases "split_on c xs") (auto simp: neq_Nil_conv, (cases "tl (split_on c xs)"; auto)+)
qed simp

text \<open>\<open>strings.ReplaceAll(s, "\r\n", "\n")\<close>.\<close>

fun crlf_to_lf :: "string \<Rightarrow> string" where
  "crlf_to_lf (a # b # xs) =
     (if a = CHR 0x0D \<and> b = CHR 0x0A then CHR 0x0A # crlf_to_lf xs else a # crlf_to_lf (b # xs))"
| "crlf_to_lf [x] = [x]"
| "crlf_to_lf [] = []"

text \<open>
  \<open>strings.TrimSpace\<close> cuts the white space of Unicode at both ends. UTF-8 is
  self-synchronising, so a rune stands at an end exactly when its encoding is a prefix
  (suffix) there; the encodings are listed.
\<close>

definition space_runes :: "string list" where
  "space_runes =
     [[CHR 0x09], [CHR 0x0A], [CHR 0x0B], [CHR 0x0C], [CHR 0x0D], [CHR 0x20],
      [CHR 0xC2, CHR 0x85], [CHR 0xC2, CHR 0xA0], [CHR 0xE1, CHR 0x9A, CHR 0x80],
      [CHR 0xE2, CHR 0x80, CHR 0x80], [CHR 0xE2, CHR 0x80, CHR 0x81],
      [CHR 0xE2, CHR 0x80, CHR 0x82], [CHR 0xE2, CHR 0x80, CHR 0x83],
      [CHR 0xE2, CHR 0x80, CHR 0x84], [CHR 0xE2, CHR 0x80, CHR 0x85],
      [CHR 0xE2, CHR 0x80, CHR 0x86], [CHR 0xE2, CHR 0x80, CHR 0x87],
      [CHR 0xE2, CHR 0x80, CHR 0x88], [CHR 0xE2, CHR 0x80, CHR 0x89],
      [CHR 0xE2, CHR 0x80, CHR 0x8A], [CHR 0xE2, CHR 0x80, CHR 0xA8],
      [CHR 0xE2, CHR 0x80, CHR 0xA9], [CHR 0xE2, CHR 0x80, CHR 0xAF],
      [CHR 0xE2, CHR 0x81, CHR 0x9F], [CHR 0xE3, CHR 0x80, CHR 0x80]]"

fun leading_space :: "string list \<Rightarrow> string \<Rightarrow> nat" where
  "leading_space [] s = 0"
| "leading_space (r # rs) s = (if has_prefix s r then length r else leading_space rs s)"

lemma leading_space_le: "leading_space rs s \<le> length s"
  by (induction rs) (auto simp: has_prefix_iff)

function trim_left :: "string list \<Rightarrow> string \<Rightarrow> string" where
  "trim_left rs s =
     (if leading_space rs s = 0 then s else trim_left rs (drop (leading_space rs s) s))"
  by pat_completeness auto
termination
proof (relation "measure (\<lambda>(rs, s). length s)")
  fix rs s assume "leading_space rs s \<noteq> 0"
  with leading_space_le [of rs s]
  show "((rs, drop (leading_space rs s) s), (rs, s)) \<in> measure (\<lambda>(rs, s). length s)"
    by auto
qed simp

declare trim_left.simps [simp del]

definition trim_space :: "string \<Rightarrow> string" where
  "trim_space s =
     rev (trim_left (map rev space_runes) (rev (trim_left space_runes s)))"

lemma trim_left_fixed [simp]: "leading_space rs (trim_left rs s) = 0"
  by (induction rs s rule: trim_left.induct) (metis trim_left.simps)

lemma trim_left_id: "leading_space rs s = 0 \<Longrightarrow> trim_left rs s = s"
  by (simp add: trim_left.simps)

lemma trim_left_suffix: "\<exists>p. s = p @ trim_left rs s"
proof (induction rs s rule: trim_left.induct)
  case (1 rs s)
  show ?case
  proof (cases "leading_space rs s = 0")
    case False
    then obtain p where "drop (leading_space rs s) s = p @ trim_left rs (drop (leading_space rs s) s)"
      using "1.IH" by blast
    then have "s = take (leading_space rs s) s @ p @ trim_left rs s"
      using False by (metis append_take_drop_id trim_left.simps)
    then show ?thesis by (metis append.assoc)
  qed (simp add: trim_left_id)
qed

lemma leading_space_append: "leading_space rs (s @ t) = 0 \<Longrightarrow> leading_space rs s = 0"
  by (induction rs) (auto simp: has_prefix_iff split: if_splits)

text \<open>Trimming twice is trimming once: the normal form the catalog stores is stable.\<close>

lemma trim_space_idem [simp]: "trim_space (trim_space s) = trim_space s"
proof -
  let ?R = "map rev space_runes"
  let ?a = "trim_left space_runes s"
  let ?b = "trim_left ?R (rev ?a)"
  obtain p where "rev ?a = p @ ?b" using trim_left_suffix by blast
  then have "?a = rev ?b @ rev p" by (metis rev_append rev_rev_ident)
  then have "leading_space space_runes (rev ?b) = 0"
    using leading_space_append [of space_runes "rev ?b" "rev p"] trim_left_fixed by metis
  then have "trim_left space_runes (rev ?b) = rev ?b" by (rule trim_left_id)
  then show ?thesis by (simp add: trim_space_def trim_left_id)
qed

lemma trim_space_Nil [simp]: "trim_space [] = []"
  by (simp add: trim_space_def trim_left.simps space_runes_def has_prefix_def)

abbreviation byte_in :: "char \<Rightarrow> nat \<Rightarrow> nat \<Rightarrow> bool" where
  "byte_in c lo hi \<equiv> lo \<le> (of_char c :: nat) \<and> (of_char c :: nat) \<le> hi"

text \<open>\<open>strings.EqualFold\<close> with a lower-case ASCII word: beside the ASCII capitals, U+017F and U+212A fold to ASCII.\<close>

fun fold_key :: "string \<Rightarrow> string" where
  "fold_key [] = []"
| "fold_key (c # cs) =
     (if c = CHR 0xC5 \<and> has_prefix cs [CHR 0xBF] then CHR ''s'' # fold_key (drop 1 cs)
      else if c = CHR 0xE2 \<and> has_prefix cs [CHR 0x84, CHR 0xAA] then CHR ''k'' # fold_key (drop 2 cs)
      else if byte_in c 65 90 then char_of (of_char c + 32 :: nat) # fold_key cs
      else c # fold_key cs)"

definition equal_fold :: "string \<Rightarrow> string \<Rightarrow> bool" where
  "equal_fold s word \<longleftrightarrow> fold_key s = word"

text \<open>\<open>utf8.ValidString\<close>: the byte ranges of the Unicode standard's table 3-7.\<close>

fun valid_utf8 :: "string \<Rightarrow> bool" where
  "valid_utf8 [] = True"
| "valid_utf8 (a # s) =
     (if byte_in a 0 127 then valid_utf8 s
      else if byte_in a 194 223 then
        (case s of b # t \<Rightarrow> byte_in b 128 191 \<and> valid_utf8 t | _ \<Rightarrow> False)
      else if byte_in a 224 239 then
        (case s of b # c # t \<Rightarrow>
           byte_in b (if byte_in a 224 224 then 160 else 128) (if byte_in a 237 237 then 159 else 191)
           \<and> byte_in c 128 191 \<and> valid_utf8 t
         | _ \<Rightarrow> False)
      else if byte_in a 240 244 then
        (case s of b # c # d # t \<Rightarrow>
           byte_in b (if byte_in a 240 240 then 144 else 128) (if byte_in a 244 244 then 143 else 191)
           \<and> byte_in c 128 191 \<and> byte_in d 128 191 \<and> valid_utf8 t
         | _ \<Rightarrow> False)
      else False)"

text \<open>\<open>hex.DecodeString\<close>: \<open>None\<close> for an odd length or a byte that is no hex digit.\<close>

definition hex_digit :: "char \<Rightarrow> nat option" where
  "hex_digit c =
     (if byte_in c 48 57 then Some (of_char c - 48)
      else if byte_in c 97 102 then Some (of_char c - 87)
      else if byte_in c 65 70 then Some (of_char c - 55)
      else None)"

fun hex_decode :: "string \<Rightarrow> nat list option" where
  "hex_decode [] = Some []"
| "hex_decode [_] = None"
| "hex_decode (a # b # s) =
     (case (hex_digit a, hex_digit b, hex_decode s) of
        (Some x, Some y, Some bs) \<Rightarrow> Some ((16 * x + y) # bs)
      | _ \<Rightarrow> None)"

lemma hex_decode_length: "hex_decode s = Some bs \<Longrightarrow> length s = 2 * length bs"
  by (induction s arbitrary: bs rule: hex_decode.induct) (auto split: option.splits)

text \<open>\<open>hex.EncodeToString\<close> of bytes given as numbers below 256.\<close>

definition hex_char :: "nat \<Rightarrow> char" where
  "hex_char n = char_of (if n < 10 then 48 + n else 87 + n)"

fun hex_encode :: "nat list \<Rightarrow> string" where
  "hex_encode [] = []"
| "hex_encode (b # bs) = hex_char (b div 16) # hex_char (b mod 16) # hex_encode bs"

lemma hex_encode_Nil [simp]: "hex_encode bs = [] \<longleftrightarrow> bs = []"
  by (cases bs) auto

lemma hex_digit_hex_char: "n < 16 \<Longrightarrow> hex_digit (hex_char n) = Some n"
  by (auto simp: hex_digit_def hex_char_def)

lemma hex_decode_encode: "\<forall>b \<in> set bs. b < 256 \<Longrightarrow> hex_decode (hex_encode bs) = Some bs"
  by (induction bs) (auto simp: hex_digit_hex_char)

text \<open>A lower-case hexadecimal string, as the code's regular expressions ask for.\<close>

definition lower_hex :: "char \<Rightarrow> bool" where
  "lower_hex c \<longleftrightarrow> byte_in c 48 57 \<or> byte_in c 97 102"

section \<open>Machine integers\<close>

text \<open>A value of type \<open>int64\<close> (so of \<open>time.Duration\<close>) is an \<open>int\<close>; \<open>wrap64\<close> is the wrap-around.\<close>

definition wrap64 :: "int \<Rightarrow> int" where
  "wrap64 x = (x + 2 ^ 63) mod 2 ^ 64 - 2 ^ 63"

lemma wrap64_id: "- (2 ^ 63) \<le> x \<Longrightarrow> x < 2 ^ 63 \<Longrightarrow> wrap64 x = x"
  by (simp add: wrap64_def)

lemma wrap64_double:
  assumes "0 < x" "x < 2 ^ 63"
  shows "wrap64 (x * 2) = (if x * 2 < 2 ^ 63 then x * 2 else x * 2 - 2 ^ 64)"
proof (cases "x * 2 < 2 ^ 63")
  case False
  have "(x * 2 + 2 ^ 63) mod 2 ^ 64 = (x * 2 + 2 ^ 63 - 2 ^ 64) mod 2 ^ 64"
    by (metis minus_mod_self2)
  also have "\<dots> = x * 2 + 2 ^ 63 - 2 ^ 64" using False assms by simp
  finally show ?thesis using False by (simp add: wrap64_def)
qed (use assms wrap64_id in simp)

text \<open>\<open>strconv.Itoa\<close>.\<close>

fun nat_digits :: "nat \<Rightarrow> string" where
  "nat_digits n = (if n < 10 then [char_of (48 + n)] else nat_digits (n div 10) @ [char_of (48 + n mod 10)])"

declare nat_digits.simps [simp del]

definition itoa :: "int \<Rightarrow> string" where
  "itoa i = (if i < 0 then CHR ''-'' # nat_digits (nat (- i)) else nat_digits (nat i))"

text \<open>The value of a string of decimal digits.\<close>

definition digits_value :: "string \<Rightarrow> nat" where
  "digits_value s = foldl (\<lambda>n c. 10 * n + (of_char c - 48)) 0 s"

lemma digits_value_nat_digits [simp]: "digits_value (nat_digits n) = n"
proof (induction n rule: nat_digits.induct)
  case (1 n)
  then show ?case by (subst nat_digits.simps) (auto simp: digits_value_def)
qed

lemma nat_digits_digits: "c \<in> set (nat_digits n) \<Longrightarrow> byte_in c 48 57"
proof (induction n rule: nat_digits.induct)
  case (1 n)
  then show ?case by (subst (asm) (2) nat_digits.simps) (auto split: if_splits)
qed

lemma nat_digits_inject: "nat_digits m = nat_digits n \<longleftrightarrow> m = n"
  by (metis digits_value_nat_digits)

lemma nat_digits_not_minus: "nat_digits n \<noteq> CHR ''-'' # s"
  using nat_digits_digits [of "CHR ''-''" n] by fastforce

lemma itoa_inject: "itoa i = itoa k \<longleftrightarrow> i = k"
proof -
  have "nat_digits m \<noteq> CHR ''-'' # s" "CHR ''-'' # s \<noteq> nat_digits m" for m s
    using nat_digits_not_minus [of m s] by metis+
  then show ?thesis by (auto simp: itoa_def nat_digits_inject)
qed

section \<open>Lists and maps\<close>

text \<open>First index with a property: the shape of the code's linear searches.\<close>

fun find_index :: "('a \<Rightarrow> bool) \<Rightarrow> 'a list \<Rightarrow> nat option" where
  "find_index P [] = None"
| "find_index P (x # xs) = (if P x then Some 0 else map_option Suc (find_index P xs))"

lemma find_index_Some:
  "find_index P xs = Some i \<Longrightarrow> i < length xs \<and> P (xs ! i) \<and> (\<forall>j < i. \<not> P (xs ! j))"
proof (induction xs arbitrary: i)
  case (Cons x xs)
  then show ?case by (cases i) (auto split: if_splits simp: less_Suc_eq_0_disj)
qed simp

lemma find_index_None: "find_index P xs = None \<longleftrightarrow> (\<forall>x \<in> set xs. \<not> P x)"
  by (induction xs) auto

lemma find_index_distinct:
  "distinct (map f xs) \<Longrightarrow> i < length xs \<Longrightarrow> find_index (\<lambda>x. f x = f (xs ! i)) xs = Some i"
proof (induction xs arbitrary: i)
  case (Cons x xs)
  then show ?case by (cases i) auto
qed simp

lemma find_SomeD: "find P xs = Some x \<Longrightarrow> x \<in> set xs \<and> P x"
  by (induction xs) (auto split: if_splits)

section \<open>Chains of checks\<close>

text \<open>A validator is a chain of early returns; it accepts when every check passes.\<close>

named_theorems check_simps \<open>when a chain of early returns accepts\<close>

lemma check_if [check_simps]: "((if A then Some e else r) = None) \<longleftrightarrow> \<not> A \<and> r = None"
  by simp

lemma check_option [check_simps]:
  "((case a of None \<Rightarrow> r | Some e \<Rightarrow> Some e) = None) \<longleftrightarrow> a = None \<and> r = None"
  by (simp split: option.split)

lemma check_sum [check_simps]:
  "((case a of Inl e \<Rightarrow> Some e | Inr x \<Rightarrow> f x) = None) \<longleftrightarrow> (\<exists>x. a = Inr x \<and> f x = None)"
  by (simp split: sum.split)

section \<open>Canonical documents\<close>

text \<open>
  The contract between a persisted document and its store: what is written is a
  canonical form, and canonicalising a canonical document changes nothing. The settings
  (validated, with the default logging override dropped) and the subscription catalog
  (normalised, with its defaults filled) both keep it.
\<close>

locale canonical_form =
  fixes canon :: "'a \<Rightarrow> 'e + 'a"
  assumes canon_stable: "canon x = Inr y \<Longrightarrow> canon y = Inr y"
begin

lemma canon_range: "(\<exists>x. canon x = Inr y) \<longleftrightarrow> canon y = Inr y"
  using canon_stable by blast

lemma canon_twice: "canon x = Inr y \<Longrightarrow> canon y = Inr z \<Longrightarrow> z = y"
  using canon_stable by fastforce

text \<open>Any number of save and load cycles keep the document of the first one.\<close>

lemma canon_cycles:
  assumes "canon x = Inr y"
  shows "((\<lambda>r. Option.bind r (\<lambda>d. case canon d of Inl _ \<Rightarrow> None | Inr d' \<Rightarrow> Some d')) ^^ n) (Some y) = Some y"
  using canon_stable [OF assms] by (induction n) simp_all

end

end
