(* ===== verification/Operations.thy ===== *)
theory Operations
  imports Prelude
begin

text \<open>
  Operations that change a state and may fail, in the order in which Go code runs them: a statement, its
  error check, the next statement; \<open>defer\<close>; errors looked at as values. With them the rules that carry a
  condition through such a sequence, with one condition for success and one for failure.
\<close>

section \<open>Operations that may fail\<close>

type_synonym ('a, 'w) io = "'w \<Rightarrow> (go_error + 'a) \<times> 'w"

definition ret :: "'a \<Rightarrow> ('a, 'w) io" where
  "ret x w = (Inr x, w)"

definition throw :: "go_error \<Rightarrow> ('a, 'w) io" where
  "throw e w = (Inl e, w)"

text \<open>Go on with the result, or return the error.\<close>

definition bindE :: "('a, 'w) io \<Rightarrow> ('a \<Rightarrow> ('b, 'w) io) \<Rightarrow> ('b, 'w) io" where
  "bindE m f w = (case m w of (Inl e, w1) \<Rightarrow> (Inl e, w1) | (Inr x, w1) \<Rightarrow> f x w1)"

text \<open>The error of a call as a value, for the code that looks at it.\<close>

definition tryE :: "('a, 'w) io \<Rightarrow> (go_error + 'a, 'w) io" where
  "tryE m w = (case m w of (r, w1) \<Rightarrow> (Inr r, w1))"

text \<open>\<open>defer func() { err = errors.Join(err, f()) }()\<close>.\<close>

definition deferred :: "('a, 'w) io \<Rightarrow> ('w \<Rightarrow> go_error option \<times> 'w) \<Rightarrow> ('a, 'w) io" where
  "deferred m f w =
     (case m w of (r, w1) \<Rightarrow>
       (case f w1 of (c, w2) \<Rightarrow>
         (case errors_join [case r of Inl e \<Rightarrow> Some e | Inr _ \<Rightarrow> None, c] of
            Some e \<Rightarrow> (Inl e, w2)
          | None \<Rightarrow> (r, w2))))"

definition guardE :: "bool \<Rightarrow> go_error \<Rightarrow> (unit, 'w) io" where
  "guardE b e = (if b then ret () else throw e)"

lemmas io_defs = ret_def throw_def bindE_def tryE_def deferred_def guardE_def

lemma bindE_cases:
  assumes "bindE m f w = (r, w')"
  obtains (stop) e where "m w = (Inl e, w')" "r = Inl e" | (go) x w1 where "m w = (Inr x, w1)" "f x w1 = (r, w')"
  using assms by (auto simp: bindE_def split: prod.splits sum.splits)

lemma bindE_Inr: "bindE m f w = (Inr y, w') \<longleftrightarrow> (\<exists>x w1. m w = (Inr x, w1) \<and> f x w1 = (Inr y, w'))"
  by (auto simp: bindE_def split: prod.splits sum.splits)

lemma io_Inr: "ret x w = (Inr y, w') \<longleftrightarrow> y = x \<and> w' = w" "\<not> throw e w = (Inr y, w')"
  "guardE b e w = (Inr u, w') \<longleftrightarrow> b \<and> w' = w"
  by (auto simp: ret_def throw_def guardE_def)

lemma tryE_eq: "tryE m w = (r, w') \<longleftrightarrow> (\<exists>x. r = Inr x \<and> m w = (x, w'))"
  by (auto simp: tryE_def split: prod.splits)

lemma deferred_cases:
  assumes "deferred m f w = (r, w')"
  obtains r1 w1 c where "m w = (r1, w1)" "f w1 = (c, w')"
    "r = (case errors_join [case r1 of Inl e \<Rightarrow> Some e | Inr _ \<Rightarrow> None, c] of Some e \<Rightarrow> Inl e | None \<Rightarrow> r1)"
  using assms by (auto simp: deferred_def split: prod.splits option.splits)

section \<open>Rules for operations\<close>

text \<open>On success the result and the state satisfy \<open>Q\<close>, on failure the state satisfies \<open>E\<close>.\<close>

definition triple :: "('s \<Rightarrow> bool) \<Rightarrow> ('a, 's) io \<Rightarrow> ('a \<Rightarrow> 's \<Rightarrow> bool) \<Rightarrow> ('s \<Rightarrow> bool) \<Rightarrow> bool" where
  "triple P m Q E \<longleftrightarrow> (\<forall>x. P x \<longrightarrow> (case m x of (Inr y, x') \<Rightarrow> Q y x' | (Inl _, x') \<Rightarrow> E x'))"

lemma triple_iff: "triple P m Q E \<longleftrightarrow>
    (\<forall>x y x'. P x \<longrightarrow> m x = (Inr y, x') \<longrightarrow> Q y x') \<and> (\<forall>x e x'. P x \<longrightarrow> m x = (Inl e, x') \<longrightarrow> E x')"
proof
  assume t: "triple P m Q E"
  have "case m x of (Inr y, x') \<Rightarrow> Q y x' | (Inl _, x') \<Rightarrow> E x'" if "P x" for x
    using t that by (simp add: triple_def)
  then show "(\<forall>x y x'. P x \<longrightarrow> m x = (Inr y, x') \<longrightarrow> Q y x') \<and> (\<forall>x e x'. P x \<longrightarrow> m x = (Inl e, x') \<longrightarrow> E x')"
    by fastforce
qed (auto simp: triple_def split: prod.splits sum.splits)

lemma tripleI: "(\<And>x y x'. P x \<Longrightarrow> m x = (Inr y, x') \<Longrightarrow> Q y x') \<Longrightarrow>
    (\<And>x e x'. P x \<Longrightarrow> m x = (Inl e, x') \<Longrightarrow> E x') \<Longrightarrow> triple P m Q E"
  unfolding triple_iff by blast

lemma tripleD: "triple P m Q E \<Longrightarrow> P x \<Longrightarrow> m x = (Inr y, x') \<Longrightarrow> Q y x'"
  "triple P m Q E \<Longrightarrow> P x \<Longrightarrow> m x = (Inl e, x') \<Longrightarrow> E x'"
  unfolding triple_iff by blast+

lemma triple_bind: "triple P m R E \<Longrightarrow> (\<And>y. triple (R y) (f y) Q E) \<Longrightarrow> triple P (bindE m f) Q E"
proof (rule tripleI)
  assume m: "triple P m R E" and f: "\<And>y. triple (R y) (f y) Q E"
  show "Q y x'" if "P x" "bindE m f x = (Inr y, x')" for x y x'
    using that(2) by (cases rule: bindE_cases) (use tripleD(1) [OF f tripleD(1) [OF m that(1)]] in auto)
  show "E x'" if "P x" "bindE m f x = (Inl e, x')" for x e x'
    using that(2) by (cases rule: bindE_cases) (use tripleD(2) [OF m that(1)] tripleD(2) [OF f tripleD(1) [OF m that(1)]] in auto)
qed

lemma triple_pre: "triple P m Q E \<Longrightarrow> (\<And>x. P' x \<Longrightarrow> P x) \<Longrightarrow> triple P' m Q E"
  unfolding triple_iff by blast

lemma triple_post: "triple P m Q' E' \<Longrightarrow> (\<And>y x. Q' y x \<Longrightarrow> Q y x) \<Longrightarrow> (\<And>x. E' x \<Longrightarrow> E x) \<Longrightarrow> triple P m Q E"
  unfolding triple_iff by blast

lemma triple_ret: "(\<And>x. P x \<Longrightarrow> Q y x) \<Longrightarrow> triple P (ret y) Q E"
  by (simp add: triple_def ret_def)

lemma triple_throw: "(\<And>x. P x \<Longrightarrow> E x) \<Longrightarrow> triple P (throw e) Q E"
  by (simp add: triple_def throw_def)

lemma triple_guard: "(\<And>x. P x \<Longrightarrow> b \<Longrightarrow> Q () x) \<Longrightarrow> (\<And>x. P x \<Longrightarrow> E x) \<Longrightarrow> triple P (guardE b e) Q E"
  by (simp add: triple_def guardE_def ret_def throw_def)

lemma triple_pure: "(R \<Longrightarrow> triple P m Q E) \<Longrightarrow> triple (\<lambda>x. P x \<and> R) m Q E"
  by (cases R) (simp_all add: triple_def)

lemma guardE_eq: "guardE b e w = (r, w') \<longleftrightarrow> w' = w \<and> r = (if b then Inr () else Inl e)"
  by (auto simp: guardE_def ret_def throw_def)

text \<open>A failure of a call with another error in its place.\<close>

definition mapE :: "(go_error \<Rightarrow> go_error) \<Rightarrow> ('a, 'w) io \<Rightarrow> ('a, 'w) io" where
  "mapE f x w = (case x w of (Inl e, w1) \<Rightarrow> (Inl (f e), w1) | (Inr y, w1) \<Rightarrow> (Inr y, w1))"

lemma triple_mapE: "triple P m Q E \<Longrightarrow> triple P (mapE f m) Q E"
  by (fastforce simp: triple_def mapE_def split: prod.splits sum.splits)

text \<open>An error that leads to another way out.\<close>

definition catchE :: "('a, 'w) io \<Rightarrow> (go_error \<Rightarrow> ('a, 'w) io) \<Rightarrow> ('a, 'w) io" where
  "catchE m h w = (case m w of (Inl e, w1) \<Rightarrow> h e w1 | (Inr x, w1) \<Rightarrow> (Inr x, w1))"

lemma triple_never: "(\<And>x. \<not> P x) \<Longrightarrow> triple P m Q E"
  by (simp add: triple_iff)

lemma triple_both: "triple P m Q E \<Longrightarrow> triple P' m Q' E' \<Longrightarrow>
    triple (\<lambda>x. P x \<and> P' x) m (\<lambda>y x. Q y x \<and> Q' y x) (\<lambda>x. E x \<and> E' x)"
  unfolding triple_iff by blast

text \<open>The same with a condition on the error.\<close>

definition exits :: "('s \<Rightarrow> bool) \<Rightarrow> ('a, 's) io \<Rightarrow> ('a \<Rightarrow> 's \<Rightarrow> bool) \<Rightarrow> (go_error \<Rightarrow> 's \<Rightarrow> bool) \<Rightarrow> bool" where
  "exits P m Q E \<longleftrightarrow> (\<forall>x y x'. P x \<longrightarrow> m x = (Inr y, x') \<longrightarrow> Q y x') \<and> (\<forall>x e x'. P x \<longrightarrow> m x = (Inl e, x') \<longrightarrow> E e x')"

lemma exits_bind: "exits P m R E \<Longrightarrow> (\<And>y. exits (R y) (f y) Q E) \<Longrightarrow> exits P (bindE m f) Q E"
  unfolding exits_def by (safe; erule bindE_cases) blast+

lemma exits_try:
  assumes "triple P m R F" "\<And>e. exits F (f (Inl e)) Q E" "\<And>y. exits (R y) (f (Inr y)) Q E"
  shows "exits P (bindE (tryE m) f) Q E"
proof (rule exits_bind)
  show "exits P (tryE m) (\<lambda>r x. case r of Inl _ \<Rightarrow> F x | Inr y \<Rightarrow> R y x) E"
    using assms(1) by (auto simp: exits_def triple_iff tryE_eq split: sum.splits)
  show "exits (\<lambda>x. case r of Inl _ \<Rightarrow> F x | Inr y \<Rightarrow> R y x) (f r) Q E" for r using assms(2,3) by (cases r) auto
qed

lemma exits_any: "(\<And>x. \<exists>e x'. m x = (Inl e, x') \<and> D e) \<Longrightarrow> exits P m Q (\<lambda>e x. D e \<or> E x)"
  unfolding exits_def by (metis prod.inject sum.distinct(1) sum.inject(1))

lemma exits_triple: "triple P m Q E \<Longrightarrow> exits P m Q (\<lambda>e x. D e \<or> E x)"
  by (auto simp: exits_def triple_iff)

lemma exits_throw: "(\<And>x. P x \<Longrightarrow> E e x) \<Longrightarrow> exits P (throw e) Q E"
  by (simp add: exits_def throw_def)

lemma exits_post: "exits P m Q E \<Longrightarrow> (\<And>y x. Q y x \<Longrightarrow> Q' y x) \<Longrightarrow> (\<And>e x. E e x \<Longrightarrow> E' e x) \<Longrightarrow> exits P m Q' E'"
  unfolding exits_def by blast

lemma exits_pre: "exits P m Q E \<Longrightarrow> (\<And>x. P' x \<Longrightarrow> P x) \<Longrightarrow> exits P' m Q E"
  unfolding exits_def by blast

end
