(* ===== verification/State_Store.thy ===== *)
theory State_Store
  imports Prelude
begin

text \<open>
  \<open>internal/state\<close>: the snapshot store (\<open>store.go\<close>) and the command coordinator
  (\<open>coordinator.go\<close>).

  The store is modelled twice. The heap model keeps the arrays behind the
  \<open>Subscriptions\<close> slice as addresses, because \<open>clone\<close> exists to keep a caller's
  writes away from the stored snapshot; it refines the value model, in which the store
  holds one snapshot value. The coordinator is written over the value model.
\<close>

type_synonym go_time = int

section \<open>Snapshots\<close>

record subscription_state =
  sub_ID :: string
  sub_Name :: string
  sub_Enabled :: bool
  sub_AutoRefresh :: bool
  sub_Interval :: string
  sub_Cached :: bool
  sub_Generation :: u64
  sub_UpdatedAt :: go_time
  sub_LastError :: string

record core_state =
  core_Status :: string
  core_Version :: string
  core_Channel :: string
  core_AlphaSHA :: string
  core_PID :: int
  core_Restarts :: u64
  core_LastError :: string
  core_NextRetryAt :: go_time
  core_StartedAt :: go_time

record config_state =
  cfg_Status :: string
  cfg_DesiredRevision :: u64
  cfg_ObservedRevision :: u64
  cfg_LastError :: string

text \<open>\<open>'a\<close> is the representation of the \<open>Subscriptions\<close> slice: a list of states in the
  value model, a slice header in the heap model.\<close>

record 'a snapshot =
  Revision :: u64
  Version :: string
  StartedAt :: go_time
  Health :: string
  LastError :: string
  Core :: core_state
  Config :: config_state
  ActiveSubscription :: string
  Subscriptions :: 'a

type_synonym value_snapshot = "subscription_state list snapshot"

definition zero_core :: core_state where
  "zero_core = \<lparr>core_Status = [], core_Version = [], core_Channel = [], core_AlphaSHA = [],
     core_PID = 0, core_Restarts = 0, core_LastError = [], core_NextRetryAt = 0, core_StartedAt = 0\<rparr>"

definition zero_config :: config_state where
  "zero_config = \<lparr>cfg_Status = [], cfg_DesiredRevision = 0, cfg_ObservedRevision = 0, cfg_LastError = []\<rparr>"

definition zero_snapshot :: value_snapshot where
  "zero_snapshot = \<lparr>Revision = 0, Version = [], StartedAt = 0, Health = [], LastError = [],
     Core = zero_core, Config = zero_config, ActiveSubscription = [], Subscriptions = []\<rparr>"

section \<open>The store with its arrays\<close>

text \<open>A slice header: nil, or the address of its backing array. \<open>leaked\<close> is ghost
  state: the addresses a caller of the store has seen.\<close>

type_synonym slice = "nat option"

record store_world =
  arrays :: "nat \<Rightarrow> subscription_state list"
  next_free :: nat
  current :: "slice snapshot"
  leaked :: "nat set"

definition slice_elems :: "store_world \<Rightarrow> slice \<Rightarrow> subscription_state list" where
  "slice_elems w sl = (case sl of None \<Rightarrow> [] | Some a \<Rightarrow> arrays w a)"

text \<open>\<open>append([]SubscriptionState(nil), xs...)\<close>: nil for no elements, else a new array.\<close>

definition copy_slice :: "store_world \<Rightarrow> slice \<Rightarrow> store_world \<times> slice" where
  "copy_slice w sl =
     (case slice_elems w sl of
        [] \<Rightarrow> (w, None)
      | xs \<Rightarrow> (w\<lparr>arrays := (arrays w)(next_free w := xs), next_free := Suc (next_free w)\<rparr>,
               Some (next_free w)))"

definition clone :: "store_world \<Rightarrow> slice snapshot \<Rightarrow> store_world \<times> slice snapshot" where
  "clone w s = (case copy_slice w (Subscriptions s) of (w', sl) \<Rightarrow> (w', s\<lparr>Subscriptions := sl\<rparr>))"

definition store_Store :: "store_world \<Rightarrow> slice snapshot \<Rightarrow> store_world" where
  "store_Store w s = (case clone w s of (w', copy) \<Rightarrow> w'\<lparr>current := copy\<rparr>)"

definition store_Load :: "store_world \<Rightarrow> store_world \<times> slice snapshot" where
  "store_Load w = clone w (current w)"

text \<open>\<open>NewStore\<close>: the store cell is empty before the first \<open>Store\<close>.\<close>

definition NewStore :: "store_world \<Rightarrow> slice snapshot \<Rightarrow> store_world" where
  "NewStore w initial = store_Store w initial"

definition with_subs :: "'a snapshot \<Rightarrow> 'b \<Rightarrow> 'b snapshot" where
  "with_subs s x = \<lparr>Revision = Revision s, Version = Version s, StartedAt = StartedAt s,
     Health = Health s, LastError = LastError s, Core = Core s, Config = Config s,
     ActiveSubscription = ActiveSubscription s, Subscriptions = x\<rparr>"

text \<open>What a snapshot means: its slice replaced by the elements it shows.\<close>

definition view :: "store_world \<Rightarrow> slice snapshot \<Rightarrow> value_snapshot" where
  "view w s = with_subs s (slice_elems w (Subscriptions s))"

subsection \<open>What callers can do\<close>

text \<open>
  A caller loads a snapshot, allocates arrays of its own, writes an element of an array
  it has seen, or stores a snapshot whose slice it has seen. The label of a \<open>Store\<close>
  carries the value stored.
\<close>

datatype store_event = SLoad | SAlloc | SWrite | SStore value_snapshot

inductive store_step :: "store_world \<Rightarrow> store_event \<Rightarrow> store_world \<Rightarrow> bool" where
  load: "store_Load w = (w', s) \<Longrightarrow>
     store_step w SLoad (w'\<lparr>leaked := leaked w' \<union> set_option (Subscriptions s)\<rparr>)"
| alloc: "store_step w SAlloc
     (w\<lparr>arrays := (arrays w)(next_free w := xs), next_free := Suc (next_free w),
        leaked := insert (next_free w) (leaked w)\<rparr>)"
| caller_write: "a \<in> leaked w \<Longrightarrow> i < length (arrays w a) \<Longrightarrow>
     store_step w SWrite (w\<lparr>arrays := (arrays w)(a := (arrays w a)[i := x])\<rparr>)"
| store: "set_option (Subscriptions s) \<subseteq> leaked w \<Longrightarrow>
     store_step w (SStore (view w s)) (store_Store w s)"

inductive_cases store_step_loadE [elim]: "store_step w SLoad w'"
inductive_cases store_step_writeE [elim]: "store_step w SWrite w'"

inductive store_reach :: "store_world \<Rightarrow> bool" where
  start: "set_option (Subscriptions s) \<subseteq> leaked w \<Longrightarrow> (\<forall>a \<in> leaked w. a < next_free w) \<Longrightarrow>
     store_reach (NewStore w s)"
| step: "store_reach w \<Longrightarrow> store_step w e w' \<Longrightarrow> store_reach w'"

text \<open>The value model: the store is one snapshot value.\<close>

fun cell_step :: "value_snapshot \<Rightarrow> store_event \<Rightarrow> value_snapshot" where
  "cell_step v (SStore x) = x"
| "cell_step v _ = v"

subsection \<open>The stored array never escapes\<close>

definition store_ok :: "store_world \<Rightarrow> bool" where
  "store_ok w \<longleftrightarrow> (\<forall>a \<in> set_option (Subscriptions (current w)). a \<notin> leaked w \<and> a < next_free w) \<and>
     (\<forall>a \<in> leaked w. a < next_free w)"

lemma copy_slice_cases:
  obtains (empty) "slice_elems w sl = []" "copy_slice w sl = (w, None)"
  | (fresh) "slice_elems w sl \<noteq> []"
      "copy_slice w sl =
        (w\<lparr>arrays := (arrays w)(next_free w := slice_elems w sl), next_free := Suc (next_free w)\<rparr>,
         Some (next_free w))"
  unfolding copy_slice_def by (cases "slice_elems w sl") auto

lemma store_ok_Store:
  assumes "\<forall>a \<in> leaked w. a < next_free w"
  shows "store_ok (store_Store w s)"
  using assms
  by (cases rule: copy_slice_cases [of w "Subscriptions s"])
     (auto simp: store_Store_def clone_def store_ok_def less_SucI)

lemma store_ok_step: "store_step w e w' \<Longrightarrow> store_ok w \<Longrightarrow> store_ok w'"
proof (induction rule: store_step.induct)
  case (load w w' s)
  then show ?case
    by (cases rule: copy_slice_cases [of w "Subscriptions (current w)"])
       (auto simp: store_Load_def clone_def store_ok_def less_SucI)
next
  case (alloc w xs)
  then show ?case by (auto simp: store_ok_def less_SucI)
next
  case (store s w)
  then show ?case by (intro store_ok_Store) (simp add: store_ok_def)
qed (auto simp: store_ok_def)

lemma store_reach_ok: "store_reach w \<Longrightarrow> store_ok w"
  by (induction rule: store_reach.induct) (auto simp: NewStore_def intro: store_ok_Store store_ok_step)

lemma view_Store:
  "\<forall>a \<in> set_option (Subscriptions s). a < next_free w \<Longrightarrow>
   view (store_Store w s) (current (store_Store w s)) = view w s"
  by (cases rule: copy_slice_cases [of w "Subscriptions s"])
     (auto simp: store_Store_def clone_def view_def with_subs_def slice_elems_def split: option.splits)

lemma view_Load:
  assumes "store_ok w" "store_Load w = (w', s)"
  shows "view w' s = view w (current w)" "view w' (current w') = view w (current w)"
    "current w' = current w" "leaked w' = leaked w"
    "set_option (Subscriptions s) \<inter> (leaked w \<union> set_option (Subscriptions (current w))) = {}"
  using assms
  by (cases rule: copy_slice_cases [of w "Subscriptions (current w)"];
      fastforce simp: store_Load_def clone_def store_ok_def view_def with_subs_def slice_elems_def
        split: option.splits)+

lemma store_step_simulates:
  "store_step w e w' \<Longrightarrow> store_ok w \<Longrightarrow>
   view w' (current w') = cell_step (view w (current w)) e"
proof (induction rule: store_step.induct)
  case (load w w' s)
  then show ?case using view_Load(2,3) [OF load.prems load.hyps]
    by (auto simp: view_def slice_elems_def split: option.splits)
next
  case (store s w)
  then show ?case by (auto simp: store_ok_def intro!: view_Store)
qed (auto simp: store_ok_def view_def slice_elems_def split: option.splits)

section \<open>The coordinator\<close>

record command_meta =
  meta_ID :: string
  meta_Source :: string
  IfRevision :: "u64 option"

type_synonym mutation = "value_snapshot \<Rightarrow> value_snapshot \<times> go_error option"

definition revision_conflict :: "u64 \<Rightarrow> u64 \<Rightarrow> go_error" where
  "revision_conflict expected actual =
     Api \<lparr>err_code = CodeRevisionConflict, err_message = ''state revision changed'',
          err_details = [(''expected_revision'', DU64 expected), (''current_revision'', DU64 actual)]\<rparr>"

text \<open>The part of \<open>Do\<close> after the revision check: run the mutation, commit its snapshot
  under the next revision, or keep the store.\<close>

definition apply_mutation ::
  "mutation \<Rightarrow> value_snapshot \<Rightarrow> (value_snapshot \<times> go_error option) \<times> value_snapshot" where
  "apply_mutation mutate cur =
     (case mutate cur of
        (new, None) \<Rightarrow>
          (let new' = new\<lparr>Revision := Revision cur + 1\<rparr> in ((new', None), new'))
      | (new, Some err) \<Rightarrow>
          (case as_committed err of
             Some inner \<Rightarrow>
               (let new' = new\<lparr>Revision := Revision cur + 1\<rparr>
                in ((new', Some (Errorf ''apply mutation: '' inner)), new'))
           | None \<Rightarrow> ((zero_snapshot, Some (Errorf ''apply mutation: '' err)), cur)))"

text \<open>
  \<open>Coordinator.Do\<close> under its mutex. \<open>ctx_err\<close> is \<open>ctx.Err()\<close> at the call; the first
  component is what the caller gets, the second the store afterwards.
\<close>

definition coordinator_Do ::
  "go_error option \<Rightarrow> command_meta \<Rightarrow> mutation \<Rightarrow> value_snapshot
   \<Rightarrow> (value_snapshot \<times> go_error option) \<times> value_snapshot" where
  "coordinator_Do ctx_err meta mutate cur =
     (case ctx_err of
        Some e \<Rightarrow> ((zero_snapshot, Some e), cur)
      | None \<Rightarrow>
        (case IfRevision meta of
           None \<Rightarrow> apply_mutation mutate cur
         | Some r \<Rightarrow>
             if r \<noteq> Revision cur
             then ((zero_snapshot, Some (revision_conflict r (Revision cur))), cur)
             else apply_mutation mutate cur))"

text \<open>Whether a call commits: its mutation succeeds, or fails with a \<open>CommittedError\<close>.\<close>

definition mutation_commits :: "mutation \<Rightarrow> value_snapshot \<Rightarrow> bool" where
  "mutation_commits mutate cur \<longleftrightarrow>
     (case snd (mutate cur) of None \<Rightarrow> True | Some err \<Rightarrow> as_committed err \<noteq> None)"

definition do_commits :: "go_error option \<Rightarrow> command_meta \<Rightarrow> mutation \<Rightarrow> value_snapshot \<Rightarrow> bool" where
  "do_commits ctx_err meta mutate cur \<longleftrightarrow>
     ctx_err = None \<and> (IfRevision meta = None \<or> IfRevision meta = Some (Revision cur)) \<and>
     mutation_commits mutate cur"

lemma apply_mutation_store:
  "snd (apply_mutation mutate cur) =
     (if mutation_commits mutate cur
      then (fst (mutate cur))\<lparr>Revision := Revision cur + 1\<rparr> else cur)"
  by (auto simp: apply_mutation_def mutation_commits_def Let_def split: prod.splits option.splits)

lemma coordinator_Do_store:
  "snd (coordinator_Do ctx_err meta mutate cur) =
     (if do_commits ctx_err meta mutate cur
      then (fst (mutate cur))\<lparr>Revision := Revision cur + 1\<rparr> else cur)"
  by (auto simp: coordinator_Do_def do_commits_def apply_mutation_store split: option.splits)

text \<open>The mutex makes concurrent calls a sequence of \<open>Do\<close> steps.\<close>

record command =
  cmd_ctx_err :: "go_error option"
  cmd_meta :: command_meta
  cmd_mutate :: mutation

definition exec_command :: "value_snapshot \<Rightarrow> command \<Rightarrow> value_snapshot \<times> bool" where
  "exec_command cur c =
     (snd (coordinator_Do (cmd_ctx_err c) (cmd_meta c) (cmd_mutate c) cur),
      do_commits (cmd_ctx_err c) (cmd_meta c) (cmd_mutate c) cur)"

fun run_commands :: "('s \<Rightarrow> 'c \<Rightarrow> 's \<times> bool) \<Rightarrow> 's \<Rightarrow> 'c list \<Rightarrow> 's \<times> bool list" where
  "run_commands exec s [] = (s, [])"
| "run_commands exec s (c # cs) =
     (case exec s c of (s', ok) \<Rightarrow>
       (case run_commands exec s' cs of (s'', oks) \<Rightarrow> (s'', ok # oks)))"

lemma run_commands_length: "length (snd (run_commands exec s cs)) = length cs"
  by (induction cs arbitrary: s) (auto split: prod.splits, metis snd_conv)

section \<open>Optimistic concurrency\<close>

text \<open>A cell whose commits are numbered: what the coordinator promises its clients.\<close>

locale versioned_cell =
  fixes rev_of :: "'s \<Rightarrow> u64"
    and exec :: "'s \<Rightarrow> 'c \<Rightarrow> 's \<times> bool"
    and guard :: "'c \<Rightarrow> u64 option"
  assumes commit_bumps: "exec s c = (s', True) \<Longrightarrow> rev_of s' = rev_of s + 1"
    and reject_keeps: "exec s c = (s', False) \<Longrightarrow> s' = s"
    and guard_matches: "exec s c = (s', True) \<Longrightarrow> guard c = Some r \<Longrightarrow> rev_of s = r"
begin

lemma run_revision:
  "run_commands exec s cs = (s', oks) \<Longrightarrow> rev_of s' = rev_of s + of_nat (length (filter id oks))"
proof (induction cs arbitrary: s s' oks)
  case (Cons c cs)
  obtain s1 ok where e: "exec s c = (s1, ok)" by fastforce
  obtain s2 oks' where r: "run_commands exec s1 cs = (s2, oks')" by fastforce
  have "rev_of s1 = (if ok then rev_of s + 1 else rev_of s)"
    using e commit_bumps [of s c s1] reject_keeps [of s c s1] by (cases ok) auto
  with Cons.prems Cons.IH [OF r] e r show ?case by auto
qed auto

lemma run_all_rejected: "run_commands exec s cs = (s', oks) \<Longrightarrow> True \<notin> set oks \<Longrightarrow> s' = s"
proof (induction cs arbitrary: s s' oks)
  case (Cons c cs)
  obtain s1 ok where e: "exec s c = (s1, ok)" by fastforce
  obtain s2 oks' where r: "run_commands exec s1 cs = (s2, oks')" by fastforce
  from Cons.prems e r have "\<not> ok" "oks = ok # oks'" "s' = s2" by auto
  with Cons.IH [OF r] Cons.prems e show ?case by (auto dest: reject_keeps)
qed auto

text \<open>The commits of the commands guarded by revision \<open>r\<close>.\<close>

lemma stale_guard_rejected:
  "run_commands exec s cs = (s', oks) \<Longrightarrow> rev_of s = r + of_nat k \<Longrightarrow> 0 < k \<Longrightarrow>
   k + length cs \<le> 2 ^ 64 \<Longrightarrow>
   filter (\<lambda>(c, ok). ok \<and> guard c = Some r) (zip cs oks) = []"
proof (induction cs arbitrary: s s' oks k)
  case (Cons c cs)
  obtain s1 ok where e: "exec s c = (s1, ok)" by fastforce
  obtain s2 oks' where r: "run_commands exec s1 cs = (s2, oks')" by fastforce
  have k: "k < 2 ^ 64" using Cons.prems(4) by simp
  have "(of_nat k :: u64) \<noteq> 0"
    using Cons.prems(3) k by (simp add: word_of_nat_eq_0_iff nat_dvd_not_less)
  then have ne: "rev_of s \<noteq> r" using Cons.prems(2) by simp
  show ?case
  proof (cases ok)
    case True
    then have "rev_of s1 = r + of_nat (Suc k)"
      using e Cons.prems(2) commit_bumps by (simp add: algebra_simps)
    moreover have "guard c \<noteq> Some r" using guard_matches [of s c s1 r] e True ne by auto
    ultimately show ?thesis using Cons.IH [OF r, of "Suc k"] Cons.prems e r by auto
  next
    case False
    then have "s1 = s" using e reject_keeps by auto
    with Cons.IH [OF r, of k] Cons.prems e r False show ?thesis by auto
  qed
qed auto

lemma guarded_commit_once:
  assumes "run_commands exec s cs = (s', oks)" and "length cs \<le> 2 ^ 64"
  shows "length (filter (\<lambda>(c, ok). ok \<and> guard c = Some r) (zip cs oks)) \<le> 1"
  using assms
proof (induction cs arbitrary: s s' oks)
  case (Cons c cs)
  obtain s1 ok where e: "exec s c = (s1, ok)" by fastforce
  obtain s2 oks' where rn: "run_commands exec s1 cs = (s2, oks')" by fastforce
  show ?case
  proof (cases "ok \<and> guard c = Some r")
    case True
    then have "rev_of s1 = r + of_nat 1" using e guard_matches commit_bumps by force
    then have "filter (\<lambda>(c, ok). ok \<and> guard c = Some r) (zip cs oks') = []"
      using stale_guard_rejected [OF rn, of r 1] Cons.prems(2) by simp
    with Cons.prems e rn show ?thesis by auto
  next
    case False
    with Cons.IH [OF rn] Cons.prems e rn show ?thesis by auto
  qed
qed auto

end

interpretation coord: versioned_cell Revision exec_command "\<lambda>c. IfRevision (cmd_meta c)"
  by unfold_locales
     (auto simp: exec_command_def coordinator_Do_store do_commits_def split: if_splits)

section \<open>Properties\<close>

text \<open>
  C16. The snapshot store is isolated from its callers: whatever callers do with the
  snapshots they loaded and the arrays they own, in any reachable world a step of a
  caller changes the stored snapshot exactly as the value model says (only a
  \<open>Store\<close> changes it, and to the value stored), because \<open>clone\<close> copies on the way in
  and on the way out.
\<close>

theorem store_refines_value_cell:
  assumes "store_reach w" and "store_step w e w'"
  shows "view w' (current w') = cell_step (view w (current w)) e"
  using store_step_simulates [OF assms(2)] store_reach_ok [OF assms(1)] by blast

definition demo_sub :: subscription_state where
  "demo_sub = \<lparr>sub_ID = ''a'', sub_Name = ''n'', sub_Enabled = True, sub_AutoRefresh = False,
     sub_Interval = ''12h'', sub_Cached = True, sub_Generation = 1, sub_UpdatedAt = 0,
     sub_LastError = []\<rparr>"

definition demo_world :: store_world where
  "demo_world = \<lparr>arrays = (\<lambda>_. [demo_sub]), next_free = 1,
     current = with_subs zero_snapshot None, leaked = {0}\<rparr>"

theorem store_refines_value_cell_witness:
  "view (NewStore demo_world (with_subs zero_snapshot (Some 0))
          \<lparr>arrays := (arrays (NewStore demo_world (with_subs zero_snapshot (Some 0))))
             (0 := [demo_sub\<lparr>sub_Name := ''changed''\<rparr>])\<rparr>)
        (current (NewStore demo_world (with_subs zero_snapshot (Some 0))))
   = with_subs zero_snapshot [demo_sub]"
proof -
  let ?w = "NewStore demo_world (with_subs zero_snapshot (Some 0))"
  have r: "store_reach ?w"
    by (rule store_reach.start) (simp_all add: demo_world_def with_subs_def)
  have "store_step ?w SWrite
      (?w\<lparr>arrays := (arrays ?w)(0 := (arrays ?w 0)[0 := demo_sub\<lparr>sub_Name := ''changed''\<rparr>])\<rparr>)"
    by (rule store_step.caller_write)
       (simp_all add: NewStore_def store_Store_def clone_def copy_slice_def slice_elems_def
          demo_world_def with_subs_def)
  from store_refines_value_cell [OF r this] show ?thesis
    by (simp add: NewStore_def store_Store_def clone_def copy_slice_def slice_elems_def
          demo_world_def with_subs_def view_def)
qed

text \<open>
  The functional behaviour of \<open>Coordinator.Do\<close> on every branch: a done context or a
  stale revision gives the caller an error and leaves the store alone; a mutation that
  fails leaves the store alone too; a mutation that succeeds, or fails with a
  \<open>CommittedError\<close>, stores its snapshot under the next revision (whatever revision the
  mutation wrote) and returns the stored snapshot.
\<close>

theorem coordinator_Do_behaviour:
  "coordinator_Do ctx_err meta mutate cur =
     (if ctx_err \<noteq> None then ((zero_snapshot, ctx_err), cur)
      else if IfRevision meta \<noteq> None \<and> IfRevision meta \<noteq> Some (Revision cur)
      then ((zero_snapshot, Some (revision_conflict (the (IfRevision meta)) (Revision cur))), cur)
      else if mutation_commits mutate cur
      then (((fst (mutate cur))\<lparr>Revision := Revision cur + 1\<rparr>,
             map_option (\<lambda>err. Errorf ''apply mutation: '' (the (as_committed err))) (snd (mutate cur))),
            (fst (mutate cur))\<lparr>Revision := Revision cur + 1\<rparr>)
      else ((zero_snapshot, map_option (Errorf ''apply mutation: '') (snd (mutate cur))), cur))"
  by (auto simp: coordinator_Do_def apply_mutation_def mutation_commits_def Let_def
        split: option.splits prod.splits)

text \<open>
  C1. No lost update: in any interleaving of at most \<open>2 ^ 64\<close> commands, of all the
  commands whose caller based its change on revision \<open>r\<close> (\<open>IfRevision = r\<close>) at most one
  commits, and the revision counts the commits.
\<close>

theorem no_lost_update:
  assumes "run_commands exec_command cur cs = (final, oks)" and "length cs \<le> 2 ^ 64"
  shows "length (filter (\<lambda>(c, ok). ok \<and> IfRevision (cmd_meta c) = Some r) (zip cs oks)) \<le> 1 \<and>
    Revision final = Revision cur + of_nat (length (filter id oks))"
  using coord.guarded_commit_once [OF assms] coord.run_revision [OF assms(1)] by blast

definition demo_cmd :: command where
  "demo_cmd = \<lparr>cmd_ctx_err = None,
     cmd_meta = \<lparr>meta_ID = ''1'', meta_Source = ''cli'', IfRevision = Some 0\<rparr>,
     cmd_mutate = (\<lambda>s. (s\<lparr>Health := ''ok''\<rparr>, None))\<rparr>"

theorem no_lost_update_witness:
  "length (filter (\<lambda>(c, ok). ok \<and> IfRevision (cmd_meta c) = Some 0)
     (zip [demo_cmd, demo_cmd] [True, False])) \<le> 1 \<and>
   Revision (zero_snapshot\<lparr>Health := ''ok'', Revision := 1\<rparr>) = Revision zero_snapshot + of_nat 1"
proof -
  have "run_commands exec_command zero_snapshot [demo_cmd, demo_cmd] =
      (zero_snapshot\<lparr>Health := ''ok'', Revision := 1\<rparr>, [True, False])"
    by (simp add: exec_command_def coordinator_Do_store do_commits_def mutation_commits_def
          demo_cmd_def zero_snapshot_def)
  from no_lost_update [OF this, of 0] show ?thesis by simp
qed

end
