(* ===== verification/Atomic_File.thy ===== *)
theory Atomic_File
  imports Prelude
begin

text \<open>
  \<open>internal/config/atomic.go\<close>: replacing a file through a temporary sibling. The file
  system maps paths to contents; every system call may fail as a fault record says, and
  the model records the file system after each effect, so that a statement about the
  whole trace is a statement about a crash at any point.
\<close>

type_synonym fs = "string \<Rightarrow> string option"

record commit_result =
  commit_Committed :: bool
  commit_Warning :: "go_error option"

definition no_commit :: commit_result where
  "no_commit = \<lparr>commit_Committed = False, commit_Warning = None\<rparr>"

text \<open>What each call returns; \<open>f_written\<close> is the number of bytes a failing write left.\<close>

record atomic_faults =
  f_mkdir :: "go_error option"
  f_create :: "go_error option"
  f_chmod :: "go_error option"
  f_write :: "go_error option"
  f_written :: nat
  f_sync :: "go_error option"
  f_close :: "go_error option"
  f_replace :: "go_error option"
  f_syncdir :: "go_error option"
  f_remove :: "go_error option"

definition no_faults :: atomic_faults where
  "no_faults = \<lparr>f_mkdir = None, f_create = None, f_chmod = None, f_write = None, f_written = 0,
     f_sync = None, f_close = None, f_replace = None, f_syncdir = None, f_remove = None\<rparr>"

text \<open>\<open>path\<close> is \<open>directory/base\<close>; \<open>os.CreateTemp\<close> replaces the \<open>*\<close> of its pattern.\<close>

definition file_path :: "string \<Rightarrow> string \<Rightarrow> string" where
  "file_path directory base = directory @ ''/'' @ base"

definition temp_path :: "string \<Rightarrow> string \<Rightarrow> string \<Rightarrow> string" where
  "temp_path directory base rnd = directory @ ''/'' @ ''.'' @ base @ ''.tmp-'' @ rnd"

lemma temp_path_neq [simp]: "temp_path d b r \<noteq> file_path d b" "file_path d b \<noteq> temp_path d b r"
proof -
  have "length (file_path d b) < length (temp_path d b r)"
    by (simp add: temp_path_def file_path_def)
  then show "temp_path d b r \<noteq> file_path d b" "file_path d b \<noteq> temp_path d b r" by auto
qed

text \<open>\<open>os.Remove\<close>.\<close>

definition remove_file :: "go_error option \<Rightarrow> fs \<Rightarrow> string \<Rightarrow> go_error option \<times> fs" where
  "remove_file fault f p =
     (case f p of
        None \<Rightarrow> (Some ErrNotExist, f)
      | Some _ \<Rightarrow> (case fault of Some e \<Rightarrow> (Some e, f) | None \<Rightarrow> (None, f(p := None))))"

text \<open>The deferred cleanup of \<open>writeAtomic\<close>.\<close>

definition atomic_cleanup ::
  "atomic_faults \<Rightarrow> bool \<Rightarrow> string \<Rightarrow> fs \<Rightarrow> commit_result \<times> go_error option
   \<Rightarrow> (commit_result \<times> go_error option) \<times> fs" where
  "atomic_cleanup flt closed tmp f res =
     (case res of (result, err) \<Rightarrow>
       (let c1 = (if closed then None else map_option (Errorf ''close temporary file: '') (f_close flt)) in
        (case remove_file (f_remove flt) f tmp of (rm, f') \<Rightarrow>
          (let c2 = (case rm of
                None \<Rightarrow> c1
              | Some e \<Rightarrow> if error_is ErrNotExist e then c1
                          else errors_join [c1, Some (Errorf ''remove temporary file: '' e)]) in
           (case c2 of
              None \<Rightarrow> ((result, err), f')
            | Some _ \<Rightarrow>
                (if commit_Committed result
                 then ((result\<lparr>commit_Warning := errors_join [commit_Warning result, c2]\<rparr>, err), f')
                 else ((result, errors_join [err, c2]), f')))))))"

text \<open>
  \<open>writeAtomic\<close>. The result is the return value and the list of file systems the run
  went through, the last one being the file system it leaves behind.
\<close>

definition writeAtomic ::
  "atomic_faults \<Rightarrow> string \<Rightarrow> string \<Rightarrow> string \<Rightarrow> string \<Rightarrow> fs
   \<Rightarrow> (commit_result \<times> go_error option) \<times> fs list" where
  "writeAtomic flt directory base rnd content f0 =
     (let path = file_path directory base; tmp = temp_path directory base rnd;
          leave = (\<lambda>closed f trace res.
            (case atomic_cleanup flt closed tmp f res of (r, f') \<Rightarrow> (r, trace @ [f'])))
      in
      case f_mkdir flt of
        Some e \<Rightarrow> ((no_commit, Some (Errorf ''create parent directory: '' e)), [f0])
      | None \<Rightarrow>
      (case f_create flt of
        Some e \<Rightarrow> ((no_commit, Some (Errorf ''create temporary file: '' e)), [f0])
      | None \<Rightarrow>
      (let f1 = f0(tmp := Some []) in
      case f_chmod flt of
        Some e \<Rightarrow> leave False f1 [f0, f1] (no_commit, Some (Errorf ''set temporary permissions: '' e))
      | None \<Rightarrow>
      (case f_write flt of
        Some e \<Rightarrow>
          (let fw = f1(tmp := Some (take (f_written flt) content))
           in leave False fw [f0, f1, fw] (no_commit, Some (Errorf ''write temporary file: '' e)))
      | None \<Rightarrow>
      (let f2 = f1(tmp := Some content) in
      case f_sync flt of
        Some e \<Rightarrow> leave False f2 [f0, f1, f2] (no_commit, Some (Errorf ''sync temporary file: '' e))
      | None \<Rightarrow>
      (case f_close flt of
        Some e \<Rightarrow> leave True f2 [f0, f1, f2] (no_commit, Some (Errorf ''close temporary file: '' e))
      | None \<Rightarrow>
      (case f_replace flt of
        Some e \<Rightarrow> leave True f2 [f0, f1, f2] (no_commit, Some (Errorf ''replace active file: '' e))
      | None \<Rightarrow>
      (let f3 = f2(path := Some content, tmp := None) in
        leave True f3 [f0, f1, f2, f3]
          (\<lparr>commit_Committed = True,
            commit_Warning = map_option (Errorf ''sync parent directory: '') (f_syncdir flt)\<rparr>, None)))))))))"

text \<open>\<open>AtomicWrite\<close> turns a warning of a committed write into its error.\<close>

definition AtomicWrite ::
  "atomic_faults \<Rightarrow> string \<Rightarrow> string \<Rightarrow> string \<Rightarrow> string \<Rightarrow> fs \<Rightarrow> go_error option \<times> fs" where
  "AtomicWrite flt directory base rnd content f0 =
     (case writeAtomic flt directory base rnd content f0 of
        ((result, err), trace) \<Rightarrow>
          (case err of Some e \<Rightarrow> (Some e, last trace) | None \<Rightarrow> (commit_Warning result, last trace)))"

section \<open>Cleanup\<close>

lemma remove_file_other [frame_simps]: "p \<noteq> q \<Longrightarrow> snd (remove_file flt f p) q = f q"
  by (auto simp: remove_file_def split: option.splits)

lemma atomic_cleanup_other [frame_simps]:
  "tmp \<noteq> q \<Longrightarrow> snd (atomic_cleanup flt closed tmp f res) q = f q"
  using remove_file_other [of tmp q "f_remove flt" f]
  by (auto simp: atomic_cleanup_def Let_def split: prod.splits option.splits if_splits)

lemma atomic_cleanup_committed [simp]:
  "commit_Committed (fst (fst (atomic_cleanup flt closed tmp f (r, e)))) = commit_Committed r"
  by (auto simp: atomic_cleanup_def Let_def split: prod.splits option.splits)

lemma atomic_cleanup_error:
  "commit_Committed r \<Longrightarrow> snd (fst (atomic_cleanup flt closed tmp f (r, e))) = e"
  "snd (fst (atomic_cleanup flt closed tmp f (r, Some x))) \<noteq> None"
  by (auto simp: atomic_cleanup_def Let_def errors_join_None_iff split: prod.splits option.splits)

lemma atomic_cleanup_removes:
  "f_remove flt = None \<Longrightarrow> snd (atomic_cleanup flt closed tmp f res) tmp = None"
  by (auto simp: atomic_cleanup_def remove_file_def Let_def split: prod.splits option.splits)

text \<open>The cleanup keeps the verdict on the write and everything but the temporary file.\<close>

lemma cleanup_facts:
  assumes "atomic_cleanup flt closed tmp f (r, e) = ((r', e'), f')"
  shows "commit_Committed r' = commit_Committed r \<and> (commit_Committed r \<longrightarrow> e' = e) \<and>
    (e \<noteq> None \<longrightarrow> e' \<noteq> None) \<and> (\<forall>q. q \<noteq> tmp \<longrightarrow> f' q = f q) \<and>
    (f_remove flt = None \<longrightarrow> f' tmp = None)"
proof (intro conjI impI allI)
  note eq = assms
  show "commit_Committed r' = commit_Committed r"
    using atomic_cleanup_committed [of flt closed tmp f r e] eq by simp
  show "e' = e" if "commit_Committed r"
    using atomic_cleanup_error(1) [OF that, of flt closed tmp f e] eq by simp
  show "e' \<noteq> None" if "e \<noteq> None"
    using that atomic_cleanup_error(2) [of flt closed tmp f r "the e"] eq by auto
  show "f' q = f q" if "q \<noteq> tmp" for q
    using atomic_cleanup_other [of tmp q flt closed f "(r, e)"] that eq by simp
  show "f' tmp = None" if "f_remove flt = None"
    using atomic_cleanup_removes [OF that, of closed tmp f "(r, e)"] eq by simp
qed

section \<open>The trace of a write\<close>

lemma writeAtomic_trace_path:
  assumes "writeAtomic flt d b rnd content f0 = ((result, err), trace)" and "f \<in> set trace"
  shows "f (file_path d b) \<in> {f0 (file_path d b), Some content}"
  using assms
  by (auto simp: writeAtomic_def Let_def split: option.splits prod.splits dest!: cleanup_facts)

lemma writeAtomic_trace_other:
  assumes "writeAtomic flt d b rnd content f0 = ((result, err), trace)" and "f \<in> set trace"
    and "q \<noteq> file_path d b" "q \<noteq> temp_path d b rnd"
  shows "f q = f0 q"
  using assms
  by (auto simp: writeAtomic_def Let_def split: option.splits prod.splits dest!: cleanup_facts)

lemma writeAtomic_committed:
  assumes "writeAtomic flt d b rnd content f0 = ((result, err), trace)"
  shows "if commit_Committed result
         then err = None \<and> last trace (file_path d b) = Some content
         else err \<noteq> None \<and> last trace (file_path d b) = f0 (file_path d b)"
  using assms
  by (auto simp: writeAtomic_def Let_def no_commit_def split: option.splits prod.splits
        dest!: cleanup_facts)

lemma writeAtomic_no_litter:
  assumes "writeAtomic flt d b rnd content f0 = ((result, err), trace)"
    and "f0 (temp_path d b rnd) = None" and "f_remove flt = None"
  shows "last trace (temp_path d b rnd) = None"
  using assms
  by (auto simp: writeAtomic_def Let_def split: option.splits prod.splits dest!: cleanup_facts)

lemma writeAtomic_trace_nonempty:
  "writeAtomic flt d b rnd content f0 = (res, trace) \<Longrightarrow> trace \<noteq> []"
  by (auto simp: writeAtomic_def Let_def split: option.splits prod.splits)

section \<open>The interface the documents are saved through\<close>

text \<open>A writer that either commits the new contents or leaves the old ones: what
  \<open>SaveWithCommit\<close> of the settings and \<open>Save\<close> of the catalog rely on.\<close>

locale atomic_writer =
  fixes put :: "string \<Rightarrow> 's \<Rightarrow> (commit_result \<times> go_error option) \<times> 's"
    and contents :: "'s \<Rightarrow> string option"
  assumes committed: "put c s = ((r, e), s') \<Longrightarrow> commit_Committed r \<Longrightarrow> e = None \<and> contents s' = Some c"
    and not_committed: "put c s = ((r, e), s') \<Longrightarrow> \<not> commit_Committed r \<Longrightarrow>
      e \<noteq> None \<and> contents s' = contents s"
begin

lemma error_keeps: "put c s = ((r, Some e), s') \<Longrightarrow> contents s' = contents s"
  using committed not_committed by blast

lemma success_replaces: "put c s = ((r, None), s') \<Longrightarrow> contents s' = Some c"
  using committed not_committed by blast

text \<open>Reading back through a decoder that inverts the encoder gives the document saved.\<close>

lemma save_then_read:
  assumes "put (enc doc) s = ((r, None), s')" and "\<And>x. dec (enc x) = Some x"
  shows "Option.bind (contents s') dec = Some doc"
  using success_replaces [OF assms(1)] assms(2) by simp

end

definition write_file ::
  "atomic_faults \<Rightarrow> string \<Rightarrow> string \<Rightarrow> string \<Rightarrow> string \<Rightarrow> fs \<Rightarrow> (commit_result \<times> go_error option) \<times> fs" where
  "write_file flt d b rnd content f = (case writeAtomic flt d b rnd content f of (res, trace) \<Rightarrow> (res, last trace))"

lemma write_file_no_faults:
  assumes "f (temp_path d b rnd) = None"
  shows "write_file no_faults d b rnd content f =
    ((\<lparr>commit_Committed = True, commit_Warning = None\<rparr>, None), f(file_path d b \<mapsto> content))"
proof -
  have "f(file_path d b \<mapsto> content, temp_path d b rnd := None) = f(file_path d b \<mapsto> content)"
    using assms by (auto simp: fun_eq_iff)
  then show ?thesis
    by (simp add: write_file_def writeAtomic_def no_faults_def atomic_cleanup_def remove_file_def Let_def)
qed

interpretation file_writer: atomic_writer "write_file flt d b rnd" "\<lambda>f. f (file_path d b)"
  for flt d b rnd
proof
  fix c s r e s'
  assume "write_file flt d b rnd c s = ((r, e), s')"
  then obtain trace where t: "writeAtomic flt d b rnd c s = ((r, e), trace)" "s' = last trace"
    by (auto simp: write_file_def split: prod.splits)
  show "e = None \<and> s' (file_path d b) = Some c" if "commit_Committed r"
    using writeAtomic_committed [OF t(1)] that t(2) by simp
  show "e \<noteq> None \<and> s' (file_path d b) = s (file_path d b)" if "\<not> commit_Committed r"
    using writeAtomic_committed [OF t(1)] that t(2) by simp
qed

section \<open>Properties\<close>

text \<open>
  C11. An atomic write is atomic at every instant: in every file system the run passes
  through, so also after a crash at any point, the target holds either its old contents
  or the complete new contents, and no file but the target and the temporary sibling
  changes.
\<close>

theorem writeAtomic_crash_safe:
  assumes "writeAtomic flt d b rnd content f0 = ((result, err), trace)" and "f \<in> set trace"
  shows "f (file_path d b) \<in> {f0 (file_path d b), Some content} \<and>
    (\<forall>q. q \<noteq> file_path d b \<and> q \<noteq> temp_path d b rnd \<longrightarrow> f q = f0 q)"
  using writeAtomic_trace_path [OF assms] writeAtomic_trace_other [OF assms] by blast

theorem writeAtomic_crash_safe_witness:
  "((\<lambda>_. None)(temp_path ''d'' ''f'' ''1'' \<mapsto> ''ne'')) (file_path ''d'' ''f'') \<in> {None, Some ''new''}"
proof -
  let ?flt = "no_faults\<lparr>f_write := Some (Opaque ''disk full''), f_written := 2\<rparr>"
  let ?f = "(\<lambda>_. None)(temp_path ''d'' ''f'' ''1'' \<mapsto> ''ne'')"
  have w: "writeAtomic ?flt ''d'' ''f'' ''1'' ''new'' (\<lambda>_. None) =
      ((no_commit, Some (Errorf ''write temporary file: '' (Opaque ''disk full''))),
       [\<lambda>_. None, (\<lambda>_. None)(temp_path ''d'' ''f'' ''1'' \<mapsto> []), ?f, \<lambda>_. None])"
    by (simp add: writeAtomic_def no_faults_def atomic_cleanup_def remove_file_def Let_def fun_eq_iff)
  from writeAtomic_crash_safe [OF w, of ?f] show ?thesis by simp
qed

text \<open>
  The verdict of an atomic write is exact: it reports \<open>Committed\<close> exactly when it
  returns no error, then the target holds the new contents; an error means the target is
  untouched; and unless removing a file fails, no temporary file is left behind.
\<close>

theorem writeAtomic_verdict:
  assumes "writeAtomic flt d b rnd content f0 = ((result, err), trace)"
    and "f0 (temp_path d b rnd) = None"
  shows "(commit_Committed result \<longleftrightarrow> err = None) \<and>
    last trace (file_path d b) = (if err = None then Some content else f0 (file_path d b)) \<and>
    (f_remove flt = None \<longrightarrow> last trace (temp_path d b rnd) = None)"
  using writeAtomic_committed [OF assms(1)] writeAtomic_no_litter [OF assms]
  by (auto split: if_splits)

theorem writeAtomic_verdict_witness:
  "commit_Committed \<lparr>commit_Committed = True, commit_Warning = Some (Errorf ''sync parent directory: '' (Opaque ''io''))\<rparr> \<and>
   ((\<lambda>_. None)(file_path ''d'' ''f'' \<mapsto> ''new'')) (file_path ''d'' ''f'') = Some ''new'' \<and>
   ((\<lambda>_. None)(file_path ''d'' ''f'' \<mapsto> ''new'')) (temp_path ''d'' ''f'' ''1'') = None"
proof -
  let ?flt = "no_faults\<lparr>f_syncdir := Some (Opaque ''io'')\<rparr>"
  let ?g = "(\<lambda>_. None)(file_path ''d'' ''f'' \<mapsto> ''new'')"
  have w: "writeAtomic ?flt ''d'' ''f'' ''1'' ''new'' (\<lambda>_. None) =
      ((\<lparr>commit_Committed = True,
         commit_Warning = Some (Errorf ''sync parent directory: '' (Opaque ''io''))\<rparr>, None),
       [\<lambda>_. None, (\<lambda>_. None)(temp_path ''d'' ''f'' ''1'' \<mapsto> []),
        (\<lambda>_. None)(temp_path ''d'' ''f'' ''1'' \<mapsto> ''new''), ?g, ?g])"
    by (simp add: writeAtomic_def no_faults_def atomic_cleanup_def remove_file_def Let_def fun_eq_iff)
  from writeAtomic_verdict [OF w] show ?thesis by (simp add: no_faults_def)
qed

end
