(* ===== verification/Settings.thy ===== *)
theory Settings
  imports Atomic_File "HOL-Library.AList"
begin

text \<open>
  \<open>internal/config\<close>: the persisted settings (\<open>settings.go\<close>), the routing intent
  (\<open>routing.go\<close>) and the logging levels (\<open>logging.go\<close>). A Go map is an association
  list with distinct keys under \<open>option\<close> (nil is \<open>None\<close>). The YAML codec is
  third-party code and \<open>netip.ParseAddrPort\<close> is used only through its verdict and two
  accessors, so both are parameters.
\<close>

section \<open>Data\<close>

record logging_settings =
  log_Level :: string
  log_MaxSizeMB :: i64
  log_MaxFiles :: i64

record routing_settings =
  rt_Mode :: string
  rt_GlobalSelections :: "(string \<times> string) list option"
  rt_BootstrapGlobal :: string

text \<open>The dynamic values of the managed \<open>tun\<close> block.\<close>

datatype yaml_value =
    YNull | is_YBool: YBool bool | YInt int | YFloat string | is_YStr: YStr string
  | YSeq "yaml_value list" | YMap "(yaml_value \<times> yaml_value) list"

record settings =
  EgressInterface :: string
  Routing :: "routing_settings option"
  Schema :: string
  MixedAddr :: string
  ControllerAddr :: string
  WebAddr :: string
  ControllerSecret :: string
  SystemProxyDesired :: bool
  Tun :: "(string \<times> yaml_value) list option"
  CoreChannel :: string
  CoreChannelBundle :: string
  Logging :: "logging_settings option"

definition zero_settings :: settings where
  "zero_settings = \<lparr>EgressInterface = [], Routing = None, Schema = [], MixedAddr = [],
     ControllerAddr = [], WebAddr = [], ControllerSecret = [], SystemProxyDesired = False,
     Tun = None, CoreChannel = [], CoreChannelBundle = [], Logging = None\<rparr>"

definition Defaults :: settings where
  "Defaults = zero_settings\<lparr>Schema := ''mihari.settings/v1'', MixedAddr := ''127.0.0.1:9190'',
     ControllerAddr := ''127.0.0.1:9090'', WebAddr := ''127.0.0.1:9191'', CoreChannel := ''stable''\<rparr>"

section \<open>Logging\<close>

definition DefaultLoggingSettings :: logging_settings where
  "DefaultLoggingSettings = \<lparr>log_Level = ''info'', log_MaxSizeMB = 10, log_MaxFiles = 3\<rparr>"

definition EffectiveLogging :: "settings \<Rightarrow> logging_settings" where
  "EffectiveLogging s =
     (case Logging s of
        None \<Rightarrow> DefaultLoggingSettings
      | Some l \<Rightarrow>
        (let e0 = DefaultLoggingSettings;
             e1 = (if log_Level l \<noteq> [] then e0\<lparr>log_Level := log_Level l\<rparr> else e0);
             e2 = (if log_MaxSizeMB l \<noteq> 0 then e1\<lparr>log_MaxSizeMB := log_MaxSizeMB l\<rparr> else e1)
         in if log_MaxFiles l \<noteq> 0 then e2\<lparr>log_MaxFiles := log_MaxFiles l\<rparr> else e2))"

definition SetLogging :: "settings \<Rightarrow> logging_settings \<Rightarrow> settings" where
  "SetLogging s l =
     (if l = DefaultLoggingSettings then s\<lparr>Logging := None\<rparr> else s\<lparr>Logging := Some l\<rparr>)"

definition CoreLoggingLevel :: "settings \<Rightarrow> string" where
  "CoreLoggingLevel s =
     (let level = log_Level (EffectiveLogging s) in if level = ''warn'' then ''warning'' else level)"

definition ActiveLoggingLevel :: "string \<Rightarrow> bool" where
  "ActiveLoggingLevel level \<longleftrightarrow> level \<in> {''debug'', ''info'', ''warn'', ''error''}"

definition ObservedLoggingLevel :: "string \<Rightarrow> string \<times> bool" where
  "ObservedLoggingLevel level0 =
     (let level = (if level0 = ''warning'' then ''warn'' else level0)
      in (level, level = ''silent'' \<or> ActiveLoggingLevel level))"

section \<open>Routing\<close>

definition ValidRoutingMode :: "string \<Rightarrow> bool" where
  "ValidRoutingMode mode \<longleftrightarrow> mode = ''rule'' \<or> mode = ''global'' \<or> mode = ''direct''"

definition RoutingMode :: "settings \<Rightarrow> string" where
  "RoutingMode s =
     (case Routing s of None \<Rightarrow> ''rule'' | Some r \<Rightarrow> if rt_Mode r = [] then ''rule'' else rt_Mode r)"

text \<open>Reading a Go map: the zero value for a missing key, also of a nil map.\<close>

definition map_get :: "(string \<times> string) list option \<Rightarrow> string \<Rightarrow> string" where
  "map_get m k = (case m of None \<Rightarrow> [] | Some al \<Rightarrow> (case map_of al k of None \<Rightarrow> [] | Some v \<Rightarrow> v))"

definition GlobalSelection :: "settings \<Rightarrow> string \<Rightarrow> string" where
  "GlobalSelection s sid =
     (case Routing s of
        None \<Rightarrow> []
      | Some r \<Rightarrow> if sid = [] then rt_BootstrapGlobal r else map_get (rt_GlobalSelections r) sid)"

definition zero_routing :: routing_settings where
  "zero_routing = \<lparr>rt_Mode = [], rt_GlobalSelections = None, rt_BootstrapGlobal = []\<rparr>"

definition SetRoutingMode :: "settings \<Rightarrow> string \<Rightarrow> settings" where
  "SetRoutingMode s mode =
     (let r = (case Routing s of None \<Rightarrow> zero_routing | Some r \<Rightarrow> r)
      in s\<lparr>Routing := Some (r\<lparr>rt_Mode := mode\<rparr>)\<rparr>)"

definition SetGlobalSelection :: "settings \<Rightarrow> string \<Rightarrow> string \<Rightarrow> settings" where
  "SetGlobalSelection s sid name =
     (let r = (case Routing s of None \<Rightarrow> zero_routing\<lparr>rt_Mode := RoutingMode s\<rparr> | Some r \<Rightarrow> r)
      in if sid = [] then s\<lparr>Routing := Some (r\<lparr>rt_BootstrapGlobal := name\<rparr>)\<rparr>
         else if name = [] then
           s\<lparr>Routing := Some (r\<lparr>rt_GlobalSelections :=
               map_option (AList.delete sid) (rt_GlobalSelections r)\<rparr>)\<rparr>
         else
           (let m = (case rt_GlobalSelections r of None \<Rightarrow> [] | Some al \<Rightarrow> al)
            in s\<lparr>Routing := Some (r\<lparr>rt_GlobalSelections := Some (AList.update sid name m)\<rparr>)\<rparr>))"

definition valid_selection_name :: "string \<Rightarrow> bool" where
  "valid_selection_name name \<longleftrightarrow> length name \<le> 4096 \<and> valid_utf8 name"

definition validateRouting :: "routing_settings option \<Rightarrow> go_error option" where
  "validateRouting routing =
     (case routing of
        None \<Rightarrow> None
      | Some r \<Rightarrow>
        (let m = (case rt_GlobalSelections r of None \<Rightarrow> [] | Some al \<Rightarrow> al) in
         if rt_Mode r \<noteq> [] \<and> \<not> ValidRoutingMode (rt_Mode r)
         then Some (data_error ''invalid routing mode'')
         else if \<not> valid_selection_name (rt_BootstrapGlobal r) \<or> length m > 4096
         then Some (data_error ''invalid GLOBAL selections'')
         else if list_ex (\<lambda>(sid, name). sid = [] \<or> length sid > 256 \<or> \<not> valid_utf8 sid \<or>
                 \<not> valid_selection_name name) m
         then Some (data_error ''invalid GLOBAL selection'')
         else None))"

section \<open>Validation\<close>

text \<open>What the code uses of a parsed \<open>netip.AddrPort\<close>.\<close>

record endpoint =
  ep_loopback :: bool
  ep_port :: "16 word"

type_synonym addr_parser = "string \<Rightarrow> endpoint option"

definition parseEndpoint :: "addr_parser \<Rightarrow> string \<Rightarrow> string \<Rightarrow> bool \<Rightarrow> go_error + endpoint" where
  "parseEndpoint parse name val loopback =
     (case parse val of
        None \<Rightarrow> Inl (data_error (name @ '' must be an IP address and valid port''))
      | Some ep \<Rightarrow>
          if ep_port ep = 0 then Inl (data_error (name @ '' must be an IP address and valid port''))
          else if loopback \<and> \<not> ep_loopback ep
          then Inl (data_error (name @ '' must use a loopback address''))
          else Inr ep)"

definition validateTun :: "(string \<times> yaml_value) list option \<Rightarrow> go_error option" where
  "validateTun tun =
     (case tun of
        None \<Rightarrow> None
      | Some m \<Rightarrow>
          if (case map_of m ''enable'' of None \<Rightarrow> False | Some v \<Rightarrow> \<not> is_YBool v)
          then Some (data_error ''tun.enable must be a boolean'')
          else if (case map_of m ''stack'' of None \<Rightarrow> False | Some v \<Rightarrow> \<not> is_YStr v)
          then Some (data_error ''tun.stack must be a string'')
          else None)"

definition valid_secret :: "string \<Rightarrow> bool" where
  "valid_secret secret \<longleftrightarrow>
     (case hex_decode secret of None \<Rightarrow> False | Some decoded \<Rightarrow> length decoded = 32)"

definition validateTail :: "settings \<Rightarrow> go_error option" where
  "validateTail s =
     (if ControllerSecret s \<noteq> [] \<and> \<not> valid_secret (ControllerSecret s)
      then Some (data_error ''invalid controller secret'')
      else (case validateTun (Tun s) of
        Some e \<Rightarrow> Some e
      | None \<Rightarrow>
        (let l = EffectiveLogging s in
         if log_Level l \<notin> {''debug'', ''info'', ''warn'', ''error'', ''silent''}
         then Some (data_error ''invalid log level'')
         else if log_MaxSizeMB l < 1 \<or> log_MaxSizeMB l > 100
         then Some (data_error ''log max size must be between 1 and 100 MiB'')
         else if log_MaxFiles l < 1 \<or> log_MaxFiles l > 10
         then Some (data_error ''log max files must be between 1 and 10'')
         else if CoreChannel s \<notin> {[], ''stable'', ''alpha''}
         then Some (data_error ''invalid core channel'')
         else None)))"

definition Validate :: "addr_parser \<Rightarrow> settings \<Rightarrow> go_error option" where
  "Validate parse s =
     (case validateRouting (Routing s) of
        Some e \<Rightarrow> Some e
      | None \<Rightarrow>
        if Schema s \<noteq> ''mihari.settings/v1'' then Some (data_error ''unsupported settings schema'')
        else
        (case parseEndpoint parse ''mixed-addr'' (MixedAddr s) False of
           Inl e \<Rightarrow> Some e
         | Inr mixed \<Rightarrow>
        (case parseEndpoint parse ''controller-addr'' (ControllerAddr s) True of
           Inl e \<Rightarrow> Some e
         | Inr controller \<Rightarrow>
        (case parseEndpoint parse ''web-addr'' (WebAddr s) True of
           Inl e \<Rightarrow> Some e
         | Inr web \<Rightarrow>
             if ep_port mixed = ep_port controller \<or> ep_port mixed = ep_port web \<or>
                ep_port controller = ep_port web
             then Some (data_error ''managed ports must be distinct'')
             else validateTail s))))"

section \<open>Copying\<close>

text \<open>\<open>cloneYAMLReflect\<close> rebuilds every container of a dynamic value.\<close>

fun cloneYAMLValue :: "yaml_value \<Rightarrow> yaml_value" where
  "cloneYAMLValue (YSeq vs) = YSeq (map cloneYAMLValue vs)"
| "cloneYAMLValue (YMap kvs) = YMap (map (\<lambda>(k, v). (cloneYAMLValue k, cloneYAMLValue v)) kvs)"
| "cloneYAMLValue v = v"

definition Clone :: "settings \<Rightarrow> settings" where
  "Clone s = s\<lparr>Routing := map_option (\<lambda>r. r\<lparr>rt_GlobalSelections :=
                 map_option (map (\<lambda>(sid, name). (sid, name))) (rt_GlobalSelections r)\<rparr>) (Routing s),
       Logging := map_option (\<lambda>l. l) (Logging s),
       Tun := map_option (map (\<lambda>(k, v). (k, cloneYAMLValue v))) (Tun s)\<rparr>"

section \<open>The core-channel sidecar\<close>

text \<open>\<open>ParseCoreChannelSidecar\<close>: \<open>Some (channel, stamp)\<close> for a well-formed file.\<close>

definition ParseCoreChannelSidecar :: "string \<Rightarrow> (string \<times> string) option" where
  "ParseCoreChannelSidecar raw =
     (case split_on (CHR 0x0A) (crlf_to_lf raw) of
        l0 # l1 # _ \<Rightarrow>
          (let channel = trim_space l0; stamp = trim_space l1 in
           if stamp = [] \<or> (channel \<noteq> ''stable'' \<and> channel \<noteq> ''alpha'') then None
           else Some (channel, stamp))
      | _ \<Rightarrow> None)"

text \<open>\<open>ApplyCoreChannelSidecar\<close>; the first argument is the result of \<open>os.ReadFile\<close>.\<close>

definition ApplyCoreChannelSidecar ::
  "go_error + string \<Rightarrow> settings \<Rightarrow> (bool \<times> go_error option) \<times> settings" where
  "ApplyCoreChannelSidecar file s =
     (case file of
        Inl err \<Rightarrow> if error_is ErrNotExist err then ((False, None), s) else ((False, Some err), s)
      | Inr raw \<Rightarrow>
        (case ParseCoreChannelSidecar raw of
           None \<Rightarrow> ((False, None), s)
         | Some (channel, stamp) \<Rightarrow>
             if CoreChannelBundle s = stamp then ((False, None), s)
             else ((True, None), s\<lparr>CoreChannel := channel, CoreChannelBundle := stamp\<rparr>)))"

section \<open>Loading and saving\<close>

text \<open>The outcomes of opening and decoding a settings file. \<open>file_extra\<close> is the error of
  the second \<open>Decode\<close> (\<open>None\<close>: a second document was there).\<close>

record settings_file =
  file_open :: "go_error option"
  file_size :: "go_error + nat"
  file_decode :: "go_error + settings"
  file_extra :: "go_error option"

definition max_settings_size :: nat where
  "max_settings_size = 1048576"

definition Load :: "addr_parser \<Rightarrow> settings_file \<Rightarrow> go_error + settings" where
  "Load parse f =
     (case file_open f of
        Some e \<Rightarrow> Inl e
      | None \<Rightarrow>
     (case file_size f of
        Inl e \<Rightarrow> Inl e
      | Inr n \<Rightarrow>
        if n > max_settings_size then Inl (data_error ''settings file is too large'')
        else
     (case file_decode f of
        Inl e \<Rightarrow> Inl (dataError ''invalid settings file'' [Some e])
      | Inr s \<Rightarrow>
        if \<not> (case file_extra f of None \<Rightarrow> False | Some e \<Rightarrow> error_is ErrEOF e)
        then Inl (dataError ''settings file must contain one document'' [file_extra f])
        else (case Validate parse s of
           Some e \<Rightarrow> Inl e
         | None \<Rightarrow>
             if ControllerSecret s = [] then Inl (data_error ''controller secret is required'')
             else Inr s))))"

text \<open>What \<open>SaveWithCommit\<close> marshals: the logging override in its canonical form.\<close>

definition canonical_settings :: "settings \<Rightarrow> settings" where
  "canonical_settings s = SetLogging (Clone s) (EffectiveLogging s)"

text \<open>\<open>marshal\<close> is \<open>yaml.Marshal\<close>, \<open>put\<close> is \<open>AtomicWriteWithCommit\<close> on the settings path.\<close>

definition SaveWithCommit ::
  "addr_parser \<Rightarrow> (settings \<Rightarrow> go_error + string)
   \<Rightarrow> (string \<Rightarrow> 's \<Rightarrow> (commit_result \<times> go_error option) \<times> 's)
   \<Rightarrow> settings \<Rightarrow> 's \<Rightarrow> (commit_result \<times> go_error option) \<times> 's" where
  "SaveWithCommit parse marshal put s w =
     (case Validate parse s of
        Some e \<Rightarrow> ((no_commit, Some e), w)
      | None \<Rightarrow>
        if ControllerSecret s = [] then ((no_commit, Some (data_error ''controller secret is required'')), w)
        else (case marshal (canonical_settings s) of
           Inl e \<Rightarrow> ((no_commit, Some (Errorf ''encode settings: '' e)), w)
         | Inr content \<Rightarrow>
             if length content > max_settings_size
             then ((no_commit, Some (data_error ''settings file is too large'')), w)
             else put content w))"

subsection \<open>First creation under a lock file\<close>

text \<open>The operations \<open>loadOrCreateWithOpsOutcome\<close> calls, over a world \<open>'w\<close>: the clock in
  nanoseconds, the settings file, its lock file, the random source and the sidecar.\<close>

record 'w creation_ops =
  op_now :: "'w \<Rightarrow> int \<times> 'w"
  op_sleep :: "int \<Rightarrow> 'w \<Rightarrow> 'w"
  op_load :: "'w \<Rightarrow> (go_error + settings) \<times> 'w"
  op_save :: "settings \<Rightarrow> 'w \<Rightarrow> (commit_result \<times> go_error option) \<times> 'w"
  op_openLock :: "'w \<Rightarrow> go_error option \<times> 'w"
  op_closeLock :: "'w \<Rightarrow> go_error option \<times> 'w"
  op_removeLock :: "'w \<Rightarrow> go_error option \<times> 'w"
  op_transient :: "go_error \<Rightarrow> bool"
  op_mkdir :: "'w \<Rightarrow> go_error option \<times> 'w"
  op_rand :: "'w \<Rightarrow> (go_error + nat list) \<times> 'w"
  op_readSidecar :: "'w \<Rightarrow> (go_error + string) \<times> 'w"

definition init_timeout :: go_error where
  "init_timeout = data_error ''timed out waiting for settings initialization''"

text \<open>
  \<open>waitForSettingsOrCreationLock\<close>, with fuel for the loop: \<open>Inr (Some s)\<close> when another
  process created the file, \<open>Inr None\<close> when this process holds the lock.
\<close>

fun waitForSettingsOrCreationLock ::
  "nat \<Rightarrow> int \<Rightarrow> 'w creation_ops \<Rightarrow> 'w \<Rightarrow> ((go_error + settings option) \<times> 'w) option" where
  "waitForSettingsOrCreationLock 0 deadline ops w = None"
| "waitForSettingsOrCreationLock (Suc fuel) deadline ops w =
     (let (t, w1) = op_now ops w in
      if \<not> t < deadline then Some (Inl init_timeout, w1)
      else let (lock_err, w2) = op_openLock ops w1 in
      case lock_err of
        None \<Rightarrow> Some (Inr None, w2)
      | Some err \<Rightarrow>
        let (loaded, w3) = op_load ops w2 in
        case loaded of
          Inr s \<Rightarrow> Some (Inr (Some s), w3)
        | Inl load_err \<Rightarrow>
          if \<not> error_is ErrExist err \<and> \<not> op_transient ops err
          then Some (Inl (Errorf ''create settings lock: '' err), w3)
          else if \<not> error_is ErrNotExist load_err \<and> \<not> op_transient ops load_err
          then Some (Inl load_err, w3)
          else let (t', w4) = op_now ops w3 in
            if \<not> t' < deadline then Some (Inl init_timeout, w4)
            else waitForSettingsOrCreationLock fuel deadline ops (op_sleep ops 10000000 w4))"

text \<open>The loop of \<open>loadOrCreateWithOpsOutcome\<close> that runs while holding the lock:
  \<open>Inr None\<close> when the file is absent and must be created.\<close>

fun recheckUnderLock ::
  "nat \<Rightarrow> int \<Rightarrow> 'w creation_ops \<Rightarrow> 'w \<Rightarrow> ((go_error + settings option) \<times> 'w) option" where
  "recheckUnderLock 0 deadline ops w = None"
| "recheckUnderLock (Suc fuel) deadline ops w =
     (let (t, w1) = op_now ops w in
      if \<not> t < deadline then Some (Inl init_timeout, w1)
      else let (loaded, w2) = op_load ops w1 in
      case loaded of
        Inr s \<Rightarrow> Some (Inr (Some s), w2)
      | Inl err \<Rightarrow>
        if error_is ErrNotExist err then Some (Inr None, w2)
        else if \<not> op_transient ops err then Some (Inl err, w2)
        else let (t', w3) = op_now ops w2 in
          if \<not> t' < deadline then Some (Inl init_timeout, w3)
          else recheckUnderLock fuel deadline ops (op_sleep ops 10000000 w3))"

record load_outcome =
  lo_settings :: settings
  lo_created :: bool
  lo_result :: commit_result
  lo_err :: "go_error option"

definition lo_fail :: "commit_result \<Rightarrow> go_error \<Rightarrow> load_outcome" where
  "lo_fail r e = \<lparr>lo_settings = zero_settings, lo_created = False, lo_result = r, lo_err = Some e\<rparr>"

definition applySidecarIfPresent ::
  "'w creation_ops \<Rightarrow> string \<Rightarrow> settings \<Rightarrow> 'w \<Rightarrow> ((bool \<times> go_error option) \<times> settings) \<times> 'w" where
  "applySidecarIfPresent ops sidecar s w =
     (if sidecar = [] then (((False, None), s), w)
      else let (file, w1) = op_readSidecar ops w in (ApplyCoreChannelSidecar file s, w1))"

definition persistSidecarIfChangedOutcome ::
  "'w creation_ops \<Rightarrow> string \<Rightarrow> settings \<Rightarrow> 'w \<Rightarrow> load_outcome \<times> 'w" where
  "persistSidecarIfChangedOutcome ops sidecar s w =
     (let (((changed, err), s1), w1) = applySidecarIfPresent ops sidecar s w in
      case err of
        Some e \<Rightarrow> (lo_fail no_commit e, w1)
      | None \<Rightarrow>
        if changed then
          (let ((result, save_err), w2) = op_save ops s1 w1 in
           case save_err of
             Some e \<Rightarrow> (lo_fail result e, w2)
           | None \<Rightarrow> (\<lparr>lo_settings = s1, lo_created = False, lo_result = result, lo_err = None\<rparr>, w2))
        else (\<lparr>lo_settings = s1, lo_created = False, lo_result = no_commit, lo_err = None\<rparr>, w1))"

text \<open>Creating the file: defaults, a random controller secret, the sidecar, one save.\<close>

definition createSettings :: "'w creation_ops \<Rightarrow> string \<Rightarrow> 'w \<Rightarrow> load_outcome \<times> 'w" where
  "createSettings ops sidecar w =
     (let (secret, w1) = op_rand ops w in
      case secret of
        Inl e \<Rightarrow> (lo_fail no_commit (Errorf ''generate controller secret: '' e), w1)
      | Inr bytes \<Rightarrow>
        (let s0 = Defaults\<lparr>ControllerSecret := hex_encode bytes\<rparr>;
             (((_, err), s1), w2) = applySidecarIfPresent ops sidecar s0 w1 in
         case err of
           Some e \<Rightarrow> (lo_fail no_commit e, w2)
         | None \<Rightarrow>
           (let ((result, save_err), w3) = op_save ops s1 w2 in
            case save_err of
              Some e \<Rightarrow> (lo_fail result e, w3)
            | None \<Rightarrow> (\<lparr>lo_settings = s1, lo_created = True, lo_result = result, lo_err = None\<rparr>, w3))))"

text \<open>The deferred release of the lock.\<close>

definition releaseLock :: "'w creation_ops \<Rightarrow> load_outcome \<Rightarrow> 'w \<Rightarrow> load_outcome \<times> 'w" where
  "releaseLock ops out w =
     (let (close_err, w1) = op_closeLock ops w;
          (rm, w2) = op_removeLock ops w1;
          remove_err = (case rm of None \<Rightarrow> None | Some e \<Rightarrow> if error_is ErrNotExist e then None else Some e);
          cleanup = errors_join [close_err, remove_err] in
      if cleanup = None then (out, w2)
      else if lo_err out \<noteq> None then (out\<lparr>lo_err := errors_join [lo_err out, cleanup]\<rparr>, w2)
      else (out\<lparr>lo_result := (lo_result out)\<lparr>commit_Warning :=
              errors_join [commit_Warning (lo_result out), cleanup]\<rparr>\<rparr>, w2))"

definition createUnderLock ::
  "nat \<Rightarrow> int \<Rightarrow> 'w creation_ops \<Rightarrow> string \<Rightarrow> 'w \<Rightarrow> (load_outcome \<times> 'w) option" where
  "createUnderLock fuel deadline ops sidecar w =
     (case recheckUnderLock fuel deadline ops w of
        None \<Rightarrow> None
      | Some (found, w1) \<Rightarrow>
          Some (case (case found of
                   Inl e \<Rightarrow> (lo_fail no_commit e, w1)
                 | Inr (Some s) \<Rightarrow> persistSidecarIfChangedOutcome ops sidecar s w1
                 | Inr None \<Rightarrow> createSettings ops sidecar w1)
                of (out, w2) \<Rightarrow> releaseLock ops out w2))"

text \<open>\<open>loadOrCreateWithOpsOutcome\<close>; \<open>None\<close> only when the fuel for a loop runs out.\<close>

definition loadOrCreateWithOpsOutcome ::
  "nat \<Rightarrow> 'w creation_ops \<Rightarrow> string \<Rightarrow> 'w \<Rightarrow> (load_outcome \<times> 'w) option" where
  "loadOrCreateWithOpsOutcome fuel ops sidecar w =
     (let (t0, w1) = op_now ops w; deadline = t0 + 10000000000;
          (loaded, w2) = op_load ops w1 in
      case loaded of
        Inr s \<Rightarrow> Some (persistSidecarIfChangedOutcome ops sidecar s w2)
      | Inl err \<Rightarrow>
        if \<not> error_is ErrNotExist err \<and> \<not> op_transient ops err then Some (lo_fail no_commit err, w2)
        else let (mk, w3) = op_mkdir ops w2 in
        case mk of
          Some e \<Rightarrow> Some (lo_fail no_commit (Errorf ''create settings directory: '' e), w3)
        | None \<Rightarrow>
          (case waitForSettingsOrCreationLock fuel deadline ops w3 of
             None \<Rightarrow> None
           | Some (Inl e, w4) \<Rightarrow> Some (lo_fail no_commit e, w4)
           | Some (Inr (Some s), w4) \<Rightarrow> Some (persistSidecarIfChangedOutcome ops sidecar s w4)
           | Some (Inr None, w4) \<Rightarrow> createUnderLock fuel deadline ops sidecar w4))"

text \<open>\<open>loadOrCreate\<close> and its public wrappers: a warning of the outcome becomes the error.\<close>

definition loadOrCreateWithOps ::
  "nat \<Rightarrow> 'w creation_ops \<Rightarrow> string \<Rightarrow> 'w \<Rightarrow> ((settings \<times> bool \<times> go_error option) \<times> 'w) option" where
  "loadOrCreateWithOps fuel ops sidecar w =
     map_option (\<lambda>(out, w').
       (if lo_err out \<noteq> None then (zero_settings, False, lo_err out)
        else (lo_settings out, lo_created out, commit_Warning (lo_result out)), w'))
       (loadOrCreateWithOpsOutcome fuel ops sidecar w)"

section \<open>Lemmas\<close>

lemma cloneYAMLValue_id [simp]: "cloneYAMLValue v = v"
proof (induction v rule: cloneYAMLValue.induct)
  case (2 kvs)
  then have "map (\<lambda>(k, v). (cloneYAMLValue k, cloneYAMLValue v)) kvs = kvs"
    by (intro map_idI) (metis case_prod_conv surj_pair)
  then show ?case by simp
qed (auto simp: map_idI)

lemma Clone_id [simp]: "Clone s = s"
  by (cases s) (auto simp: Clone_def option.map_ident case_prod_beta' intro!: option.map_ident_strong)

lemma EffectiveLogging_nonzero:
  "log_Level (EffectiveLogging s) \<noteq> [] \<and> log_MaxSizeMB (EffectiveLogging s) \<noteq> 0 \<and>
   log_MaxFiles (EffectiveLogging s) \<noteq> 0"
  by (auto simp: EffectiveLogging_def DefaultLoggingSettings_def Let_def split: option.splits)

lemma EffectiveLogging_SetLogging:
  assumes "log_Level l \<noteq> []" "log_MaxSizeMB l \<noteq> 0" "log_MaxFiles l \<noteq> 0"
  shows "EffectiveLogging (SetLogging s l) = l"
  using assms by (cases l) (auto simp: EffectiveLogging_def SetLogging_def DefaultLoggingSettings_def Let_def)

lemma EffectiveLogging_canonical [simp]: "EffectiveLogging (canonical_settings s) = EffectiveLogging s"
  using EffectiveLogging_nonzero by (simp add: canonical_settings_def EffectiveLogging_SetLogging)

lemma canonical_settings_idem [simp]: "canonical_settings (canonical_settings s) = canonical_settings s"
  using EffectiveLogging_canonical [of s]
  by (auto simp: canonical_settings_def SetLogging_def)

lemma canonical_settings_frame [frame_simps]:
  "(canonical_settings s)\<lparr>Logging := x\<rparr> = s\<lparr>Logging := x\<rparr>"
  by (simp add: canonical_settings_def SetLogging_def)

lemma canonical_settings_fields [simp]:
  "Routing (canonical_settings s) = Routing s" "Schema (canonical_settings s) = Schema s"
  "MixedAddr (canonical_settings s) = MixedAddr s" "ControllerAddr (canonical_settings s) = ControllerAddr s"
  "WebAddr (canonical_settings s) = WebAddr s" "ControllerSecret (canonical_settings s) = ControllerSecret s"
  "Tun (canonical_settings s) = Tun s" "CoreChannel (canonical_settings s) = CoreChannel s"
  by (simp_all add: canonical_settings_def SetLogging_def)

lemma Validate_canonical [simp]: "Validate parse (canonical_settings s) = Validate parse s"
  by (simp add: Validate_def validateTail_def split: option.split sum.split)

text \<open>The document a save hands to the encoder.\<close>

definition settings_canon :: "addr_parser \<Rightarrow> settings \<Rightarrow> go_error + settings" where
  "settings_canon parse s =
     (case Validate parse s of
        Some e \<Rightarrow> Inl e
      | None \<Rightarrow> if ControllerSecret s = [] then Inl (data_error ''controller secret is required'')
                else Inr (canonical_settings s))"

interpretation settings_doc: canonical_form "settings_canon parse" for parse
  by unfold_locales (auto simp: settings_canon_def split: option.splits if_splits)

lemma SaveWithCommit_canon:
  "SaveWithCommit parse marshal put s w =
     (case settings_canon parse s of
        Inl e \<Rightarrow> ((no_commit, Some e), w)
      | Inr doc \<Rightarrow>
          (case marshal doc of
             Inl e \<Rightarrow> ((no_commit, Some (Errorf ''encode settings: '' e)), w)
           | Inr content \<Rightarrow>
               if length content > max_settings_size
               then ((no_commit, Some (data_error ''settings file is too large'')), w)
               else put content w))"
  by (auto simp: SaveWithCommit_def settings_canon_def split: option.splits sum.splits)

text \<open>Fuel: each turn of a waiting loop sleeps ten milliseconds, so a clock that follows
  the sleeps reaches the deadline.\<close>

definition clock_laws :: "'w creation_ops \<Rightarrow> ('w \<Rightarrow> int) \<Rightarrow> bool" where
  "clock_laws ops clk \<longleftrightarrow>
     (\<forall>w. fst (op_now ops w) = clk w \<and> clk w \<le> clk (snd (op_now ops w))) \<and>
     (\<forall>w d. clk w + d \<le> clk (op_sleep ops d w)) \<and>
     (\<forall>w. clk w \<le> clk (snd (op_load ops w))) \<and>
     (\<forall>w. clk w \<le> clk (snd (op_openLock ops w))) \<and>
     (\<forall>w. clk w \<le> clk (snd (op_mkdir ops w)))"

lemma clock_laws_now: "clock_laws ops clk \<Longrightarrow> op_now ops w = (t, w') \<Longrightarrow> t = clk w \<and> clk w \<le> clk w'"
  by (auto simp: clock_laws_def) (metis fst_conv, metis snd_conv)

lemma clock_laws_load: "clock_laws ops clk \<Longrightarrow> op_load ops w = (r, w') \<Longrightarrow> clk w \<le> clk w'"
  by (auto simp: clock_laws_def) (metis snd_conv)

lemma clock_laws_lock: "clock_laws ops clk \<Longrightarrow> op_openLock ops w = (r, w') \<Longrightarrow> clk w \<le> clk w'"
  by (auto simp: clock_laws_def) (metis snd_conv)

lemma clock_laws_mkdir: "clock_laws ops clk \<Longrightarrow> op_mkdir ops w = (r, w') \<Longrightarrow> clk w \<le> clk w'"
  by (auto simp: clock_laws_def) (metis snd_conv)

lemma clock_laws_sleep: "clock_laws ops clk \<Longrightarrow> clk w + d \<le> clk (op_sleep ops d w)"
  by (simp add: clock_laws_def)

lemmas clock_facts = clock_laws_now clock_laws_load clock_laws_lock clock_laws_mkdir

lemma wait_returns:
  assumes "clock_laws ops clk"
  shows "deadline - clk w \<le> int fuel * 10000000 \<Longrightarrow>
    waitForSettingsOrCreationLock (Suc fuel) deadline ops w \<noteq> None"
proof (induction fuel arbitrary: w)
  case 0
  then show ?case using assms by (simp add: clock_laws_def split: prod.split) (metis fst_conv not_le)
next
  case (Suc fuel)
  obtain t w1 where n: "op_now ops w = (t, w1)" by fastforce
  obtain le w2 where l: "op_openLock ops w1 = (le, w2)" by fastforce
  obtain ld w3 where d: "op_load ops w2 = (ld, w3)" by fastforce
  obtain t' w4 where n': "op_now ops w3 = (t', w4)" by fastforce
  have "clk w \<le> clk w4"
    using clock_facts [OF assms] n l d n' by (meson order_trans)
  then have "deadline - clk (op_sleep ops 10000000 w4) \<le> int fuel * 10000000"
    using Suc.prems clock_laws_sleep [OF assms, of w4 10000000] by simp
  from Suc.IH [OF this] show ?case
    by (subst waitForSettingsOrCreationLock.simps)
       (auto simp: n l d n' Let_def simp del: waitForSettingsOrCreationLock.simps
          split: option.splits sum.splits)
qed

lemma wait_clock:
  assumes "clock_laws ops clk"
  shows "waitForSettingsOrCreationLock fuel deadline ops w = Some (r, w') \<Longrightarrow> clk w \<le> clk w'"
proof (induction fuel arbitrary: w)
  case (Suc fuel)
  obtain t w1 where n: "op_now ops w = (t, w1)" by fastforce
  obtain le w2 where l: "op_openLock ops w1 = (le, w2)" by fastforce
  obtain ld w3 where d: "op_load ops w2 = (ld, w3)" by fastforce
  obtain t' w4 where n': "op_now ops w3 = (t', w4)" by fastforce
  have c: "clk w \<le> clk w1" "clk w1 \<le> clk w2" "clk w2 \<le> clk w3" "clk w3 \<le> clk w4"
    "clk w4 + 10000000 \<le> clk (op_sleep ops 10000000 w4)"
    using clock_facts [OF assms] n l d n' clock_laws_sleep [OF assms] by blast+
  show ?case using Suc.prems Suc.IH [of "op_sleep ops 10000000 w4"] c
    by (auto simp: n l d n' Let_def split: option.splits sum.splits if_splits)
qed simp

lemma recheck_returns:
  assumes "clock_laws ops clk"
  shows "deadline - clk w \<le> int fuel * 10000000 \<Longrightarrow> recheckUnderLock (Suc fuel) deadline ops w \<noteq> None"
proof (induction fuel arbitrary: w)
  case 0
  then show ?case using assms by (simp add: clock_laws_def split: prod.split) (metis fst_conv not_le)
next
  case (Suc fuel)
  obtain t w1 where n: "op_now ops w = (t, w1)" by fastforce
  obtain ld w2 where d: "op_load ops w1 = (ld, w2)" by fastforce
  obtain t' w3 where n': "op_now ops w2 = (t', w3)" by fastforce
  have "clk w \<le> clk w3"
    using clock_facts [OF assms] n d n' by (meson order_trans)
  then have "deadline - clk (op_sleep ops 10000000 w3) \<le> int fuel * 10000000"
    using Suc.prems clock_laws_sleep [OF assms, of w3 10000000] by simp
  from Suc.IH [OF this] show ?case
    by (subst recheckUnderLock.simps)
       (auto simp: n d n' Let_def simp del: recheckUnderLock.simps split: option.splits sum.splits)
qed

lemma loadOrCreate_returns:
  assumes "clock_laws ops clk" and "1002 \<le> fuel"
  shows "loadOrCreateWithOpsOutcome fuel ops sidecar w \<noteq> None"
proof -
  obtain n where f: "fuel = Suc n" "1001 \<le> n" using assms(2) by (cases fuel) auto
  obtain t0 w1 where n0: "op_now ops w = (t0, w1)" by fastforce
  obtain ld w2 where l: "op_load ops w1 = (ld, w2)" by fastforce
  obtain mk w3 where m: "op_mkdir ops w2 = (mk, w3)" by fastforce
  let ?dl = "t0 + 10000000000"
  have w3: "clk w \<le> clk w3" "t0 = clk w" using clock_facts [OF assms(1)] n0 l m by (meson order_trans)+
  have bound: "?dl - clk w4 \<le> int n * 10000000" if "clk w3 \<le> clk w4" for w4
  proof -
    have "(10000000000 :: int) \<le> int n * 10000000" using f(2) by linarith
    then show ?thesis using w3 that by linarith
  qed
  have wait: "waitForSettingsOrCreationLock fuel ?dl ops w3 \<noteq> None"
    using wait_returns [OF assms(1)] bound [of w3] f(1) by simp
  have recheck: "recheckUnderLock fuel ?dl ops w4 \<noteq> None"
    if "waitForSettingsOrCreationLock fuel ?dl ops w3 = Some (r, w4)" for r w4
    using recheck_returns [OF assms(1)] bound [of w4] wait_clock [OF assms(1) that] f(1) by simp
  then have "createUnderLock fuel ?dl ops sidecar w4 \<noteq> None"
    if "waitForSettingsOrCreationLock fuel ?dl ops w3 = Some (r, w4)" for r w4
    using that by (fastforce simp: createUnderLock_def split: option.splits)
  with wait show ?thesis
    by (auto simp: loadOrCreateWithOpsOutcome_def Let_def n0 l m split: option.splits sum.splits)
qed

text \<open>More fuel does not change a result.\<close>

lemma wait_mono:
  "waitForSettingsOrCreationLock fuel deadline ops w = Some r \<Longrightarrow> fuel \<le> fuel' \<Longrightarrow>
   waitForSettingsOrCreationLock fuel' deadline ops w = Some r"
proof (induction fuel arbitrary: w fuel')
  case (Suc fuel)
  obtain f where f: "fuel' = Suc f" "fuel \<le> f" using Suc.prems(2) by (cases fuel') auto
  show ?case using Suc.prems(1) Suc.IH [OF _ f(2)] unfolding f(1)
    by (auto simp: Let_def split: option.splits sum.splits if_splits prod.splits)
qed simp

lemma recheck_mono:
  "recheckUnderLock fuel deadline ops w = Some r \<Longrightarrow> fuel \<le> fuel' \<Longrightarrow>
   recheckUnderLock fuel' deadline ops w = Some r"
proof (induction fuel arbitrary: w fuel')
  case (Suc fuel)
  obtain f where f: "fuel' = Suc f" "fuel \<le> f" using Suc.prems(2) by (cases fuel') auto
  show ?case using Suc.prems(1) Suc.IH [OF _ f(2)] unfolding f(1)
    by (auto simp: Let_def split: option.splits sum.splits if_splits prod.splits)
qed simp

lemma createUnderLock_mono:
  assumes "createUnderLock fuel deadline ops sidecar w = Some r" and "fuel \<le> fuel'"
  shows "createUnderLock fuel' deadline ops sidecar w = Some r"
proof -
  obtain x where x: "recheckUnderLock fuel deadline ops w = Some x"
    using assms(1) by (auto simp: createUnderLock_def split: option.splits)
  then show ?thesis using assms(1) recheck_mono [OF x assms(2)] by (simp add: createUnderLock_def)
qed

lemma loadOrCreate_mono:
  assumes "loadOrCreateWithOpsOutcome fuel ops sidecar w = Some r" and "fuel \<le> fuel'"
  shows "loadOrCreateWithOpsOutcome fuel' ops sidecar w = Some r"
proof -
  obtain t0 w1 where n: "op_now ops w = (t0, w1)" by fastforce
  obtain ld w2 where l: "op_load ops w1 = (ld, w2)" by fastforce
  obtain mk w3 where m: "op_mkdir ops w2 = (mk, w3)" by fastforce
  note unf = loadOrCreateWithOpsOutcome_def Let_def n l m prod.case
  show ?thesis
  proof (cases "waitForSettingsOrCreationLock fuel (t0 + 10000000000) ops w3")
    case None
    then show ?thesis using assms(1) by (cases ld; cases mk) (auto simp: unf split: if_splits)
  next
    case (Some x)
    obtain found w4 where x: "x = (found, w4)" by fastforce
    note w = Some [unfolded x] wait_mono [OF Some [unfolded x] assms(2)]
    show ?thesis
    proof (cases "found = Inr None")
      case True
      then show ?thesis using assms(1) w
        by (cases ld; cases mk)
           (auto simp: unf split: if_splits elim!: createUnderLock_mono [OF _ assms(2), where r = r])
    next
      case False
      then show ?thesis using assms(1) w by (auto simp: unf split: sum.splits option.splits if_splits)
    qed
  qed
qed

text \<open>
  Elapsed time, when no call takes longer than \<open>d\<close> and no sleep oversleeps by more: a loop
  that does not find its deadline passed at once leaves at most one sleep after it.
\<close>

definition timely :: "'w creation_ops \<Rightarrow> ('w \<Rightarrow> int) \<Rightarrow> int \<Rightarrow> bool" where
  "timely ops clk d \<longleftrightarrow> 0 \<le> d \<and>
     (\<forall>w. clk (snd (op_now ops w)) \<le> clk w + d \<and> clk (snd (op_load ops w)) \<le> clk w + d \<and>
        clk (snd (op_openLock ops w)) \<le> clk w + d \<and> clk (snd (op_closeLock ops w)) \<le> clk w + d \<and>
        clk (snd (op_removeLock ops w)) \<le> clk w + d \<and> clk (snd (op_mkdir ops w)) \<le> clk w + d \<and>
        clk (snd (op_rand ops w)) \<le> clk w + d \<and> clk (snd (op_readSidecar ops w)) \<le> clk w + d) \<and>
     (\<forall>s w. clk (snd (op_save ops s w)) \<le> clk w + d) \<and>
     (\<forall>t w. clk (op_sleep ops t w) \<le> clk w + t + d)"

lemma timelyD:
  assumes "timely ops clk d"
  shows "0 \<le> d"
    "op_now ops w = (t, w') \<Longrightarrow> clk w' \<le> clk w + d"
    "op_load ops w = (l, w') \<Longrightarrow> clk w' \<le> clk w + d"
    "op_openLock ops w = (e, w') \<Longrightarrow> clk w' \<le> clk w + d"
    "op_closeLock ops w = (e, w') \<Longrightarrow> clk w' \<le> clk w + d"
    "op_removeLock ops w = (e, w') \<Longrightarrow> clk w' \<le> clk w + d"
    "op_mkdir ops w = (e, w') \<Longrightarrow> clk w' \<le> clk w + d"
    "op_rand ops w = (b, w') \<Longrightarrow> clk w' \<le> clk w + d"
    "op_readSidecar ops w = (f, w') \<Longrightarrow> clk w' \<le> clk w + d"
    "op_save ops s w = (r, w') \<Longrightarrow> clk w' \<le> clk w + d"
    "clk (op_sleep ops n w) \<le> clk w + n + d"
  using assms unfolding timely_def by (metis snd_conv)+

lemma wait_elapsed:
  assumes laws: "clock_laws ops clk" and tm: "timely ops clk d"
  shows "waitForSettingsOrCreationLock fuel deadline ops w = Some (r, w') \<Longrightarrow>
    clk w' \<le> max (clk w) (deadline + 10000000 + 2 * d) + 3 * d"
proof (induction fuel arbitrary: w)
  case (Suc fuel)
  obtain t w1 where n: "op_now ops w = (t, w1)" by fastforce
  obtain le w2 where l: "op_openLock ops w1 = (le, w2)" by fastforce
  obtain ld w3 where ld: "op_load ops w2 = (ld, w3)" by fastforce
  obtain t' w4 where n': "op_now ops w3 = (t', w4)" by fastforce
  have c: "t = clk w" "t' = clk w3" "0 \<le> d" "clk w1 \<le> clk w + d" "clk w2 \<le> clk w1 + d" "clk w3 \<le> clk w2 + d"
    "clk w4 \<le> clk w3 + d" "clk (op_sleep ops 10000000 w4) \<le> clk w4 + 10000000 + d"
    using clock_laws_now [OF laws n] clock_laws_now [OF laws n'] timelyD(1) [OF tm] timelyD(2) [OF tm n]
      timelyD(2) [OF tm n'] timelyD(4) [OF tm l] timelyD(3) [OF tm ld] timelyD(11) [OF tm, of 10000000 w4]
    by simp_all
  show ?case using Suc.prems Suc.IH [of "op_sleep ops 10000000 w4"] c
    by (auto simp: n l ld n' Let_def max_def split: option.splits sum.splits if_splits)
qed simp

lemma recheck_elapsed:
  assumes laws: "clock_laws ops clk" and tm: "timely ops clk d"
  shows "recheckUnderLock fuel deadline ops w = Some (r, w') \<Longrightarrow>
    clk w' \<le> max (clk w) (deadline + 10000000 + 2 * d) + 3 * d"
proof (induction fuel arbitrary: w)
  case (Suc fuel)
  obtain t w1 where n: "op_now ops w = (t, w1)" by fastforce
  obtain ld w2 where ld: "op_load ops w1 = (ld, w2)" by fastforce
  obtain t' w3 where n': "op_now ops w2 = (t', w3)" by fastforce
  have c: "t = clk w" "t' = clk w2" "0 \<le> d" "clk w1 \<le> clk w + d" "clk w2 \<le> clk w1 + d"
    "clk w3 \<le> clk w2 + d" "clk (op_sleep ops 10000000 w3) \<le> clk w3 + 10000000 + d"
    using clock_laws_now [OF laws n] clock_laws_now [OF laws n'] timelyD(1) [OF tm] timelyD(2) [OF tm n]
      timelyD(2) [OF tm n'] timelyD(3) [OF tm ld] timelyD(11) [OF tm, of 10000000 w3] by simp_all
  show ?case using Suc.prems Suc.IH [of "op_sleep ops 10000000 w3"] c
    by (auto simp: n ld n' Let_def max_def split: option.splits sum.splits if_splits)
qed simp

lemma applySidecar_elapsed:
  assumes "timely ops clk d"
  shows "clk (snd (applySidecarIfPresent ops sidecar s w)) \<le> clk w + d"
  using timelyD(1,9) [OF assms]
  by (auto simp: applySidecarIfPresent_def Let_def split: prod.splits)

lemma persistSidecar_elapsed:
  assumes "timely ops clk d"
  shows "clk (snd (persistSidecarIfChangedOutcome ops sidecar s w)) \<le> clk w + 2 * d"
proof -
  obtain changed err s1 w1 where a: "applySidecarIfPresent ops sidecar s w = (((changed, err), s1), w1)"
    by (metis surj_pair)
  obtain r e w2 where v: "op_save ops s1 w1 = ((r, e), w2)" by (metis surj_pair)
  have "0 \<le> d" "clk w1 \<le> clk w + d" "clk w2 \<le> clk w1 + d"
    using applySidecar_elapsed [OF assms, of sidecar s w] a timelyD(1) [OF assms] timelyD(10) [OF assms v] by simp_all
  then show ?thesis
    by (auto simp: persistSidecarIfChangedOutcome_def a v split: option.splits)
qed

lemma createSettings_elapsed:
  assumes "timely ops clk d"
  shows "clk (snd (createSettings ops sidecar w)) \<le> clk w + 3 * d"
proof -
  obtain sec w1 where sec: "op_rand ops w = (sec, w1)" by fastforce
  define s0 where "s0 = Defaults\<lparr>ControllerSecret := hex_encode (projr sec)\<rparr>"
  obtain changed err s1 w2 where a: "applySidecarIfPresent ops sidecar s0 w1 = (((changed, err), s1), w2)"
    by (metis surj_pair)
  obtain r e w3 where v: "op_save ops s1 w2 = ((r, e), w3)" by (metis surj_pair)
  have "0 \<le> d" "clk w1 \<le> clk w + d" "clk w2 \<le> clk w1 + d" "clk w3 \<le> clk w2 + d"
    using applySidecar_elapsed [OF assms, of sidecar s0 w1] a timelyD(1) [OF assms]
      timelyD(8) [OF assms sec] timelyD(10) [OF assms v] by simp_all
  then show ?thesis using a
    by (cases sec) (auto simp: createSettings_def sec s0_def v Let_def split: option.splits)
qed

lemma releaseLock_elapsed:
  assumes "timely ops clk d"
  shows "clk (snd (releaseLock ops out w)) \<le> clk w + 2 * d"
proof -
  obtain e w1 where c: "op_closeLock ops w = (e, w1)" by fastforce
  obtain f w2 where r: "op_removeLock ops w1 = (f, w2)" by fastforce
  have "clk w1 \<le> clk w + d" "clk w2 \<le> clk w1 + d"
    using timelyD(5) [OF assms c] timelyD(6) [OF assms r] by simp_all
  then show ?thesis by (simp add: releaseLock_def c r Let_def)
qed

lemma createUnderLock_elapsed:
  assumes laws: "clock_laws ops clk" and tm: "timely ops clk d"
    and run: "createUnderLock fuel deadline ops sidecar w = Some (out, w')"
  shows "clk w' \<le> max (clk w) (deadline + 10000000 + 2 * d) + 8 * d"
proof -
  obtain found w1 where r: "recheckUnderLock fuel deadline ops w = Some (found, w1)"
    using run by (auto simp: createUnderLock_def split: option.splits)
  define mid where "mid = (case found of
      Inl e \<Rightarrow> (lo_fail no_commit e, w1)
    | Inr (Some s) \<Rightarrow> persistSidecarIfChangedOutcome ops sidecar s w1
    | Inr None \<Rightarrow> createSettings ops sidecar w1)"
  have m: "clk (snd mid) \<le> clk w1 + 3 * d"
    using timelyD(1) [OF tm] persistSidecar_elapsed [OF tm, of sidecar _ w1] createSettings_elapsed [OF tm, of sidecar w1]
    by (auto simp: mid_def split: sum.splits option.splits) (smt (verit))
  have "w' = snd (releaseLock ops (fst mid) (snd mid))"
    using run by (simp add: createUnderLock_def r mid_def [symmetric] case_prod_beta)
  then have "clk w' \<le> clk (snd mid) + 2 * d" using releaseLock_elapsed [OF tm] by simp
  then show ?thesis using m recheck_elapsed [OF laws tm r] by linarith
qed

lemma loadOrCreate_elapsed:
  assumes laws: "clock_laws ops clk" and tm: "timely ops clk d"
    and run: "loadOrCreateWithOpsOutcome fuel ops sidecar w = Some (out, w')"
  shows "clk w' \<le> clk w + 10010000000 + 14 * d"
proof -
  obtain t0 w1 where n: "op_now ops w = (t0, w1)" by fastforce
  obtain ld w2 where l: "op_load ops w1 = (ld, w2)" by fastforce
  obtain mk w3 where m: "op_mkdir ops w2 = (mk, w3)" by fastforce
  let ?dl = "t0 + 10000000000"
  have c: "t0 = clk w" "0 \<le> d" "clk w1 \<le> clk w + d" "clk w2 \<le> clk w1 + d" "clk w3 \<le> clk w2 + d"
    using clock_laws_now [OF laws n] timelyD(1) [OF tm] timelyD(2) [OF tm n] timelyD(3) [OF tm l]
      timelyD(7) [OF tm m] by simp_all
  have p: "clk x \<le> clk v + 2 * d" if "persistSidecarIfChangedOutcome ops sidecar s v = (out, x)" for s v x
    using persistSidecar_elapsed [OF tm, of sidecar s v] that by simp
  consider "w' = w2 \<or> w' = w3" | s where "persistSidecarIfChangedOutcome ops sidecar s w2 = (out, w')"
    | found w4 where "waitForSettingsOrCreationLock fuel ?dl ops w3 = Some (found, w4)"
        "w' = w4 \<or> (\<exists>s. persistSidecarIfChangedOutcome ops sidecar s w4 = (out, w')) \<or>
         createUnderLock fuel ?dl ops sidecar w4 = Some (out, w')"
    using run
    by (simp add: loadOrCreateWithOpsOutcome_def Let_def n l m split: sum.splits option.splits if_splits prod.splits)
       blast
  then show ?thesis
  proof cases
    case 3
    have "clk w' \<le> max (clk w4) (?dl + 10000000 + 2 * d) + 8 * d"
      using 3(2) p [of _ w4 w'] createUnderLock_elapsed [OF laws tm, of fuel ?dl sidecar w4 out w'] c(2)
      by fastforce
    then show ?thesis using wait_elapsed [OF laws tm 3(1)] c by linarith
  qed (use c p [of _ w2 w'] in fastforce)+
qed

lemma ParseCoreChannelSidecar_channel:
  "ParseCoreChannelSidecar raw = Some (channel, stamp) \<Longrightarrow> channel \<in> {''stable'', ''alpha''} \<and> stamp \<noteq> []"
  by (auto simp: ParseCoreChannelSidecar_def Let_def split: list.splits if_splits)

lemma applySidecar_frame:
  assumes "applySidecarIfPresent ops sidecar s w = (((changed, err), s'), w')"
  shows "s' = s\<lparr>CoreChannel := CoreChannel s', CoreChannelBundle := CoreChannelBundle s'\<rparr> \<and>
    (CoreChannel s' = CoreChannel s \<or> CoreChannel s' \<in> {''stable'', ''alpha''})"
  using assms
  by (auto simp: applySidecarIfPresent_def ApplyCoreChannelSidecar_def
        split: if_splits sum.splits option.splits prod.splits
        dest: ParseCoreChannelSidecar_channel)

text \<open>The specification of a valid settings document, stated without the order of checks.\<close>

definition routing_wf :: "routing_settings \<Rightarrow> bool" where
  "routing_wf r \<longleftrightarrow> rt_Mode r \<in> {[], ''rule'', ''global'', ''direct''} \<and>
     valid_selection_name (rt_BootstrapGlobal r) \<and>
     (\<forall>m. rt_GlobalSelections r = Some m \<longrightarrow> length m \<le> 4096 \<and>
        (\<forall>(sid, name) \<in> set m. 1 \<le> length sid \<and> length sid \<le> 256 \<and> valid_utf8 sid \<and>
           valid_selection_name name))"

definition settings_wf :: "addr_parser \<Rightarrow> settings \<Rightarrow> bool" where
  "settings_wf parse s \<longleftrightarrow>
     Schema s = ''mihari.settings/v1'' \<and>
     (\<forall>r. Routing s = Some r \<longrightarrow> routing_wf r) \<and>
     (\<exists>mixed controller web.
        parse (MixedAddr s) = Some mixed \<and> parse (ControllerAddr s) = Some controller \<and>
        parse (WebAddr s) = Some web \<and> ep_loopback controller \<and> ep_loopback web \<and>
        distinct [0, ep_port mixed, ep_port controller, ep_port web]) \<and>
     (ControllerSecret s = [] \<or> (length (ControllerSecret s) = 64 \<and> hex_decode (ControllerSecret s) \<noteq> None)) \<and>
     (\<forall>m v. Tun s = Some m \<longrightarrow> map_of m ''enable'' = Some v \<longrightarrow> is_YBool v) \<and>
     (\<forall>m v. Tun s = Some m \<longrightarrow> map_of m ''stack'' = Some v \<longrightarrow> is_YStr v) \<and>
     (log_Level (EffectiveLogging s) = ''silent'' \<or> ActiveLoggingLevel (log_Level (EffectiveLogging s))) \<and>
     log_MaxSizeMB (EffectiveLogging s) \<in> {1..100} \<and> log_MaxFiles (EffectiveLogging s) \<in> {1..10} \<and>
     CoreChannel s \<in> {[], ''stable'', ''alpha''}"

lemma validateRouting_wf: "validateRouting (Some r) = None \<longleftrightarrow> routing_wf r"
proof -
  have "rt_Mode r \<noteq> [] \<longrightarrow> ValidRoutingMode (rt_Mode r) \<longleftrightarrow> rt_Mode r \<in> {[], ''rule'', ''global'', ''direct''}"
    by (auto simp: ValidRoutingMode_def)
  then show ?thesis
    unfolding validateRouting_def routing_wf_def option.case Let_def check_simps list_ex_iff
    by (cases "rt_GlobalSelections r") (auto simp: Suc_le_eq not_less split: prod.splits)
qed

lemma valid_secret_iff: "valid_secret t \<longleftrightarrow> length t = 64 \<and> hex_decode t \<noteq> None"
  by (auto simp: valid_secret_def dest: hex_decode_length split: option.splits)

lemma validateTail_iff:
  "validateTail s = None \<longleftrightarrow>
     (ControllerSecret s = [] \<or> (length (ControllerSecret s) = 64 \<and> hex_decode (ControllerSecret s) \<noteq> None)) \<and>
     (\<forall>m v. Tun s = Some m \<longrightarrow> map_of m ''enable'' = Some v \<longrightarrow> is_YBool v) \<and>
     (\<forall>m v. Tun s = Some m \<longrightarrow> map_of m ''stack'' = Some v \<longrightarrow> is_YStr v) \<and>
     (log_Level (EffectiveLogging s) = ''silent'' \<or> ActiveLoggingLevel (log_Level (EffectiveLogging s))) \<and>
     log_MaxSizeMB (EffectiveLogging s) \<in> {1..100} \<and> log_MaxFiles (EffectiveLogging s) \<in> {1..10} \<and>
     CoreChannel s \<in> {[], ''stable'', ''alpha''}"
proof -
  have "validateTun (Tun s) = None \<longleftrightarrow>
      (\<forall>m v. Tun s = Some m \<longrightarrow> map_of m ''enable'' = Some v \<longrightarrow> is_YBool v) \<and>
      (\<forall>m v. Tun s = Some m \<longrightarrow> map_of m ''stack'' = Some v \<longrightarrow> is_YStr v)"
    by (auto simp: validateTun_def split: option.splits)
  moreover have "log_Level l \<in> {''debug'', ''info'', ''warn'', ''error'', ''silent''} \<longleftrightarrow>
      log_Level l = ''silent'' \<or> ActiveLoggingLevel (log_Level l)" for l :: logging_settings
    by (auto simp: ActiveLoggingLevel_def)
  ultimately show ?thesis
    unfolding validateTail_def valid_secret_iff Let_def check_simps
    by (simp only: de_Morgan_conj de_Morgan_disj not_not not_less atLeastAtMost_iff conj_assoc simp_thms)
qed

lemma parseEndpoint_Inr:
  "parseEndpoint parse name v lb = Inr ep \<longleftrightarrow>
     parse v = Some ep \<and> ep_port ep \<noteq> 0 \<and> (lb \<longrightarrow> ep_loopback ep)"
  by (auto simp: parseEndpoint_def split: option.splits)

lemma Validate_wf: "Validate parse s = None \<longleftrightarrow> settings_wf parse s"
proof -
  have r: "validateRouting (Routing s) = None \<longleftrightarrow> (\<forall>r. Routing s = Some r \<longrightarrow> routing_wf r)"
    by (cases "Routing s") (simp_all add: validateRouting_wf, simp add: validateRouting_def)
  show ?thesis
    unfolding Validate_def check_simps r validateTail_iff parseEndpoint_Inr settings_wf_def
    by (auto simp del: not_None_eq)
qed

section \<open>Properties\<close>

text \<open>
  C22. \<open>Settings.Validate\<close> accepts exactly the well-formed settings: the managed
  endpoints parse, the controller and the web endpoint are loopback, the three ports are
  pairwise distinct and nonzero, a secret is 32 bytes of hex, logging limits and channel
  are in range, the routing intent and the managed tun block have the documented shape.
\<close>

theorem Validate_exact: "Validate parse s = None \<longleftrightarrow> settings_wf parse s"
  by (rule Validate_wf)

definition file_of :: "(string \<Rightarrow> go_error + settings) \<Rightarrow> string \<Rightarrow> settings_file" where
  "file_of unmarshal content =
     \<lparr>file_open = None, file_size = Inr (length content), file_decode = unmarshal content,
      file_extra = Some ErrEOF\<rparr>"

text \<open>
  C15. Saving settings and loading them back: a successful \<open>SaveWithCommit\<close> leaves a file
  from which \<open>Load\<close> returns the canonical form of what was saved, which has the same
  effective logging and differs from it in the logging override alone; a failed one
  leaves the file as it was. The hypothesis is that the YAML decoder inverts the encoder
  on the document that was written.
\<close>

theorem save_load_roundtrip:
  assumes "SaveWithCommit parse marshal (write_file flt d b rnd) s f = ((r, err), f')"
    and "\<And>content. marshal (canonical_settings s) = Inr content \<Longrightarrow>
           unmarshal content = Inr (canonical_settings s)"
  shows "(err = None \<longrightarrow> (\<exists>content. f' (file_path d b) = Some content \<and>
            Load parse (file_of unmarshal content) = Inr (canonical_settings s))) \<and>
    (err \<noteq> None \<longrightarrow> f' (file_path d b) = f (file_path d b)) \<and>
    EffectiveLogging (canonical_settings s) = EffectiveLogging s \<and>
    (canonical_settings s)\<lparr>Logging := Logging s\<rparr> = s"
proof (intro conjI impI)
  show "\<exists>content. f' (file_path d b) = Some content \<and>
      Load parse (file_of unmarshal content) = Inr (canonical_settings s)" if "err = None"
  proof -
    from assms(1) that obtain content where c: "marshal (canonical_settings s) = Inr content"
      "length content \<le> max_settings_size" "write_file flt d b rnd content f = ((r, None), f')"
      and v: "Validate parse s = None" "ControllerSecret s \<noteq> []"
      by (auto simp: SaveWithCommit_def split: option.splits if_splits sum.splits)
    then show ?thesis
      using file_writer.success_replaces [OF c(3)] assms(2) [OF c(1)]
      by (auto simp: Load_def file_of_def)
  qed
  show "f' (file_path d b) = f (file_path d b)" if "err \<noteq> None"
    using assms(1) that
    by (auto simp: SaveWithCommit_def split: option.splits if_splits sum.splits
          intro: file_writer.error_keeps)
qed (simp_all add: canonical_settings_frame)

definition demo_addr :: addr_parser where
  "demo_addr a =
     (if a = ''127.0.0.1:9190'' then Some \<lparr>ep_loopback = True, ep_port = 9190\<rparr>
      else if a = ''127.0.0.1:9090'' then Some \<lparr>ep_loopback = True, ep_port = 9090\<rparr>
      else if a = ''127.0.0.1:9191'' then Some \<lparr>ep_loopback = True, ep_port = 9191\<rparr>
      else None)"

definition demo_settings :: settings where
  "demo_settings = Defaults\<lparr>ControllerSecret := hex_encode (replicate 32 7),
     Logging := Some DefaultLoggingSettings\<rparr>"

lemma demo_settings_valid: "Validate demo_addr demo_settings = None"
  by (simp add: Validate_def validateRouting_def parseEndpoint_def validateTail_def validateTun_def
        valid_secret_def hex_decode_encode EffectiveLogging_def DefaultLoggingSettings_def
        demo_addr_def demo_settings_def Defaults_def zero_settings_def)

theorem save_load_roundtrip_witness:
  "\<exists>content. ((\<lambda>_. None)(file_path ''d'' ''f'' \<mapsto> ''doc'')) (file_path ''d'' ''f'') = Some content \<and>
     Load demo_addr (file_of (\<lambda>_. Inr (demo_settings\<lparr>Logging := None\<rparr>)) content) =
       Inr (demo_settings\<lparr>Logging := None\<rparr>)"
proof -
  let ?g = "(\<lambda>_. None)(file_path ''d'' ''f'' \<mapsto> ''doc'')"
  have can: "canonical_settings demo_settings = demo_settings\<lparr>Logging := None\<rparr>"
    by (simp add: canonical_settings_def SetLogging_def EffectiveLogging_def demo_settings_def
          DefaultLoggingSettings_def)
  have "ControllerSecret demo_settings \<noteq> []" by (simp add: demo_settings_def)
  then have w: "SaveWithCommit demo_addr (\<lambda>_. Inr ''doc'') (write_file no_faults ''d'' ''f'' ''1'')
      demo_settings (\<lambda>_. None) = ((\<lparr>commit_Committed = True, commit_Warning = None\<rparr>, None), ?g)"
    by (simp add: SaveWithCommit_def demo_settings_valid write_file_no_faults max_settings_size_def)
  show ?thesis
    using save_load_roundtrip [OF w, of "\<lambda>_. Inr (demo_settings\<lparr>Logging := None\<rparr>)"] can by simp
qed

text \<open>
  C23. First creation of the settings file always returns: if the clock never runs
  backwards and follows the sleeps, \<open>loadOrCreateWithOpsOutcome\<close> ends (a result, or the
  timeout error) after at most 1002 turns of either waiting loop, whatever the file system
  and the other processes competing for the lock do, with the same result for every larger
  fuel. If moreover no single call takes longer than \<open>d\<close> and no sleep oversleeps by more
  than \<open>d\<close>, it has returned after the ten second deadline, one sleep of ten milliseconds
  and \<open>14 d\<close>. Times are in nanoseconds.
\<close>

theorem loadOrCreate_terminates:
  assumes "clock_laws ops clk"
  shows "\<exists>out w'. (\<forall>fuel \<ge> 1002. loadOrCreateWithOpsOutcome fuel ops sidecar w = Some (out, w')) \<and>
    (\<forall>d. timely ops clk d \<longrightarrow> clk w' \<le> clk w + 10 * 1000000000 + 10000000 + 14 * d)"
proof -
  obtain out w' where r: "loadOrCreateWithOpsOutcome 1002 ops sidecar w = Some (out, w')"
    using loadOrCreate_returns [OF assms, of 1002] by fastforce
  show ?thesis
    using loadOrCreate_mono [OF r] loadOrCreate_elapsed [OF assms _ r]
    by (intro exI [of _ out] exI [of _ w'] conjI allI impI) (simp_all add: add.commute)
qed

definition contended_ops :: "int creation_ops" where
  "contended_ops = \<lparr>op_now = (\<lambda>t. (t, t)), op_sleep = (\<lambda>d t. t + d),
     op_load = (\<lambda>t. (Inl ErrNotExist, t)), op_save = (\<lambda>s t. ((no_commit, None), t)),
     op_openLock = (\<lambda>t. (Some ErrExist, t)), op_closeLock = (\<lambda>t. (None, t)),
     op_removeLock = (\<lambda>t. (None, t)), op_transient = (\<lambda>_. False), op_mkdir = (\<lambda>t. (None, t)),
     op_rand = (\<lambda>t. (Inr [], t)), op_readSidecar = (\<lambda>t. (Inl ErrNotExist, t))\<rparr>"

theorem loadOrCreate_terminates_witness:
  "\<exists>out w'. loadOrCreateWithOpsOutcome 1002 contended_ops [] 5 = Some (out, w') \<and>
    w' \<le> 5 + 10 * 1000000000 + 10000000"
proof -
  have "clock_laws contended_ops id" "timely contended_ops id 0"
    by (simp_all add: clock_laws_def timely_def contended_ops_def)
  then show ?thesis using loadOrCreate_terminates [of contended_ops id "[]" 5] by force
qed

text \<open>
  A settings file that this process creates is valid: with 32 random bytes and the
  standard parser's reading of the three default endpoints, the settings that
  \<open>loadOrCreateWithOpsOutcome\<close> reports as created pass \<open>Validate\<close>, carry a controller
  secret that decodes to the random bytes, and keep the default logging, even after a
  packaged core-channel sidecar was applied.
\<close>

theorem created_settings_valid:
  assumes "createSettings ops sidecar w = (out, w')" and "lo_created out"
    and "op_rand ops w = (Inr bytes, w1)" and "length bytes = 32" and "\<forall>x \<in> set bytes. x < 256"
    and "parse ''127.0.0.1:9190'' = Some \<lparr>ep_loopback = True, ep_port = 9190\<rparr>"
    and "parse ''127.0.0.1:9090'' = Some \<lparr>ep_loopback = True, ep_port = 9090\<rparr>"
    and "parse ''127.0.0.1:9191'' = Some \<lparr>ep_loopback = True, ep_port = 9191\<rparr>"
  shows "Validate parse (lo_settings out) = None \<and>
    hex_decode (ControllerSecret (lo_settings out)) = Some bytes \<and>
    EffectiveLogging (lo_settings out) = DefaultLoggingSettings"
proof -
  let ?s0 = "Defaults\<lparr>ControllerSecret := hex_encode bytes\<rparr>"
  obtain changed err s1 w2 where ap: "applySidecarIfPresent ops sidecar ?s0 w1 = (((changed, err), s1), w2)"
    by (metis surj_pair)
  have out: "lo_settings out = s1"
    using assms(1,2,3) ap by (auto simp: createSettings_def lo_fail_def Let_def split: option.splits prod.splits)
  have fr: "s1 = ?s0\<lparr>CoreChannel := CoreChannel s1, CoreChannelBundle := CoreChannelBundle s1\<rparr>"
    "CoreChannel s1 \<in> {''stable'', ''alpha''}"
    using applySidecar_frame [OF ap] by (auto simp: Defaults_def)
  have hx: "hex_decode (hex_encode bytes) = Some bytes" using assms(5) by (rule hex_decode_encode)
  have f: "Schema s1 = ''mihari.settings/v1''" "Routing s1 = None" "Tun s1 = None" "Logging s1 = None"
    "MixedAddr s1 = ''127.0.0.1:9190''" "ControllerAddr s1 = ''127.0.0.1:9090''"
    "WebAddr s1 = ''127.0.0.1:9191''" "ControllerSecret s1 = hex_encode bytes"
    by (subst fr(1), simp add: Defaults_def zero_settings_def)+
  have l: "EffectiveLogging s1 = DefaultLoggingSettings" using f by (simp add: EffectiveLogging_def)
  have "validateTail s1 = None"
    unfolding validateTail_iff l using f fr(2) hx assms(4) hex_decode_length [OF hx]
    by (simp add: DefaultLoggingSettings_def ActiveLoggingLevel_def)
  then have "Validate parse s1 = None"
    unfolding Validate_def check_simps parseEndpoint_Inr
    using f assms(6,7,8) by (simp add: validateRouting_def)
  with out f hx l show ?thesis by simp
qed

definition fresh_ops :: "int creation_ops" where
  "fresh_ops = contended_ops\<lparr>op_openLock := (\<lambda>t. (None, t)), op_rand := (\<lambda>t. (Inr (replicate 32 7), t)),
     op_readSidecar := (\<lambda>t. (Inr (''alpha'' @ [CHR 0x0A] @ ''s1''), t))\<rparr>"

theorem created_settings_valid_witness:
  "Validate demo_addr (lo_settings (fst (createSettings fresh_ops ''sidecar'' 0))) = None"
proof -
  let ?r = "createSettings fresh_ops ''sidecar'' 0"
  have c: "lo_created (fst ?r)"
    by (simp add: createSettings_def fresh_ops_def contended_ops_def applySidecarIfPresent_def
          ApplyCoreChannelSidecar_def lo_fail_def Let_def split: option.split prod.split)
  have r: "op_rand fresh_ops 0 = (Inr (replicate 32 7), 0)" by (simp add: fresh_ops_def)
  show ?thesis
    using created_settings_valid [OF surjective_pairing c r, of demo_addr] by (simp add: demo_addr_def)
qed

text \<open>
  A packaged core-channel sidecar takes effect once: after it was applied, applying
  the same file again changes nothing, whatever core channel the user selected in the
  meantime; and a missing or malformed sidecar never changes the settings.
\<close>

theorem sidecar_applies_once:
  assumes "ApplyCoreChannelSidecar (Inr raw) s = ((changed, err), s')"
  shows "err = None \<and>
    ApplyCoreChannelSidecar (Inr raw) (s'\<lparr>CoreChannel := channel\<rparr>) =
      ((False, None), s'\<lparr>CoreChannel := channel\<rparr>) \<and>
    (ParseCoreChannelSidecar raw = None \<longrightarrow> \<not> changed \<and> s' = s)"
  using assms by (auto simp: ApplyCoreChannelSidecar_def split: option.splits if_splits)

theorem sidecar_applies_once_witness:
  "ApplyCoreChannelSidecar (Inr (''alpha'' @ [CHR 0x0A] @ ''s1''))
     (Defaults\<lparr>CoreChannelBundle := ''s1'', CoreChannel := ''stable''\<rparr>) =
   ((False, None), Defaults\<lparr>CoreChannelBundle := ''s1'', CoreChannel := ''stable''\<rparr>)"
proof -
  have p: "ParseCoreChannelSidecar (''alpha'' @ [CHR 0x0A] @ ''s1'') = Some (''alpha'', ''s1'')"
    by code_simp
  have a: "ApplyCoreChannelSidecar (Inr (''alpha'' @ [CHR 0x0A] @ ''s1'')) Defaults =
      ((True, None), Defaults\<lparr>CoreChannel := ''alpha'', CoreChannelBundle := ''s1''\<rparr>)"
    unfolding ApplyCoreChannelSidecar_def sum.case p by (simp add: Defaults_def zero_settings_def)
  show ?thesis using sidecar_applies_once [OF a, of "''stable''"] by simp
qed

text \<open>
  The routing intent is a store of exits per subscription: after
  \<open>SetGlobalSelection\<close> the exit reads back for that subscription (an empty name deletes
  it), every other subscription keeps its exit, and the effective routing mode is
  unchanged; \<open>SetRoutingMode\<close> changes the mode and no exit.
\<close>

theorem routing_intent_laws:
  "GlobalSelection (SetGlobalSelection s sid name) sid' =
     (if sid' = sid then name else GlobalSelection s sid') \<and>
   RoutingMode (SetGlobalSelection s sid name) = RoutingMode s \<and>
   GlobalSelection (SetRoutingMode s mode) sid = GlobalSelection s sid \<and>
   RoutingMode (SetRoutingMode s mode) = (if mode = [] then ''rule'' else mode)"
  by (auto simp: GlobalSelection_def SetGlobalSelection_def SetRoutingMode_def RoutingMode_def
        map_get_def zero_routing_def Let_def update_conv' delete_conv' split: option.splits)

end
