(* ===== verification/Supervisor.thy ===== *)
theory Supervisor
  imports Prelude
begin

text \<open>
  \<open>internal/supervisor\<close>: the retry backoff (\<open>backoff.go\<close>), the health monitor, the
  event loop of \<open>Supervisor.Run\<close> with the requests it serves (\<open>supervisor.go\<close>) and the
  update sessions that replace the core (\<open>update.go\<close>).

  The event loop is a step relation over a record of the supervisor's fields, a control
  point for every place where the goroutine of \<open>Run\<close> blocks, and the set of core
  processes alive in the operating system. Each case of a \<open>select\<close> is a rule; the label
  says which one. What children, health checks and callbacks do is part of the label.
  Durations and times are nanoseconds. Diagnostic reports (log output) are left out.
\<close>

section \<open>Backoff\<close>

record backoff =
  bo_minimum :: int
  bo_maximum :: int
  bo_current :: int

definition second :: int where "second = 1000000000"

definition NewBackoff :: "int \<Rightarrow> int \<Rightarrow> backoff" where
  "NewBackoff minimum maximum =
     (let lo = (if minimum \<le> 0 then second else minimum);
          hi = (if maximum < lo then lo else maximum)
      in \<lparr>bo_minimum = lo, bo_maximum = hi, bo_current = 0\<rparr>)"

definition backoff_Next :: "backoff \<Rightarrow> int \<times> backoff" where
  "backoff_Next b =
     (if bo_current b = 0 then (bo_minimum b, b\<lparr>bo_current := bo_minimum b\<rparr>)
      else let nxt0 = wrap64 (bo_current b * 2);
               nxt = (if nxt0 < bo_current b \<or> nxt0 > bo_maximum b then bo_maximum b else nxt0)
           in (nxt, b\<lparr>bo_current := nxt\<rparr>))"

definition backoff_Reset :: "backoff \<Rightarrow> backoff" where
  "backoff_Reset b = b\<lparr>bo_current := 0\<rparr>"

text \<open>The delays of \<open>n\<close> consecutive failures.\<close>

fun backoff_delays :: "nat \<Rightarrow> backoff \<Rightarrow> int list" where
  "backoff_delays 0 b = []"
| "backoff_delays (Suc n) b = (case backoff_Next b of (d, b') \<Rightarrow> d # backoff_delays n b')"

definition backoff_ok :: "backoff \<Rightarrow> bool" where
  "backoff_ok b \<longleftrightarrow> 0 < bo_minimum b \<and> bo_minimum b \<le> bo_maximum b \<and> bo_maximum b < 2 ^ 63 \<and>
     (bo_current b = 0 \<or> (bo_minimum b \<le> bo_current b \<and> bo_current b \<le> bo_maximum b))"

lemma NewBackoff_ok: "lo < 2 ^ 63 \<Longrightarrow> hi < 2 ^ 63 \<Longrightarrow> backoff_ok (NewBackoff lo hi)"
  by (auto simp: NewBackoff_def backoff_ok_def second_def Let_def)

text \<open>The delay after a failure: the minimum first, then double up to the maximum; the
  wrapped product is caught by the comparison with the current delay.\<close>

lemma backoff_Next_spec:
  assumes "backoff_ok b"
  shows "backoff_Next b =
    (let d = (if bo_current b = 0 then bo_minimum b else min (2 * bo_current b) (bo_maximum b))
     in (d, b\<lparr>bo_current := d\<rparr>))"
proof (cases "bo_current b = 0")
  case False
  then have c: "0 < bo_current b" "bo_current b < 2 ^ 63" "bo_current b \<le> bo_maximum b" "bo_maximum b < 2 ^ 63"
    using assms by (auto simp: backoff_ok_def)
  then show ?thesis using False wrap64_double [of "bo_current b"]
    by (auto simp: backoff_Next_def Let_def min_def)
qed (simp add: backoff_Next_def Let_def)

lemma backoff_Next_ok: "backoff_ok b \<Longrightarrow> backoff_ok (snd (backoff_Next b))"
  by (auto simp: backoff_Next_spec Let_def) (auto simp: backoff_ok_def min_def)

lemma min_double_pow:
  fixes c m :: int
  assumes "0 < c" "0 < m"
  shows "min (2 ^ Suc j * min (2 * c) m) m = min (2 ^ Suc (Suc j) * c) m"
proof (cases "2 * c \<le> m")
  case False
  have p: "(1 :: int) \<le> 2 ^ Suc j" by (rule one_le_power) simp
  have "1 * m \<le> 2 ^ Suc j * m" by (rule mult_right_mono [OF p]) (use assms in simp)
  moreover have "1 * (2 * c) \<le> 2 ^ Suc j * (2 * c)" by (rule mult_right_mono [OF p]) (use assms in simp)
  ultimately show ?thesis using False by (simp add: min_def mult_ac)
qed (simp add: min_def mult_ac)

lemma backoff_delays_double:
  "backoff_ok b \<Longrightarrow> bo_current b \<noteq> 0 \<Longrightarrow> i < n \<Longrightarrow>
   backoff_delays n b ! i = min (2 ^ (Suc i) * bo_current b) (bo_maximum b)"
proof (induction n arbitrary: b i)
  case (Suc n)
  let ?b = "snd (backoff_Next b)"
  have ok: "backoff_ok ?b" using Suc.prems(1) by (rule backoff_Next_ok)
  have cur: "bo_current ?b = min (2 * bo_current b) (bo_maximum b)" "bo_maximum ?b = bo_maximum b"
    using Suc.prems by (simp_all add: backoff_Next_spec Let_def)
  have nz: "bo_current ?b \<noteq> 0" using cur Suc.prems by (auto simp: backoff_ok_def min_def)
  show ?case
  proof (cases i)
    case 0
    with Suc.prems show ?thesis by (simp add: backoff_Next_spec Let_def split: prod.splits)
  next
    case (Suc j)
    have "backoff_delays (Suc n) b ! i = backoff_delays n ?b ! j"
      using Suc by (simp split: prod.splits)
    also have "\<dots> = min (2 ^ Suc j * bo_current ?b) (bo_maximum b)"
      using Suc.IH [OF ok nz, of j] Suc Suc.prems(3) cur by simp
    also have "\<dots> = min (2 ^ Suc i * bo_current b) (bo_maximum b)"
      using min_double_pow [of "bo_current b" "bo_maximum b" j] cur(1) Suc Suc.prems(1,2)
      by (auto simp: backoff_ok_def)
    finally show ?thesis .
  qed
qed simp

section \<open>The health monitor\<close>

text \<open>
  \<open>monitor\<close> with a health checker, over the results of successive checks (\<open>None\<close> is
  healthy): it publishes \<open>StatusRunning\<close> at the first healthy result and gives up at the
  third failure in a row. The result is the position of the check that published and the
  failure it sent, if any.
\<close>

record monitor_state =
  mon_failures :: nat
  mon_published :: bool

datatype monitor_event = MonPublish | MonRecovered | MonRetry nat go_error | MonFailed go_error

definition supervisorFailure :: "string \<Rightarrow> go_error option \<Rightarrow> go_error" where
  "supervisorFailure message cause = Failure (api CodeDataFailure message) cause"

definition monitor_check :: "monitor_state \<Rightarrow> go_error option \<Rightarrow> monitor_state \<times> monitor_event list" where
  "monitor_check m result =
     (case result of
        None \<Rightarrow>
          (m\<lparr>mon_failures := 0, mon_published := True\<rparr>,
           (if mon_failures m > 0 then [MonRecovered] else []) @
           (if \<not> mon_published m then [MonPublish] else []))
      | Some err \<Rightarrow>
          (let n = Suc (mon_failures m) in
           (m\<lparr>mon_failures := n\<rparr>,
            if n \<ge> 3 then [MonFailed (supervisorFailure ''mihomo health check failed three times'' (Some err))]
            else [MonRetry n err])))"

text \<open>The loop returns after \<open>MonFailed\<close>.\<close>

fun monitor_run :: "monitor_state \<Rightarrow> go_error option list \<Rightarrow> monitor_event list" where
  "monitor_run m [] = []"
| "monitor_run m (r # rs) =
     (case monitor_check m r of (m', evs) \<Rightarrow>
        if mon_failures m' \<ge> 3 then evs else evs @ monitor_run m' rs)"

definition monitor_start :: monitor_state where
  "monitor_start = \<lparr>mon_failures = 0, mon_published = False\<rparr>"

fun failing_streak :: "nat \<Rightarrow> go_error option list \<Rightarrow> bool" where
  "failing_streak n [] = (n \<ge> 3)"
| "failing_streak n (None # rs) = (n \<ge> 3 \<or> failing_streak 0 rs)"
| "failing_streak n (Some e # rs) = (n \<ge> 3 \<or> failing_streak (Suc n) rs)"

definition gave_up :: "monitor_event list \<Rightarrow> bool" where
  "gave_up evs \<longleftrightarrow> list_ex (\<lambda>e. case e of MonFailed _ \<Rightarrow> True | _ \<Rightarrow> False) evs"

lemma gave_up_append [simp]: "gave_up (xs @ ys) \<longleftrightarrow> gave_up xs \<or> gave_up ys"
  by (simp add: gave_up_def)

lemma failing_streak_ge3: "n \<ge> 3 \<Longrightarrow> failing_streak n rs"
  by (cases "(n, rs)" rule: failing_streak.cases) auto

lemma monitor_run_gave_up:
  "mon_failures m < 3 \<Longrightarrow> gave_up (monitor_run m rs) \<longleftrightarrow> failing_streak (mon_failures m) rs"
proof (induction rs arbitrary: m)
  case (Cons r rs)
  show ?case
  proof (cases r)
    case None
    then show ?thesis using Cons by (simp add: monitor_check_def gave_up_def)
  next
    case (Some e)
    then show ?thesis using Cons
      by (auto simp: monitor_check_def gave_up_def Let_def intro!: failing_streak_ge3)
  qed
qed (simp add: gave_up_def)

text \<open>A streak is three failures next to each other somewhere in the sequence.\<close>

fun three_in_row :: "bool list \<Rightarrow> bool" where
  "three_in_row (True # True # True # rs) = True"
| "three_in_row (r # rs) = three_in_row rs"
| "three_in_row [] = False"

lemma failing_streak_iff:
  "n < 3 \<Longrightarrow> failing_streak n rs \<longleftrightarrow> three_in_row (replicate n True @ map (\<lambda>r. r \<noteq> None) rs)"
proof (induction n rs rule: failing_streak.induct)
  case (1 n)
  then consider "n = 0" | "n = 1" | "n = 2" by linarith
  then show ?case by cases (simp_all add: numeral_eq_Suc)
next
  case (2 n rs)
  then consider "n = 0" | "n = 1" | "n = 2" by linarith
  then show ?case using 2 by cases (simp_all add: numeral_eq_Suc)
next
  case (3 n e rs)
  show ?case
  proof (cases "n = 2")
    case True
    then show ?thesis by (simp add: numeral_eq_Suc failing_streak_ge3)
  next
    case False
    then show ?thesis using 3 by (simp add: replicate_append_same [symmetric])
  qed
qed

section \<open>The supervisor\<close>

datatype status = StatusStopped | StatusStarting | StatusRunning | StatusBackoff | StatusDegraded

record observation =
  obs_Status :: status
  obs_PID :: nat
  obs_Restarts :: u64
  obs_LastError :: "go_error option"
  obs_NextRetryAt :: int
  obs_StartedAt :: int

definition obs :: "status \<Rightarrow> observation" where
  "obs st = \<lparr>obs_Status = st, obs_PID = 0, obs_Restarts = 0, obs_LastError = None,
     obs_NextRetryAt = 0, obs_StartedAt = 0\<rparr>"

record sup_options =
  opt_MinimumBackoff :: int
  opt_MaximumBackoff :: int
  opt_StableAfter :: int
  opt_GracePeriod :: int
  opt_HealthInterval :: int
  opt_StopTimeout :: int

text \<open>The defaulting of \<open>New\<close>.\<close>

definition default_options :: "sup_options \<Rightarrow> sup_options" where
  "default_options o1 =
     o1\<lparr>opt_MinimumBackoff := (if opt_MinimumBackoff o1 \<le> 0 then second else opt_MinimumBackoff o1),
       opt_MaximumBackoff := (if opt_MaximumBackoff o1 \<le> 0 then 30 * second else opt_MaximumBackoff o1),
       opt_StableAfter := (if opt_StableAfter o1 \<le> 0 then 30 * second else opt_StableAfter o1),
       opt_GracePeriod := (if opt_GracePeriod o1 \<le> 0 then 5 * second else opt_GracePeriod o1),
       opt_HealthInterval := (if opt_HealthInterval o1 \<le> 0 then 10 * second else opt_HealthInterval o1),
       opt_StopTimeout := (if opt_StopTimeout o1 \<le> 0 then 5 * second else opt_StopTimeout o1)\<rparr>"

text \<open>
  Where the goroutine of \<open>Run\<close> stands: not running; entered; at the top of the loop; in
  the \<open>select\<close> of the blocked or waiting state; at the start gate; watching child \<open>c\<close>
  (with the start of the process and of the loop turn); joining child \<open>c\<close> after a failed
  stop; in the backoff wait; leaving.
\<close>

datatype sup_pc =
    POff | PEntered | PTop | PIdle | PGate | PRun nat int int | PJoin nat | PBackoff int | PExit

record supervisor =
  sv_options :: sup_options
  sv_active :: bool
  sv_runDone :: bool
  sv_blocked :: bool
  sv_waiting :: bool
  sv_pending :: "(nat \<times> int) option"
  sv_wake :: bool
  sv_restarts :: u64
  sv_backoff :: backoff
  sv_cancelled :: bool
  sv_pc :: sup_pc
  sv_alive :: "nat set"
  sv_next :: nat
  sv_obs :: "observation list"

definition New :: "sup_options \<Rightarrow> supervisor" where
  "New o1 = \<lparr>sv_options = default_options o1, sv_active = False, sv_runDone = False, sv_blocked = False,
     sv_waiting = False, sv_pending = None, sv_wake = False, sv_restarts = 0,
     sv_backoff = NewBackoff (opt_MinimumBackoff (default_options o1)) (opt_MaximumBackoff (default_options o1)),
     sv_cancelled = False, sv_pc = POff, sv_alive = {}, sv_next = 1, sv_obs = []\<rparr>"

definition observe :: "supervisor \<Rightarrow> observation \<Rightarrow> supervisor" where
  "observe sv ob = sv\<lparr>sv_obs := sv_obs sv @ [ob]\<rparr>"

definition coreRecoveryRequired :: go_error where
  "coreRecoveryRequired = Api (api CodeInvalidState ''core recovery required'')"

definition idleRejection :: "supervisor \<Rightarrow> go_error" where
  "idleRejection sv =
     (if sv_blocked sv then coreRecoveryRequired
      else Api (api CodeInvalidState ''mihomo core is not installed''))"

definition maintenanceDegraded :: "go_error option \<Rightarrow> bool" where
  "maintenanceDegraded err =
     (case err of
        None \<Rightarrow> False
      | Some e \<Rightarrow> (case as_api e of
          None \<Rightarrow> False | Some a \<Rightarrow> map_of (err_details a) ''degraded'' = Some (DBool True)))"

subsection \<open>Stopping a child\<close>

text \<open>\<open>waitDescendants\<close>; the argument is what the child's \<open>WaitDescendants\<close> returned
  (\<open>None\<close> also for a child without the method).\<close>

definition waitDescendants :: "supervisor \<Rightarrow> go_error option \<Rightarrow> go_error option \<times> supervisor" where
  "waitDescendants sv d =
     (case d of
        None \<Rightarrow> (None, sv)
      | Some e \<Rightarrow>
          (errors_join [Some coreRecoveryRequired, Some e],
           observe (sv\<lparr>sv_blocked := True\<rparr>)
             ((obs StatusDegraded)\<lparr>obs_LastError := Some (Opaque ''managed core descendants did not exit'')\<rparr>)))"

text \<open>How stopping a child can go: it exits before the timer (with the error of
  \<open>Terminate\<close>), or it has to be killed, which may fail and leave it running.\<close>

datatype stop_outcome =
    StopExited "go_error option" "go_error option"
  | StopKilled "go_error option"
  | StopKillFailed go_error

definition stopChild :: "supervisor \<Rightarrow> nat \<Rightarrow> stop_outcome \<Rightarrow> go_error option \<times> supervisor" where
  "stopChild sv c out =
     (let (err, sv1) =
        (case out of
           StopExited te d \<Rightarrow>
             (let (de, sv1) = waitDescendants (sv\<lparr>sv_alive := sv_alive sv - {c}\<rparr>) d
              in (errors_join [te, de], sv1))
         | StopKilled d \<Rightarrow> waitDescendants (sv\<lparr>sv_alive := sv_alive sv - {c}\<rparr>) d
         | StopKillFailed e \<Rightarrow> (Some e, sv))
      in (err, if err \<noteq> None then sv1\<lparr>sv_blocked := True\<rparr> else sv1))"

subsection \<open>Update sessions\<close>

text \<open>The health confirmation of a trial process: \<open>exited\<close> says whether the process has
  exited (with its error) when the code looks, the other fields what the waits, the
  context and the checks return at each attempt.\<close>

record health_env =
  he_has_checker :: bool
  he_exited :: "go_error option option"
  he_grace :: "go_error option"
  he_ctx :: "nat \<Rightarrow> go_error option"
  he_check :: "nat \<Rightarrow> go_error option"
  he_interval :: "nat \<Rightarrow> go_error option"
  he_ctx_end :: "go_error option"

definition trial_exited :: "go_error option \<Rightarrow> go_error option" where
  "trial_exited e = errors_join [Some (Opaque ''trial process exited''), e]"

fun confirm_attempts :: "health_env \<Rightarrow> nat \<Rightarrow> nat \<Rightarrow> go_error option \<Rightarrow> go_error option" where
  "confirm_attempts env 0 attempt failure = failure"
| "confirm_attempts env (Suc left) attempt failure =
     (case he_ctx env attempt of
        Some e \<Rightarrow> errors_join [failure, Some e]
      | None \<Rightarrow>
        (case he_check env attempt of
           None \<Rightarrow> (case he_exited env of
                Some ex \<Rightarrow> trial_exited ex
              | None \<Rightarrow> he_ctx_end env)
         | Some f \<Rightarrow>
             if attempt < 2 then
               (case he_interval env attempt of
                  Some e \<Rightarrow> errors_join [Some f, Some e]
                | None \<Rightarrow> confirm_attempts env left (Suc attempt) (Some f))
             else confirm_attempts env left (Suc attempt) (Some f)))"

definition confirmHealth :: "health_env \<Rightarrow> go_error option" where
  "confirmHealth env =
     (if \<not> he_has_checker env then
        (case he_exited env of Some ex \<Rightarrow> trial_exited ex | None \<Rightarrow> None)
      else (case he_grace env of
         Some e \<Rightarrow> Some e
       | None \<Rightarrow> confirm_attempts env 3 0 None))"

record session =
  se_process :: "(nat \<times> int) option"
  se_wasRunning :: bool
  se_healthy :: bool
  se_keepStopped :: bool

text \<open>\<open>Supervisor.start\<close>: preparing, then starting, a child.\<close>

datatype start_outcome = StartFails go_error | Starts int

definition start :: "supervisor \<Rightarrow> start_outcome \<Rightarrow> (go_error + nat \<times> int) \<times> supervisor" where
  "start sv out =
     (case out of
        StartFails e \<Rightarrow> (Inl e, sv)
      | Starts t \<Rightarrow>
          (Inr (sv_next sv, t),
           sv\<lparr>sv_alive := insert (sv_next sv) (sv_alive sv), sv_next := Suc (sv_next sv)\<rparr>))"

definition session_Start ::
  "supervisor \<Rightarrow> session \<Rightarrow> start_outcome \<Rightarrow> health_env \<Rightarrow> go_error option \<times> supervisor \<times> session" where
  "session_Start sv se out env =
     (if se_process se \<noteq> None \<or> sv_blocked sv then (Some coreRecoveryRequired, sv, se)
      else (case start sv out of
         (Inl e, sv1) \<Rightarrow> (Some (supervisorFailure ''mihomo trial start failed'' (Some e)), sv1, se)
       | (Inr owned, sv1) \<Rightarrow>
           (let se1 = se\<lparr>se_process := Some owned\<rparr> in
            case confirmHealth env of
              Some e \<Rightarrow> (Some (supervisorFailure ''mihomo trial health check failed'' (Some e)), sv1, se1)
            | None \<Rightarrow> (None, sv1, se1\<lparr>se_healthy := True\<rparr>))))"

text \<open>\<open>UpdateSession.Stop\<close>: a process that has exited already only waits for its
  descendants.\<close>

definition session_Stop ::
  "supervisor \<Rightarrow> session \<Rightarrow> stop_outcome \<Rightarrow> go_error option \<Rightarrow> go_error option \<times> supervisor \<times> session" where
  "session_Stop sv se out d =
     (case se_process se of
        None \<Rightarrow> (None, sv, se)
      | Some (c, t) \<Rightarrow>
          (let (err, sv1) = (if c \<notin> sv_alive sv then waitDescendants sv d else stopChild sv c out)
           in if err \<noteq> None then (err, sv1, se)
              else (None, sv1, se\<lparr>se_process := None, se_healthy := False\<rparr>)))"

text \<open>What an update callback does with its session, and the exit of its process.\<close>

datatype session_action =
    AStart start_outcome health_env
  | AStop stop_outcome "go_error option"
  | AKeepStopped
  | AExit

fun session_act :: "supervisor \<times> session \<Rightarrow> session_action \<Rightarrow> supervisor \<times> session" where
  "session_act (sv, se) (AStart out env) = snd (session_Start sv se out env)"
| "session_act (sv, se) (AStop out d) = snd (session_Stop sv se out d)"
| "session_act (sv, se) AKeepStopped = (sv, se\<lparr>se_keepStopped := True\<rparr>)"
| "session_act (sv, se) AExit =
     (case se_process se of
        None \<Rightarrow> (sv, se)
      | Some (c, t) \<Rightarrow> (sv\<lparr>sv_alive := sv_alive sv - {c}\<rparr>, se))"

text \<open>An update callback: its actions, the error it returns, and how the stop that
  \<open>performUpdate\<close> may have to do goes.\<close>

record update_work =
  uw_actions :: "session_action list"
  uw_err :: "go_error option"
  uw_stop :: stop_outcome
  uw_descendants :: "go_error option"

definition update_recovery_required :: "go_error option \<Rightarrow> go_error" where
  "update_recovery_required cause =
     Failure \<lparr>err_code = CodeDataFailure, err_message = ''core update recovery required'',
       err_details = [(''degraded'', DBool True)]\<rparr> cause"

definition performUpdate :: "supervisor \<Rightarrow> update_work \<Rightarrow> bool \<Rightarrow> go_error option \<times> supervisor" where
  "performUpdate sv work wasRunning =
     (let (sv1, se) = foldl session_act
            (sv, \<lparr>se_process = None, se_wasRunning = wasRunning, se_healthy = False, se_keepStopped = False\<rparr>)
            (uw_actions work);
          err = uw_err work in
      if maintenanceDegraded err \<or> (se_process se \<noteq> None \<and> \<not> se_healthy se) \<or>
         (wasRunning \<and> se_process se = None \<and> \<not> se_keepStopped se)
      then (let (stopErr, sv2, _) = session_Stop sv1 se (uw_stop work) (uw_descendants work)
            in (Some (update_recovery_required (errors_join [err, stopErr])),
                observe (sv2\<lparr>sv_blocked := True\<rparr>)
                  ((obs StatusDegraded)\<lparr>obs_LastError := Some (Opaque ''Core update recovery required'')\<rparr>)))
      else
        (let (stopErr, sv2, se2) =
           (if se_keepStopped se \<and> se_process se \<noteq> None
            then session_Stop sv1 se (uw_stop work) (uw_descendants work) else (None, sv1, se)) in
         if stopErr \<noteq> None then (errors_join [err, stopErr], sv2\<lparr>sv_blocked := True\<rparr>)
         else
           (let sv3 = (if se_keepStopped se2 then sv2\<lparr>sv_waiting := True\<rparr>
                       else if se_process se2 \<noteq> None then sv2\<lparr>sv_waiting := False\<rparr> else sv2)
            in (err, sv3\<lparr>sv_pending := se_process se2, sv_wake := True\<rparr>))))"

subsection \<open>The event loop\<close>

text \<open>A restart turns the loop once more.\<close>

definition next_turn :: "supervisor \<Rightarrow> supervisor" where
  "next_turn sv = sv\<lparr>sv_restarts := sv_restarts sv + 1, sv_pc := PTop\<rparr>"

definition leave_stopped :: "supervisor \<Rightarrow> supervisor" where
  "leave_stopped sv = (observe sv ((obs StatusStopped)\<lparr>obs_Restarts := sv_restarts sv\<rparr>))\<lparr>sv_pc := PExit\<rparr>"

text \<open>The tail of a loop turn after a child failed (or did not start): \<open>t0\<close> is the start
  of the turn, \<open>now1\<close> and \<open>now2\<close> the two readings of the clock.\<close>

definition after_failure :: "supervisor \<Rightarrow> go_error option \<Rightarrow> int \<Rightarrow> int \<Rightarrow> int \<Rightarrow> supervisor" where
  "after_failure sv err t0 now1 now2 =
     (if sv_blocked sv then sv\<lparr>sv_pc := PTop\<rparr>
      else let bo0 = (if now1 - t0 \<ge> opt_StableAfter (sv_options sv)
                      then backoff_Reset (sv_backoff sv) else sv_backoff sv);
               (delay, bo1) = backoff_Next bo0
           in (observe (sv\<lparr>sv_backoff := bo1\<rparr>)
                 ((obs StatusBackoff)\<lparr>obs_Restarts := sv_restarts sv, obs_NextRetryAt := now2 + delay,
                    obs_LastError := err\<rparr>))\<lparr>sv_pc := PBackoff delay\<rparr>)"

text \<open>What \<open>Run\<close> does with the result of \<open>runOwnedChild\<close>.\<close>

definition after_child ::
  "supervisor \<Rightarrow> go_error option \<Rightarrow> bool \<Rightarrow> int \<Rightarrow> int \<Rightarrow> int \<Rightarrow> supervisor" where
  "after_child sv err explicit t0 now1 now2 =
     (if sv_cancelled sv then leave_stopped sv
      else if explicit then next_turn sv
      else after_failure sv err t0 now1 now2)"

text \<open>The start of a turn at the gate: adopt the pending child or start one.\<close>

definition gate_turn :: "supervisor \<Rightarrow> start_outcome \<Rightarrow> int \<Rightarrow> int \<Rightarrow> int \<Rightarrow> supervisor" where
  "gate_turn sv out t0 now1 now2 =
     (case sv_pending sv of
        Some (c, t) \<Rightarrow>
          (observe (sv\<lparr>sv_pending := None\<rparr>)
             ((obs StatusStarting)\<lparr>obs_PID := c, obs_Restarts := sv_restarts sv, obs_StartedAt := t\<rparr>))
          \<lparr>sv_pc := PRun c t t0\<rparr>
      | None \<Rightarrow>
        (case start sv out of
           (Inl e, sv1) \<Rightarrow>
             (let sv2 = (if maintenanceDegraded (Some e)
                 then observe (sv1\<lparr>sv_blocked := True\<rparr>)
                   ((obs StatusDegraded)\<lparr>obs_Restarts := sv_restarts sv1,
                      obs_LastError := Some (Opaque ''Core startup recovery could not be confirmed'')\<rparr>)
                 else sv1)
              in after_failure sv2 (Some (supervisorFailure ''mihomo process start failed'' (Some e))) t0 now1 now2)
         | (Inr (c, t), sv1) \<Rightarrow>
             (observe sv1
                ((obs StatusStarting)\<lparr>obs_PID := c, obs_Restarts := sv_restarts sv1, obs_StartedAt := t\<rparr>))
             \<lparr>sv_pc := PRun c t t0\<rparr>))"

text \<open>Labels: what the environment or a caller contributes to a step. Answers to callers
  are part of the label.\<close>

datatype sup_label =
    LRun | LPublishDone | LCancel | LTurn | LWake | LLeave
  | LGate start_outcome
  | LRestart "go_error option"
  | LMaintain "go_error option"
  | LUpdate update_work bool "go_error option"
  | LPublishRunning | LChildExit | LUnexpectedExit | LHealthFailure go_error
  | LJoined | LTimer
  | LWaitForCore
  | LDirectMaintain "go_error option"
  | LDirectUpdate update_work bool "go_error option"

text \<open>The \<open>select\<close> of \<open>runOwnedChild\<close>, and what \<open>Run\<close> does with its result.\<close>

inductive child_step :: "supervisor \<Rightarrow> sup_label \<Rightarrow> supervisor \<Rightarrow> bool" where
  child_running: "sv_pc sv = PRun c t t0 \<Longrightarrow>
     child_step sv LPublishRunning
       (observe sv ((obs StatusRunning)\<lparr>obs_PID := c, obs_Restarts := sv_restarts sv, obs_StartedAt := t\<rparr>))"
| child_update: "sv_pc sv = PRun c t t0 \<Longrightarrow> stopChild sv c out = (None, sv1) \<Longrightarrow>
     performUpdate sv1 work True = (err, sv2) \<Longrightarrow>
     child_step sv (LUpdate work reinstall err) (after_child sv2 err True t0 now1 now2)"
| child_update_stuck: "sv_pc sv = PRun c t t0 \<Longrightarrow> stopChild sv c out = (Some e, sv1) \<Longrightarrow>
     child_step sv (LUpdate work reinstall (Some e)) (sv1\<lparr>sv_blocked := True, sv_pc := PJoin c\<rparr>)"
| child_cancelled: "sv_pc sv = PRun c t t0 \<Longrightarrow> sv_cancelled sv \<Longrightarrow> stopChild sv c out = (err, sv1) \<Longrightarrow>
     child_step sv LTurn (after_child sv1 err False t0 now1 now2)"
| child_maintain: "sv_pc sv = PRun c t t0 \<Longrightarrow> stopChild sv c out = (None, sv1) \<Longrightarrow>
     sv2 = (if maintenanceDegraded err then sv1\<lparr>sv_blocked := True\<rparr> else sv1) \<Longrightarrow>
     child_step sv (LMaintain err) (after_child sv2 err True t0 now1 now2)"
| child_maintain_stuck: "sv_pc sv = PRun c t t0 \<Longrightarrow> stopChild sv c out = (Some e, sv1) \<Longrightarrow>
     child_step sv (LMaintain (Some e)) (sv1\<lparr>sv_blocked := True, sv_pc := PJoin c\<rparr>)"
| child_joined: "sv_pc sv = PJoin c \<Longrightarrow> c \<notin> sv_alive sv \<Longrightarrow>
     child_step sv LJoined (after_child sv None True t0 now1 now2)"
| child_restart: "sv_pc sv = PRun c t t0 \<Longrightarrow> stopChild sv c out = (err, sv1) \<Longrightarrow>
     child_step sv (LRestart err) (after_child sv1 err True t0 now1 now2)"
| child_unexpected: "sv_pc sv = PRun c t t0 \<Longrightarrow> c \<notin> sv_alive sv \<Longrightarrow>
     waitDescendants sv d = (de, sv1) \<Longrightarrow>
     child_step sv LUnexpectedExit
       (after_child sv1
          (Some (supervisorFailure ''mihomo process exited unexpectedly'' (errors_join [exit_err, de])))
          False t0 now1 now2)"
| child_unhealthy: "sv_pc sv = PRun c t t0 \<Longrightarrow> stopChild sv c out = (stop_err, sv1) \<Longrightarrow>
     err = (case stop_err of None \<Rightarrow> e
            | Some se \<Rightarrow> supervisorFailure ''mihomo health check failed three times''
                (errors_join [Some e,
                   Some (supervisorFailure ''mihomo process termination failed'' (Some se))])) \<Longrightarrow>
     child_step sv (LHealthFailure e) (after_child sv1 (Some err) False t0 now1 now2)"

text \<open>The \<open>select\<close> of \<open>waitBackoff\<close>.\<close>

inductive backoff_step :: "supervisor \<Rightarrow> sup_label \<Rightarrow> supervisor \<Rightarrow> bool" where
  backoff_timer: "sv_pc sv = PBackoff delay \<Longrightarrow> backoff_step sv LTimer (next_turn sv)"
| backoff_cancelled: "sv_pc sv = PBackoff delay \<Longrightarrow> sv_cancelled sv \<Longrightarrow> backoff_step sv LTurn (leave_stopped sv)"
| backoff_update: "sv_pc sv = PBackoff delay \<Longrightarrow> performUpdate sv work True = (err, sv1) \<Longrightarrow>
     backoff_step sv (LUpdate work reinstall err) (next_turn sv1)"
| backoff_maintain: "sv_pc sv = PBackoff delay \<Longrightarrow>
     sv1 = (if maintenanceDegraded err then sv\<lparr>sv_blocked := True\<rparr> else sv) \<Longrightarrow>
     backoff_step sv (LMaintain err) (next_turn sv1)"
| backoff_restart: "sv_pc sv = PBackoff delay \<Longrightarrow> backoff_step sv (LRestart None) (next_turn sv)"

text \<open>
  What \<open>Restart\<close>, \<open>Maintain\<close> and \<open>updateOwned\<close> do before the event loop sees a request:
  answer at once, run the callback in the caller's goroutine, or send the request.
\<close>

datatype admission = Reply go_error | RunDirect | SendRequest

definition Restart_admission :: "supervisor \<Rightarrow> admission" where
  "Restart_admission sv =
     (if sv_blocked sv then Reply coreRecoveryRequired
      else if \<not> sv_active sv then Reply (Api (api CodeInvalidState ''mihomo supervisor is not running''))
      else SendRequest)"

definition Maintain_admission :: "supervisor \<Rightarrow> bool \<Rightarrow> admission" where
  "Maintain_admission sv has_work =
     (if \<not> has_work then Reply (Api (api CodeInvalidArgument ''maintenance callback missing''))
      else if sv_blocked sv then Reply coreRecoveryRequired
      else if \<not> sv_active sv then RunDirect
      else if \<not> sv_runDone sv then Reply (Api (api CodeInvalidState ''supervisor is starting''))
      else SendRequest)"

definition updateOwned_admission :: "supervisor \<Rightarrow> bool \<Rightarrow> bool \<Rightarrow> admission" where
  "updateOwned_admission sv has_work reinstall =
     (if \<not> has_work then Reply (Api (api CodeInvalidArgument ''update callback missing''))
      else if sv_blocked sv \<and> \<not> reinstall then Reply coreRecoveryRequired
      else if \<not> sv_active sv then RunDirect
      else if \<not> sv_runDone sv then Reply (Api (api CodeInvalidState ''supervisor is starting''))
      else SendRequest)"

text \<open>Calls that run in the caller's goroutine under the start gate.\<close>

inductive caller_step :: "supervisor \<Rightarrow> sup_label \<Rightarrow> supervisor \<Rightarrow> bool" where
  wait_for_core: "caller_step sv LWaitForCore (sv\<lparr>sv_waiting := (sv_pending sv = None)\<rparr>)"
| direct_maintain: "Maintain_admission sv True = RunDirect \<Longrightarrow>
     caller_step sv (LDirectMaintain err)
       (if maintenanceDegraded err then sv\<lparr>sv_blocked := True\<rparr> else sv)"
| direct_update: "updateOwned_admission sv True reinstall = RunDirect \<Longrightarrow>
     sv0 = (if reinstall then sv\<lparr>sv_blocked := False\<rparr> else sv) \<Longrightarrow>
     performUpdate sv0 work False = (err, sv1) \<Longrightarrow>
     caller_step sv (LDirectUpdate work reinstall err) sv1"

text \<open>The event loop: \<open>Run\<close> itself, and the three groups above.\<close>

inductive sup_step :: "supervisor \<Rightarrow> sup_label \<Rightarrow> supervisor \<Rightarrow> bool" where
  run: "sv_pc sv = POff \<Longrightarrow> \<not> sv_active sv \<Longrightarrow>
     sup_step sv LRun (sv\<lparr>sv_active := True, sv_pc := PEntered\<rparr>)"
| publish_done: "sv_pc sv = PEntered \<Longrightarrow>
     sup_step sv LPublishDone (sv\<lparr>sv_runDone := True, sv_pc := PTop, sv_restarts := 0,
       sv_backoff := NewBackoff (opt_MinimumBackoff (sv_options sv)) (opt_MaximumBackoff (sv_options sv))\<rparr>)"
| cancel: "sup_step sv LCancel (sv\<lparr>sv_cancelled := True\<rparr>)"
| leave: "sv_pc sv = PExit \<Longrightarrow>
     sv1 = (case sv_pending sv of None \<Rightarrow> sv | Some (c, t) \<Rightarrow> (snd (stopChild sv c out))\<lparr>sv_pending := None\<rparr>) \<Longrightarrow>
     sup_step sv LLeave (sv1\<lparr>sv_active := False, sv_pc := POff\<rparr>)"
| top_cancelled: "sv_pc sv = PTop \<Longrightarrow> sv_cancelled sv \<Longrightarrow> sup_step sv LTurn (leave_stopped sv)"
| top_idle: "sv_pc sv = PTop \<Longrightarrow> \<not> sv_cancelled sv \<Longrightarrow> sv_blocked sv \<or> sv_waiting sv \<Longrightarrow>
     sup_step sv LTurn (sv\<lparr>sv_pc := PIdle\<rparr>)"
| top_gate: "sv_pc sv = PTop \<Longrightarrow> \<not> sv_cancelled sv \<Longrightarrow> \<not> sv_blocked sv \<Longrightarrow> \<not> sv_waiting sv \<Longrightarrow>
     sup_step sv LTurn (sv\<lparr>sv_pc := PGate\<rparr>)"
| idle_wake: "sv_pc sv = PIdle \<Longrightarrow> sv_wake sv \<Longrightarrow> sup_step sv LWake (sv\<lparr>sv_wake := False, sv_pc := PTop\<rparr>)"
| idle_cancelled: "sv_pc sv = PIdle \<Longrightarrow> sv_cancelled sv \<Longrightarrow> sup_step sv LTurn (sv\<lparr>sv_pc := PExit\<rparr>)"
| idle_restart: "sv_pc sv = PIdle \<Longrightarrow>
     sup_step sv (LRestart (Some (idleRejection sv))) (sv\<lparr>sv_pc := PTop\<rparr>)"
| idle_maintain: "sv_pc sv = PIdle \<Longrightarrow>
     sup_step sv (LMaintain (Some (idleRejection sv))) (sv\<lparr>sv_pc := PTop\<rparr>)"
| idle_update_rejected: "sv_pc sv = PIdle \<Longrightarrow> sv_blocked sv \<Longrightarrow>
     sup_step sv (LUpdate work False (Some coreRecoveryRequired)) (sv\<lparr>sv_pc := PTop\<rparr>)"
| idle_update: "sv_pc sv = PIdle \<Longrightarrow> \<not> sv_blocked sv \<or> reinstall \<Longrightarrow>
     sv0 = (if reinstall then sv\<lparr>sv_blocked := False\<rparr> else sv) \<Longrightarrow>
     performUpdate sv0 work (\<not> sv_waiting sv0) = (err, sv1) \<Longrightarrow>
     sup_step sv (LUpdate work reinstall err) (sv1\<lparr>sv_pc := PTop\<rparr>)"
| gate_cancelled: "sv_pc sv = PGate \<Longrightarrow> sv_cancelled sv \<Longrightarrow> sup_step sv LTurn (sv\<lparr>sv_pc := PExit\<rparr>)"
| gate_back: "sv_pc sv = PGate \<Longrightarrow>
     sv_cancelled sv \<or> sv_blocked sv \<or> (sv_waiting sv \<and> sv_pending sv = None) \<Longrightarrow>
     sup_step sv LTurn (sv\<lparr>sv_pc := PTop\<rparr>)"
| gate: "sv_pc sv = PGate \<Longrightarrow> \<not> sv_cancelled sv \<Longrightarrow> \<not> sv_blocked sv \<Longrightarrow>
     \<not> (sv_waiting sv \<and> sv_pending sv = None) \<Longrightarrow>
     sup_step sv (LGate out) (gate_turn sv out t0 now1 now2)"
| child_exit: "c \<in> sv_alive sv \<Longrightarrow> sup_step sv LChildExit (sv\<lparr>sv_alive := sv_alive sv - {c}\<rparr>)"
| from_child: "child_step sv l sv' \<Longrightarrow> sup_step sv l sv'"
| from_backoff: "backoff_step sv l sv' \<Longrightarrow> sup_step sv l sv'"
| from_caller: "caller_step sv l sv' \<Longrightarrow> sup_step sv l sv'"

text \<open>Executions from \<open>New\<close>.\<close>

inductive sup_exec :: "supervisor \<Rightarrow> sup_label list \<Rightarrow> supervisor \<Rightarrow> bool" where
  exec_nil: "sup_exec sv [] sv"
| exec_snoc: "sup_exec sv ls sv1 \<Longrightarrow> sup_step sv1 l sv2 \<Longrightarrow> sup_exec sv (ls @ [l]) sv2"

section \<open>At most one core process\<close>

lemma observe_fields [simp]:
  "sv_alive (observe sv ob) = sv_alive sv" "sv_next (observe sv ob) = sv_next sv"
  "sv_blocked (observe sv ob) = sv_blocked sv" "sv_pending (observe sv ob) = sv_pending sv"
  "sv_waiting (observe sv ob) = sv_waiting sv" "sv_pc (observe sv ob) = sv_pc sv"
  "sv_active (observe sv ob) = sv_active sv" "sv_cancelled (observe sv ob) = sv_cancelled sv"
  by (simp_all add: observe_def)


text \<open>What stopping, session actions and updates leave alone.\<close>

definition same_frame :: "supervisor \<Rightarrow> supervisor \<Rightarrow> bool" where
  "same_frame sv sv' \<longleftrightarrow> sv_pc sv' = sv_pc sv \<and> sv_active sv' = sv_active sv \<and>
     sv_cancelled sv' = sv_cancelled sv \<and> sv_pending sv' = sv_pending sv \<and>
     sv_waiting sv' = sv_waiting sv \<and> (sv_blocked sv \<longrightarrow> sv_blocked sv')"

lemma same_frame_refl [simp]: "same_frame sv sv"
  by (simp add: same_frame_def)


lemma waitDescendants_facts:
  "waitDescendants sv d = (e, sv') \<Longrightarrow>
     same_frame sv sv' \<and> sv_alive sv' = sv_alive sv \<and> sv_next sv' = sv_next sv \<and>
     (e = None \<longrightarrow> sv' = sv) \<and> (e \<noteq> None \<longrightarrow> sv_blocked sv')"
  by (auto simp: waitDescendants_def same_frame_def split: option.splits)

lemma stopChild_facts:
  assumes "stopChild sv c out = (e, sv')"
  shows "same_frame sv sv' \<and> sv_alive sv' \<subseteq> sv_alive sv \<and> sv_next sv' = sv_next sv \<and>
    (e = None \<longrightarrow> c \<notin> sv_alive sv' \<and> sv_blocked sv' = sv_blocked sv) \<and>
    (e \<noteq> None \<longrightarrow> sv_blocked sv')"
proof (cases out)
  case (StopExited te d)
  then show ?thesis using assms
    by (cases te; cases d) (auto simp: stopChild_def waitDescendants_def same_frame_def Let_def)
next
  case (StopKilled d)
  then show ?thesis using assms
    by (cases d) (auto simp: stopChild_def waitDescendants_def same_frame_def Let_def)
next
  case (StopKillFailed x)
  then show ?thesis using assms by (auto simp: stopChild_def same_frame_def Let_def)
qed











subsection \<open>The invariant of the event loop\<close>
























section \<open>The recovery gate\<close>

text \<open>While the supervisor is blocked no process starts, whatever sessions do.\<close>

lemma session_act_blocked:
  "sv_blocked sv \<Longrightarrow> session_act (sv, se) a = (sv', se') \<Longrightarrow> sv_blocked sv' \<and> sv_next sv' = sv_next sv"
proof (cases a)
  case (AStop out d)
  assume b: "sv_blocked sv" "session_act (sv, se) a = (sv', se')"
  obtain c t where "se_process se = None \<or> se_process se = Some (c, t)" by (metis option.exhaust surj_pair)
  then show ?thesis
    using b AStop waitDescendants_facts [of sv d] stopChild_facts [of sv c out]
    by (cases "stopChild sv c out"; cases "waitDescendants sv d")
       (auto simp: session_Stop_def Let_def same_frame_def split: if_splits)
qed (auto simp: session_Start_def split: option.splits)

lemma session_run_blocked:
  "sv_blocked sv \<Longrightarrow> foldl session_act (sv, se) as = (sv', se') \<Longrightarrow> sv_blocked sv' \<and> sv_next sv' = sv_next sv"
proof (induction as arbitrary: sv se)
  case (Cons a as)
  obtain sv1 se1 where a: "session_act (sv, se) a = (sv1, se1)" by fastforce
  from session_act_blocked [OF Cons.prems(1) a] Cons.IH [of sv1 se1] Cons.prems(2) a show ?case by simp
qed auto

lemma performUpdate_blocked:
  assumes "sv_blocked sv" "performUpdate sv work wr = (err, sv')"
  shows "sv_blocked sv' \<and> sv_next sv' = sv_next sv"
proof -
  let ?se0 = "\<lparr>se_process = None, se_wasRunning = wr, se_healthy = False, se_keepStopped = False\<rparr>"
  obtain sv1 se where run: "foldl session_act (sv, ?se0) (uw_actions work) = (sv1, se)" by fastforce
  obtain e sv2 se2 where stp: "session_Stop sv1 se (uw_stop work) (uw_descendants work) = (e, sv2, se2)"
    by (metis surj_pair)
  have r: "sv_blocked sv1 \<and> sv_next sv1 = sv_next sv" using session_run_blocked [OF assms(1) run] .
  have "sv_blocked sv2 \<and> sv_next sv2 = sv_next sv1"
    using session_act_blocked [of sv1 se "AStop (uw_stop work) (uw_descendants work)" sv2 se2] r stp by simp
  with r assms(2) show ?thesis
    by (auto simp: performUpdate_def run stp Let_def split: if_splits)
qed

lemma after_child_blocked [simp]:
  "sv_blocked (after_child sv err explicit t0 n1 n2) = sv_blocked sv"
  "sv_next (after_child sv err explicit t0 n1 n2) = sv_next sv"
  by (auto simp: after_child_def leave_stopped_def next_turn_def after_failure_def split: prod.splits)

fun is_reinstall :: "sup_label \<Rightarrow> bool" where
  "is_reinstall (LUpdate work reinstall err) = reinstall"
| "is_reinstall (LDirectUpdate work reinstall err) = reinstall"
| "is_reinstall _ = False"

lemma stop_blocked:
  "stopChild sv c out = (e, sv1) \<Longrightarrow> sv_blocked sv \<Longrightarrow> sv_blocked sv1 \<and> sv_next sv1 = sv_next sv"
  using stopChild_facts by (auto simp: same_frame_def)

lemma descendants_blocked:
  "waitDescendants sv d = (e, sv1) \<Longrightarrow> sv_blocked sv \<Longrightarrow> sv_blocked sv1 \<and> sv_next sv1 = sv_next sv"
  using waitDescendants_facts by (auto simp: same_frame_def)

lemma leave_blocked:
  assumes "sv_blocked sv"
  shows "sv_blocked (case sv_pending sv of None \<Rightarrow> sv | Some (c, t) \<Rightarrow> (snd (stopChild sv c out))\<lparr>sv_pending := None\<rparr>) \<and>
    sv_next (case sv_pending sv of None \<Rightarrow> sv | Some (c, t) \<Rightarrow> (snd (stopChild sv c out))\<lparr>sv_pending := None\<rparr>) = sv_next sv"
proof (cases "sv_pending sv")
  case (Some ct)
  then show ?thesis using assms stop_blocked [of sv "fst ct" out]
    by (cases "stopChild sv (fst ct) out") (auto split: prod.splits)
qed (use assms in simp)

lemma child_step_blocked:
  "child_step sv l sv' \<Longrightarrow> sv_blocked sv \<Longrightarrow> sv_blocked sv' \<and> sv_next sv' = sv_next sv"
proof (induction rule: child_step.induct)
  case (child_update sv c t t0 out sv1 work err sv2 reinstall now1 now2)
  then show ?case using stop_blocked [OF child_update.hyps(2)] performUpdate_blocked [OF _ child_update.hyps(3)]
    by simp
qed (auto dest: stop_blocked descendants_blocked)

lemma backoff_step_blocked:
  "backoff_step sv l sv' \<Longrightarrow> sv_blocked sv \<Longrightarrow> sv_blocked sv' \<and> sv_next sv' = sv_next sv"
proof (induction rule: backoff_step.induct)
  case (backoff_update sv delay work err sv1 reinstall)
  then show ?case using performUpdate_blocked [OF _ backoff_update.hyps(2)] by (simp add: next_turn_def)
qed (auto simp: leave_stopped_def next_turn_def)

lemma caller_step_blocked:
  "caller_step sv l sv' \<Longrightarrow> sv_blocked sv \<Longrightarrow> \<not> is_reinstall l \<Longrightarrow> sv_blocked sv' \<and> sv_next sv' = sv_next sv"
  by (induction rule: caller_step.induct)
     (auto simp: Maintain_admission_def updateOwned_admission_def split: if_splits)

lemma blocked_step:
  "sup_step sv l sv' \<Longrightarrow> sv_blocked sv \<Longrightarrow> \<not> is_reinstall l \<Longrightarrow>
   sv_blocked sv' \<and> sv_next sv' = sv_next sv"
proof (induction rule: sup_step.induct)
  case (leave sv sv1 out)
  then show ?case using leave_blocked [of sv out] by simp
qed (auto simp: leave_stopped_def dest: child_step_blocked backoff_step_blocked caller_step_blocked)

section \<open>Update outcomes\<close>

text \<open>A session never reports a process healthy that it does not own.\<close>

lemma confirm_attempts_None:
  "confirm_attempts env left a f = None \<Longrightarrow> 0 < left \<Longrightarrow>
   he_exited env = None \<and> (\<exists>b. a \<le> b \<and> b < a + left \<and> he_check env b = None)"
proof (induction left arbitrary: a f)
  case (Suc left)
  show ?case
  proof (cases "he_ctx env a")
    case (Some e)
    then show ?thesis using Suc.prems by (cases f) auto
  next
    case None
    show ?thesis
    proof (cases "he_check env a")
      case chk: None
      then have "he_exited env = None"
        using Suc.prems None by (auto simp: trial_exited_def errors_join_def split: option.splits list.splits)
      then show ?thesis using chk by auto
    next
      case (Some g)
      then have rest: "confirm_attempts env left (Suc a) (Some g) = None"
        using Suc.prems None by (auto split: if_splits option.splits)
      then have "0 < left" by (cases left) auto
      from Suc.IH [OF rest this] obtain b where "he_exited env = None" "Suc a \<le> b" "b < Suc a + left"
        "he_check env b = None" by blast
      then show ?thesis by (intro conjI exI [of _ b]) auto
    qed
  qed
qed simp

lemma performUpdate_restores:
  assumes "performUpdate sv work True = (err, sv')"
  shows "sv_blocked sv' \<or> sv_pending sv' \<noteq> None \<or> sv_waiting sv'"
proof -
  let ?se0 = "\<lparr>se_process = None, se_wasRunning = True, se_healthy = False, se_keepStopped = False\<rparr>"
  obtain sv1 se where run: "foldl session_act (sv, ?se0) (uw_actions work) = (sv1, se)" by fastforce
  obtain e sv2 se2 where stp: "session_Stop sv1 se (uw_stop work) (uw_descendants work) = (e, sv2, se2)"
    by (metis surj_pair)
  have "se_keepStopped se2 = se_keepStopped se"
    using stp by (auto simp: session_Stop_def Let_def split: option.splits prod.splits if_splits)
  then show ?thesis using assms
    by (auto simp: performUpdate_def run stp Let_def split: if_splits)
qed

section \<open>Properties\<close>


definition demo_options :: sup_options where
  "demo_options = \<lparr>opt_MinimumBackoff = 0, opt_MaximumBackoff = 0, opt_StableAfter = 0,
     opt_GracePeriod = 0, opt_HealthInterval = 0, opt_StopTimeout = 0\<rparr>"

text \<open>A supervisor watching its first child.\<close>

definition demo_entered :: supervisor where
  "demo_entered = (New demo_options)\<lparr>sv_active := True, sv_pc := PEntered\<rparr>"

definition demo_gate :: supervisor where
  "demo_gate = demo_entered\<lparr>sv_runDone := True, sv_pc := PGate, sv_restarts := 0,
     sv_backoff := NewBackoff (opt_MinimumBackoff (sv_options demo_entered))
       (opt_MaximumBackoff (sv_options demo_entered))\<rparr>"

definition demo_running :: supervisor where
  "demo_running = gate_turn demo_gate (Starts 0) 0 0 0"

lemma demo_running_exec:
  "sup_exec (New demo_options) [LRun, LPublishDone, LTurn, LGate (Starts 0)] demo_running"
proof -
  let ?a = "demo_entered" and ?c = "demo_gate"
  let ?b = "demo_gate\<lparr>sv_pc := PTop\<rparr>"
  have st: "sup_step (New demo_options) LRun ?a" "sup_step ?a LPublishDone ?b"
    "sup_step ?b LTurn ?c" "sup_step ?c (LGate (Starts 0)) demo_running"
    using sup_step.run [of "New demo_options"] sup_step.publish_done [of ?a] sup_step.top_gate [of ?b]
      sup_step.gate [of ?c "Starts 0" 0 0 0]
    by (simp_all add: demo_running_def demo_gate_def demo_entered_def New_def)
  show "sup_exec (New demo_options) [LRun, LPublishDone, LTurn, LGate (Starts 0)] demo_running"
    using exec_snoc [OF exec_snoc [OF exec_snoc [OF exec_snoc [OF exec_nil st(1)] st(2)] st(3)] st(4)]
    by simp
qed

lemma demo_running_fields:
  "sv_pc demo_running = PRun 1 0 0" "sv_alive demo_running = {1}" "sv_next demo_running = 2"
  "sv_blocked demo_running = False" "sv_pending demo_running = None" "sv_waiting demo_running = False"
  "sv_cancelled demo_running = False"
  by (simp_all add: demo_running_def gate_turn_def start_def demo_gate_def demo_entered_def New_def)


text \<open>
  C24. The recovery gate: once a failed stop, failed recovery or leftover descendants
  block the supervisor, no step but a reinstall unblocks it and none starts a process.
\<close>

theorem blocked_starts_nothing:
  assumes "sup_step sv l sv'" and "sv_blocked sv" and "\<not> is_reinstall l"
  shows "sv_blocked sv' \<and> sv_next sv' = sv_next sv"
  using blocked_step [OF assms] .

theorem blocked_starts_nothing_witness:
  "sv_blocked (demo_running\<lparr>sv_blocked := True, sv_cancelled := True\<rparr>) \<and>
   sv_next (demo_running\<lparr>sv_blocked := True, sv_cancelled := True\<rparr>) = 2"
  using blocked_starts_nothing [OF sup_step.cancel [of "demo_running\<lparr>sv_blocked := True\<rparr>"]]
  by (simp add: demo_running_fields)

text \<open>
  C25. The delays between restarts: starting from a fresh backoff, the \<open>i\<close>-th consecutive
  failure waits \<open>min (2 ^ i * minimum) maximum\<close>; the doubling never overflows the 64-bit
  duration, so a delay is never negative and never above the maximum.
\<close>

theorem backoff_is_bounded_doubling:
  assumes "0 < lo" and "lo \<le> hi" and "hi < 2 ^ 63" and "i < n"
  shows "backoff_delays n (NewBackoff lo hi) ! i = min (2 ^ i * lo) hi"
proof -
  let ?b = "NewBackoff lo hi"
  have ok: "backoff_ok ?b" using assms by (intro NewBackoff_ok) auto
  have f: "bo_minimum ?b = lo" "bo_maximum ?b = hi" "bo_current ?b = 0"
    using assms by (auto simp: NewBackoff_def Let_def)
  obtain m where n: "n = Suc m" using assms(4) by (cases n) auto
  have next1: "backoff_Next ?b = (lo, ?b\<lparr>bo_current := lo\<rparr>)" using f by (simp add: backoff_Next_def)
  show ?thesis
  proof (cases i)
    case 0
    then show ?thesis using n next1 assms by simp
  next
    case (Suc j)
    have "backoff_ok (?b\<lparr>bo_current := lo\<rparr>)" using backoff_Next_ok [OF ok] next1 by simp
    then have "backoff_delays m (?b\<lparr>bo_current := lo\<rparr>) ! j = min (2 ^ Suc j * lo) hi"
      using backoff_delays_double [of "?b\<lparr>bo_current := lo\<rparr>" j m] assms n Suc f by simp
    then show ?thesis using n next1 Suc by simp
  qed
qed

theorem backoff_is_bounded_doubling_witness:
  "backoff_delays 3 (NewBackoff (2 ^ 61 + 1) (2 ^ 63 - 1)) ! 2 = 2 ^ 63 - 1"
  using backoff_is_bounded_doubling [of "2 ^ 61 + 1" "2 ^ 63 - 1" 2 3] by simp

text \<open>
  The health monitor gives a running core up exactly when three checks in a row
  fail, however many isolated failures came before.
\<close>

theorem monitor_gives_up_iff:
  "gave_up (monitor_run monitor_start results) \<longleftrightarrow> three_in_row (map (\<lambda>r. r \<noteq> None) results)"
  using monitor_run_gave_up [of monitor_start results] failing_streak_iff [of 0 results]
  by (simp add: monitor_start_def)

text \<open>
  An update that replaced a running core never leaves it silently down: afterwards
  the supervisor is blocked for recovery, or owns a pending core process, or waits for a
  core because the update asked to keep it stopped; and a trial process counts as
  healthy only if it is still running and one of at most three checks succeeded.
\<close>

theorem update_outcome:
  "(performUpdate sv work True = (err, sv') \<longrightarrow>
      sv_blocked sv' \<or> sv_pending sv' \<noteq> None \<or> sv_waiting sv') \<and>
   (he_has_checker env \<and> confirmHealth env = None \<longrightarrow>
      he_exited env = None \<and> (\<exists>a < 3. he_check env a = None))"
  using performUpdate_restores [of sv work err sv'] confirm_attempts_None [of env 3 0 None]
  by (auto simp: confirmHealth_def split: option.splits)

definition demo_env :: health_env where
  "demo_env = \<lparr>he_has_checker = True, he_exited = None, he_grace = None, he_ctx = (\<lambda>_. None),
     he_check = (\<lambda>n. if n = 2 then None else Some (Opaque ''refused'')), he_interval = (\<lambda>_. None),
     he_ctx_end = None\<rparr>"

definition demo_work :: update_work where
  "demo_work = \<lparr>uw_actions = [AStart (Starts 5) demo_env], uw_err = None,
     uw_stop = StopKilled None, uw_descendants = None\<rparr>"

lemma demo_env_healthy: "confirmHealth demo_env = None"
  by (simp add: confirmHealth_def demo_env_def numeral_eq_Suc)

theorem update_outcome_witness:
  "sv_pending (snd (performUpdate (demo_running\<lparr>sv_alive := {}\<rparr>) demo_work True)) = Some (2, 5) \<and>
   (\<exists>a < 3. he_check demo_env a = None)"
  using update_outcome [of "demo_running\<lparr>sv_alive := {}\<rparr>" demo_work
      "fst (performUpdate (demo_running\<lparr>sv_alive := {}\<rparr>) demo_work True)"
      "snd (performUpdate (demo_running\<lparr>sv_alive := {}\<rparr>) demo_work True)" demo_env] demo_env_healthy
  by (simp add: performUpdate_def demo_work_def session_Start_def start_def demo_running_fields
        maintenanceDegraded_def) (simp add: demo_env_def)

definition demo_blocked :: supervisor where
  "demo_blocked = demo_running\<lparr>sv_blocked := True, sv_restarts := 1, sv_pc := PTop\<rparr>"

text \<open>
  C26. A reinstall can start a second core: from a fresh supervisor that starts its first
  core, a restart whose kill fails leaves that core running and blocks the supervisor; the
  loop goes idle, and a reinstall of a healthy core, which is what recovery asks for, then
  runs core 2 beside core 1. The restart (and the health-failure) branch does not wait
  for the old child to be joined, unlike the branches for updates and maintenance.
\<close>

theorem reinstall_after_failed_restart_runs_two_cores:
  "\<exists>err sv. sup_exec (New demo_options)
      [LRun, LPublishDone, LTurn, LGate (Starts 0), LRestart (Some (Opaque ''kill'')), LTurn,
       LUpdate demo_work True err] sv \<and>
    sv_alive sv = {1, 2}"
proof -
  let ?i = "demo_blocked\<lparr>sv_pc := PIdle\<rparr>"
  let ?u = "performUpdate (?i\<lparr>sv_blocked := False\<rparr>) demo_work True"
  have r: "sup_step demo_running (LRestart (Some (Opaque ''kill''))) demo_blocked"
    using sup_step.from_child [OF child_step.child_restart [of demo_running 1 0 0 "StopKillFailed (Opaque ''kill'')"
        "Some (Opaque ''kill'')" "demo_running\<lparr>sv_blocked := True\<rparr>" 0 0]]
    by (simp add: demo_running_fields stopChild_def after_child_def next_turn_def demo_blocked_def
          demo_running_def gate_turn_def start_def demo_gate_def demo_entered_def New_def observe_def)
  have t: "sup_step demo_blocked LTurn ?i"
    using sup_step.top_idle [of demo_blocked] by (simp add: demo_blocked_def demo_running_fields)
  have u: "sup_step ?i (LUpdate demo_work True (fst ?u)) ((snd ?u)\<lparr>sv_pc := PTop\<rparr>)"
    using sup_step.idle_update [of ?i True "?i\<lparr>sv_blocked := False\<rparr>" demo_work "fst ?u" "snd ?u"]
    by (simp add: demo_blocked_def demo_running_fields)
  have "sv_alive ((snd ?u)\<lparr>sv_pc := PTop\<rparr>) = {1, 2}"
    using demo_env_healthy
    by (auto simp: performUpdate_def demo_work_def session_Start_def start_def demo_blocked_def
          demo_running_fields maintenanceDegraded_def)
  then show ?thesis
    using exec_snoc [OF exec_snoc [OF exec_snoc [OF demo_running_exec r] t] u]
    by (intro exI [of _ "fst ?u"] exI [of _ "(snd ?u)\<lparr>sv_pc := PTop\<rparr>"] conjI) simp_all
qed

text \<open>
  The other exception: two updates that run in their callers, each leaving a healthy core,
  end with both cores alive, because the second one overwrites the pending process.
\<close>

lemma demo_direct_update:
  assumes "\<not> sv_blocked sv"
  shows "sv_alive (snd (performUpdate sv demo_work False)) = insert (sv_next sv) (sv_alive sv)"
    "sv_next (snd (performUpdate sv demo_work False)) = Suc (sv_next sv)"
    "\<not> sv_blocked (snd (performUpdate sv demo_work False))"
    "sv_active (snd (performUpdate sv demo_work False)) = sv_active sv"
  using assms demo_env_healthy
  by (simp_all add: performUpdate_def demo_work_def session_Start_def start_def maintenanceDegraded_def)

lemma two_direct_updates_run_two_cores:
  "\<exists>err1 err2 sv. sup_exec (New demo_options) [LDirectUpdate demo_work False err1, LDirectUpdate demo_work False err2] sv \<and>
    sv_alive sv = {1, 2}"
proof -
  let ?u = "performUpdate (New demo_options) demo_work False"
  let ?v = "performUpdate (snd ?u) demo_work False"
  have n: "sv_alive (New demo_options) = {}" "sv_next (New demo_options) = 1" "\<not> sv_blocked (New demo_options)"
    "\<not> sv_active (New demo_options)" by (simp_all add: New_def)
  note u = demo_direct_update [OF n(3)]
  note v = demo_direct_update [OF u(3)]
  have s1: "sup_step (New demo_options) (LDirectUpdate demo_work False (fst ?u)) (snd ?u)"
    using sup_step.from_caller [OF caller_step.direct_update [of "New demo_options" False "New demo_options" demo_work "fst ?u" "snd ?u"]]
    n by (simp add: updateOwned_admission_def)
  have s2: "sup_step (snd ?u) (LDirectUpdate demo_work False (fst ?v)) (snd ?v)"
    using sup_step.from_caller [OF caller_step.direct_update [of "snd ?u" False "snd ?u" demo_work "fst ?v" "snd ?v"]] u n
    by (simp add: updateOwned_admission_def)
  have "sv_alive (snd ?v) = {1, 2}" using v(1) u(1,2) n(1,2) by auto
  then show ?thesis
    using exec_snoc [OF exec_snoc [OF exec_nil s1] s2]
    by (intro exI [of _ "fst ?u"] exI [of _ "fst ?v"] exI [of _ "snd ?v"] conjI) simp_all
qed

end
