(* ===== verification/Catalog.thy ===== *)
theory Catalog
  imports Atomic_File
begin

text \<open>
  \<open>internal/subscription\<close>: \<open>model.go\<close>, \<open>catalog.go\<close>, \<open>userinfo.go\<close> and the source
  check of \<open>source.go\<close>. The catalog of subscription profiles, its normalisation,
  default filling, loading and saving. A \<open>time.Time\<close> is an \<open>int\<close>, the nanoseconds since
  Go's zero time, so \<open>IsZero\<close> is \<open>= 0\<close>. \<open>Normalize\<close> works in place: its result carries
  the catalog as it was left behind, on an error too, because a caller's slice sees the
  change.
\<close>

section \<open>Data\<close>

definition CatalogSchema :: string where
  "CatalogSchema = ''mihari.subscriptions/v1''"

definition ValidProxyMode :: "string \<Rightarrow> bool" where
  "ValidProxyMode mode \<longleftrightarrow> mode = '''' \<or> mode = ''proxy'' \<or> mode = ''auto''"

record profile =
  pf_ID :: string
  pf_Name :: string
  pf_URL :: string
  pf_CacheBaseDir :: string
  pf_CacheURL :: string
  pf_ScheduleFrom :: int
  pf_IntervalRefreshRequired :: bool
  pf_Enabled :: bool
  pf_AutoRefresh :: bool
  pf_Interval :: string
  pf_ProxyMode :: string
  pf_Version :: u64
  pf_Generation :: u64
  pf_UpdatedAt :: int
  pf_ETag :: string
  pf_LastModified :: string
  pf_LastError :: string
  pf_Upload :: i64
  pf_Download :: i64
  pf_Total :: i64
  pf_Expire :: i64

definition zero_profile :: profile where
  "zero_profile = \<lparr>pf_ID = [], pf_Name = [], pf_URL = [], pf_CacheBaseDir = [], pf_CacheURL = [],
     pf_ScheduleFrom = 0, pf_IntervalRefreshRequired = False, pf_Enabled = False,
     pf_AutoRefresh = False, pf_Interval = [], pf_ProxyMode = [], pf_Version = 0,
     pf_Generation = 0, pf_UpdatedAt = 0, pf_ETag = [], pf_LastModified = [], pf_LastError = [],
     pf_Upload = 0, pf_Download = 0, pf_Total = 0, pf_Expire = 0\<rparr>"

record catalog =
  cat_Schema :: string
  cat_GlobalInterval :: string
  cat_ActiveID :: string
  cat_Profiles :: "profile list"

definition zero_catalog :: catalog where
  "zero_catalog = \<lparr>cat_Schema = [], cat_GlobalInterval = [], cat_ActiveID = [], cat_Profiles = []\<rparr>"

record public_profile =
  pub_SourceType :: string
  pub_CacheOutdated :: bool
  pub_ScheduleFrom :: int
  pub_IntervalRefreshRequired :: bool
  pub_ID :: string
  pub_Name :: string
  pub_Enabled :: bool
  pub_AutoRefresh :: bool
  pub_Interval :: string
  pub_Cached :: bool
  pub_Generation :: u64
  pub_UpdatedAt :: int
  pub_LastError :: string
  pub_Upload :: i64
  pub_Download :: i64
  pub_Total :: i64
  pub_Expire :: i64
  pub_ProxyMode :: string

record public_catalog =
  pc_ActiveID :: string
  pc_GlobalInterval :: string
  pc_Profiles :: "public_profile list"

definition IsFileSource :: "string \<Rightarrow> bool" where
  "IsFileSource source = has_prefix source ''file:''"

definition sourceType :: "string \<Rightarrow> string" where
  "sourceType source = (if IsFileSource source then ''file'' else [])"

definition public_of :: "profile \<Rightarrow> public_profile" where
  "public_of p =
     \<lparr>pub_SourceType = sourceType (pf_URL p),
      pub_CacheOutdated = (0 < pf_Generation p \<and> pf_CacheURL p \<noteq> pf_URL p),
      pub_ScheduleFrom = pf_ScheduleFrom p,
      pub_IntervalRefreshRequired = pf_IntervalRefreshRequired p,
      pub_ID = pf_ID p, pub_Name = pf_Name p, pub_Enabled = pf_Enabled p,
      pub_AutoRefresh = pf_AutoRefresh p, pub_Interval = pf_Interval p,
      pub_Cached = (0 < pf_Generation p), pub_Generation = pf_Generation p,
      pub_UpdatedAt = pf_UpdatedAt p, pub_LastError = pf_LastError p,
      pub_Upload = pf_Upload p, pub_Download = pf_Download p, pub_Total = pf_Total p,
      pub_Expire = pf_Expire p, pub_ProxyMode = pf_ProxyMode p\<rparr>"

definition Public :: "catalog \<Rightarrow> public_catalog" where
  "Public c = \<lparr>pc_ActiveID = cat_ActiveID c, pc_GlobalInterval = cat_GlobalInterval c,
     pc_Profiles = map public_of (cat_Profiles c)\<rparr>"

section \<open>Code outside the package\<close>

text \<open>
  What the catalog takes from elsewhere: \<open>time.ParseDuration\<close>, \<open>platform.FileURI\<close>,
  \<open>url.Parse\<close> (scheme and host of the result), \<open>filepath.IsAbs\<close> of the platform,
  \<open>%q\<close> of \<open>fmt\<close>, the YAML encoder, the two \<open>Decode\<close> calls on a document and
  \<open>errors.As\<close> for \<open>*yaml.TypeError\<close> (its list of messages).
\<close>

record catalog_env =
  ce_duration :: "string \<Rightarrow> go_error + i64"
  ce_file_uri :: "string \<Rightarrow> go_error + string"
  ce_url :: "string \<Rightarrow> go_error + (string \<times> string)"
  ce_is_abs :: "string \<Rightarrow> bool"
  ce_quote :: "string \<Rightarrow> string"
  ce_marshal :: "catalog \<Rightarrow> go_error + string"
  ce_unmarshal :: "string \<Rightarrow> (go_error + catalog) \<times> go_error option"
  ce_type_errors :: "go_error \<Rightarrow> string list option"

section \<open>Operations of catalog.go\<close>

definition maxCatalogSize :: nat where
  "maxCatalogSize = 1048576"

definition profileIDPattern :: "string \<Rightarrow> bool" where
  "profileIDPattern s \<longleftrightarrow> length s = 32 \<and> list_all lower_hex s"

definition Defaults :: catalog where
  "Defaults = \<lparr>cat_Schema = CatalogSchema, cat_GlobalInterval = ''12h'', cat_ActiveID = [],
     cat_Profiles = []\<rparr>"

definition parseInterval :: "catalog_env \<Rightarrow> string \<Rightarrow> go_error + i64" where
  "parseInterval env s =
     (case ce_duration env s of
        Inl e \<Rightarrow> Inl (dataError (''invalid refresh interval '' @ ce_quote env s) [Some e])
      | Inr d \<Rightarrow> if d \<le> 0 then Inl (dataError (''invalid refresh interval '' @ ce_quote env s) [None])
                 else Inr d)"

definition validateSource :: "catalog_env \<Rightarrow> string \<Rightarrow> go_error option" where
  "validateSource env source =
     (if IsFileSource source
      then (case ce_file_uri env source of
              Inl e \<Rightarrow> Some (dataError ''invalid local YAML source'' [Some e])
            | Inr canonical \<Rightarrow>
                if canonical \<noteq> source
                then Some (data_error ''local YAML source must use a canonical file URI'')
                else None)
      else (case ce_url env source of
              Inl e \<Rightarrow> Some (dataError ''subscription source must use HTTP, HTTPS or file'' [Some e])
            | Inr (scheme, host) \<Rightarrow>
                if (scheme \<noteq> ''http'' \<and> scheme \<noteq> ''https'') \<or> host = []
                then Some (dataError ''subscription source must use HTTP, HTTPS or file'' [None])
                else None))"

text \<open>\<open>Catalog.Index\<close>; -1 is \<open>None\<close>.\<close>

definition Index :: "catalog \<Rightarrow> string \<Rightarrow> nat option" where
  "Index c i = find_index (\<lambda>p. pf_ID p = i) (cat_Profiles c)"

text \<open>The checks of one profile after its name was trimmed.\<close>

definition check_profile :: "catalog_env \<Rightarrow> profile \<Rightarrow> go_error option" where
  "check_profile env p =
     (if pf_Name p = [] then Some (data_error ''subscription name is required'')
      else case validateSource env (pf_URL p) of
        Some e \<Rightarrow> Some e
      | None \<Rightarrow>
      if IsFileSource (pf_URL p) \<and> pf_ProxyMode p \<noteq> []
      then Some (data_error ''local YAML sources do not support HTTP proxy mode'')
      else if pf_CacheBaseDir p \<noteq> [] \<and> \<not> ce_is_abs env (pf_CacheBaseDir p)
      then Some (data_error ''cache base directory must be absolute'')
      else if IsFileSource (pf_URL p) \<and> 0 < pf_Generation p \<and> pf_CacheBaseDir p = []
      then Some (data_error ''local YAML cache is missing its base directory'')
      else if \<not> IsFileSource (pf_URL p) \<and> pf_CacheBaseDir p \<noteq> []
      then Some (data_error ''remote YAML cache cannot have a local base directory'')
      else if \<not> ValidProxyMode (pf_ProxyMode p)
      then Some (data_error ''invalid subscription proxy mode'')
      else if pf_Interval p \<noteq> []
      then (case parseInterval env (pf_Interval p) of Inl e \<Rightarrow> Some e | Inr _ \<Rightarrow> None)
      else None)"

definition trimmed :: "profile \<Rightarrow> profile" where
  "trimmed p = p\<lparr>pf_Name := trim_space (pf_Name p)\<rparr>"

definition normalize_profile ::
  "catalog_env \<Rightarrow> string list \<Rightarrow> profile \<Rightarrow> profile \<times> go_error option" where
  "normalize_profile env seen p =
     (if \<not> profileIDPattern (pf_ID p) then (p, Some (data_error ''invalid subscription ID''))
      else if pf_ID p \<in> set seen then (p, Some (data_error ''duplicate subscription ID''))
      else let p' = trimmed p in (p', check_profile env p'))"

fun normalize_profiles ::
  "catalog_env \<Rightarrow> string list \<Rightarrow> profile list \<Rightarrow> profile list \<times> go_error option" where
  "normalize_profiles env seen [] = ([], None)"
| "normalize_profiles env seen (p # ps) =
     (case normalize_profile env seen p of
        (p', Some e) \<Rightarrow> (p' # ps, Some e)
      | (p', None) \<Rightarrow>
          (case normalize_profiles env (pf_ID p # seen) ps of (ps', e) \<Rightarrow> (p' # ps', e)))"

text \<open>The profile an active ID may name: enabled, with a fetched generation.\<close>

definition selectable :: "profile \<Rightarrow> bool" where
  "selectable p \<longleftrightarrow> pf_Enabled p \<and> 0 < pf_Generation p"

definition repair_active :: "catalog \<Rightarrow> catalog" where
  "repair_active c =
     (if cat_ActiveID c \<noteq> [] then
        (case Index c (cat_ActiveID c) of
           None \<Rightarrow> c\<lparr>cat_ActiveID := []\<rparr>
         | Some i \<Rightarrow> if \<not> selectable (cat_Profiles c ! i) then c\<lparr>cat_ActiveID := []\<rparr> else c)
      else c)"

definition Normalize :: "catalog_env \<Rightarrow> catalog \<Rightarrow> catalog \<times> go_error option" where
  "Normalize env c =
     (if cat_Schema c \<noteq> CatalogSchema
      then (c, Some (data_error ''unsupported subscription catalog schema''))
      else case parseInterval env (cat_GlobalInterval c) of
        Inl e \<Rightarrow> (c, Some e)
      | Inr _ \<Rightarrow>
          (case normalize_profiles env [] (cat_Profiles c) of
             (ps, Some e) \<Rightarrow> (c\<lparr>cat_Profiles := ps\<rparr>, Some e)
           | (ps, None) \<Rightarrow> (repair_active (c\<lparr>cat_Profiles := ps\<rparr>), None)))"

definition migrate :: "catalog \<Rightarrow> catalog" where
  "migrate c = c"

definition fill_profile :: "profile \<Rightarrow> profile" where
  "fill_profile p =
     (if 0 < pf_Generation p \<and> pf_CacheURL p = [] then p\<lparr>pf_CacheURL := pf_URL p\<rparr> else p)"

definition fillDefaults :: "catalog \<Rightarrow> catalog" where
  "fillDefaults c =
     (let ps = map fill_profile (cat_Profiles c); c1 = c\<lparr>cat_Profiles := ps\<rparr> in
      if cat_ActiveID c \<noteq> [] then c1
      else (case find_index selectable ps of
              None \<Rightarrow> c1
            | Some i \<Rightarrow> c1\<lparr>cat_ActiveID := pf_ID (ps ! i)\<rparr>))"

text \<open>What every caller composes: \<open>Normalize\<close> and then \<open>fillDefaults\<close>.\<close>

definition canonical_catalog :: "catalog_env \<Rightarrow> catalog \<Rightarrow> go_error + catalog" where
  "canonical_catalog env c =
     (case Normalize env c of (_, Some e) \<Rightarrow> Inl e | (c', None) \<Rightarrow> Inr (fillDefaults c'))"

definition EffectiveInterval :: "catalog_env \<Rightarrow> catalog \<Rightarrow> profile \<Rightarrow> i64" where
  "EffectiveInterval env c p =
     (case ce_duration env (if pf_Interval p = [] then cat_GlobalInterval c else pf_Interval p) of
        Inl _ \<Rightarrow> 0 | Inr d \<Rightarrow> d)"

text \<open>\<open>strings.Contains\<close>.\<close>

fun contains_str :: "string \<Rightarrow> string \<Rightarrow> bool" where
  "contains_str [] p = has_prefix [] p"
| "contains_str (x # xs) p = (has_prefix (x # xs) p \<or> contains_str xs p)"

definition decodeErrorMessage :: "catalog_env \<Rightarrow> go_error \<Rightarrow> string \<Rightarrow> string" where
  "decodeErrorMessage env err what =
     (case Option.bind (ce_type_errors env err) (List.find (\<lambda>item. contains_str item ''not found in type'')) of
        Some item \<Rightarrow> ''invalid '' @ what @ '': unknown field '' @ [CHR 0xE2, CHR 0x80, CHR 0x94] @ '' '' @ item
          @ ''; it may have been written by a newer mihari version or be a typo''
      | None \<Rightarrow> ''invalid '' @ what)"

text \<open>The faults of opening and of \<open>Stat\<close>; the contents are those on disk.\<close>

definition Load :: "catalog_env \<Rightarrow> go_error option \<Rightarrow> go_error option \<Rightarrow> string option \<Rightarrow> go_error + catalog" where
  "Load env open_err stat_err disk =
     (case open_err of
        Some e \<Rightarrow> Inl e
      | None \<Rightarrow>
     (case disk of
        None \<Rightarrow> Inl ErrNotExist
      | Some content \<Rightarrow>
     (case stat_err of
        Some e \<Rightarrow> Inl e
      | None \<Rightarrow>
        if length content > maxCatalogSize then Inl (data_error ''subscription catalog is too large'')
        else (case ce_unmarshal env content of
          (Inl e, _) \<Rightarrow> Inl (dataError (decodeErrorMessage env e ''subscription catalog'') [Some e])
        | (Inr c, extra) \<Rightarrow>
            if \<not> (case extra of None \<Rightarrow> False | Some e \<Rightarrow> error_is ErrEOF e)
            then Inl (dataError ''subscription catalog must contain one document'' [extra])
            else canonical_catalog env (migrate c)))))"

text \<open>
  How an atomic replacement of the catalog or of a cache file ends: the new contents are
  in place, perhaps with a warning (a failed directory sync), or the old ones are.
\<close>

datatype write_outcome = Written | WrittenWarn go_error | NotWritten go_error

definition put_with_commit ::
  "write_outcome \<Rightarrow> string \<Rightarrow> string option \<Rightarrow> (commit_result \<times> go_error option) \<times> string option" where
  "put_with_commit out content old =
     (case out of
        Written \<Rightarrow> ((\<lparr>commit_Committed = True, commit_Warning = None\<rparr>, None), Some content)
      | WrittenWarn w \<Rightarrow> ((\<lparr>commit_Committed = True, commit_Warning = Some w\<rparr>, None), Some content)
      | NotWritten e \<Rightarrow> ((no_commit, Some e), old))"

definition put_atomic :: "write_outcome \<Rightarrow> string \<Rightarrow> string option \<Rightarrow> go_error option \<times> string option" where
  "put_atomic out content old =
     (case put_with_commit out content old of
        ((r, err), new) \<Rightarrow> (case err of Some e \<Rightarrow> (Some e, new) | None \<Rightarrow> (commit_Warning r, new)))"

definition Save :: "catalog_env \<Rightarrow> write_outcome \<Rightarrow> catalog \<Rightarrow> string option \<Rightarrow> go_error option \<times> string option" where
  "Save env out c disk =
     (case canonical_catalog env c of
        Inl e \<Rightarrow> (Some e, disk)
      | Inr c' \<Rightarrow>
          (case ce_marshal env c' of
             Inl e \<Rightarrow> (Some (dataError ''encode subscription catalog'' [Some e]), disk)
           | Inr content \<Rightarrow> put_atomic out content disk))"

text \<open>What \<open>Save\<close> leaves in the slice of profiles it shares with its caller.\<close>

definition saved_profiles :: "catalog_env \<Rightarrow> catalog \<Rightarrow> profile list" where
  "saved_profiles env c =
     (case Normalize env c of (c', Some e) \<Rightarrow> cat_Profiles c' | (c', None) \<Rightarrow> cat_Profiles (fillDefaults c'))"

definition LoadOrCreate ::
  "catalog_env \<Rightarrow> go_error option \<Rightarrow> go_error option \<Rightarrow> write_outcome \<Rightarrow> string option
   \<Rightarrow> (go_error + catalog) \<times> string option" where
  "LoadOrCreate env open_err stat_err out disk =
     (case Load env open_err stat_err disk of
        Inr c \<Rightarrow> (Inr c, disk)
      | Inl e \<Rightarrow>
          if \<not> error_is ErrNotExist e then (Inl e, disk)
          else (case Save env out Defaults disk of
                  (Some e', disk') \<Rightarrow> (Inl e', disk')
                | (None, disk') \<Rightarrow> (Inr Defaults, disk')))"

section \<open>Quota header\<close>

record user_info =
  ui_Upload :: i64
  ui_Download :: i64
  ui_Total :: i64
  ui_Expire :: i64

definition zero_info :: user_info where
  "zero_info = \<lparr>ui_Upload = 0, ui_Download = 0, ui_Total = 0, ui_Expire = 0\<rparr>"

definition Used :: "user_info \<Rightarrow> i64" where
  "Used u = (let used = wrap64 (ui_Upload u + ui_Download u) in if used < 0 then 0 else used)"

text \<open>\<open>strconv.ParseInt(s, 10, 64)\<close>: an optional sign and at least one decimal digit;
  a value outside \<open>int64\<close> is an error.\<close>

fun decimal :: "nat \<Rightarrow> string \<Rightarrow> nat option" where
  "decimal acc [] = Some acc"
| "decimal acc (c # cs) =
     (if byte_in c 48 57 then decimal (10 * acc + (of_char c - 48)) cs else None)"

definition parse_int64 :: "string \<Rightarrow> i64 option" where
  "parse_int64 s =
     (let neg = has_prefix s ''-'';
          digits = (if neg \<or> has_prefix s ''+'' then tl s else s) in
      if digits = [] then None
      else (case decimal 0 digits of
              None \<Rightarrow> None
            | Some n \<Rightarrow>
                if neg then (if int n \<le> 2 ^ 63 then Some (- int n) else None)
                else (if int n < 2 ^ 63 then Some (int n) else None)))"

text \<open>\<open>strings.ToLower\<close>, up to what a comparison with a lower-case ASCII word can tell
  apart: besides the ASCII capitals only U+0130 and U+212A have an ASCII lower case.\<close>

fun lower_key :: "string \<Rightarrow> string" where
  "lower_key [] = []"
| "lower_key (c # cs) =
     (if c = CHR 0xC4 \<and> has_prefix cs [CHR 0xB0] then CHR ''i'' # lower_key (drop 1 cs)
      else if c = CHR 0xE2 \<and> has_prefix cs [CHR 0x84, CHR 0xAA] then CHR ''k'' # lower_key (drop 2 cs)
      else if byte_in c 65 90 then char_of (of_char c + 32 :: nat) # lower_key cs
      else c # lower_key cs)"

text \<open>\<open>strings.Cut(s, sep)\<close> for a one-byte separator.\<close>

fun cut :: "char \<Rightarrow> string \<Rightarrow> (string \<times> string) option" where
  "cut sep [] = None"
| "cut sep (c # cs) =
     (if c = sep then Some ([], cs) else map_option (\<lambda>(k, v). (c # k, v)) (cut sep cs))"

definition userinfo_part :: "user_info \<times> bool \<Rightarrow> string \<Rightarrow> user_info \<times> bool" where
  "userinfo_part acc part0 =
     (let part = trim_space part0 in
      if part = [] then acc
      else case cut (CHR ''='') part of
        None \<Rightarrow> acc
      | Some (key0, value0) \<Rightarrow>
          let key = lower_key (trim_space key0); value = trim_space value0 in
          (case parse_int64 value of
             None \<Rightarrow> acc
           | Some n \<Rightarrow>
               if n < 0 then acc
               else if key = ''upload'' then ((fst acc)\<lparr>ui_Upload := n\<rparr>, True)
               else if key = ''download'' then ((fst acc)\<lparr>ui_Download := n\<rparr>, True)
               else if key = ''total'' then ((fst acc)\<lparr>ui_Total := n\<rparr>, True)
               else if key = ''expire'' then ((fst acc)\<lparr>ui_Expire := n\<rparr>, True)
               else acc))"

definition ParseUserInfo :: "string \<Rightarrow> user_info \<times> bool" where
  "ParseUserInfo raw0 =
     (let raw = trim_space raw0 in
      if raw = [] then (zero_info, False)
      else foldl userinfo_part (zero_info, False) (split_on (CHR '';'') raw))"

section \<open>What a catalog has to satisfy\<close>

definition interval_ok :: "catalog_env \<Rightarrow> string \<Rightarrow> bool" where
  "interval_ok env s \<longleftrightarrow> (case ce_duration env s of Inl _ \<Rightarrow> False | Inr d \<Rightarrow> 0 < d)"

definition source_ok :: "catalog_env \<Rightarrow> string \<Rightarrow> bool" where
  "source_ok env s \<longleftrightarrow>
     (if IsFileSource s then ce_file_uri env s = Inr s
      else \<exists>scheme host. ce_url env s = Inr (scheme, host) \<and> scheme \<in> {''http'', ''https''} \<and> host \<noteq> [])"

text \<open>A local source has no proxy mode and its cache a base directory; a remote one has no
  base directory.\<close>

definition profile_wf :: "catalog_env \<Rightarrow> profile \<Rightarrow> bool" where
  "profile_wf env p \<longleftrightarrow>
     profileIDPattern (pf_ID p) \<and> trim_space (pf_Name p) \<noteq> [] \<and> source_ok env (pf_URL p) \<and>
     (if IsFileSource (pf_URL p)
      then pf_ProxyMode p = [] \<and> (0 < pf_Generation p \<longrightarrow> pf_CacheBaseDir p \<noteq> [])
      else pf_CacheBaseDir p = []) \<and>
     (pf_CacheBaseDir p \<noteq> [] \<longrightarrow> ce_is_abs env (pf_CacheBaseDir p)) \<and>
     pf_ProxyMode p \<in> {[], ''proxy'', ''auto''} \<and>
     (pf_Interval p \<noteq> [] \<longrightarrow> interval_ok env (pf_Interval p))"

definition catalog_wf :: "catalog_env \<Rightarrow> catalog \<Rightarrow> bool" where
  "catalog_wf env c \<longleftrightarrow>
     cat_Schema c = CatalogSchema \<and> interval_ok env (cat_GlobalInterval c) \<and>
     distinct (map pf_ID (cat_Profiles c)) \<and> (\<forall>p \<in> set (cat_Profiles c). profile_wf env p)"

text \<open>The active ID is empty only if nothing can be selected, and else names a profile
  that can.\<close>

definition active_ok :: "catalog \<Rightarrow> bool" where
  "active_ok c \<longleftrightarrow>
     (if cat_ActiveID c = [] then \<forall>p \<in> set (cat_Profiles c). \<not> selectable p
      else \<exists>p \<in> set (cat_Profiles c). pf_ID p = cat_ActiveID c \<and> selectable p)"

definition profile_canonical :: "profile \<Rightarrow> bool" where
  "profile_canonical p \<longleftrightarrow>
     trim_space (pf_Name p) = pf_Name p \<and> (0 < pf_Generation p \<and> pf_CacheURL p = [] \<longrightarrow> pf_URL p = [])"

definition catalog_ok :: "catalog_env \<Rightarrow> catalog \<Rightarrow> bool" where
  "catalog_ok env c \<longleftrightarrow>
     catalog_wf env c \<and> active_ok c \<and> (\<forall>p \<in> set (cat_Profiles c). profile_canonical p)"

section \<open>Normalisation\<close>

lemma parseInterval_Inr [check_simps]: "(\<exists>d. parseInterval env s = Inr d) \<longleftrightarrow> interval_ok env s"
  by (auto simp: parseInterval_def interval_ok_def split: sum.splits if_splits)

lemma validateSource_None [check_simps]: "validateSource env s = None \<longleftrightarrow> source_ok env s"
  by (auto simp: validateSource_def source_ok_def split: sum.splits prod.splits if_splits)

lemma interval_check [check_simps]:
  "(case parseInterval env s of Inl e \<Rightarrow> Some e | Inr _ \<Rightarrow> None) = None \<longleftrightarrow> interval_ok env s"
  by (auto simp: parseInterval_def interval_ok_def split: sum.splits if_splits)

lemma trimmed_fields [simp]:
  "pf_ID (trimmed p) = pf_ID p" "pf_Name (trimmed p) = trim_space (pf_Name p)"
  "pf_URL (trimmed p) = pf_URL p" "pf_CacheBaseDir (trimmed p) = pf_CacheBaseDir p"
  "pf_CacheURL (trimmed p) = pf_CacheURL p" "pf_Interval (trimmed p) = pf_Interval p"
  "pf_ProxyMode (trimmed p) = pf_ProxyMode p" "pf_Generation (trimmed p) = pf_Generation p"
  "pf_Enabled (trimmed p) = pf_Enabled p"
  by (simp_all add: trimmed_def)

lemma normalize_profile_None:
  "normalize_profile env seen p = (p', None) \<longleftrightarrow>
     profile_wf env p \<and> pf_ID p \<notin> set seen \<and> p' = trimmed p"
proof -
  have "check_profile env (trimmed p) = None \<longleftrightarrow>
      profile_wf env p \<or> \<not> profileIDPattern (pf_ID p) \<and> check_profile env (trimmed p) = None"
    unfolding check_profile_def profile_wf_def ValidProxyMode_def
    by (auto simp: check_simps split: if_splits option.splits)
  then show ?thesis
    by (auto simp: normalize_profile_def Let_def profile_wf_def)
qed

lemma normalize_profiles_sound:
  "normalize_profiles env seen ps = (ps', None) \<Longrightarrow>
     (\<forall>p \<in> set ps. profile_wf env p \<and> pf_ID p \<notin> set seen) \<and> distinct (map pf_ID ps) \<and>
     ps' = map trimmed ps"
proof (induction ps arbitrary: seen ps')
  case (Cons p ps)
  then obtain qs where n: "normalize_profile env seen p = (trimmed p, None)"
    and r: "normalize_profiles env (pf_ID p # seen) ps = (qs, None)" and "ps' = trimmed p # qs"
    using normalize_profile_None [of env seen p] by (auto split: prod.splits option.splits)
  then show ?case using Cons.IH [OF r] normalize_profile_None [of env seen p "trimmed p"] by auto
qed simp

lemma normalize_profiles_complete:
  "\<forall>p \<in> set ps. profile_wf env p \<and> pf_ID p \<notin> set seen \<Longrightarrow> distinct (map pf_ID ps) \<Longrightarrow>
     normalize_profiles env seen ps = (map trimmed ps, None)"
proof (induction ps arbitrary: seen)
  case (Cons p ps)
  have "normalize_profile env seen p = (trimmed p, None)"
    using Cons.prems by (simp add: normalize_profile_None)
  moreover have "normalize_profiles env (pf_ID p # seen) ps = (map trimmed ps, None)"
    using Cons.prems by (intro Cons.IH) (force simp: image_iff)+
  ultimately show ?case by simp
qed simp

lemma repair_active_wf: "catalog_wf env (repair_active c) = catalog_wf env c"
  by (auto simp: repair_active_def catalog_wf_def split: option.splits)

lemma Normalize_sound:
  assumes "Normalize env c = (c', None)"
  shows "catalog_wf env c \<and> c' = repair_active (c\<lparr>cat_Profiles := map trimmed (cat_Profiles c)\<rparr>)"
proof -
  obtain d ps where i: "cat_Schema c = CatalogSchema" "parseInterval env (cat_GlobalInterval c) = Inr d"
    and n: "normalize_profiles env [] (cat_Profiles c) = (ps, None)"
    and c': "c' = repair_active (c\<lparr>cat_Profiles := ps\<rparr>)"
    using assms by (auto simp: Normalize_def split: if_splits sum.splits prod.splits option.splits)
  have "interval_ok env (cat_GlobalInterval c)" using i(2) parseInterval_Inr by blast
  with i(1) c' normalize_profiles_sound [OF n] show ?thesis by (simp add: catalog_wf_def)
qed

lemma Normalize_complete:
  assumes "catalog_wf env c"
  shows "Normalize env c = (repair_active (c\<lparr>cat_Profiles := map trimmed (cat_Profiles c)\<rparr>), None)"
proof -
  obtain d where "parseInterval env (cat_GlobalInterval c) = Inr d"
    using assms parseInterval_Inr [of env] by (auto simp: catalog_wf_def)
  moreover have "normalize_profiles env [] (cat_Profiles c) = (map trimmed (cat_Profiles c), None)"
    using assms by (intro normalize_profiles_complete) (simp_all add: catalog_wf_def)
  ultimately show ?thesis using assms by (simp add: Normalize_def catalog_wf_def)
qed

lemma trimmed_wf [simp]: "profile_wf env (trimmed p) = profile_wf env p"
  by (simp add: profile_wf_def)

lemma catalog_wf_trimmed:
  "catalog_wf env (c\<lparr>cat_Profiles := map trimmed (cat_Profiles c)\<rparr>) = catalog_wf env c"
  by (simp add: catalog_wf_def comp_def)

section \<open>The active profile\<close>

lemma wf_ID_nonempty: "profile_wf env p \<Longrightarrow> pf_ID p \<noteq> []"
  by (auto simp: profile_wf_def profileIDPattern_def)

lemma Index_Some:
  "Index c i = Some n \<Longrightarrow> n < length (cat_Profiles c) \<and> pf_ID (cat_Profiles c ! n) = i"
  using find_index_Some by (fastforce simp: Index_def)

lemma Index_unique:
  assumes "distinct (map pf_ID (cat_Profiles c))" "p \<in> set (cat_Profiles c)"
  shows "\<exists>n. Index c (pf_ID p) = Some n \<and> n < length (cat_Profiles c) \<and> cat_Profiles c ! n = p"
  using find_index_distinct [OF assms(1)] assms(2) by (auto simp: Index_def in_set_conv_nth)

text \<open>What \<open>Normalize\<close> keeps of the active ID.\<close>

lemma repair_active_ID:
  assumes "distinct (map pf_ID (cat_Profiles c))"
  shows "cat_ActiveID (repair_active c) =
    (if \<exists>p \<in> set (cat_Profiles c). pf_ID p = cat_ActiveID c \<and> selectable p then cat_ActiveID c else [])"
proof (cases "Index c (cat_ActiveID c)")
  case None
  then have "\<not> (\<exists>p \<in> set (cat_Profiles c). pf_ID p = cat_ActiveID c)"
    by (auto simp: Index_def find_index_None)
  then show ?thesis using None by (auto simp: repair_active_def)
next
  case (Some n)
  have "(\<exists>p \<in> set (cat_Profiles c). pf_ID p = cat_ActiveID c \<and> selectable p) \<longleftrightarrow>
      selectable (cat_Profiles c ! n)"
    using Index_Some [OF Some] Index_unique [OF assms] Some by fastforce
  then show ?thesis using Some by (auto simp: repair_active_def)
qed

lemma repair_active_Profiles [simp]: "cat_Profiles (repair_active c) = cat_Profiles c"
  by (auto simp: repair_active_def split: option.splits)

lemma fillDefaults_Profiles [simp]: "cat_Profiles (fillDefaults c) = map fill_profile (cat_Profiles c)"
  by (auto simp: fillDefaults_def Let_def split: option.splits)

lemma fill_profile_frame [simp]:
  "pf_ID (fill_profile p) = pf_ID p" "selectable (fill_profile p) = selectable p"
  "profile_wf env (fill_profile p) = profile_wf env p" "pf_Name (fill_profile p) = pf_Name p"
  "selectable (trimmed p) = selectable p" "pf_URL (fill_profile p) = pf_URL p"
  "pf_Generation (fill_profile p) = pf_Generation p" "fill_profile (fill_profile p) = fill_profile p"
  by (auto simp: fill_profile_def selectable_def profile_wf_def)

lemma find_index_map: "find_index P (map f xs) = find_index (\<lambda>x. P (f x)) xs"
  by (induction xs) auto

lemma find_index_hd_filter:
  "find_index P xs = Some i \<Longrightarrow> filter P xs \<noteq> [] \<and> hd (filter P xs) = xs ! i"
  by (induction xs arbitrary: i) (auto split: if_splits)

definition first_selectable :: "profile list \<Rightarrow> string" where
  "first_selectable ps = (case filter selectable ps of [] \<Rightarrow> [] | p # _ \<Rightarrow> pf_ID p)"

lemma fillDefaults_ActiveID:
  "cat_ActiveID (fillDefaults c) =
     (if cat_ActiveID c \<noteq> [] then cat_ActiveID c else first_selectable (cat_Profiles c))"
proof -
  have "find_index selectable (map fill_profile (cat_Profiles c)) = find_index selectable (cat_Profiles c)"
    by (simp add: find_index_map)
  moreover have "filter selectable (cat_Profiles c) = []" if "find_index selectable (cat_Profiles c) = None"
    using that by (auto simp: find_index_None filter_empty_conv)
  moreover have "i < length (cat_Profiles c) \<and> first_selectable (cat_Profiles c) = pf_ID (cat_Profiles c ! i)"
    if "find_index selectable (cat_Profiles c) = Some i" for i
    using find_index_hd_filter [OF that] find_index_Some [OF that]
    by (auto simp: first_selectable_def split: list.splits)
  ultimately show ?thesis
    by (cases "find_index selectable (cat_Profiles c)")
       (simp_all add: fillDefaults_def Let_def first_selectable_def)
qed

section \<open>The canonical catalog\<close>

text \<open>\<open>Normalize\<close> and \<open>fillDefaults\<close> together, on a catalog they accept.\<close>

lemma canonical_catalog_Inr:
  assumes "canonical_catalog env c = Inr c'"
  shows "catalog_wf env c" "cat_Profiles c' = map (\<lambda>p. fill_profile (trimmed p)) (cat_Profiles c)"
    "cat_Schema c' = cat_Schema c" "cat_GlobalInterval c' = cat_GlobalInterval c"
    "cat_ActiveID c' =
       (if \<exists>p \<in> set (cat_Profiles c). pf_ID p = cat_ActiveID c \<and> selectable p then cat_ActiveID c
        else first_selectable (cat_Profiles c))"
proof -
  let ?t = "c\<lparr>cat_Profiles := map trimmed (cat_Profiles c)\<rparr>"
  obtain c1 where n: "Normalize env c = (c1, None)" and f: "c' = fillDefaults c1"
    using assms by (auto simp: canonical_catalog_def split: prod.splits option.splits)
  note s = Normalize_sound [OF n]
  then show wf: "catalog_wf env c" by simp
  have c1: "c1 = repair_active ?t" using s by simp
  show "cat_Profiles c' = map (\<lambda>p. fill_profile (trimmed p)) (cat_Profiles c)"
    by (simp add: f c1)
  show "cat_Schema c' = cat_Schema c" "cat_GlobalInterval c' = cat_GlobalInterval c"
    by (simp_all add: f c1 fillDefaults_def repair_active_def Let_def split: option.splits)
  have "distinct (map pf_ID (cat_Profiles ?t))" using wf by (simp add: catalog_wf_def comp_def)
  note r = repair_active_ID [OF this]
  have fs: "first_selectable (map trimmed (cat_Profiles c)) = first_selectable (cat_Profiles c)"
    by (induction "cat_Profiles c" arbitrary: c) (simp_all add: first_selectable_def filter_map comp_def split: list.splits)
  have ne: "\<forall>p \<in> set (cat_Profiles c). pf_ID p \<noteq> []"
    using wf wf_ID_nonempty by (auto simp: catalog_wf_def)
  show "cat_ActiveID c' =
       (if \<exists>p \<in> set (cat_Profiles c). pf_ID p = cat_ActiveID c \<and> selectable p then cat_ActiveID c
        else first_selectable (cat_Profiles c))"
    unfolding f fillDefaults_ActiveID c1 r using ne by (auto simp: fs)
qed

lemma first_selectable_cases:
  "(\<forall>p \<in> set ps. \<not> selectable p) \<and> first_selectable ps = [] \<or>
   (\<exists>p \<in> set ps. selectable p \<and> first_selectable ps = pf_ID p)"
proof (cases "filter selectable ps")
  case Nil
  then show ?thesis by (simp add: first_selectable_def filter_empty_conv)
next
  case (Cons p qs)
  then have "p \<in> set (filter selectable ps)" by simp
  then have "p \<in> set ps \<and> selectable p" by simp
  with Cons show ?thesis by (auto simp: first_selectable_def)
qed

lemma first_selectable_in:
  "first_selectable ps = [] \<Longrightarrow> \<forall>p \<in> set ps. pf_ID p \<noteq> [] \<Longrightarrow> \<forall>p \<in> set ps. \<not> selectable p"
  "first_selectable ps \<noteq> [] \<Longrightarrow> \<exists>p \<in> set ps. pf_ID p = first_selectable ps \<and> selectable p"
  using first_selectable_cases [of ps] by metis+

lemma canonical_active:
  assumes "canonical_catalog env c = Inr c'" shows "active_ok c'"
proof -
  note f = canonical_catalog_Inr [OF assms]
  have ne: "\<forall>p \<in> set (cat_Profiles c). pf_ID p \<noteq> []"
    using f(1) wf_ID_nonempty by (auto simp: catalog_wf_def)
  show ?thesis
    using ne first_selectable_in [of "cat_Profiles c"]
    unfolding active_ok_def f(2) f(5) by (auto split: if_splits)
qed

lemma fill_trimmed_canonical: "profile_canonical (fill_profile (trimmed p))"
  by (auto simp: profile_canonical_def fill_profile_def)

lemma canonical_catalog_sound:
  assumes "canonical_catalog env c = Inr c'" shows "catalog_ok env c'"
proof -
  note f = canonical_catalog_Inr [OF assms]
  have "catalog_wf env c'" using f(1) by (simp add: catalog_wf_def f(2,3,4) comp_def)
  with canonical_active [OF assms] show ?thesis
    by (auto simp: catalog_ok_def f(2) fill_trimmed_canonical)
qed

lemma canonical_profile_fixed: "profile_canonical p \<Longrightarrow> fill_profile (trimmed p) = p"
  by (simp add: profile_canonical_def fill_profile_def trimmed_def)

lemma canonical_catalog_fixed:
  assumes "catalog_ok env c" shows "canonical_catalog env c = Inr c"
proof -
  have wf: "catalog_wf env c" and a: "active_ok c" and p: "\<forall>p \<in> set (cat_Profiles c). profile_canonical p"
    using assms by (auto simp: catalog_ok_def)
  obtain c' where c': "canonical_catalog env c = Inr c'"
    using Normalize_complete [OF wf] by (auto simp: canonical_catalog_def)
  note f = canonical_catalog_Inr [OF c']
  have "first_selectable (cat_Profiles c) = []" if "cat_ActiveID c = []"
    using a that first_selectable_in(2) [of "cat_Profiles c"] by (auto simp: active_ok_def)
  then have "cat_ActiveID c' = cat_ActiveID c" using a f(5) by (auto simp: active_ok_def split: if_splits)
  moreover have "cat_Profiles c' = cat_Profiles c"
    unfolding f(2) using p by (simp add: canonical_profile_fixed map_idI)
  ultimately show ?thesis using c' f(3,4) by simp
qed

interpretation catalog_doc: canonical_form "canonical_catalog env" for env
  by unfold_locales (use canonical_catalog_sound canonical_catalog_fixed in blast)

lemma canonical_iff_ok: "canonical_catalog env c = Inr c \<longleftrightarrow> catalog_ok env c"
  using canonical_catalog_sound canonical_catalog_fixed by blast

lemma saved_profiles_ok [simp]: "catalog_ok env c \<Longrightarrow> saved_profiles env c = cat_Profiles c"
  using canonical_catalog_fixed [of env c]
  by (auto simp: saved_profiles_def canonical_catalog_def split: prod.splits option.splits)

section \<open>Writing and reading the file\<close>

text \<open>An \<open>AtomicWrite\<close> on the file system ends in one of the outcomes.\<close>

lemma AtomicWrite_outcome:
  assumes "AtomicWrite flt d b rnd content f0 = (err, f')"
  shows "\<exists>out. put_atomic out content (f0 (file_path d b)) = (err, f' (file_path d b))"
proof -
  obtain result e trace where w: "writeAtomic flt d b rnd content f0 = ((result, e), trace)"
    by (metis surj_pair)
  have f: "f' = last trace" and err: "err = (case e of Some x \<Rightarrow> Some x | None \<Rightarrow> commit_Warning result)"
    using assms w by (auto simp: AtomicWrite_def split: option.splits)
  note c = writeAtomic_committed [OF w]
  show ?thesis
  proof (cases e)
    case None
    then have g: "f' (file_path d b) = Some content" using c f by (simp split: if_splits)
    show ?thesis
      using None err g
      by (cases "commit_Warning result") (auto simp: put_atomic_def put_with_commit_def
           intro: exI [of _ Written] exI [of _ "WrittenWarn (the (commit_Warning result))"])
  next
    case (Some x)
    then show ?thesis using c f err
      by (auto simp: put_atomic_def put_with_commit_def split: if_splits intro!: exI [of _ "NotWritten x"])
  qed
qed

interpretation slot_writer: atomic_writer "put_with_commit out" "\<lambda>disk. disk" for out
  by unfold_locales (auto simp: put_with_commit_def no_commit_def split: write_outcome.splits)

lemma put_atomic_new: "put_atomic out content old = (err, new) \<Longrightarrow> new = Some content \<or> new = old \<and> err \<noteq> None"
  by (auto simp: put_atomic_def put_with_commit_def split: write_outcome.splits)

definition file_sound :: "catalog_env \<Rightarrow> bool" where
  "file_sound env \<longleftrightarrow> (\<forall>c content. ce_marshal env c = Inr content \<longrightarrow> ce_unmarshal env content = (Inr c, Some ErrEOF))"

lemma Load_marshalled:
  assumes "file_sound env" "catalog_ok env c" "ce_marshal env c = Inr content"
  shows "Load env None None (Some content) =
    (if length content \<le> maxCatalogSize then Inr c else Inl (data_error ''subscription catalog is too large''))"
  using assms canonical_catalog_fixed [of env c]
  by (auto simp: Load_def file_sound_def migrate_def)

lemma Save_cases:
  assumes "Save env out c disk = (err, disk')"
  obtains "err \<noteq> None" "disk' = disk"
  | c' content where "canonical_catalog env c = Inr c'" "ce_marshal env c' = Inr content"
      "disk' = Some content"
  using assms put_atomic_new
  by (fastforce simp: Save_def split: sum.splits)

section \<open>Quota lemmas\<close>

lemma wrap64_sum:
  assumes "0 \<le> x" "x < 2 ^ 63" "0 \<le> y" "y < 2 ^ 63"
  shows "wrap64 (x + y) = (if x + y < 2 ^ 63 then x + y else x + y - 2 ^ 64)"
proof (cases "x + y < 2 ^ 63")
  case False
  have "(x + y + 2 ^ 63) mod 2 ^ 64 = (x + y + 2 ^ 63 - 2 ^ 64) mod 2 ^ 64"
    by (metis minus_mod_self2)
  also have "\<dots> = x + y + 2 ^ 63 - 2 ^ 64" using False assms by simp
  finally show ?thesis using False by (simp add: wrap64_def)
qed (use assms wrap64_id in simp)

definition info_ok :: "user_info \<Rightarrow> bool" where
  "info_ok u \<longleftrightarrow> (\<forall>x \<in> {ui_Upload u, ui_Download u, ui_Total u, ui_Expire u}. 0 \<le> x \<and> x < 2 ^ 63)"

lemma parse_int64_range: "parse_int64 s = Some n \<Longrightarrow> - (2 ^ 63) \<le> n \<and> n < 2 ^ 63"
  by (auto simp: parse_int64_def Let_def split: if_splits option.splits)

lemma userinfo_part_ok: "info_ok (fst acc) \<Longrightarrow> info_ok (fst (userinfo_part acc part))"
  by (auto simp: userinfo_part_def info_ok_def Let_def split: option.splits prod.splits
        dest!: parse_int64_range)

lemma ParseUserInfo_ok: "info_ok (fst (ParseUserInfo raw))"
proof -
  have "info_ok (fst (foldl userinfo_part acc parts))" if "info_ok (fst acc)" for acc parts
    using that by (induction parts arbitrary: acc) (simp_all add: userinfo_part_ok)
  then show ?thesis by (simp add: ParseUserInfo_def Let_def info_ok_def zero_info_def)
qed

section \<open>Properties\<close>

text \<open>
  C28. \<open>Normalize\<close> accepts exactly the well-formed catalogs (unique well-formed IDs, names
  that are not blank, sources, proxy modes, base directories and intervals that fit each
  other), and the catalogs it leaves alone once the defaults are filled are exactly those
  in which, besides, the active ID names an enabled profile with a fetched generation
  whenever there is one.
\<close>

theorem Normalize_exact:
  "(snd (Normalize env c) = None \<longleftrightarrow> catalog_wf env c) \<and>
   (canonical_catalog env c = Inr c \<longleftrightarrow> catalog_ok env c)"
  using Normalize_sound [of env c] Normalize_complete [of env c] canonical_iff_ok [of env c]
  by (metis prod.collapse snd_conv)

text \<open>
  C14. What \<open>Normalize\<close> and \<open>fillDefaults\<close> make of an accepted catalog: it is canonical, a
  second pass changes nothing, no profile is added, dropped or renumbered, and the active
  ID is kept if it names an enabled fetched profile and is else the first such profile,
  or empty if there is none.
\<close>

theorem catalog_canonicalised:
  assumes "canonical_catalog env c = Inr c'"
  shows "catalog_ok env c' \<and> canonical_catalog env c' = Inr c' \<and>
    map pf_ID (cat_Profiles c') = map pf_ID (cat_Profiles c) \<and>
    cat_ActiveID c' =
      (if \<exists>p \<in> set (cat_Profiles c). pf_ID p = cat_ActiveID c \<and> selectable p then cat_ActiveID c
       else first_selectable (cat_Profiles c))"
  using canonical_catalog_sound [OF assms] catalog_doc.canon_stable [OF assms]
    canonical_catalog_Inr [OF assms] by simp

definition demo_cat_env :: catalog_env where
  "demo_cat_env = \<lparr>ce_duration = (\<lambda>s. if s = ''12h'' then Inr 43200000000000 else Inl (Opaque ''time'')),
     ce_file_uri = Inr, ce_url = (\<lambda>s. Inr (''https'', s)), ce_is_abs = (\<lambda>s. has_prefix s ''/''),
     ce_quote = (\<lambda>s. s), ce_marshal = (\<lambda>c. if c = Defaults then Inr ''doc'' else Inl (Opaque ''yaml'')),
     ce_unmarshal = (\<lambda>s. if s = ''doc'' then (Inr Defaults, Some ErrEOF) else (Inl (Opaque ''yaml''), None)),
     ce_type_errors = (\<lambda>_. None)\<rparr>"

definition demo_profile :: profile where
  "demo_profile = zero_profile\<lparr>pf_ID := replicate 32 (CHR ''a''), pf_Name := ''home '', pf_URL := ''h'',
     pf_Enabled := True, pf_Generation := 1\<rparr>"

definition demo_catalog :: catalog where
  "demo_catalog = Defaults\<lparr>cat_ActiveID := ''gone'', cat_Profiles := [demo_profile]\<rparr>"

lemma demo_catalog_canonical:
  "canonical_catalog demo_cat_env demo_catalog =
     Inr (Defaults\<lparr>cat_ActiveID := replicate 32 (CHR ''a''),
       cat_Profiles := [demo_profile\<lparr>pf_Name := ''home'', pf_CacheURL := ''h''\<rparr>]\<rparr>)"
proof -
  have t: "trim_space ''home '' = ''home''" by code_simp
  have h: "lower_hex (CHR ''a'')" by (simp add: lower_hex_def)
  have wf: "catalog_wf demo_cat_env demo_catalog"
    by (simp add: catalog_wf_def profile_wf_def demo_catalog_def demo_profile_def demo_cat_env_def t h
          Defaults_def interval_ok_def source_ok_def IsFileSource_def has_prefix_def zero_profile_def
          profileIDPattern_def list_all_iff)
  show ?thesis
    using Normalize_complete [OF wf]
    by (simp add: canonical_catalog_def demo_catalog_def Defaults_def demo_profile_def
          repair_active_def Index_def trimmed_def t fillDefaults_def fill_profile_def zero_profile_def
          selectable_def)
qed

theorem catalog_canonicalised_witness:
  "catalog_ok demo_cat_env (Defaults\<lparr>cat_ActiveID := replicate 32 (CHR ''a''),
     cat_Profiles := [demo_profile\<lparr>pf_Name := ''home'', pf_CacheURL := ''h''\<rparr>]\<rparr>)"
  using catalog_canonicalised [OF demo_catalog_canonical] by (rule conjunct1)

text \<open>
  C29. Saving a catalog and reading the file back, given that the YAML decoder inverts the
  encoder: whatever happens the file is the old one or holds the canonical catalog, and
  \<open>Load\<close> then returns that catalog if it is within \<open>maxCatalogSize\<close>. \<open>Save\<close> does not
  check the size: a larger catalog is written and every later \<open>Load\<close> refuses it.
\<close>

theorem catalog_save_load:
  assumes "Save env out c disk = (err, disk')" and "file_sound env"
  shows "disk' = disk \<and> err \<noteq> None \<or>
    (\<exists>c' content. canonical_catalog env c = Inr c' \<and> disk' = Some content \<and>
       Load env None None disk' =
         (if length content \<le> maxCatalogSize then Inr c'
          else Inl (data_error ''subscription catalog is too large'')))"
  using assms(1)
proof (cases rule: Save_cases)
  case (2 c' content)
  then show ?thesis
    using Load_marshalled [OF assms(2) canonical_catalog_sound] by blast
qed simp

lemma Defaults_ok: "catalog_ok demo_cat_env Defaults"
  by (simp add: catalog_ok_def catalog_wf_def active_ok_def Defaults_def demo_cat_env_def interval_ok_def)

theorem catalog_save_load_witness:
  "Load demo_cat_env None None (Some ''doc'') = Inr Defaults"
proof -
  have c: "canonical_catalog demo_cat_env Defaults = Inr Defaults"
    using canonical_catalog_fixed [OF Defaults_ok] .
  have s: "Save demo_cat_env (WrittenWarn ErrInvalid) Defaults None = (Some ErrInvalid, Some ''doc'')"
    unfolding Save_def c by (simp add: demo_cat_env_def put_atomic_def put_with_commit_def)
  have f: "file_sound demo_cat_env" by (simp add: file_sound_def demo_cat_env_def)
  show ?thesis using catalog_save_load [OF s f] c by (auto simp: maxCatalogSize_def)
qed

text \<open>
  The public view keeps the secrets of a profile: it does not depend on the source
  URL, the cache URL, the base directory, the validators of the HTTP cache or the version,
  beyond the type of the source and whether the cache came from the current URL.
\<close>

theorem Public_hides_source:
  assumes "sourceType u = sourceType (pf_URL p)"
    and "0 < pf_Generation p \<Longrightarrow> cu = u \<longleftrightarrow> pf_CacheURL p = pf_URL p"
  shows "public_of (p\<lparr>pf_URL := u, pf_CacheURL := cu, pf_CacheBaseDir := d, pf_ETag := t,
    pf_LastModified := m, pf_Version := v\<rparr>) = public_of p"
  using assms by (auto simp: public_of_def)

theorem Public_hides_source_witness:
  "public_of (zero_profile\<lparr>pf_URL := ''https://a?token=1'', pf_CacheURL := ''x'', pf_CacheBaseDir := [],
     pf_ETag := ''e'', pf_LastModified := [], pf_Version := 3\<rparr>) = public_of zero_profile"
  using Public_hides_source [where u = "''https://a?token=1''" and p = zero_profile and cu = "''x''"
      and d = "[]" and t = "''e''" and m = "[]" and v = 3]
  by (simp add: zero_profile_def sourceType_def IsFileSource_def has_prefix_def)

text \<open>
  The traffic quota of the provider's header is a set of non-negative \<open>int64\<close> values
  whatever the header says, and \<open>Used\<close> is the sum of upload and download if that sum is
  an \<open>int64\<close>, and zero if it overflows.
\<close>

theorem ParseUserInfo_bounds:
  "info_ok (fst (ParseUserInfo raw)) \<and>
   Used (fst (ParseUserInfo raw)) =
     (let sum = ui_Upload (fst (ParseUserInfo raw)) + ui_Download (fst (ParseUserInfo raw))
      in if sum < 2 ^ 63 then sum else 0)"
proof -
  let ?u = "fst (ParseUserInfo raw)"
  have r: "0 \<le> ui_Upload ?u" "ui_Upload ?u < 2 ^ 63" "0 \<le> ui_Download ?u" "ui_Download ?u < 2 ^ 63"
    using ParseUserInfo_ok [of raw] by (auto simp: info_ok_def)
  then show ?thesis
    using ParseUserInfo_ok [of raw] wrap64_sum [OF r] by (simp add: Used_def Let_def)
qed

end
