(* ===== verification/Document.thy ===== *)
theory Document
  imports Settings Catalog
begin

text \<open>
  \<open>internal/subscription\<close>: \<open>document.go\<close>, \<open>generator.go\<close>, \<open>egress.go\<close> and
  \<open>file_references.go\<close>. A subscription document is a string-keyed mapping of dynamic
  values; mappings are association lists with distinct keys (the order of a Go map is
  not observable in what the code computes). The generator turns the document, the
  caller's overrides and the settings into the configuration of the core.
\<close>

section \<open>Dynamic values\<close>

text \<open>A decoded \<open>any\<close>: \<open>AMap\<close> is \<open>map[string]any\<close> or \<open>Document\<close>, \<open>AOther\<close> every other
  dynamic type (timestamps, mappings with keys that are no strings).\<close>

datatype any =
    ANil | ABool bool | AInt int | AFloat string | AStr string
  | ASeq "any list" | AMap "(string \<times> any) list" | AOther string

type_synonym document = "(string \<times> any) list"

definition maxDocumentBytes :: nat where
  "maxDocumentBytes = 16777216"

fun egressMapping :: "any \<Rightarrow> document option" where
  "egressMapping (AMap m) = Some m"
| "egressMapping _ = None"

text \<open>\<open>value.([]any)\<close> and \<open>value.(string)\<close> on an entry that may be missing.\<close>

fun as_seq :: "any option \<Rightarrow> any list option" where
  "as_seq (Some (ASeq xs)) = Some xs"
| "as_seq _ = None"

fun as_str :: "any option \<Rightarrow> string option" where
  "as_str (Some (AStr s)) = Some s"
| "as_str _ = None"

definition entry_map :: "document \<Rightarrow> string \<Rightarrow> document option" where
  "entry_map d k = Option.bind (map_of d k) egressMapping"

section \<open>document.go\<close>

text \<open>The YAML decoder gives the first document (nil for an empty one) and the error of
  the second \<open>Decode\<close>.\<close>

type_synonym decoder = "string \<Rightarrow> (go_error + document option) \<times> go_error option"

definition ParseDocument :: "decoder \<Rightarrow> string \<Rightarrow> go_error + document" where
  "ParseDocument decode content =
     (if content = [] \<or> length content > maxDocumentBytes
      then Inl (Api (api CodeDataFailure ''invalid subscription document size''))
      else case decode content of
        (Inl e, _) \<Rightarrow> Inl (Failure (api CodeDataFailure ''invalid subscription YAML'') (Some e))
      | (Inr None, _) \<Rightarrow> Inl (Failure (api CodeDataFailure ''invalid subscription YAML'') None)
      | (Inr (Some d), extra) \<Rightarrow>
          if \<not> (case extra of None \<Rightarrow> False | Some e \<Rightarrow> error_is ErrEOF e)
          then Inl (Failure (api CodeDataFailure ''subscription must contain one YAML document'') extra)
          else if map_of d ''proxies'' = None \<and> map_of d ''proxy-providers'' = None
          then Inl (Api (api CodeDataFailure ''document is not a mihomo subscription''))
          else if map_of d ''proxies'' \<noteq> None \<and> as_seq (map_of d ''proxies'') = None
          then Inl (Api (api CodeDataFailure ''subscription proxies must be a list''))
          else Inr d)"

section \<open>egress.go\<close>

text \<open>\<open>url.PathUnescape\<close>.\<close>

fun path_unescape :: "string \<Rightarrow> string option" where
  "path_unescape [] = Some []"
| "path_unescape (c # cs) =
     (if c = CHR ''%'' then
        (case cs of
           a # b # r \<Rightarrow>
             (case (hex_digit a, hex_digit b, path_unescape r) of
                (Some x, Some y, Some t) \<Rightarrow> Some (char_of (16 * x + y) # t)
              | _ \<Rightarrow> None)
         | _ \<Rightarrow> None)
      else map_option ((#) c) (path_unescape cs))"

text \<open>\<open>URL.EscapedFragment\<close> of a URL with a fragment only.\<close>

definition fragment_safe :: "char \<Rightarrow> bool" where
  "fragment_safe c \<longleftrightarrow>
     byte_in c 97 122 \<or> byte_in c 65 90 \<or> byte_in c 48 57 \<or>
     c \<in> set ''-_.~$&+,/:;=?@!()*''"

definition upper_hex :: "nat \<Rightarrow> char" where
  "upper_hex n = char_of (if n < 10 then 48 + n else 55 + n)"

fun escape_fragment :: "string \<Rightarrow> string" where
  "escape_fragment [] = []"
| "escape_fragment (c # cs) =
     (if fragment_safe c then c # escape_fragment cs
      else CHR ''%'' # upper_hex (of_char c div 16) # upper_hex (of_char c mod 16) # escape_fragment cs)"

text \<open>The index of the last part without an equals sign. Below, the text of the one error
  leaves out the quoted adapter name.\<close>

definition last_bare :: "string list \<Rightarrow> nat option" where
  "last_bare parts =
     (case find_index (\<lambda>p. CHR ''='' \<notin> set p) (rev parts) of
        None \<Rightarrow> None | Some i \<Rightarrow> Some (length parts - 1 - i))"

definition egress_server :: "string \<Rightarrow> string \<Rightarrow> string list \<Rightarrow> go_error + string" where
  "egress_server server name proxies =
     (case cut (CHR ''#'') server of
        None \<Rightarrow> Inr server
      | Some (base, fragment) \<Rightarrow>
          (case path_unescape fragment of
             None \<Rightarrow> Inr server
           | Some decoded \<Rightarrow>
               (let parts = split_on (CHR ''&'') decoded in
                case last_bare parts of
                  None \<Rightarrow> Inr server
                | Some k \<Rightarrow>
                    if parts ! k = [] \<or> parts ! k \<in> set proxies then Inr server
                    else if name \<in> set proxies \<or> CHR ''&'' \<in> set name \<or> CHR ''='' \<in> set name
                    then Inl (Opaque ''DNS interface binding cannot represent adapter without changing proxy selection'')
                    else Inr (base @ ''#'' @ escape_fragment (join_with (CHR ''&'') (parts[k := name]))))))"

fun egressDNS :: "any \<Rightarrow> string \<Rightarrow> string list \<Rightarrow> go_error + any"
  and egressDNS_list :: "any list \<Rightarrow> string \<Rightarrow> string list \<Rightarrow> go_error + any list"
  and egressDNS_map :: "(string \<times> any) list \<Rightarrow> string \<Rightarrow> string list \<Rightarrow> go_error + (string \<times> any) list" where
  "egressDNS (AStr s) name proxies = (case egress_server s name proxies of Inl e \<Rightarrow> Inl e | Inr t \<Rightarrow> Inr (AStr t))"
| "egressDNS (ASeq xs) name proxies = (case egressDNS_list xs name proxies of Inl e \<Rightarrow> Inl e | Inr ys \<Rightarrow> Inr (ASeq ys))"
| "egressDNS (AMap m) name proxies = (case egressDNS_map m name proxies of Inl e \<Rightarrow> Inl e | Inr n \<Rightarrow> Inr (AMap n))"
| "egressDNS ANil name proxies = Inr ANil"
| "egressDNS (ABool b) name proxies = Inr (ABool b)"
| "egressDNS (AInt i) name proxies = Inr (AInt i)"
| "egressDNS (AFloat f) name proxies = Inr (AFloat f)"
| "egressDNS (AOther t) name proxies = Inr (AOther t)"
| "egressDNS_list [] name proxies = Inr []"
| "egressDNS_list (x # xs) name proxies =
     (case egressDNS x name proxies of
        Inl e \<Rightarrow> Inl e
      | Inr y \<Rightarrow> (case egressDNS_list xs name proxies of Inl e \<Rightarrow> Inl e | Inr ys \<Rightarrow> Inr (y # ys)))"
| "egressDNS_map [] name proxies = Inr []"
| "egressDNS_map ((k, x) # m) name proxies =
     (case egressDNS x name proxies of
        Inl e \<Rightarrow> Inl e
      | Inr y \<Rightarrow> (case egressDNS_map m name proxies of Inl e \<Rightarrow> Inl e | Inr n \<Rightarrow> Inr ((k, y) # n)))"

definition builtin_proxies :: "string list" where
  "builtin_proxies = [''DIRECT'', ''REJECT'', ''REJECT-DROP'', ''PASS'', ''PASS-RULE'', ''GLOBAL'',
     ''COMPATIBLE'', ''RULES'']"

text \<open>The names of the mappings in a list, and the list with its mappings bound.\<close>

definition item_names :: "any list \<Rightarrow> string list" where
  "item_names items = List.map_filter (\<lambda>raw. Option.bind (egressMapping raw) (\<lambda>item. as_str (map_of item ''name''))) items"

definition bind_item :: "string \<Rightarrow> any \<Rightarrow> any" where
  "bind_item name raw =
     (case egressMapping raw of None \<Rightarrow> raw | Some item \<Rightarrow> AMap (AList.update ''interface-name'' (AStr name) item))"

definition bind_provider :: "string \<Rightarrow> any \<Rightarrow> any" where
  "bind_provider name raw =
     (case egressMapping raw of
        None \<Rightarrow> raw
      | Some provider \<Rightarrow>
          (let override = (case entry_map provider ''override'' of None \<Rightarrow> [] | Some o1 \<Rightarrow> o1)
           in AMap (AList.update ''override'' (AMap (AList.update ''interface-name'' (AStr name) override)) provider)))"

definition seq_items :: "document \<Rightarrow> string \<Rightarrow> any list" where
  "seq_items d k = (case as_seq (map_of d k) of None \<Rightarrow> [] | Some xs \<Rightarrow> xs)"

definition known_proxies :: "document \<Rightarrow> string list" where
  "known_proxies d = builtin_proxies @ item_names (seq_items d ''proxies'') @ item_names (seq_items d ''proxy-groups'')"

definition bind_proxies :: "string \<Rightarrow> document \<Rightarrow> document" where
  "bind_proxies name d =
     (case as_seq (map_of d ''proxies'') of
        None \<Rightarrow> d | Some xs \<Rightarrow> AList.update ''proxies'' (ASeq (map (bind_item name) xs)) d)"

definition bind_providers :: "string \<Rightarrow> document \<Rightarrow> document" where
  "bind_providers name d =
     (case entry_map d ''proxy-providers'' of
        None \<Rightarrow> d
      | Some ps \<Rightarrow> AList.update ''proxy-providers'' (AMap (map (\<lambda>(k, v). (k, bind_provider name v)) ps)) d)"

definition dns_keys :: "string list" where
  "dns_keys = [''nameserver'', ''fallback'', ''default-nameserver'', ''proxy-server-nameserver'',
     ''direct-nameserver'', ''nameserver-policy'']"

fun bind_dns :: "string list \<Rightarrow> string \<Rightarrow> string list \<Rightarrow> document \<Rightarrow> go_error + document" where
  "bind_dns [] name proxies dns = Inr dns"
| "bind_dns (k # ks) name proxies dns =
     (case map_of dns k of
        None \<Rightarrow> bind_dns ks name proxies dns
      | Some v \<Rightarrow>
          (case egressDNS v name proxies of
             Inl e \<Rightarrow> Inl e
           | Inr v' \<Rightarrow> bind_dns ks name proxies (AList.update k v' dns)))"

definition applyEgress :: "document \<Rightarrow> string \<Rightarrow> go_error + document" where
  "applyEgress d name =
     (if name = [] then Inr d
      else
        let d1 = AList.update ''interface-name'' (AStr name) d;
            proxies = known_proxies d1;
            d2 = bind_providers name (bind_proxies name d1) in
        (case entry_map d2 ''dns'' of
           None \<Rightarrow> Inr d2
         | Some dns \<Rightarrow>
             (case bind_dns dns_keys name proxies dns of
                Inl e \<Rightarrow> Inl e
              | Inr dns' \<Rightarrow> Inr (AList.update ''dns'' (AMap dns') d2))))"

section \<open>generator.go\<close>

definition proxyNames :: "any option \<Rightarrow> string list" where
  "proxyNames v = filter (\<lambda>n. n \<noteq> []) (item_names (case as_seq v of None \<Rightarrow> [] | Some xs \<Rightarrow> xs))"

definition nonempty_seq :: "any option \<Rightarrow> bool" where
  "nonempty_seq v \<longleftrightarrow> (case as_seq v of None \<Rightarrow> False | Some xs \<Rightarrow> xs \<noteq> [])"

definition ensureRoutable :: "document \<Rightarrow> document" where
  "ensureRoutable d0 =
     (let d1 = (if nonempty_seq (map_of d0 ''proxy-groups'') then d0
                else AList.update ''proxy-groups''
                  (ASeq [AMap [(''name'', AStr ''MIHARI''), (''type'', AStr ''select''),
                     (''proxies'', ASeq (map AStr (proxyNames (map_of d0 ''proxies'') @ [''DIRECT''])))]]) d0);
          d2 = (if nonempty_seq (map_of d1 ''rules'') then d1
                else AList.update ''rules'' (ASeq [AStr ''MATCH,MIHARI'']) d1)
      in if map_of d2 ''mode'' = None then AList.update ''mode'' (AStr ''rule'') d2 else d2)"

text \<open>What the generator takes from elsewhere: the YAML encoder, the decoder into a
  \<open>Document\<close>, the re-decoding of a raw value into a mapping (nil for none),
  \<open>Addr().String()\<close> and the error of \<open>netip.ParseAddrPort\<close>.\<close>

record gen_env =
  ge_parse :: addr_parser
  ge_addr :: "string \<Rightarrow> string"
  ge_parse_error :: "string \<Rightarrow> go_error"
  ge_marshal :: "document \<Rightarrow> go_error + string"
  ge_unmarshal :: "string \<Rightarrow> go_error + document"
  ge_remap :: "any \<Rightarrow> go_error + document option"

definition cloneDocument :: "gen_env \<Rightarrow> document \<Rightarrow> go_error + document" where
  "cloneDocument g base =
     (case ge_marshal g base of
        Inl e \<Rightarrow> Inl (Failure (api CodeDataFailure ''copy subscription document'') (Some e))
      | Inr content \<Rightarrow>
          (case ge_unmarshal g content of
             Inl e \<Rightarrow> Inl (Failure (api CodeDataFailure ''copy subscription document'') (Some e))
           | Inr d \<Rightarrow> Inr d))"

text \<open>The fields mihari owns.\<close>

definition managed_fields :: "gen_env \<Rightarrow> settings \<Rightarrow> endpoint \<Rightarrow> document \<Rightarrow> document" where
  "managed_fields g s mixed d =
     (let d1 = AList.update ''mixed-port'' (AInt (uint (ep_port mixed))) d;
          d2 = AList.update ''bind-address'' (AStr (ge_addr g (MixedAddr s))) d1;
          d3 = AList.update ''allow-lan'' (ABool False) d2;
          d4 = AList.update ''external-controller'' (AStr (ControllerAddr s)) d3;
          d5 = AList.update ''secret'' (AStr (ControllerSecret s)) d4
      in AList.delete ''external-ui-url'' (AList.delete ''external-ui-name'' (AList.delete ''external-ui'' d5)))"

definition managed_tun :: "settings \<Rightarrow> bool option" where
  "managed_tun s =
     (case Option.bind (Tun s) (\<lambda>t. map_of t ''enable'') of Some (YBool b) \<Rightarrow> Some b | _ \<Rightarrow> None)"

definition apply_tun :: "gen_env \<Rightarrow> settings \<Rightarrow> document \<Rightarrow> go_error + document" where
  "apply_tun g s d =
     (case managed_tun s of
        None \<Rightarrow> Inr d
      | Some enable \<Rightarrow>
          (case (case map_of d ''tun'' of
                   None \<Rightarrow> Inr []
                 | Some raw \<Rightarrow>
                     (case ge_remap g raw of
                        Inl e \<Rightarrow> Inl (Failure (api CodeDataFailure ''tun must be a mapping'') (Some e))
                      | Inr None \<Rightarrow> Inl (Failure (api CodeDataFailure ''tun must be a mapping'') None)
                      | Inr (Some t) \<Rightarrow> Inr t)) of
             Inl e \<Rightarrow> Inl e
           | Inr tun \<Rightarrow> Inr (AList.update ''tun'' (AMap (AList.update ''enable'' (ABool enable) tun)) d)))"

text \<open>Everything before the final encoding.\<close>

definition generated :: "gen_env \<Rightarrow> document \<Rightarrow> document \<Rightarrow> settings \<Rightarrow> go_error + document" where
  "generated g base overrides s =
     (case Validate (ge_parse g) s of
        Some e \<Rightarrow> Inl e
      | None \<Rightarrow>
     (if ControllerSecret s = [] then Inl (Api (api CodeDataFailure ''controller secret is required''))
      else
      (case cloneDocument g (fold (\<lambda>(k, v) d. AList.update k v d) overrides base) of
         Inl e \<Rightarrow> Inl e
       | Inr document \<Rightarrow>
      (case applyEgress (ensureRoutable document) (EgressInterface s) of
         Inl e \<Rightarrow> Inl (Failure (api CodeDataFailure ''generate DNS outbound interface bindings'') (Some e))
       | Inr d1 \<Rightarrow>
      (let d2 = AList.update ''log-level'' (AStr (CoreLoggingLevel s))
                  (AList.update ''mode'' (AStr (RoutingMode s)) d1) in
      (case ge_parse g (MixedAddr s) of
         None \<Rightarrow> Inl (Failure (api CodeDataFailure ''invalid mixed address'') (Some (ge_parse_error g (MixedAddr s))))
       | Some mixed \<Rightarrow> apply_tun g s (managed_fields g s mixed d2)))))))"

definition Generate :: "gen_env \<Rightarrow> document \<Rightarrow> document \<Rightarrow> settings \<Rightarrow> go_error + string" where
  "Generate g base overrides s =
     (case generated g base overrides s of
        Inl e \<Rightarrow> Inl e
      | Inr d \<Rightarrow>
          (case ge_marshal g d of
             Inl e \<Rightarrow> Inl (Failure (api CodeDataFailure ''encode generated configuration'') (Some e))
           | Inr content \<Rightarrow> Inr content))"

section \<open>Fragments\<close>

lemma hex_digit_upper: "n < 16 \<Longrightarrow> hex_digit (upper_hex n) = Some n"
  by (auto simp: hex_digit_def upper_hex_def)

lemma char_nibbles: "char_of (16 * (of_char c div 16) + of_char c mod 16 :: nat) = (c :: char)"
  by simp

lemma path_unescape_escape [go_simps]: "path_unescape (escape_fragment s) = Some s"
proof (induction s)
  case (Cons c cs)
  have b: "(of_char c :: nat) div 16 < 16" using nat_of_char_less_256 [of c] by linarith
  have "hex_digit (upper_hex (of_char c div 16)) = Some (of_char c div 16)"
    "hex_digit (upper_hex (of_char c mod 16)) = Some (of_char c mod 16)"
    using b by (simp_all add: hex_digit_upper)
  then show ?case using Cons by (auto simp: fragment_safe_def char_nibbles)
qed simp

lemma split_join:
  "parts \<noteq> [] \<Longrightarrow> \<forall>p \<in> set parts. c \<notin> set p \<Longrightarrow> split_on c (join_with c parts) = parts"
proof (induction parts rule: join_with.induct)
  case (2 c x)
  then have "c \<notin> set x" by simp
  then show ?case by (induction x) auto
next
  case (3 c x y ys)
  have "split_on c (p @ c # r) = p # split_on c r" if "c \<notin> set p" for p r
    using that by (induction p) auto
  then show ?case using 3 by simp
qed simp

lemma split_on_free: "p \<in> set (split_on c s) \<Longrightarrow> c \<notin> set p"
proof (induction s arbitrary: p)
  case (Cons x xs)
  then show ?case by (cases "split_on c xs") (auto split: if_splits)
qed simp

lemma last_bare_Some:
  assumes "last_bare parts = Some k"
  shows "k < length parts \<and> CHR ''='' \<notin> set (parts ! k) \<and> (\<forall>j. k < j \<and> j < length parts \<longrightarrow> CHR ''='' \<in> set (parts ! j))"
proof -
  obtain i where i: "find_index (\<lambda>p. CHR ''='' \<notin> set p) (rev parts) = Some i" "k = length parts - 1 - i"
    using assms by (auto simp: last_bare_def split: option.splits)
  note f = find_index_Some [OF i(1)]
  have "CHR ''='' \<in> set (parts ! j)" if "k < j" "j < length parts" for j
  proof -
    have "length parts - 1 - j < i" using that f i(2) by simp
    then have "CHR ''='' \<in> set (rev parts ! (length parts - 1 - j))" using f by simp
    moreover have "rev parts ! (length parts - 1 - j) = parts ! j" using that by (simp add: rev_nth)
    ultimately show ?thesis by simp
  qed
  moreover have "CHR ''='' \<notin> set (parts ! k)" "k < length parts" using f i(2) by (auto simp: rev_nth)
  ultimately show ?thesis by blast
qed

lemma last_bare_unique:
  assumes "k < length parts" "CHR ''='' \<notin> set (parts ! k)"
    "\<forall>j. k < j \<and> j < length parts \<longrightarrow> CHR ''='' \<in> set (parts ! j)"
  shows "last_bare parts = Some k"
proof (cases "last_bare parts")
  case None
  then have "find_index (\<lambda>p. CHR ''='' \<notin> set p) (rev parts) = None"
    by (simp add: last_bare_def split: option.splits)
  then have "CHR ''='' \<in> set (parts ! k)" using assms(1) by (auto simp: find_index_None)
  with assms(2) show ?thesis by simp
next
  case (Some m)
  have "\<not> m < k" "\<not> k < m" using last_bare_Some [OF Some] assms by blast+
  then show ?thesis using Some by simp
qed

lemma cut_base: "cut c s = Some (base, rest) \<Longrightarrow> s = base @ c # rest \<and> c \<notin> set base"
  by (induction s arbitrary: base) (auto split: if_splits)

lemma cut_append: "c \<notin> set base \<Longrightarrow> cut c (base @ c # rest) = Some (base, rest)"
  by (induction base) auto

text \<open>How the core reads a server: the part before the fragment, the parameters of the
  fragment and the token that selects the outbound, the last one without a value.\<close>

definition dns_parts :: "string \<Rightarrow> (string \<times> string list) option" where
  "dns_parts server =
     (case cut (CHR ''#'') server of
        None \<Rightarrow> None
      | Some (base, fragment) \<Rightarrow> map_option (\<lambda>d. (base, split_on (CHR ''&'') d)) (path_unescape fragment))"

definition dns_token :: "string \<Rightarrow> string option" where
  "dns_token server =
     (case dns_parts server of
        None \<Rightarrow> None
      | Some (_, parts) \<Rightarrow>
          (case last_bare parts of None \<Rightarrow> None | Some k \<Rightarrow> if parts ! k = [] then None else Some (parts ! k)))"

lemma egress_server_untouched:
  assumes "case dns_token server of None \<Rightarrow> True | Some t \<Rightarrow> t \<in> set proxies"
  shows "egress_server server name proxies = Inr server"
  using assms
  by (auto simp: egress_server_def dns_token_def dns_parts_def Let_def split: option.splits prod.splits if_splits)

lemma egress_server_bound:
  assumes "dns_token server = Some t" "t \<notin> set proxies" "name \<noteq> []"
    "egress_server server name proxies = Inr server'"
  shows "\<exists>base parts k. dns_parts server = Some (base, parts) \<and> last_bare parts = Some k \<and>
    dns_parts server' = Some (base, parts[k := name]) \<and> dns_token server' = Some name"
proof -
  obtain base fragment decoded k where c: "cut (CHR ''#'') server = Some (base, fragment)"
    "path_unescape fragment = Some decoded" and k: "last_bare (split_on (CHR ''&'') decoded) = Some k"
    using assms(1) by (auto simp: dns_token_def dns_parts_def split: option.splits prod.splits)
  let ?parts = "split_on (CHR ''&'') decoded"
  let ?new = "?parts[k := name]"
  have t: "?parts ! k = t" "t \<noteq> []"
    using assms(1) c k by (auto simp: dns_token_def dns_parts_def split: if_splits)
  have n: "CHR ''&'' \<notin> set name" "CHR ''='' \<notin> set name"
    and s': "server' = base @ CHR ''#'' # escape_fragment (join_with (CHR ''&'') ?new)"
    using assms(2,4) c k t by (auto simp: egress_server_def Let_def split: if_splits)
  note l = last_bare_Some [OF k]
  have free: "\<forall>p \<in> set ?new. CHR ''&'' \<notin> set p"
    using n(1) split_on_free set_update_subset_insert [of ?parts k name] by blast
  have p': "dns_parts server' = Some (base, ?new)"
    using cut_base [OF c(1)] free
    by (simp add: dns_parts_def s' cut_append path_unescape_escape split_join)
  have "last_bare ?new = Some k"
    by (rule last_bare_unique) (use l n(2) in auto)
  then have "dns_token server' = Some name" using p' l assms(3) by (simp add: dns_token_def)
  then show ?thesis using c k p' by (auto simp: dns_parts_def)
qed

section \<open>Generated documents\<close>

lemmas assoc_simps = update_conv' delete_conv'

lemma applyEgress_frame:
  assumes "applyEgress d name = Inr d'" and "k \<notin> {''interface-name'', ''proxies'', ''proxy-providers'', ''dns''}"
  shows "map_of d' k = map_of d k"
  using assms
  by (auto simp: applyEgress_def bind_proxies_def bind_providers_def Let_def assoc_simps
        split: if_splits option.splits sum.splits)

lemma ensureRoutable_seqs:
  "nonempty_seq (map_of (ensureRoutable d) ''proxy-groups'')" "nonempty_seq (map_of (ensureRoutable d) ''rules'')"
  by (auto simp: ensureRoutable_def Let_def assoc_simps nonempty_seq_def)

lemma apply_tun_frame:
  assumes "apply_tun g s d = Inr d'"
  shows "(k \<noteq> ''tun'' \<longrightarrow> map_of d' k = map_of d k) \<and>
    (managed_tun s = Some b \<longrightarrow> (\<exists>t. map_of d' ''tun'' = Some (AMap t) \<and> map_of t ''enable'' = Some (ABool b)))"
  using assms by (auto simp: apply_tun_def assoc_simps split: option.splits sum.splits)

lemma managed_fields_lookup:
  "map_of (managed_fields g s mixed d) k =
     (if k = ''mixed-port'' then Some (AInt (uint (ep_port mixed)))
      else if k = ''bind-address'' then Some (AStr (ge_addr g (MixedAddr s)))
      else if k = ''allow-lan'' then Some (ABool False)
      else if k = ''external-controller'' then Some (AStr (ControllerAddr s))
      else if k = ''secret'' then Some (AStr (ControllerSecret s))
      else if k \<in> {''external-ui'', ''external-ui-name'', ''external-ui-url''} then None
      else map_of d k)"
  by (simp add: managed_fields_def Let_def assoc_simps)

text \<open>The stages of a generation that succeeds.\<close>

lemma generated_stages:
  assumes "generated g base overrides s = Inr d"
  obtains doc d1 mixed where "Validate (ge_parse g) s = None" "ControllerSecret s \<noteq> []"
    "applyEgress (ensureRoutable doc) (EgressInterface s) = Inr d1"
    "ge_parse g (MixedAddr s) = Some mixed"
    "apply_tun g s (managed_fields g s mixed (AList.update ''log-level'' (AStr (CoreLoggingLevel s))
        (AList.update ''mode'' (AStr (RoutingMode s)) d1))) = Inr d"
  using assms
  by (auto simp: generated_def Let_def split: option.splits if_splits sum.splits)

lemma generated_lookup:
  assumes "generated g base overrides s = Inr d" and "k \<noteq> ''tun''"
  obtains doc d1 mixed where "ge_parse g (MixedAddr s) = Some mixed"
    "applyEgress (ensureRoutable doc) (EgressInterface s) = Inr d1"
    "map_of d k = map_of (managed_fields g s mixed (AList.update ''log-level'' (AStr (CoreLoggingLevel s))
        (AList.update ''mode'' (AStr (RoutingMode s)) d1))) k"
proof -
  obtain doc d1 mixed where "applyEgress (ensureRoutable doc) (EgressInterface s) = Inr d1"
    and "ge_parse g (MixedAddr s) = Some mixed"
    and t: "apply_tun g s (managed_fields g s mixed (AList.update ''log-level'' (AStr (CoreLoggingLevel s))
        (AList.update ''mode'' (AStr (RoutingMode s)) d1))) = Inr d"
    using generated_stages [OF assms(1)] .
  then show ?thesis using that apply_tun_frame [OF t] assms(2) by blast
qed

section \<open>Egress bindings\<close>

text \<open>Every mapping of the list, and the override of every provider, is bound.\<close>

definition item_bound :: "string \<Rightarrow> any \<Rightarrow> bool" where
  "item_bound name raw \<longleftrightarrow>
     (case egressMapping raw of None \<Rightarrow> True | Some m \<Rightarrow> map_of m ''interface-name'' = Some (AStr name))"

definition provider_bound :: "string \<Rightarrow> any \<Rightarrow> bool" where
  "provider_bound name raw \<longleftrightarrow>
     (case egressMapping raw of
        None \<Rightarrow> True
      | Some m \<Rightarrow> (case entry_map m ''override'' of
          None \<Rightarrow> False | Some o1 \<Rightarrow> map_of o1 ''interface-name'' = Some (AStr name)))"

lemma bind_item_bound: "item_bound name (bind_item name raw)"
  by (cases raw) (auto simp: item_bound_def bind_item_def assoc_simps)

lemma bind_provider_bound: "provider_bound name (bind_provider name raw)"
  by (cases raw) (auto simp: provider_bound_def bind_provider_def entry_map_def Let_def assoc_simps)

lemma bind_item_names [simp]: "item_names (map (bind_item name) xs) = item_names xs"
proof -
  have "Option.bind (egressMapping (bind_item name raw)) (\<lambda>item. as_str (map_of item ''name'')) =
      Option.bind (egressMapping raw) (\<lambda>item. as_str (map_of item ''name''))" for raw
    by (cases raw) (auto simp: bind_item_def assoc_simps)
  then show ?thesis by (induction xs) (simp_all add: item_names_def List.map_filter_def)
qed

lemma seq_items_bound:
  assumes "as_seq (map_of d ''proxies'') = Some xs"
  shows "seq_items (bind_proxies name d) ''proxies'' = map (bind_item name) xs"
  using assms by (simp add: bind_proxies_def seq_items_def assoc_simps)

lemma bind_proxies_all: "\<forall>raw \<in> set (seq_items (bind_proxies name d) ''proxies''). item_bound name raw"
proof (cases "as_seq (map_of d ''proxies'')")
  case None
  then show ?thesis by (simp add: bind_proxies_def seq_items_def)
next
  case (Some xs)
  then show ?thesis by (simp add: seq_items_bound bind_item_bound)
qed

lemma bind_proxies_names: "known_proxies (bind_proxies name d) = known_proxies d"
proof (cases "as_seq (map_of d ''proxies'')")
  case (Some xs)
  have "seq_items (bind_proxies name d) ''proxy-groups'' = seq_items d ''proxy-groups''"
    using Some by (simp add: bind_proxies_def seq_items_def assoc_simps)
  moreover have "seq_items d ''proxies'' = xs" using Some by (simp add: seq_items_def)
  ultimately show ?thesis using Some by (simp add: known_proxies_def seq_items_bound)
qed (simp add: bind_proxies_def)

lemma seq_items_cong: "map_of d k = map_of d' k \<Longrightarrow> seq_items d k = seq_items d' k"
  by (simp add: seq_items_def)

lemma entry_map_cong: "map_of d k = map_of d' k \<Longrightarrow> entry_map d k = entry_map d' k"
  by (simp add: entry_map_def)

lemma bind_providers_all:
  assumes "entry_map (bind_providers name d) ''proxy-providers'' = Some ps" "(k, raw) \<in> set ps"
  shows "provider_bound name raw"
proof (cases "entry_map d ''proxy-providers''")
  case None
  then show ?thesis using assms by (simp add: bind_providers_def)
next
  case (Some qs)
  then have "entry_map (bind_providers name d) ''proxy-providers'' =
      Some (map (\<lambda>(k, v). (k, bind_provider name v)) qs)"
    by (simp add: bind_providers_def entry_map_def assoc_simps)
  then show ?thesis using assms bind_provider_bound by auto
qed

lemma applyEgress_lookup:
  assumes "applyEgress d name = Inr d'" "name \<noteq> []"
  defines "e \<equiv> bind_providers name (bind_proxies name (AList.update ''interface-name'' (AStr name) d))"
  shows "k \<noteq> ''dns'' \<Longrightarrow> map_of d' k = map_of e k"
  using assms(1,2) unfolding e_def applyEgress_def
  by (auto simp: Let_def assoc_simps split: option.splits sum.splits)

lemma bind_providers_other: "k \<noteq> ''proxy-providers'' \<Longrightarrow> map_of (bind_providers name d) k = map_of d k"
  by (simp add: bind_providers_def assoc_simps split: option.split)

lemma bind_proxies_other: "k \<noteq> ''proxies'' \<Longrightarrow> map_of (bind_proxies name d) k = map_of d k"
  by (simp add: bind_proxies_def assoc_simps split: option.split)

section \<open>Properties\<close>

text \<open>
  C10. The generated configuration is under mihari's control whatever the subscription or
  the overrides say: LAN access is off, the controller is the loopback endpoint of the
  settings with the secret of the settings (never empty), no external UI is configured,
  mode, log level, listening port and address come from the settings, a managed tun
  switch wins, and there is at least one proxy group and one rule.
\<close>

theorem Generate_managed:
  assumes "Generate g base overrides s = Inr content"
  shows "\<exists>d mixed. ge_marshal g d = Inr content \<and>
    map_of d ''allow-lan'' = Some (ABool False) \<and>
    map_of d ''external-controller'' = Some (AStr (ControllerAddr s)) \<and>
    map_of d ''secret'' = Some (AStr (ControllerSecret s)) \<and> ControllerSecret s \<noteq> [] \<and>
    settings_wf (ge_parse g) s \<and>
    (\<forall>k \<in> {''external-ui'', ''external-ui-name'', ''external-ui-url''}. map_of d k = None) \<and>
    map_of d ''mode'' = Some (AStr (RoutingMode s)) \<and>
    map_of d ''log-level'' = Some (AStr (CoreLoggingLevel s)) \<and>
    ge_parse g (MixedAddr s) = Some mixed \<and>
    map_of d ''mixed-port'' = Some (AInt (uint (ep_port mixed))) \<and>
    map_of d ''bind-address'' = Some (AStr (ge_addr g (MixedAddr s))) \<and>
    (case managed_tun s of None \<Rightarrow> True
     | Some b \<Rightarrow> \<exists>t. map_of d ''tun'' = Some (AMap t) \<and> map_of t ''enable'' = Some (ABool b)) \<and>
    nonempty_seq (map_of d ''proxy-groups'') \<and> nonempty_seq (map_of d ''rules'')"
proof -
  obtain d where gen: "generated g base overrides s = Inr d" and m: "ge_marshal g d = Inr content"
    using assms by (auto simp: Generate_def split: sum.splits)
  obtain doc d1 mixed where st: "Validate (ge_parse g) s = None" "ControllerSecret s \<noteq> []"
      "applyEgress (ensureRoutable doc) (EgressInterface s) = Inr d1" "ge_parse g (MixedAddr s) = Some mixed"
    and t: "apply_tun g s (managed_fields g s mixed (AList.update ''log-level'' (AStr (CoreLoggingLevel s))
        (AList.update ''mode'' (AStr (RoutingMode s)) d1))) = Inr d"
    using generated_stages [OF gen] .
  have lk: "map_of d k = map_of (managed_fields g s mixed (AList.update ''log-level'' (AStr (CoreLoggingLevel s))
        (AList.update ''mode'' (AStr (RoutingMode s)) d1))) k" if "k \<noteq> ''tun''" for k
    using apply_tun_frame [OF t, of k] that by blast
  have r: "nonempty_seq (map_of d1 ''proxy-groups'')" "nonempty_seq (map_of d1 ''rules'')"
    using applyEgress_frame [OF st(3)] ensureRoutable_seqs by simp_all
  have wf: "settings_wf (ge_parse g) s" using st(1) Validate_wf by blast
  have tun: "case managed_tun s of None \<Rightarrow> True
     | Some b \<Rightarrow> \<exists>t. map_of d ''tun'' = Some (AMap t) \<and> map_of t ''enable'' = Some (ABool b)"
    using apply_tun_frame [OF t, of "''tun''"] by (cases "managed_tun s") auto
  show ?thesis
    by (rule exI [of _ d], rule exI [of _ mixed])
       (use m wf tun r st(2,4) in \<open>simp add: lk managed_fields_lookup assoc_simps\<close>)
qed

definition demo_gen :: gen_env where
  "demo_gen = \<lparr>ge_parse = demo_addr, ge_addr = (\<lambda>_. ''127.0.0.1''), ge_parse_error = Opaque,
     ge_marshal = (\<lambda>_. Inr ''yaml''),
     ge_unmarshal = (\<lambda>_. Inr [(''allow-lan'', ABool True), (''external-ui'', AStr ''x''), (''proxies'', ASeq [])]),
     ge_remap = (\<lambda>_. Inr None)\<rparr>"

theorem Generate_managed_witness:
  "\<exists>d. map_of d ''allow-lan'' = Some (ABool False) \<and> map_of d ''external-ui'' = None \<and>
     map_of d ''secret'' = Some (AStr (hex_encode (replicate 32 7)))"
proof -
  have f: "ControllerSecret demo_settings = hex_encode (replicate 32 7)" "EgressInterface demo_settings = []"
    "Tun demo_settings = None" "MixedAddr demo_settings = ''127.0.0.1:9190''"
    by (simp_all add: demo_settings_def Settings.Defaults_def zero_settings_def)
  have e: "ge_parse demo_gen = demo_addr" "ge_marshal demo_gen = (\<lambda>_. Inr ''yaml'')"
    "cloneDocument demo_gen [] = Inr [(''allow-lan'', ABool True), (''external-ui'', AStr ''x''), (''proxies'', ASeq [])]"
    by (simp_all add: demo_gen_def cloneDocument_def)
  have p: "demo_addr ''127.0.0.1:9190'' \<noteq> None" by (simp add: demo_addr_def)
  have "Generate demo_gen [] [] demo_settings = Inr ''yaml''"
    using p by (simp add: Generate_def generated_def e f demo_settings_valid applyEgress_def apply_tun_def
          managed_tun_def Let_def split: option.split)
  from Generate_managed [OF this] show ?thesis by (auto simp: f)
qed

text \<open>
  The egress binding of DNS servers: a server whose effective outbound token is a
  proxy, or that has none, is left as it is; otherwise the new server has the same base
  and the same parameters, and its effective token is the chosen interface, so the
  rewriting never redirects a query through another proxy.
\<close>

theorem egress_server_binds:
  assumes "egress_server server name proxies = Inr server'" and "name \<noteq> []"
  shows "if (case dns_token server of None \<Rightarrow> True | Some t \<Rightarrow> t \<in> set proxies) then server' = server
    else \<exists>base parts k. dns_parts server = Some (base, parts) \<and> last_bare parts = Some k \<and>
      dns_parts server' = Some (base, parts[k := name]) \<and> dns_token server' = Some name"
proof (cases "case dns_token server of None \<Rightarrow> True | Some t \<Rightarrow> t \<in> set proxies")
  case True
  then show ?thesis using egress_server_untouched [OF True, of name] assms(1) by simp
next
  case False
  then obtain t where "dns_token server = Some t" "t \<notin> set proxies" by (auto split: option.splits)
  then show ?thesis using False egress_server_bound [OF _ _ assms(2) assms(1)] by simp
qed

theorem egress_server_binds_witness:
  "dns_token ''https://d/q#h3=true&eth%201'' = Some ''eth 1''"
proof -
  have e: "egress_server ''https://d/q#h3=true&wlan0'' ''eth 1'' [''DIRECT''] = Inr ''https://d/q#h3=true&eth%201''"
    by code_simp
  have t: "dns_token ''https://d/q#h3=true&wlan0'' = Some ''wlan0''" by code_simp
  show ?thesis using egress_server_binds [OF e] t by auto
qed

text \<open>
  Binding the egress interface reaches every outbound of the generated document:
  every proxy, and the override of every proxy provider, carries the interface; the names
  of proxies and groups, against which DNS tokens are resolved, stay the same; and an
  empty interface name changes nothing.
\<close>

theorem applyEgress_binds_all:
  assumes "applyEgress d name = Inr d'"
  shows "if name = [] then d' = d
    else map_of d' ''interface-name'' = Some (AStr name) \<and>
      list_all (item_bound name) (seq_items d' ''proxies'') \<and>
      (case entry_map d' ''proxy-providers'' of None \<Rightarrow> True
       | Some ps \<Rightarrow> list_all (\<lambda>(k, raw). provider_bound name raw) ps) \<and>
      known_proxies d' = known_proxies d"
proof (cases "name = []")
  case True
  then show ?thesis using assms by (simp add: applyEgress_def)
next
  case False
  let ?u = "AList.update ''interface-name'' (AStr name) d"
  let ?p = "bind_proxies name ?u"
  let ?e = "bind_providers name ?p"
  note lk = applyEgress_lookup [OF assms False]
  have i: "map_of d' ''interface-name'' = Some (AStr name)"
    by (simp add: lk bind_providers_other bind_proxies_other assoc_simps)
  have s: "seq_items d' k = seq_items ?p k" if "k = ''proxies'' \<or> k = ''proxy-groups''" for k
    using that by (intro seq_items_cong) (auto simp: lk bind_providers_other)
  have k: "known_proxies d' = known_proxies d"
  proof -
    have "known_proxies d' = known_proxies ?p" using s by (simp add: known_proxies_def)
    also have "\<dots> = known_proxies ?u" by (rule bind_proxies_names)
    also have "\<dots> = known_proxies d" by (simp add: known_proxies_def seq_items_def assoc_simps)
    finally show ?thesis .
  qed
  have "entry_map d' ''proxy-providers'' = entry_map ?e ''proxy-providers''"
    by (intro entry_map_cong) (simp add: lk)
  then have pr: "case entry_map d' ''proxy-providers'' of None \<Rightarrow> True
       | Some ps \<Rightarrow> list_all (\<lambda>(k, raw). provider_bound name raw) ps"
    using bind_providers_all [of name ?p] by (auto simp: list_all_iff split: option.splits)
  show ?thesis using False i k pr s bind_proxies_all [of name ?u] by (simp add: list_all_iff)
qed

theorem applyEgress_binds_all_witness:
  "map_of (AList.update ''interface-name'' (AStr ''eth0'') [(''proxies'', ASeq [])]) ''interface-name'' = Some (AStr ''eth0'')"
proof -
  have "applyEgress [(''proxies'', ASeq [])] ''eth0'' =
      Inr [(''proxies'', ASeq []), (''interface-name'', AStr ''eth0'')]"
    by code_simp
  from applyEgress_binds_all [OF this] show ?thesis by simp
qed

end
