(* ===== verification/Subscription_Service.thy ===== *)
theory Subscription_Service
  imports Catalog Document
begin

text \<open>
  \<open>internal/subscription\<close>: \<open>service.go\<close>, \<open>create.go\<close> and \<open>fetch\<close> of \<open>source.go\<close>. The
  service owns the catalog in memory, the catalog file and one cache file per profile.
  Every method holds the service's lock for its whole effect, so a method is one state
  transition; what the file system answers to each call is an argument. A refresh has to
  keep catalog and cache paired although each file is replaced on its own.
\<close>

section \<open>State\<close>

record service =
  ss_catalog :: catalog
  ss_disk :: "string option"
  ss_caches :: "string \<Rightarrow> string option"
  ss_cacheDir :: string

record fetch_result =
  fr_BaseDir :: string
  fr_Content :: string
  fr_ETag :: string
  fr_LastModified :: string
  fr_Userinfo :: string
  fr_NotModified :: bool
  fr_FellBack :: bool

definition zero_fetch :: fetch_result where
  "zero_fetch = \<lparr>fr_BaseDir = [], fr_Content = [], fr_ETag = [], fr_LastModified = [],
     fr_Userinfo = [], fr_NotModified = False, fr_FellBack = False\<rparr>"

record prepared_refresh =
  pr_profileID :: string
  pr_profileVersion :: u64
  pr_profile :: profile
  pr_result :: fetch_result
  pr_document :: document

record receipt =
  rc_Before :: catalog
  rc_After :: catalog
  rc_cachePath :: string
  rc_cacheBefore :: string
  rc_hadCache :: bool
  rc_wroteCache :: bool
  rc_profileID :: string

definition zero_receipt :: receipt where
  "zero_receipt = \<lparr>rc_Before = zero_catalog, rc_After = zero_catalog, rc_cachePath = [],
     rc_cacheBefore = [], rc_hadCache = False, rc_wroteCache = False, rc_profileID = []\<rparr>"

definition CachePath :: "service \<Rightarrow> string \<Rightarrow> string" where
  "CachePath s i = file_path (ss_cacheDir s) (i @ ''.yaml'')"

text \<open>What the file system answers: a failing read or removal (of a file that exists),
  the outcome of each atomic replacement, and the faults of \<open>Load\<close>.\<close>

record file_io =
  io_read :: "string option"
  io_write :: write_outcome
  io_restore :: write_outcome
  io_remove :: "string option"
  io_save :: write_outcome
  io_save_back :: write_outcome
  io_open :: "go_error option"
  io_stat :: "go_error option"

definition read_file :: "string option \<Rightarrow> string option \<Rightarrow> go_error + string" where
  "read_file fault disk =
     (case disk of
        None \<Rightarrow> Inl ErrNotExist
      | Some content \<Rightarrow> (case fault of Some m \<Rightarrow> Inl (Opaque m) | None \<Rightarrow> Inr content))"

section \<open>Errors\<close>

definition notFoundError :: go_error where
  "notFoundError = Api (api CodeInvalidArgument ''subscription not found'')"

definition ErrRefreshChanged :: go_error where
  "ErrRefreshChanged = Errorf ''subscription changed while refresh was in progress''
     (Api (api CodeRevisionConflict ''subscription changed while refresh was in progress''))"

definition errStaleRefreshFailure :: go_error where
  "errStaleRefreshFailure = Opaque ''subscription refresh failure belongs to an older profile''"

definition degraded :: "go_error \<Rightarrow> bool" where
  "degraded e \<longleftrightarrow>
     (case as_api e of None \<Rightarrow> False | Some a \<Rightarrow> map_of (err_details a) ''degraded'' = Some (DBool True))"

definition subscriptionRollbackError :: "go_error \<Rightarrow> bool \<Rightarrow> go_error" where
  "subscriptionRollbackError e setup =
     (if \<not> setup then e
      else Failure ((api CodeDataFailure ''subscription state rollback failed'')
        \<lparr>err_details := [(''degraded'', DBool True)]\<rparr>) (Some e))"

section \<open>Catalog mutations\<close>

definition Mutate ::
  "catalog_env \<Rightarrow> write_outcome \<Rightarrow> (catalog \<Rightarrow> catalog \<times> go_error option) \<Rightarrow> service
   \<Rightarrow> ((catalog \<times> catalog) \<times> go_error option) \<times> service" where
  "Mutate env out mutate s =
     (let before = ss_catalog s in
      case mutate before of
        (_, Some e) \<Rightarrow> (((zero_catalog, zero_catalog), Some e), s)
      | (after0, None) \<Rightarrow>
          (case canonical_catalog env after0 of
             Inl e \<Rightarrow> (((zero_catalog, zero_catalog), Some e), s)
           | Inr after \<Rightarrow>
               (case Save env out after (ss_disk s) of
                  (Some e, disk) \<Rightarrow> (((zero_catalog, zero_catalog), Some e), s\<lparr>ss_disk := disk\<rparr>)
                | (None, disk) \<Rightarrow>
                    (((before, after), None), s\<lparr>ss_disk := disk, ss_catalog := after\<rparr>))))"

text \<open>\<open>newProfileID\<close>: sixteen random bytes in hex; \<open>crypto/rand\<close> is a parameter.\<close>

definition newProfileID :: "go_error + nat list \<Rightarrow> go_error + string" where
  "newProfileID rand = (case rand of Inl e \<Rightarrow> Inl e | Inr bytes \<Rightarrow> Inr (hex_encode bytes))"

definition new_profile :: "string \<Rightarrow> string \<Rightarrow> string \<Rightarrow> string \<Rightarrow> profile" where
  "new_profile i name url mode =
     zero_profile\<lparr>pf_ID := i, pf_Name := name, pf_URL := url, pf_Enabled := True,
       pf_AutoRefresh := True, pf_Version := 1, pf_ProxyMode := mode\<rparr>"

definition Add ::
  "catalog_env \<Rightarrow> write_outcome \<Rightarrow> go_error + nat list \<Rightarrow> string \<Rightarrow> string \<Rightarrow> string \<Rightarrow> service
   \<Rightarrow> (go_error + profile) \<times> service" where
  "Add env out rand name url mode s =
     (case newProfileID rand of
        Inl e \<Rightarrow> (Inl (Failure (api CodeInternal ''generate subscription ID'') (Some e)), s)
      | Inr i \<Rightarrow>
          (case Mutate env out
             (\<lambda>c. (c\<lparr>cat_Profiles := cat_Profiles c @ [new_profile i name url mode]\<rparr>, None)) s of
             ((_, Some e), s') \<Rightarrow> (Inl e, s')
           | (((_, after), None), s') \<Rightarrow>
               (case Index after i of
                  None \<Rightarrow> (Inl (Opaque ''index out of range''), s')
                | Some k \<Rightarrow> (Inr (cat_Profiles after ! k), s'))))"

definition ResetRefreshSchedule :: "int \<Rightarrow> profile \<Rightarrow> profile" where
  "ResetRefreshSchedule now p = p\<lparr>pf_ScheduleFrom := now\<rparr>"

definition refresh_message :: "go_error \<Rightarrow> string" where
  "refresh_message cause =
     (case as_api cause of
        None \<Rightarrow> ''subscription refresh failed''
      | Some a \<Rightarrow> if err_message a \<noteq> [] then err_message a else ''subscription refresh failed'')"

definition note_mutation :: "string \<Rightarrow> string \<Rightarrow> u64 list \<Rightarrow> catalog \<Rightarrow> catalog \<times> go_error option" where
  "note_mutation i message versions c =
     (case Index c i of
        None \<Rightarrow> (c, Some (if versions \<noteq> [] then errStaleRefreshFailure else notFoundError))
      | Some k \<Rightarrow>
          if versions \<noteq> [] \<and> pf_Version (cat_Profiles c ! k) \<noteq> hd versions
          then (c, Some errStaleRefreshFailure)
          else (c\<lparr>cat_Profiles := (cat_Profiles c)[k := (cat_Profiles c ! k)\<lparr>pf_LastError := message\<rparr>]\<rparr>, None))"

definition noteRefreshError ::
  "catalog_env \<Rightarrow> write_outcome \<Rightarrow> string \<Rightarrow> go_error \<Rightarrow> u64 list \<Rightarrow> service \<Rightarrow> go_error option \<times> service" where
  "noteRefreshError env out i cause versions s =
     (case Mutate env out (note_mutation i (refresh_message cause) versions) s of
        ((_, err), s') \<Rightarrow> (err, s'))"

definition refreshFailure ::
  "catalog_env \<Rightarrow> write_outcome \<Rightarrow> string \<Rightarrow> go_error \<Rightarrow> u64 list \<Rightarrow> service \<Rightarrow> go_error \<times> service" where
  "refreshFailure env out i cause versions s =
     (if error_is Canceled cause then (cause, s)
      else case noteRefreshError env out i cause versions s of
        (None, s') \<Rightarrow> (cause, s')
      | (Some noteErr, s') \<Rightarrow>
          if error_is errStaleRefreshFailure noteErr then (cause, s')
          else
            let joined = Joined [cause, Errorf ''record subscription refresh failure: '' noteErr] in
            (case as_api cause of
               Some a \<Rightarrow> (Failure a (Some joined), s')
             | None \<Rightarrow> (Failure (api CodeInternal ''internal error'') (Some joined), s')))"

definition RecordRefreshFailure ::
  "catalog_env \<Rightarrow> write_outcome \<Rightarrow> prepared_refresh \<Rightarrow> go_error \<Rightarrow> service \<Rightarrow> go_error \<times> service" where
  "RecordRefreshFailure env out prepared cause s =
     (if (case as_api cause of
            None \<Rightarrow> False
          | Some a \<Rightarrow> err_code a = CodeRevisionConflict \<or> degraded cause)
      then (cause, s)
      else refreshFailure env out (pr_profileID prepared) cause [pr_profileVersion prepared] s)"

section \<open>Fetching\<close>

text \<open>
  \<open>fetch\<close>. A remote source goes to the downloader; a local one is opened and read by
  path. The record has the answer of every call on the way; the text of the size error
  leaves out the number.
\<close>

record local_io =
  lo_ctx :: "go_error option"
  lo_path :: "go_error + string"
  lo_resolved :: "go_error + string"
  lo_stat :: "go_error + bool"
  lo_open :: "go_error option"
  lo_opened :: "go_error + (bool \<times> bool \<times> nat)"
  lo_ctx_read :: "go_error option"
  lo_content :: "go_error + string"
  lo_dir :: "string \<Rightarrow> string"

definition fetch_local :: "local_io \<Rightarrow> go_error + fetch_result" where
  "fetch_local l =
     (case lo_ctx l of
        Some e \<Rightarrow> Inl e
      | None \<Rightarrow>
     (case lo_path l of
        Inl e \<Rightarrow> Inl (dataError ''decode local YAML source'' [Some e])
      | Inr _ \<Rightarrow>
     (case lo_resolved l of
        Inl e \<Rightarrow> Inl (dataError ''resolve local YAML source'' [Some e])
      | Inr path \<Rightarrow>
     (case lo_stat l of
        Inl e \<Rightarrow> Inl (dataError ''inspect local YAML source'' [Some e])
      | Inr regular \<Rightarrow>
        if \<not> regular then Inl (dataError ''local YAML source must be a regular file''
          [Some (Opaque (''not a regular file: '' @ path))])
        else
     (case lo_open l of
        Some e \<Rightarrow> Inl (dataError ''open local YAML source'' [Some e])
      | None \<Rightarrow>
     (case lo_opened l of
        Inl e \<Rightarrow> Inl (dataError ''inspect opened local YAML source'' [Some e])
      | Inr (regular', same, n) \<Rightarrow>
        if \<not> regular' \<or> \<not> same then Inl (data_error ''local YAML source changed while opening'')
        else if n > maxDocumentBytes
        then Inl (dataError ''local YAML source exceeds 16 MiB'' [Some (Opaque (''file size: '' @ path))])
        else
     (case lo_ctx_read l of
        Some e \<Rightarrow> Inl e
      | None \<Rightarrow>
     (case lo_content l of
        Inl e \<Rightarrow> Inl (dataError ''read local YAML source'' [Some (Errorf (path @ '': '') e)])
      | Inr content \<Rightarrow>
        if length content > maxDocumentBytes
        then Inl (data_error ''local YAML source exceeds 16 MiB'')
        else Inr (zero_fetch\<lparr>fr_Content := content, fr_BaseDir := lo_dir l path\<rparr>)))))))))"

type_synonym downloader = "string \<times> string \<times> string \<times> string \<Rightarrow> go_error + fetch_result"

definition fetch :: "downloader \<Rightarrow> local_io \<Rightarrow> profile \<Rightarrow> go_error + fetch_result" where
  "fetch download l p =
     (if \<not> IsFileSource (pf_URL p)
      then download (pf_URL p, pf_ETag p, pf_LastModified p, pf_ProxyMode p)
      else fetch_local l)"

text \<open>
  \<open>PrepareRefresh\<close> on the service as it is when the profile is looked up and, after the
  fetch, as it is when the cache is read and a failure recorded (\<open>s'\<close>): other methods may
  run in between. \<open>resolve\<close> is \<open>ResolveFileReferences\<close>.
\<close>

definition PrepareRefresh ::
  "catalog_env \<Rightarrow> decoder \<Rightarrow> (document \<Rightarrow> string \<Rightarrow> document) \<Rightarrow> downloader \<Rightarrow> local_io \<Rightarrow> write_outcome
   \<Rightarrow> string option \<Rightarrow> string \<Rightarrow> service \<Rightarrow> service \<Rightarrow> (go_error + prepared_refresh) \<times> service" where
  "PrepareRefresh env decode resolve download l out fault i s s' =
     (case Index (ss_catalog s) i of
        None \<Rightarrow> (Inl notFoundError, s')
      | Some k \<Rightarrow>
          let p = cat_Profiles (ss_catalog s) ! k;
              fail = (\<lambda>e. case refreshFailure env out i e [pf_Version p] s' of (e', s'') \<Rightarrow> (Inl e', s'')) in
          (case fetch download l p of
             Inl e \<Rightarrow> fail e
           | Inr result \<Rightarrow>
               if fr_NotModified result \<and> 0 < pf_Generation p \<and> pf_CacheURL p \<noteq> pf_URL p
               then fail (data_error ''subscription provider returned not-modified for a different cache source'')
               else
                 (case (if fr_NotModified result
                        then (case read_file fault (ss_caches s' (CachePath s' i)) of
                                Inl e \<Rightarrow> Inl (Failure (api CodeDataFailure
                                  ''subscription provider returned not-modified without a valid cache'') (Some e))
                              | Inr content \<Rightarrow> Inr content)
                        else Inr (fr_Content result)) of
                    Inl e \<Rightarrow> fail e
                  | Inr content \<Rightarrow>
                      (case ParseDocument decode content of
                         Inl e \<Rightarrow> fail e
                       | Inr d \<Rightarrow>
                           (Inr \<lparr>pr_profileID = i, pr_profileVersion = pf_Version p, pr_profile = p,
                              pr_result = result,
                              pr_document = resolve d
                                (if fr_NotModified result then pf_CacheBaseDir p else fr_BaseDir result)\<rparr>, s')))))"

section \<open>Committing a refresh\<close>

text \<open>\<open>restoreCacheWithCommit\<close> on the contents of one cache file: whether the old bytes
  are back, the error, and the file.\<close>

definition restoreCacheWithCommit ::
  "file_io \<Rightarrow> string \<Rightarrow> bool \<Rightarrow> bool \<Rightarrow> string option \<Rightarrow> (bool \<times> go_error option) \<times> string option" where
  "restoreCacheWithCommit io content existed changed file =
     (if \<not> changed then ((True, None), file)
      else if existed
      then (case put_with_commit (io_restore io) content file of
              ((r, err), file') \<Rightarrow> ((commit_Committed r, errors_join [err, commit_Warning r]), file'))
      else (case file of
              None \<Rightarrow> ((True, None), None)
            | Some _ \<Rightarrow>
                (case io_remove io of
                   Some m \<Rightarrow> ((False, Some (Failure (api CodeDataFailure ''remove rolled-back subscription cache'')
                     (Some (Opaque m)))), file)
                 | None \<Rightarrow> ((True, None), None))))"

definition restoreCache ::
  "file_io \<Rightarrow> string \<Rightarrow> bool \<Rightarrow> bool \<Rightarrow> string option \<Rightarrow> go_error option \<times> string option" where
  "restoreCache io content existed changed file =
     (case restoreCacheWithCommit io content existed changed file of ((_, err), file') \<Rightarrow> (err, file'))"

definition failAfterRestore ::
  "file_io \<Rightarrow> go_error \<Rightarrow> string \<Rightarrow> bool \<Rightarrow> bool \<Rightarrow> bool \<Rightarrow> string option \<Rightarrow> go_error \<times> string option" where
  "failAfterRestore io original content existed changed setup file =
     (case restoreCache io content existed changed file of
        (Some e, file') \<Rightarrow>
          (subscriptionRollbackError (Joined [original, Errorf ''restore subscription cache: '' e]) setup, file')
      | (None, file') \<Rightarrow> (original, file'))"

text \<open>The metadata of the refreshed profile.\<close>

definition refreshed_profile :: "int \<Rightarrow> fetch_result \<Rightarrow> profile \<Rightarrow> profile" where
  "refreshed_profile now result p =
     (let p1 = (if fr_NotModified result then p
                else p\<lparr>pf_Generation := pf_Generation p + 1, pf_CacheBaseDir := fr_BaseDir result\<rparr>);
          p2 = p1\<lparr>pf_Version := pf_Version p1 + 1, pf_UpdatedAt := now, pf_LastError := [],
                 pf_CacheURL := pf_URL p1, pf_ScheduleFrom := 0, pf_IntervalRefreshRequired := False\<rparr>;
          p3 = (if fr_ETag result \<noteq> [] then p2\<lparr>pf_ETag := fr_ETag result\<rparr> else p2);
          p4 = (if fr_LastModified result \<noteq> [] then p3\<lparr>pf_LastModified := fr_LastModified result\<rparr> else p3)
      in case ParseUserInfo (fr_Userinfo result) of
           (info, True) \<Rightarrow> p4\<lparr>pf_Upload := ui_Upload info, pf_Download := ui_Download info,
                            pf_Total := ui_Total info, pf_Expire := ui_Expire info\<rparr>
         | (_, False) \<Rightarrow> p4)"

text \<open>The part of \<open>commitRefreshLocked\<close> after \<open>saveCatalog\<close> of the new catalog failed with
  \<open>err0\<close>: the answer and the three stores it leaves (memory on the retained branch only).\<close>

definition commit_save_failed ::
  "catalog_env \<Rightarrow> file_io \<Rightarrow> bool \<Rightarrow> go_error \<Rightarrow> receipt \<Rightarrow> string option \<Rightarrow> string option
   \<Rightarrow> ((receipt \<times> go_error) \<times> catalog option) \<times> (string option \<times> string option)" where
  "commit_save_failed env io setup err0 r disk file =
     (let undo = (\<lambda>err disk'.
            case failAfterRestore io err (rc_cacheBefore r) (rc_hadCache r) (rc_wroteCache r) setup file of
              (e, file') \<Rightarrow> (((zero_receipt, e), None), (disk', file'))) in
      case Save env (io_save_back io) (rc_Before r) disk of
        (None, disk') \<Rightarrow> undo err0 disk'
      | (Some restoreErr, disk') \<Rightarrow>
          let err = Joined [err0, Errorf ''restore subscription catalog: '' restoreErr] in
          (case Load env (io_open io) (io_stat io) disk' of
             Inl readErr \<Rightarrow>
               (((zero_receipt, subscriptionRollbackError
                   (Joined [err, Errorf ''inspect subscription catalog after failed restore: '' readErr]) setup),
                 None), (disk', file))
           | Inr durable \<Rightarrow>
               if durable = rc_After r then (((r, err), Some durable), (disk', file))
               else if durable \<noteq> rc_Before r
               then (((zero_receipt, subscriptionRollbackError
                   (Joined [err, Opaque ''subscription catalog changed during failed restore'']) setup),
                 None), (disk', file))
               else undo err disk'))"

text \<open>The part of \<open>commitRefreshLocked\<close> after the cache was written (or kept): profile \<open>k\<close>
  is refreshed, the new catalog checked and saved.\<close>

definition commit_catalog ::
  "catalog_env \<Rightarrow> file_io \<Rightarrow> int \<Rightarrow> prepared_refresh \<Rightarrow> catalog \<Rightarrow> bool \<Rightarrow> nat \<Rightarrow> string \<Rightarrow> bool
   \<Rightarrow> string option \<Rightarrow> service \<Rightarrow> (receipt \<times> go_error option) \<times> service" where
  "commit_catalog env io now prepared before setup k cacheBefore hadCache file s =
     (let i = pr_profileID prepared; result = pr_result prepared; path = CachePath s i;
          wroteCache = (\<not> fr_NotModified result);
          after0 = (ss_catalog s)\<lparr>cat_Profiles := (cat_Profiles (ss_catalog s))
            [k := refreshed_profile now result (cat_Profiles (ss_catalog s) ! k)]\<rparr> in
      case canonical_catalog env after0 of
        Inl e \<Rightarrow>
          (case failAfterRestore io e cacheBefore hadCache wroteCache setup file of
             (e', file') \<Rightarrow> ((zero_receipt, Some e'),
                s\<lparr>ss_catalog := before, ss_caches := (ss_caches s)(path := file')\<rparr>))
      | Inr after \<Rightarrow>
          let r = \<lparr>rc_Before = before, rc_After = after, rc_cachePath = path,
                rc_cacheBefore = cacheBefore, rc_hadCache = hadCache,
                rc_wroteCache = wroteCache, rc_profileID = i\<rparr> in
          (case Save env (io_save io) after (ss_disk s) of
             (None, disk) \<Rightarrow>
               ((r, None), s\<lparr>ss_catalog := after, ss_disk := disk,
                  ss_caches := (ss_caches s)(path := file)\<rparr>)
           | (Some e, disk) \<Rightarrow>
               let before' = before\<lparr>cat_Profiles := saved_profiles env before\<rparr> in
               (case commit_save_failed env io setup e (r\<lparr>rc_Before := before'\<rparr>) disk file of
                  (((r', e'), kept), (disk', file')) \<Rightarrow>
                    ((r', Some e'),
                     s\<lparr>ss_catalog := (case kept of None \<Rightarrow> before' | Some c \<Rightarrow> c),
                       ss_disk := disk', ss_caches := (ss_caches s)(path := file')\<rparr>))))"

text \<open>The cache as it was: contents and existence; only a missing file is no error.\<close>

definition cache_before :: "file_io \<Rightarrow> string option \<Rightarrow> go_error + (string \<times> bool)" where
  "cache_before io file =
     (case read_file (io_read io) file of
        Inr content \<Rightarrow> Inr (content, True)
      | Inl e \<Rightarrow> if error_is ErrNotExist e then Inr ([], False) else Inl e)"

definition commitRefreshLocked ::
  "catalog_env \<Rightarrow> file_io \<Rightarrow> int \<Rightarrow> prepared_refresh \<Rightarrow> catalog \<Rightarrow> bool \<Rightarrow> service
   \<Rightarrow> (receipt \<times> go_error option) \<times> service" where
  "commitRefreshLocked env io now prepared before setup s =
     (let i = pr_profileID prepared; result = pr_result prepared; path = CachePath s i;
          fail = (\<lambda>e file. ((zero_receipt, Some e),
            s\<lparr>ss_catalog := before, ss_caches := (ss_caches s)(path := file)\<rparr>)) in
      case Index (ss_catalog s) i of
        None \<Rightarrow> fail ErrRefreshChanged (ss_caches s path)
      | Some k \<Rightarrow>
          if pf_Version (cat_Profiles (ss_catalog s) ! k) \<noteq> pr_profileVersion prepared
          then fail ErrRefreshChanged (ss_caches s path)
          else
          (case cache_before io (ss_caches s path) of
             Inl e \<Rightarrow> fail (Failure (api CodeDataFailure ''read existing subscription cache'') (Some e))
                        (ss_caches s path)
           | Inr (cacheBefore, hadCache) \<Rightarrow>
               (case (if \<not> fr_NotModified result
                      then put_atomic (io_write io) (fr_Content result) (ss_caches s path)
                      else (None, ss_caches s path)) of
                  (Some e, file) \<Rightarrow>
                    (case failAfterRestore io e cacheBefore hadCache True setup file of
                       (e', file') \<Rightarrow>
                         if degraded e' then fail e' file'
                         else fail (Failure (api CodeDataFailure ''write subscription cache'') (Some e')) file')
                | (None, file) \<Rightarrow>
                    commit_catalog env io now prepared before setup k cacheBefore hadCache file s)))"

definition CommitRefresh ::
  "catalog_env \<Rightarrow> file_io \<Rightarrow> int \<Rightarrow> prepared_refresh \<Rightarrow> service \<Rightarrow> (receipt \<times> go_error option) \<times> service" where
  "CommitRefresh env io now prepared s = commitRefreshLocked env io now prepared (ss_catalog s) False s"

text \<open>
  \<open>settleSetupCommitLocked\<close>: a setup commit that failed after the new catalog stayed on
  disk is compensated, the cache first. The second \<open>file_io\<close> has the answers to its calls;
  \<open>io_save\<close> is the catalog restore and \<open>io_write\<close> the forward repair of the cache.
\<close>

definition settleSetupCommitLocked ::
  "catalog_env \<Rightarrow> file_io \<Rightarrow> receipt \<Rightarrow> go_error option \<Rightarrow> service \<Rightarrow> (receipt \<times> go_error option) \<times> service" where
  "settleSetupCommitLocked env io r err0 s =
     (case err0 of
        None \<Rightarrow> ((r, err0), s)
      | Some err \<Rightarrow>
     (if rc_profileID r = [] then ((r, err0), s)
      else
        let path = rc_cachePath r; rollback = (\<lambda>es. (zero_receipt, Some (subscriptionRollbackError (Joined es) True))) in
        (case (if rc_wroteCache r then read_file (io_read io) (ss_caches s path) else Inr []) of
           Inl readErr \<Rightarrow>
             (rollback [err, Errorf ''read committed subscription cache before compensation: '' readErr], s)
         | Inr cacheAfter \<Rightarrow>
        (case restoreCacheWithCommit io (rc_cacheBefore r) (rc_hadCache r) (rc_wroteCache r) (ss_caches s path) of
           ((restored, cacheErr), file) \<Rightarrow>
             let s1 = s\<lparr>ss_caches := (ss_caches s)(path := file)\<rparr>; ces = some_errors [cacheErr] in
             if \<not> restored then (rollback (err # ces), s1)
             else
               let before = (rc_Before r)\<lparr>cat_Profiles := saved_profiles env (rc_Before r)\<rparr> in
               (case Save env (io_save io) (rc_Before r) (ss_disk s1) of
                  (None, disk) \<Rightarrow>
                    ((case cacheErr of
                        None \<Rightarrow> (zero_receipt, Some err)
                      | Some e \<Rightarrow> rollback [err, e]),
                     s1\<lparr>ss_disk := disk, ss_catalog := before\<rparr>)
                | (Some restoreErr, disk) \<Rightarrow>
                    let s2 = s1\<lparr>ss_disk := disk\<rparr> in
                    (case Load env (io_open io) (io_stat io) disk of
                       Inl readErr \<Rightarrow> (rollback ([err] @ ces @ [restoreErr, readErr]), s2)
                     | Inr durable \<Rightarrow>
                         let s3 = s2\<lparr>ss_catalog := durable\<rparr> in
                         if durable = rc_After r
                         then (case (if rc_wroteCache r
                                     then put_atomic (io_write io) cacheAfter (ss_caches s3 path)
                                     else (None, ss_caches s3 path)) of
                                 (Some forwardErr, file') \<Rightarrow>
                                   (rollback ([err] @ ces @ [restoreErr,
                                      Errorf ''restore committed subscription cache after failed catalog rollback: '' forwardErr]),
                                    s3\<lparr>ss_caches := (ss_caches s3)(path := file')\<rparr>)
                               | (None, file') \<Rightarrow>
                                   (rollback ([err] @ ces @ [restoreErr]),
                                    s3\<lparr>ss_caches := (ss_caches s3)(path := file')\<rparr>))
                         else if durable \<noteq> before
                         then (rollback ([err] @ ces @ [restoreErr,
                                 Opaque ''subscription catalog changed during setup compensation'']), s3)
                         else (rollback ([err, restoreErr] @ ces), s3\<lparr>ss_catalog := before\<rparr>)))))))"

definition activated :: "string \<Rightarrow> catalog \<Rightarrow> catalog" where
  "activated i c =
     (case Index c i of
        None \<Rightarrow> c\<lparr>cat_ActiveID := i\<rparr>
      | Some k \<Rightarrow> c\<lparr>cat_ActiveID := i,
          cat_Profiles := (cat_Profiles c)[k := (cat_Profiles c ! k)\<lparr>pf_Enabled := True\<rparr>]\<rparr>)"

definition CommitRefreshAndActivate ::
  "catalog_env \<Rightarrow> file_io \<Rightarrow> file_io \<Rightarrow> int \<Rightarrow> prepared_refresh \<Rightarrow> service
   \<Rightarrow> (receipt \<times> go_error option) \<times> service" where
  "CommitRefreshAndActivate env io io2 now prepared s =
     (case commitRefreshLocked env io now prepared (ss_catalog s) True
        (s\<lparr>ss_catalog := activated (pr_profileID prepared) (ss_catalog s)\<rparr>) of
        ((r, err), s') \<Rightarrow> settleSetupCommitLocked env io2 r err s')"

section \<open>create.go\<close>

record prepared_add =
  pa_profile :: profile
  pa_refresh :: prepared_refresh

definition PrepareAdd ::
  "catalog_env \<Rightarrow> decoder \<Rightarrow> (document \<Rightarrow> string \<Rightarrow> document) \<Rightarrow> downloader \<Rightarrow> local_io
   \<Rightarrow> go_error + nat list \<Rightarrow> string \<Rightarrow> string \<Rightarrow> string \<Rightarrow> go_error + prepared_add" where
  "PrepareAdd env decode resolve download l rand name source mode =
     (case newProfileID rand of
        Inl e \<Rightarrow> Inl e
      | Inr i \<Rightarrow>
     (case Normalize env (Catalog.Defaults\<lparr>cat_Profiles := [new_profile i name source mode]\<rparr>) of
        (_, Some e) \<Rightarrow> Inl e
      | (c, None) \<Rightarrow>
          let p = hd (cat_Profiles c) in
     (case fetch download l p of
        Inl e \<Rightarrow> Inl e
      | Inr result \<Rightarrow>
          if fr_NotModified result
          then Inl (data_error ''new subscription returned not-modified without a cache'')
          else
     (case ParseDocument decode (fr_Content result) of
        Inl e \<Rightarrow> Inl e
      | Inr d \<Rightarrow>
          Inr \<lparr>pa_profile = p, pa_refresh = \<lparr>pr_profileID = i, pr_profileVersion = 1,
             pr_profile = zero_profile, pr_result = result,
             pr_document = resolve d (fr_BaseDir result)\<rparr>\<rparr>))))"

definition commitAdd ::
  "catalog_env \<Rightarrow> file_io \<Rightarrow> file_io \<Rightarrow> int \<Rightarrow> prepared_add \<Rightarrow> bool \<Rightarrow> service
   \<Rightarrow> (receipt \<times> go_error option) \<times> service" where
  "commitAdd env io io2 now prepared activate s =
     (let before = ss_catalog s;
          c1 = before\<lparr>cat_Profiles := cat_Profiles before @ [pa_profile prepared]\<rparr>;
          c2 = (if activate then c1\<lparr>cat_ActiveID := pf_ID (pa_profile prepared)\<rparr> else c1) in
      case commitRefreshLocked env io now (pa_refresh prepared) before activate (s\<lparr>ss_catalog := c2\<rparr>) of
        ((r, err), s') \<Rightarrow>
          if activate then settleSetupCommitLocked env io2 r err s'
          else (case err of Some e \<Rightarrow> ((zero_receipt, err), s') | None \<Rightarrow> ((r, err), s')))"

section \<open>Rolling back and reading\<close>

definition Rollback :: "catalog_env \<Rightarrow> file_io \<Rightarrow> receipt \<Rightarrow> service \<Rightarrow> go_error option \<times> service" where
  "Rollback env io r s =
     (case restoreCache io (rc_cacheBefore r) (rc_hadCache r) (rc_wroteCache r) (ss_caches s (rc_cachePath r)) of
        (Some e, file) \<Rightarrow> (Some e, s\<lparr>ss_caches := (ss_caches s)(rc_cachePath r := file)\<rparr>)
      | (None, file) \<Rightarrow>
          let s1 = s\<lparr>ss_caches := (ss_caches s)(rc_cachePath r := file)\<rparr> in
          (case Save env (io_save io) (rc_Before r) (ss_disk s1) of
             (Some e, disk) \<Rightarrow> (Some e, s1\<lparr>ss_disk := disk\<rparr>)
           | (None, disk) \<Rightarrow> (None, s1\<lparr>ss_disk := disk,
               ss_catalog := (rc_Before r)\<lparr>cat_Profiles := saved_profiles env (rc_Before r)\<rparr>\<rparr>)))"

definition Restore :: "catalog_env \<Rightarrow> write_outcome \<Rightarrow> catalog \<Rightarrow> service \<Rightarrow> go_error option \<times> service" where
  "Restore env out c s =
     (case Save env out c (ss_disk s) of
        (Some e, disk) \<Rightarrow> (Some e, s\<lparr>ss_disk := disk\<rparr>)
      | (None, disk) \<Rightarrow> (None, s\<lparr>ss_disk := disk, ss_catalog := c\<lparr>cat_Profiles := saved_profiles env c\<rparr>\<rparr>))"

definition ReadCache ::
  "decoder \<Rightarrow> (document \<Rightarrow> string \<Rightarrow> document) \<Rightarrow> string option \<Rightarrow> string \<Rightarrow> service
   \<Rightarrow> string \<times> (go_error + document)" where
  "ReadCache decode resolve fault i s =
     (if \<not> profileIDPattern i then ([], Inl notFoundError)
      else case read_file fault (ss_caches s (CachePath s i)) of
        Inl e \<Rightarrow> ([], Inl (Failure (api CodeDataFailure ''subscription cache is unavailable'') (Some e)))
      | Inr content \<Rightarrow>
          (content,
           case ParseDocument decode content of
             Inl e \<Rightarrow> Inl e
           | Inr d \<Rightarrow>
               (case Index (ss_catalog s) i of
                  None \<Rightarrow> Inr d
                | Some k \<Rightarrow> Inr (resolve d (pf_CacheBaseDir (cat_Profiles (ss_catalog s) ! k))))))"

definition ReprepareSetupRefresh ::
  "(service \<Rightarrow> (go_error + prepared_refresh) \<times> service) \<Rightarrow> prepared_refresh \<Rightarrow> service
   \<Rightarrow> (go_error + prepared_refresh) \<times> service" where
  "ReprepareSetupRefresh prepare prepared s =
     (case Index (ss_catalog s) (pr_profileID prepared) of
        None \<Rightarrow> (Inl notFoundError, s)
      | Some k \<Rightarrow>
          let current = cat_Profiles (ss_catalog s) ! k; old = pr_profile prepared in
          if pf_URL current \<noteq> pf_URL old \<or> pf_ProxyMode current \<noteq> pf_ProxyMode old
          then (Inl (Api (api CodeInvalidState
            ''selected subscription source changed; review the subscription before retrying setup'')), s)
          else if fr_NotModified (pr_result prepared) \<and>
            (pf_Generation current \<noteq> pf_Generation old \<or> pf_CacheBaseDir current \<noteq> pf_CacheBaseDir old)
          then (case prepare s of
                  (Inl e, s') \<Rightarrow> (Inl e, s')
                | (Inr nxt, s') \<Rightarrow>
                    if pf_URL (pr_profile nxt) \<noteq> pf_URL old \<or> pf_ProxyMode (pr_profile nxt) \<noteq> pf_ProxyMode old
                    then (Inl (Api (api CodeInvalidState
                      ''selected subscription source changed during setup refresh'')), s')
                    else (Inr nxt, s'))
          else (Inr (prepared\<lparr>pr_profileVersion := pf_Version current, pr_profile := current\<rparr>), s))"

text \<open>\<open>Open\<close>: the directory is made, the catalog loaded or created.\<close>

definition service_Open ::
  "catalog_env \<Rightarrow> go_error option \<Rightarrow> file_io \<Rightarrow> string \<Rightarrow> string option \<Rightarrow> (string \<Rightarrow> string option)
   \<Rightarrow> (go_error + service) \<times> string option" where
  "service_Open env mkdir io dir disk caches =
     (case mkdir of
        Some e \<Rightarrow> (Inl (Failure (api CodeDataFailure ''create subscription cache directory'') (Some e)), disk)
      | None \<Rightarrow>
          (case LoadOrCreate env (io_open io) (io_stat io) (io_save io) disk of
             (Inl e, disk') \<Rightarrow> (Inl e, disk')
           | (Inr c, disk') \<Rightarrow>
               (Inr \<lparr>ss_catalog = c, ss_disk = disk', ss_caches = caches, ss_cacheDir = dir\<rparr>, disk')))"

section \<open>Errors that are not degraded\<close>

definition outcome_plain :: "write_outcome \<Rightarrow> bool" where
  "outcome_plain out = (case out of Written \<Rightarrow> True | WrittenWarn e \<Rightarrow> \<not> degraded e | NotWritten e \<Rightarrow> \<not> degraded e)"

text \<open>The errors of the file system carry no API error that reports degradation.\<close>

definition io_plain :: "file_io \<Rightarrow> bool" where
  "io_plain io \<longleftrightarrow> outcome_plain (io_write io) \<and> outcome_plain (io_restore io) \<and>
     outcome_plain (io_save io) \<and> outcome_plain (io_save_back io)"

lemma degraded_simps [simp]:
  "degraded (Errorf m e) = degraded e"
  "degraded (Failure a c) = (map_of (err_details a) ''degraded'' = Some (DBool True))"
  "degraded (subscriptionRollbackError e True)" "subscriptionRollbackError e False = e"
  "\<not> degraded (dataError m cs)" "\<not> degraded (Opaque x)"
  by (simp_all add: degraded_def subscriptionRollbackError_def api_def)

lemma degraded_Joined: "\<not> degraded a \<Longrightarrow> \<not> degraded b \<Longrightarrow> \<not> degraded (Joined [a, b])"
  by (auto simp: degraded_def split: option.splits)

lemma not_degraded_ErrRefreshChanged [simp]: "\<not> degraded ErrRefreshChanged"
  by (simp add: ErrRefreshChanged_def degraded_def api_def)

lemma check_profile_data:
  assumes "check_profile env p = Some e" shows "\<not> degraded e"
proof -
  have "validateSource env x = Some e \<Longrightarrow> \<not> degraded e" for x
    by (auto simp: validateSource_def split: if_splits sum.splits)
  moreover have "parseInterval env x = Inl e \<Longrightarrow> \<not> degraded e" for x
    by (auto simp: parseInterval_def split: if_splits sum.splits)
  ultimately show ?thesis using assms
    by (auto simp: check_profile_def split: if_splits option.splits sum.splits)
qed

lemma normalize_profiles_data:
  "normalize_profiles env seen ps = (qs, Some e) \<Longrightarrow> \<not> degraded e"
proof (induction ps arbitrary: seen qs)
  case (Cons p ps)
  obtain q e1 where n: "normalize_profile env seen p = (q, e1)" by fastforce
  show ?case
  proof (cases e1)
    case None
    then show ?thesis using Cons n by (auto split: prod.splits)
  next
    case (Some x)
    then have "e = x" using Cons.prems n by simp
    then show ?thesis using n Some check_profile_data [of env _ x]
      by (auto simp: normalize_profile_def Let_def split: if_splits)
  qed
qed simp

lemma canonical_catalog_data:
  assumes "canonical_catalog env c = Inl e" shows "\<not> degraded e"
  using assms normalize_profiles_data [of env "[]" "cat_Profiles c" _ e]
  by (auto simp: canonical_catalog_def Normalize_def parseInterval_def
        split: if_splits sum.splits prod.splits option.splits)

lemma put_atomic_plain: "outcome_plain out \<Longrightarrow> put_atomic out content old = (Some e, new) \<Longrightarrow> \<not> degraded e"
  by (auto simp: put_atomic_def put_with_commit_def outcome_plain_def split: write_outcome.splits)

lemma Save_plain: "outcome_plain out \<Longrightarrow> Save env out c disk = (Some e, disk') \<Longrightarrow> \<not> degraded e"
  using canonical_catalog_data put_atomic_plain by (fastforce simp: Save_def split: sum.splits)

section \<open>Saving and restoring\<close>

definition on_disk :: "catalog_env \<Rightarrow> string option \<Rightarrow> catalog \<Rightarrow> bool" where
  "on_disk env disk c \<longleftrightarrow> Load env None None disk = Inr c"

definition fits :: "catalog_env \<Rightarrow> catalog \<Rightarrow> bool" where
  "fits env c \<longleftrightarrow> (case ce_marshal env c of Inl _ \<Rightarrow> True | Inr content \<Rightarrow> length content \<le> maxCatalogSize)"

lemma Load_ok: "Load env oe se disk = Inr c \<Longrightarrow> catalog_ok env c \<and> on_disk env disk c"
  using canonical_catalog_sound
  by (fastforce simp: Load_def on_disk_def split: option.splits if_splits sum.splits prod.splits)

lemma Save_None:
  assumes "Save env out c disk = (None, disk')" "catalog_ok env c"
  shows "\<exists>content. ce_marshal env c = Inr content \<and> disk' = Some content"
proof -
  have "canonical_catalog env c = Inr c" by (rule canonical_catalog_fixed [OF assms(2)])
  with assms(1) show ?thesis
    by (auto simp: Save_def put_atomic_def put_with_commit_def split: sum.splits write_outcome.splits)
qed

lemma Save_None_on_disk:
  assumes "Save env out c disk = (None, disk')" "catalog_ok env c" "fits env c" "file_sound env"
  shows "on_disk env disk' c"
  using Save_None [OF assms(1,2)] Load_marshalled [OF assms(4,2)] assms(3)
  by (auto simp: on_disk_def fits_def)

definition was_cached :: "string \<Rightarrow> bool \<Rightarrow> string option" where
  "was_cached content existed = (if existed then Some content else None)"

lemma restore_committed:
  assumes "restoreCacheWithCommit io content existed changed file = ((restored, err), file')"
  shows "(restored \<longrightarrow> file' = (if changed then was_cached content existed else file)) \<and>
    (err = None \<longrightarrow> restored) \<and> (\<not> restored \<longrightarrow> file' = file)"
  using assms
  by (auto simp: restoreCacheWithCommit_def put_with_commit_def no_commit_def was_cached_def
        split: if_splits option.splits write_outcome.splits)

lemma failAfterRestore_setup:
  assumes "failAfterRestore io e content existed changed True file = (e', file')"
  shows "degraded e' \<or> e' = e \<and> file' = (if changed then was_cached content existed else file)"
proof -
  obtain b err f where r: "restoreCacheWithCommit io content existed changed file = ((b, err), f)"
    by (metis surj_pair)
  show ?thesis
    using assms restore_committed [OF r]
    by (cases err) (auto simp: failAfterRestore_def restoreCache_def r)
qed

section \<open>A setup commit\<close>

text \<open>What \<open>commitRefreshLocked\<close> does for a setup (\<open>setup\<close> true), in the four ways it can
  end; \<open>commit_step\<close> collects what a success or a retained catalog leaves behind.\<close>

definition commit_step :: "catalog_env \<Rightarrow> prepared_refresh \<Rightarrow> catalog \<Rightarrow> service \<Rightarrow> receipt \<Rightarrow> service \<Rightarrow> bool" where
  "commit_step env prepared before s r s' \<longleftrightarrow>
     rc_Before r = before \<and> ss_catalog s' = rc_After r \<and> catalog_ok env (rc_After r) \<and>
     rc_profileID r = pr_profileID prepared \<and> pr_profileID prepared \<noteq> [] \<and>
     rc_cachePath r = CachePath s (pr_profileID prepared) \<and>
     was_cached (rc_cacheBefore r) (rc_hadCache r) = ss_caches s (rc_cachePath r) \<and>
     rc_wroteCache r = (\<not> fr_NotModified (pr_result prepared)) \<and>
     ss_caches s' = (ss_caches s)(rc_cachePath r :=
       if rc_wroteCache r then Some (fr_Content (pr_result prepared)) else ss_caches s (rc_cachePath r)) \<and>
     ss_cacheDir s' = ss_cacheDir s"

definition undone :: "catalog_env \<Rightarrow> catalog \<Rightarrow> service \<Rightarrow> service \<Rightarrow> bool" where
  "undone env before s s' \<longleftrightarrow>
     ss_catalog s' = before \<and> on_disk env (ss_disk s') before \<and> ss_caches s' = ss_caches s \<and>
     ss_cacheDir s' = ss_cacheDir s"

lemma refreshed_profile_ID [simp]: "pf_ID (refreshed_profile now result p) = pf_ID p"
  by (auto simp: refreshed_profile_def Let_def split: prod.split bool.split)

lemma update_self: "f(x := f x) = f"
  by simp

lemma read_before: "cache_before io file = Inr (content, existed) \<Longrightarrow> was_cached content existed = file"
  by (auto simp: cache_before_def read_file_def was_cached_def split: option.splits)

text \<open>The branch after the new catalog could not be saved.\<close>

lemma commit_save_failed_setup:
  assumes "commit_save_failed env io True err0 r disk file = (((r', e), kept), (disk', file'))"
    and "\<not> degraded err0" "io_plain io" "catalog_ok env (rc_Before r)" "fits env (rc_Before r)" "file_sound env"
    and "rc_wroteCache r \<or> file = was_cached (rc_cacheBefore r) (rc_hadCache r)"
  shows "degraded e \<and> r' = zero_receipt \<and> kept = None \<or>
    \<not> degraded e \<and> r' = zero_receipt \<and> kept = None \<and> on_disk env disk' (rc_Before r) \<and>
      file' = was_cached (rc_cacheBefore r) (rc_hadCache r) \<or>
    \<not> degraded e \<and> r' = r \<and> kept = Some (rc_After r) \<and> on_disk env disk' (rc_After r) \<and> file' = file"
proof -
  have undo: "degraded e \<or> e = err \<and> file'' = was_cached (rc_cacheBefore r) (rc_hadCache r)"
    if "failAfterRestore io err (rc_cacheBefore r) (rc_hadCache r) (rc_wroteCache r) True file = (e, file'')" for err e file''
    using failAfterRestore_setup [OF that] assms(7) by auto
  obtain se d1 where sv: "Save env (io_save_back io) (rc_Before r) disk = (se, d1)" by fastforce
  show ?thesis
  proof (cases se)
    case None
    then have "on_disk env d1 (rc_Before r)" using Save_None_on_disk sv assms(4,5,6) by blast
    then show ?thesis using assms(1,2) None sv undo
      by (auto simp: commit_save_failed_def Let_def split: prod.splits)
  next
    case (Some restoreErr)
    let ?err = "Joined [err0, Errorf ''restore subscription catalog: '' restoreErr]"
    have "\<not> degraded restoreErr"
      using Save_plain [of "io_save_back io"] sv Some assms(3) by (auto simp: io_plain_def)
    then have nd: "\<not> degraded ?err" using assms(2) by (intro degraded_Joined) simp_all
    show ?thesis
    proof (cases "Load env (io_open io) (io_stat io) d1")
      case (Inl x)
      then show ?thesis using assms(1) Some sv by (auto simp: commit_save_failed_def Let_def)
    next
      case (Inr durable)
      note ld = Load_ok [OF Inr]
      then show ?thesis using assms(1) Some sv Inr nd undo [of ?err]
        by (auto simp: commit_save_failed_def Let_def split: if_splits prod.splits)
    qed
  qed
qed

text \<open>One retry of the success branch: the pieces of a commit that reached \<open>saveCatalog\<close>.\<close>

lemma after_facts:
  assumes "canonical_catalog env ((ss_catalog s)\<lparr>cat_Profiles := (cat_Profiles (ss_catalog s))
      [k := refreshed_profile now result (cat_Profiles (ss_catalog s) ! k)]\<rparr>) = Inr after"
    and "Index (ss_catalog s) i = Some k"
  shows "catalog_ok env after \<and> i \<noteq> []"
proof -
  let ?ps = "(cat_Profiles (ss_catalog s))[k := refreshed_profile now result (cat_Profiles (ss_catalog s) ! k)]"
  have k: "k < length (cat_Profiles (ss_catalog s))" "pf_ID (cat_Profiles (ss_catalog s) ! k) = i"
    using Index_Some [OF assms(2)] by auto
  have "?ps ! k \<in> set ?ps" using k(1) by (intro nth_mem) simp
  then have "profile_wf env (?ps ! k)"
    using canonical_catalog_Inr(1) [OF assms(1)] by (auto simp: catalog_wf_def)
  then have "pf_ID (?ps ! k) \<noteq> []" by (rule wf_ID_nonempty)
  then show ?thesis using k canonical_catalog_sound [OF assms(1)] by simp
qed

text \<open>The four ways a setup commit can end before it is settled.\<close>

definition commit_ends ::
  "catalog_env \<Rightarrow> prepared_refresh \<Rightarrow> catalog \<Rightarrow> service \<Rightarrow> receipt \<Rightarrow> go_error option \<Rightarrow> service \<Rightarrow> bool" where
  "commit_ends env prepared before s r err s' \<longleftrightarrow>
     err = None \<and> commit_step env prepared before s r s' \<and>
       (\<exists>content. ce_marshal env (rc_After r) = Inr content \<and> ss_disk s' = Some content) \<or>
     (\<exists>e. err = Some e \<and> degraded e \<and> r = zero_receipt) \<or>
     (\<exists>e. err = Some e \<and> \<not> degraded e \<and> r = zero_receipt \<and> undone env before s s') \<or>
     (\<exists>e. err = Some e \<and> \<not> degraded e \<and> commit_step env prepared before s r s' \<and>
        on_disk env (ss_disk s') (rc_After r))"

lemma commit_catalog_setup:
  assumes c: "commit_catalog env io now prepared before True k cb had nf s = ((r, err), s')"
    and env: "file_sound env" "io_plain io" and disk: "on_disk env (ss_disk s) before" "fits env before"
    and k: "Index (ss_catalog s) (pr_profileID prepared) = Some k"
    and old: "was_cached cb had = ss_caches s (CachePath s (pr_profileID prepared))"
    and fl: "nf = (if \<not> fr_NotModified (pr_result prepared) then Some (fr_Content (pr_result prepared))
      else ss_caches s (CachePath s (pr_profileID prepared)))"
  shows "commit_ends env prepared before s r err s'"
proof -
  let ?i = "pr_profileID prepared" and ?res = "pr_result prepared"
  let ?path = "CachePath s ?i" and ?wrote = "\<not> fr_NotModified ?res"
  let ?after0 = "(ss_catalog s)\<lparr>cat_Profiles := (cat_Profiles (ss_catalog s))
    [k := refreshed_profile now ?res (cat_Profiles (ss_catalog s) ! k)]\<rparr>"
  have okb: "catalog_ok env before" using disk Load_ok by (auto simp: on_disk_def)
  have sp: "before\<lparr>cat_Profiles := saved_profiles env before\<rparr> = before" using okb by simp
  show ?thesis
  proof (cases "canonical_catalog env ?after0")
    case (Inl x)
    obtain e' nf' where fa: "failAfterRestore io x cb had ?wrote True nf = (e', nf')" by fastforce
    then have f: "degraded e' \<or> \<not> degraded e' \<and> nf' = ss_caches s ?path"
      using failAfterRestore_setup [OF fa] old fl by (auto split: if_splits)
    have "r = zero_receipt" "err = Some e'" "s' = s\<lparr>ss_catalog := before, ss_caches := (ss_caches s)(?path := nf')\<rparr>"
      using c fa Inl by (simp_all add: commit_catalog_def Let_def)
    then show ?thesis using f disk by (auto simp: undone_def commit_ends_def)
  next
    case (Inr after)
    note af = after_facts [OF Inr k]
    let ?r = "\<lparr>rc_Before = before, rc_After = after, rc_cachePath = ?path, rc_cacheBefore = cb,
        rc_hadCache = had, rc_wroteCache = ?wrote, rc_profileID = ?i\<rparr>"
    obtain se d1 where sv: "Save env (io_save io) after (ss_disk s) = (se, d1)" by fastforce
    show ?thesis
    proof (cases se)
      case None
      have "r = ?r" "err = None"
        "s' = s\<lparr>ss_catalog := after, ss_disk := d1, ss_caches := (ss_caches s)(?path := nf)\<rparr>"
        using c Inr sv None by (simp_all add: commit_catalog_def Let_def)
      then show ?thesis using af fl old Save_None [OF sv [unfolded None]]
        by (auto simp: commit_step_def commit_ends_def)
    next
      case (Some e0)
      have nd: "\<not> degraded e0" using Save_plain sv Some env(2) by (auto simp: io_plain_def)
      obtain r' e' kept d2 nf' where cf: "commit_save_failed env io True e0 ?r d1 nf = (((r', e'), kept), (d2, nf'))"
        by (metis surj_pair)
      have eq: "r = r'" "err = Some e'"
        "s' = s\<lparr>ss_catalog := (case kept of None \<Rightarrow> before | Some c \<Rightarrow> c), ss_disk := d2,
           ss_caches := (ss_caches s)(?path := nf')\<rparr>"
        using c Inr sv Some cf sp by (simp_all add: commit_catalog_def Let_def)
      have "?wrote \<or> nf = was_cached cb had" using fl old by auto
      from commit_save_failed_setup [OF cf nd env(2)] okb disk(2) env(1) this
      show ?thesis using eq af fl old by (auto simp: commit_step_def undone_def commit_ends_def)
    qed
  qed
qed

lemma commit_locked_setup:
  assumes c: "commitRefreshLocked env io now prepared before True s = ((r, err), s')"
    and env: "file_sound env" "io_plain io" and disk: "on_disk env (ss_disk s) before" "fits env before"
  shows "commit_ends env prepared before s r err s'"
proof -
  let ?i = "pr_profileID prepared" and ?res = "pr_result prepared"
  let ?file0 = "ss_caches s (CachePath s ?i)"
  let ?read = "cache_before io ?file0"
  show ?thesis
  proof (cases "\<exists>k. Index (ss_catalog s) ?i = Some k \<and>
      pf_Version (cat_Profiles (ss_catalog s) ! k) = pr_profileVersion prepared \<and> (\<exists>b. ?read = Inr b)")
    case False
    then show ?thesis using c disk
      by (auto simp: commitRefreshLocked_def Let_def undone_def commit_ends_def api_def
            split: option.splits if_splits sum.splits)
  next
    case True
    then obtain k cb had where k: "Index (ss_catalog s) ?i = Some k"
      "pf_Version (cat_Profiles (ss_catalog s) ! k) = pr_profileVersion prepared"
      and b: "?read = Inr (cb, had)" by auto
    have old: "was_cached cb had = ?file0" using read_before [OF b] .
    obtain we nf where w: "(if \<not> fr_NotModified ?res then put_atomic (io_write io) (fr_Content ?res) ?file0
        else (None, ?file0)) = (we, nf)" by fastforce
    show ?thesis
    proof (cases we)
      case (Some x)
      obtain e' nf' where fa: "failAfterRestore io x cb had True True nf = (e', nf')" by fastforce
      have f: "degraded e' \<or> nf' = ?file0" using failAfterRestore_setup [OF fa] old by auto
      show ?thesis using c k b w Some fa f disk
        by (auto simp: commitRefreshLocked_def Let_def undone_def commit_ends_def api_def split: if_splits)
    next
      case None
      then have fl: "nf = (if \<not> fr_NotModified ?res then Some (fr_Content ?res) else ?file0)"
        using w put_atomic_new by (fastforce split: if_splits)
      have "commit_catalog env io now prepared before True k cb had nf s = ((r, err), s')"
        using c k b w None by (simp add: commitRefreshLocked_def Let_def)
      from commit_catalog_setup [OF this env disk k(1) old fl] show ?thesis .
    qed
  qed
qed

lemma settle_setup:
  assumes st: "settleSetupCommitLocked env io r err s1 = ((r2, err2), s2)"
    and ends: "commit_ends env prepared before s r err s1"
    and env: "file_sound env" "io_plain io" and b: "catalog_ok env before" "fits env before"
  shows "err2 = None \<and> err = None \<and> r2 = r \<and> s2 = s1 \<or>
    (\<exists>e. err2 = Some e \<and> (degraded e \<or> undone env before s s2))"
proof (cases "\<exists>e. err = Some e \<and> rc_profileID r \<noteq> []")
  case False
  then have "r2 = r \<and> err2 = err \<and> s2 = s1"
    using st by (auto simp: settleSetupCommitLocked_def split: option.splits if_splits)
  then show ?thesis using False ends
    by (auto simp: commit_ends_def commit_step_def zero_receipt_def)
next
  case True
  then obtain e where e: "err = Some e" "rc_profileID r \<noteq> []" by blast
  then have cs: "commit_step env prepared before s r s1" and nd: "\<not> degraded e"
    using ends by (auto simp: commit_ends_def zero_receipt_def)
  let ?path = "rc_cachePath r"
  have bf: "(rc_Before r)\<lparr>cat_Profiles := saved_profiles env (rc_Before r)\<rparr> = before" "rc_Before r = before"
    using cs b by (simp_all add: commit_step_def)
  show ?thesis
  proof (cases "if rc_wroteCache r then read_file (io_read io) (ss_caches s1 ?path) else Inr []")
    case (Inl x)
    then show ?thesis using st e by (auto simp: settleSetupCommitLocked_def Let_def)
  next
    case (Inr cacheAfter)
    obtain restored cerr nf where rs: "restoreCacheWithCommit io (rc_cacheBefore r) (rc_hadCache r)
        (rc_wroteCache r) (ss_caches s1 ?path) = ((restored, cerr), nf)" by (metis surj_pair)
    obtain se d1 where sv: "Save env (io_save io) before (ss_disk s1) = (se, d1)" by fastforce
    show ?thesis
    proof (cases "restored \<and> cerr = None \<and> se = None")
      case True
      then have "err2 = Some e" "s2 = s1\<lparr>ss_caches := (ss_caches s1)(?path := nf), ss_disk := d1, ss_catalog := before\<rparr>"
        using st e Inr rs sv bf by (simp_all add: settleSetupCommitLocked_def Let_def)
      moreover have "on_disk env d1 before" using Save_None_on_disk sv True b env(1) by blast
      moreover have "nf = ss_caches s ?path"
        using restore_committed [OF rs] True cs by (auto simp: commit_step_def split: if_splits)
      ultimately show ?thesis using cs by (auto simp: undone_def commit_step_def)
    next
      case False
      then have "\<exists>x. err2 = Some x \<and> degraded x"
        using st e Inr rs sv bf restore_committed [OF rs]
        by (auto simp: settleSetupCommitLocked_def Let_def split: option.splits if_splits sum.splits prod.splits)
      then show ?thesis by blast
    qed
  qed
qed

section \<open>A commit that succeeds\<close>

lemma Index_cong: "map pf_ID (cat_Profiles c) = map pf_ID (cat_Profiles d) \<Longrightarrow> Index c i = Index d i"
proof -
  have f: "find_index (\<lambda>p. pf_ID p = i) ps = find_index (\<lambda>x. x = i) (map pf_ID ps)" for ps
    by (simp add: find_index_map)
  assume "map pf_ID (cat_Profiles c) = map pf_ID (cat_Profiles d)"
  then show ?thesis unfolding Index_def f by simp
qed

lemma refreshed_profile_fields:
  "pf_Version (refreshed_profile now result p) = pf_Version p + 1"
  "pf_Name (refreshed_profile now result p) = pf_Name p"
  "pf_URL (refreshed_profile now result p) = pf_URL p"
  "pf_CacheURL (refreshed_profile now result p) = pf_URL p"
  "pf_LastError (refreshed_profile now result p) = []"
  "pf_Generation (refreshed_profile now result p) = (if fr_NotModified result then pf_Generation p else pf_Generation p + 1)"
  by (auto simp: refreshed_profile_def Let_def split: prod.split bool.split)

lemma refreshed_canonical: "profile_canonical p \<Longrightarrow> profile_canonical (refreshed_profile now result p)"
  by (simp add: profile_canonical_def refreshed_profile_fields)

text \<open>The state a success leaves.\<close>

lemma commit_success:
  assumes "commitRefreshLocked env io now prepared before setup s = ((r, None), s')"
  obtains k cb had after disk content where
    "Index (ss_catalog s) (pr_profileID prepared) = Some k"
    "pf_Version (cat_Profiles (ss_catalog s) ! k) = pr_profileVersion prepared"
    "was_cached cb had = ss_caches s (CachePath s (pr_profileID prepared))"
    "canonical_catalog env ((ss_catalog s)\<lparr>cat_Profiles := (cat_Profiles (ss_catalog s))
       [k := refreshed_profile now (pr_result prepared) (cat_Profiles (ss_catalog s) ! k)]\<rparr>) = Inr after"
    "r = \<lparr>rc_Before = before, rc_After = after, rc_cachePath = CachePath s (pr_profileID prepared),
       rc_cacheBefore = cb, rc_hadCache = had, rc_wroteCache = (\<not> fr_NotModified (pr_result prepared)),
       rc_profileID = pr_profileID prepared\<rparr>"
    "ce_marshal env after = Inr content" "disk = Some content"
    "s' = s\<lparr>ss_catalog := after, ss_disk := disk, ss_caches := (ss_caches s)
       (CachePath s (pr_profileID prepared) := if fr_NotModified (pr_result prepared)
          then ss_caches s (CachePath s (pr_profileID prepared)) else Some (fr_Content (pr_result prepared)))\<rparr>"
proof -
  let ?path = "CachePath s (pr_profileID prepared)" and ?res = "pr_result prepared"
  obtain k cb had nf where k: "Index (ss_catalog s) (pr_profileID prepared) = Some k"
    "pf_Version (cat_Profiles (ss_catalog s) ! k) = pr_profileVersion prepared"
    and rd: "cache_before io (ss_caches s ?path) = Inr (cb, had)"
    and w: "(if \<not> fr_NotModified ?res then put_atomic (io_write io) (fr_Content ?res) (ss_caches s ?path)
        else (None, ss_caches s ?path)) = (None, nf)"
    and cc: "commit_catalog env io now prepared before setup k cb had nf s = ((r, None), s')"
    using assms by (auto simp: commitRefreshLocked_def Let_def split: option.splits if_splits sum.splits prod.splits)
  obtain after disk where a: "canonical_catalog env ((ss_catalog s)\<lparr>cat_Profiles := (cat_Profiles (ss_catalog s))
       [k := refreshed_profile now ?res (cat_Profiles (ss_catalog s) ! k)]\<rparr>) = Inr after"
    and sv: "Save env (io_save io) after (ss_disk s) = (None, disk)"
    and r: "r = \<lparr>rc_Before = before, rc_After = after, rc_cachePath = ?path,
       rc_cacheBefore = cb, rc_hadCache = had, rc_wroteCache = (\<not> fr_NotModified ?res),
       rc_profileID = pr_profileID prepared\<rparr>"
    and s': "s' = s\<lparr>ss_catalog := after, ss_disk := disk, ss_caches := (ss_caches s)(?path := nf)\<rparr>"
    using cc by (auto simp: commit_catalog_def Let_def split: sum.splits prod.splits option.splits)
  have "nf = (if fr_NotModified ?res then ss_caches s ?path else Some (fr_Content ?res))"
    using w put_atomic_new by (fastforce split: if_splits)
  then show ?thesis
    using that [OF k read_before [OF rd] a r] Save_None [OF sv canonical_catalog_sound [OF a]] s' by auto
qed

text \<open>On a canonical catalog only the refreshed profile changes.\<close>

lemma commit_success_profiles:
  assumes "catalog_ok env c" "k < length (cat_Profiles c)"
    and "canonical_catalog env (c\<lparr>cat_Profiles := (cat_Profiles c)[k := refreshed_profile now res (cat_Profiles c ! k)]\<rparr>) = Inr after"
  shows "cat_Profiles after = (cat_Profiles c)[k := refreshed_profile now res (cat_Profiles c ! k)]"
proof -
  have "\<forall>p \<in> set ((cat_Profiles c)[k := refreshed_profile now res (cat_Profiles c ! k)]). profile_canonical p"
    using assms(1,2) set_update_subset_insert [of "cat_Profiles c" k] refreshed_canonical
    by (fastforce simp: catalog_ok_def)
  then show ?thesis using canonical_catalog_Inr(2) [OF assms(3)]
    by (simp add: canonical_profile_fixed map_idI)
qed

section \<open>Mutations\<close>

lemma Mutate_cases:
  assumes "Mutate env out f s = (((b, a), err), s')"
  obtains (rejected) e where "err = Some e" "s' = s"
  | (unsaved) after0 after e disk where "f (ss_catalog s) = (after0, None)" "canonical_catalog env after0 = Inr after"
      "Save env out after (ss_disk s) = (Some e, disk)" "err = Some e" "s' = s\<lparr>ss_disk := disk\<rparr>"
  | (saved) after0 after content where "f (ss_catalog s) = (after0, None)" "canonical_catalog env after0 = Inr after"
      "ce_marshal env after = Inr content" "out = Written" "err = None" "b = ss_catalog s" "a = after"
      "s' = s\<lparr>ss_catalog := after, ss_disk := Some content\<rparr>"
proof -
  obtain after0 fe where f: "f (ss_catalog s) = (after0, fe)" by fastforce
  show ?thesis
  proof (cases "\<exists>after. fe = None \<and> canonical_catalog env after0 = Inr after")
    case False
    then show ?thesis using rejected assms f
      by (auto simp: Mutate_def Let_def split: option.splits sum.splits)
  next
    case True
    then obtain after where t: "fe = None" "canonical_catalog env after0 = Inr after" by blast
    obtain se disk where sv: "Save env out after (ss_disk s) = (se, disk)" by fastforce
    have ca: "canonical_catalog env after = Inr after"
      using catalog_doc.canon_stable [OF t(2)] .
    show ?thesis
    proof (cases se)
      case (Some e)
      then show ?thesis using unsaved [of after0 after e disk] assms f t sv by (simp add: Mutate_def)
    next
      case None
      then obtain content where cn: "ce_marshal env after = Inr content" "out = Written" "disk = Some content"
        using sv ca by (auto simp: Save_def put_atomic_def put_with_commit_def split: sum.splits write_outcome.splits)
      have "err = None" "b = ss_catalog s" "a = after" "s' = s\<lparr>ss_catalog := after, ss_disk := Some content\<rparr>"
        using assms f t sv None cn by (auto simp: Mutate_def)
      then show ?thesis using saved [of after0 after content] f t cn by simp
    qed
  qed
qed

lemma Save_not_written:
  assumes "Save env out c disk = (Some e, disk')" "\<And>w. out \<noteq> WrittenWarn w" shows "disk' = disk"
  using assms by (auto simp: Save_def put_atomic_def put_with_commit_def split: sum.splits write_outcome.splits)

section \<open>A concrete service\<close>

text \<open>A service that adds a subscription to the default catalog and refreshes it; the
  encoder knows the three catalogs it goes through.\<close>

definition demo_id :: string where
  "demo_id = replicate 32 (CHR ''a'')"

definition demo_res :: fetch_result where
  "demo_res = zero_fetch\<lparr>fr_Content := ''proxies: []''\<rparr>"

definition demo_cat1 :: catalog where
  "demo_cat1 = Catalog.Defaults\<lparr>cat_ActiveID := demo_id,
     cat_Profiles := [refreshed_profile 7 demo_res (new_profile demo_id ''home'' ''h'' [])]\<rparr>"

definition demo_cat2 :: catalog where
  "demo_cat2 = demo_cat1\<lparr>cat_Profiles := [refreshed_profile 8 demo_res (hd (cat_Profiles demo_cat1))]\<rparr>"

definition demo_env2 :: catalog_env where
  "demo_env2 = demo_cat_env\<lparr>
     ce_marshal := (\<lambda>c. if c = Catalog.Defaults then Inr ''0'' else if c = demo_cat1 then Inr ''1''
       else if c = demo_cat2 then Inr ''2'' else Inl (Opaque ''yaml'')),
     ce_unmarshal := (\<lambda>t. (if t = ''0'' then Inr Catalog.Defaults else if t = ''1'' then Inr demo_cat1
       else Inr demo_cat2, Some ErrEOF))\<rparr>"

definition demo_io :: file_io where
  "demo_io = \<lparr>io_read = None, io_write = Written, io_restore = Written, io_remove = None,
     io_save = Written, io_save_back = Written, io_open = None, io_stat = None\<rparr>"

definition demo_svc :: service where
  "demo_svc = \<lparr>ss_catalog = Catalog.Defaults, ss_disk = Some ''0'', ss_caches = (\<lambda>_. None), ss_cacheDir = ''c''\<rparr>"

definition demo_svc1 :: service where
  "demo_svc1 = demo_svc\<lparr>ss_catalog := demo_cat1, ss_disk := Some ''1'',
     ss_caches := (\<lambda>_. None)(CachePath demo_svc demo_id := Some ''proxies: []'')\<rparr>"

definition demo_prepared :: prepared_refresh where
  "demo_prepared = \<lparr>pr_profileID = demo_id, pr_profileVersion = 2, pr_profile = zero_profile,
     pr_result = demo_res, pr_document = []\<rparr>"

definition demo_add :: prepared_add where
  "demo_add = \<lparr>pa_profile = new_profile demo_id ''home'' ''h'' [],
     pa_refresh = demo_prepared\<lparr>pr_profileVersion := 1\<rparr>\<rparr>"

lemma demo_id_ok: "profileIDPattern demo_id" "demo_id \<noteq> []"
  by (simp_all add: demo_id_def profileIDPattern_def list_all_iff lower_hex_def)

lemma demo_no_info: "ParseUserInfo [] = (zero_info, False)"
  by (simp add: ParseUserInfo_def Let_def)

lemma demo_refreshed:
  "refreshed_profile t demo_res p = p\<lparr>pf_Generation := pf_Generation p + 1, pf_CacheBaseDir := [],
     pf_Version := pf_Version p + 1, pf_UpdatedAt := t, pf_LastError := [], pf_CacheURL := pf_URL p,
     pf_ScheduleFrom := 0, pf_IntervalRefreshRequired := False\<rparr>"
  by (simp add: refreshed_profile_def demo_res_def zero_fetch_def demo_no_info)

lemma demo_distinct: "Catalog.Defaults \<noteq> demo_cat1" "Catalog.Defaults \<noteq> demo_cat2" "demo_cat1 \<noteq> demo_cat2"
  by (simp_all add: Catalog.Defaults_def demo_cat1_def demo_cat2_def demo_refreshed new_profile_def zero_profile_def)

lemma demo_marshal:
  "ce_marshal demo_env2 Catalog.Defaults = Inr ''0''" "ce_marshal demo_env2 demo_cat1 = Inr ''1''"
  "ce_marshal demo_env2 demo_cat2 = Inr ''2''"
  using demo_distinct by (simp_all add: demo_env2_def)

lemma demo_sound: "file_sound demo_env2"
  by (simp add: file_sound_def demo_env2_def)

lemma demo_plain: "io_plain demo_io"
  by (simp add: io_plain_def demo_io_def outcome_plain_def)

lemma demo_env2_wf:
  "interval_ok demo_env2 ''12h''" "source_ok demo_env2 ''h''" "trim_space ''home'' = ''home''"
proof -
  show "trim_space ''home'' = ''home''" by code_simp
qed (simp_all add: interval_ok_def source_ok_def demo_env2_def demo_cat_env_def IsFileSource_def has_prefix_def)

lemma demo_ok: "catalog_ok demo_env2 Catalog.Defaults" "catalog_ok demo_env2 demo_cat1" "catalog_ok demo_env2 demo_cat2"
  using demo_env2_wf demo_id_ok
  by (simp_all add: catalog_ok_def catalog_wf_def active_ok_def Catalog.Defaults_def demo_cat1_def demo_cat2_def
        demo_refreshed new_profile_def zero_profile_def profile_wf_def profile_canonical_def selectable_def
        IsFileSource_def has_prefix_def)

lemma demo_on_disk:
  "on_disk demo_env2 (Some ''0'') Catalog.Defaults" "on_disk demo_env2 (Some ''1'') demo_cat1"
  "fits demo_env2 Catalog.Defaults" "fits demo_env2 demo_cat1"
  using Load_marshalled [OF demo_sound demo_ok(1) demo_marshal(1)]
    Load_marshalled [OF demo_sound demo_ok(2) demo_marshal(2)]
  by (simp_all add: on_disk_def fits_def demo_marshal maxCatalogSize_def)

lemma demo_save: "catalog_ok demo_env2 c \<Longrightarrow> ce_marshal demo_env2 c = Inr content \<Longrightarrow>
    Save demo_env2 Written c disk = (None, Some content)"
  by (simp add: Save_def canonical_catalog_fixed put_atomic_def put_with_commit_def)

text \<open>The commits of the concrete service.\<close>

lemma demo_cat1_profile: "cat_Profiles demo_cat1 = [refreshed_profile 7 demo_res (new_profile demo_id ''home'' ''h'' [])]"
  by (simp add: demo_cat1_def)

lemma demo_fields:
  "pf_ID (new_profile i n u m) = i" "pf_Version (new_profile i n u m) = 1" "pf_Enabled (new_profile i n u m)"
  "pf_Enabled (refreshed_profile t demo_res p) = pf_Enabled p"
  "fr_NotModified demo_res = False" "fr_Content demo_res = ''proxies: []''"
  by (simp_all add: new_profile_def demo_res_def zero_fetch_def refreshed_profile_def Let_def split: prod.split bool.split)

lemma demo_commit:
  assumes "Index (ss_catalog s) demo_id = Some k" "pf_Version (cat_Profiles (ss_catalog s) ! k) = v"
    and "(ss_catalog s)\<lparr>cat_Profiles := (cat_Profiles (ss_catalog s))
       [k := refreshed_profile now demo_res (cat_Profiles (ss_catalog s) ! k)]\<rparr> = c"
    and "catalog_ok demo_env2 c" "ce_marshal demo_env2 c = Inr content"
  shows "commitRefreshLocked demo_env2 demo_io now (demo_prepared\<lparr>pr_profileVersion := v\<rparr>) before setup s =
    ((\<lparr>rc_Before = before, rc_After = c, rc_cachePath = CachePath s demo_id,
       rc_cacheBefore = (case ss_caches s (CachePath s demo_id) of None \<Rightarrow> [] | Some t \<Rightarrow> t),
       rc_hadCache = (ss_caches s (CachePath s demo_id) \<noteq> None), rc_wroteCache = True, rc_profileID = demo_id\<rparr>, None),
     s\<lparr>ss_catalog := c, ss_disk := Some content,
       ss_caches := (ss_caches s)(CachePath s demo_id \<mapsto> ''proxies: []'')\<rparr>)"
  using assms canonical_catalog_fixed [OF assms(4)]
  by (simp add: commitRefreshLocked_def commit_catalog_def Let_def demo_prepared_def demo_fields
        cache_before_def read_file_def demo_io_def put_atomic_def put_with_commit_def
        demo_save [OF assms(4,5)] split: option.split)

lemma demo_cat2_from: "demo_cat1\<lparr>cat_Profiles := (cat_Profiles demo_cat1)
    [0 := refreshed_profile 8 demo_res (cat_Profiles demo_cat1 ! 0)]\<rparr> = demo_cat2"
  by (simp add: demo_cat2_def demo_cat1_profile)

lemma demo_index: "Index demo_cat1 demo_id = Some 0" "pf_Version (cat_Profiles demo_cat1 ! 0) = 2"
  by (simp_all add: Index_def demo_cat1_profile demo_fields refreshed_profile_fields)

lemma demo_activated: "activated demo_id demo_cat1 = demo_cat1"
  by (simp add: activated_def demo_index demo_cat1_profile)
     (simp add: demo_cat1_def new_profile_def refreshed_profile_def demo_res_def zero_fetch_def demo_no_info)

lemma demo_svc1_fields: "ss_catalog demo_svc1 = demo_cat1" "ss_disk demo_svc1 = Some ''1''"
  by (simp_all add: demo_svc1_def)

section \<open>Properties\<close>

text \<open>
  C9. A setup commit (refresh and activate) is all or nothing across the catalog in
  memory, the catalog file and the cache file, although the two files are replaced one
  after the other and every call may fail, also after it took effect: on success all three
  hold the new generation; an error that does not report degradation means that all three
  are as before. The hypotheses are that memory and file agreed before, that the YAML
  decoder inverts the encoder and that file-system errors are not themselves reports of
  degradation.
\<close>

theorem setup_commit_atomic:
  assumes "CommitRefreshAndActivate env io io2 now prepared s = ((r, err), s')"
    and "file_sound env" and "io_plain io" and "io_plain io2"
    and "on_disk env (ss_disk s) (ss_catalog s)" and "fits env (ss_catalog s)"
  shows "case err of
      None \<Rightarrow> commit_step env prepared (ss_catalog s) s r s' \<and>
        (\<exists>content. ce_marshal env (rc_After r) = Inr content \<and> ss_disk s' = Some content)
    | Some e \<Rightarrow> degraded e \<or> undone env (ss_catalog s) s s'"
proof -
  let ?s = "s\<lparr>ss_catalog := activated (pr_profileID prepared) (ss_catalog s)\<rparr>"
  obtain r1 err1 s1 where c: "commitRefreshLocked env io now prepared (ss_catalog s) True ?s = ((r1, err1), s1)"
    by (metis surj_pair)
  have st: "settleSetupCommitLocked env io2 r1 err1 s1 = ((r, err), s')"
    using assms(1) c by (simp add: CommitRefreshAndActivate_def)
  have ends: "commit_ends env prepared (ss_catalog s) ?s r1 err1 s1"
    by (rule commit_locked_setup [OF c assms(2,3)]) (use assms in simp_all)
  have frame: "commit_step env prepared c ?s r1 s1 = commit_step env prepared c s r1 s1"
    "undone env c ?s s' = undone env c s s'" for c
    by (simp_all add: commit_step_def undone_def CachePath_def)
  have ok: "catalog_ok env (ss_catalog s)" using assms(5) Load_ok by (auto simp: on_disk_def)
  from settle_setup [OF st ends assms(2,4) ok assms(6)] ends frame show ?thesis
    by (auto simp: commit_ends_def split: option.splits)
qed

lemma demo_prepared_v: "demo_prepared\<lparr>pr_profileVersion := 2\<rparr> = demo_prepared"
  by (simp add: demo_prepared_def)

lemma demo_commit1:
  "commitRefreshLocked demo_env2 demo_io 8 demo_prepared demo_cat1 setup demo_svc1 =
    ((\<lparr>rc_Before = demo_cat1, rc_After = demo_cat2, rc_cachePath = CachePath demo_svc1 demo_id,
       rc_cacheBefore = (case ss_caches demo_svc1 (CachePath demo_svc1 demo_id) of None \<Rightarrow> [] | Some t \<Rightarrow> t),
       rc_hadCache = (ss_caches demo_svc1 (CachePath demo_svc1 demo_id) \<noteq> None), rc_wroteCache = True,
       rc_profileID = demo_id\<rparr>, None),
     demo_svc1\<lparr>ss_catalog := demo_cat2, ss_disk := Some ''2'',
       ss_caches := (ss_caches demo_svc1)(CachePath demo_svc1 demo_id \<mapsto> ''proxies: []'')\<rparr>)"
  using demo_commit [of demo_svc1 0 2 8 demo_cat2 "''2''" demo_cat1 "setup"] demo_index demo_cat2_from
    demo_ok(3) demo_marshal(3) demo_prepared_v by (simp add: demo_svc1_fields)

theorem setup_commit_atomic_witness:
  "\<exists>r s'. CommitRefreshAndActivate demo_env2 demo_io demo_io 8 demo_prepared demo_svc1 = ((r, None), s') \<and>
     commit_step demo_env2 demo_prepared demo_cat1 demo_svc1 r s' \<and> ss_disk s' = Some ''2''"
proof -
  have p: "pr_profileID demo_prepared = demo_id" by (simp add: demo_prepared_def)
  have e: "demo_svc1\<lparr>ss_catalog := activated demo_id demo_cat1\<rparr> = demo_svc1"
    unfolding demo_activated by (simp add: demo_svc1_def)
  obtain r s' where c: "CommitRefreshAndActivate demo_env2 demo_io demo_io 8 demo_prepared demo_svc1 = ((r, None), s')"
    and d: "ss_disk s' = Some ''2''"
    by (simp add: CommitRefreshAndActivate_def p e demo_commit1 demo_svc1_fields settleSetupCommitLocked_def)
  from setup_commit_atomic [OF c demo_sound demo_plain demo_plain] demo_on_disk
  show ?thesis using c d by (auto simp: demo_svc1_fields)
qed

text \<open>
  The same for publishing a new subscription and selecting it: all three stores hold
  the new subscription, or none does, or the error reports degradation.
\<close>

theorem setup_add_atomic:
  assumes "commitAdd env io io2 now prepared True s = ((r, err), s')"
    and "file_sound env" and "io_plain io" and "io_plain io2"
    and "on_disk env (ss_disk s) (ss_catalog s)" and "fits env (ss_catalog s)"
  shows "case err of
      None \<Rightarrow> commit_step env (pa_refresh prepared) (ss_catalog s) s r s' \<and>
        (\<exists>content. ce_marshal env (rc_After r) = Inr content \<and> ss_disk s' = Some content)
    | Some e \<Rightarrow> degraded e \<or> undone env (ss_catalog s) s s'"
proof -
  let ?c = "(ss_catalog s)\<lparr>cat_Profiles := cat_Profiles (ss_catalog s) @ [pa_profile prepared],
    cat_ActiveID := pf_ID (pa_profile prepared)\<rparr>"
  let ?s = "s\<lparr>ss_catalog := ?c\<rparr>"
  obtain r1 err1 s1 where c: "commitRefreshLocked env io now (pa_refresh prepared) (ss_catalog s) True ?s = ((r1, err1), s1)"
    by (metis surj_pair)
  have st: "settleSetupCommitLocked env io2 r1 err1 s1 = ((r, err), s')"
    using assms(1) c by (simp add: commitAdd_def Let_def)
  have ends: "commit_ends env (pa_refresh prepared) (ss_catalog s) ?s r1 err1 s1"
    by (rule commit_locked_setup [OF c assms(2,3)]) (use assms in simp_all)
  have frame: "commit_step env p c ?s r1 s1 = commit_step env p c s r1 s1"
    "undone env c ?s s' = undone env c s s'" for c p
    by (simp_all add: commit_step_def undone_def CachePath_def)
  have ok: "catalog_ok env (ss_catalog s)" using assms(5) Load_ok by (auto simp: on_disk_def)
  from settle_setup [OF st ends assms(2,4) ok assms(6)] ends frame show ?thesis
    by (auto simp: commit_ends_def split: option.splits)
qed

theorem setup_add_atomic_witness:
  "\<exists>r s'. commitAdd demo_env2 demo_io demo_io 7 demo_add True demo_svc = ((r, None), s') \<and>
     commit_step demo_env2 (pa_refresh demo_add) Catalog.Defaults demo_svc r s' \<and> ss_disk s' = Some ''1''"
proof -
  let ?s = "demo_svc\<lparr>ss_catalog := Catalog.Defaults\<lparr>cat_Profiles := [pa_profile demo_add], cat_ActiveID := demo_id\<rparr>\<rparr>"
  have f: "pa_refresh demo_add = demo_prepared\<lparr>pr_profileVersion := 1\<rparr>"
    "pa_profile demo_add = new_profile demo_id ''home'' ''h'' []"
    by (simp_all add: demo_add_def)
  have i: "Index (ss_catalog ?s) demo_id = Some 0" "pf_Version (cat_Profiles (ss_catalog ?s) ! 0) = 1"
    by (simp_all add: Index_def f demo_fields)
  have a: "(ss_catalog ?s)\<lparr>cat_Profiles := (cat_Profiles (ss_catalog ?s))
       [0 := refreshed_profile 7 demo_res (cat_Profiles (ss_catalog ?s) ! 0)]\<rparr> = demo_cat1"
    by (simp add: f demo_cat1_def)
  have s: "ss_catalog demo_svc = Catalog.Defaults" "cat_Profiles Catalog.Defaults = []" "ss_disk demo_svc = Some ''0''"
    by (simp_all add: demo_svc_def Catalog.Defaults_def)
  obtain r s' where c: "commitAdd demo_env2 demo_io demo_io 7 demo_add True demo_svc = ((r, None), s')"
    and d: "ss_disk s' = Some ''1''"
    using demo_commit [OF i a demo_ok(2) demo_marshal(2), of Catalog.Defaults True]
    by (simp add: commitAdd_def Let_def s f demo_fields settleSetupCommitLocked_def)
  from setup_add_atomic [OF c demo_sound demo_plain demo_plain] demo_on_disk
  show ?thesis using c d by (auto simp: s)
qed

text \<open>
  C19. What a successful refresh publishes, and that it publishes once: the profile's
  version was the one it was prepared from; exactly that profile changes, to the refreshed
  metadata with version plus one, and its cache file to the fetched bytes (or not at all
  after a not-modified answer); the same or any other refresh prepared from the old
  version is then rejected and changes nothing.
\<close>

theorem refresh_publishes_once:
  assumes "CommitRefresh env io now prepared s = ((r, None), s')" and "catalog_ok env (ss_catalog s)"
  shows "\<exists>k. Index (ss_catalog s) (pr_profileID prepared) = Some k \<and>
    pf_Version (cat_Profiles (ss_catalog s) ! k) = pr_profileVersion prepared \<and>
    cat_Profiles (ss_catalog s') = (cat_Profiles (ss_catalog s))
      [k := refreshed_profile now (pr_result prepared) (cat_Profiles (ss_catalog s) ! k)] \<and>
    ss_caches s' = (ss_caches s)(CachePath s (pr_profileID prepared) :=
      if fr_NotModified (pr_result prepared) then ss_caches s (CachePath s (pr_profileID prepared))
      else Some (fr_Content (pr_result prepared))) \<and>
    catalog_ok env (ss_catalog s') \<and>
    CommitRefresh env io' now' (prepared\<lparr>pr_result := result', pr_document := d'\<rparr>) s' =
      ((zero_receipt, Some ErrRefreshChanged), s')"
proof -
  let ?i = "pr_profileID prepared" and ?c = "ss_catalog s"
  obtain k after disk where k: "Index ?c ?i = Some k" "pf_Version (cat_Profiles ?c ! k) = pr_profileVersion prepared"
    and a: "canonical_catalog env (?c\<lparr>cat_Profiles := (cat_Profiles ?c)
       [k := refreshed_profile now (pr_result prepared) (cat_Profiles ?c ! k)]\<rparr>) = Inr after"
    and s': "s' = s\<lparr>ss_catalog := after, ss_disk := disk, ss_caches := (ss_caches s)
       (CachePath s ?i := if fr_NotModified (pr_result prepared)
          then ss_caches s (CachePath s ?i) else Some (fr_Content (pr_result prepared)))\<rparr>"
    using commit_success [OF assms(1) [unfolded CommitRefresh_def]] by metis
  have len: "k < length (cat_Profiles ?c)" using Index_Some [OF k(1)] by simp
  note ps = commit_success_profiles [OF assms(2) len a]
  have "map pf_ID (cat_Profiles after) = map pf_ID (cat_Profiles ?c)"
    by (simp add: ps map_update list_update_same_conv len)
  then have i: "Index after ?i = Some k" using Index_cong k(1) by metis
  have v: "pf_Version (cat_Profiles after ! k) \<noteq> pr_profileVersion prepared"
    using len k(2) by (simp add: ps refreshed_profile_fields)
  have sc: "ss_catalog s' = after" by (simp add: s')
  have "CommitRefresh env io' now' (prepared\<lparr>pr_result := result', pr_document := d'\<rparr>) s' =
      ((zero_receipt, Some ErrRefreshChanged), s')"
    using i v by (simp add: CommitRefresh_def commitRefreshLocked_def Let_def sc)
  then show ?thesis using k s' ps canonical_catalog_sound [OF a] by auto
qed

lemma demo_CommitRefresh:
  "\<exists>r s'. CommitRefresh demo_env2 demo_io 8 demo_prepared demo_svc1 = ((r, None), s') \<and>
     ss_catalog s' = demo_cat2 \<and> Rollback demo_env2 demo_io r s' =
       (None, demo_svc1)"
  unfolding CommitRefresh_def demo_svc1_fields demo_commit1
  by (simp add: Rollback_def restoreCache_def restoreCacheWithCommit_def put_with_commit_def Let_def
        demo_ok demo_io_def demo_save [OF demo_ok(2) demo_marshal(2)])
     (simp add: demo_svc1_def demo_svc_def CachePath_def)

theorem refresh_publishes_once_witness:
  "\<exists>s'. CommitRefresh demo_env2 demo_io 9 demo_prepared s' = ((zero_receipt, Some ErrRefreshChanged), s') \<and>
     ss_catalog s' = demo_cat2"
proof -
  obtain r s' where c: "CommitRefresh demo_env2 demo_io 8 demo_prepared demo_svc1 = ((r, None), s')"
    and "ss_catalog s' = demo_cat2" using demo_CommitRefresh by blast
  have "demo_prepared\<lparr>pr_result := demo_res, pr_document := []\<rparr> = demo_prepared" by (simp add: demo_prepared_def)
  with refresh_publishes_once [OF c, where io' = demo_io and now' = 9 and result' = demo_res and d' = "[]"] demo_ok(2) \<open>ss_catalog s' = demo_cat2\<close>
  show ?thesis by (auto simp: demo_svc1_fields)
qed

text \<open>
  \<open>Rollback\<close> undoes a commit: after a commit and a rollback of its receipt that both
  succeed, memory, catalog file and cache files are as before the commit.
\<close>

theorem rollback_undoes_commit:
  assumes "CommitRefresh env io now prepared s = ((r, None), s1)" and "Rollback env io2 r s1 = (None, s2)"
    and "catalog_ok env (ss_catalog s)" and "fits env (ss_catalog s)" and "file_sound env"
  shows "undone env (ss_catalog s) s s2"
proof -
  let ?i = "pr_profileID prepared" and ?p = "CachePath s (pr_profileID prepared)"
  obtain cb had after disk where old: "was_cached cb had = ss_caches s ?p"
    and r: "r = \<lparr>rc_Before = ss_catalog s, rc_After = after, rc_cachePath = ?p, rc_cacheBefore = cb,
       rc_hadCache = had, rc_wroteCache = (\<not> fr_NotModified (pr_result prepared)), rc_profileID = ?i\<rparr>"
    and s1: "s1 = s\<lparr>ss_catalog := after, ss_disk := disk, ss_caches := (ss_caches s)
       (?p := if fr_NotModified (pr_result prepared) then ss_caches s ?p
              else Some (fr_Content (pr_result prepared)))\<rparr>"
    using commit_success [OF assms(1) [unfolded CommitRefresh_def]] by metis
  obtain b nf d2 where rs: "restoreCacheWithCommit io2 cb had (\<not> fr_NotModified (pr_result prepared))
      (ss_caches s1 ?p) = ((b, None), nf)"
    and sv: "Save env (io_save io2) (ss_catalog s) (ss_disk s1) = (None, d2)"
    and s2: "s2 = s1\<lparr>ss_caches := (ss_caches s1)(?p := nf), ss_disk := d2, ss_catalog := ss_catalog s\<rparr>"
    using assms(2,3) r by (auto simp: Rollback_def restoreCache_def Let_def split: prod.splits option.splits)
  have "nf = ss_caches s ?p"
    using restore_committed [OF rs] old s1 by (auto split: if_splits)
  moreover have "on_disk env d2 (ss_catalog s)" by (rule Save_None_on_disk [OF sv assms(3,4,5)])
  ultimately show ?thesis by (auto simp: undone_def s2 s1)
qed

theorem rollback_undoes_commit_witness:
  "\<exists>s2. undone demo_env2 demo_cat1 demo_svc1 s2"
proof -
  obtain r s' where c: "CommitRefresh demo_env2 demo_io 8 demo_prepared demo_svc1 = ((r, None), s')"
    "Rollback demo_env2 demo_io r s' = (None, demo_svc1)" using demo_CommitRefresh by blast
  from rollback_undoes_commit [OF c] demo_ok(2) demo_on_disk(4) demo_sound show ?thesis
    by (auto simp: demo_svc1_fields)
qed

text \<open>
  Recording a failed refresh is harmless: it never touches a cache, it changes the
  catalog in memory at most by the last error of the profile the refresh was prepared
  from, at that version (a profile changed or removed meanwhile is left alone), and the
  public classification of the failure is that of the original cause.
\<close>

theorem failure_note_is_guarded:
  assumes "RecordRefreshFailure env out prepared cause s = (e, s')" and "catalog_ok env (ss_catalog s)"
  shows "ss_caches s' = ss_caches s \<and>
    (ss_catalog s' = ss_catalog s \<or>
     (\<exists>k. Index (ss_catalog s) (pr_profileID prepared) = Some k \<and>
        pf_Version (cat_Profiles (ss_catalog s) ! k) = pr_profileVersion prepared \<and>
        cat_Profiles (ss_catalog s') = (cat_Profiles (ss_catalog s))
          [k := (cat_Profiles (ss_catalog s) ! k)\<lparr>pf_LastError := refresh_message cause\<rparr>])) \<and>
    (as_api e = as_api cause \<or> as_api cause = None \<and> as_api e = Some (api CodeInternal ''internal error''))"
proof -
  let ?i = "pr_profileID prepared" and ?c = "ss_catalog s"
  let ?f = "note_mutation ?i (refresh_message cause) [pr_profileVersion prepared]"
  obtain b a err s1 where m: "Mutate env out ?f s = (((b, a), err), s1)" by (metis surj_pair)
  have eff: "s' = s \<or> s' = s1" and api: "as_api e = as_api cause \<or>
      as_api cause = None \<and> as_api e = Some (api CodeInternal ''internal error'')"
    using assms(1) m
    by (auto simp: RecordRefreshFailure_def refreshFailure_def noteRefreshError_def Let_def
          split: option.splits if_splits)
  have s1: "ss_caches s1 = ss_caches s \<and> (ss_catalog s1 = ?c \<or>
     (\<exists>k. Index ?c ?i = Some k \<and> pf_Version (cat_Profiles ?c ! k) = pr_profileVersion prepared \<and>
        cat_Profiles (ss_catalog s1) = (cat_Profiles ?c)
          [k := (cat_Profiles ?c ! k)\<lparr>pf_LastError := refresh_message cause\<rparr>]))"
    using m
  proof (cases rule: Mutate_cases)
    case (saved after0 after content)
    then obtain k where k: "Index ?c ?i = Some k" "pf_Version (cat_Profiles ?c ! k) = pr_profileVersion prepared"
      "after0 = ?c\<lparr>cat_Profiles := (cat_Profiles ?c)[k := (cat_Profiles ?c ! k)\<lparr>pf_LastError := refresh_message cause\<rparr>]\<rparr>"
      by (auto simp: note_mutation_def split: option.splits if_splits)
    have "\<forall>p \<in> set (cat_Profiles after0). profile_canonical p"
      using assms(2) Index_Some [OF k(1)] set_update_subset_insert [of "cat_Profiles ?c" k] k(3)
      by (fastforce simp: catalog_ok_def profile_canonical_def)
    then have "cat_Profiles after = cat_Profiles after0"
      using canonical_catalog_Inr(2) [OF saved(2)] by (simp add: canonical_profile_fixed map_idI)
    then show ?thesis using k saved by auto
  qed simp_all
  with eff api show ?thesis by auto
qed

theorem failure_note_is_guarded_witness:
  "ss_caches (snd (RecordRefreshFailure demo_env2 Written demo_prepared (Opaque ''refused'') demo_svc)) = ss_caches demo_svc"
  using failure_note_is_guarded [OF surjective_pairing, of demo_env2 demo_svc Written demo_prepared "Opaque ''refused''"]
    demo_ok(1) by (simp add: demo_svc_def)

text \<open>
  \<open>Mutate\<close> keeps the catalog canonical and, unless a write took effect and then
  reported a warning, keeps memory and file in agreement: an error leaves both as they
  were and a success puts the new catalog into both.
\<close>

theorem Mutate_keeps_agreement:
  assumes "Mutate env out f s = (((b, a), err), s')" and "file_sound env"
    and "on_disk env (ss_disk s) (ss_catalog s)" and "\<And>w. out \<noteq> WrittenWarn w" and "fits env a"
  shows "catalog_ok env (ss_catalog s') \<and> on_disk env (ss_disk s') (ss_catalog s') \<and>
    ss_caches s' = ss_caches s \<and>
    (if err = None then b = ss_catalog s \<and> a = ss_catalog s' else s' = s)"
proof -
  have ok: "catalog_ok env (ss_catalog s)" using assms(3) Load_ok by (auto simp: on_disk_def)
  from assms(1) show ?thesis
  proof (cases rule: Mutate_cases)
    case (unsaved after0 after e disk)
    then show ?thesis using Save_not_written [OF unsaved(3) assms(4)] ok assms(3) by simp
  next
    case (saved after0 after content)
    have "on_disk env (Some content) after"
      using Load_marshalled [OF assms(2) canonical_catalog_sound [OF saved(2)] saved(3)] assms(5) saved
      by (simp add: on_disk_def fits_def)
    then show ?thesis using saved canonical_catalog_sound [OF saved(2)] by simp
  qed (use ok assms(3) in simp)
qed

lemma demo_mutate_id: "canonical_catalog demo_env2 (ss_catalog demo_svc) = Inr Catalog.Defaults"
  using canonical_catalog_fixed [OF demo_ok(1)] by (simp add: demo_svc_def)

theorem Mutate_keeps_agreement_witness:
  "\<exists>b a s'. Mutate demo_env2 Written (\<lambda>c. (c, None)) demo_svc = (((b, a), None), s') \<and>
     on_disk demo_env2 (ss_disk s') (ss_catalog s') \<and> a = ss_catalog s'"
proof -
  obtain s' where m: "Mutate demo_env2 Written (\<lambda>c. (c, None)) demo_svc = (((Catalog.Defaults, Catalog.Defaults), None), s')"
    by (simp add: Mutate_def demo_mutate_id demo_save [OF demo_ok(1) demo_marshal(1)]) (simp add: demo_svc_def)
  have "on_disk demo_env2 (ss_disk demo_svc) (ss_catalog demo_svc)" using demo_on_disk by (simp add: demo_svc_def)
  from Mutate_keeps_agreement [OF m demo_sound this] demo_on_disk(3) show ?thesis using m by auto
qed

text \<open>
  C27. Where that agreement is lost: if the new catalog file was put in place but the
  directory sync after it failed, \<open>Mutate\<close> reports an error and keeps the old catalog in
  memory while the file holds the new one, so the change reappears after a restart;
  \<open>commitRefreshLocked\<close> handles the same outcome by writing the old catalog back.
\<close>

theorem Mutate_warning_diverges:
  assumes "f (ss_catalog s) = (after0, None)" and "canonical_catalog env after0 = Inr after"
    and "ce_marshal env after = Inr content" and "length content \<le> maxCatalogSize" and "file_sound env"
  shows "Mutate env (WrittenWarn w) f s =
      (((zero_catalog, zero_catalog), Some w), s\<lparr>ss_disk := Some content\<rparr>) \<and>
    on_disk env (Some content) after"
proof -
  have "Save env (WrittenWarn w) after (ss_disk s) = (Some w, Some content)"
    using catalog_doc.canon_stable [OF assms(2)] assms(3)
    by (simp add: Save_def put_atomic_def put_with_commit_def)
  moreover have "on_disk env (Some content) after"
    using Load_marshalled [OF assms(5) canonical_catalog_sound [OF assms(2)] assms(3)] assms(4)
    by (simp add: on_disk_def)
  ultimately show ?thesis using assms(1,2) by (simp add: Mutate_def)
qed

theorem Mutate_warning_diverges_witness:
  "\<exists>s'. Mutate demo_env2 (WrittenWarn ErrInvalid) (\<lambda>c. (demo_cat1, None)) demo_svc =
      (((zero_catalog, zero_catalog), Some ErrInvalid), s') \<and>
    ss_catalog s' = Catalog.Defaults \<and> on_disk demo_env2 (ss_disk s') demo_cat1"
proof -
  have c: "canonical_catalog demo_env2 demo_cat1 = Inr demo_cat1" by (rule canonical_catalog_fixed [OF demo_ok(2)])
  have l: "length ''1'' \<le> maxCatalogSize" by (simp add: maxCatalogSize_def)
  from Mutate_warning_diverges [OF _ c demo_marshal(2) l demo_sound, of "\<lambda>c. (demo_cat1, None)" demo_svc ErrInvalid]
  show ?thesis by (simp add: demo_svc_def)
qed

end
