(* ===== verification/Scheduler.thy ===== *)
theory Scheduler
  imports Catalog
begin

text \<open>
  \<open>internal/subscription/scheduler.go\<close>: when profiles are refreshed. The scheduler keeps,
  per subscription, the number of failures in a row, the time before which it does not
  try again and the identity of the schedule that state belongs to. \<open>Run\<close> is a step
  relation: snapshots, clock readings and the outcome of a refresh come from outside.
\<close>

unbundle bit_operations_syntax

section \<open>Operations\<close>

record sched_options =
  so_IdlePoll :: i64
  so_MinRetry :: i64
  so_MaxRetry :: i64
  so_Jitter :: "string \<Rightarrow> i64 \<Rightarrow> i64"

text \<open>FNV-1a of \<open>hash/fnv\<close>, 32 bits.\<close>

definition fnv32a :: "string \<Rightarrow> 32 word" where
  "fnv32a s = foldl (\<lambda>h c. (h XOR of_nat (of_char c)) * 16777619) 2166136261 s"

text \<open>Division of \<open>int64\<close> truncates towards zero.\<close>

definition div_trunc :: "int \<Rightarrow> int \<Rightarrow> int" where
  "div_trunc a b = sgn a * sgn b * (\<bar>a\<bar> div \<bar>b\<bar>)"

definition stableJitter :: "string \<Rightarrow> i64 \<Rightarrow> i64" where
  "stableJitter i interval =
     (let parts = uint (fnv32a i mod 101) - 50 in div_trunc (wrap64 (interval * parts)) 1000)"

definition NewScheduler :: "sched_options \<Rightarrow> sched_options" where
  "NewScheduler o1 =
     o1\<lparr>so_IdlePoll := (if so_IdlePoll o1 \<le> 0 then 60000000000 else so_IdlePoll o1),
        so_MinRetry := (if so_MinRetry o1 \<le> 0 then 60000000000 else so_MinRetry o1),
        so_MaxRetry := (if so_MaxRetry o1 \<le> 0 then 1800000000000 else so_MaxRetry o1)\<rparr>"

definition refreshScheduleBase :: "profile \<Rightarrow> int" where
  "refreshScheduleBase p = (if pf_ScheduleFrom p \<noteq> 0 then pf_ScheduleFrom p else pf_UpdatedAt p)"

definition Due :: "catalog_env \<Rightarrow> catalog \<Rightarrow> int \<Rightarrow> string list" where
  "Due env c now =
     map pf_ID (filter (\<lambda>p. pf_Enabled p \<and> pf_AutoRefresh p \<and>
       (refreshScheduleBase p = 0 \<or> \<not> now < refreshScheduleBase p + EffectiveInterval env c p)) (cat_Profiles c))"

record schedule_identity =
  si_from :: int
  si_updated :: int
  si_url :: string
  si_interval :: string
  si_effective :: i64

definition scheduleIdentity :: "catalog_env \<Rightarrow> catalog \<Rightarrow> profile \<Rightarrow> schedule_identity" where
  "scheduleIdentity env c p = \<lparr>si_from = pf_ScheduleFrom p, si_updated = pf_UpdatedAt p,
     si_url = pf_URL p, si_interval = pf_Interval p, si_effective = EffectiveInterval env c p\<rparr>"

text \<open>The doubling loop; the number is that of the remaining iterations.\<close>

fun retry_loop :: "nat \<Rightarrow> i64 \<Rightarrow> i64 \<Rightarrow> i64" where
  "retry_loop 0 delay maximum = (if delay > maximum then maximum else delay)"
| "retry_loop (Suc n) delay maximum =
     (if \<not> delay < maximum then (if delay > maximum then maximum else delay)
      else if delay > div_trunc maximum 2 then maximum
      else retry_loop n (wrap64 (delay * 2)) maximum)"

definition RetryDelay :: "i64 \<Rightarrow> i64 \<Rightarrow> i64 \<Rightarrow> i64" where
  "RetryDelay failures minimum maximum =
     retry_loop (nat ((if failures < 1 then 1 else failures) - 1)) minimum maximum"

text \<open>\<open>Time.Sub\<close> saturates.\<close>

definition time_sub :: "int \<Rightarrow> int \<Rightarrow> i64" where
  "time_sub t u = max (- (2 ^ 63)) (min (2 ^ 63 - 1) (t - u))"

definition dueAt :: "catalog_env \<Rightarrow> sched_options \<Rightarrow> catalog \<Rightarrow> int \<Rightarrow> (string \<Rightarrow> int) \<Rightarrow> profile \<Rightarrow> int" where
  "dueAt env o1 c now nextAllowed p =
     (let d = (if refreshScheduleBase p \<noteq> 0
               then refreshScheduleBase p +
                 wrap64 (EffectiveInterval env c p + so_Jitter o1 (pf_ID p) (EffectiveInterval env c p))
               else now)
      in if nextAllowed (pf_ID p) > d then nextAllowed (pf_ID p) else d)"

fun due_loop ::
  "catalog_env \<Rightarrow> sched_options \<Rightarrow> catalog \<Rightarrow> int \<Rightarrow> (string \<Rightarrow> int) \<Rightarrow> profile list \<Rightarrow> i64 \<Rightarrow> string list \<times> i64" where
  "due_loop env o1 c now nextAllowed [] wait = ([], wait)"
| "due_loop env o1 c now nextAllowed (p # ps) wait =
     (if \<not> pf_Enabled p \<or> \<not> pf_AutoRefresh p then due_loop env o1 c now nextAllowed ps wait
      else
        let d = dueAt env o1 c now nextAllowed p in
        if \<not> now < d
        then (case due_loop env o1 c now nextAllowed ps wait of (ids, w) \<Rightarrow> (pf_ID p # ids, w))
        else due_loop env o1 c now nextAllowed ps (if time_sub d now < wait then time_sub d now else wait))"

definition due :: "catalog_env \<Rightarrow> sched_options \<Rightarrow> catalog \<Rightarrow> int \<Rightarrow> (string \<Rightarrow> int) \<Rightarrow> string list \<times> i64" where
  "due env o1 c now nextAllowed =
     (case due_loop env o1 c now nextAllowed (cat_Profiles c) (so_IdlePoll o1) of
        (ids, wait) \<Rightarrow> (ids, if wait \<le> 0 then 1000000 else wait))"

section \<open>The loop\<close>

text \<open>A Go map read at a missing key gives the zero value: no failure, the zero time. The
  deletes reset an entry to it.\<close>

record sched_state =
  sc_failures :: "string \<Rightarrow> i64"
  sc_next :: "string \<Rightarrow> int"
  sc_ident :: "string \<Rightarrow> schedule_identity option"

definition sched_start :: sched_state where
  "sched_start = \<lparr>sc_failures = (\<lambda>_. 0), sc_next = (\<lambda>_. 0), sc_ident = (\<lambda>_. None)\<rparr>"

definition forget_state :: "string \<Rightarrow> sched_state \<Rightarrow> sched_state" where
  "forget_state i st = st\<lparr>sc_failures := (sc_failures st)(i := 0), sc_next := (sc_next st)(i := 0)\<rparr>"

definition reconcile_profile :: "catalog_env \<Rightarrow> catalog \<Rightarrow> profile \<Rightarrow> sched_state \<Rightarrow> sched_state" where
  "reconcile_profile env c p st =
     (let identity = scheduleIdentity env c p;
          st1 = (case sc_ident st (pf_ID p) of
                   None \<Rightarrow> st
                 | Some previous \<Rightarrow> if previous \<noteq> identity then forget_state (pf_ID p) st else st)
      in st1\<lparr>sc_ident := (sc_ident st1)(pf_ID p := Some identity)\<rparr>)"

definition drop_missing :: "catalog \<Rightarrow> sched_state \<Rightarrow> sched_state" where
  "drop_missing c st =
     (let gone = (\<lambda>i. sc_ident st i \<noteq> None \<and> Index c i = None) in
      \<lparr>sc_failures = (\<lambda>i. if gone i then 0 else sc_failures st i),
       sc_next = (\<lambda>i. if gone i then 0 else sc_next st i),
       sc_ident = (\<lambda>i. if gone i then None else sc_ident st i)\<rparr>)"

definition reconcile :: "catalog_env \<Rightarrow> catalog \<Rightarrow> sched_state \<Rightarrow> sched_state" where
  "reconcile env c st = fold (reconcile_profile env c) (cat_Profiles c) (drop_missing c st)"

text \<open>What happens to one due ID: \<open>current\<close> and \<open>t1\<close> are read before the refresh, \<open>latest\<close>
  and \<open>t2\<close> after it. The result says whether \<open>Refresh\<close> was called.\<close>

definition note_failure :: "sched_options \<Rightarrow> string \<Rightarrow> int \<Rightarrow> sched_state \<Rightarrow> sched_state" where
  "note_failure o1 i t2 st =
     (let n = wrap64 (sc_failures st i + 1) in
      st\<lparr>sc_failures := (sc_failures st)(i := n),
         sc_next := (sc_next st)(i := t2 +
           wrap64 (RetryDelay n (so_MinRetry o1) (so_MaxRetry o1) + so_Jitter o1 (i @ ''retry'') (so_MinRetry o1)))\<rparr>)"

definition note_success :: "catalog_env \<Rightarrow> sched_options \<Rightarrow> string \<Rightarrow> catalog \<Rightarrow> int \<Rightarrow> sched_state \<Rightarrow> sched_state" where
  "note_success env o1 i latest t2 st =
     (let st1 = st\<lparr>sc_failures := (sc_failures st)(i := 0)\<rparr> in
      case Index latest i of
        None \<Rightarrow> st1
      | Some k \<Rightarrow>
          let p = cat_Profiles latest ! k; interval = EffectiveInterval env latest p;
              base = (if refreshScheduleBase p = 0 then t2 else refreshScheduleBase p)
          in st1\<lparr>sc_next := (sc_next st1)(i := base + wrap64 (interval + so_Jitter o1 i interval))\<rparr>)"

definition attempt ::
  "catalog_env \<Rightarrow> sched_options \<Rightarrow> string \<Rightarrow> catalog \<Rightarrow> int \<Rightarrow> go_error option \<Rightarrow> catalog \<Rightarrow> int \<Rightarrow> sched_state
   \<Rightarrow> bool \<times> sched_state" where
  "attempt env o1 i current t1 outcome latest t2 st =
     (let st1 = reconcile env current st in
      if i \<notin> set (fst (due env o1 current t1 (sc_next st1))) then (False, st1)
      else
        let identity = sc_ident st1 i; st2 = reconcile env latest st1 in
        (case outcome of
           Some _ \<Rightarrow> (True, if sc_ident st2 i \<noteq> identity then st2 else note_failure o1 i t2 st2)
         | None \<Rightarrow> (True, note_success env o1 i latest t2 st2)))"

text \<open>
  \<open>Run\<close>: a pass reads the clock and the catalog and collects what is due (or sleeps and
  starts over); then every collected ID is attempted in turn. Returning because the
  context ended is the end of the sequence. The label says which ID was refreshed, from
  which catalog, at which time.
\<close>

datatype sched_label = LPass "i64 option" | LSkip string | LRefresh string catalog int "go_error option"

inductive sched_step ::
  "catalog_env \<Rightarrow> sched_options \<Rightarrow> string list \<times> sched_state \<Rightarrow> sched_label \<Rightarrow> string list \<times> sched_state \<Rightarrow> bool"
  for env o1 where
  pass: "st1 = reconcile env c st \<Longrightarrow> due env o1 c now (sc_next st1) = (ids, wait) \<Longrightarrow>
    sched_step env o1 ([], st) (LPass (if ids = [] then Some wait else None)) (ids, st1)"
| skip: "attempt env o1 i current t1 outcome latest t2 st = (False, st') \<Longrightarrow>
    sched_step env o1 (i # ids, st) (LSkip i) (ids, st')"
| refresh: "attempt env o1 i current t1 outcome latest t2 st = (True, st') \<Longrightarrow>
    sched_step env o1 (i # ids, st) (LRefresh i current t1 outcome) (ids, st')"

inductive_cases sched_refreshE: "sched_step env o1 s (LRefresh i c t e) s'"

inductive sched_reach :: "catalog_env \<Rightarrow> sched_options \<Rightarrow> string list \<times> sched_state \<Rightarrow> bool"
  for env o1 where
  start: "sched_reach env o1 ([], sched_start)"
| step: "sched_reach env o1 s \<Longrightarrow> sched_step env o1 s l s' \<Longrightarrow> sched_reach env o1 s'"

section \<open>Retry delays and jitter\<close>

lemma retry_loop_spec:
  assumes "0 < delay" "delay < 2 ^ 63" "0 < maximum" "maximum < 2 ^ 63"
  shows "retry_loop n delay maximum = min (2 ^ n * delay) maximum"
  using assms
proof (induction n arbitrary: delay)
  case (Suc n)
  have h: "div_trunc maximum 2 = maximum div 2" using Suc.prems by (simp add: div_trunc_def)
  show ?case
  proof (cases "delay < maximum \<and> delay \<le> maximum div 2")
    case True
    then have d: "2 * delay \<le> maximum" by linarith
    then have "wrap64 (delay * 2) = delay * 2" using Suc.prems by (intro wrap64_id) linarith+
    then show ?thesis using Suc.IH [of "delay * 2"] True d Suc.prems h by (simp add: ac_simps)
  next
    case False
    have "delay \<le> 2 ^ n * delay" using Suc.prems(1) by simp
    moreover have "maximum \<le> 2 * delay" using False Suc.prems(1) by linarith
    ultimately have "maximum \<le> 2 ^ Suc n * delay" by simp
    then show ?thesis using False h by auto
  qed
qed simp

lemma div_trunc_abs: "0 < b \<Longrightarrow> \<bar>div_trunc a b\<bar> \<le> \<bar>a\<bar> div b"
  by (cases "a = 0") (simp_all add: div_trunc_def abs_mult pos_imp_zdiv_nonneg_iff)

lemma jitter_parts: "\<bar>uint (fnv32a i mod 101) - 50\<bar> \<le> 50"
proof -
  have "uint (fnv32a i mod 101) = uint (fnv32a i) mod 101" by (simp add: uint_mod)
  then have "0 \<le> uint (fnv32a i mod 101)" "uint (fnv32a i mod 101) < 101" by simp_all
  then show ?thesis by linarith
qed

section \<open>What is due\<close>

definition auto_profiles :: "catalog \<Rightarrow> profile list" where
  "auto_profiles c = filter (\<lambda>p. pf_Enabled p \<and> pf_AutoRefresh p) (cat_Profiles c)"

lemma due_loop_spec:
  "due_loop env o1 c now nx ps wait = (ids, w) \<Longrightarrow>
     ids = map pf_ID (filter (\<lambda>p. pf_Enabled p \<and> pf_AutoRefresh p \<and> dueAt env o1 c now nx p \<le> now) ps) \<and>
     w \<le> wait \<and>
     (\<forall>p \<in> set ps. pf_Enabled p \<and> pf_AutoRefresh p \<and> now < dueAt env o1 c now nx p \<longrightarrow>
        w \<le> time_sub (dueAt env o1 c now nx p) now) \<and>
     (0 < wait \<longrightarrow> 0 < w)"
proof (induction ps arbitrary: wait ids w)
  case (Cons p ps)
  let ?d = "dueAt env o1 c now nx p"
  consider "\<not> (pf_Enabled p \<and> pf_AutoRefresh p)" | "pf_Enabled p \<and> pf_AutoRefresh p" "?d \<le> now"
    | "pf_Enabled p \<and> pf_AutoRefresh p" "now < ?d" by linarith
  then show ?case
  proof cases
    case 1
    then show ?thesis using Cons by auto
  next
    case 2
    then obtain ids' where "due_loop env o1 c now nx ps wait = (ids', w)" "ids = pf_ID p # ids'"
      using Cons.prems by (auto simp: Let_def split: prod.splits)
    then show ?thesis using Cons.IH [of wait ids' w] 2 by auto
  next
    case 3
    have pos: "0 < time_sub ?d now" using 3 by (auto simp: time_sub_def)
    have r: "due_loop env o1 c now nx ps (if time_sub ?d now < wait then time_sub ?d now else wait) = (ids, w)"
      using Cons.prems 3 by (simp add: Let_def)
    from Cons.IH [OF this] 3 pos show ?thesis by (auto split: if_splits)
  qed
qed simp

lemma due_iff:
  "i \<in> set (fst (due env o1 c now nx)) \<longleftrightarrow>
     (\<exists>p \<in> set (auto_profiles c). pf_ID p = i \<and> dueAt env o1 c now nx p \<le> now)"
proof -
  obtain ids w where l: "due_loop env o1 c now nx (cat_Profiles c) (so_IdlePoll o1) = (ids, w)" by fastforce
  then have "fst (due env o1 c now nx) = ids" by (simp add: due_def)
  then show ?thesis using due_loop_spec [OF l] by (auto simp: auto_profiles_def)
qed

section \<open>Reconciliation\<close>

definition same_at :: "string \<Rightarrow> sched_state \<Rightarrow> sched_state \<Rightarrow> bool" where
  "same_at i st st' \<longleftrightarrow>
     sc_failures st i = sc_failures st' i \<and> sc_next st i = sc_next st' i \<and> sc_ident st i = sc_ident st' i"

lemma reconcile_profile_other: "pf_ID p \<noteq> i \<Longrightarrow> same_at i (reconcile_profile env c p st) st"
  by (auto simp: same_at_def reconcile_profile_def forget_state_def Let_def split: option.splits)

lemma reconcile_profile_cong:
  "same_at (pf_ID p) st st' \<Longrightarrow> same_at (pf_ID p) (reconcile_profile env c p st) (reconcile_profile env c p st')"
  by (auto simp: same_at_def reconcile_profile_def forget_state_def Let_def split: option.splits)

lemma same_at_trans: "same_at i a b \<Longrightarrow> same_at i b c \<Longrightarrow> same_at i a c"
  by (simp add: same_at_def)

lemma same_at_refl: "same_at i a a"
  by (simp add: same_at_def)

lemma fold_reconcile_other:
  "i \<notin> pf_ID ` set ps \<Longrightarrow> same_at i (fold (reconcile_profile env c) ps st) st"
proof (induction ps arbitrary: st)
  case (Cons p ps)
  then have "same_at i (fold (reconcile_profile env c) ps (reconcile_profile env c p st)) (reconcile_profile env c p st)"
    by auto
  moreover have "same_at i (reconcile_profile env c p st) st"
    using Cons.prems by (intro reconcile_profile_other) auto
  ultimately show ?case using same_at_trans by auto
qed (simp add: same_at_refl)

lemma fold_reconcile_at:
  "distinct (map pf_ID ps) \<Longrightarrow> p \<in> set ps \<Longrightarrow>
     same_at (pf_ID p) (fold (reconcile_profile env c) ps st) (reconcile_profile env c p st)"
proof (induction ps arbitrary: st)
  case (Cons q ps)
  show ?case
  proof (cases "p = q")
    case True
    have "pf_ID q \<notin> pf_ID ` set ps" using Cons.prems(1) by simp
    from fold_reconcile_other [OF this] True show ?thesis by simp
  next
    case False
    then have p: "p \<in> set ps" "pf_ID q \<noteq> pf_ID p" using Cons.prems by (auto simp: image_iff)
    have "same_at (pf_ID p) (fold (reconcile_profile env c) ps (reconcile_profile env c q st))
        (reconcile_profile env c p (reconcile_profile env c q st))"
      using Cons p by simp
    moreover have "same_at (pf_ID p) (reconcile_profile env c p (reconcile_profile env c q st)) (reconcile_profile env c p st)"
      by (rule reconcile_profile_cong [OF reconcile_profile_other [OF p(2)]])
    ultimately show ?thesis using same_at_trans by auto
  qed
qed simp

lemma reconcile_missing: "Index c i = None \<Longrightarrow> same_at i (reconcile env c st) (drop_missing c st)"
  unfolding reconcile_def by (rule fold_reconcile_other) (auto simp: Index_def find_index_None)

lemma reconcile_at:
  assumes "distinct (map pf_ID (cat_Profiles c))" "p \<in> set (cat_Profiles c)"
  shows "sc_ident (reconcile env c st) (pf_ID p) = Some (scheduleIdentity env c p)"
    "sc_next (reconcile env c st) (pf_ID p) =
       (case sc_ident st (pf_ID p) of
          None \<Rightarrow> sc_next st (pf_ID p)
        | Some x \<Rightarrow> if x = scheduleIdentity env c p then sc_next st (pf_ID p) else 0)"
    "sc_failures (reconcile env c st) (pf_ID p) =
       (case sc_ident st (pf_ID p) of
          None \<Rightarrow> sc_failures st (pf_ID p)
        | Some x \<Rightarrow> if x = scheduleIdentity env c p then sc_failures st (pf_ID p) else 0)"
proof -
  obtain k where "Index c (pf_ID p) = Some k" using Index_unique [OF assms] by auto
  then have "same_at (pf_ID p) (drop_missing c st) st" by (simp add: same_at_def drop_missing_def Let_def)
  from reconcile_profile_cong [OF this] fold_reconcile_at [OF assms]
  have s: "same_at (pf_ID p) (reconcile env c st) (reconcile_profile env c p st)"
    unfolding reconcile_def using same_at_trans by blast
  then show "sc_ident (reconcile env c st) (pf_ID p) = Some (scheduleIdentity env c p)"
    "sc_next (reconcile env c st) (pf_ID p) =
       (case sc_ident st (pf_ID p) of
          None \<Rightarrow> sc_next st (pf_ID p)
        | Some x \<Rightarrow> if x = scheduleIdentity env c p then sc_next st (pf_ID p) else 0)"
    "sc_failures (reconcile env c st) (pf_ID p) =
       (case sc_ident st (pf_ID p) of
          None \<Rightarrow> sc_failures st (pf_ID p)
        | Some x \<Rightarrow> if x = scheduleIdentity env c p then sc_failures st (pf_ID p) else 0)"
    by (auto simp: same_at_def reconcile_profile_def forget_state_def Let_def split: option.splits)
qed

section \<open>No state for subscriptions that are gone\<close>

definition sched_inv :: "sched_state \<Rightarrow> bool" where
  "sched_inv st \<longleftrightarrow> (\<forall>i. sc_ident st i = None \<longrightarrow> sc_failures st i = 0 \<and> sc_next st i = 0)"

lemma reconcile_profile_inv: "sched_inv st \<Longrightarrow> sched_inv (reconcile_profile env c p st)"
  by (auto simp: sched_inv_def reconcile_profile_def forget_state_def Let_def split: option.splits)

lemma reconcile_inv: "sched_inv st \<Longrightarrow> sched_inv (reconcile env c st)"
proof -
  assume "sched_inv st"
  then have "sched_inv (drop_missing c st)" by (auto simp: sched_inv_def drop_missing_def Let_def)
  moreover have "sched_inv x \<Longrightarrow> sched_inv (fold (reconcile_profile env c) ps x)" for ps x
    by (induction ps arbitrary: x) (simp_all add: reconcile_profile_inv)
  ultimately show ?thesis by (simp add: reconcile_def)
qed

lemma reconcile_ident_Some: "p \<in> set (cat_Profiles c) \<Longrightarrow> sc_ident (reconcile env c st) (pf_ID p) \<noteq> None"
proof -
  have keep: "sc_ident (fold (reconcile_profile env c) ps x) i \<noteq> None" if "sc_ident x i \<noteq> None" for ps x i
    using that by (induction ps arbitrary: x) (simp_all add: reconcile_profile_def forget_state_def Let_def split: option.split)
  have "p \<in> set ps \<Longrightarrow> sc_ident (fold (reconcile_profile env c) ps x) (pf_ID p) \<noteq> None" for ps x
  proof (induction ps arbitrary: x)
    case (Cons q ps)
    show ?case
    proof (cases "p = q")
      case True
      have "sc_ident (reconcile_profile env c q x) (pf_ID q) \<noteq> None" by (simp add: reconcile_profile_def Let_def)
      then show ?thesis using keep True by simp
    qed (use Cons in simp)
  qed simp
  then show "p \<in> set (cat_Profiles c) \<Longrightarrow> sc_ident (reconcile env c st) (pf_ID p) \<noteq> None"
    by (simp add: reconcile_def)
qed

lemma attempt_inv:
  assumes "sched_inv st" shows "sched_inv (snd (attempt env o1 i current t1 outcome latest t2 st))"
proof -
  let ?s1 = "reconcile env current st"
  let ?s2 = "reconcile env latest ?s1"
  have inv: "sched_inv ?s1" "sched_inv ?s2" using assms reconcile_inv by auto
  have f: "sched_inv (note_failure o1 i t2 ?s2)" if "sc_ident ?s2 i \<noteq> None"
    using inv(2) that by (auto simp: sched_inv_def note_failure_def Let_def)
  have k: "sc_ident ?s1 i \<noteq> None" if "i \<in> set (fst (due env o1 current t1 (sc_next ?s1)))"
    using that reconcile_ident_Some by (auto simp: due_iff auto_profiles_def)
  have l: "sc_ident ?s2 i \<noteq> None" if "Index latest i = Some k" for k
    using Index_Some [OF that] reconcile_ident_Some [of "cat_Profiles latest ! k" latest env ?s1] by auto
  have "sched_inv (note_success env o1 i latest t2 ?s2)"
    using inv(2) l by (auto simp: sched_inv_def note_success_def Let_def split: option.splits)
  then show ?thesis using inv f k
    by (auto simp: attempt_def Let_def split: option.splits)
qed

lemma sched_reach_inv: "sched_reach env o1 s \<Longrightarrow> sched_inv (snd s)"
proof (induction rule: sched_reach.induct)
  case (step s l s')
  from step(2) show ?case
  proof cases
    case (skip i current t1 outcome latest t2 st st' ids)
    then show ?thesis using step(3) attempt_inv [of st env o1 i current t1 outcome latest t2] by simp
  next
    case (refresh i current t1 outcome latest t2 st st' ids)
    then show ?thesis using step(3) attempt_inv [of st env o1 i current t1 outcome latest t2] by simp
  qed (use step reconcile_inv in simp)
qed (simp add: sched_inv_def sched_start_def)

section \<open>Properties\<close>

text \<open>
  The delay before the \<open>n\<close>-th retry doubles from the minimum up to the maximum and
  never overflows.
\<close>

theorem RetryDelay_doubles:
  assumes "0 < minimum" and "minimum < 2 ^ 63" and "0 < maximum" and "maximum < 2 ^ 63"
  shows "RetryDelay n minimum maximum = min (2 ^ nat (max n 1 - 1) * minimum) maximum"
  using retry_loop_spec [OF assms] by (simp add: RetryDelay_def max_def)

theorem RetryDelay_doubles_witness:
  "RetryDelay 40 60000000000 1800000000000 = 1800000000000"
  using RetryDelay_doubles [of 60000000000 1800000000000 40] by simp

text \<open>
  The jitter of a schedule stays within five percent of the interval, for every
  interval whose fifty-fold is an \<open>int64\<close> (below 5.8 years).
\<close>

theorem stableJitter_five_percent:
  assumes "0 \<le> interval" and "interval * 50 < 2 ^ 63"
  shows "\<bar>stableJitter i interval\<bar> * 20 \<le> interval"
proof -
  let ?parts = "uint (fnv32a i mod 101) - 50"
  have m: "\<bar>interval * ?parts\<bar> \<le> interval * 50"
    unfolding abs_mult using jitter_parts [of i] assms(1) by (simp add: mult_left_mono)
  then have "wrap64 (interval * ?parts) = interval * ?parts"
    using assms by (intro wrap64_id) linarith+
  moreover have "\<bar>div_trunc (interval * ?parts) 1000\<bar> \<le> interval * 50 div 1000"
  proof -
    have "\<bar>div_trunc (interval * ?parts) 1000\<bar> \<le> \<bar>interval * ?parts\<bar> div 1000"
      by (rule div_trunc_abs) simp
    also have "\<dots> \<le> interval * 50 div 1000" using m by (intro zdiv_mono1) simp_all
    finally show ?thesis .
  qed
  ultimately show ?thesis by (simp add: stableJitter_def Let_def)
qed

theorem stableJitter_five_percent_witness: "\<bar>stableJitter ''a'' 43200000000000\<bar> * 20 \<le> 43200000000000"
  using stableJitter_five_percent [of 43200000000000 "''a''"] by simp

text \<open>
  One evaluation of the schedule is exact: it returns precisely the enabled profiles
  with automatic refresh whose due time has come, and a positive time to sleep that never
  passes the due time of another such profile and never exceeds the idle poll interval.
\<close>

theorem due_exact:
  assumes "due env o1 c now nx = (ids, wait)" and "0 < so_IdlePoll o1"
  shows "ids = map pf_ID (filter (\<lambda>p. dueAt env o1 c now nx p \<le> now) (auto_profiles c)) \<and>
    0 < wait \<and> wait \<le> so_IdlePoll o1 \<and>
    (\<forall>p \<in> set (auto_profiles c). now < dueAt env o1 c now nx p \<longrightarrow> now + wait \<le> dueAt env o1 c now nx p)"
proof -
  obtain w where l: "due_loop env o1 c now nx (cat_Profiles c) (so_IdlePoll o1) = (ids, w)"
    and w: "wait = (if w \<le> 0 then 1000000 else w)"
    using assms(1) by (auto simp: due_def split: prod.splits)
  note d = due_loop_spec [OF l]
  have pos: "0 < w" "wait = w" using d assms(2) w by auto
  have "now + w \<le> dueAt env o1 c now nx p"
    if "p \<in> set (auto_profiles c)" "now < dueAt env o1 c now nx p" for p
  proof -
    have "w \<le> time_sub (dueAt env o1 c now nx p) now" using d that by (auto simp: auto_profiles_def)
    also have "\<dots> \<le> dueAt env o1 c now nx p - now" using that(2) by (auto simp: time_sub_def)
    finally show ?thesis by simp
  qed
  then show ?thesis using d pos by (auto simp: auto_profiles_def filter_filter conj_ac cong: filter_cong)
qed

definition demo_opts :: sched_options where
  "demo_opts = NewScheduler \<lparr>so_IdlePoll = 0, so_MinRetry = 0, so_MaxRetry = 0, so_Jitter = (\<lambda>_ _. 0)\<rparr>"

definition demo_sched_catalog :: catalog where
  "demo_sched_catalog = Defaults\<lparr>cat_Profiles := [zero_profile\<lparr>pf_ID := ''a'', pf_Enabled := True, pf_AutoRefresh := True\<rparr>]\<rparr>"

theorem due_exact_witness:
  "0 < snd (due demo_cat_env demo_opts demo_sched_catalog 5 (\<lambda>_. 0)) \<and>
   fst (due demo_cat_env demo_opts demo_sched_catalog 5 (\<lambda>_. 0)) = [''a'']"
proof -
  have o1: "0 < so_IdlePoll demo_opts" by (simp add: demo_opts_def NewScheduler_def)
  from due_exact [OF surjective_pairing o1, of demo_cat_env demo_sched_catalog 5 "\<lambda>_. 0"] show ?thesis
    by (simp add: auto_profiles_def demo_sched_catalog_def dueAt_def refreshScheduleBase_def zero_profile_def)
qed

text \<open>
  C12. Every refresh the scheduler starts is justified by the catalog it was read from: the
  profile is there, enabled and on automatic refresh, its interval (with jitter) has
  passed since the base of its schedule, and the time before which it must not be tried
  again has passed.
\<close>

theorem refresh_is_justified:
  assumes "sched_step env o1 s (LRefresh i c t e) s'"
  shows "\<exists>p \<in> set (auto_profiles c). pf_ID p = i \<and>
    sc_next (reconcile env c (snd s)) i \<le> t \<and>
    (refreshScheduleBase p = 0 \<or>
     refreshScheduleBase p + wrap64 (EffectiveInterval env c p + so_Jitter o1 i (EffectiveInterval env c p)) \<le> t)"
  using assms
proof (rule sched_refreshE)
  fix latest t2 st st' ids
  assume a: "attempt env o1 i c t e latest t2 st = (True, st')" and s: "s = (i # ids, st)"
  have "i \<in> set (fst (due env o1 c t (sc_next (reconcile env c st))))"
    using a by (auto simp: attempt_def Let_def split: if_splits)
  then obtain p where p: "p \<in> set (auto_profiles c)" "pf_ID p = i"
    "dueAt env o1 c t (sc_next (reconcile env c st)) p \<le> t" by (auto simp: due_iff)
  then show ?thesis using s by (auto simp: dueAt_def Let_def split: if_splits intro!: bexI [of _ p])
qed

theorem refresh_is_justified_witness:
  "\<exists>p \<in> set (auto_profiles demo_sched_catalog). pf_ID p = ''a''"
proof -
  obtain st' where a: "attempt demo_cat_env demo_opts ''a'' demo_sched_catalog 5 None demo_sched_catalog 6 sched_start = (True, st')"
    by (simp add: attempt_def Let_def due_iff auto_profiles_def demo_sched_catalog_def dueAt_def
          refreshScheduleBase_def zero_profile_def reconcile_def reconcile_profile_def drop_missing_def
          sched_start_def)
  from refresh_is_justified [OF sched_step.refresh [OF a, of "[]"]] show ?thesis by blast
qed

text \<open>
  C30. A failed refresh backs off: if the schedule of the profile did not change during the
  refresh, one more failure is counted and, as long as a later catalog has the profile
  with the same schedule, no attempt before the computed retry time calls \<open>Refresh\<close>; an
  edit of the schedule (source, interval, base) clears the failures and the retry time.
\<close>

theorem failure_backs_off:
  assumes "attempt env o1 i current t1 (Some e) latest t2 st = (True, st')"
    and "distinct (map pf_ID (cat_Profiles later))" and "p \<in> set (cat_Profiles later)" and "pf_ID p = i"
    and "sc_ident (reconcile env latest (reconcile env current st)) i = sc_ident (reconcile env current st) i"
  shows "sc_next st' i = t2 + wrap64 (RetryDelay (sc_failures st' i) (so_MinRetry o1) (so_MaxRetry o1)
      + so_Jitter o1 (i @ ''retry'') (so_MinRetry o1)) \<and>
    (if sc_ident st' i = Some (scheduleIdentity env later p)
     then t < sc_next st' i \<longrightarrow> \<not> fst (attempt env o1 i later t outcome after t' st')
     else sc_next (reconcile env later st') i = 0 \<and> sc_failures (reconcile env later st') i = 0)"
proof -
  have st': "st' = note_failure o1 i t2 (reconcile env latest (reconcile env current st))"
    using assms(1,5) by (auto simp: attempt_def Let_def split: if_splits)
  have "i \<in> set (fst (due env o1 current t1 (sc_next (reconcile env current st))))"
    using assms(1) by (auto simp: attempt_def Let_def split: if_splits)
  then have "sc_ident (reconcile env current st) i \<noteq> None"
    using reconcile_ident_Some by (auto simp: due_iff auto_profiles_def)
  then have known: "sc_ident st' i \<noteq> None" using assms(5) by (simp add: st' note_failure_def Let_def)
  note r = reconcile_at [OF assms(2,3), of env st', unfolded assms(4)]
  have "\<not> fst (attempt env o1 i later t outcome after t' st')"
    if "sc_ident st' i = Some (scheduleIdentity env later p)" "t < sc_next st' i"
  proof -
    have n: "sc_next (reconcile env later st') i = sc_next st' i" using r(2) that(1) by simp
    have "i \<notin> set (fst (due env o1 later t (sc_next (reconcile env later st'))))"
      using n that(2) by (auto simp: due_iff dueAt_def Let_def split: if_splits)
    then show ?thesis by (simp add: attempt_def Let_def)
  qed
  moreover have "sc_next (reconcile env later st') i = 0 \<and> sc_failures (reconcile env later st') i = 0"
    if "sc_ident st' i \<noteq> Some (scheduleIdentity env later p)"
    using r(2,3) that known by auto
  ultimately show ?thesis by (auto simp: st' note_failure_def Let_def)
qed

theorem failure_backs_off_witness:
  "\<exists>st'. attempt demo_cat_env demo_opts ''a'' demo_sched_catalog 5 (Some ErrInvalid) demo_sched_catalog 6 sched_start = (True, st') \<and>
     sc_next st' ''a'' = 6 + wrap64 (RetryDelay (sc_failures st' ''a'') (so_MinRetry demo_opts) (so_MaxRetry demo_opts))"
proof -
  let ?p = "zero_profile\<lparr>pf_ID := ''a'', pf_Enabled := True, pf_AutoRefresh := True\<rparr>"
  have d: "distinct (map pf_ID (cat_Profiles demo_sched_catalog))" "?p \<in> set (cat_Profiles demo_sched_catalog)" "pf_ID ?p = ''a''"
    by (simp_all add: demo_sched_catalog_def)
  have n: "sc_next (reconcile demo_cat_env demo_sched_catalog sched_start) ''a'' = 0"
    using reconcile_at(2) [OF d(1,2), of demo_cat_env sched_start] by (simp add: sched_start_def)
  have "''a'' \<in> set (fst (due demo_cat_env demo_opts demo_sched_catalog 5
      (sc_next (reconcile demo_cat_env demo_sched_catalog sched_start))))"
    unfolding due_iff using d n
    by (intro bexI [of _ ?p]) (simp_all add: auto_profiles_def dueAt_def refreshScheduleBase_def zero_profile_def)
  then obtain st' where a: "attempt demo_cat_env demo_opts ''a'' demo_sched_catalog 5 (Some ErrInvalid) demo_sched_catalog 6 sched_start = (True, st')"
    by (simp add: attempt_def Let_def)
  have j: "so_Jitter demo_opts x y = 0" for x y by (simp add: demo_opts_def NewScheduler_def)
  from failure_backs_off [OF a d] reconcile_at(1) [OF d(1,2), of demo_cat_env] d(3) show ?thesis
    using a by (auto simp: j)
qed

text \<open>
  The scheduler keeps nothing about subscriptions that are gone: in every reachable
  state a subscription without a recorded identity has no failures and no retry time.
\<close>

theorem no_stale_state:
  assumes "sched_reach env o1 s"
  shows "sc_ident (snd s) i = None \<longrightarrow> sc_failures (snd s) i = 0 \<and> sc_next (snd s) i = 0"
  using sched_reach_inv [OF assms] by (simp add: sched_inv_def)

theorem no_stale_state_witness: "sc_next sched_start ''gone'' = 0"
  using no_stale_state [OF sched_reach.start, where i = "''gone''"] by (simp add: sched_start_def)

end
