(* ===== verification/Installation.thy ===== *)
theory Installation
  imports Prelude "HOL-Library.Monad_Syntax"
begin

text \<open>
  \<open>internal/app\<close>: \<open>installation_state.go\<close>, \<open>installation_plan.go\<close>,
  \<open>installation_codec.go\<close> and the validators of \<open>install_request.go\<close>. The private
  installation record, the plan a user confirms and the strict JSON codec. JSON text is
  parsed and printed by the standard library (parameters); the codec's own checks work on
  the tree, against a description of the Go type.
\<close>

section \<open>Paths, digests and text\<close>

text \<open>\<open>filepath\<close> of the platform.\<close>

record path_env =
  pe_is_abs :: "string \<Rightarrow> bool"
  pe_clean :: "string \<Rightarrow> string"
  pe_join :: "string \<Rightarrow> string \<Rightarrow> string"

definition validAbsPath :: "path_env \<Rightarrow> string \<Rightarrow> bool" where
  "validAbsPath env p \<longleftrightarrow>
     p \<noteq> [] \<and> CHR 0x00 \<notin> set p \<and> (hd p = CHR ''/'' \<or> pe_is_abs env p)"

definition valid_hex :: "nat \<Rightarrow> string \<Rightarrow> bool" where
  "valid_hex n s \<longleftrightarrow>
     (case hex_decode s of None \<Rightarrow> False | Some raw \<Rightarrow> length raw = n \<and> hex_encode raw = s)"

definition validSHA256 :: "string \<Rightarrow> bool" where
  "validSHA256 s = valid_hex 32 s"

definition validTransactionID :: "string \<Rightarrow> bool" where
  "validTransactionID s = valid_hex 16 s"

definition installationPathKey :: "path_env \<Rightarrow> string \<Rightarrow> string" where
  "installationPathKey env p = pe_clean env p"

definition validInstallationPath :: "string \<Rightarrow> bool" where
  "validInstallationPath p \<longleftrightarrow> length p \<le> 4096 \<and> valid_utf8 p \<and> CHR 0x00 \<notin> set p"

definition validInstallationText :: "string \<Rightarrow> nat \<Rightarrow> bool \<Rightarrow> bool" where
  "validInstallationText s n allowEmpty \<longleftrightarrow>
     (allowEmpty \<or> s \<noteq> []) \<and> length s \<le> n \<and> valid_utf8 s \<and> CHR 0x00 \<notin> set s"

section \<open>The installation record\<close>

record identity =
  id_BootID :: string
  id_Key :: string
  id_Marker :: string

record data_parent =
  dp_Path :: string
  dp_Identity :: identity
  dp_Relative :: string

record binary =
  bin_Path :: string
  bin_SHA256 :: string
  bin_Version :: string

record manifest =
  mf_Installed :: bool
  mf_DataRoot :: string
  mf_InstallRoot :: string
  mf_Endpoint :: string
  mf_Credential :: string
  mf_DataIdentity :: "identity option"
  mf_DataParentIdentity :: "data_parent option"
  mf_Binary :: "binary option"
  mf_DefinitionSHA256 :: string
  mf_Enabled :: bool
  mf_RunAfterInstall :: bool

record owner =
  ow_BootID :: string
  ow_PID :: i64
  ow_Start :: string

record state_ref =
  sr_ID :: string
  sr_SHA256 :: string

record source_scope =
  sc_DataRoot :: string
  sc_DataIdentity :: identity
  sc_Selection :: string
  sc_EvidenceSHA256 :: string

record install_state =
  is_Schema :: string
  is_ID :: string
  is_State :: string
  is_Operation :: string
  is_Owner :: "owner option"
  is_Base :: "manifest option"
  is_Target :: manifest
  is_DataPolicy :: string
  is_ResetEntries :: "string list option"
  is_Supersedes :: "state_ref option"
  is_SourceScope :: "source_scope option"

section \<open>Validation\<close>

definition invalidInstallationState :: "go_error option list \<Rightarrow> go_error" where
  "invalidInstallationState causes =
     (case errors_join causes of
        None \<Rightarrow> Api (api CodeDataFailure ''invalid installation state'')
      | Some c \<Rightarrow> Failure (api CodeDataFailure ''invalid installation state'') (Some c))"

abbreviation bad_state :: go_error where
  "bad_state \<equiv> invalidInstallationState []"

definition validInstallationOwner :: "owner \<Rightarrow> bool" where
  "validInstallationOwner o1 \<longleftrightarrow>
     1 < ow_PID o1 \<and> validInstallationText (ow_BootID o1) 128 True \<and> validInstallationText (ow_Start o1) 128 False"

definition validInstallationIdentity :: "identity \<Rightarrow> bool" where
  "validInstallationIdentity i \<longleftrightarrow>
     validInstallationText (id_BootID i) 128 False \<and> validInstallationText (id_Key i) 512 False \<and>
     validInstallationText (id_Marker i) 512 False"

text \<open>The raw string of the Go source lists slash and backslash (twice).\<close>

definition validDataParentIdentity :: "path_env \<Rightarrow> data_parent \<Rightarrow> bool" where
  "validDataParentIdentity env d \<longleftrightarrow>
     validAbsPath env (dp_Path d) \<and> validInstallationPath (dp_Path d) \<and>
     validInstallationIdentity (dp_Identity d) \<and>
     dp_Relative d \<noteq> [] \<and> length (dp_Relative d) \<le> 255 \<and> dp_Relative d \<noteq> ''.'' \<and> dp_Relative d \<noteq> ''..'' \<and>
     CHR ''/'' \<notin> set (dp_Relative d) \<and> CHR 0x5C \<notin> set (dp_Relative d) \<and> CHR 0x00 \<notin> set (dp_Relative d)"

definition validInstallationBinary :: "path_env \<Rightarrow> binary \<Rightarrow> bool" where
  "validInstallationBinary env b \<longleftrightarrow>
     validAbsPath env (bin_Path b) \<and> validInstallationPath (bin_Path b) \<and> validSHA256 (bin_SHA256 b) \<and>
     validInstallationText (bin_Version b) 128 False"

definition validInstallationSourceScope :: "path_env \<Rightarrow> source_scope \<Rightarrow> bool" where
  "validInstallationSourceScope env s \<longleftrightarrow>
     validAbsPath env (sc_DataRoot s) \<and> validInstallationPath (sc_DataRoot s) \<and>
     validInstallationIdentity (sc_DataIdentity s) \<and> validSHA256 (sc_EvidenceSHA256 s) \<and>
     sc_Selection s \<in> {''service_definition'', ''explicit_request'', ''legacy_v1''}"

definition reset_entries :: "string list" where
  "reset_entries = [''mihari.yaml'', ''onboarding.json'', ''subscriptions'', ''preferences'', ''runtime'',
     ''logs'', ''logs-export'', ''bin'', ''geoip'', ''web'', ''staging'']"

definition validResetEntry :: "string \<Rightarrow> bool" where
  "validResetEntry entry \<longleftrightarrow> entry \<in> set reset_entries"

definition emptyInstallationManifest :: "manifest \<Rightarrow> bool" where
  "emptyInstallationManifest m \<longleftrightarrow>
     \<not> mf_Installed m \<and> mf_DataRoot m = [] \<and> mf_InstallRoot m = [] \<and> mf_Endpoint m = [] \<and>
     mf_Credential m = [] \<and> mf_DataIdentity m = None \<and> mf_DataParentIdentity m = None \<and>
     mf_Binary m = None \<and> mf_DefinitionSHA256 m = [] \<and> \<not> mf_Enabled m \<and> \<not> mf_RunAfterInstall m"

text \<open>The path a parent identity promises for the data root.\<close>

definition parent_matches :: "path_env \<Rightarrow> data_parent \<Rightarrow> string \<Rightarrow> bool" where
  "parent_matches env d root \<longleftrightarrow>
     pe_clean env (pe_join env (dp_Path d) (dp_Relative d)) = pe_clean env root"

definition valid_root :: "path_env \<Rightarrow> manifest \<Rightarrow> bool \<Rightarrow> bool" where
  "valid_root env m allowMissingRoot \<longleftrightarrow>
     (case (mf_DataIdentity m, mf_DataParentIdentity m) of
        (Some i, None) \<Rightarrow> validInstallationIdentity i
      | (None, Some d) \<Rightarrow>
          allowMissingRoot \<and> validDataParentIdentity env d \<and> parent_matches env d (mf_DataRoot m)
      | _ \<Rightarrow> False)"

definition validateInstallationManifest :: "path_env \<Rightarrow> manifest \<Rightarrow> bool \<Rightarrow> go_error option" where
  "validateInstallationManifest env m allowMissingRoot =
     (if \<not> list_all (\<lambda>p. p = [] \<or> validAbsPath env p \<and> validInstallationPath p)
          [mf_DataRoot m, mf_InstallRoot m, mf_Credential m] then Some bad_state
      else if mf_Endpoint m \<noteq> [] \<and> (\<not> validAbsPath env (mf_Endpoint m) \<or> \<not> validInstallationPath (mf_Endpoint m))
      then Some bad_state
      else if mf_DataRoot m = [] \<and> (mf_DataIdentity m \<noteq> None \<or> mf_DataParentIdentity m \<noteq> None)
      then Some bad_state
      else if mf_DataRoot m \<noteq> [] \<and> \<not> valid_root env m allowMissingRoot then Some bad_state
      else if mf_Installed m
      then (if mf_DataRoot m = [] \<or> mf_InstallRoot m = [] \<or> mf_Endpoint m = [] \<or> mf_Credential m = [] \<or>
               (case mf_Binary m of None \<Rightarrow> True | Some b \<Rightarrow> \<not> validInstallationBinary env b) \<or>
               \<not> validSHA256 (mf_DefinitionSHA256 m)
            then Some bad_state else None)
      else if mf_Binary m \<noteq> None \<or> mf_DefinitionSHA256 m \<noteq> [] then Some bad_state
      else let n = length (filter (\<lambda>p. p \<noteq> []) [mf_DataRoot m, mf_InstallRoot m, mf_Endpoint m, mf_Credential m]) in
        if n \<noteq> 0 \<and> n \<noteq> 4 then Some bad_state else None)"

definition installation_operations :: "string list" where
  "installation_operations = [''install'', ''update'', ''repair'', ''fresh'', ''uninstall'', ''migrate'']"

fun check_entries :: "string list \<Rightarrow> string list \<Rightarrow> go_error option" where
  "check_entries seen [] = None"
| "check_entries seen (e # es) =
     (if \<not> validResetEntry e \<or> e \<in> set seen then Some bad_state else check_entries (e # seen) es)"

definition validateResetEntries :: "install_state \<Rightarrow> go_error option" where
  "validateResetEntries s =
     (case is_ResetEntries s of
        None \<Rightarrow> Some bad_state
      | Some es \<Rightarrow>
     (if length es > 32 then Some bad_state
      else if is_Operation s = ''fresh'' \<and> is_DataPolicy s \<noteq> ''reset'' then Some bad_state
      else if is_Operation s \<noteq> ''fresh'' \<and> is_DataPolicy s \<noteq> ''retain'' then Some bad_state
      else if is_DataPolicy s = ''retain'' \<and> es \<noteq> [] then Some bad_state
      else if is_DataPolicy s = ''reset'' \<and> (is_Operation s \<noteq> ''fresh'' \<or> es = []) then Some bad_state
      else if is_DataPolicy s \<noteq> ''retain'' \<and> is_DataPolicy s \<noteq> ''reset'' then Some bad_state
      else check_entries [] es))"

definition validateInstallationState :: "path_env \<Rightarrow> install_state \<Rightarrow> go_error option" where
  "validateInstallationState env s =
     (if is_Schema s \<noteq> ''mihari.install-state/v1'' \<or> \<not> validTransactionID (is_ID s) then Some bad_state
      else if is_Operation s \<notin> set installation_operations then Some bad_state
      else if is_State s \<noteq> ''applying'' \<and> is_State s \<noteq> ''complete'' then Some bad_state
      else if is_State s = ''applying'' \<and>
        (case is_Owner s of None \<Rightarrow> True | Some o1 \<Rightarrow> \<not> validInstallationOwner o1) then Some bad_state
      else if is_State s = ''complete'' \<and> is_Owner s \<noteq> None then Some bad_state
      else case (case is_Base s of None \<Rightarrow> None | Some b \<Rightarrow> validateInstallationManifest env b False) of
        Some e \<Rightarrow> Some e
      | None \<Rightarrow>
      (case validateInstallationManifest env (is_Target s)
          (is_State s = ''applying'' \<and>
            (case is_Base s of None \<Rightarrow> True | Some b \<Rightarrow> emptyInstallationManifest b)) of
        Some e \<Rightarrow> Some e
      | None \<Rightarrow>
      if is_Operation s = ''uninstall'' \<and> mf_Installed (is_Target s) then Some bad_state
      else if is_Operation s \<noteq> ''uninstall'' \<and> \<not> mf_Installed (is_Target s) then Some bad_state
      else case validateResetEntries s of
        Some e \<Rightarrow> Some e
      | None \<Rightarrow>
      if (case is_Supersedes s of None \<Rightarrow> False | Some r \<Rightarrow> \<not> validTransactionID (sr_ID r) \<or> \<not> validSHA256 (sr_SHA256 r))
      then Some bad_state
      else if (case is_SourceScope s of None \<Rightarrow> False | Some x \<Rightarrow> \<not> validInstallationSourceScope env x)
      then Some bad_state
      else None))"

section \<open>The plan\<close>

record plan_entry =
  pl_Path :: string
  pl_Category :: string

record plan_instance =
  pi_RecordID :: string
  pi_RecordSHA256 :: string
  pi_DataRoot :: string
  pi_DataIdentity :: "identity option"
  pi_DataParentIdentity :: "data_parent option"
  pi_SourceScope :: "source_scope option"
  pi_Enabled :: bool
  pi_RunAfterInstall :: bool

record plan_input =
  in_Mode :: string
  in_Instance :: plan_instance
  in_CandidateSHA256 :: string
  in_Preserve :: "plan_entry list option"
  in_Delete :: "plan_entry list option"

record install_plan =
  plan_Schema :: string
  plan_Mode :: string
  plan_Instance :: plan_instance
  plan_CandidateSHA256 :: string
  plan_Preserve :: "plan_entry list option"
  plan_Delete :: "plan_entry list option"
  plan_PlanSHA256 :: string

text \<open>The document the digest is taken of: the plan without the digest.\<close>

record digest_document =
  dd_Schema :: string
  dd_Mode :: string
  dd_Instance :: plan_instance
  dd_CandidateSHA256 :: string
  dd_Preserve :: "plan_entry list option"
  dd_Delete :: "plan_entry list option"

text \<open>\<open>json.Marshal\<close> of the two documents and \<open>sha256.Sum256\<close>.\<close>

record plan_codec =
  pk_plan :: "install_plan \<Rightarrow> go_error + string"
  pk_digest :: "digest_document \<Rightarrow> go_error + string"
  pk_sha256 :: "string \<Rightarrow> nat list"

definition MaxInstallationPlanBytes :: nat where
  "MaxInstallationPlanBytes = 65536"

definition invalidInstallationPlan :: "go_error option list \<Rightarrow> go_error" where
  "invalidInstallationPlan causes =
     (case errors_join causes of
        None \<Rightarrow> Api (api CodeInvalidArgument ''invalid installation plan'')
      | Some c \<Rightarrow> Failure (api CodeInvalidArgument ''invalid installation plan'') (Some c))"

definition installation_categories :: "string list" where
  "installation_categories = [''config'', ''subscriptions'', ''preferences'', ''logs'', ''runtime'',
     ''binaries'', ''assets'', ''web'', ''staging'', ''credential'', ''unknown'']"

definition validInstallationEntry :: "path_env \<Rightarrow> plan_entry \<Rightarrow> bool" where
  "validInstallationEntry env e \<longleftrightarrow>
     validAbsPath env (pl_Path e) \<and> validInstallationPath (pl_Path e) \<and>
     pl_Category e \<in> set installation_categories"

definition validInstallationPlanInstance :: "path_env \<Rightarrow> plan_instance \<Rightarrow> bool" where
  "validInstallationPlanInstance env i \<longleftrightarrow>
     (pi_RecordID i = [] \<longleftrightarrow> pi_RecordSHA256 i = []) \<and>
     (pi_RecordID i \<noteq> [] \<longrightarrow> validTransactionID (pi_RecordID i) \<and> validSHA256 (pi_RecordSHA256 i)) \<and>
     validAbsPath env (pi_DataRoot i) \<and> validInstallationPath (pi_DataRoot i) \<and>
     (case (pi_DataIdentity i, pi_DataParentIdentity i) of
        (Some x, None) \<Rightarrow> validInstallationIdentity x
      | (None, Some d) \<Rightarrow> validDataParentIdentity env d \<and> parent_matches env d (pi_DataRoot i)
      | _ \<Rightarrow> False) \<and>
     (case pi_SourceScope i of None \<Rightarrow> True | Some x \<Rightarrow> validInstallationSourceScope env x)"

fun check_plan_entries :: "path_env \<Rightarrow> string list \<Rightarrow> plan_entry list \<Rightarrow> go_error option" where
  "check_plan_entries env seen [] = None"
| "check_plan_entries env seen (e # es) =
     (if \<not> validInstallationEntry env e \<or> installationPathKey env (pl_Path e) \<in> set seen
      then Some (invalidInstallationPlan [])
      else check_plan_entries env (installationPathKey env (pl_Path e) # seen) es)"

definition validateInstallationPlanInput :: "path_env \<Rightarrow> plan_input \<Rightarrow> go_error option" where
  "validateInstallationPlanInput env i =
     (if in_Mode i \<noteq> ''repair'' \<and> in_Mode i \<noteq> ''fresh'' then Some (invalidInstallationPlan [])
      else if \<not> validSHA256 (in_CandidateSHA256 i) \<or> \<not> validInstallationPlanInstance env (in_Instance i)
      then Some (invalidInstallationPlan [])
      else case (in_Preserve i, in_Delete i) of
        (Some preserve, Some delete) \<Rightarrow>
          if length delete > 32 then Some (invalidInstallationPlan [])
          else if in_Mode i = ''repair'' \<and> delete \<noteq> [] then Some (invalidInstallationPlan [])
          else check_plan_entries env [] (preserve @ delete)
      | _ \<Rightarrow> Some (invalidInstallationPlan []))"

definition digest_of :: "install_plan \<Rightarrow> digest_document" where
  "digest_of p = \<lparr>dd_Schema = plan_Schema p, dd_Mode = plan_Mode p, dd_Instance = plan_Instance p,
     dd_CandidateSHA256 = plan_CandidateSHA256 p, dd_Preserve = plan_Preserve p, dd_Delete = plan_Delete p\<rparr>"

definition installationPlanDigest :: "plan_codec \<Rightarrow> install_plan \<Rightarrow> go_error + string" where
  "installationPlanDigest codec p =
     (case pk_digest codec (digest_of p) of
        Inl e \<Rightarrow> Inl (invalidInstallationPlan [Some e])
      | Inr raw \<Rightarrow>
          if length raw > MaxInstallationPlanBytes then Inl (invalidInstallationPlan [])
          else Inr (hex_encode (pk_sha256 codec raw)))"

definition validateInstallationPlanWireSize :: "plan_codec \<Rightarrow> install_plan \<Rightarrow> go_error option" where
  "validateInstallationPlanWireSize codec p =
     (case pk_plan codec p of
        Inl e \<Rightarrow> Some (invalidInstallationPlan [Some e])
      | Inr raw \<Rightarrow> if length raw > MaxInstallationPlanBytes then Some (invalidInstallationPlan [None]) else None)"

text \<open>The clones copy what the pointers point to and the slices: the identity on values,
  except that the copy of a nil slice is an empty one.\<close>

definition cloneInstallationEntries :: "plan_entry list option \<Rightarrow> plan_entry list option" where
  "cloneInstallationEntries es = Some (case es of None \<Rightarrow> [] | Some xs \<Rightarrow> xs)"

definition BindInstallationPlan :: "path_env \<Rightarrow> plan_codec \<Rightarrow> plan_input \<Rightarrow> go_error + install_plan" where
  "BindInstallationPlan env codec i =
     (case validateInstallationPlanInput env i of
        Some e \<Rightarrow> Inl e
      | None \<Rightarrow>
          let p = \<lparr>plan_Schema = ''mihari.install-plan/v1'', plan_Mode = in_Mode i, plan_Instance = in_Instance i,
                plan_CandidateSHA256 = in_CandidateSHA256 i, plan_Preserve = cloneInstallationEntries (in_Preserve i),
                plan_Delete = cloneInstallationEntries (in_Delete i), plan_PlanSHA256 = []\<rparr> in
          (case installationPlanDigest codec p of
             Inl e \<Rightarrow> Inl e
           | Inr digest \<Rightarrow>
               let p' = p\<lparr>plan_PlanSHA256 := digest\<rparr> in
               (case validateInstallationPlanWireSize codec p' of Some e \<Rightarrow> Inl e | None \<Rightarrow> Inr p')))"

definition plan_facts :: "install_plan \<Rightarrow> plan_input" where
  "plan_facts p = \<lparr>in_Mode = plan_Mode p, in_Instance = plan_Instance p,
     in_CandidateSHA256 = plan_CandidateSHA256 p, in_Preserve = plan_Preserve p, in_Delete = plan_Delete p\<rparr>"

definition VerifyInstallationPlan :: "path_env \<Rightarrow> plan_codec \<Rightarrow> install_plan \<Rightarrow> go_error option" where
  "VerifyInstallationPlan env codec p =
     (if plan_Schema p \<noteq> ''mihari.install-plan/v1'' \<or> \<not> validSHA256 (plan_PlanSHA256 p)
      then Some (invalidInstallationPlan [])
      else case validateInstallationPlanWireSize codec p of
        Some e \<Rightarrow> Some e
      | None \<Rightarrow>
      (case validateInstallationPlanInput env (plan_facts p) of
        Some e \<Rightarrow> Some e
      | None \<Rightarrow>
      (case installationPlanDigest codec p of
         Inl e \<Rightarrow> Some (invalidInstallationPlan [Some e])
       | Inr digest \<Rightarrow> if digest \<noteq> plan_PlanSHA256 p then Some (invalidInstallationPlan [None]) else None)))"

section \<open>The strict JSON codec\<close>

text \<open>A parsed JSON value (members in order, duplicates kept) and the description of a Go
  type as far as the codec looks at it.\<close>

datatype json =
    JNull | JBool bool | JInt int | JFloat string | JStr string
  | JArr "json list" | JObj "(string \<times> json) list"

datatype jtype = TScalar | TPtr jtype | TSlice jtype | TStruct "(string \<times> jtype) list"

text \<open>No duplicate member at any level and no nesting below 16.\<close>

function uniqueInstallationValue :: "nat \<Rightarrow> json \<Rightarrow> bool" where
  "uniqueInstallationValue depth j =
     (if depth > 16 then False
      else case j of
        JObj ms \<Rightarrow> distinct (map fst ms) \<and> list_all (uniqueInstallationValue (depth + 1)) (map snd ms)
      | JArr xs \<Rightarrow> list_all (uniqueInstallationValue (depth + 1)) xs
      | _ \<Rightarrow> True)"
  by pat_completeness auto
termination by (relation "measure (\<lambda>(depth, j). 17 - depth)") auto

declare uniqueInstallationValue.simps [simp del]

definition uniqueInstallationObject :: "json \<Rightarrow> bool" where
  "uniqueInstallationObject j \<longleftrightarrow>
     (case j of
        JObj ms \<Rightarrow> distinct (map fst ms) \<and> list_all (uniqueInstallationValue 1) (map snd ms)
      | _ \<Rightarrow> False)"

text \<open>Every field of a struct is there and no other; null only for pointers.\<close>

fun validateInstallationJSONShape :: "jtype \<Rightarrow> json \<Rightarrow> bool"
  and shape_fields :: "(string \<times> jtype) list \<Rightarrow> (string \<times> json) list \<Rightarrow> bool" where
  "validateInstallationJSONShape (TPtr t) j = (j = JNull \<or> validateInstallationJSONShape t j)"
| "validateInstallationJSONShape TScalar j = (j \<noteq> JNull)"
| "validateInstallationJSONShape (TStruct fs) j =
     (case j of
        JObj ms \<Rightarrow> card (set (map fst ms)) = card (set (map fst fs)) \<and> shape_fields fs ms
      | _ \<Rightarrow> False)"
| "validateInstallationJSONShape (TSlice t) j =
     (case j of JArr xs \<Rightarrow> list_all (validateInstallationJSONShape t) xs | _ \<Rightarrow> False)"
| "shape_fields [] ms = True"
| "shape_fields ((name, t) # fs) ms =
     ((case map_of (rev ms) name of None \<Rightarrow> False | Some v \<Rightarrow> validateInstallationJSONShape t v) \<and> shape_fields fs ms)"

text \<open>\<open>decodeInstallationJSON\<close> for a destination of type \<open>t\<close> with typed decoder \<open>dec\<close>;
  \<open>parse\<close> reads exactly one JSON value up to the end of the input.\<close>

definition decodeInstallationJSON ::
  "(string \<Rightarrow> go_error + json) \<Rightarrow> nat \<Rightarrow> jtype \<Rightarrow> (json \<Rightarrow> 'a option) \<Rightarrow> string \<Rightarrow> go_error + 'a" where
  "decodeInstallationJSON parse bound t dec raw =
     (if length raw > bound \<or> \<not> valid_utf8 raw then Inl ErrInvalid
      else case parse raw of
        Inl e \<Rightarrow> Inl e
      | Inr j \<Rightarrow>
          if \<not> uniqueInstallationObject j \<or> \<not> validateInstallationJSONShape t j then Inl ErrInvalid
          else (case dec j of None \<Rightarrow> Inl (Opaque ''json: cannot unmarshal'') | Some x \<Rightarrow> Inr x))"

section \<open>The record as JSON\<close>

fun dec_str :: "json \<Rightarrow> string option" where
  "dec_str (JStr s) = Some s" | "dec_str _ = None"

fun dec_bool :: "json \<Rightarrow> bool option" where
  "dec_bool (JBool b) = Some b" | "dec_bool _ = None"

fun dec_int64 :: "json \<Rightarrow> i64 option" where
  "dec_int64 (JInt i) = (if - (2 ^ 63) \<le> i \<and> i < 2 ^ 63 then Some i else None)" | "dec_int64 _ = None"

fun dec_ptr :: "(json \<Rightarrow> 'a option) \<Rightarrow> json \<Rightarrow> 'a option option" where
  "dec_ptr dec j = (if j = JNull then Some None else map_option Some (dec j))"

fun sequence_opt :: "'a option list \<Rightarrow> 'a list option" where
  "sequence_opt [] = Some []"
| "sequence_opt (x # xs) = do {y \<leftarrow> x; ys \<leftarrow> sequence_opt xs; Some (y # ys)}"

fun dec_list :: "(json \<Rightarrow> 'a option) \<Rightarrow> json \<Rightarrow> 'a list option" where
  "dec_list dec (JArr xs) = sequence_opt (map dec xs)" | "dec_list dec _ = None"

definition member :: "(json \<Rightarrow> 'a option) \<Rightarrow> string \<Rightarrow> json \<Rightarrow> 'a option" where
  "member dec name j = (case j of JObj ms \<Rightarrow> do {v \<leftarrow> map_of (rev ms) name; dec v} | _ \<Rightarrow> None)"

definition enc_ptr :: "('a \<Rightarrow> json) \<Rightarrow> 'a option \<Rightarrow> json" where
  "enc_ptr enc x = (case x of None \<Rightarrow> JNull | Some y \<Rightarrow> enc y)"

definition identity_json :: "identity \<Rightarrow> json" where
  "identity_json i = JObj [(''boot_id'', JStr (id_BootID i)), (''key'', JStr (id_Key i)), (''marker'', JStr (id_Marker i))]"

definition dec_identity :: "json \<Rightarrow> identity option" where
  "dec_identity j = do {b \<leftarrow> member dec_str ''boot_id'' j; k \<leftarrow> member dec_str ''key'' j; m \<leftarrow> member dec_str ''marker'' j;
     Some \<lparr>id_BootID = b, id_Key = k, id_Marker = m\<rparr>}"

definition identity_type :: jtype where
  "identity_type = TStruct [(''boot_id'', TScalar), (''key'', TScalar), (''marker'', TScalar)]"

definition data_parent_json :: "data_parent \<Rightarrow> json" where
  "data_parent_json d = JObj [(''path'', JStr (dp_Path d)), (''identity'', identity_json (dp_Identity d)),
     (''relative'', JStr (dp_Relative d))]"

definition dec_data_parent :: "json \<Rightarrow> data_parent option" where
  "dec_data_parent j = do {p \<leftarrow> member dec_str ''path'' j; i \<leftarrow> member dec_identity ''identity'' j;
     r \<leftarrow> member dec_str ''relative'' j; Some \<lparr>dp_Path = p, dp_Identity = i, dp_Relative = r\<rparr>}"

definition data_parent_type :: jtype where
  "data_parent_type = TStruct [(''path'', TScalar), (''identity'', identity_type), (''relative'', TScalar)]"

definition binary_json :: "binary \<Rightarrow> json" where
  "binary_json b = JObj [(''path'', JStr (bin_Path b)), (''sha256'', JStr (bin_SHA256 b)), (''version'', JStr (bin_Version b))]"

definition dec_binary :: "json \<Rightarrow> binary option" where
  "dec_binary j = do {p \<leftarrow> member dec_str ''path'' j; s \<leftarrow> member dec_str ''sha256'' j; v \<leftarrow> member dec_str ''version'' j;
     Some \<lparr>bin_Path = p, bin_SHA256 = s, bin_Version = v\<rparr>}"

definition binary_type :: jtype where
  "binary_type = TStruct [(''path'', TScalar), (''sha256'', TScalar), (''version'', TScalar)]"

definition manifest_json :: "manifest \<Rightarrow> json" where
  "manifest_json m = JObj [(''installed'', JBool (mf_Installed m)), (''data_root'', JStr (mf_DataRoot m)),
     (''install_root'', JStr (mf_InstallRoot m)), (''endpoint'', JStr (mf_Endpoint m)),
     (''credential'', JStr (mf_Credential m)), (''data_identity'', enc_ptr identity_json (mf_DataIdentity m)),
     (''data_parent_identity'', enc_ptr data_parent_json (mf_DataParentIdentity m)),
     (''binary'', enc_ptr binary_json (mf_Binary m)), (''definition_sha256'', JStr (mf_DefinitionSHA256 m)),
     (''enabled'', JBool (mf_Enabled m)), (''run_after_install'', JBool (mf_RunAfterInstall m))]"

definition dec_manifest :: "json \<Rightarrow> manifest option" where
  "dec_manifest j = do {
     a \<leftarrow> member dec_bool ''installed'' j; b \<leftarrow> member dec_str ''data_root'' j;
     c \<leftarrow> member dec_str ''install_root'' j; d \<leftarrow> member dec_str ''endpoint'' j;
     e \<leftarrow> member dec_str ''credential'' j; f \<leftarrow> member (dec_ptr dec_identity) ''data_identity'' j;
     g \<leftarrow> member (dec_ptr dec_data_parent) ''data_parent_identity'' j;
     h \<leftarrow> member (dec_ptr dec_binary) ''binary'' j; i \<leftarrow> member dec_str ''definition_sha256'' j;
     k \<leftarrow> member dec_bool ''enabled'' j; l \<leftarrow> member dec_bool ''run_after_install'' j;
     Some \<lparr>mf_Installed = a, mf_DataRoot = b, mf_InstallRoot = c, mf_Endpoint = d, mf_Credential = e,
       mf_DataIdentity = f, mf_DataParentIdentity = g, mf_Binary = h, mf_DefinitionSHA256 = i,
       mf_Enabled = k, mf_RunAfterInstall = l\<rparr>}"

definition manifest_type :: jtype where
  "manifest_type = TStruct [(''installed'', TScalar), (''data_root'', TScalar), (''install_root'', TScalar),
     (''endpoint'', TScalar), (''credential'', TScalar), (''data_identity'', TPtr identity_type),
     (''data_parent_identity'', TPtr data_parent_type), (''binary'', TPtr binary_type),
     (''definition_sha256'', TScalar), (''enabled'', TScalar), (''run_after_install'', TScalar)]"

definition owner_json :: "owner \<Rightarrow> json" where
  "owner_json o1 = JObj [(''boot_id'', JStr (ow_BootID o1)), (''pid'', JInt (ow_PID o1)), (''start'', JStr (ow_Start o1))]"

definition dec_owner :: "json \<Rightarrow> owner option" where
  "dec_owner j = do {b \<leftarrow> member dec_str ''boot_id'' j; p \<leftarrow> member dec_int64 ''pid'' j; s \<leftarrow> member dec_str ''start'' j;
     Some \<lparr>ow_BootID = b, ow_PID = p, ow_Start = s\<rparr>}"

definition owner_type :: jtype where
  "owner_type = TStruct [(''boot_id'', TScalar), (''pid'', TScalar), (''start'', TScalar)]"

definition state_ref_json :: "state_ref \<Rightarrow> json" where
  "state_ref_json r = JObj [(''id'', JStr (sr_ID r)), (''sha256'', JStr (sr_SHA256 r))]"

definition dec_state_ref :: "json \<Rightarrow> state_ref option" where
  "dec_state_ref j = do {i \<leftarrow> member dec_str ''id'' j; s \<leftarrow> member dec_str ''sha256'' j; Some \<lparr>sr_ID = i, sr_SHA256 = s\<rparr>}"

definition state_ref_type :: jtype where
  "state_ref_type = TStruct [(''id'', TScalar), (''sha256'', TScalar)]"

definition source_scope_json :: "source_scope \<Rightarrow> json" where
  "source_scope_json s = JObj [(''data_root'', JStr (sc_DataRoot s)), (''data_identity'', identity_json (sc_DataIdentity s)),
     (''selection'', JStr (sc_Selection s)), (''evidence_sha256'', JStr (sc_EvidenceSHA256 s))]"

definition dec_source_scope :: "json \<Rightarrow> source_scope option" where
  "dec_source_scope j = do {d \<leftarrow> member dec_str ''data_root'' j; i \<leftarrow> member dec_identity ''data_identity'' j;
     s \<leftarrow> member dec_str ''selection'' j; e \<leftarrow> member dec_str ''evidence_sha256'' j;
     Some \<lparr>sc_DataRoot = d, sc_DataIdentity = i, sc_Selection = s, sc_EvidenceSHA256 = e\<rparr>}"

definition source_scope_type :: jtype where
  "source_scope_type = TStruct [(''data_root'', TScalar), (''data_identity'', identity_type),
     (''selection'', TScalar), (''evidence_sha256'', TScalar)]"

definition state_json :: "install_state \<Rightarrow> json" where
  "state_json s = JObj [(''schema'', JStr (is_Schema s)), (''id'', JStr (is_ID s)), (''state'', JStr (is_State s)),
     (''operation'', JStr (is_Operation s)), (''owner'', enc_ptr owner_json (is_Owner s)),
     (''base'', enc_ptr manifest_json (is_Base s)), (''target'', manifest_json (is_Target s)),
     (''data_policy'', JStr (is_DataPolicy s)),
     (''reset_entries'', enc_ptr (\<lambda>es. JArr (map JStr es)) (is_ResetEntries s)),
     (''supersedes'', enc_ptr state_ref_json (is_Supersedes s)),
     (''source_scope'', enc_ptr source_scope_json (is_SourceScope s))]"

definition dec_state :: "json \<Rightarrow> install_state option" where
  "dec_state j = do {
     a \<leftarrow> member dec_str ''schema'' j; b \<leftarrow> member dec_str ''id'' j; c \<leftarrow> member dec_str ''state'' j;
     d \<leftarrow> member dec_str ''operation'' j; e \<leftarrow> member (dec_ptr dec_owner) ''owner'' j;
     f \<leftarrow> member (dec_ptr dec_manifest) ''base'' j; g \<leftarrow> member dec_manifest ''target'' j;
     h \<leftarrow> member dec_str ''data_policy'' j; i \<leftarrow> member (dec_ptr (dec_list dec_str)) ''reset_entries'' j;
     k \<leftarrow> member (dec_ptr dec_state_ref) ''supersedes'' j;
     l \<leftarrow> member (dec_ptr dec_source_scope) ''source_scope'' j;
     Some \<lparr>is_Schema = a, is_ID = b, is_State = c, is_Operation = d, is_Owner = e, is_Base = f, is_Target = g,
       is_DataPolicy = h, is_ResetEntries = i, is_Supersedes = k, is_SourceScope = l\<rparr>}"

definition state_type :: jtype where
  "state_type = TStruct [(''schema'', TScalar), (''id'', TScalar), (''state'', TScalar), (''operation'', TScalar),
     (''owner'', TPtr owner_type), (''base'', TPtr manifest_type), (''target'', manifest_type),
     (''data_policy'', TScalar), (''reset_entries'', TSlice TScalar), (''supersedes'', TPtr state_ref_type),
     (''source_scope'', TPtr source_scope_type)]"

definition MaxInstallationStateBytes :: nat where
  "MaxInstallationStateBytes = 65536"

definition DecodeInstallationState ::
  "path_env \<Rightarrow> (string \<Rightarrow> go_error + json) \<Rightarrow> string \<Rightarrow> go_error + install_state" where
  "DecodeInstallationState env parse raw =
     (case decodeInstallationJSON parse MaxInstallationStateBytes state_type dec_state raw of
        Inl e \<Rightarrow> Inl (invalidInstallationState [Some e])
      | Inr s \<Rightarrow> (case validateInstallationState env s of Some e \<Rightarrow> Inl e | None \<Rightarrow> Inr s))"

definition EncodeInstallationState ::
  "path_env \<Rightarrow> (json \<Rightarrow> go_error + string) \<Rightarrow> install_state \<Rightarrow> go_error + string" where
  "EncodeInstallationState env render s =
     (case validateInstallationState env s of
        Some e \<Rightarrow> Inl e
      | None \<Rightarrow>
          (case render (state_json s) of
             Inl e \<Rightarrow> Inl (invalidInstallationState [Some e])
           | Inr raw \<Rightarrow>
               if length raw > MaxInstallationStateBytes then Inl (invalidInstallationState [None])
               else Inr raw))"

section \<open>Lemmas on the codec\<close>

lemmas json_defs = identity_json_def data_parent_json_def binary_json_def manifest_json_def owner_json_def
  state_ref_json_def source_scope_json_def

lemmas type_defs = identity_type_def data_parent_type_def binary_type_def manifest_type_def owner_type_def
  state_ref_type_def source_scope_type_def

lemma member_JObj: "member dec name (JObj ms) = Option.bind (map_of (rev ms) name) dec"
  by (simp add: member_def)

lemma dec_identity_json [simp]: "dec_identity (identity_json i) = Some i"
  by (simp add: dec_identity_def identity_json_def member_JObj)

lemma dec_data_parent_json [simp]: "dec_data_parent (data_parent_json d) = Some d"
  by (simp add: dec_data_parent_def data_parent_json_def member_JObj)

lemma dec_binary_json [simp]: "dec_binary (binary_json b) = Some b"
  by (simp add: dec_binary_def binary_json_def member_JObj)

lemma enc_ptr_not_null: "enc_ptr enc (Some x) = enc x" "enc_ptr enc None = JNull"
  by (simp_all add: enc_ptr_def)

lemma dec_ptr_enc [simp]:
  assumes "\<And>x. dec (enc x) = Some x" "\<And>x. enc x \<noteq> JNull"
  shows "dec_ptr dec (enc_ptr enc y) = Some y"
  using assms by (cases y) (simp_all add: enc_ptr_def)

lemma json_not_null [simp]:
  "identity_json i \<noteq> JNull" "data_parent_json d \<noteq> JNull" "binary_json b \<noteq> JNull" "manifest_json m \<noteq> JNull"
  "owner_json w \<noteq> JNull" "state_ref_json r \<noteq> JNull" "source_scope_json s \<noteq> JNull"
  by (simp_all add: json_defs)

lemma dec_manifest_json [simp]: "dec_manifest (manifest_json m) = Some m"
  by (simp add: dec_manifest_def manifest_json_def member_JObj del: dec_ptr.simps)

lemma dec_state_ref_json [simp]: "dec_state_ref (state_ref_json r) = Some r"
  by (simp add: dec_state_ref_def state_ref_json_def member_JObj)

lemma dec_source_scope_json [simp]: "dec_source_scope (source_scope_json s) = Some s"
  by (simp add: dec_source_scope_def source_scope_json_def member_JObj)

lemma dec_owner_json: "- (2 ^ 63) \<le> ow_PID w \<Longrightarrow> ow_PID w < 2 ^ 63 \<Longrightarrow> dec_owner (owner_json w) = Some w"
  by (simp add: dec_owner_def owner_json_def member_JObj)

lemma dec_strings: "dec_list dec_str (JArr (map JStr es)) = Some es"
  by (induction es) simp_all

lemma unique_simps [simp]:
  "d \<le> 16 \<Longrightarrow> uniqueInstallationValue d (JStr s)"
  "d \<le> 16 \<Longrightarrow> uniqueInstallationValue d (JBool b)"
  "d \<le> 16 \<Longrightarrow> uniqueInstallationValue d (JInt i)"
  "d \<le> 16 \<Longrightarrow> uniqueInstallationValue d JNull"
  "d \<le> 16 \<Longrightarrow> uniqueInstallationValue d (JObj ms) =
     (distinct (map fst ms) \<and> list_all (uniqueInstallationValue (d + 1)) (map snd ms))"
  "d \<le> 16 \<Longrightarrow> uniqueInstallationValue d (JArr xs) = list_all (uniqueInstallationValue (d + 1)) xs"
  by (simp_all add: uniqueInstallationValue.simps)

lemma unique_ptr [simp]: "d \<le> 16 \<Longrightarrow> (\<And>x. uniqueInstallationValue d (enc x)) \<Longrightarrow> uniqueInstallationValue d (enc_ptr enc y)"
  by (cases y) (simp_all add: enc_ptr_def)

lemma unique_parts [simp]:
  "d \<le> 13 \<Longrightarrow> uniqueInstallationValue d (identity_json i)"
  "d \<le> 13 \<Longrightarrow> uniqueInstallationValue d (binary_json b)"
  "d \<le> 13 \<Longrightarrow> uniqueInstallationValue d (owner_json w)"
  "d \<le> 13 \<Longrightarrow> uniqueInstallationValue d (state_ref_json r)"
  by (simp_all add: json_defs)

lemma unique_nested [simp]:
  "d \<le> 12 \<Longrightarrow> uniqueInstallationValue d (data_parent_json p)"
  "d \<le> 12 \<Longrightarrow> uniqueInstallationValue d (source_scope_json s)"
  by (simp_all add: data_parent_json_def source_scope_json_def)

lemma unique_manifest [simp]: "d \<le> 11 \<Longrightarrow> uniqueInstallationValue d (manifest_json m)"
  by (simp add: manifest_json_def)

lemma unique_state: "uniqueInstallationObject (state_json s)"
  by (simp add: uniqueInstallationObject_def state_json_def list_all_iff)

lemma shape_ptr [simp]:
  "(\<And>x. validateInstallationJSONShape t (enc x)) \<Longrightarrow> validateInstallationJSONShape (TPtr t) (enc_ptr enc y)"
  by (cases y) (simp_all add: enc_ptr_def)

lemma shape_parts [simp]:
  "validateInstallationJSONShape identity_type (identity_json i)"
  "validateInstallationJSONShape binary_type (binary_json b)"
  "validateInstallationJSONShape owner_type (owner_json w)"
  "validateInstallationJSONShape state_ref_type (state_ref_json r)"
  by (simp_all add: json_defs type_defs)

lemma shape_nested [simp]:
  "validateInstallationJSONShape data_parent_type (data_parent_json p)"
  "validateInstallationJSONShape source_scope_type (source_scope_json s)"
  by (simp_all add: data_parent_json_def source_scope_json_def data_parent_type_def source_scope_type_def)

lemma shape_manifest [simp]: "validateInstallationJSONShape manifest_type (manifest_json m)"
  by (simp add: manifest_json_def manifest_type_def del: validateInstallationJSONShape.simps(1))

lemma shape_state:
  assumes "is_ResetEntries s = Some es" shows "validateInstallationJSONShape state_type (state_json s)"
  using assms
  by (simp add: state_json_def state_type_def enc_ptr_not_null(1) list_all_iff
        del: validateInstallationJSONShape.simps(1))

lemma dec_state_json:
  assumes "case is_Owner s of None \<Rightarrow> True | Some w \<Rightarrow> - (2 ^ 63) \<le> ow_PID w \<and> ow_PID w < 2 ^ 63"
  shows "dec_state (state_json s) = Some s"
proof -
  have o1: "dec_ptr dec_owner (enc_ptr owner_json (is_Owner s)) = Some (is_Owner s)"
    using assms by (cases "is_Owner s") (simp_all add: enc_ptr_def dec_owner_json)
  have r: "dec_ptr (dec_list dec_str) (enc_ptr (\<lambda>es. JArr (map JStr es)) (is_ResetEntries s)) = Some (is_ResetEntries s)"
    by (rule dec_ptr_enc) (rule dec_strings, simp)
  show ?thesis by (simp add: dec_state_def state_json_def member_JObj o1 r del: dec_ptr.simps)
qed

section \<open>Lemmas on validation\<close>

lemma check_entries_None: "check_entries seen es = None \<longleftrightarrow> distinct es \<and> set es \<subseteq> set reset_entries \<and> set es \<inter> set seen = {}"
  by (induction es arbitrary: seen) (auto simp: validResetEntry_def)

lemma check_plan_entries_None:
  "check_plan_entries env seen es = None \<longleftrightarrow>
     (\<forall>e \<in> set es. validInstallationEntry env e \<and> installationPathKey env (pl_Path e) \<notin> set seen) \<and>
     distinct (map (\<lambda>e. installationPathKey env (pl_Path e)) es)"
  by (induction es arbitrary: seen) (auto simp: image_iff)

lemma validateResetEntries_None:
  assumes "validateResetEntries s = None"
  obtains es where "is_ResetEntries s = Some es" "distinct es" "set es \<subseteq> set reset_entries"
    "es \<noteq> [] \<longleftrightarrow> is_Operation s = ''fresh''" "length es \<le> 32"
    "is_DataPolicy s = (if is_Operation s = ''fresh'' then ''reset'' else ''retain'')"
proof -
  obtain es where es: "is_ResetEntries s = Some es"
    using assms by (auto simp: validateResetEntries_def split: option.splits)
  note c = assms [unfolded validateResetEntries_def es option.case check_simps check_entries_None]
  have d: "is_DataPolicy s = (if is_Operation s = ''fresh'' then ''reset'' else ''retain'')"
    using c by (cases "is_Operation s = ''fresh''") simp_all
  then have n: "es \<noteq> [] \<longleftrightarrow> is_Operation s = ''fresh''"
    using c by (cases "is_Operation s = ''fresh''") simp_all
  have "distinct es" "set es \<subseteq> set reset_entries" "length es \<le> 32" using c by auto
  from that [OF es this(1,2) n this(3) d] show ?thesis .
qed

lemma validateManifest_None:
  assumes "validateInstallationManifest env m allow = None"
  shows "(mf_Installed m \<longrightarrow> mf_DataRoot m \<noteq> [] \<and> (\<exists>b. mf_Binary m = Some b \<and> validInstallationBinary env b)) \<and>
    (mf_DataParentIdentity m \<noteq> None \<longrightarrow> allow \<and> mf_DataIdentity m = None)"
  using assms
  by (auto simp: validateInstallationManifest_def valid_root_def Let_def split: if_splits option.splits)

lemma valid_hex_encode: "length bs = n \<Longrightarrow> \<forall>b \<in> set bs. b < 256 \<Longrightarrow> valid_hex n (hex_encode bs)"
  by (simp add: valid_hex_def hex_decode_encode)

section \<open>A concrete record and plan\<close>

definition demo_paths :: path_env where
  "demo_paths = \<lparr>pe_is_abs = (\<lambda>p. has_prefix p ''/''), pe_clean = (\<lambda>p. p), pe_join = (\<lambda>p q. p @ ''/'' @ q)\<rparr>"

definition empty_manifest :: manifest where
  "empty_manifest = \<lparr>mf_Installed = False, mf_DataRoot = [], mf_InstallRoot = [], mf_Endpoint = [],
     mf_Credential = [], mf_DataIdentity = None, mf_DataParentIdentity = None, mf_Binary = None,
     mf_DefinitionSHA256 = [], mf_Enabled = False, mf_RunAfterInstall = False\<rparr>"

definition demo_state :: install_state where
  "demo_state = \<lparr>is_Schema = ''mihari.install-state/v1'', is_ID = hex_encode (replicate 16 7),
     is_State = ''applying'', is_Operation = ''uninstall'',
     is_Owner = Some \<lparr>ow_BootID = [], ow_PID = 4711, ow_Start = ''1''\<rparr>, is_Base = None,
     is_Target = empty_manifest, is_DataPolicy = ''retain'', is_ResetEntries = Some [],
     is_Supersedes = None, is_SourceScope = None\<rparr>"

lemma demo_state_valid: "validateInstallationState demo_paths demo_state = None"
  by (simp add: validateInstallationState_def demo_state_def validTransactionID_def valid_hex_encode
        installation_operations_def validInstallationOwner_def validInstallationText_def
        validateInstallationManifest_def empty_manifest_def emptyInstallationManifest_def
        validateResetEntries_def)

definition demo_identity :: identity where
  "demo_identity = \<lparr>id_BootID = ''b'', id_Key = ''k'', id_Marker = ''m''\<rparr>"

definition demo_input :: plan_input where
  "demo_input = \<lparr>in_Mode = ''repair'',
     in_Instance = \<lparr>pi_RecordID = [], pi_RecordSHA256 = [], pi_DataRoot = ''/d'', pi_DataIdentity = Some demo_identity,
       pi_DataParentIdentity = None, pi_SourceScope = None, pi_Enabled = True, pi_RunAfterInstall = True\<rparr>,
     in_CandidateSHA256 = hex_encode (replicate 32 7),
     in_Preserve = Some [\<lparr>pl_Path = ''/d/mihari.yaml'', pl_Category = ''config''\<rparr>], in_Delete = Some []\<rparr>"

definition demo_codec :: plan_codec where
  "demo_codec = \<lparr>pk_plan = (\<lambda>_. Inr ''p''), pk_digest = (\<lambda>_. Inr ''d''), pk_sha256 = (\<lambda>_. replicate 32 1)\<rparr>"

definition demo_plan :: install_plan where
  "demo_plan = \<lparr>plan_Schema = ''mihari.install-plan/v1'', plan_Mode = in_Mode demo_input,
     plan_Instance = in_Instance demo_input, plan_CandidateSHA256 = in_CandidateSHA256 demo_input,
     plan_Preserve = in_Preserve demo_input, plan_Delete = in_Delete demo_input,
     plan_PlanSHA256 = hex_encode (replicate 32 1)\<rparr>"

lemma demo_input_valid: "validateInstallationPlanInput demo_paths demo_input = None"
  by (simp add: validateInstallationPlanInput_def demo_input_def validSHA256_def valid_hex_encode
        validInstallationPlanInstance_def validAbsPath_def validInstallationPath_def
        validInstallationIdentity_def validInstallationText_def demo_identity_def demo_paths_def
        validInstallationEntry_def installation_categories_def)

lemma demo_bind: "BindInstallationPlan demo_paths demo_codec demo_input = Inr demo_plan"
  by (simp add: BindInstallationPlan_def demo_input_valid installationPlanDigest_def
        validateInstallationPlanWireSize_def MaxInstallationPlanBytes_def demo_codec_def Let_def)
     (simp add: demo_plan_def demo_input_def cloneInstallationEntries_def)

lemma demo_verify: "VerifyInstallationPlan demo_paths demo_codec demo_plan = None"
proof -
  have "plan_facts demo_plan = demo_input" by (simp add: plan_facts_def demo_plan_def)
  then show ?thesis
    by (simp add: VerifyInstallationPlan_def demo_input_valid installationPlanDigest_def
          validateInstallationPlanWireSize_def MaxInstallationPlanBytes_def demo_codec_def)
       (simp add: demo_plan_def validSHA256_def valid_hex_encode)
qed

section \<open>Properties\<close>

text \<open>
  C13. The installation record survives the file: what \<open>EncodeInstallationState\<close> writes,
  \<open>DecodeInstallationState\<close> reads back as the same record, given that the JSON parser
  inverts the printer on this document and that the process ID is an \<open>int64\<close>.
\<close>

theorem installation_state_roundtrip:
  assumes "EncodeInstallationState env render s = Inr raw"
    and "parse raw = Inr (state_json s)" and "valid_utf8 raw"
    and "case is_Owner s of None \<Rightarrow> True | Some w \<Rightarrow> ow_PID w < 2 ^ 63"
  shows "DecodeInstallationState env parse raw = Inr s"
proof -
  have v: "validateInstallationState env s = None" and l: "length raw \<le> MaxInstallationStateBytes"
    using assms(1) by (auto simp: EncodeInstallationState_def split: option.splits sum.splits if_splits)
  have w: "case is_Owner s of None \<Rightarrow> True | Some w \<Rightarrow> - (2 ^ 63) \<le> ow_PID w \<and> ow_PID w < 2 ^ 63"
    using v assms(4) unfolding validateInstallationState_def check_simps
    by (auto simp: validInstallationOwner_def split: option.splits)
  obtain es where es: "is_ResetEntries s = Some es"
  proof -
    have "validateResetEntries s = None" using v unfolding validateInstallationState_def check_simps by blast
    then show ?thesis using that validateResetEntries_None by blast
  qed
  have "decodeInstallationJSON parse MaxInstallationStateBytes state_type dec_state raw = Inr s"
    using l assms(2,3) unique_state shape_state [OF es] dec_state_json [OF w]
    by (simp add: decodeInstallationJSON_def)
  then show ?thesis by (simp add: DecodeInstallationState_def v)
qed

theorem installation_state_roundtrip_witness:
  "DecodeInstallationState demo_paths (\<lambda>_. Inr (state_json demo_state)) ''{}'' = Inr demo_state"
proof -
  have e: "EncodeInstallationState demo_paths (\<lambda>_. Inr ''{}'') demo_state = Inr ''{}''"
    by (simp add: EncodeInstallationState_def demo_state_valid MaxInstallationStateBytes_def)
  show ?thesis
    by (rule installation_state_roundtrip [OF e]) (simp_all add: demo_state_def)
qed

text \<open>
  What every accepted installation record means: it has an owner exactly while it is
  being applied; its target is installed exactly unless the operation is an uninstall, and
  then has a verified binary and a data root; it lists data to reset exactly for a fresh
  installation, without duplicates and only from the fixed list of managed entries; and a
  complete record never refers to a data root that does not exist yet.
\<close>

theorem valid_state_meaning:
  assumes "DecodeInstallationState env parse raw = Inr s"
  shows "(is_Owner s \<noteq> None \<longleftrightarrow> is_State s = ''applying'') \<and>
    (mf_Installed (is_Target s) \<longleftrightarrow> is_Operation s \<noteq> ''uninstall'') \<and>
    (\<exists>es. is_ResetEntries s = Some es \<and> distinct es \<and> set es \<subseteq> set reset_entries \<and>
       (es \<noteq> [] \<longleftrightarrow> is_Operation s = ''fresh'') \<and>
       is_DataPolicy s = (if is_Operation s = ''fresh'' then ''reset'' else ''retain'')) \<and>
    (if mf_Installed (is_Target s)
     then mf_DataRoot (is_Target s) \<noteq> [] \<and> (\<exists>b. mf_Binary (is_Target s) = Some b \<and> validInstallationBinary env b)
     else True) \<and>
    (if is_State s = ''complete'' then mf_DataParentIdentity (is_Target s) = None else True)"
proof -
  have v: "validateInstallationState env s = None"
    using assms by (auto simp: DecodeInstallationState_def split: sum.splits option.splits)
  note c = v [unfolded validateInstallationState_def check_simps]
  let ?allow = "is_State s = ''applying'' \<and> (case is_Base s of None \<Rightarrow> True | Some b \<Rightarrow> emptyInstallationManifest b)"
  have m: "validateInstallationManifest env (is_Target s) ?allow = None" and r: "validateResetEntries s = None"
    using c by blast+
  obtain es where "is_ResetEntries s = Some es" "distinct es" "set es \<subseteq> set reset_entries"
    "es \<noteq> [] \<longleftrightarrow> is_Operation s = ''fresh''"
    "is_DataPolicy s = (if is_Operation s = ''fresh'' then ''reset'' else ''retain'')"
    using validateResetEntries_None [OF r] .
  moreover have "is_Owner s \<noteq> None \<longleftrightarrow> is_State s = ''applying''"
    using c by (auto split: option.splits)
  moreover have "mf_Installed (is_Target s) \<longleftrightarrow> is_Operation s \<noteq> ''uninstall''" using c by blast
  moreover have "mf_DataParentIdentity (is_Target s) = None" if "is_State s = ''complete''"
    using validateManifest_None [OF m] that by auto
  ultimately show ?thesis using validateManifest_None [OF m] by auto
qed

theorem valid_state_meaning_witness:
  "is_Owner demo_state \<noteq> None \<and> \<not> mf_Installed (is_Target demo_state)"
proof -
  have r: "is_ResetEntries demo_state = Some []" by (simp add: demo_state_def)
  have "case is_Owner demo_state of None \<Rightarrow> True | Some w \<Rightarrow> - (2 ^ 63) \<le> ow_PID w \<and> ow_PID w < 2 ^ 63"
    by (simp add: demo_state_def)
  from dec_state_json [OF this]
  have d: "DecodeInstallationState demo_paths (\<lambda>_. Inr (state_json demo_state)) ''{}'' = Inr demo_state"
    by (simp add: DecodeInstallationState_def decodeInstallationJSON_def unique_state shape_state [OF r]
          demo_state_valid MaxInstallationStateBytes_def)
  have "is_State demo_state = ''applying''" "is_Operation demo_state = ''uninstall''" by (simp_all add: demo_state_def)
  with valid_state_meaning [OF d] show ?thesis by metis
qed

text \<open>
  C21. A bound plan verifies, and the digest pins the plan: two plans that both verify with
  the same digest state the same facts (mode, instance, candidate, what is kept and what
  is deleted), provided that hashing the encoding is injective on the two documents.
\<close>

theorem plan_digest_binds:
  assumes "BindInstallationPlan env codec i = Inr p"
    and "\<And>raw. length (pk_sha256 codec raw) = 32 \<and> (\<forall>b \<in> set (pk_sha256 codec raw). b < 256)"
    and "VerifyInstallationPlan env codec q = None" and "plan_PlanSHA256 q = plan_PlanSHA256 p"
    and "\<And>x y. pk_digest codec (digest_of p) = Inr x \<Longrightarrow> pk_digest codec (digest_of q) = Inr y \<Longrightarrow>
      hex_encode (pk_sha256 codec x) = hex_encode (pk_sha256 codec y) \<Longrightarrow> digest_of p = digest_of q"
  shows "VerifyInstallationPlan env codec p = None \<and> plan_facts p = i \<and> plan_facts q = i"
proof -
  let ?p0 = "\<lparr>plan_Schema = ''mihari.install-plan/v1'', plan_Mode = in_Mode i, plan_Instance = in_Instance i,
    plan_CandidateSHA256 = in_CandidateSHA256 i, plan_Preserve = cloneInstallationEntries (in_Preserve i),
    plan_Delete = cloneInstallationEntries (in_Delete i), plan_PlanSHA256 = []\<rparr>"
  obtain digest where v: "validateInstallationPlanInput env i = None"
    and d: "installationPlanDigest codec ?p0 = Inr digest" and p: "p = ?p0\<lparr>plan_PlanSHA256 := digest\<rparr>"
    and w: "validateInstallationPlanWireSize codec p = None"
    using assms(1) by (auto simp: BindInstallationPlan_def Let_def split: option.splits sum.splits)
  have ne: "in_Preserve i \<noteq> None" "in_Delete i \<noteq> None"
    using v by (auto simp: validateInstallationPlanInput_def split: if_splits option.splits)
  have facts: "plan_facts p = i"
    using ne by (auto simp: p plan_facts_def cloneInstallationEntries_def)
  have dg: "installationPlanDigest codec p = Inr digest" using d by (simp add: installationPlanDigest_def p digest_of_def)
  obtain x where x: "pk_digest codec (digest_of p) = Inr x" "digest = hex_encode (pk_sha256 codec x)"
    using dg by (auto simp: installationPlanDigest_def split: sum.splits if_splits)
  have "VerifyInstallationPlan env codec p = None"
    using v facts w dg x(2) assms(2) by (simp add: VerifyInstallationPlan_def p validSHA256_def valid_hex_encode)
  moreover have "plan_facts q = plan_facts p"
  proof -
    have "installationPlanDigest codec q = Inr (plan_PlanSHA256 q)"
      using assms(3) by (auto simp: VerifyInstallationPlan_def split: if_splits option.splits sum.splits)
    then obtain y where y: "pk_digest codec (digest_of q) = Inr y" "plan_PlanSHA256 q = hex_encode (pk_sha256 codec y)"
      by (auto simp: installationPlanDigest_def split: sum.splits if_splits)
    have "digest_of p = digest_of q"
      by (rule assms(5) [OF x(1) y(1)]) (use assms(4) x(2) y(2) p in simp)
    then show ?thesis by (simp add: digest_of_def plan_facts_def)
  qed
  ultimately show ?thesis using facts by simp
qed

theorem plan_digest_binds_witness:
  "VerifyInstallationPlan demo_paths demo_codec demo_plan = None \<and> plan_facts demo_plan = demo_input"
  using plan_digest_binds [OF demo_bind _ demo_verify] by (simp add: demo_codec_def)

text \<open>
  What a verified plan can do to data: a repair deletes nothing, at most 32 entries are
  deleted, every entry is a valid absolute path of a known category, and no path is listed
  twice, so nothing is both preserved and deleted.
\<close>

theorem verified_plan_is_safe:
  assumes "VerifyInstallationPlan env codec p = None"
  shows "\<exists>preserve delete. plan_Preserve p = Some preserve \<and> plan_Delete p = Some delete \<and>
    (if plan_Mode p = ''repair'' then delete = [] else plan_Mode p = ''fresh'') \<and> length delete \<le> 32 \<and>
    list_all (validInstallationEntry env) (preserve @ delete) \<and>
    (\<lambda>e. installationPathKey env (pl_Path e)) ` set preserve \<inter> (\<lambda>e. installationPathKey env (pl_Path e)) ` set delete = {} \<and>
    distinct (map (\<lambda>e. installationPathKey env (pl_Path e)) (preserve @ delete))"
proof -
  have v: "validateInstallationPlanInput env (plan_facts p) = None"
    using assms by (auto simp: VerifyInstallationPlan_def split: if_splits option.splits)
  then obtain preserve delete where e: "plan_Preserve p = Some preserve" "plan_Delete p = Some delete"
    by (auto simp: validateInstallationPlanInput_def plan_facts_def split: if_splits option.splits)
  have "in_Preserve (plan_facts p) = Some preserve" "in_Delete (plan_facts p) = Some delete"
    "in_Mode (plan_facts p) = plan_Mode p" using e by (simp_all add: plan_facts_def)
  note f = v [unfolded validateInstallationPlanInput_def this prod.case option.case check_simps]
  have m: "if plan_Mode p = ''repair'' then delete = [] else plan_Mode p = ''fresh''" "length delete \<le> 32"
    using f by auto
  have c: "check_plan_entries env [] (preserve @ delete) = None" using f by blast
  have "list_all (validInstallationEntry env) (preserve @ delete)"
    "distinct (map (\<lambda>e. installationPathKey env (pl_Path e)) (preserve @ delete))"
    using c unfolding check_plan_entries_None by (auto simp: list_all_iff)
  then show ?thesis using e m by (auto simp: distinct_append)
qed

theorem verified_plan_is_safe_witness:
  "plan_Delete demo_plan = Some [] \<and> list_all (validInstallationEntry demo_paths) (the (plan_Preserve demo_plan))"
  using verified_plan_is_safe [OF demo_verify] by (auto simp: demo_plan_def demo_input_def)

end
