(* ===== verification/Install_Journal.thy ===== *)
theory Install_Journal
  imports Installation
begin

text \<open>
  \<open>internal/app/install_journal.go\<close> and the strict decoder of \<open>install_request.go\<close>: the
  write-ahead journal of an installation. The journal is a record that lists every
  external action with its old and new state and a status, intent or done; the store
  publishes it through a file interface (\<open>journalFiles\<close>), which is an argument here,
  over an arbitrary type of worlds. The theory shows that recording an action keeps the
  journal valid and changes only that action, and that what is published is what a later
  load returns.
\<close>

section \<open>Data\<close>

record journal_object =
  jo_Present :: bool
  jo_SHA256 :: string
  jo_Dev :: string
  jo_Ino :: string
  jo_MountID :: string
  jo_BootID :: string
  jo_Marker :: string
  jo_Identity :: string

definition no_object :: journal_object where
  "no_object = \<lparr>jo_Present = False, jo_SHA256 = [], jo_Dev = [], jo_Ino = [], jo_MountID = [],
     jo_BootID = [], jo_Marker = [], jo_Identity = []\<rparr>"

record service_backup =
  sb_Ref :: string
  sb_SHA256 :: string
  sb_Identity :: string

record journal_action =
  ja_Seq :: int
  ja_Kind :: string
  ja_TargetRole :: string
  ja_OldState :: string
  ja_BackupRef :: string
  ja_NewState :: string
  ja_CandidateRef :: string
  ja_Status :: string

text \<open>A nil slice of actions and an empty one are the same list; the zero time is 0.\<close>

record journal =
  jn_Schema :: string
  jn_TransactionID :: string
  jn_Operation :: string
  jn_Phase :: string
  jn_Mode :: string
  jn_SourcePath :: string
  jn_TargetPath :: string
  jn_InstallPath :: string
  jn_EndpointPath :: string
  jn_CredentialPath :: string
  jn_DataRoot :: string
  jn_BootID :: string
  jn_SourceIdentity :: journal_object
  jn_TargetIdentity :: journal_object
  jn_InstallIdentity :: journal_object
  jn_EndpointIdentity :: journal_object
  jn_CredentialIdentity :: journal_object
  jn_CandidateHash :: string
  jn_BackupHash :: string
  jn_DataAction :: string
  jn_ServiceBackup :: service_backup
  jn_OldRunning :: bool
  jn_OldEnabled :: bool
  jn_RecoveryAuthority :: string
  jn_CreatedAt :: int
  jn_TransactionMarker :: journal_object
  jn_Actions :: "journal_action list"

record durability =
  du_Published :: bool
  du_Durable :: bool
  du_Object :: journal_object

definition not_written :: durability where
  "not_written = \<lparr>du_Published = False, du_Durable = False, du_Object = no_object\<rparr>"

datatype action_progress = ActionNotStarted | ActionStarted

text \<open>The interface \<open>journalFiles\<close> over worlds: looking at a file and reading it leave the
  world alone, writing changes it and reports how far the write got.\<close>

record 'w journal_files =
  jf_inspect :: "string \<Rightarrow> 'w \<Rightarrow> go_error + journal_object"
  jf_read :: "string \<Rightarrow> nat \<Rightarrow> 'w \<Rightarrow> go_error + string"
  jf_write :: "string \<Rightarrow> string \<Rightarrow> journal_object \<Rightarrow> 'w \<Rightarrow> (durability \<times> go_error option) \<times> 'w"

text \<open>\<open>sha256.Sum256\<close>, \<open>json.Marshal\<close> of a journal, the token stream of a JSON text and
  \<open>Decoder.Decode\<close> into a journal with unknown fields refused.\<close>

record journal_codec =
  jc_paths :: path_env
  jc_sha256 :: "string \<Rightarrow> nat list"
  jc_marshal :: "journal \<Rightarrow> go_error + string"
  jc_parse :: "string \<Rightarrow> go_error + json"
  jc_decode :: "string \<Rightarrow> go_error + journal"

section \<open>Constants and errors\<close>

definition installJournalFileName :: string where
  "installJournalFileName = ''install-transaction.json''"

definition MaxInstallJournalBytes :: nat where
  "MaxInstallJournalBytes = 1048576"

definition install_phases :: "string list" where
  "install_phases = [''prepared'', ''stopped'', ''data_committed'', ''binaries_committed'',
     ''definition_committed'', ''activation_committed'', ''complete'']"

definition invalidInstallJournal :: "go_error option list \<Rightarrow> go_error" where
  "invalidInstallJournal causes =
     (case errors_join causes of
        None \<Rightarrow> Api (api CodeDataFailure ''invalid install journal'')
      | Some c \<Rightarrow> Failure (api CodeDataFailure ''invalid install journal'') (Some c))"

abbreviation bad_journal :: go_error where
  "bad_journal \<equiv> invalidInstallJournal []"

definition unknownInstallState :: go_error where
  "unknownInstallState = Api (api CodeInvalidState ''install recovery identity is unknown'')"

definition sha256Hex :: "journal_codec \<Rightarrow> string \<Rightarrow> string" where
  "sha256Hex c s = hex_encode (jc_sha256 c s)"

definition transactionMarkerPath :: "string \<Rightarrow> string" where
  "transactionMarkerPath i = ''transactions/'' @ i @ ''/transaction-id''"

section \<open>The strict decoder\<close>

text \<open>No duplicate member and no null at any level, no nesting below 16.\<close>

function uniqueJSONValue :: "nat \<Rightarrow> json \<Rightarrow> bool" where
  "uniqueJSONValue depth j =
     (if depth > 16 \<or> j = JNull then False
      else case j of
        JObj ms \<Rightarrow> distinct (map fst ms) \<and> list_all (uniqueJSONValue (depth + 1)) (map snd ms)
      | JArr xs \<Rightarrow> list_all (uniqueJSONValue (depth + 1)) xs
      | _ \<Rightarrow> True)"
  by pat_completeness auto
termination by (relation "measure (\<lambda>(depth, j). 17 - depth)") auto

declare uniqueJSONValue.simps [simp del]

definition uniqueJSONObject :: "json \<Rightarrow> bool" where
  "uniqueJSONObject j \<longleftrightarrow>
     (case j of
        JObj ms \<Rightarrow> distinct (map fst ms) \<and> list_all (uniqueJSONValue 1) (map snd ms)
      | _ \<Rightarrow> False)"

definition decodeStrictJSON ::
  "(string \<Rightarrow> go_error + json) \<Rightarrow> nat \<Rightarrow> (string \<Rightarrow> go_error + 'a) \<Rightarrow> string \<Rightarrow> go_error + 'a" where
  "decodeStrictJSON parse bound dec raw =
     (if length raw > bound \<or> \<not> valid_utf8 raw then Inl ErrInvalid
      else case parse raw of
        Inl e \<Rightarrow> Inl e
      | Inr j \<Rightarrow> if \<not> uniqueJSONObject j then Inl ErrInvalid else dec raw)"

section \<open>Validation\<close>

definition validateJournalObject :: "journal_object \<Rightarrow> bool \<Rightarrow> go_error option" where
  "validateJournalObject x required =
     (if \<not> jo_Present x
      then (if x \<noteq> no_object then Some bad_journal
            else if required then Some bad_journal else None)
      else if \<not> validSHA256 (jo_SHA256 x) \<or> jo_Dev x = [] \<or> jo_Ino x = [] \<or> jo_MountID x = [] \<or>
              jo_BootID x = [] \<or> jo_Marker x = [] \<or> jo_Identity x = []
      then Some bad_journal else None)"

definition journal_kinds :: "string list" where
  "journal_kinds =
     [''mask'', ''unmask'', ''disable'', ''enable'', ''stop'', ''start'',
      ''data_publish'', ''data_isolate'', ''managed_binary'', ''path_binary'', ''channel'',
      ''definition'', ''dropin'', ''disabled'', ''reload'', ''validation_start'', ''validation_stop'',
      ''activation'', ''restore_mask'', ''restore_unmask'', ''restore_disable'', ''restore_enable'',
      ''restore_stop'', ''restore_start'', ''restore_data'', ''restore_managed_binary'', ''restore_path_binary'',
      ''restore_channel'', ''restore_definition'', ''restore_dropin'', ''restore_disabled'', ''restore_reload'',
      ''restore_validation'']"

definition validJournalActionKind :: "string \<Rightarrow> bool" where
  "validJournalActionKind kind \<longleftrightarrow> kind \<in> set journal_kinds"

definition journal_roles :: "string list" where
  "journal_roles =
     [''source'', ''target'', ''data'', ''install'', ''endpoint'', ''credential'',
      ''channel'', ''managed_binary'', ''path_binary'', ''definition'', ''dropin'', ''validation'', ''activation'']"

definition validJournalRole :: "string \<Rightarrow> bool" where
  "validJournalRole role \<longleftrightarrow> role \<in> set journal_roles"

definition validateJournalAction :: "journal_action \<Rightarrow> go_error option" where
  "validateJournalAction a =
     (if ja_Seq a < 1 \<or> ja_OldState a = [] \<or> ja_NewState a = [] \<or> ja_OldState a = ja_NewState a
      then Some bad_journal
      else if ja_Status a \<noteq> ''intent'' \<and> ja_Status a \<noteq> ''done'' then Some bad_journal
      else if \<not> validJournalActionKind (ja_Kind a) \<or> \<not> validJournalRole (ja_TargetRole a)
      then Some bad_journal else None)"

text \<open>The loop over the actions; \<open>i\<close> is the index of the first.\<close>

fun validate_actions :: "int \<Rightarrow> journal_action list \<Rightarrow> go_error option" where
  "validate_actions i [] = None"
| "validate_actions i (a # as) =
     (if ja_Seq a \<noteq> i + 1 then Some bad_journal
      else case validateJournalAction a of Some e \<Rightarrow> Some e | None \<Rightarrow> validate_actions (i + 1) as)"

text \<open>\<open>strings.Contains(strings.ToLower(ref), "env")\<close>. No rune outside ASCII has one of
  these three letters as its lower case, so lowering the ASCII letters decides it.\<close>

definition lower_ascii :: "char \<Rightarrow> char" where
  "lower_ascii c = (if byte_in c 65 90 then char_of (of_char c + 32 :: nat) else c)"

fun contains :: "string \<Rightarrow> string \<Rightarrow> bool" where
  "contains [] p = (p = [])"
| "contains (c # s) p = (has_prefix (c # s) p \<or> contains s p)"

definition validate_identities :: "journal \<Rightarrow> go_error option" where
  "validate_identities j =
     (case validateJournalObject (jn_SourceIdentity j) (jn_SourcePath j \<noteq> []) of
        Some e \<Rightarrow> Some e
      | None \<Rightarrow>
     (case validateJournalObject (jn_TargetIdentity j) False of
        Some e \<Rightarrow> Some e
      | None \<Rightarrow>
     (case validateJournalObject (jn_InstallIdentity j) False of
        Some e \<Rightarrow> Some e
      | None \<Rightarrow>
     (case validateJournalObject (jn_EndpointIdentity j) False of
        Some e \<Rightarrow> Some e
      | None \<Rightarrow> validateJournalObject (jn_CredentialIdentity j) False))))"

definition validateInstallJournal :: "journal_codec \<Rightarrow> journal \<Rightarrow> go_error option" where
  "validateInstallJournal c j =
     (if jn_Schema j \<noteq> ''mihari.install-transaction/v1'' \<or> \<not> validTransactionID (jn_TransactionID j) \<or>
         jn_BootID j = [] \<or> jn_CreatedAt j = 0 then Some bad_journal
      else if jn_Operation j \<notin> {''install'', ''reinstall'', ''update'', ''recover''} then Some bad_journal
      else if jn_Phase j \<notin> set install_phases then Some bad_journal
      else if jn_Mode j \<noteq> ''system'' \<and> jn_Mode j \<noteq> ''private'' then Some bad_journal
      else if jn_DataAction j \<noteq> ''create'' \<and> jn_DataAction j \<noteq> ''retain'' then Some bad_journal
      else if jn_RecoveryAuthority j \<noteq> ''source'' \<and> jn_RecoveryAuthority j \<noteq> ''target'' then Some bad_journal
      else if \<not> list_all (validAbsPath (jc_paths c))
             [jn_TargetPath j, jn_InstallPath j, jn_EndpointPath j, jn_CredentialPath j, jn_DataRoot j]
      then Some bad_journal
      else if jn_SourcePath j \<noteq> [] \<and> \<not> validAbsPath (jc_paths c) (jn_SourcePath j) then Some bad_journal
      else case validate_identities j of Some e \<Rightarrow> Some e | None \<Rightarrow>
      (if \<not> validSHA256 (jn_CandidateHash j) \<or> \<not> validSHA256 (jn_BackupHash j) then Some bad_journal
      else if sb_Ref (jn_ServiceBackup j) = [] \<or>
              contains (map lower_ascii (sb_Ref (jn_ServiceBackup j))) ''env'' \<or>
              \<not> validSHA256 (sb_SHA256 (jn_ServiceBackup j)) \<or> sb_Identity (jn_ServiceBackup j) = []
      then Some bad_journal
      else case validateJournalObject (jn_TransactionMarker j) True of Some e \<Rightarrow> Some e | None \<Rightarrow>
      (if jo_Marker (jn_TransactionMarker j) \<noteq> jn_TransactionID j \<or>
          jo_SHA256 (jn_TransactionMarker j) \<noteq> sha256Hex c (jn_TransactionID j) then Some bad_journal
       else validate_actions 0 (jn_Actions j))))"

section \<open>The store\<close>

definition DecodeJournal :: "journal_codec \<Rightarrow> string \<Rightarrow> go_error + journal" where
  "DecodeJournal c raw =
     (case decodeStrictJSON (jc_parse c) MaxInstallJournalBytes (jc_decode c) raw of
        Inl e \<Rightarrow> Inl (invalidInstallJournal [Some e])
      | Inr j \<Rightarrow> (case validateInstallJournal c j of Some e \<Rightarrow> Inl e | None \<Rightarrow> Inr j))"

definition EncodeJournal :: "journal_codec \<Rightarrow> journal \<Rightarrow> go_error + string" where
  "EncodeJournal c j =
     (case validateInstallJournal c j of Some e \<Rightarrow> Inl e | None \<Rightarrow> jc_marshal c j)"

definition MatchJournalObject :: "journal_object \<Rightarrow> journal_object \<Rightarrow> go_error option" where
  "MatchJournalObject recorded actual =
     (if \<not> jo_Present recorded \<and> \<not> jo_Present actual then None
      else if \<not> jo_Present recorded \<or> \<not> jo_Present actual then Some unknownInstallState
      else if jo_SHA256 recorded \<noteq> jo_SHA256 actual \<or> jo_Marker recorded \<noteq> jo_Marker actual
      then Some unknownInstallState
      else if jo_BootID recorded \<noteq> jo_BootID actual then None
      else if jo_Dev recorded \<noteq> jo_Dev actual \<or> jo_Ino recorded \<noteq> jo_Ino actual \<or>
              jo_MountID recorded \<noteq> jo_MountID actual \<or> jo_Identity recorded \<noteq> jo_Identity actual
      then Some unknownInstallState else None)"

text \<open>The store is \<open>None\<close> when it has no file interface.\<close>

definition store_Load_journal ::
  "journal_codec \<Rightarrow> 'w journal_files option \<Rightarrow> 'w \<Rightarrow> go_error + journal" where
  "store_Load_journal c st w =
     (case st of
        None \<Rightarrow> Inl bad_journal
      | Some fs \<Rightarrow>
     (case jf_read fs installJournalFileName MaxInstallJournalBytes w of
        Inl e \<Rightarrow> Inl e
      | Inr raw \<Rightarrow>
     (case DecodeJournal c raw of
        Inl e \<Rightarrow> Inl e
      | Inr j \<Rightarrow>
     (case jf_inspect fs (transactionMarkerPath (jn_TransactionID j)) w of
        Inl e \<Rightarrow> Inl e
      | Inr marker \<Rightarrow>
     (case MatchJournalObject (jn_TransactionMarker j) marker of
        Some e \<Rightarrow> Inl e
      | None \<Rightarrow> Inr j)))))"

definition CreateTransactionMarker ::
  "journal_codec \<Rightarrow> 'w journal_files option \<Rightarrow> string \<Rightarrow> 'w
   \<Rightarrow> (journal_object \<times> go_error option) \<times> 'w" where
  "CreateTransactionMarker c st i w =
     (case st of
        None \<Rightarrow> ((no_object, Some bad_journal), w)
      | Some fs \<Rightarrow>
     (if \<not> validTransactionID i then ((no_object, Some bad_journal), w)
      else
      case jf_inspect fs (transactionMarkerPath i) w of
        Inl e \<Rightarrow> ((no_object, Some e), w)
      | Inr existing \<Rightarrow>
          if jo_Present existing
          then (if jo_Marker existing \<noteq> i \<or> jo_SHA256 existing \<noteq> sha256Hex c i
                then ((no_object, Some unknownInstallState), w)
                else ((existing, None), w))
          else
          (case jf_write fs (transactionMarkerPath i) i no_object w of
             ((d, err), w') \<Rightarrow>
               let object =
                 (if jo_Present (du_Object d)
                  then (du_Object d)\<lparr>jo_Marker := i,
                         jo_SHA256 := (if jo_SHA256 (du_Object d) = [] then sha256Hex c i
                                       else jo_SHA256 (du_Object d))\<rparr>
                  else du_Object d) in
               if err \<noteq> None \<and> \<not> du_Published d then ((no_object, err), w')
               else if \<not> jo_Present object then ((no_object, Some bad_journal), w')
               else ((object, err), w'))))"

definition store_Save_journal ::
  "journal_codec \<Rightarrow> 'w journal_files option \<Rightarrow> journal \<Rightarrow> 'w \<Rightarrow> (durability \<times> go_error option) \<times> 'w" where
  "store_Save_journal c st j w =
     (case st of
        None \<Rightarrow> ((not_written, Some bad_journal), w)
      | Some fs \<Rightarrow>
     (case EncodeJournal c j of
        Inl e \<Rightarrow> ((not_written, Some e), w)
      | Inr raw \<Rightarrow>
     (case jf_inspect fs installJournalFileName w of
        Inl e \<Rightarrow> ((not_written, Some e), w)
      | Inr old \<Rightarrow> jf_write fs installJournalFileName raw old w)))"

text \<open>The done entry: missing fields are taken over from the intent.\<close>

definition fill_action :: "journal_action \<Rightarrow> journal_action \<Rightarrow> journal_action" where
  "fill_action existing a =
     a\<lparr>ja_OldState := (if ja_OldState a = [] then ja_OldState existing else ja_OldState a),
       ja_NewState := (if ja_NewState a = [] then ja_NewState existing else ja_NewState a),
       ja_BackupRef := (if ja_BackupRef a = [] then ja_BackupRef existing else ja_BackupRef a),
       ja_CandidateRef := (if ja_CandidateRef a = [] then ja_CandidateRef existing else ja_CandidateRef a)\<rparr>"

fun complete_action :: "journal_action \<Rightarrow> journal_action list \<Rightarrow> go_error + journal_action list" where
  "complete_action a [] = Inl bad_journal"
| "complete_action a (e # es) =
     (if ja_Seq e \<noteq> ja_Seq a \<or> ja_Kind e \<noteq> ja_Kind a \<or> ja_TargetRole e \<noteq> ja_TargetRole a
      then (case complete_action a es of Inl x \<Rightarrow> Inl x | Inr es' \<Rightarrow> Inr (e # es'))
      else if ja_Status e \<noteq> ''intent'' then Inl bad_journal
      else case validateJournalAction (fill_action e a) of
        Some x \<Rightarrow> Inl x
      | None \<Rightarrow> Inr (fill_action e a # es))"

definition next_actions :: "journal_action \<Rightarrow> journal_action list \<Rightarrow> go_error + journal_action list" where
  "next_actions a as =
     (if ja_Status a = ''intent''
      then (let a' = a\<lparr>ja_Seq := int (length as) + 1\<rparr> in
            case validateJournalAction a' of Some e \<Rightarrow> Inl e | None \<Rightarrow> Inr (as @ [a']))
      else if ja_Status a = ''done'' then complete_action a as
      else Inl bad_journal)"

definition RecordAction ::
  "journal_codec \<Rightarrow> 'w journal_files option \<Rightarrow> journal_action \<Rightarrow> journal \<Rightarrow> 'w
   \<Rightarrow> (durability \<times> go_error option) \<times> journal \<times> 'w" where
  "RecordAction c st a j w =
     (case next_actions a (jn_Actions j) of
        Inl e \<Rightarrow> ((not_written, Some e), j, w)
      | Inr as \<Rightarrow>
          (case store_Save_journal c st (j\<lparr>jn_Actions := as\<rparr>) w of
             ((d, err), w') \<Rightarrow> ((d, err), if du_Published d then j\<lparr>jn_Actions := as\<rparr> else j, w')))"

definition IncompleteActions :: "journal \<Rightarrow> journal_action list" where
  "IncompleteActions j = filter (\<lambda>a. ja_Status a \<noteq> ''done'') (jn_Actions j)"

definition ClassifyObservedAction :: "journal_action \<Rightarrow> string \<Rightarrow> go_error + action_progress" where
  "ClassifyObservedAction a actual =
     (if actual = ja_OldState a then Inr ActionNotStarted
      else if actual = ja_NewState a then Inr ActionStarted
      else Inl unknownInstallState)"

definition ResolveObject ::
  "'w journal_files option \<Rightarrow> string \<Rightarrow> journal_object \<Rightarrow> 'w \<Rightarrow> journal_object \<times> go_error option" where
  "ResolveObject st name recorded w =
     (case st of
        None \<Rightarrow> (no_object, Some bad_journal)
      | Some fs \<Rightarrow>
          (case jf_inspect fs name w of
             Inl e \<Rightarrow> (no_object, Some e)
           | Inr actual \<Rightarrow> (actual, MatchJournalObject recorded actual)))"

text \<open>\<open>install_recovery.go\<close>: the daemon's gate.\<close>

definition InstallPending :: "journal \<Rightarrow> bool" where
  "InstallPending j \<longleftrightarrow>
     jn_Phase j \<in> {''prepared'', ''stopped'', ''data_committed'', ''binaries_committed'', ''definition_committed''}"

definition CheckDaemonInstallJournal :: "journal \<Rightarrow> go_error option" where
  "CheckDaemonInstallJournal j =
     (if InstallPending j then Some (Api (api CodeInvalidState ''install recovery required'')) else None)"

section \<open>Lemmas\<close>

lemma validate_actions_None:
  "validate_actions i as = None \<longleftrightarrow>
     (\<forall>k < length as. ja_Seq (as ! k) = i + 1 + int k \<and> validateJournalAction (as ! k) = None)"
proof (induction as arbitrary: i)
  case (Cons a as)
  show ?case
    unfolding validate_actions.simps check_simps Cons.IH
    by (auto simp: nth_Cons split: nat.splits)
qed simp

lemma complete_action_Inr:
  assumes "complete_action a as = Inr as'"
  obtains k where "k < length as" "as' = as[k := fill_action (as ! k) a]" "ja_Status (as ! k) = ''intent''"
    "ja_Seq (as ! k) = ja_Seq a" "ja_Kind (as ! k) = ja_Kind a" "ja_TargetRole (as ! k) = ja_TargetRole a"
    "validateJournalAction (fill_action (as ! k) a) = None"
  using assms
proof (induction as arbitrary: as' thesis)
  case (Cons e es)
  show ?case
  proof (cases "ja_Seq e \<noteq> ja_Seq a \<or> ja_Kind e \<noteq> ja_Kind a \<or> ja_TargetRole e \<noteq> ja_TargetRole a")
    case True
    then obtain es' where es': "complete_action a es = Inr es'" "as' = e # es'"
      using Cons.prems(2) by (auto split: sum.splits)
    show ?thesis
      by (rule Cons.IH [OF _ es'(1)]) (use Cons.prems(1) [of "Suc _"] es'(2) in simp)
  next
    case False
    then show ?thesis using Cons.prems(2) Cons.prems(1) [of 0] by (auto split: option.splits if_splits)
  qed
qed simp

lemma complete_action_at:
  assumes "complete_action a as = Inr as'" "k < length as"
    and "ja_Seq (as ! k) = ja_Seq a" "ja_Kind (as ! k) = ja_Kind a" "ja_TargetRole (as ! k) = ja_TargetRole a"
    and "\<And>m. m < k \<Longrightarrow> ja_Seq (as ! m) \<noteq> ja_Seq a"
  shows "as' = as[k := fill_action (as ! k) a]"
  using assms
proof (induction as arbitrary: as' k)
  case (Cons e es)
  show ?case
  proof (cases k)
    case 0
    then show ?thesis using Cons.prems(1,3,4,5) by (auto split: if_splits option.splits)
  next
    case (Suc i)
    have "ja_Seq e \<noteq> ja_Seq a" using Cons.prems(6) [of 0] Suc by simp
    then obtain es' where e: "complete_action a es = Inr es'" "as' = e # es'"
      using Cons.prems(1) by (auto split: sum.splits)
    have "es' = es[i := fill_action (es ! i) a]"
      by (rule Cons.IH [OF e(1)]) (use Cons.prems(2-6) Suc Cons.prems(6) [of "Suc _"] in auto)
    then show ?thesis using e(2) Suc by simp
  qed
qed simp

lemma fill_action_fields [simp]:
  "ja_Seq (fill_action e a) = ja_Seq a" "ja_Kind (fill_action e a) = ja_Kind a"
  "ja_TargetRole (fill_action e a) = ja_TargetRole a" "ja_Status (fill_action e a) = ja_Status a"
  by (simp_all add: fill_action_def)

lemma fill_action_done: "ja_OldState a \<noteq> [] \<Longrightarrow> ja_NewState a \<noteq> [] \<Longrightarrow>
    fill_action a (a\<lparr>ja_Status := st\<rparr>) = a\<lparr>ja_Status := st\<rparr>"
  by (simp add: fill_action_def)

text \<open>The next list of actions is the old one with one action appended as an intent, or
  with one intent completed; either way the list stays valid.\<close>

definition appended :: "journal_action \<Rightarrow> journal_action list \<Rightarrow> journal_action list" where
  "appended a as = as @ [a\<lparr>ja_Seq := int (length as) + 1\<rparr>]"

definition completed :: "journal_action \<Rightarrow> journal_action list \<Rightarrow> nat \<Rightarrow> journal_action list" where
  "completed a as k = as[k := fill_action (as ! k) a]"

definition advances :: "journal_action \<Rightarrow> journal_action list \<Rightarrow> journal_action list \<Rightarrow> bool" where
  "advances a as as' \<longleftrightarrow>
     ja_Status a = ''intent'' \<and> as' = appended a as \<or>
     ja_Status a = ''done'' \<and>
       (\<exists>k < length as. as' = completed a as k \<and> ja_Status (as ! k) = ''intent'' \<and>
          ja_Seq (as ! k) = ja_Seq a \<and> ja_Kind (as ! k) = ja_Kind a \<and> ja_TargetRole (as ! k) = ja_TargetRole a)"

lemma next_actions_Inr:
  assumes "next_actions a as = Inr as'" and "validate_actions 0 as = None"
  shows "advances a as as' \<and> validate_actions 0 as' = None"
proof (cases "ja_Status a = ''intent''")
  case True
  then have e: "as' = appended a as" "validateJournalAction (a\<lparr>ja_Seq := int (length as) + 1\<rparr>) = None"
    using assms(1) by (auto simp: next_actions_def Let_def appended_def split: option.splits)
  then have "validate_actions 0 as' = None"
    using assms(2) by (auto simp: validate_actions_None appended_def nth_append less_Suc_eq)
  then show ?thesis using True e(1) by (simp add: advances_def)
next
  case False
  then have d: "ja_Status a = ''done''" and c: "complete_action a as = Inr as'"
    using assms(1) by (auto simp: next_actions_def split: if_splits)
  obtain k where k: "k < length as" "as' = as[k := fill_action (as ! k) a]" "ja_Status (as ! k) = ''intent''"
    "ja_Seq (as ! k) = ja_Seq a" "ja_Kind (as ! k) = ja_Kind a" "ja_TargetRole (as ! k) = ja_TargetRole a"
    "validateJournalAction (fill_action (as ! k) a) = None"
    by (rule complete_action_Inr [OF c])
  have "validate_actions 0 as' = None"
    using assms(2) k by (auto simp: validate_actions_None nth_list_update)
  then show ?thesis using d k by (auto simp: advances_def completed_def)
qed

lemma validateInstallJournal_actions:
  "validateInstallJournal c (j\<lparr>jn_Actions := as\<rparr>) = None \<longleftrightarrow>
     validateInstallJournal c (j\<lparr>jn_Actions := []\<rparr>) = None \<and> validate_actions 0 as = None"
  unfolding validateInstallJournal_def check_simps validate_identities_def by simp

lemma validateInstallJournal_split:
  "validateInstallJournal c j = None \<longleftrightarrow>
     validateInstallJournal c (j\<lparr>jn_Actions := []\<rparr>) = None \<and> validate_actions 0 (jn_Actions j) = None"
  using validateInstallJournal_actions [where c = c and j = j and as = "jn_Actions j"] by simp

lemma RecordAction_cases:
  assumes "RecordAction c st a j w = ((d, err), j', w')"
  obtains (refused) e where "next_actions a (jn_Actions j) = Inl e" "d = not_written" "err = Some e" "j' = j" "w' = w"
  | (saved) as where "next_actions a (jn_Actions j) = Inr as"
      "store_Save_journal c st (j\<lparr>jn_Actions := as\<rparr>) w = ((d, err), w')"
      "j' = (if du_Published d then j\<lparr>jn_Actions := as\<rparr> else j)"
  using assms by (auto simp: RecordAction_def split: sum.splits prod.splits)

section \<open>What the file interface and the codec promise\<close>

text \<open>
  \<open>Published\<close> means that the rename is done and \<open>Durable\<close> that the directory is synced
  after it; without an error both hold. A published file is read back whole. A write that
  is not published has left the file as it was, or has replaced it without being able to
  confirm this: when the sync of the directory and the inspection after the rename both
  fail, the writer reports neither. No write of the journal changes another file. The theory
  \<open>Install_Files\<close> shows that the files of \<open>install_journal_unix.go\<close> keep these laws.
\<close>

definition lawful_files :: "'w journal_files \<Rightarrow> bool" where
  "lawful_files fs \<longleftrightarrow>
     (\<forall>raw old w d err w'. jf_write fs installJournalFileName raw old w = ((d, err), w') \<longrightarrow>
        (du_Durable d \<longrightarrow> du_Published d) \<and> (err = None \<longrightarrow> du_Durable d) \<and>
        (\<forall>bound > 0. du_Published d \<and> length raw \<le> bound \<longrightarrow> jf_read fs installJournalFileName bound w' = Inr raw) \<and>
        ((\<forall>bound. jf_read fs installJournalFileName bound w' = jf_read fs installJournalFileName bound w) \<or>
         (\<forall>bound > 0. length raw \<le> bound \<longrightarrow> jf_read fs installJournalFileName bound w' = Inr raw)) \<and>
        (\<forall>n. n \<noteq> installJournalFileName \<longrightarrow>
          (\<forall>bound. jf_read fs n bound w' = jf_read fs n bound w) \<and> jf_inspect fs n w' = jf_inspect fs n w))"

text \<open>Every string of a journal; JSON replaces bytes that are not UTF-8.\<close>

definition action_texts :: "journal_action \<Rightarrow> string list" where
  "action_texts a = [ja_Kind a, ja_TargetRole a, ja_OldState a, ja_BackupRef a, ja_NewState a, ja_CandidateRef a, ja_Status a]"

definition object_texts :: "journal_object \<Rightarrow> string list" where
  "object_texts x = [jo_SHA256 x, jo_Dev x, jo_Ino x, jo_MountID x, jo_BootID x, jo_Marker x, jo_Identity x]"

definition utf8_header :: "journal \<Rightarrow> bool" where
  "utf8_header j \<longleftrightarrow> list_all valid_utf8
     ([jn_SourcePath j, jn_TargetPath j, jn_InstallPath j, jn_EndpointPath j, jn_CredentialPath j, jn_DataRoot j,
       jn_BootID j, sb_Ref (jn_ServiceBackup j), sb_Identity (jn_ServiceBackup j)] @
      concat (map object_texts [jn_SourceIdentity j, jn_TargetIdentity j, jn_InstallIdentity j, jn_EndpointIdentity j,
        jn_CredentialIdentity j, jn_TransactionMarker j]))"

definition utf8_actions :: "journal_action list \<Rightarrow> bool" where
  "utf8_actions as \<longleftrightarrow> list_all (\<lambda>a. list_all valid_utf8 (action_texts a)) as"

definition lawful_codec :: "journal_codec \<Rightarrow> bool" where
  "lawful_codec c \<longleftrightarrow>
     (\<forall>j raw. utf8_header j \<and> utf8_actions (jn_Actions j) \<and> jc_marshal c j = Inr raw \<longrightarrow>
        valid_utf8 raw \<and> (\<exists>t. jc_parse c raw = Inr t \<and> uniqueJSONObject t) \<and> jc_decode c raw = Inr j)"

text \<open>Nothing bounds the encoding before it is written.\<close>

definition oversized :: "journal_codec \<Rightarrow> journal \<Rightarrow> bool" where
  "oversized c j \<longleftrightarrow> (\<exists>raw. jc_marshal c j = Inr raw \<and> length raw > MaxInstallJournalBytes)"

lemma DecodeJournal_marshal:
  assumes "lawful_codec c" "utf8_header j" "utf8_actions (jn_Actions j)" "EncodeJournal c j = Inr raw" "\<not> oversized c j"
  shows "DecodeJournal c raw = Inr j"
proof -
  have v: "validateInstallJournal c j = None" and m: "jc_marshal c j = Inr raw"
    using assms(4) by (auto simp: EncodeJournal_def split: option.splits)
  have l: "length raw \<le> MaxInstallJournalBytes" using assms(5) m by (simp add: oversized_def)
  obtain t where "valid_utf8 raw" "jc_parse c raw = Inr t" "uniqueJSONObject t" "jc_decode c raw = Inr j"
    using assms(1-3) m unfolding lawful_codec_def by meson
  then show ?thesis using l v by (simp add: DecodeJournal_def decodeStrictJSON_def)
qed

lemma store_Load_valid: "store_Load_journal c st w = Inr j \<Longrightarrow> validateInstallJournal c j = None"
  by (auto simp: store_Load_journal_def DecodeJournal_def split: option.splits sum.splits)

lemma marker_not_journal [simp]: "transactionMarkerPath i \<noteq> installJournalFileName"
  by (simp add: transactionMarkerPath_def installJournalFileName_def)

lemma store_Load_journal_Some:
  "store_Load_journal c (Some fs) w = Inr j \<longleftrightarrow>
     (\<exists>raw marker. jf_read fs installJournalFileName MaxInstallJournalBytes w = Inr raw \<and> DecodeJournal c raw = Inr j \<and>
        jf_inspect fs (transactionMarkerPath (jn_TransactionID j)) w = Inr marker \<and>
        MatchJournalObject (jn_TransactionMarker j) marker = None)"
  by (auto simp: store_Load_journal_def split: sum.splits option.splits)

text \<open>Saving a journal of the same transaction: a load then gives the new journal if the write
  is published, and otherwise the old one or, after a failure that left this open, the new one.\<close>

lemma store_Save_disk:
  assumes "lawful_files fs" "lawful_codec c" "utf8_header j'" "utf8_actions (jn_Actions j')" "\<not> oversized c j'"
    and "store_Load_journal c (Some fs) w = Inr j"
    and "jn_TransactionID j' = jn_TransactionID j" "jn_TransactionMarker j' = jn_TransactionMarker j"
    and "store_Save_journal c (Some fs) j' w = ((d, err), w')"
  shows "du_Published d \<Longrightarrow> store_Load_journal c (Some fs) w' = Inr j'"
    and "\<not> du_Published d \<Longrightarrow> err \<noteq> None \<and> store_Load_journal c (Some fs) w' \<in> {Inr j, Inr j'}"
    and "err = None \<Longrightarrow> du_Durable d" and "du_Durable d \<Longrightarrow> du_Published d"
proof -
  obtain raw0 marker where L: "jf_read fs installJournalFileName MaxInstallJournalBytes w = Inr raw0"
    "DecodeJournal c raw0 = Inr j" "jf_inspect fs (transactionMarkerPath (jn_TransactionID j)) w = Inr marker"
    "MatchJournalObject (jn_TransactionMarker j) marker = None"
    using assms(6) by (auto simp: store_Load_journal_Some)
  consider (failed) e where "d = not_written" "err = Some e" "w' = w"
    | (wrote) raw old where "EncodeJournal c j' = Inr raw" "jf_write fs installJournalFileName raw old w = ((d, err), w')"
    using assms(9) by (auto simp: store_Save_journal_def split: sum.splits)
  then have "(du_Published d \<longrightarrow> store_Load_journal c (Some fs) w' = Inr j') \<and>
    (\<not> du_Published d \<longrightarrow> err \<noteq> None \<and> store_Load_journal c (Some fs) w' \<in> {Inr j, Inr j'}) \<and>
    (err = None \<longrightarrow> du_Durable d) \<and> (du_Durable d \<longrightarrow> du_Published d)"
  proof cases
    case failed
    then show ?thesis using assms(6) by (simp add: not_written_def)
  next
    case wrote
    note law = assms(1) [unfolded lawful_files_def, rule_format, OF wrote(2)]
    have dec: "DecodeJournal c raw = Inr j'" by (rule DecodeJournal_marshal [OF assms(2-4) wrote(1) assms(5)])
    have len: "length raw \<le> MaxInstallJournalBytes"
      using wrote(1) assms(5) by (auto simp: EncodeJournal_def oversized_def split: option.splits)
    have m: "jf_inspect fs (transactionMarkerPath (jn_TransactionID j)) w' = Inr marker"
      using law L(3) by simp
    have new: "store_Load_journal c (Some fs) w' = Inr j'"
      if "jf_read fs installJournalFileName MaxInstallJournalBytes w' = Inr raw"
      using that m dec L(4) assms(7,8) by (auto simp: store_Load_journal_Some)
    have old: "store_Load_journal c (Some fs) w' = Inr j"
      if "jf_read fs installJournalFileName MaxInstallJournalBytes w' = Inr raw0"
      using that m L(2,4) by (auto simp: store_Load_journal_Some)
    have pos: "0 < MaxInstallJournalBytes" by (simp add: MaxInstallJournalBytes_def)
    have "jf_read fs installJournalFileName MaxInstallJournalBytes w' = Inr raw0 \<or>
        jf_read fs installJournalFileName MaxInstallJournalBytes w' = Inr raw"
      using law L(1) len pos by (metis (no_types, lifting))
    moreover have "jf_read fs installJournalFileName MaxInstallJournalBytes w' = Inr raw" if "du_Published d"
      using law len pos that by blast
    ultimately show ?thesis using law new old by blast
  qed
  then show "du_Published d \<Longrightarrow> store_Load_journal c (Some fs) w' = Inr j'"
    "\<not> du_Published d \<Longrightarrow> err \<noteq> None \<and> store_Load_journal c (Some fs) w' \<in> {Inr j, Inr j'}"
    "err = None \<Longrightarrow> du_Durable d" "du_Durable d \<Longrightarrow> du_Published d" by blast+
qed

section \<open>A concrete store\<close>

text \<open>A world with one file slot and a marker, a codec that writes a fixed text for one journal.\<close>

definition demo_object :: journal_object where
  "demo_object = \<lparr>jo_Present = True, jo_SHA256 = hex_encode (replicate 32 7), jo_Dev = ''8'', jo_Ino = ''1'', jo_MountID = ''2'',
     jo_BootID = ''b'', jo_Marker = hex_encode (replicate 16 7), jo_Identity = ''8:1''\<rparr>"

definition demo_journal :: journal where
  "demo_journal = \<lparr>jn_Schema = ''mihari.install-transaction/v1'', jn_TransactionID = hex_encode (replicate 16 7),
     jn_Operation = ''update'', jn_Phase = ''prepared'', jn_Mode = ''system'', jn_SourcePath = [], jn_TargetPath = ''/d'',
     jn_InstallPath = ''/i'', jn_EndpointPath = ''/e'', jn_CredentialPath = ''/c'', jn_DataRoot = ''/d'', jn_BootID = ''b'',
     jn_SourceIdentity = no_object, jn_TargetIdentity = no_object, jn_InstallIdentity = no_object,
     jn_EndpointIdentity = no_object, jn_CredentialIdentity = no_object, jn_CandidateHash = hex_encode (replicate 32 7),
     jn_BackupHash = hex_encode (replicate 32 7), jn_DataAction = ''retain'',
     jn_ServiceBackup = \<lparr>sb_Ref = ''unit'', sb_SHA256 = hex_encode (replicate 32 7), sb_Identity = ''i''\<rparr>,
     jn_OldRunning = False, jn_OldEnabled = False, jn_RecoveryAuthority = ''source'', jn_CreatedAt = 1,
     jn_TransactionMarker = demo_object, jn_Actions = []\<rparr>"

definition demo_action :: journal_action where
  "demo_action = \<lparr>ja_Seq = 0, ja_Kind = ''channel'', ja_TargetRole = ''channel'', ja_OldState = ''absent'', ja_BackupRef = [],
     ja_NewState = ''new'', ja_CandidateRef = [], ja_Status = ''intent''\<rparr>"

lemma demo_action_valid: "validateJournalAction (demo_action\<lparr>ja_Seq := 1\<rparr>) = None"
  by (simp add: validateJournalAction_def demo_action_def validJournalActionKind_def journal_kinds_def
        validJournalRole_def journal_roles_def)

text \<open>The journals a text can stand for here: the empty one and the one with the action.\<close>

definition demo_recorded :: journal where
  "demo_recorded = demo_journal\<lparr>jn_Actions := appended demo_action []\<rparr>"

definition demo_jcodec :: journal_codec where
  "demo_jcodec = \<lparr>jc_paths = demo_paths, jc_sha256 = (\<lambda>_. replicate 32 7),
     jc_marshal = (\<lambda>j. if j = demo_journal then Inr ''0'' else if j = demo_recorded then Inr ''1'' else Inl ErrInvalid),
     jc_parse = (\<lambda>_. Inr (JObj [])),
     jc_decode = (\<lambda>raw. if raw = ''0'' then Inr demo_journal else if raw = ''1'' then Inr demo_recorded else Inl ErrInvalid)\<rparr>"

definition demo_files :: "(string \<Rightarrow> string) journal_files" where
  "demo_files = \<lparr>jf_inspect = (\<lambda>n w. Inr (if n = installJournalFileName \<or> has_suffix n ''/transaction-id'' then demo_object else no_object)),
     jf_read = (\<lambda>n bound w. if length (w n) \<le> bound then Inr (w n) else Inl ErrInvalid),
     jf_write = (\<lambda>n raw old w. ((\<lparr>du_Published = True, du_Durable = True, du_Object = no_object\<rparr>, None), w(n := raw)))\<rparr>"

lemma demo_lawful: "lawful_files demo_files" "lawful_codec demo_jcodec"
proof -
  show "lawful_files demo_files" by (simp add: lawful_files_def demo_files_def)
  have "demo_journal \<noteq> demo_recorded" by (simp add: demo_recorded_def demo_journal_def appended_def)
  then show "lawful_codec demo_jcodec"
    by (auto simp: lawful_codec_def demo_jcodec_def uniqueJSONObject_def split: if_splits)
qed

lemma demo_journal_valid: "validateInstallJournal demo_jcodec demo_journal = None"
  by (simp add: validateInstallJournal_def demo_journal_def demo_jcodec_def demo_paths_def validTransactionID_def
        valid_hex_encode install_phases_def validAbsPath_def has_prefix_def validate_identities_def validateJournalObject_def
        no_object_def demo_object_def validSHA256_def sha256Hex_def lower_ascii_def)

lemma demo_next: "next_actions demo_action (jn_Actions demo_journal) = Inr (appended demo_action [])"
  using demo_action_valid by (simp add: next_actions_def demo_journal_def demo_action_def appended_def)

lemma demo_recorded_valid: "validateInstallJournal demo_jcodec demo_recorded = None"
proof -
  have "validateInstallJournal demo_jcodec (demo_journal\<lparr>jn_Actions := []\<rparr>) = None"
    "validate_actions 0 (jn_Actions demo_journal) = None"
    using demo_journal_valid validateInstallJournal_split by blast+
  then show ?thesis
    unfolding demo_recorded_def using next_actions_Inr [OF demo_next] by (blast intro: validateInstallJournal_actions [THEN iffD2])
qed

lemma demo_utf8: "utf8_header demo_journal" "utf8_header demo_recorded" "utf8_actions (jn_Actions demo_recorded)"
  "utf8_actions (jn_Actions demo_journal)"
proof -
  have h: "valid_utf8 (hex_encode (replicate 16 7))" "valid_utf8 (hex_encode (replicate 32 7))" by (code_simp, code_simp)
  then show j: "utf8_header demo_journal"
    by (simp add: utf8_header_def demo_journal_def object_texts_def no_object_def demo_object_def)
  then show "utf8_header demo_recorded" by (simp add: demo_recorded_def utf8_header_def)
  show "utf8_actions (jn_Actions demo_recorded)" "utf8_actions (jn_Actions demo_journal)"
    by (simp_all add: demo_recorded_def demo_journal_def utf8_actions_def appended_def action_texts_def demo_action_def)
qed

lemma demo_fits: "\<not> oversized demo_jcodec demo_journal" "\<not> oversized demo_jcodec demo_recorded"
  by (auto simp: oversized_def demo_jcodec_def MaxInstallJournalBytes_def split: if_splits)

definition demo_world :: "string \<Rightarrow> string" where
  "demo_world = (\<lambda>_. ''0'')"

lemma demo_load: "store_Load_journal demo_jcodec (Some demo_files) demo_world = Inr demo_journal"
proof -
  have e: "EncodeJournal demo_jcodec demo_journal = Inr ''0''"
    using demo_journal_valid by (simp add: EncodeJournal_def) (simp add: demo_jcodec_def)
  have "DecodeJournal demo_jcodec ''0'' = Inr demo_journal"
    by (rule DecodeJournal_marshal [OF demo_lawful(2) demo_utf8(1,4) e demo_fits(1)])
  then show ?thesis
    unfolding store_Load_journal_Some
    by (simp add: demo_files_def demo_world_def MaxInstallJournalBytes_def transactionMarkerPath_def has_suffix_def has_prefix_def)
       (simp add: demo_journal_def MatchJournalObject_def)
qed

definition demo_written :: durability where
  "demo_written = \<lparr>du_Published = True, du_Durable = True, du_Object = no_object\<rparr>"

lemma demo_record:
  "RecordAction demo_jcodec (Some demo_files) demo_action demo_journal demo_world =
     ((demo_written, None), demo_recorded, demo_world(installJournalFileName := ''1''))"
proof -
  have "demo_journal \<noteq> demo_recorded" by (simp add: demo_recorded_def demo_journal_def appended_def)
  then have "EncodeJournal demo_jcodec demo_recorded = Inr ''1''"
    using demo_recorded_valid by (simp add: EncodeJournal_def) (simp add: demo_jcodec_def)
  then show ?thesis
    unfolding demo_recorded_def
    by (simp add: RecordAction_def demo_next store_Save_journal_def demo_files_def demo_written_def)
qed

section \<open>Properties\<close>

text \<open>
  Recording an action keeps the journal valid: from a valid journal every outcome of
  \<open>RecordAction\<close> leaves a valid one, which is the old journal, or the published one where
  exactly one action was appended as an intent with the next sequence number, or exactly
  one intent was completed.
\<close>

theorem RecordAction_keeps_journal:
  assumes "validateInstallJournal c j = None" and "RecordAction c st a j w = ((d, err), j', w')"
  shows "validateInstallJournal c j' = None \<and>
    (j' = j \<or> du_Published d \<and> (\<exists>as. j' = j\<lparr>jn_Actions := as\<rparr> \<and> advances a (jn_Actions j) as))"
  using assms(2)
proof (cases rule: RecordAction_cases)
  case refused
  then show ?thesis using assms(1) by simp
next
  case (saved as)
  have v: "validateInstallJournal c (j\<lparr>jn_Actions := []\<rparr>) = None" "validate_actions 0 (jn_Actions j) = None"
    using assms(1) validateInstallJournal_split by blast+
  note n = next_actions_Inr [OF saved(1) v(2)]
  have "validateInstallJournal c (j\<lparr>jn_Actions := as\<rparr>) = None"
    using v(1) n by (blast intro: validateInstallJournal_actions [THEN iffD2])
  then show ?thesis using assms(1) saved(3) n by auto
qed

theorem RecordAction_keeps_journal_witness:
  "validateInstallJournal demo_jcodec demo_recorded = None"
  using RecordAction_keeps_journal [OF demo_journal_valid demo_record] by blast

text \<open>
  C32. The journal in memory is the journal on disk: if a load would return the journal in
  memory before \<open>RecordAction\<close>, and the journal to be written holds UTF-8 text and encodes to
  at most one MiB, a load returns the journal in memory after it too. The one exception is a
  write that fails and is not confirmed as published: memory then keeps the old journal, and
  a load returns it or the journal with the action recorded, nothing else. A reported
  success is durable.
\<close>

theorem RecordAction_disk_is_memory:
  assumes "lawful_files fs" and "lawful_codec c" and "store_Load_journal c (Some fs) w = Inr j"
    and "RecordAction c (Some fs) a j w = ((d, err), j', w')"
    and "utf8_header j" and "\<And>as. next_actions a (jn_Actions j) = Inr as \<Longrightarrow> utf8_actions as \<and> \<not> oversized c (j\<lparr>jn_Actions := as\<rparr>)"
  shows "if err = None \<or> du_Published d then store_Load_journal c (Some fs) w' = Inr j' \<and> (err = None \<longrightarrow> du_Durable d)
    else j' = j \<and> (store_Load_journal c (Some fs) w' = Inr j \<or>
      (\<exists>as. next_actions a (jn_Actions j) = Inr as \<and> store_Load_journal c (Some fs) w' = Inr (j\<lparr>jn_Actions := as\<rparr>)))"
  using assms(4)
proof (cases rule: RecordAction_cases)
  case refused
  then show ?thesis using assms(3) by (simp add: not_written_def)
next
  case (saved as)
  have u: "utf8_header (j\<lparr>jn_Actions := as\<rparr>)" using assms(5) by (simp add: utf8_header_def)
  have ua: "utf8_actions (jn_Actions (j\<lparr>jn_Actions := as\<rparr>))" "\<not> oversized c (j\<lparr>jn_Actions := as\<rparr>)"
    using assms(6) [OF saved(1)] by simp_all
  have same: "jn_TransactionID (j\<lparr>jn_Actions := as\<rparr>) = jn_TransactionID j"
    "jn_TransactionMarker (j\<lparr>jn_Actions := as\<rparr>) = jn_TransactionMarker j" by simp_all
  note sd = store_Save_disk [OF assms(1,2) u ua assms(3) same saved(2)]
  show ?thesis
  proof (cases "du_Published d")
    case True
    then show ?thesis using sd(1,3) saved(3) by simp
  next
    case False
    then show ?thesis using sd(2) saved(1,3) by auto
  qed
qed

theorem RecordAction_disk_is_memory_witness:
  "store_Load_journal demo_jcodec (Some demo_files) (demo_world(installJournalFileName := ''1'')) = Inr demo_recorded"
proof -
  have "utf8_actions as \<and> \<not> oversized demo_jcodec (demo_journal\<lparr>jn_Actions := as\<rparr>)"
    if "next_actions demo_action (jn_Actions demo_journal) = Inr as" for as
    using that demo_utf8(3) demo_fits(2) demo_next by (simp add: demo_recorded_def)
  from RecordAction_disk_is_memory [OF demo_lawful demo_load demo_record demo_utf8(1) this] show ?thesis by simp
qed

end
