(* ===== verification/Install_Effects.thy ===== *)
theory Install_Effects
  imports Install_Journal
begin

text \<open>
  \<open>internal/app/install_service_effects.go\<close> with the definitions of
  \<open>internal/service/definition.go\<close> it works on: how a journal action becomes one concrete
  effect on the service manager or its files. References in the journal never become
  paths by themselves, they are resolved against the old and the target definition. The
  service manager and the file access are arguments over an arbitrary type of worlds.
  The theory shows that a successful effect has been observed in its new state, that it is
  idempotent, and that an unknown state is left alone.
\<close>

section \<open>Service definitions\<close>

record definition_file =
  df_Identity :: string
  df_Path :: string
  df_Bytes :: string
  df_Owner :: "32 word"
  df_Mode :: "32 word"
  df_Kind :: string

record definition_link =
  dl_Identity :: string
  dl_Path :: string
  dl_Target :: string
  dl_Owner :: "32 word"
  dl_Mode :: "32 word"

record process_identity =
  pid_PID :: int
  pid_BootID :: string
  pid_StartUnix :: i64
  pid_StartUsec :: "32 word"
  pid_Group :: string
  pid_Comm :: string

definition no_process :: process_identity where
  "no_process = \<lparr>pid_PID = 0, pid_BootID = [], pid_StartUnix = 0, pid_StartUsec = 0, pid_Group = [], pid_Comm = []\<rparr>"

datatype status_kind = StatusRunning | StatusStopped | StatusUnknown | StatusNotInstalled

record service_definition =
  sd_Status :: status_kind
  sd_Enabled :: bool
  sd_Running :: bool
  sd_Masked :: bool
  sd_Binary :: string
  sd_Args :: "string list"
  sd_Env :: "string list"
  sd_Files :: "definition_file list"
  sd_Links :: "definition_link list"
  sd_Process :: process_identity

record definition_action =
  da_Path :: string
  da_File :: "definition_file option"
  da_Link :: string
  da_Kind :: string
  da_TargetRole :: string
  da_OldState :: string
  da_NewState :: string

text \<open>\<open>binary.BigEndian.PutUint32\<close>.\<close>

definition put_uint32 :: "32 word \<Rightarrow> string" where
  "put_uint32 x = map (\<lambda>k. char_of (unat (drop_bit (8 * k) x) mod 256)) [3, 2, 1, 0]"

definition DefinitionFileState :: "journal_codec \<Rightarrow> definition_file \<Rightarrow> string \<Rightarrow> string" where
  "DefinitionFileState c f link =
     (if link \<noteq> [] then ''link:'' @ link
      else sha256Hex c (put_uint32 (df_Owner f) @ put_uint32 (df_Mode f) @ df_Bytes f))"

section \<open>Effects\<close>

text \<open>The two interfaces an effect goes through: private file slots and the service manager.
  The adapter is never nil, its constructor takes it from the service.\<close>

record 'w service_files =
  sf_Observe :: "string \<Rightarrow> 'w \<Rightarrow> go_error + string"
  sf_Apply :: "definition_action \<Rightarrow> 'w \<Rightarrow> go_error option \<times> 'w"

record 'w recovery_adapter =
  ra_ObserveAction :: "definition_action \<Rightarrow> 'w \<Rightarrow> go_error + string"
  ra_ReplayAction :: "definition_action \<Rightarrow> 'w \<Rightarrow> go_error option \<times> 'w"

record 'w service_effects =
  se_files :: "'w service_files option"
  se_adapter :: "'w recovery_adapter"
  se_old :: service_definition
  se_target :: service_definition

definition observeAction :: "'w service_effects \<Rightarrow> definition_action \<Rightarrow> 'w \<Rightarrow> go_error + string" where
  "observeAction s d w =
     (case se_files s of
        Some fs \<Rightarrow> if da_Path d \<noteq> [] then sf_Observe fs (da_Path d) w else ra_ObserveAction (se_adapter s) d w
      | None \<Rightarrow> ra_ObserveAction (se_adapter s) d w)"

definition replayAction :: "'w service_effects \<Rightarrow> definition_action \<Rightarrow> 'w \<Rightarrow> go_error option \<times> 'w" where
  "replayAction s d w =
     (case se_files s of
        Some fs \<Rightarrow> if da_Path d \<noteq> [] then sf_Apply fs d w else ra_ReplayAction (se_adapter s) d w
      | None \<Rightarrow> ra_ReplayAction (se_adapter s) d w)"

definition service_ref :: "journal_codec \<Rightarrow> string \<Rightarrow> string" where
  "service_ref c path = ''service:'' @ sha256Hex c path"

text \<open>A Go map: the entry written last wins, a missing one reads as the empty string.\<close>

definition effect_paths :: "journal_codec \<Rightarrow> 'w service_effects \<Rightarrow> string \<Rightarrow> string" where
  "effect_paths c s ref =
     (let paths = concat (map (\<lambda>d. map df_Path (sd_Files d) @ map dl_Path (sd_Links d)) [se_old s, se_target s])
      in case map_of (rev (map (\<lambda>p. (service_ref c p, p)) paths)) ref of None \<Rightarrow> [] | Some p \<Rightarrow> p)"

definition find_version :: "journal_codec \<Rightarrow> service_definition \<Rightarrow> string \<Rightarrow> definition_action \<Rightarrow> definition_action option" where
  "find_version c snapshot new d =
     (case find (\<lambda>f. df_Path f = da_Path d \<and> DefinitionFileState c f [] = new) (sd_Files snapshot) of
        Some f \<Rightarrow> Some (d\<lparr>da_File := Some f\<rparr>)
      | None \<Rightarrow>
          (case find (\<lambda>l. dl_Path l = da_Path d \<and> ''link:'' @ dl_Target l = new) (sd_Links snapshot) of
             Some l \<Rightarrow> Some (d\<lparr>da_Link := dl_Target l\<rparr>)
           | None \<Rightarrow> None))"

definition resolve_path :: "journal_codec \<Rightarrow> 'w service_effects \<Rightarrow> journal_action \<Rightarrow> definition_action \<Rightarrow> go_error + definition_action" where
  "resolve_path c s a d0 =
     (if ja_CandidateRef a \<noteq> ja_BackupRef a then Inl unknownInstallState
      else
      let d = d0\<lparr>da_Path := effect_paths c s (ja_CandidateRef a)\<rparr> in
      if da_Path d = [] then Inl unknownInstallState
      else if ja_NewState a = ''absent'' then Inr d
      else case find_version c (se_old s) (ja_NewState a) d of
        Some d' \<Rightarrow> Inr d'
      | None \<Rightarrow>
     (case find_version c (se_target s) (ja_NewState a) d of
        Some d' \<Rightarrow> Inr d'
      | None \<Rightarrow>
          if ja_NewState a = ''link:/dev/null'' \<and> has_suffix (da_Path d) ''/mihari.service''
          then Inr (d\<lparr>da_Link := ''/dev/null''\<rparr>) else Inl unknownInstallState))"

definition resolve_state :: "journal_action \<Rightarrow> definition_action \<Rightarrow> go_error + definition_action" where
  "resolve_state a d =
     (if da_Kind d = ''reload'' then Inr d
      else if da_Kind d = ''start'' \<or> da_Kind d = ''stop''
      then (if ja_NewState a = ''running'' \<or> ja_NewState a = ''loaded'' then Inr (d\<lparr>da_Kind := ''start''\<rparr>)
            else if ja_NewState a = ''stopped'' \<or> ja_NewState a = ''unloaded'' then Inr (d\<lparr>da_Kind := ''stop''\<rparr>)
            else Inl unknownInstallState)
      else if da_Kind d = ''enable'' \<or> da_Kind d = ''disable'' \<or> da_Kind d = ''disabled''
      then (if ja_NewState a \<noteq> ''enabled'' \<and> ja_NewState a \<noteq> ''disabled'' then Inl unknownInstallState else Inr d)
      else Inl unknownInstallState)"

definition resolve :: "journal_codec \<Rightarrow> 'w service_effects \<Rightarrow> journal_action \<Rightarrow> go_error + definition_action" where
  "resolve c s a =
     (let d = \<lparr>da_Path = [], da_File = None, da_Link = [], da_Kind = trim_prefix (ja_Kind a) ''restore_'',
               da_TargetRole = ja_TargetRole a, da_OldState = ja_OldState a, da_NewState = ja_NewState a\<rparr> in
      if ja_CandidateRef a \<noteq> [] \<or> ja_BackupRef a \<noteq> [] then resolve_path c s a d else resolve_state a d)"

definition prepare_state :: "journal_codec \<Rightarrow> definition_action \<Rightarrow> string" where
  "prepare_state c d =
     (case da_File d of
        Some f \<Rightarrow> DefinitionFileState c f []
      | None \<Rightarrow> if da_Link d \<noteq> []
          then DefinitionFileState c \<lparr>df_Identity = [], df_Path = [], df_Bytes = [], df_Owner = 0, df_Mode = 0, df_Kind = []\<rparr> (da_Link d)
          else ''absent'')"

definition prepare :: "journal_codec \<Rightarrow> 'w service_effects \<Rightarrow> definition_action \<Rightarrow> 'w \<Rightarrow> go_error + journal_action" where
  "prepare c s d w =
     (let ref = service_ref c (da_Path d);
          a = \<lparr>ja_Seq = 0, ja_Kind = da_Kind d, ja_TargetRole = da_TargetRole d, ja_OldState = [],
               ja_BackupRef = (if da_Path d \<noteq> [] then ref else []),
               ja_NewState = (if da_Path d \<noteq> [] then prepare_state c d else da_NewState d),
               ja_CandidateRef = (if da_Path d \<noteq> [] then ref else []), ja_Status = []\<rparr> in
      if da_Path d \<noteq> [] \<and> effect_paths c s ref \<noteq> da_Path d then Inl unknownInstallState
      else case observeAction s d w of
        Inl e \<Rightarrow> Inl e
      | Inr actual \<Rightarrow>
          let a' = a\<lparr>ja_OldState := actual\<rparr> in
          (case resolve c s a' of Inl e \<Rightarrow> Inl e | Inr _ \<Rightarrow> Inr a'))"

definition effects_observe :: "journal_codec \<Rightarrow> 'w service_effects \<Rightarrow> journal_action \<Rightarrow> 'w \<Rightarrow> go_error + string" where
  "effects_observe c s a w = (case resolve c s a of Inl e \<Rightarrow> Inl e | Inr d \<Rightarrow> observeAction s d w)"

definition effects_apply :: "journal_codec \<Rightarrow> 'w service_effects \<Rightarrow> journal_action \<Rightarrow> 'w \<Rightarrow> go_error option \<times> 'w" where
  "effects_apply c s a w =
     (case resolve c s a of
        Inl e \<Rightarrow> (Some e, w)
      | Inr d \<Rightarrow>
     (if da_Kind d = ''reload'' then replayAction s d w
      else
      case observeAction s d w of
        Inl e \<Rightarrow> (Some e, w)
      | Inr actual \<Rightarrow>
          if actual = ja_NewState a then (None, w)
          else if actual \<noteq> ja_OldState a then (Some unknownInstallState, w)
          else
          (case replayAction s d w of
             (Some e, w') \<Rightarrow> (Some e, w')
           | (None, w') \<Rightarrow>
               (case observeAction s d w' of
                  Inl e \<Rightarrow> (Some e, w')
                | Inr actual' \<Rightarrow> if actual' \<noteq> ja_NewState a then (Some unknownInstallState, w') else (None, w')))))"

definition isConcreteServiceAction :: "journal_action \<Rightarrow> bool" where
  "isConcreteServiceAction a \<longleftrightarrow>
     has_prefix (ja_CandidateRef a) ''service:'' \<or> has_prefix (ja_BackupRef a) ''service:'' \<or>
     trim_prefix (ja_Kind a) ''restore_'' \<in> {''enable'', ''disable'', ''disabled'', ''stop'', ''start'', ''reload''}"

section \<open>The contract of an effect\<close>

text \<open>
  What recovery relies on: an effect that reports success has been seen in the new
  state, one that is already there is not repeated, and one whose state is neither the old
  nor the new one is refused with nothing changed.
\<close>

locale verified_effect =
  fixes obs :: "'a \<Rightarrow> 'w \<Rightarrow> 'e + 's"
    and app :: "'a \<Rightarrow> 'w \<Rightarrow> 'e option \<times> 'w"
    and old new :: "'a \<Rightarrow> 's"
  assumes applied: "app a w = (None, w') \<Longrightarrow> obs a w' = Inr (new a)"
    and present: "obs a w = Inr (new a) \<Longrightarrow> app a w = (None, w)"
    and foreign: "obs a w = Inr s \<Longrightarrow> s \<noteq> new a \<Longrightarrow> s \<noteq> old a \<Longrightarrow> \<exists>e. app a w = (Some e, w)"
begin

text \<open>Applying once more after a success does nothing.\<close>

lemma apply_idempotent: "app a w = (None, w') \<Longrightarrow> app a w' = (None, w')"
  using applied present by blast

text \<open>The decision recovery takes: apply unless the new state is there already.\<close>

lemma settle:
  assumes "obs a w = Inr s" and "s = old a \<and> app a w = (None, w') \<or> s = new a \<and> w' = w"
  shows "obs a w' = Inr (new a)"
  using assms applied by blast

text \<open>A success starts from the old or the new state.\<close>

lemma success_from_known: "app a w = (None, w') \<Longrightarrow> obs a w = Inr s \<Longrightarrow> s = old a \<or> s = new a"
  using foreign by fastforce

end

text \<open>The actions that are observed: all but the reload, which is counted and not observed.\<close>

definition observed_action :: "journal_codec \<Rightarrow> 'w service_effects \<Rightarrow> journal_action \<Rightarrow> bool" where
  "observed_action c s a \<longleftrightarrow> (case resolve c s a of Inl _ \<Rightarrow> True | Inr d \<Rightarrow> da_Kind d \<noteq> ''reload'')"

text \<open>Observation and effect of the observed actions; any other action is refused.\<close>

definition checked_observe :: "journal_codec \<Rightarrow> 'w service_effects \<Rightarrow> journal_action \<Rightarrow> 'w \<Rightarrow> go_error + string" where
  "checked_observe c s a w = (if observed_action c s a then effects_observe c s a w else Inl unknownInstallState)"

definition checked_apply :: "journal_codec \<Rightarrow> 'w service_effects \<Rightarrow> journal_action \<Rightarrow> 'w \<Rightarrow> go_error option \<times> 'w" where
  "checked_apply c s a w = (if observed_action c s a then effects_apply c s a w else (Some unknownInstallState, w))"

interpretation svc: verified_effect "checked_observe c s" "checked_apply c s" ja_OldState ja_NewState for c s
proof
  fix a w w' assume "checked_apply c s a w = (None, w')"
  then show "checked_observe c s a w' = Inr (ja_NewState a)"
    by (auto simp: checked_apply_def checked_observe_def observed_action_def effects_apply_def effects_observe_def
        split: sum.splits if_splits prod.splits option.splits)
next
  fix a w assume "checked_observe c s a w = Inr (ja_NewState a)"
  then show "checked_apply c s a w = (None, w)"
    by (auto simp: checked_apply_def checked_observe_def observed_action_def effects_apply_def effects_observe_def
        split: sum.splits if_splits)
next
  fix a w x assume "checked_observe c s a w = Inr x" "x \<noteq> ja_NewState a" "x \<noteq> ja_OldState a"
  then show "\<exists>e. checked_apply c s a w = (Some e, w)"
    by (auto simp: checked_apply_def checked_observe_def observed_action_def effects_apply_def effects_observe_def
        split: sum.splits if_splits)
qed

lemma checked_eq:
  "observed_action c s a \<Longrightarrow> checked_observe c s a = effects_observe c s a"
  "observed_action c s a \<Longrightarrow> checked_apply c s a = effects_apply c s a"
  by (auto simp: checked_observe_def checked_apply_def)

section \<open>Where a reference leads\<close>

definition definition_paths :: "service_definition \<Rightarrow> string list" where
  "definition_paths d = map df_Path (sd_Files d) @ map dl_Path (sd_Links d)"

lemma effect_paths_in:
  assumes "effect_paths c s ref \<noteq> []"
  shows "effect_paths c s ref \<in> set (definition_paths (se_old s) @ definition_paths (se_target s))"
proof -
  let ?ps = "definition_paths (se_old s) @ definition_paths (se_target s)"
  obtain p where p: "map_of (rev (map (\<lambda>p. (service_ref c p, p)) ?ps)) ref = Some p" "effect_paths c s ref = p"
    using assms by (auto simp: effect_paths_def definition_paths_def split: option.splits)
  then have "(ref, p) \<in> set (rev (map (\<lambda>p. (service_ref c p, p)) ?ps))" by (blast dest: map_of_SomeD)
  then show ?thesis using p(2) by auto
qed

text \<open>A definition action that stays within two definitions: its path is one of theirs,
  and what it writes there is their version of that path with the given state.\<close>

definition within :: "journal_codec \<Rightarrow> 'w service_effects \<Rightarrow> string \<Rightarrow> definition_action \<Rightarrow> bool" where
  "within c s new d \<longleftrightarrow>
     (da_Path d = [] \<or> da_Path d \<in> set (definition_paths (se_old s) @ definition_paths (se_target s))) \<and>
     (case da_File d of None \<Rightarrow> True
      | Some f \<Rightarrow> f \<in> set (sd_Files (se_old s) @ sd_Files (se_target s)) \<and> df_Path f = da_Path d \<and>
          DefinitionFileState c f [] = new) \<and>
     (da_Link d = [] \<or> ''link:'' @ da_Link d = new)"

lemma find_version_within:
  assumes "find_version c snap new d = Some d'" "snap = se_old s \<or> snap = se_target s" "within c s new d"
  shows "within c s new d'"
proof (cases "find (\<lambda>f. df_Path f = da_Path d \<and> DefinitionFileState c f [] = new) (sd_Files snap)")
  case (Some f)
  then have "d' = d\<lparr>da_File := Some f\<rparr>" using assms(1) by (simp add: find_version_def)
  then show ?thesis using find_SomeD [OF Some] assms(2,3) by (auto simp: within_def)
next
  case None
  then obtain l where l: "find (\<lambda>l. dl_Path l = da_Path d \<and> ''link:'' @ dl_Target l = new) (sd_Links snap) = Some l"
    "d' = d\<lparr>da_Link := dl_Target l\<rparr>"
    using assms(1) by (auto simp: find_version_def split: option.splits)
  then show ?thesis using find_SomeD [OF l(1)] assms(3) by (simp add: within_def split: option.splits)
qed

lemma resolve_path_cases:
  assumes "resolve_path c s a d0 = Inr d"
  obtains (here) "d = d0\<lparr>da_Path := effect_paths c s (ja_CandidateRef a)\<rparr>"
  | (version) snap where "snap = se_old s \<or> snap = se_target s"
      "find_version c snap (ja_NewState a) (d0\<lparr>da_Path := effect_paths c s (ja_CandidateRef a)\<rparr>) = Some d"
  | (mask) "d = d0\<lparr>da_Path := effect_paths c s (ja_CandidateRef a), da_Link := ''/dev/null''\<rparr>"
      "ja_NewState a = ''link:/dev/null''"
  using assms unfolding resolve_path_def Let_def by (simp split: if_splits option.splits) blast+

lemma resolve_path_within:
  assumes "resolve_path c s a d0 = Inr d" and "da_File d0 = None" "da_Link d0 = []"
  shows "within c s (ja_NewState a) d"
proof -
  let ?at = "d0\<lparr>da_Path := effect_paths c s (ja_CandidateRef a)\<rparr>"
  have w: "within c s (ja_NewState a) ?at"
    using effect_paths_in [of c s "ja_CandidateRef a"] assms(2,3) by (auto simp: within_def)
  from assms(1) show ?thesis
  proof (cases rule: resolve_path_cases)
    case mask
    then show ?thesis using w by (simp add: within_def split: option.splits)
  qed (use w find_version_within [OF _ _ w] in blast)+
qed

lemma resolve_within:
  assumes "resolve c s a = Inr d"
  shows "within c s (ja_NewState a) d"
proof (cases "ja_CandidateRef a \<noteq> [] \<or> ja_BackupRef a \<noteq> []")
  case False
  then show ?thesis using assms by (auto simp: resolve_def resolve_state_def within_def Let_def split: if_splits)
next
  case True
  then show ?thesis using assms resolve_path_within by (fastforce simp: resolve_def)
qed

section \<open>A concrete service\<close>

definition demo_definition :: "definition_file list \<Rightarrow> service_definition" where
  "demo_definition fs = \<lparr>sd_Status = StatusStopped, sd_Enabled = False, sd_Running = False, sd_Masked = False, sd_Binary = [],
     sd_Args = [], sd_Env = [], sd_Files = fs, sd_Links = [], sd_Process = no_process\<rparr>"

text \<open>A manager whose whole state is a token that the replayed action sets.\<close>

definition demo_effects :: "string service_effects" where
  "demo_effects = \<lparr>se_files = None,
     se_adapter = \<lparr>ra_ObserveAction = (\<lambda>d w. Inr w), ra_ReplayAction = (\<lambda>d w. (None, da_NewState d))\<rparr>,
     se_old = demo_definition [], se_target = demo_definition []\<rparr>"

definition demo_start :: journal_action where
  "demo_start = \<lparr>ja_Seq = 1, ja_Kind = ''start'', ja_TargetRole = ''definition'', ja_OldState = ''stopped'', ja_BackupRef = [],
     ja_NewState = ''running'', ja_CandidateRef = [], ja_Status = ''intent''\<rparr>"

lemma demo_resolve:
  "resolve c demo_effects demo_start = Inr \<lparr>da_Path = [], da_File = None, da_Link = [], da_Kind = ''start'',
     da_TargetRole = ''definition'', da_OldState = ''stopped'', da_NewState = ''running''\<rparr>"
  by (simp add: resolve_def demo_start_def resolve_state_def trim_prefix_def has_prefix_def)

lemma demo_effects_simps [simp]:
  "da_Path d = [] \<Longrightarrow> observeAction demo_effects d w = Inr w"
  "da_Path d = [] \<Longrightarrow> replayAction demo_effects d w = (None, da_NewState d)"
  by (simp_all add: observeAction_def replayAction_def demo_effects_def)

lemma demo_start_effect:
  "observed_action c demo_effects demo_start" "effects_apply c demo_effects demo_start ''stopped'' = (None, ''running'')"
  by (simp add: observed_action_def demo_resolve)
     (simp add: effects_apply_def demo_resolve, simp add: demo_start_def)

section \<open>Properties\<close>

text \<open>
  A service effect that reports success has happened exactly once: its new state has
  been observed, a second application does nothing, and it started from the recorded old
  state or found the new one; an effect that finds a third state changes nothing.
\<close>

theorem service_effect_verified:
  assumes "observed_action c s a" and "effects_apply c s a w = (err, w')" and "effects_observe c s a w = Inr actual"
  shows "if err = None
    then effects_observe c s a w' = Inr (ja_NewState a) \<and> effects_apply c s a w' = (None, w') \<and>
      actual \<in> {ja_OldState a, ja_NewState a} \<and> (w' = w \<or> actual = ja_OldState a)
    else if actual \<in> {ja_OldState a, ja_NewState a} then True else w' = w"
proof -
  note e = checked_eq [OF assms(1)]
  note applied = svc.applied [of c s a, unfolded e]
    and idem = svc.apply_idempotent [of c s a, unfolded e]
    and known = svc.success_from_known [of c s a, unfolded e]
    and foreign = svc.foreign [of c s a, unfolded e]
    and present = svc.present [of c s a, unfolded e]
  show ?thesis
  proof (cases err)
    case None
    have a: "effects_apply c s a w = (None, w')" using assms(2) None by simp
    have "actual = ja_OldState a \<or> actual = ja_NewState a" by (rule known [OF a assms(3)])
    moreover have "w' = w" if "actual = ja_NewState a" using present [of w] assms(3) a that by simp
    ultimately show ?thesis using applied [OF a] idem [OF a] None by auto
  next
    case (Some x)
    then show ?thesis using foreign [OF assms(3)] assms(2) by auto
  qed
qed

theorem service_effect_verified_witness:
  "effects_observe demo_jcodec demo_effects demo_start ''running'' = Inr ''running''"
proof -
  have o: "effects_observe demo_jcodec demo_effects demo_start ''stopped'' = Inr ''stopped''"
    by (simp add: effects_observe_def demo_resolve)
  show ?thesis
    using service_effect_verified [OF demo_start_effect o] by (simp add: demo_start_def)
qed

text \<open>
  A journal never names an arbitrary file: whatever the strings of an action are, the
  effect it resolves to works on a path of the old or the target definition, and what it
  writes there is that definition's own file or link whose state is the action's new state.
\<close>

theorem resolve_is_confined:
  assumes "resolve c s a = Inr d"
  shows "(da_Path d = [] \<or> da_Path d \<in> set (definition_paths (se_old s) @ definition_paths (se_target s))) \<and>
    (case da_File d of None \<Rightarrow> True
     | Some f \<Rightarrow> f \<in> set (sd_Files (se_old s) @ sd_Files (se_target s)) \<and> df_Path f = da_Path d \<and>
         DefinitionFileState c f [] = ja_NewState a) \<and>
    (da_Link d = [] \<or> ''link:'' @ da_Link d = ja_NewState a)"
  using resolve_within [OF assms] unfolding within_def .

theorem resolve_is_confined_witness:
  "resolve demo_jcodec demo_effects demo_start \<noteq> Inl unknownInstallState \<and>
   da_Path \<lparr>da_Path = [], da_File = None, da_Link = [], da_Kind = ''start'', da_TargetRole = ''definition'',
     da_OldState = ''stopped'', da_NewState = ''running''\<rparr> = []"
  using resolve_is_confined [OF demo_resolve [of demo_jcodec]] demo_resolve [of demo_jcodec]
  by (simp add: demo_effects_def demo_definition_def definition_paths_def)

end
