(* ===== verification/Install_Transaction.thy ===== *)
theory Install_Transaction
  imports Install_Effects
begin

text \<open>
  \<open>internal/app/install_transaction.go\<close> (the step discipline and the operations built on
  it), \<open>install_recovery.go\<close>, \<open>install_lifecycle.go\<close> and the recovery part of
  \<open>validation_launch.go\<close>. A transaction owns the journal in memory and works on a world
  through the journal store, the effects and the service manager, all of them arguments.
  Every operation maps a transaction to an outcome and a transaction; a panic is the
  outcome \<open>Crashed\<close> and keeps the state it happened in, so that the crash points of
  \<open>installCrashSpec\<close> are states of the model.
\<close>

section \<open>Transactions\<close>

datatype outcome = Finished | Failed go_error | Crashed

record 'w tx =
  tx_journal :: journal
  tx_stepN :: nat
  tx_recoveringSource :: bool
  tx_world :: 'w

type_synonym 'w op = "'w tx \<Rightarrow> outcome \<times> 'w tx"

record 'w install_effects =
  ie_Observe :: "journal_action \<Rightarrow> 'w \<Rightarrow> go_error + string"
  ie_Apply :: "journal_action \<Rightarrow> 'w \<Rightarrow> go_error option \<times> 'w"

text \<open>\<open>service.DefinitionAdapter\<close> and the two optional methods recovery asks for. Its
  operations call back into \<open>journaledHook\<close>, so they work on the transaction.\<close>

record 'w service_adapter =
  sa_DisableAutostartAndStop :: "'w op"
  sa_WaitOwnedTreeExit :: "'w op"
  sa_WriteDefinition :: "service_definition \<Rightarrow> 'w op"
  sa_RestoreDefinition :: "service_definition \<Rightarrow> 'w op"
  sa_Start :: "'w op"
  sa_BindStopAuthority :: "(service_definition \<Rightarrow> string \<Rightarrow> 'w \<Rightarrow> 'w) option"
  sa_WaitRecordedTreeExit :: "'w op option"

record prepared_authority =
  au_OldDefinition :: service_definition
  au_TargetDefinition :: service_definition

record process_start =
  ps_PID :: int
  ps_BootID :: string
  ps_StartUnix :: i64
  ps_StartUsec :: "32 word"

record validation_launch =
  vl_TransactionID :: string
  vl_NonceHash :: string
  vl_Parent :: process_start
  vl_Child :: process_start
  vl_BinaryHash :: string
  vl_LayoutIdentity :: string

text \<open>The fields of \<open>InstallTransaction\<close> that stay fixed during a run, with the artifacts'
  fields that recovery reads.\<close>

record 'w tx_env =
  te_codec :: journal_codec
  te_Store :: "'w journal_files option"
  te_Effects :: "'w install_effects option"
  te_serviceEffects :: "'w service_effects option"
  te_Service :: "'w service_adapter option"
  te_authority :: "prepared_authority option"
  te_BootID :: string
  te_TargetRunning :: bool
  te_TargetEnabled :: bool
  te_OldEnabled :: bool
  te_recheckAndPublish :: "('w \<Rightarrow> go_error option \<times> 'w) option"
  te_DataLease :: "('w \<Rightarrow> go_error option \<times> 'w) option"
  te_BeforeRollback :: "'w op option"
  te_decodeLaunch :: "string \<Rightarrow> go_error + validation_launch"
  te_reaper :: "(process_start \<Rightarrow> journal \<Rightarrow> 'w \<Rightarrow> go_error option \<times> 'w) option"
  te_crash :: "(nat \<times> string) option"

definition installBusy :: "string \<Rightarrow> go_error" where
  "installBusy message = Api (api CodeInvalidState message)"

text \<open>\<open>os.ErrClosed\<close>.\<close>

definition ErrClosed :: go_error where
  "ErrClosed = Opaque ''file already closed''"

definition installClosed :: "go_error \<Rightarrow> go_error" where
  "installClosed e = (if error_is ErrClosed e then installBusy ''install lock is unavailable'' else e)"

text \<open>Sequencing with early return, and a loop that ends at the first failure.\<close>

definition and_then :: "'w op \<Rightarrow> 'w op \<Rightarrow> 'w op" where
  "and_then f g x = (case f x of (Finished, x') \<Rightarrow> g x' | r \<Rightarrow> r)"

primrec for_each :: "('a \<Rightarrow> 'w op) \<Rightarrow> 'a list \<Rightarrow> 'w op" where
  "for_each f [] = (\<lambda>x. (Finished, x))"
| "for_each f (a # as) = and_then (f a) (for_each f as)"

definition fail :: "go_error \<Rightarrow> 'w op" where
  "fail e x = (Failed e, x)"

definition skip :: "'w op" where
  "skip x = (Finished, x)"

definition on_world :: "('w \<Rightarrow> go_error option \<times> 'w) \<Rightarrow> 'w op" where
  "on_world f x =
     (case f (tx_world x) of
        (None, w) \<Rightarrow> (Finished, x\<lparr>tx_world := w\<rparr>)
      | (Some e, w) \<Rightarrow> (Failed e, x\<lparr>tx_world := w\<rparr>))"

text \<open>A method call on the service; a nil service panics.\<close>

definition on_service :: "'w tx_env \<Rightarrow> ('w service_adapter \<Rightarrow> 'w op) \<Rightarrow> 'w op" where
  "on_service env f x = (case te_Service env of None \<Rightarrow> (Crashed, x) | Some sa \<Rightarrow> f sa x)"

section \<open>Steps\<close>

definition record_tx :: "'w tx_env \<Rightarrow> journal_action \<Rightarrow> 'w tx \<Rightarrow> (durability \<times> go_error option) \<times> 'w tx" where
  "record_tx env a x =
     (case RecordAction (te_codec env) (te_Store env) a (tx_journal x) (tx_world x) of
        (r, j, w) \<Rightarrow> (r, x\<lparr>tx_journal := j, tx_world := w\<rparr>))"

text \<open>The durable record that opens and closes a step.\<close>

definition record_durably :: "'w tx_env \<Rightarrow> journal_action \<Rightarrow> 'w op" where
  "record_durably env a x =
     (case record_tx env a x of
        ((d, Some e), x') \<Rightarrow> (Failed e, x')
      | ((d, None), x') \<Rightarrow>
          if \<not> du_Durable d then (Failed (installBusy ''install action journal is not durable''), x')
          else (Finished, x'))"

definition crash_at :: "'w tx_env \<Rightarrow> nat \<Rightarrow> string \<Rightarrow> 'w op" where
  "crash_at env n point x = (if te_crash env = Some (n, point) then (Crashed, x) else (Finished, x))"

text \<open>The done entry of the last action; an empty list of actions would be an index out of range.\<close>

definition finish_last :: "'w tx_env \<Rightarrow> 'w op" where
  "finish_last env x =
     (if jn_Actions (tx_journal x) = [] then (Crashed, x)
      else record_durably env ((last (jn_Actions (tx_journal x)))\<lparr>ja_Status := ''done''\<rparr>) x)"

definition step :: "'w tx_env \<Rightarrow> journal_action \<Rightarrow> 'w op \<Rightarrow> 'w op" where
  "step env a apply x =
     (let n = tx_stepN x + 1 in
      and_then (crash_at env n ''before-intent'')
      (and_then (record_durably env (a\<lparr>ja_Status := ''intent''\<rparr>))
      (and_then (crash_at env n ''after-intent'')
      (and_then apply
      (and_then (crash_at env n ''after-effect'')
      (and_then (finish_last env)
        (crash_at env n ''after-done''))))))
      (x\<lparr>tx_stepN := n\<rparr>))"

definition new_action :: "string \<Rightarrow> string \<Rightarrow> string \<Rightarrow> string \<Rightarrow> journal_action" where
  "new_action kind role old new = \<lparr>ja_Seq = 0, ja_Kind = kind, ja_TargetRole = role, ja_OldState = old, ja_BackupRef = [],
     ja_NewState = new, ja_CandidateRef = [], ja_Status = []\<rparr>"

definition apply_effects :: "'w tx_env \<Rightarrow> journal_action \<Rightarrow> 'w op" where
  "apply_effects env a = (case te_Effects env of None \<Rightarrow> skip | Some ef \<Rightarrow> on_world (ie_Apply ef a))"

definition fileStep :: "'w tx_env \<Rightarrow> string \<Rightarrow> string \<Rightarrow> string \<Rightarrow> string \<Rightarrow> 'w op" where
  "fileStep env kind role old new =
     (if old = new then skip
      else let a = new_action kind role old new in
        step env a
          (and_then
             (case te_recheckAndPublish env of
                None \<Rightarrow> skip
              | Some f \<Rightarrow> if kind = ''data_publish'' then on_world f else skip)
             (apply_effects env a)))"

definition reloadToken :: "int \<Rightarrow> string" where
  "reloadToken n = ''reload:'' @ itoa n"

text \<open>\<open>fmt.Sscanf(state, "reload:%d", &n)\<close>: the literal, blanks, an optional sign, the digits
  up to the first other byte; \<open>n\<close> stays 0 if there are none or the number does not fit.\<close>

definition scan_reload :: "string \<Rightarrow> int" where
  "scan_reload s =
     (if \<not> has_prefix s ''reload:'' then 0
      else
      let r = dropWhile (\<lambda>c. c \<in> {CHR '' '', CHR 0x09, CHR 0x0B, CHR 0x0C, CHR 0x0D}) (drop 7 s);
          neg = has_prefix r ''-'';
          ds = takeWhile (\<lambda>c. byte_in c 48 57) (if neg \<or> has_prefix r ''+'' then tl r else r);
          v = (if neg then - int (digits_value ds) else int (digits_value ds)) in
      if ds = [] \<or> v < - (2 ^ 63) \<or> 2 ^ 63 \<le> v then 0 else v)"

definition currentReload :: "'w tx_env \<Rightarrow> 'w tx \<Rightarrow> int" where
  "currentReload env x =
     (case te_Effects env of
        None \<Rightarrow> 0
      | Some ef \<Rightarrow>
          (case ie_Observe ef (new_action ''reload'' [] (reloadToken 0) (reloadToken 1)) (tx_world x) of
             Inl _ \<Rightarrow> 0
           | Inr state \<Rightarrow> scan_reload state))"

definition reloadStep :: "'w tx_env \<Rightarrow> 'w op" where
  "reloadStep env x =
     (let n = currentReload env x;
          a = new_action ''reload'' ''definition'' (reloadToken n) (reloadToken (wrap64 (n + 1)))
      in step env a (apply_effects env a) x)"

definition save_tx :: "'w tx_env \<Rightarrow> 'w op" where
  "save_tx env x =
     (case store_Save_journal (te_codec env) (te_Store env) (tx_journal x) (tx_world x) of
        ((d, None), w) \<Rightarrow> (Finished, x\<lparr>tx_world := w\<rparr>)
      | ((d, Some e), w) \<Rightarrow> (Failed e, x\<lparr>tx_world := w\<rparr>))"

definition set_journal :: "(journal \<Rightarrow> journal) \<Rightarrow> 'w op" where
  "set_journal f x = (Finished, x\<lparr>tx_journal := f (tx_journal x)\<rparr>)"

definition setPhase :: "'w tx_env \<Rightarrow> string \<Rightarrow> 'w op" where
  "setPhase env phase = and_then (set_journal (jn_Phase_update (\<lambda>_. phase))) (save_tx env)"

definition activate :: "'w tx_env \<Rightarrow> 'w op" where
  "activate env =
     (let a = new_action ''activation'' ''activation'' ''source'' ''target'' in
      step env a
        (and_then (set_journal (\<lambda>j. j\<lparr>jn_RecoveryAuthority := ''target'', jn_Phase := ''activation_committed''\<rparr>))
        (and_then (save_tx env) (apply_effects env a))))"

section \<open>Observation and effect of an action\<close>

definition tx_observe :: "'w tx_env \<Rightarrow> journal_action \<Rightarrow> 'w \<Rightarrow> go_error + string" where
  "tx_observe env a w =
     (case te_serviceEffects env of
        Some s \<Rightarrow>
          if isConcreteServiceAction a then effects_observe (te_codec env) s a w
          else (case te_Effects env of None \<Rightarrow> Inl unknownInstallState | Some ef \<Rightarrow> ie_Observe ef a w)
      | None \<Rightarrow> (case te_Effects env of None \<Rightarrow> Inl unknownInstallState | Some ef \<Rightarrow> ie_Observe ef a w))"

definition applyEffect :: "'w tx_env \<Rightarrow> journal_action \<Rightarrow> 'w op" where
  "applyEffect env a =
     (case te_serviceEffects env of
        Some s \<Rightarrow>
          if isConcreteServiceAction a then on_world (effects_apply (te_codec env) s a) else apply_effects env a
      | None \<Rightarrow> apply_effects env a)"

definition classifyInstallAction :: "journal_action \<Rightarrow> string \<Rightarrow> go_error + action_progress" where
  "classifyInstallAction a actual =
     (if ja_Kind a = ''reload'' \<or> ja_Kind a = ''restore_reload''
      then Inr (if actual = ja_OldState a then ActionNotStarted else ActionStarted)
      else ClassifyObservedAction a actual)"

definition reverse_table :: "(string \<times> string) list" where
  "reverse_table =
     [(''mask'', ''restore_mask''), (''unmask'', ''restore_unmask''), (''disable'', ''restore_disable''),
      (''enable'', ''restore_enable''), (''stop'', ''restore_stop''), (''start'', ''restore_start''),
      (''reload'', ''restore_reload''), (''data_publish'', ''data_isolate''),
      (''managed_binary'', ''restore_managed_binary''), (''path_binary'', ''restore_path_binary''),
      (''channel'', ''restore_channel''), (''definition'', ''restore_definition''),
      (''dropin'', ''restore_dropin''), (''disabled'', ''restore_disabled''),
      (''validation_start'', ''restore_validation'')]"

definition reverseKind :: "string \<Rightarrow> string" where
  "reverseKind kind = (case map_of reverse_table kind of None \<Rightarrow> [] | Some k \<Rightarrow> k)"

definition isReverseAction :: "string \<Rightarrow> bool" where
  "isReverseAction kind \<longleftrightarrow> kind \<in>
     {''restore_mask'', ''restore_unmask'', ''restore_disable'', ''restore_enable'', ''restore_stop'', ''restore_start'',
      ''restore_data'', ''data_isolate'', ''restore_managed_binary'', ''restore_path_binary'', ''restore_channel'',
      ''restore_definition'', ''restore_dropin'', ''restore_disabled'', ''restore_reload'', ''restore_validation''}"

definition actionBySeq :: "'w tx \<Rightarrow> int \<Rightarrow> journal_action option" where
  "actionBySeq x q = find (\<lambda>a. ja_Seq a = q) (jn_Actions (tx_journal x))"

text \<open>The last action of a kind decides.\<close>

definition hasDoneKind :: "'w tx \<Rightarrow> string \<Rightarrow> bool" where
  "hasDoneKind x kind =
     (case find (\<lambda>a. ja_Kind a = kind) (rev (jn_Actions (tx_journal x))) of
        None \<Rightarrow> False | Some a \<Rightarrow> ja_Status a = ''done'')"

definition alreadyReversed :: "'w tx \<Rightarrow> journal_action \<Rightarrow> bool" where
  "alreadyReversed x fwd \<longleftrightarrow>
     reverseKind (ja_Kind fwd) \<noteq> [] \<and>
     list_ex (\<lambda>a. ja_Seq a > ja_Seq fwd \<and> ja_Kind a = reverseKind (ja_Kind fwd) \<and>
        ja_TargetRole a = ja_TargetRole fwd \<and> ja_BackupRef a = ja_BackupRef fwd \<and>
        ja_CandidateRef a = ja_CandidateRef fwd) (jn_Actions (tx_journal x))"

section \<open>Recovery\<close>

definition finishAction :: "'w tx_env \<Rightarrow> journal_action \<Rightarrow> 'w op" where
  "finishAction env a x =
     (case actionBySeq x (ja_Seq a) of
        None \<Rightarrow> (Finished, x)
      | Some cur \<Rightarrow>
          if ja_Status cur = ''done'' then (Finished, x)
          else
          (case tx_observe env cur (tx_world x) of
             Inl e \<Rightarrow> (Failed e, x)
           | Inr actual \<Rightarrow>
          (case classifyInstallAction cur actual of
             Inl e \<Rightarrow> (Failed e, x)
           | Inr progress \<Rightarrow>
               and_then (if progress = ActionNotStarted then applyEffect env cur else skip)
                 (\<lambda>x'. case record_tx env (cur\<lparr>ja_Status := ''done''\<rparr>) x' of
                    ((d, None), x'') \<Rightarrow> (Finished, x'')
                  | ((d, Some e), x'') \<Rightarrow> (Failed e, x'')) x)))"

definition restore_action :: "string \<Rightarrow> journal_action \<Rightarrow> string \<Rightarrow> string \<Rightarrow> journal_action" where
  "restore_action kind fwd old new = \<lparr>ja_Seq = 0, ja_Kind = kind, ja_TargetRole = ja_TargetRole fwd, ja_OldState = old,
     ja_BackupRef = ja_BackupRef fwd, ja_NewState = new, ja_CandidateRef = ja_CandidateRef fwd, ja_Status = []\<rparr>"

definition reverse :: "'w tx_env \<Rightarrow> journal_action \<Rightarrow> 'w op" where
  "reverse env fwd x =
     (let kind = reverseKind (ja_Kind fwd);
          undo = (\<lambda>old new. let a = restore_action kind fwd old new in step env a (applyEffect env a) x) in
      if kind = [] then (Finished, x)
      else if ja_Kind fwd = ''data_publish'' \<and> jn_DataAction (tx_journal x) = ''retain'' then (Finished, x)
      else if kind = ''restore_reload''
      then (let n = currentReload env x in undo (reloadToken n) (reloadToken (wrap64 (n + 1))))
      else if kind = ''data_isolate'' \<or> kind = ''restore_data''
      then (case tx_observe env (fwd\<lparr>ja_Kind := ''data_publish''\<rparr>) (tx_world x) of
              Inl e \<Rightarrow> (Failed e, x)
            | Inr actual \<Rightarrow> if actual = ''absent'' then (Finished, x) else undo actual ''absent'')
      else undo (ja_NewState fwd) (ja_OldState fwd))"

text \<open>One turn of the loop of \<open>rollback\<close>: the outcome and whether it reversed something.\<close>

definition rollback_one :: "'w tx_env \<Rightarrow> journal_action \<Rightarrow> 'w tx \<Rightarrow> (outcome \<times> bool) \<times> 'w tx" where
  "rollback_one env a x =
     (if te_serviceEffects env \<noteq> None \<and>
         (ja_Kind a = ''stop'' \<or> ja_Kind a = ''start'' \<or> ja_Kind a = ''restore_stop'' \<or> ja_Kind a = ''restore_start'')
      then ((Finished, False), x)
      else if ja_Kind a = ''reload'' \<or> ja_Kind a = ''restore_reload'' then ((Finished, False), x)
      else if isReverseAction (ja_Kind a) then (case finishAction env a x of (r, x') \<Rightarrow> ((r, False), x'))
      else if alreadyReversed x a then ((Finished, False), x)
      else case tx_observe env a (tx_world x) of
        Inl e \<Rightarrow> ((Failed e, False), x)
      | Inr actual \<Rightarrow>
          (case classifyInstallAction a actual of
             Inl e \<Rightarrow> ((Failed e, False), x)
           | Inr progress \<Rightarrow>
               if progress = ActionNotStarted \<or> reverseKind (ja_Kind a) = [] then ((Finished, False), x)
               else (case reverse env a x of (r, x') \<Rightarrow> ((r, r = Finished), x'))))"

fun rollback_loop :: "'w tx_env \<Rightarrow> journal_action list \<Rightarrow> bool \<Rightarrow> 'w tx \<Rightarrow> (outcome \<times> bool) \<times> 'w tx" where
  "rollback_loop env [] reversed x = ((Finished, reversed), x)"
| "rollback_loop env (a # as) reversed x =
     (case rollback_one env a x of
        ((Finished, r), x') \<Rightarrow> rollback_loop env as (reversed \<or> r) x'
      | res \<Rightarrow> res)"

definition restoreReload :: "'w tx_env \<Rightarrow> 'w op" where
  "restoreReload env x =
     (let n = currentReload env x;
          a = new_action ''restore_reload'' ''definition'' (reloadToken n) (reloadToken (wrap64 (n + 1)))
      in step env a (applyEffect env a) x)"

definition recoveryStopAuthority ::
  "journal \<Rightarrow> service_definition \<Rightarrow> service_definition \<Rightarrow> string \<Rightarrow> string \<Rightarrow> service_definition \<times> string" where
  "recoveryStopAuthority j old target recordedBoot currentBoot =
     (let toTarget = (jn_RecoveryAuthority j = ''target'');
          final = (if toTarget then target else old);
          unknown = (jn_Phase j = ''complete'' \<and> sd_Status final \<noteq> StatusNotInstalled \<or>
            list_ex (\<lambda>a. toTarget \<and> ja_Kind a = ''start'' \<or>
              jn_RecoveryAuthority j = ''source'' \<and> ja_Kind a = ''restore_start'') (jn_Actions j)) in
      if unknown
      then (final\<lparr>sd_Process := no_process,
              sd_Status := (if sd_Status final = StatusNotInstalled then StatusUnknown else sd_Status final)\<rparr>, currentBoot)
      else (old, recordedBoot))"

definition bindRecoveryStopAuthority :: "'w tx_env \<Rightarrow> 'w op" where
  "bindRecoveryStopAuthority env x =
     (case (te_authority env, te_Service env) of
        (Some au, Some sa) \<Rightarrow>
          (case sa_BindStopAuthority sa of
             None \<Rightarrow> (Finished, x)
           | Some bind_it \<Rightarrow>
               (case recoveryStopAuthority (tx_journal x) (au_OldDefinition au) (au_TargetDefinition au)
                       (jn_BootID (tx_journal x)) (te_BootID env) of
                  (d, boot) \<Rightarrow> (Finished, x\<lparr>tx_world := bind_it d boot (tx_world x)\<rparr>)))
      | _ \<Rightarrow> (Finished, x))"

definition restoreService :: "'w tx_env \<Rightarrow> 'w op" where
  "restoreService env =
     (case (te_serviceEffects env, te_authority env) of
        (Some _, Some au) \<Rightarrow>
          and_then (on_service env (\<lambda>sa. sa_RestoreDefinition sa (au_OldDefinition au)))
            (if sd_Running (au_OldDefinition au) then on_service env sa_Start else skip)
      | _ \<Rightarrow> skip)"

definition completeWith :: "'w tx_env \<Rightarrow> string \<Rightarrow> 'w op" where
  "completeWith env authority =
     and_then (set_journal (jn_RecoveryAuthority_update (\<lambda>_. authority))) (setPhase env ''complete'')"

definition rollback_body :: "'w tx_env \<Rightarrow> 'w op" where
  "rollback_body env =
     and_then (case te_BeforeRollback env of None \<Rightarrow> skip | Some f \<Rightarrow> f)
       (\<lambda>x. case rollback_loop env (rev (jn_Actions (tx_journal x))) False x of
          ((Finished, reversed), x') \<Rightarrow>
            and_then (if reversed then restoreReload env else skip)
              (and_then (restoreService env) (completeWith env ''source'')) x'
        | ((r, _), x') \<Rightarrow> (r, x'))"

text \<open>The deferred reset of \<open>recoveringSource\<close> runs on every way out.\<close>

definition rollback :: "'w tx_env \<Rightarrow> 'w op" where
  "rollback env =
     and_then (bindRecoveryStopAuthority env)
       (\<lambda>x. if te_serviceEffects env = None then rollback_body env x
             else case rollback_body env (x\<lparr>tx_recoveringSource := True\<rparr>) of
               (r, x') \<Rightarrow> (r, x'\<lparr>tx_recoveringSource := False\<rparr>))"

section \<open>Rolling forward\<close>

text \<open>The action a hook records: prepared by the service effects, or the plain one; a reload
  counts up, and while the source is being restored the kind is the reverse one.\<close>

definition hook_action :: "'w tx_env \<Rightarrow> definition_action \<Rightarrow> journal_action option \<Rightarrow> 'w tx \<Rightarrow> journal_action" where
  "hook_action env d prepared x =
     (let plain = new_action (da_Kind d) (da_TargetRole d) (da_OldState d) (da_NewState d);
          a0 = (case prepared of None \<Rightarrow> plain | Some p \<Rightarrow> p);
          n = currentReload env x;
          a1 = (if da_Kind d = ''reload''
                then a0\<lparr>ja_OldState := reloadToken n, ja_NewState := reloadToken (wrap64 (n + 1))\<rparr> else a0) in
      if tx_recoveringSource x \<and> reverseKind (ja_Kind a1) \<noteq> [] then a1\<lparr>ja_Kind := reverseKind (ja_Kind a1)\<rparr> else a1)"

definition hook_effect :: "'w tx_env \<Rightarrow> definition_action \<Rightarrow> 'w op \<Rightarrow> journal_action \<Rightarrow> 'w op" where
  "hook_effect env d apply a =
     (case te_serviceEffects env of
        None \<Rightarrow> apply
      | Some s \<Rightarrow>
          and_then (if da_Kind d = ''start'' then (case te_DataLease env of None \<Rightarrow> skip | Some release \<Rightarrow> on_world release) else skip)
            (if da_Path d \<noteq> [] \<and> se_files s \<noteq> None then on_world (effects_apply (te_codec env) s a) else apply))"

text \<open>\<open>journaledHook\<close>: the service's callback around one concrete effect.\<close>

definition journaledHook :: "'w tx_env \<Rightarrow> definition_action \<Rightarrow> 'w op \<Rightarrow> 'w op" where
  "journaledHook env d apply x =
     (case (case te_serviceEffects env of
              Some s \<Rightarrow> if da_Kind d \<noteq> ''reload'' then map_sum id Some (prepare (te_codec env) s d (tx_world x)) else Inr None
            | None \<Rightarrow> Inr None) of
        Inl e \<Rightarrow> (Failed e, x)
      | Inr prepared \<Rightarrow>
          if (case prepared of None \<Rightarrow> False | Some p \<Rightarrow> ja_OldState p = ja_NewState p) then (Finished, x)
          else step env (hook_action env d prepared x) (hook_effect env d apply (hook_action env d prepared x)) x)"

definition kept_paths :: "service_definition \<Rightarrow> string list" where
  "kept_paths target =
     map df_Path (sd_Files target) @
     map dl_Path (filter (\<lambda>l. sd_Enabled target \<or> sd_Masked target \<and> dl_Target l = ''/dev/null'') (sd_Links target))"

definition removeObsoleteDefinitions :: "'w tx_env \<Rightarrow> 'w op" where
  "removeObsoleteDefinitions env =
     (case (te_serviceEffects env, te_authority env) of
        (Some s, Some au) \<Rightarrow>
          for_each (\<lambda>(path, kind).
              if path \<in> set (kept_paths (au_TargetDefinition au)) then skip
              else let d = \<lparr>da_Path = path, da_File = None, da_Link = [], da_Kind = kind, da_TargetRole = ''definition'',
                            da_OldState = [], da_NewState = ''absent''\<rparr> in
                journaledHook env d (on_world (ra_ReplayAction (se_adapter s) d)))
            (map (\<lambda>f. (df_Path f, if df_Kind f = ''dropin'' then ''dropin'' else ''definition'')) (sd_Files (au_OldDefinition au)) @
             map (\<lambda>l. (dl_Path l, ''disable'')) (sd_Links (au_OldDefinition au)))
      | _ \<Rightarrow> skip)"

text \<open>The source observes a kind that was done before a first time on its own; observing
  changes nothing, so the second observation repeats that answer.\<close>

definition ensureAction :: "'w tx_env \<Rightarrow> journal_action \<Rightarrow> 'w op" where
  "ensureAction env a x =
     (case tx_observe env a (tx_world x) of
        Inl e \<Rightarrow> (Failed e, x)
      | Inr actual \<Rightarrow>
          if actual = ja_NewState a then (Finished, x)
          else if actual \<noteq> ja_OldState a then (Failed unknownInstallState, x)
          else step env a (applyEffect env a) x)"

text \<open>Is there a finished reload after a finished activation?\<close>

fun reload_after_activation :: "bool \<Rightarrow> journal_action list \<Rightarrow> bool" where
  "reload_after_activation seen [] = False"
| "reload_after_activation seen (a # as) =
     (if ja_Kind a = ''activation'' \<and> ja_Status a = ''done'' then reload_after_activation True as
      else if seen \<and> (ja_Kind a = ''reload'' \<or> ja_Kind a = ''restore_reload'') \<and> ja_Status a = ''done'' then True
      else reload_after_activation seen as)"

definition ensureReload :: "'w tx_env \<Rightarrow> 'w op" where
  "ensureReload env x =
     (if reload_after_activation False (jn_Actions (tx_journal x)) then (Finished, x) else reloadStep env x)"

text \<open>The target's enablement and running state, as the operation decides them.\<close>

definition target_state :: "'w tx_env \<Rightarrow> journal \<Rightarrow> bool \<times> bool" where
  "target_state env j =
     (let enabled = (te_TargetEnabled env \<or> te_OldEnabled env \<and> jn_OldEnabled j); running = te_TargetRunning env in
      if jn_Operation j = ''update'' then (jn_OldEnabled j, jn_OldRunning j)
      else if jn_Operation j = ''reinstall'' then (True, True)
      else if jn_Operation j = ''install'' then (True, False)
      else (enabled, running))"

definition ensure_native :: "'w tx_env \<Rightarrow> service_definition \<Rightarrow> 'w op" where
  "ensure_native env target =
     and_then (removeObsoleteDefinitions env)
       (if sd_Status target = StatusNotInstalled then reloadStep env
        else and_then (on_service env (\<lambda>sa. sa_WriteDefinition sa target))
          (if sd_Running target then on_service env sa_Start else skip))"

definition ensure_plain :: "'w tx_env \<Rightarrow> bool \<times> bool \<Rightarrow> 'w op" where
  "ensure_plain env t =
     and_then (ensureAction env (new_action ''unmask'' ''definition'' ''masked'' ''unmasked''))
     (and_then (if fst t then ensureAction env (new_action ''enable'' ''definition'' ''disabled'' ''enabled'') else skip)
     (and_then (ensureReload env)
       (if snd t then ensureAction env (new_action ''start'' ''definition'' ''stopped'' ''running'') else skip)))"

definition ensureTarget :: "'w tx_env \<Rightarrow> 'w op" where
  "ensureTarget env x =
     (case (te_authority env, te_serviceEffects env) of
        (Some au, Some _) \<Rightarrow> ensure_native env (au_TargetDefinition au) x
      | (Some au, None) \<Rightarrow>
          if sd_Status (au_TargetDefinition au) = StatusNotInstalled then (Finished, x)
          else ensure_plain env (target_state env (tx_journal x)) x
      | (None, _) \<Rightarrow> ensure_plain env (target_state env (tx_journal x)) x)"

definition rollforward :: "'w tx_env \<Rightarrow> 'w op" where
  "rollforward env =
     and_then (bindRecoveryStopAuthority env)
     (and_then (case te_Service env of
                  None \<Rightarrow> skip
                | Some sa \<Rightarrow> (case sa_WaitRecordedTreeExit sa of None \<Rightarrow> skip | Some f \<Rightarrow> f))
       (\<lambda>x. and_then (for_each (finishAction env) (jn_Actions (tx_journal x)))
             (and_then (ensureTarget env) (completeWith env ''target'')) x))"

section \<open>The entry points\<close>

definition errValidationHandshake :: go_error where
  "errValidationHandshake = Api (api CodeInvalidState ''validation handshake rejected'')"

definition validationLaunchPath :: "string \<Rightarrow> string" where
  "validationLaunchPath i = ''transactions/'' @ i @ ''/validation-launch.json''"

definition maxValidationReadyBytes :: nat where
  "maxValidationReadyBytes = 16384"

definition layoutIdentityOf :: "journal_codec \<Rightarrow> journal \<Rightarrow> string" where
  "layoutIdentityOf c j =
     sha256Hex c (join_with (CHR 0x0A) [jn_Mode j, jn_TargetPath j, jn_EndpointPath j, jn_CredentialPath j, jn_InstallPath j])"

definition validProcessStart :: "process_start \<Rightarrow> bool" where
  "validProcessStart p \<longleftrightarrow> ps_PID p > 0 \<and> ps_BootID p \<noteq> [] \<and> ps_StartUnix p > 0"

definition no_process_start :: process_start where
  "no_process_start = \<lparr>ps_PID = 0, ps_BootID = [], ps_StartUnix = 0, ps_StartUsec = 0\<rparr>"

definition loadValidationLaunch :: "'w tx_env \<Rightarrow> 'w journal_files \<Rightarrow> journal \<Rightarrow> 'w \<Rightarrow> go_error + validation_launch option" where
  "loadValidationLaunch env fs j w =
     (let name = validationLaunchPath (jn_TransactionID j); c = te_codec env in
      case jf_inspect fs name w of
        Inl e \<Rightarrow> Inl e
      | Inr obj \<Rightarrow>
          if \<not> jo_Present obj then Inr None
          else
          (case jf_read fs name maxValidationReadyBytes w of
             Inl e \<Rightarrow> Inl e
           | Inr raw \<Rightarrow>
               (case decodeStrictJSON (jc_parse c) maxValidationReadyBytes (te_decodeLaunch env) raw of
                  Inl _ \<Rightarrow> Inl errValidationHandshake
                | Inr l \<Rightarrow>
                    if vl_TransactionID l \<noteq> jn_TransactionID j \<or> vl_BinaryHash l \<noteq> jn_CandidateHash j \<or>
                       vl_LayoutIdentity l \<noteq> layoutIdentityOf c j \<or> \<not> validSHA256 (vl_NonceHash l) \<or>
                       \<not> validProcessStart (vl_Parent l)
                    then Inl errValidationHandshake else Inr (Some l))))"

definition recoverValidation :: "'w tx_env \<Rightarrow> 'w journal_files \<Rightarrow> 'w op" where
  "recoverValidation env fs x =
     (if hasDoneKind x ''validation_stop'' \<or> hasDoneKind x ''restore_validation'' then (Finished, x)
      else case loadValidationLaunch env fs (tx_journal x) (tx_world x) of
        Inl e \<Rightarrow> (Failed e, x)
      | Inr None \<Rightarrow> (Finished, x)
      | Inr (Some l) \<Rightarrow>
          if vl_Child l = no_process_start then (Finished, x)
          else if \<not> validProcessStart (vl_Child l) then (Failed errValidationHandshake, x)
          else (case te_reaper env of
                  None \<Rightarrow> (Failed (installBusy ''validation process recovery is unavailable''), x)
                | Some reap \<Rightarrow> on_world (reap (vl_Child l) (tx_journal x)) x))"

text \<open>\<open>RecoverLocked\<close>; the lease is \<open>None\<close> when there is none, otherwise its \<open>Validate\<close>.\<close>

definition RecoverLocked :: "'w tx_env \<Rightarrow> go_error option \<Rightarrow> ('w \<Rightarrow> go_error option) option \<Rightarrow> 'w op" where
  "RecoverLocked env ctx_err lease x =
     (case ctx_err of
        Some e \<Rightarrow> (Failed e, x)
      | None \<Rightarrow>
     (case lease of
        None \<Rightarrow> (Failed (installBusy ''install lock is unavailable''), x)
      | Some validate \<Rightarrow>
     (case validate (tx_world x) of
        Some e \<Rightarrow> (Failed (installClosed e), x)
      | None \<Rightarrow>
     (case te_Store env of
        None \<Rightarrow> (Finished, x)
      | Some fs \<Rightarrow>
     (case jf_inspect fs installJournalFileName (tx_world x) of
        Inl e \<Rightarrow> (Failed e, x)
      | Inr object \<Rightarrow>
     (if \<not> jo_Present object then (Finished, x)
      else
      case store_Load_journal (te_codec env) (te_Store env) (tx_world x) of
        Inl e \<Rightarrow> (Failed e, x)
      | Inr j \<Rightarrow>
          let x1 = x\<lparr>tx_journal := j, tx_stepN := 0\<rparr> in
          if te_authority env \<noteq> None \<and> jn_Phase j = ''complete'' then (Finished, x1)
          else and_then (recoverValidation env fs)
            (if jn_RecoveryAuthority j = ''target'' then rollforward env else rollback env) x1))))))"

text \<open>\<open>daemon/activation.go\<close> and \<open>startup_gate.go\<close>: the checks of a starting daemon. The layout has the fields that
  the gate compares.\<close>

definition CheckOrdinaryDaemonStart :: "journal \<Rightarrow> bool \<Rightarrow> go_error option" where
  "CheckOrdinaryDaemonStart j present = (if \<not> present then None else CheckDaemonInstallJournal j)"

definition BusinessMutationAllowed :: "string \<Rightarrow> bool \<Rightarrow> bool" where
  "BusinessMutationAllowed phase validationMode \<longleftrightarrow>
     \<not> validationMode \<and> phase \<in> {[], ''activation_committed'', ''complete''}"

record resolved_layout =
  rl_Mode :: string
  rl_DataRoot :: string
  rl_InstallRoot :: string
  rl_ControlEndpoint :: string
  rl_CredentialPath :: string

definition startupJournalPhase :: "journal \<Rightarrow> resolved_layout \<Rightarrow> go_error + string" where
  "startupJournalPhase j layout =
     (case CheckDaemonInstallJournal j of
        Some e \<Rightarrow> Inl e
      | None \<Rightarrow>
          if jn_RecoveryAuthority j \<noteq> ''target'' \<or>
             (jn_Phase j \<noteq> ''activation_committed'' \<and> jn_Phase j \<noteq> ''complete'') \<or>
             jn_Mode j \<noteq> rl_Mode layout \<or> jn_TargetPath j \<noteq> rl_DataRoot layout \<or> jn_DataRoot j \<noteq> rl_DataRoot layout \<or>
             jn_InstallPath j \<noteq> rl_InstallRoot layout \<or> jn_EndpointPath j \<noteq> rl_ControlEndpoint layout \<or>
             jn_CredentialPath j \<noteq> rl_CredentialPath layout
          then Inl (installBusy ''install activation does not match this instance'')
          else Inr (jn_Phase j))"

text \<open>The journal part of \<open>inspectUnixActivation\<close> for a journal file that is there; the comparison of the binary's
  hash that follows for root is left out.\<close>

definition inspectJournal :: "journal_codec \<Rightarrow> 'w journal_files \<Rightarrow> 'w \<Rightarrow> go_error + journal" where
  "inspectJournal c fs w =
     (case jf_read fs installJournalFileName MaxInstallJournalBytes w of
        Inl e \<Rightarrow> Inl e
      | Inr raw \<Rightarrow> DecodeJournal c raw)"

definition inspectUnixActivation :: "journal_codec \<Rightarrow> 'w journal_files \<Rightarrow> resolved_layout \<Rightarrow> 'w \<Rightarrow> go_error + string" where
  "inspectUnixActivation c fs layout w =
     (case inspectJournal c fs w of
        Inl e \<Rightarrow> Inl e
      | Inr j \<Rightarrow> startupJournalPhase j layout)"

text \<open>\<open>lifecycleActions\<close>: start, stop, restart and uninstall of a prepared native installation.\<close>

definition lifecycleActions :: "'w tx_env \<Rightarrow> string \<Rightarrow> 'w op" where
  "lifecycleActions env operation =
     (case (te_serviceEffects env, te_authority env) of
        (Some _, Some au) \<Rightarrow>
          if operation \<notin> {''start'', ''stop'', ''restart'', ''uninstall''}
          then fail (Api (api CodeInvalidArgument ''invalid install request''))
          else
            and_then (if operation \<noteq> ''start''
                      then and_then (on_service env sa_DisableAutostartAndStop) (on_service env sa_WaitOwnedTreeExit)
                      else skip)
            (and_then (activate env)
            (and_then (removeObsoleteDefinitions env)
            (and_then (if operation \<noteq> ''uninstall''
                       then on_service env (\<lambda>sa. sa_WriteDefinition sa (au_TargetDefinition au))
                       else reloadStep env)
            (and_then (if sd_Running (au_TargetDefinition au) then on_service env sa_Start else skip)
              (setPhase env ''complete'')))))
      | _ \<Rightarrow> fail unknownInstallState)"

end
