(* ===== verification/Install_Recovery.thy ===== *)
theory Install_Recovery
  imports Install_Transaction
begin

text \<open>
  What the transaction of \<open>Install_Transaction\<close> guarantees. An effect runs only once its
  intent is durable on disk. Recorded actions are finished exactly once, whatever point a
  crash left them at: rolling forward leaves every recorded action done, and rolling back
  leaves every action idle, reversed, or done if it was itself a reversal. A successful
  recovery opens the gate that keeps the daemon from starting on a pending journal.
\<close>

section \<open>Rules for operations\<close>

text \<open>An operation keeps a relation between the transaction before and after, on every way out.\<close>

definition always :: "('w tx \<Rightarrow> 'w tx \<Rightarrow> bool) \<Rightarrow> 'w op \<Rightarrow> bool" where
  "always R f \<longleftrightarrow> (\<forall>x. R x (snd (f x)))"

definition preorder_rel :: "('w tx \<Rightarrow> 'w tx \<Rightarrow> bool) \<Rightarrow> bool" where
  "preorder_rel R \<longleftrightarrow> (\<forall>x. R x x) \<and> (\<forall>x y z. R x y \<longrightarrow> R y z \<longrightarrow> R x z)"

lemma and_then_cases:
  assumes "and_then f g x = (r, x')"
  obtains (first) "f x = (r, x')" "r \<noteq> Finished" | (second) y where "f x = (Finished, y)" "g y = (r, x')"
  using assms by (cases "f x"; cases "fst (f x)") (auto simp: and_then_def)

lemma and_then_Finished:
  "and_then f g x = (Finished, x') \<longleftrightarrow> (\<exists>y. f x = (Finished, y) \<and> g y = (Finished, x'))"
  by (cases "f x"; cases "fst (f x)") (auto simp: and_then_def)

lemma always_and_then: "preorder_rel R \<Longrightarrow> always R f \<Longrightarrow> always R g \<Longrightarrow> always R (and_then f g)"
  unfolding always_def preorder_rel_def and_then_def
  by (auto split: prod.splits outcome.splits) (metis snd_conv)+

lemma always_skip: "preorder_rel R \<Longrightarrow> always R skip"
  by (simp add: always_def preorder_rel_def skip_def)

lemma always_fail: "preorder_rel R \<Longrightarrow> always R (fail e)"
  by (simp add: always_def preorder_rel_def fail_def)

lemma always_for_each: "preorder_rel R \<Longrightarrow> (\<And>a. a \<in> set as \<Longrightarrow> always R (f a)) \<Longrightarrow> always R (for_each f as)"
  by (induction as) (auto simp: always_and_then, simp add: always_def preorder_rel_def)

lemma alwaysD: "always R f \<Longrightarrow> f x = (r, x') \<Longrightarrow> R x x'"
  by (metis always_def snd_conv)

section \<open>The journal only grows\<close>

text \<open>One action entry after another: the same action, and done once it was done.\<close>

definition same_action :: "journal_action \<Rightarrow> journal_action \<Rightarrow> bool" where
  "same_action a b \<longleftrightarrow> ja_Seq a = ja_Seq b \<and> ja_Kind a = ja_Kind b \<and> ja_TargetRole a = ja_TargetRole b \<and>
     (ja_Status a = ''done'' \<longrightarrow> a = b)"

definition actions_grow :: "journal_action list \<Rightarrow> journal_action list \<Rightarrow> bool" where
  "actions_grow as bs \<longleftrightarrow> length as \<le> length bs \<and> (\<forall>k < length as. same_action (as ! k) (bs ! k))"

definition journal_grows :: "'w tx \<Rightarrow> 'w tx \<Rightarrow> bool" where
  "journal_grows x y \<longleftrightarrow> actions_grow (jn_Actions (tx_journal x)) (jn_Actions (tx_journal y))"

lemma same_action_refl [simp]: "same_action a a"
  by (simp add: same_action_def)

lemma same_action_trans: "same_action a b \<Longrightarrow> same_action b c \<Longrightarrow> same_action a c"
  by (auto simp: same_action_def)

lemma journal_grows_preorder: "preorder_rel journal_grows"
  unfolding preorder_rel_def journal_grows_def actions_grow_def
  by (auto intro: same_action_trans order_trans)

lemma actions_grow_refl: "actions_grow as as"
  by (simp add: actions_grow_def)

lemma next_actions_grow: "next_actions a as = Inr as' \<Longrightarrow> actions_grow as as'"
proof (cases "ja_Status a = ''intent''")
  case False
  assume n: "next_actions a as = Inr as'"
  with False have "complete_action a as = Inr as'" by (auto simp: next_actions_def split: if_splits)
  then obtain k where "k < length as" "as' = as[k := fill_action (as ! k) a]" "ja_Status (as ! k) = ''intent''"
    "ja_Seq (as ! k) = ja_Seq a" "ja_Kind (as ! k) = ja_Kind a" "ja_TargetRole (as ! k) = ja_TargetRole a"
    by (rule complete_action_Inr)
  then show ?thesis by (auto simp: actions_grow_def same_action_def nth_list_update)
qed (auto simp: next_actions_def actions_grow_def Let_def nth_append split: option.splits)

lemma RecordAction_grows:
  "RecordAction c st a j w = (r, j', w') \<Longrightarrow> actions_grow (jn_Actions j) (jn_Actions j')"
proof -
  assume "RecordAction c st a j w = (r, j', w')"
  moreover obtain d err where "r = (d, err)" by (cases r)
  ultimately have R: "RecordAction c st a j w = ((d, err), j', w')" by simp
  then show ?thesis
    by (cases rule: RecordAction_cases) (auto dest: next_actions_grow simp: actions_grow_refl)
qed

lemma record_tx_grows: "record_tx env a x = (r, x') \<Longrightarrow> journal_grows x x'"
  by (auto simp: record_tx_def journal_grows_def dest: RecordAction_grows split: prod.splits)

lemma record_durably_grows: "always journal_grows (record_durably env a)"
  unfolding always_def record_durably_def
  by (auto split: prod.splits option.splits dest: record_tx_grows)

lemma crash_at_always: "preorder_rel R \<Longrightarrow> always R (crash_at env n p)"
  by (simp add: always_def preorder_rel_def crash_at_def)

lemma finish_last_grows: "always journal_grows (finish_last env)"
  using record_durably_grows journal_grows_preorder unfolding always_def preorder_rel_def finish_last_def by auto

lemma on_world_grows: "always journal_grows (on_world f)"
  unfolding always_def on_world_def
  by (auto simp: journal_grows_def actions_grow_def split: prod.splits option.splits)

lemmas grows_rules = journal_grows_preorder always_and_then always_skip always_fail always_for_each
  crash_at_always record_durably_grows finish_last_grows on_world_grows

lemma step_grows: "always journal_grows f \<Longrightarrow> always journal_grows (step env a f)"
proof -
  assume f: "always journal_grows f"
  have "always journal_grows (and_then (crash_at env n ''before-intent'')
      (and_then (record_durably env (a\<lparr>ja_Status := ''intent''\<rparr>)) (and_then (crash_at env n ''after-intent'')
      (and_then f (and_then (crash_at env n ''after-effect'') (and_then (finish_last env) (crash_at env n ''after-done'')))))))" for n
    by (intro grows_rules f)
  note all = this [unfolded always_def, rule_format]
  show ?thesis
    unfolding always_def
  proof
    fix x :: "'a tx"
    show "journal_grows x (snd (step env a f x))"
      using all [of "x\<lparr>tx_stepN := tx_stepN x + 1\<rparr>" "tx_stepN x + 1"] by (simp add: step_def Let_def journal_grows_def)
  qed
qed


lemma journal_grows_refl [simp]: "journal_grows x x"
  by (simp add: journal_grows_def actions_grow_refl)

lemma journal_grows_trans: "journal_grows x y \<Longrightarrow> journal_grows y z \<Longrightarrow> journal_grows x z"
  by (metis journal_grows_preorder preorder_rel_def)

text \<open>Operations that leave the journal alone.\<close>

definition keeps_journal :: "'w op \<Rightarrow> bool" where
  "keeps_journal f \<longleftrightarrow> always (\<lambda>x y. tx_journal y = tx_journal x) f"

lemma keeps_preorder: "preorder_rel (\<lambda>x y. tx_journal y = tx_journal x)"
  by (simp add: preorder_rel_def)

lemma keeps_journal_grows: "keeps_journal f \<Longrightarrow> always journal_grows f"
  by (simp add: keeps_journal_def always_def journal_grows_def actions_grow_refl)

lemma keeps_on_world: "keeps_journal (on_world f)"
  by (simp add: keeps_journal_def always_def on_world_def split: prod.splits option.splits)

lemma keeps_skip: "keeps_journal skip"
  by (simp add: keeps_journal_def always_def skip_def)

lemma keeps_and_then: "keeps_journal f \<Longrightarrow> keeps_journal g \<Longrightarrow> keeps_journal (and_then f g)"
  unfolding keeps_journal_def by (rule always_and_then [OF keeps_preorder])

lemma keeps_apply_effects: "keeps_journal (apply_effects env a)"
  by (simp add: apply_effects_def keeps_skip keeps_on_world split: option.splits)

lemma keeps_applyEffect: "keeps_journal (applyEffect env a)"
  by (simp add: applyEffect_def keeps_apply_effects keeps_on_world split: option.splits)

lemma keeps_journalD: "keeps_journal f \<Longrightarrow> f x = (r, y) \<Longrightarrow> tx_journal y = tx_journal x"
  unfolding keeps_journal_def by (rule alwaysD)

section \<open>What a published record is\<close>

text \<open>The store of a transaction that has one and whose files are lawful.\<close>

definition lawful_store :: "'w tx_env \<Rightarrow> bool" where
  "lawful_store env \<longleftrightarrow> (case te_Store env of None \<Rightarrow> True | Some fs \<Rightarrow> lawful_files fs)"

lemma store_Save_published:
  assumes "lawful_store env" "store_Save_journal c (te_Store env) j w = ((d, None), w')"
  obtains fs raw where "te_Store env = Some fs" "du_Published d" "EncodeJournal c j = Inr raw"
    "\<And>bound. length raw \<le> bound \<Longrightarrow> 0 < bound \<Longrightarrow> jf_read fs installJournalFileName bound w' = Inr raw"
proof -
  obtain fs raw old where s: "te_Store env = Some fs" "EncodeJournal c j = Inr raw"
    "jf_write fs installJournalFileName raw old w = ((d, None), w')"
    using assms(2) by (auto simp: store_Save_journal_def split: option.splits sum.splits)
  have "lawful_files fs" using assms(1) s(1) by (simp add: lawful_store_def)
  note law = this [unfolded lawful_files_def, rule_format, OF s(3)]
  show ?thesis using that [OF s(1) _ s(2)] law by simp
qed

lemma RecordAction_success:
  assumes "lawful_store env" "RecordAction c (te_Store env) a j w = ((d, None), j', w')"
  obtains as where "next_actions a (jn_Actions j) = Inr as" "j' = j\<lparr>jn_Actions := as\<rparr>"
    "validateInstallJournal c j' = None"
  using assms(2)
proof (cases rule: RecordAction_cases)
  case (saved as)
  obtain fs raw where s: "du_Published d" "EncodeJournal c (j\<lparr>jn_Actions := as\<rparr>) = Inr raw"
    using store_Save_published [OF assms(1) saved(2)] by metis
  have "validateInstallJournal c (j\<lparr>jn_Actions := as\<rparr>) = None"
    using s(2) by (auto simp: EncodeJournal_def split: option.splits)
  then show ?thesis using that [OF saved(1)] saved(3) s(1) by simp
qed simp

lemma record_tx_success:
  assumes "lawful_store env" "record_tx env a x = ((d, None), x')"
  obtains as where "next_actions a (jn_Actions (tx_journal x)) = Inr as"
    "tx_journal x' = (tx_journal x)\<lparr>jn_Actions := as\<rparr>" "validate_actions 0 as = None"
proof -
  obtain j w where R: "RecordAction (te_codec env) (te_Store env) a (tx_journal x) (tx_world x) = ((d, None), j, w)"
    and x': "x' = x\<lparr>tx_journal := j, tx_world := w\<rparr>"
    using assms(2) by (auto simp: record_tx_def split: prod.splits)
  obtain as where as: "next_actions a (jn_Actions (tx_journal x)) = Inr as" "j = (tx_journal x)\<lparr>jn_Actions := as\<rparr>"
    "validateInstallJournal (te_codec env) j = None"
    by (rule RecordAction_success [OF assms(1) R])
  have "validate_actions 0 as = None"
    using as(2,3) validateInstallJournal_actions by blast
  then show ?thesis using that as x' by simp
qed


lemma next_intent:
  "ja_Status a = ''intent'' \<Longrightarrow> next_actions a as = Inr as' \<Longrightarrow> as' = appended a as"
  by (auto simp: next_actions_def Let_def appended_def split: option.splits)

section \<open>A finished step\<close>

lemma record_durably_success:
  assumes "lawful_store env" "record_durably env a x = (Finished, x')"
  obtains as where "next_actions a (jn_Actions (tx_journal x)) = Inr as"
    "tx_journal x' = (tx_journal x)\<lparr>jn_Actions := as\<rparr>" "validate_actions 0 as = None"
proof -
  obtain d where "record_tx env a x = ((d, None), x')"
    using assms(2) by (auto simp: record_durably_def split: prod.splits option.splits if_splits)
  from record_tx_success [OF assms(1) this] show ?thesis using that by blast
qed

text \<open>The entry a completed action has in the journal.\<close>

definition done_entry :: "journal_action \<Rightarrow> nat \<Rightarrow> journal_action" where
  "done_entry a k = a\<lparr>ja_Seq := int k + 1, ja_Status := ''done''\<rparr>"

lemma finish_last_success:
  assumes "lawful_store env" "finish_last env x = (Finished, x')" "validate_actions 0 (jn_Actions (tx_journal x)) = None"
    and "jn_Actions (tx_journal x) = as @ [a]"
  shows "jn_Actions (tx_journal x') = as @ [a\<lparr>ja_Status := ''done''\<rparr>]"
proof -
  let ?b = "a\<lparr>ja_Status := ''done''\<rparr>"
  have "record_durably env ?b x = (Finished, x')" using assms(2,4) by (simp add: finish_last_def)
  then obtain bs where bs: "next_actions ?b (as @ [a]) = Inr bs" "tx_journal x' = (tx_journal x)\<lparr>jn_Actions := bs\<rparr>"
    using record_durably_success [OF assms(1)] assms(4) by metis
  have c: "complete_action ?b (as @ [a]) = Inr bs" using bs(1) by (simp add: next_actions_def)
  have v: "ja_Seq ((as @ [a]) ! k) = 1 + int k \<and> validateJournalAction ((as @ [a]) ! k) = None" if "k < length (as @ [a])" for k
    using assms(3) that unfolding assms(4) validate_actions_None by simp
  have s: "ja_Seq a = int (length as) + 1" and va: "validateJournalAction a = None"
    using v [of "length as"] by simp_all
  have "ja_OldState a \<noteq> []" "ja_NewState a \<noteq> []"
    using va unfolding validateJournalAction_def check_simps by blast+
  then have f: "fill_action a ?b = ?b" by (rule fill_action_done)
  have "bs = (as @ [a])[length as := fill_action ((as @ [a]) ! length as) ?b]"
  proof (rule complete_action_at [OF c])
    fix m assume "m < length as"
    then show "ja_Seq ((as @ [a]) ! m) \<noteq> ja_Seq ?b" using v [of m] s by (simp add: nth_append)
  qed simp_all
  then show ?thesis using bs(2) f by simp
qed

text \<open>A finished step whose effect leaves the journal alone has appended its action, done.\<close>

lemma crash_at_cases: "crash_at env n p x = (Crashed, x) \<or> crash_at env n p x = (Finished, x)"
  by (simp add: crash_at_def)

lemma crash_at_Finished: "crash_at env n p x = (Finished, y) \<Longrightarrow> y = x"
  by (auto simp: crash_at_def split: if_splits)

definition after_effect :: "'w tx_env \<Rightarrow> nat \<Rightarrow> 'w op" where
  "after_effect env n =
     and_then (crash_at env n ''after-effect'') (and_then (finish_last env) (crash_at env n ''after-done''))"

text \<open>A step ends before its effect, whatever the effect is, or runs it after the intent.\<close>

lemma step_shape:
  "(\<exists>r. \<forall>f. step env a f x = r) \<or>
   (\<exists>x1. record_durably env (a\<lparr>ja_Status := ''intent''\<rparr>) (x\<lparr>tx_stepN := tx_stepN x + 1\<rparr>) = (Finished, x1) \<and>
      (\<forall>f. step env a f x = and_then f (after_effect env (tx_stepN x + 1)) x1))"
proof -
  let ?n = "tx_stepN x + 1"
  let ?x = "x\<lparr>tx_stepN := ?n\<rparr>"
  show ?thesis
    using crash_at_cases [of env ?n "''before-intent''" ?x]
  proof
    assume "crash_at env ?n ''before-intent'' ?x = (Crashed, ?x)"
    then show ?thesis by (simp add: step_def Let_def and_then_def)
  next
    assume b: "crash_at env ?n ''before-intent'' ?x = (Finished, ?x)"
    obtain r x1 where r: "record_durably env (a\<lparr>ja_Status := ''intent''\<rparr>) ?x = (r, x1)" by (metis surj_pair)
    show ?thesis
    proof (cases "r = Finished \<and> crash_at env ?n ''after-intent'' x1 = (Finished, x1)")
      case True
      then show ?thesis using b r by (auto simp: step_def Let_def and_then_def after_effect_def)
    next
      case False
      then show ?thesis
        using b r crash_at_cases [of env ?n "''after-intent''" x1] by (cases r) (auto simp: step_def Let_def and_then_def)
    qed
  qed
qed

lemma step_called:
  assumes "step env a f x = (Finished, x')"
  obtains (called) x1 y where "record_durably env (a\<lparr>ja_Status := ''intent''\<rparr>) (x\<lparr>tx_stepN := tx_stepN x + 1\<rparr>) = (Finished, x1)"
    "f x1 = (Finished, y)" "finish_last env y = (Finished, x')"
proof -
  have "\<not> (\<exists>r. \<forall>f. step env a f x = r)"
  proof
    assume "\<exists>r. \<forall>f. step env a f x = r"
    then have "step env a (\<lambda>y. (Crashed, y)) x = (Finished, x')" using assms by metis
    then show False
      by (auto simp: step_def Let_def and_then_Finished)
  qed
  then obtain x1 where x1: "record_durably env (a\<lparr>ja_Status := ''intent''\<rparr>) (x\<lparr>tx_stepN := tx_stepN x + 1\<rparr>) = (Finished, x1)"
    "and_then f (after_effect env (tx_stepN x + 1)) x1 = (Finished, x')"
    using step_shape [of env a x] assms by metis
  then show ?thesis using called by (auto simp: and_then_Finished after_effect_def dest!: crash_at_Finished)
qed

lemma step_success:
  assumes "lawful_store env" "keeps_journal f" "step env a f x = (Finished, x')"
  shows "jn_Actions (tx_journal x') = jn_Actions (tx_journal x) @ [done_entry a (length (jn_Actions (tx_journal x)))]"
  using assms(3)
proof (cases rule: step_called)
  case (called x1 y)
  let ?as = "jn_Actions (tx_journal x)"
  obtain bs where bs: "next_actions (a\<lparr>ja_Status := ''intent''\<rparr>) ?as = Inr bs"
    "tx_journal x1 = (tx_journal x)\<lparr>jn_Actions := bs\<rparr>" "validate_actions 0 bs = None"
    using record_durably_success [OF assms(1) called(1)] by auto
  have b: "bs = ?as @ [a\<lparr>ja_Seq := int (length ?as) + 1, ja_Status := ''intent''\<rparr>]"
    using next_intent [OF _ bs(1)] by (simp add: appended_def)
  have "jn_Actions (tx_journal y) = bs" using keeps_journalD [OF assms(2) called(2)] bs(2) by simp
  then show ?thesis
    using finish_last_success [OF assms(1) called(3), of ?as "a\<lparr>ja_Seq := int (length ?as) + 1, ja_Status := ''intent''\<rparr>"] bs(3) b
    by (simp add: done_entry_def)
qed

section \<open>The intent on disk\<close>

text \<open>The state in which an effect may run: the journal on disk is the one in memory, and it
  is the journal before with the intent of this action appended.\<close>

definition intent_on_disk :: "'w tx_env \<Rightarrow> journal_action \<Rightarrow> 'w tx \<Rightarrow> 'w tx \<Rightarrow> bool" where
  "intent_on_disk env a x y \<longleftrightarrow>
     store_Load_journal (te_codec env) (te_Store env) (tx_world y) = Inr (tx_journal y) \<and>
     tx_journal y = (tx_journal x)\<lparr>jn_Actions := appended (a\<lparr>ja_Status := ''intent''\<rparr>) (jn_Actions (tx_journal x))\<rparr>"

text \<open>What the codec needs of a journal to which an action is appended.\<close>

definition fits :: "'w tx_env \<Rightarrow> journal_action \<Rightarrow> journal \<Rightarrow> bool" where
  "fits env a j \<longleftrightarrow>
     (let as = appended (a\<lparr>ja_Status := ''intent''\<rparr>) (jn_Actions j) in
      utf8_header j \<and> utf8_actions as \<and> \<not> oversized (te_codec env) (j\<lparr>jn_Actions := as\<rparr>))"

lemma record_intent_on_disk:
  assumes "te_Store env = Some fs" "lawful_files fs" "lawful_codec (te_codec env)"
    and "store_Load_journal (te_codec env) (Some fs) (tx_world x) = Inr (tx_journal x)" "fits env a (tx_journal x)"
    and "record_durably env (a\<lparr>ja_Status := ''intent''\<rparr>) (x\<lparr>tx_stepN := n\<rparr>) = (Finished, x1)"
  shows "intent_on_disk env a x x1"
proof -
  let ?b = "a\<lparr>ja_Status := ''intent''\<rparr>"
  let ?j = "tx_journal x"
  obtain d j w where R: "RecordAction (te_codec env) (Some fs) ?b ?j (tx_world x) = ((d, None), j, w)"
    and x1: "tx_journal x1 = j" "tx_world x1 = w"
    using assms(1,6) by (auto simp: record_durably_def record_tx_def split: prod.splits option.splits if_splits)
  have st: "lawful_store env" using assms(1,2) by (simp add: lawful_store_def)
  obtain as where as: "next_actions ?b (jn_Actions ?j) = Inr as" "j = ?j\<lparr>jn_Actions := as\<rparr>"
    using RecordAction_success [OF st, of "te_codec env"] R assms(1) by metis
  have a': "as = appended ?b (jn_Actions ?j)" by (rule next_intent [OF _ as(1)]) simp
  from R show ?thesis
  proof (cases rule: RecordAction_cases)
    case (saved as')
    have e: "as' = as" using saved(1) as(1) by simp
    have u: "utf8_header (?j\<lparr>jn_Actions := as\<rparr>)" "utf8_actions as" "\<not> oversized (te_codec env) (?j\<lparr>jn_Actions := as\<rparr>)"
      using assms(5) a' by (auto simp: fits_def Let_def utf8_header_def)
    note sd = store_Save_disk [OF assms(2,3) u(1) _ u(3) assms(4) _ _ saved(2) [unfolded e]]
    have "store_Load_journal (te_codec env) (Some fs) w = Inr j"
      using sd(1,3,4) u(2) as(2) by simp
    then show ?thesis using x1 as(2) a' assms(1) by (simp add: intent_on_disk_def)
  qed simp
qed


section \<open>Finishing recorded actions\<close>

lemma find_at:
  "k < length as \<Longrightarrow> P (as ! k) \<Longrightarrow> (\<And>m. m < k \<Longrightarrow> \<not> P (as ! m)) \<Longrightarrow> find P as = Some (as ! k)"
proof (induction as arbitrary: k)
  case (Cons a as)
  show ?case
  proof (cases k)
    case (Suc i)
    then have "\<not> P a" using Cons.prems(3) [of 0] by simp
    moreover have "find P as = Some (as ! i)"
      by (rule Cons.IH) (use Cons.prems Suc Cons.prems(3) [of "Suc _"] in auto)
    ultimately show ?thesis using Suc by simp
  qed (use Cons.prems in simp)
qed simp

text \<open>The first \<open>n\<close> actions carry their sequence numbers.\<close>

definition numbered :: "nat \<Rightarrow> 'w tx \<Rightarrow> bool" where
  "numbered n x \<longleftrightarrow> n \<le> length (jn_Actions (tx_journal x)) \<and>
     (\<forall>k < n. ja_Seq (jn_Actions (tx_journal x) ! k) = int k + 1)"

lemma numbered_grows: "numbered n x \<Longrightarrow> journal_grows x y \<Longrightarrow> numbered n y"
  by (auto simp: numbered_def journal_grows_def actions_grow_def same_action_def)

lemma numbered_valid:
  "validate_actions 0 (jn_Actions (tx_journal x)) = None \<Longrightarrow> numbered (length (jn_Actions (tx_journal x))) x"
  by (auto simp: numbered_def validate_actions_None)

lemma actionBySeq_at:
  "numbered n x \<Longrightarrow> k < n \<Longrightarrow> actionBySeq x (int k + 1) = Some (jn_Actions (tx_journal x) ! k)"
  unfolding actionBySeq_def numbered_def by (rule find_at) auto

definition is_done :: "nat \<Rightarrow> 'w tx \<Rightarrow> bool" where
  "is_done k x \<longleftrightarrow> k < length (jn_Actions (tx_journal x)) \<and> ja_Status (jn_Actions (tx_journal x) ! k) = ''done''"

lemma is_done_grows: "is_done k x \<Longrightarrow> journal_grows x y \<Longrightarrow> is_done k y"
  by (auto simp: is_done_def journal_grows_def actions_grow_def same_action_def)

lemma finishAction_cases:
  assumes "finishAction env a x = (Finished, x')" "numbered n x" "k < n" "ja_Seq a = int k + 1"
  obtains (before) "is_done k x" "x' = x"
  | (now) cur actual progress y d where "cur = jn_Actions (tx_journal x) ! k" "ja_Status cur \<noteq> ''done''"
      "tx_observe env cur (tx_world x) = Inr actual" "classifyInstallAction cur actual = Inr progress"
      "(if progress = ActionNotStarted then applyEffect env cur else skip) x = (Finished, y)"
      "record_tx env (cur\<lparr>ja_Status := ''done''\<rparr>) y = ((d, None), x')"
proof -
  let ?cur = "jn_Actions (tx_journal x) ! k"
  have f: "actionBySeq x (ja_Seq a) = Some ?cur" using actionBySeq_at [OF assms(2,3)] assms(4) by simp
  show ?thesis
  proof (cases "ja_Status ?cur = ''done''")
    case True
    then have "is_done k x" "x' = x" using assms(1,2,3) f by (auto simp: finishAction_def is_done_def numbered_def)
    then show ?thesis by (rule before)
  next
    case False
    obtain actual where o: "tx_observe env ?cur (tx_world x) = Inr actual"
      using assms(1) f False by (cases "tx_observe env ?cur (tx_world x)") (simp_all add: finishAction_def)
    obtain progress where p: "classifyInstallAction ?cur actual = Inr progress"
      using assms(1) f False o by (cases "classifyInstallAction ?cur actual") (simp_all add: finishAction_def)
    let ?rec = "\<lambda>x'. case record_tx env (?cur\<lparr>ja_Status := ''done''\<rparr>) x' of ((d, None), x'') \<Rightarrow> (Finished, x'')
      | ((d, Some e), x'') \<Rightarrow> (Failed e, x'')"
    have "and_then (if progress = ActionNotStarted then applyEffect env ?cur else skip) ?rec x = (Finished, x')"
      using assms(1) f False o p by (simp add: finishAction_def)
    then obtain y where y: "(if progress = ActionNotStarted then applyEffect env ?cur else skip) x = (Finished, y)"
      "?rec y = (Finished, x')"
      by (auto simp: and_then_Finished)
    obtain d where "record_tx env (?cur\<lparr>ja_Status := ''done''\<rparr>) y = ((d, None), x')"
      using y(2) by (cases "record_tx env (?cur\<lparr>ja_Status := ''done''\<rparr>) y") (auto split: option.splits)
    then show ?thesis by (rule now [OF refl False o p y(1)])
  qed
qed

lemma record_done_entry:
  assumes "lawful_store env" "record_tx env (cur\<lparr>ja_Status := ''done''\<rparr>) y = ((d, None), x')"
    and "numbered n y" "k < n" "cur = jn_Actions (tx_journal y) ! k"
  shows "is_done k x'"
proof -
  let ?as = "jn_Actions (tx_journal y)"
  obtain bs where bs: "next_actions (cur\<lparr>ja_Status := ''done''\<rparr>) ?as = Inr bs"
    "tx_journal x' = (tx_journal y)\<lparr>jn_Actions := bs\<rparr>"
    by (rule record_tx_success [OF assms(1,2)])
  have c: "complete_action (cur\<lparr>ja_Status := ''done''\<rparr>) ?as = Inr bs" using bs(1) by (simp add: next_actions_def)
  have k: "k < length ?as" using assms(3,4) by (simp add: numbered_def)
  have "bs = ?as[k := fill_action (?as ! k) (cur\<lparr>ja_Status := ''done''\<rparr>)]"
    by (rule complete_action_at [OF c k]) (use assms(3,4,5) in \<open>auto simp: numbered_def\<close>)
  then show ?thesis using k bs(2) by (simp add: is_done_def)
qed

lemma finishAction_done:
  assumes "lawful_store env" "finishAction env a x = (Finished, x')" "numbered n x" "k < n" "ja_Seq a = int k + 1"
  shows "is_done k x'"
  using assms(2-5)
proof (cases rule: finishAction_cases)
  case before
  then show ?thesis by simp
next
  case (now cur actual progress y d)
  have "tx_journal y = tx_journal x"
    using now(5) keeps_journalD [OF keeps_applyEffect] keeps_journalD [OF keeps_skip] by (metis (full_types))
  then have "numbered n y" "cur = jn_Actions (tx_journal y) ! k" using assms(3) now(1) by (simp_all add: numbered_def)
  then show ?thesis by (rule record_done_entry [OF assms(1) now(6) _ assms(4)])
qed

lemma finishAction_grows: "always journal_grows (finishAction env a)"
  unfolding always_def
proof
  fix x :: "'a tx"
  have r: "always journal_grows (\<lambda>x'. case record_tx env b x' of ((d, None), x'') \<Rightarrow> (Finished, x'')
      | ((d, Some e), x'') \<Rightarrow> (Failed e, x''))" for b
    unfolding always_def by (auto split: prod.splits option.splits dest: record_tx_grows)
  have e: "always journal_grows (if p then applyEffect env b else skip)" for p b
    by (simp add: keeps_journal_grows keeps_applyEffect keeps_skip)
  show "journal_grows x (snd (finishAction env a x))"
    using always_and_then [OF journal_grows_preorder e r]
    by (auto simp: finishAction_def always_def split: option.splits sum.splits)
qed

lemma for_each_establishes:
  assumes "for_each f as x = (Finished, x')" "\<And>a. a \<in> set as \<Longrightarrow> always journal_grows (f a)"
    and "\<And>a y y'. a \<in> set as \<Longrightarrow> journal_grows x y \<Longrightarrow> f a y = (Finished, y') \<Longrightarrow> P a y'"
    and "\<And>a y y'. P a y \<Longrightarrow> journal_grows y y' \<Longrightarrow> P a y'"
  shows "\<forall>a \<in> set as. P a x'"
  using assms(1-3)
proof (induction as arbitrary: x)
  case (Cons a as)
  obtain y where y: "f a x = (Finished, y)" "for_each f as y = (Finished, x')"
    using Cons.prems(1) by (auto simp: and_then_Finished)
  have g: "journal_grows x y" using alwaysD [OF Cons.prems(2) y(1)] by simp
  have rest: "\<forall>b \<in> set as. P b x'"
  proof (rule Cons.IH [OF y(2)])
    fix b z z' assume "b \<in> set as" "journal_grows y z" "f b z = (Finished, z')"
    then show "P b z'" using Cons.prems(3) [of b z z'] journal_grows_trans [OF g] by simp
  qed (use Cons.prems(2) in simp)
  have "always journal_grows (for_each f as)" using Cons.prems(2) by (intro always_for_each journal_grows_preorder) simp
  then have "journal_grows y x'" using alwaysD y(2) by blast
  then show ?case using rest assms(4) Cons.prems(3) [OF _ _ y(1)] by auto
qed simp

lemma finish_all:
  assumes "lawful_store env" "numbered n x"
    and "for_each (finishAction env) (jn_Actions (tx_journal x)) x = (Finished, x')"
  shows "\<forall>k < n. is_done k x'"
proof -
  have all: "\<forall>a \<in> set (jn_Actions (tx_journal x)). \<forall>k < n. ja_Seq a = int k + 1 \<longrightarrow> is_done k x'"
  proof (rule for_each_establishes [OF assms(3)])
    fix a y y' assume a: "journal_grows x y" "finishAction env a y = (Finished, y')"
    show "\<forall>k < n. ja_Seq a = int k + 1 \<longrightarrow> is_done k y'"
      using finishAction_done [OF assms(1) a(2) numbered_grows [OF assms(2) a(1)]] by blast
  qed (use finishAction_grows is_done_grows in blast)+
  show ?thesis
  proof (intro allI impI)
    fix k assume "k < n"
    then have "jn_Actions (tx_journal x) ! k \<in> set (jn_Actions (tx_journal x))" "ja_Seq (jn_Actions (tx_journal x) ! k) = int k + 1"
      using assms(2) by (simp_all add: numbered_def)
    then show "is_done k x'" using all \<open>k < n\<close> by blast
  qed
qed

section \<open>Everything grows the journal\<close>

text \<open>What the service and the hooks of a transaction promise: they reach the journal only
  through recorded steps.\<close>

definition service_grows :: "'w tx_env \<Rightarrow> bool" where
  "service_grows env \<longleftrightarrow>
     (case te_Service env of
        None \<Rightarrow> True
      | Some sa \<Rightarrow> always journal_grows (sa_DisableAutostartAndStop sa) \<and> always journal_grows (sa_WaitOwnedTreeExit sa) \<and>
          (\<forall>d. always journal_grows (sa_WriteDefinition sa d)) \<and> (\<forall>d. always journal_grows (sa_RestoreDefinition sa d)) \<and>
          always journal_grows (sa_Start sa) \<and>
          (case sa_WaitRecordedTreeExit sa of None \<Rightarrow> True | Some f \<Rightarrow> always journal_grows f)) \<and>
     (case te_BeforeRollback env of None \<Rightarrow> True | Some f \<Rightarrow> keeps_journal f)"

lemma always_if: "(b \<Longrightarrow> always R f) \<Longrightarrow> (\<not> b \<Longrightarrow> always R g) \<Longrightarrow> always R (if b then f else g)"
  by simp

lemma always_point: "(\<And>x. \<exists>f. always R f \<and> h x = f x) \<Longrightarrow> always R h"
  unfolding always_def by metis

lemma on_service_grows:
  assumes "\<And>sa. te_Service env = Some sa \<Longrightarrow> always journal_grows (f sa)"
  shows "always journal_grows (on_service env f)"
  using assms by (auto simp: on_service_def always_def split: option.splits)

lemma on_service_ops_grow:
  assumes "service_grows env"
  shows "always journal_grows (on_service env (\<lambda>sa. sa_WriteDefinition sa d))"
    "always journal_grows (on_service env (\<lambda>sa. sa_RestoreDefinition sa d))"
    "always journal_grows (on_service env sa_Start)"
    "always journal_grows (on_service env sa_DisableAutostartAndStop)"
    "always journal_grows (on_service env sa_WaitOwnedTreeExit)"
  by (rule on_service_grows, use assms in \<open>simp add: service_grows_def\<close>)+

lemma reloadStep_grows: "always journal_grows (reloadStep env)"
  by (rule always_point) (unfold reloadStep_def Let_def,
      blast intro: step_grows keeps_journal_grows keeps_apply_effects)

lemma step_effect_grows: "always journal_grows (step env a (applyEffect env a))"
  by (intro step_grows keeps_journal_grows keeps_applyEffect)

lemma always_result: "preorder_rel R \<Longrightarrow> always R (\<lambda>x. (r, x))"
  by (simp add: always_def preorder_rel_def)

lemma hook_effect_grows: "always journal_grows apply \<Longrightarrow> always journal_grows (hook_effect env d apply a)"
  unfolding hook_effect_def
  by (cases "te_serviceEffects env"; cases "te_DataLease env") (auto intro!: grows_rules)

lemma journaledHook_grows:
  assumes "always journal_grows apply"
  shows "always journal_grows (journaledHook env d apply)"
proof (rule always_point)
  fix x
  note rules = step_grows [OF hook_effect_grows [OF assms]] always_result [OF journal_grows_preorder]
  show "\<exists>f. always journal_grows f \<and> journaledHook env d apply x = f x"
    unfolding journaledHook_def
    by (split sum.split, intro conjI allI impI) (auto intro: rules)
qed

lemma removeObsoleteDefinitions_grows: "always journal_grows (removeObsoleteDefinitions env)"
  unfolding removeObsoleteDefinitions_def Let_def
  by (auto intro!: always_for_each journal_grows_preorder always_skip journaledHook_grows on_world_grows split: option.splits)

lemma ensureAction_grows: "always journal_grows (ensureAction env a)"
proof (rule always_point)
  fix x
  show "\<exists>f. always journal_grows f \<and> ensureAction env a x = f x"
    using step_effect_grows [of env a] always_result [OF journal_grows_preorder]
    by (auto simp: ensureAction_def split: sum.splits)
qed

lemma ensureReload_grows: "always journal_grows (ensureReload env)"
  using reloadStep_grows by (auto simp: always_def ensureReload_def)

lemma ensure_plain_grows: "always journal_grows (ensure_plain env t)"
  unfolding ensure_plain_def
  by (intro always_and_then journal_grows_preorder always_if ensureAction_grows ensureReload_grows always_skip)

lemma ensure_native_grows: "service_grows env \<Longrightarrow> always journal_grows (ensure_native env target)"
  unfolding ensure_native_def
  by (intro always_and_then journal_grows_preorder always_if removeObsoleteDefinitions_grows reloadStep_grows
      on_service_ops_grow always_skip)

lemma ensureTarget_grows:
  assumes "service_grows env"
  shows "always journal_grows (ensureTarget env)"
  using ensure_plain_grows [of env] ensure_native_grows [OF assms]
  by (cases "te_authority env"; cases "te_serviceEffects env") (simp_all add: always_def ensureTarget_def)

lemma bindRecoveryStopAuthority_keeps: "keeps_journal (bindRecoveryStopAuthority env)"
  by (auto simp: keeps_journal_def always_def bindRecoveryStopAuthority_def split: option.splits prod.splits)


section \<open>Completion\<close>

lemma save_tx_success:
  assumes "lawful_store env" "save_tx env x = (Finished, x')"
  shows "tx_journal x' = tx_journal x"
    and "\<exists>fs raw. te_Store env = Some fs \<and> EncodeJournal (te_codec env) (tx_journal x) = Inr raw \<and>
      (\<forall>bound > 0. length raw \<le> bound \<longrightarrow> jf_read fs installJournalFileName bound (tx_world x') = Inr raw)"
proof -
  obtain d w where w: "store_Save_journal (te_codec env) (te_Store env) (tx_journal x) (tx_world x) = ((d, None), w)"
    "x' = x\<lparr>tx_world := w\<rparr>"
    using assms(2) by (auto simp: save_tx_def split: prod.splits option.splits)
  show "tx_journal x' = tx_journal x" using w(2) by simp
  show "\<exists>fs raw. te_Store env = Some fs \<and> EncodeJournal (te_codec env) (tx_journal x) = Inr raw \<and>
      (\<forall>bound > 0. length raw \<le> bound \<longrightarrow> jf_read fs installJournalFileName bound (tx_world x') = Inr raw)"
    using store_Save_published [OF assms(1) w(1)] w(2) by (metis tx.select_convs(4) tx.surjective tx.update_convs(4))
qed

text \<open>The journal of a completed recovery, in memory and on disk: the file holds the encoding of
  the journal in memory, and reading it with a limit that does not cut it short gives it back.
  Nothing bounds the encoding, while the loads of the program read at most one MiB.\<close>

definition concluded :: "'w tx_env \<Rightarrow> string \<Rightarrow> 'w tx \<Rightarrow> bool" where
  "concluded env authority x \<longleftrightarrow>
     jn_Phase (tx_journal x) = ''complete'' \<and> jn_RecoveryAuthority (tx_journal x) = authority \<and>
     (case te_Store env of
        None \<Rightarrow> False
      | Some fs \<Rightarrow>
          (case EncodeJournal (te_codec env) (tx_journal x) of
             Inl _ \<Rightarrow> False
           | Inr raw \<Rightarrow>
               jf_read fs installJournalFileName (max MaxInstallJournalBytes (length raw)) (tx_world x) = Inr raw))"

lemma completeWith_success:
  assumes "lawful_store env" "completeWith env authority x = (Finished, x')"
  shows "concluded env authority x' \<and> jn_Actions (tx_journal x') = jn_Actions (tx_journal x)"
proof -
  let ?x = "x\<lparr>tx_journal := (tx_journal x)\<lparr>jn_RecoveryAuthority := authority, jn_Phase := ''complete''\<rparr>\<rparr>"
  have "save_tx env ?x = (Finished, x')"
    using assms(2) by (auto simp: completeWith_def setPhase_def and_then_Finished set_journal_def)
  note sv = save_tx_success [OF assms(1) this]
  have j: "tx_journal x' = (tx_journal x)\<lparr>jn_RecoveryAuthority := authority, jn_Phase := ''complete''\<rparr>"
    using sv(1) by simp
  have "0 < MaxInstallJournalBytes" by (simp add: MaxInstallJournalBytes_def)
  then have "concluded env authority x'" using sv(2) unfolding concluded_def j by auto
  then show ?thesis using j by simp
qed

lemma rollforward_success:
  assumes "lawful_store env" "service_grows env" "validate_actions 0 (jn_Actions (tx_journal x)) = None"
    and "rollforward env x = (Finished, x')"
  shows "concluded env ''target'' x' \<and> journal_grows x x' \<and> (\<forall>k < length (jn_Actions (tx_journal x)). is_done k x')"
proof -
  let ?wait = "case te_Service env of None \<Rightarrow> skip
    | Some sa \<Rightarrow> (case sa_WaitRecordedTreeExit sa of None \<Rightarrow> skip | Some f \<Rightarrow> f)"
  obtain x0 x1 x2 x3 where r: "bindRecoveryStopAuthority env x = (Finished, x0)" "?wait x0 = (Finished, x1)"
    "for_each (finishAction env) (jn_Actions (tx_journal x1)) x1 = (Finished, x2)"
    "ensureTarget env x2 = (Finished, x3)" "completeWith env ''target'' x3 = (Finished, x')"
    using assms(4) by (auto simp: rollforward_def and_then_Finished)
  have wait: "always journal_grows ?wait"
    using assms(2) by (auto simp: service_grows_def intro: grows_rules split: option.splits)
  let ?n = "length (jn_Actions (tx_journal x))"
  have g1: "journal_grows x x1"
    using journal_grows_trans [OF alwaysD [OF keeps_journal_grows [OF bindRecoveryStopAuthority_keeps] r(1)] alwaysD [OF wait r(2)]] .
  have "always journal_grows (for_each (finishAction env) (jn_Actions (tx_journal x1)))"
    by (intro always_for_each journal_grows_preorder finishAction_grows)
  then have g2: "journal_grows x1 x2" using alwaysD r(3) by blast
  have g3: "journal_grows x2 x3" using alwaysD [OF ensureTarget_grows [OF assms(2)] r(4)] .
  note c = completeWith_success [OF assms(1) r(5)]
  have g4: "journal_grows x3 x'" using c by (simp add: journal_grows_def actions_grow_refl)
  have "\<forall>k < ?n. is_done k x2"
    by (rule finish_all [OF assms(1) numbered_grows [OF numbered_valid [OF assms(3)] g1] r(3)])
  then have "\<forall>k < ?n. is_done k x'" using is_done_grows g3 g4 by blast
  moreover have "journal_grows x x'" using g1 g2 g3 g4 journal_grows_trans by blast
  ultimately show ?thesis using c by blast
qed


section \<open>Rolling back\<close>

text \<open>The actions rollback passes over: reloads, and with native service effects the start and
  stop actions, which restoring the definition takes care of.\<close>

definition skipped :: "'w tx_env \<Rightarrow> journal_action \<Rightarrow> bool" where
  "skipped env a \<longleftrightarrow>
     te_serviceEffects env \<noteq> None \<and> ja_Kind a \<in> {''stop'', ''start'', ''restore_stop'', ''restore_start''} \<or>
     ja_Kind a \<in> {''reload'', ''restore_reload''}"

text \<open>A later entry that reverses an action and is done.\<close>

definition reversed_done :: "journal_action \<Rightarrow> 'w tx \<Rightarrow> bool" where
  "reversed_done a x \<longleftrightarrow>
     list_ex (\<lambda>b. ja_Seq b > ja_Seq a \<and> ja_Kind b = reverseKind (ja_Kind a) \<and> ja_TargetRole b = ja_TargetRole a \<and>
        ja_BackupRef b = ja_BackupRef a \<and> ja_CandidateRef b = ja_CandidateRef a \<and> ja_Status b = ''done'')
       (jn_Actions (tx_journal x))"

text \<open>Nothing to reverse, as observed in the state of the visit.\<close>

definition idle :: "'w tx_env \<Rightarrow> journal_action \<Rightarrow> 'w tx \<Rightarrow> bool" where
  "idle env a y \<longleftrightarrow>
     (case tx_observe env a (tx_world y) of
        Inl _ \<Rightarrow> False
      | Inr s \<Rightarrow> classifyInstallAction a s = Inr ActionNotStarted \<or>
          ja_Kind a = ''data_publish'' \<and> (jn_DataAction (tx_journal y) = ''retain'' \<or> s = ''absent''))"

text \<open>How rollback leaves an action it visited in state \<open>y\<close>, seen from a later state \<open>x\<close>. It passes
  over the skipped kinds, and two forward kinds have no reverse (a validation that was stopped
  and the activation). An action that is itself a reversal is done; every other forward action was
  idle when it was visited, or a reversal of it is done.\<close>

definition settled :: "'w tx_env \<Rightarrow> journal_action \<Rightarrow> 'w tx \<Rightarrow> 'w tx \<Rightarrow> bool" where
  "settled env a y x \<longleftrightarrow>
     (if skipped env a \<or> ja_Kind a \<in> {''validation_stop'', ''activation''} then True
      else if isReverseAction (ja_Kind a) then is_done (nat (ja_Seq a - 1)) x
      else idle env a y \<or> reversed_done a x)"

lemma done_action_grows:
  assumes "b \<in> set (jn_Actions (tx_journal x))" "ja_Status b = ''done''" "journal_grows x y"
  shows "b \<in> set (jn_Actions (tx_journal y))"
proof -
  obtain k where k: "k < length (jn_Actions (tx_journal x))" "b = jn_Actions (tx_journal x) ! k"
    using assms(1) by (auto simp: in_set_conv_nth)
  have len: "k < length (jn_Actions (tx_journal y))" and same: "same_action b (jn_Actions (tx_journal y) ! k)"
    using assms(3) k unfolding journal_grows_def actions_grow_def by auto
  have "b = jn_Actions (tx_journal y) ! k" using same assms(2) unfolding same_action_def by blast
  with len show ?thesis using nth_mem by blast
qed

lemma reversed_done_grows: "reversed_done a x \<Longrightarrow> journal_grows x y \<Longrightarrow> reversed_done a y"
  unfolding reversed_done_def list_ex_iff using done_action_grows by blast

lemma settled_grows: "settled env a y x \<Longrightarrow> journal_grows x x' \<Longrightarrow> settled env a y x'"
  by (auto simp: settled_def intro: is_done_grows reversed_done_grows split: if_splits)

lemma reverseKind_reload [simp]: "reverseKind k = ''restore_reload'' \<longleftrightarrow> k = ''reload''"
  by (auto simp: reverseKind_def reverse_table_def split: if_splits)

lemma reverseKind_isolate [simp]: "reverseKind k = ''data_isolate'' \<longleftrightarrow> k = ''data_publish''" "reverseKind k \<noteq> ''restore_data''"
  by (auto simp: reverseKind_def reverse_table_def split: if_splits)

lemma undo_reversed:
  assumes "lawful_store env" "ja_Seq a \<le> int (length (jn_Actions (tx_journal y)))"
    and "step env (restore_action (reverseKind (ja_Kind a)) a old new)
      (applyEffect env (restore_action (reverseKind (ja_Kind a)) a old new)) y = (Finished, y')"
  shows "reversed_done a y'"
proof -
  note s = step_success [OF assms(1) keeps_applyEffect assms(3)]
  show ?thesis using assms(2) unfolding reversed_done_def list_ex_iff s by (auto simp: done_entry_def restore_action_def)
qed

lemma reverse_success:
  assumes "lawful_store env" "ja_Seq a \<le> int (length (jn_Actions (tx_journal y)))" "ja_Kind a \<noteq> ''reload''"
    and "reverseKind (ja_Kind a) \<noteq> []" "reverse env a y = (Finished, y')"
    and "tx_observe env a (tx_world y) = Inr actual"
  shows "idle env a y \<or> reversed_done a y'"
proof (cases "ja_Kind a = ''data_publish''")
  case True
  then have "a\<lparr>ja_Kind := ''data_publish''\<rparr> = a" by (cases a) simp
  then have "tx_observe env (a\<lparr>ja_Kind := ''data_publish''\<rparr>) (tx_world y) = Inr actual" using assms(6) by (simp only:)
  then show ?thesis
    using True assms(4,5,6) undo_reversed [OF assms(1,2), of actual "''absent''" y']
    by (auto simp: reverse_def idle_def Let_def split: if_splits)
next
  case False
  then show ?thesis
    using assms(3,4,5) undo_reversed [OF assms(1,2), of "ja_NewState a" "ja_OldState a" y']
    by (auto simp: reverse_def Let_def split: if_splits)
qed

text \<open>Every kind of a valid forward action has a reverse, but for two.\<close>

lemma reverse_exists:
  "validateJournalAction a = None \<Longrightarrow> \<not> isReverseAction (ja_Kind a) \<Longrightarrow> ja_Kind a \<notin> {''validation_stop'', ''activation''} \<Longrightarrow>
   reverseKind (ja_Kind a) \<noteq> []"
  by (auto simp: validateJournalAction_def check_simps validJournalActionKind_def journal_kinds_def isReverseAction_def
        reverseKind_def reverse_table_def)

lemma reverse_is_reverse: "reverseKind k \<noteq> [] \<Longrightarrow> isReverseAction (reverseKind k)"
  by (auto simp: isReverseAction_def reverseKind_def reverse_table_def split: if_splits)

lemma reverse_not_skipped:
  "\<not> skipped env a \<Longrightarrow> ja_Kind b = reverseKind (ja_Kind a) \<Longrightarrow> reverseKind (ja_Kind a) \<noteq> [] \<Longrightarrow> \<not> skipped env b"
  by (auto simp: skipped_def reverseKind_def reverse_table_def split: if_splits)

text \<open>The reversals recorded from position \<open>m\<close> on are done.\<close>

definition reverses_done :: "'w tx_env \<Rightarrow> nat \<Rightarrow> 'w tx \<Rightarrow> bool" where
  "reverses_done env m y \<longleftrightarrow>
     (\<forall>i < length (jn_Actions (tx_journal y)). m \<le> i \<longrightarrow> isReverseAction (ja_Kind (jn_Actions (tx_journal y) ! i)) \<longrightarrow>
        \<not> skipped env (jn_Actions (tx_journal y) ! i) \<longrightarrow> is_done i y)"

lemma finishAction_length:
  assumes "lawful_store env" "finishAction env a x = (Finished, x')" "numbered n x" "k < n" "ja_Seq a = int k + 1"
  shows "length (jn_Actions (tx_journal x')) = length (jn_Actions (tx_journal x))"
  using assms(2-5)
proof (cases rule: finishAction_cases)
  case (now cur actual progress y d)
  have j: "tx_journal y = tx_journal x"
    using now(5) keeps_journalD [OF keeps_applyEffect] keeps_journalD [OF keeps_skip] by (metis (full_types))
  obtain bs where bs: "next_actions (cur\<lparr>ja_Status := ''done''\<rparr>) (jn_Actions (tx_journal y)) = Inr bs"
    "tx_journal x' = (tx_journal y)\<lparr>jn_Actions := bs\<rparr>"
    by (rule record_tx_success [OF assms(1) now(6)])
  have "complete_action (cur\<lparr>ja_Status := ''done''\<rparr>) (jn_Actions (tx_journal y)) = Inr bs"
    using bs(1) by (simp add: next_actions_def)
  then have "length bs = length (jn_Actions (tx_journal y))" by (rule complete_action_Inr) simp
  then show ?thesis using bs(2) j by simp
qed simp

text \<open>One turn of the loop leaves the journal, finishes the reversal it visits, or appends one
  finished reversal.\<close>

lemma reverse_appends:
  assumes "lawful_store env" "reverse env a y = (Finished, y')"
  obtains (none) "y' = y" | (one) e where "jn_Actions (tx_journal y') = jn_Actions (tx_journal y) @ [e]" "ja_Status e = ''done''"
proof -
  have st: "\<exists>e. jn_Actions (tx_journal y') = jn_Actions (tx_journal y) @ [e] \<and> ja_Status e = ''done''"
    if "step env b (applyEffect env b) y = (Finished, y')" for b
    using step_success [OF assms(1) keeps_applyEffect that] by (simp add: done_entry_def)
  from assms(2) have "y' = y \<or> (\<exists>b. step env b (applyEffect env b) y = (Finished, y'))"
    by (auto simp: reverse_def Let_def split: if_splits sum.splits)
  then show ?thesis using st none one by blast
qed

lemma rollback_one_cases:
  assumes "lawful_store env" "rollback_one env a y = ((Finished, b), y')"
  obtains (same) "y' = y" "\<not> skipped env a \<Longrightarrow> \<not> isReverseAction (ja_Kind a)"
  | (finished) "\<not> skipped env a" "isReverseAction (ja_Kind a)" "finishAction env a y = (Finished, y')"
  | (appended) e where "\<not> skipped env a" "\<not> isReverseAction (ja_Kind a)"
      "jn_Actions (tx_journal y') = jn_Actions (tx_journal y) @ [e]" "ja_Status e = ''done''"
proof (cases "\<not> skipped env a \<and> isReverseAction (ja_Kind a)")
  case True
  then have "finishAction env a y = (Finished, y')"
    using assms(2) by (auto simp: rollback_one_def skipped_def split: prod.splits if_splits)
  then show ?thesis using finished True by blast
next
  case False
  have "y' = y \<or> reverse env a y = (Finished, y') \<and> \<not> skipped env a"
    using assms(2) False by (auto simp: rollback_one_def skipped_def split: prod.splits if_splits sum.splits)
  then show ?thesis
  proof
    assume "y' = y"
    then show ?thesis using same False by blast
  next
    assume r: "reverse env a y = (Finished, y') \<and> \<not> skipped env a"
    then have "reverse env a y = (Finished, y')" by blast
    from assms(1) this show ?thesis
    proof (cases rule: reverse_appends)
      case none
      then show ?thesis using same False by blast
    next
      case (one e)
      then show ?thesis using appended r False by blast
    qed
  qed
qed

lemma rollback_one_reverses:
  assumes "lawful_store env" "numbered n y" "k < n" "ja_Seq a = int k + 1"
    and "ja_Kind (jn_Actions (tx_journal y) ! k) = ja_Kind a"
    and "reverses_done env (Suc k) y" "rollback_one env a y = ((Finished, b), y')"
  shows "reverses_done env k y'"
proof -
  let ?as = "jn_Actions (tx_journal y)"
  have sk: "skipped env (?as ! k) = skipped env a" using assms(5) by (simp add: skipped_def)
  from assms(1,7) show ?thesis
  proof (cases rule: rollback_one_cases)
    case same
    then have "\<not> skipped env (?as ! k) \<Longrightarrow> \<not> isReverseAction (ja_Kind (?as ! k))" using sk assms(5) by simp
    then show ?thesis using assms(6) same(1) unfolding reverses_done_def by (metis Suc_leI le_neq_implies_less)
  next
    case finished
    note d = finishAction_done [OF assms(1) finished(3) assms(2-4)]
    have g: "journal_grows y y'" using alwaysD [OF finishAction_grows finished(3)] .
    have len: "length (jn_Actions (tx_journal y')) = length ?as" by (rule finishAction_length [OF assms(1) finished(3) assms(2-4)])
    show ?thesis unfolding reverses_done_def
    proof (intro allI impI)
      fix i
      assume i: "i < length (jn_Actions (tx_journal y'))" "k \<le> i" "isReverseAction (ja_Kind (jn_Actions (tx_journal y') ! i))"
        "\<not> skipped env (jn_Actions (tx_journal y') ! i)"
      have "ja_Kind (jn_Actions (tx_journal y') ! i) = ja_Kind (?as ! i)"
        using g i(1) len unfolding journal_grows_def actions_grow_def same_action_def by simp
      then have "is_done i y" if "i \<noteq> k" using assms(6) i that len unfolding reverses_done_def skipped_def by simp
      then show "is_done i y'" using is_done_grows [OF _ g] d by (cases "i = k") auto
    qed
  next
    case (appended e)
    have k: "k < length ?as" using assms(2,3) by (simp add: numbered_def)
    show ?thesis unfolding reverses_done_def is_done_def appended(3)
    proof (intro allI impI)
      fix i
      assume i: "i < length (?as @ [e])" "k \<le> i" "isReverseAction (ja_Kind ((?as @ [e]) ! i))" "\<not> skipped env ((?as @ [e]) ! i)"
      show "i < length (?as @ [e]) \<and> ja_Status ((?as @ [e]) ! i) = ''done''"
      proof (cases "i < length ?as")
        case True
        then have "i \<noteq> k" using i appended(2) assms(5) by (auto simp: nth_append)
        then show ?thesis using assms(6) i True unfolding reverses_done_def is_done_def by (simp add: nth_append)
      next
        case False
        then have "i = length ?as" using i(1) by simp
        then show ?thesis using appended(4) by simp
      qed
    qed
  qed
qed

lemma alreadyReversed_done:
  assumes "numbered n y" "k < n" "ja_Seq a = int k + 1" "\<not> skipped env a" "reverses_done env (Suc k) y" "alreadyReversed y a"
  shows "reversed_done a y"
proof -
  let ?as = "jn_Actions (tx_journal y)"
  obtain b where b: "b \<in> set ?as" "ja_Seq b > ja_Seq a" "ja_Kind b = reverseKind (ja_Kind a)" "ja_TargetRole b = ja_TargetRole a"
    "ja_BackupRef b = ja_BackupRef a" "ja_CandidateRef b = ja_CandidateRef a" "reverseKind (ja_Kind a) \<noteq> []"
    using assms(6) by (auto simp: alreadyReversed_def list_ex_iff)
  obtain i where i: "i < length ?as" "b = ?as ! i" using b(1) by (auto simp: in_set_conv_nth)
  have "Suc k \<le> i"
  proof (rule ccontr)
    assume "\<not> Suc k \<le> i"
    then have "i < n" using assms(2) by simp
    then have "ja_Seq b = int i + 1" using assms(1) i(2) by (simp add: numbered_def)
    then show False using b(2) assms(3) \<open>\<not> Suc k \<le> i\<close> by simp
  qed
  moreover have "isReverseAction (ja_Kind b)" using reverse_is_reverse b(3,7) by simp
  moreover have "\<not> skipped env b" by (rule reverse_not_skipped [OF assms(4) b(3,7)])
  ultimately have "ja_Status b = ''done''" using assms(5) i unfolding reverses_done_def is_done_def by blast
  then show ?thesis using b unfolding reversed_done_def list_ex_iff by blast
qed

lemma rollback_one_settles:
  assumes "lawful_store env" "numbered n y" "k < n" "ja_Seq a = int k + 1" "validateJournalAction a = None"
    and "reverses_done env (Suc k) y" "rollback_one env a y = ((Finished, b), y')"
  shows "settled env a y y'"
proof -
  have len: "ja_Seq a \<le> int (length (jn_Actions (tx_journal y)))"
    using assms(2,3,4) by (simp add: numbered_def)
  consider (skip) "skipped env a \<or> ja_Kind a \<in> {''validation_stop'', ''activation''}"
    | (rev) "\<not> skipped env a" "isReverseAction (ja_Kind a)"
    | (known) "\<not> skipped env a" "\<not> isReverseAction (ja_Kind a)" "alreadyReversed y a"
    | (fwd) "\<not> skipped env a" "\<not> isReverseAction (ja_Kind a)" "\<not> alreadyReversed y a"
        "ja_Kind a \<notin> {''validation_stop'', ''activation''}" by blast
  then show ?thesis
  proof cases
    case skip
    then show ?thesis by (simp add: settled_def)
  next
    case rev
    then have "finishAction env a y = (Finished, y')"
      using assms(7) by (auto simp: rollback_one_def skipped_def split: prod.splits if_splits)
    from finishAction_done [OF assms(1) this assms(2,3,4)] show ?thesis
      using rev assms(4) by (simp add: settled_def)
  next
    case known
    have "y' = y" using known assms(7) by (auto simp: rollback_one_def skipped_def split: if_splits)
    then show ?thesis using alreadyReversed_done [OF assms(2-4) known(1) assms(6) known(3)] known(2)
      by (simp add: settled_def)
  next
    case fwd
    then obtain actual progress where o: "tx_observe env a (tx_world y) = Inr actual"
      and p: "classifyInstallAction a actual = Inr progress"
      using assms(7) by (auto simp: rollback_one_def skipped_def split: sum.splits if_splits)
    have rk: "reverseKind (ja_Kind a) \<noteq> []" by (rule reverse_exists [OF assms(5) fwd(2,4)])
    show ?thesis
    proof (cases "progress = ActionNotStarted")
      case True
      then show ?thesis using fwd o p by (auto simp: settled_def idle_def)
    next
      case False
      then have "reverse env a y = (Finished, y')"
        using assms(7) fwd o p rk by (auto simp: rollback_one_def skipped_def split: prod.splits if_splits)
      from reverse_success [OF assms(1) len _ rk this o] show ?thesis
        using fwd False by (auto simp: settled_def skipped_def)
    qed
  qed
qed


lemma reverse_grows: "always journal_grows (reverse env a)"
proof (rule always_point)
  fix x
  show "\<exists>f. always journal_grows f \<and> reverse env a x = f x"
    using step_effect_grows [of env] always_result [OF journal_grows_preorder]
    by (auto simp: reverse_def Let_def split: sum.splits)
qed

lemma rollback_one_grows: "rollback_one env a y = ((r, b), y') \<Longrightarrow> journal_grows y y'"
  using alwaysD [OF finishAction_grows] alwaysD [OF reverse_grows]
  by (auto simp: rollback_one_def split: if_splits sum.splits prod.splits)

text \<open>The run of a finished rollback loop: the state in which it visits an action is the one the
  loop over the actions before it ends in.\<close>

lemma rollback_loop_append:
  "rollback_loop env (as @ bs) rv y = ((Finished, rv'), z) \<longleftrightarrow>
     (\<exists>r1 y1. rollback_loop env as rv y = ((Finished, r1), y1) \<and> rollback_loop env bs r1 y1 = ((Finished, rv'), z))"
  by (induction as arbitrary: rv y) (auto split: prod.splits outcome.splits)

lemma rollback_loop_visit:
  assumes "rollback_loop env as rv y = ((Finished, rv'), z)" "k < length as"
  obtains b where "rollback_one env (as ! k) (snd (rollback_loop env (take k as) rv y)) =
    ((Finished, b), snd (rollback_loop env (take (Suc k) as) rv y))"
proof -
  have "as = take (Suc k) as @ drop (Suc k) as" by simp
  then obtain r2 y2 where t: "rollback_loop env (take (Suc k) as) rv y = ((Finished, r2), y2)"
    using assms(1) rollback_loop_append by metis
  then have "rollback_loop env (take k as @ [as ! k]) rv y = ((Finished, r2), y2)"
    using assms(2) by (simp add: take_Suc_conv_app_nth)
  then obtain r1 y1 where p: "rollback_loop env (take k as) rv y = ((Finished, r1), y1)"
    "rollback_loop env [as ! k] r1 y1 = ((Finished, r2), y2)"
    using rollback_loop_append by metis
  then obtain b where "rollback_one env (as ! k) y1 = ((Finished, b), y2)" by (auto split: prod.splits outcome.splits)
  then show ?thesis using that t p(1) by simp
qed

lemma rollback_loop_grows:
  assumes "rollback_loop env as rv y = ((Finished, rv'), z)" "i \<le> k" "k \<le> length as"
  shows "journal_grows (snd (rollback_loop env (take i as) rv y)) (snd (rollback_loop env (take k as) rv y))"
  using assms(2,3)
proof (induction k)
  case (Suc k)
  show ?case
  proof (cases "i = Suc k")
    case False
    obtain b where "rollback_one env (as ! k) (snd (rollback_loop env (take k as) rv y)) =
        ((Finished, b), snd (rollback_loop env (take (Suc k) as) rv y))"
      using rollback_loop_visit [OF assms(1), of k] Suc.prems by auto
    from journal_grows_trans [OF _ rollback_one_grows [OF this]] show ?thesis using Suc False by simp
  qed simp
qed simp

lemma rollback_loop_settles:
  assumes "lawful_store env" "validate_actions 0 (jn_Actions (tx_journal x)) = None"
    and "rollback_loop env (rev (jn_Actions (tx_journal x))) rv x = ((Finished, rv'), x')"
    and "k < length (jn_Actions (tx_journal x))"
  shows "settled env (rev (jn_Actions (tx_journal x)) ! k) (snd (rollback_loop env (take k (rev (jn_Actions (tx_journal x)))) rv x)) x'"
proof -
  let ?as = "jn_Actions (tx_journal x)"
  let ?n = "length ?as"
  let ?v = "\<lambda>k. snd (rollback_loop env (take k (rev ?as)) rv x)"
  have up: "journal_grows (?v i) (?v k)" if "i \<le> k" "k \<le> ?n" for i k
    using rollback_loop_grows [OF assms(3)] that by simp
  have num: "numbered ?n (?v k)" if "k \<le> ?n" for k
    using numbered_grows [OF numbered_valid [OF assms(2)]] up [of 0 k] that by simp
  have at: "ja_Seq (rev ?as ! k) = int (?n - Suc k) + 1" "validateJournalAction (rev ?as ! k) = None"
    "ja_Kind (jn_Actions (tx_journal (?v k)) ! (?n - Suc k)) = ja_Kind (rev ?as ! k)" if "k < ?n" for k
  proof -
    have i: "rev ?as ! k = ?as ! (?n - Suc k)" "?n - Suc k < ?n" using that by (simp_all add: rev_nth)
    have s: "same_action (?as ! (?n - Suc k)) (jn_Actions (tx_journal (?v k)) ! (?n - Suc k))"
      using up [of 0 k] that i(2) by (simp add: journal_grows_def actions_grow_def)
    show "ja_Seq (rev ?as ! k) = int (?n - Suc k) + 1" "validateJournalAction (rev ?as ! k) = None"
      using assms(2) i by (simp_all add: validate_actions_None)
    show "ja_Kind (jn_Actions (tx_journal (?v k)) ! (?n - Suc k)) = ja_Kind (rev ?as ! k)"
      using s i(1) by (simp add: same_action_def)
  qed
  have rd: "reverses_done env (?n - k) (?v k)" if "k \<le> ?n" for k
    using that
  proof (induction k)
    case (Suc k)
    obtain b where r: "rollback_one env (rev ?as ! k) (?v k) = ((Finished, b), ?v (Suc k))"
      using rollback_loop_visit [OF assms(3), of k] Suc.prems by auto
    have "reverses_done env (Suc (?n - Suc k)) (?v k)" using Suc by (simp add: Suc_diff_Suc)
    then show ?case
      by (intro rollback_one_reverses [OF assms(1) num _ at(1,3) _ r]) (use Suc.prems in simp_all)
  qed (simp add: reverses_done_def)
  obtain b where r: "rollback_one env (rev ?as ! k) (?v k) = ((Finished, b), ?v (Suc k))"
    using rollback_loop_visit [OF assms(3), of k] assms(4) by auto
  have "settled env (rev ?as ! k) (?v k) (?v (Suc k))"
    by (intro rollback_one_settles [OF assms(1) num _ at(1,2) _ r]) (use assms(4) rd [of k] in \<open>simp_all add: Suc_diff_Suc\<close>)
  then show ?thesis by (rule settled_grows) (use up [of "Suc k" ?n] assms(3,4) in simp)
qed

lemma restoreService_grows: "service_grows env \<Longrightarrow> always journal_grows (restoreService env)"
  unfolding restoreService_def
  by (cases "te_serviceEffects env"; cases "te_authority env")
     (auto intro!: always_and_then journal_grows_preorder always_skip on_service_ops_grow)

lemma restoreReload_grows: "always journal_grows (restoreReload env)"
  by (rule always_point) (unfold restoreReload_def Let_def, blast intro: step_effect_grows)

text \<open>What rollback does before its loop, and the loop's visits of a run of rollback.\<close>

definition rollback_start :: "'w tx_env \<Rightarrow> 'w op" where
  "rollback_start env =
     and_then (bindRecoveryStopAuthority env)
       (\<lambda>x. (case te_BeforeRollback env of None \<Rightarrow> skip | Some f \<Rightarrow> f)
          (if te_serviceEffects env = None then x else x\<lparr>tx_recoveringSource := True\<rparr>))"

definition rollback_visit :: "'w tx_env \<Rightarrow> 'w tx \<Rightarrow> nat \<Rightarrow> (outcome \<times> bool) \<times> 'w tx" where
  "rollback_visit env x k =
     rollback_loop env (take k (rev (jn_Actions (tx_journal x)))) False (snd (rollback_start env x))"

text \<open>A reload that rollback recorded and finished.\<close>

definition reload_restored :: "nat \<Rightarrow> 'w tx \<Rightarrow> bool" where
  "reload_restored n x \<longleftrightarrow>
     list_ex (\<lambda>b. ja_Seq b > int n \<and> ja_Kind b = ''restore_reload'' \<and> ja_Status b = ''done'') (jn_Actions (tx_journal x))"

lemma reload_restored_grows: "reload_restored n x \<Longrightarrow> journal_grows x y \<Longrightarrow> reload_restored n y"
  unfolding reload_restored_def list_ex_iff using done_action_grows by blast

lemma restoreReload_restores:
  assumes "lawful_store env" "restoreReload env x = (Finished, y)" "n \<le> length (jn_Actions (tx_journal x))"
  shows "reload_restored n y"
proof -
  obtain b where b: "step env b (applyEffect env b) x = (Finished, y)" "ja_Kind b = ''restore_reload''"
    using assms(2) by (auto simp: restoreReload_def Let_def new_action_def)
  show ?thesis using step_success [OF assms(1) keeps_applyEffect b(1)] b(2) assms(3)
    by (simp add: reload_restored_def done_entry_def)
qed

lemma rollback_body_success:
  assumes "lawful_store env" "service_grows env" "rollback_body env x = (Finished, x')"
  obtains y z rv where "(case te_BeforeRollback env of None \<Rightarrow> skip | Some f \<Rightarrow> f) x = (Finished, y)"
    "tx_journal y = tx_journal x"
    "rollback_loop env (rev (jn_Actions (tx_journal y))) False y = ((Finished, rv), z)"
    "journal_grows z x'" "concluded env ''source'' x'"
    "rv \<Longrightarrow> reload_restored (length (jn_Actions (tx_journal z))) x'"
proof -
  let ?before = "case te_BeforeRollback env of None \<Rightarrow> skip | Some f \<Rightarrow> f"
  have "keeps_journal ?before" using assms(2) by (auto simp: service_grows_def keeps_skip split: option.splits)
  obtain y where y: "?before x = (Finished, y)" and
    r: "(case rollback_loop env (rev (jn_Actions (tx_journal y))) False y of
       ((Finished, reversed), x') \<Rightarrow>
         and_then (if reversed then restoreReload env else skip)
           (and_then (restoreService env) (completeWith env ''source'')) x'
     | ((r, _), x') \<Rightarrow> (r, x')) = (Finished, x')"
    using assms(3) unfolding rollback_body_def and_then_Finished by blast
  obtain rv z where z: "rollback_loop env (rev (jn_Actions (tx_journal y))) False y = ((Finished, rv), z)"
    and t: "and_then (if rv then restoreReload env else skip)
      (and_then (restoreService env) (completeWith env ''source'')) z = (Finished, x')"
    using r by (auto split: prod.splits outcome.splits)
  obtain u v where u: "(if rv then restoreReload env else skip) z = (Finished, u)" "restoreService env u = (Finished, v)"
    "completeWith env ''source'' v = (Finished, x')"
    using t by (auto simp: and_then_Finished)
  have "always journal_grows (if rv then restoreReload env else skip)"
    by (intro always_if restoreReload_grows always_skip journal_grows_preorder)
  then have g: "journal_grows z u" "journal_grows u v"
    using alwaysD u(1) alwaysD [OF restoreService_grows [OF assms(2)] u(2)] by blast+
  note c = completeWith_success [OF assms(1) u(3)]
  have vx: "journal_grows v x'" using c by (simp add: journal_grows_def actions_grow_refl)
  then have zx: "journal_grows z x'" using g journal_grows_trans by blast
  have rl: "reload_restored (length (jn_Actions (tx_journal z))) x'" if rv
  proof -
    have "restoreReload env z = (Finished, u)" using u(1) that by simp
    from restoreReload_restores [OF assms(1) this order_refl] show ?thesis
      using reload_restored_grows journal_grows_trans [OF g(2) vx] by blast
  qed
  show ?thesis
    using that [OF y keeps_journalD [OF \<open>keeps_journal ?before\<close> y] z zx _ rl] c by blast
qed

lemma same_journal:
  "tx_journal x = tx_journal y \<Longrightarrow> journal_grows x z = journal_grows y z"
  "tx_journal x = tx_journal y \<Longrightarrow> journal_grows z x = journal_grows z y"
  "tx_journal x = tx_journal y \<Longrightarrow> is_done k x = is_done k y"
  "tx_journal x = tx_journal y \<Longrightarrow> reversed_done a x = reversed_done a y"
  by (simp_all add: journal_grows_def is_done_def reversed_done_def)

lemma rollback_run:
  assumes "rollback env x = (Finished, x')"
  obtains x1 x2 where "bindRecoveryStopAuthority env x = (Finished, x1)"
    "rollback_body env (if te_serviceEffects env = None then x1 else x1\<lparr>tx_recoveringSource := True\<rparr>) = (Finished, x2)"
    "tx_journal x2 = tx_journal x'" "tx_world x2 = tx_world x'"
proof -
  obtain x0 where x0: "bindRecoveryStopAuthority env x = (Finished, x0)" and
    b: "(if te_serviceEffects env = None then rollback_body env x0
         else case rollback_body env (x0\<lparr>tx_recoveringSource := True\<rparr>) of (r, x') \<Rightarrow> (r, x'\<lparr>tx_recoveringSource := False\<rparr>)) = (Finished, x')"
    using assms unfolding rollback_def and_then_Finished by blast
  show ?thesis
  proof (cases "te_serviceEffects env = None")
    case True
    then show ?thesis using that [OF x0, of x'] b by simp
  next
    case False
    then obtain x2 where "rollback_body env (x0\<lparr>tx_recoveringSource := True\<rparr>) = (Finished, x2)"
      "x' = x2\<lparr>tx_recoveringSource := False\<rparr>"
      using b by (auto split: prod.splits)
    then show ?thesis using that [OF x0, of x2] False by simp
  qed
qed

lemma rollback_success:
  assumes "lawful_store env" "service_grows env" "validate_actions 0 (jn_Actions (tx_journal x)) = None"
    and "rollback env x = (Finished, x')"
  shows "concluded env ''source'' x' \<and> journal_grows x x' \<and>
    fst (fst (rollback_visit env x (length (jn_Actions (tx_journal x))))) = Finished \<and>
    (\<forall>k < length (jn_Actions (tx_journal x)).
       settled env (rev (jn_Actions (tx_journal x)) ! k) (snd (rollback_visit env x k)) x') \<and>
    (snd (fst (rollback_visit env x (length (jn_Actions (tx_journal x))))) \<longrightarrow>
       reload_restored (length (jn_Actions (tx_journal x))) x')"
proof -
  obtain x1 x2 where x1: "bindRecoveryStopAuthority env x = (Finished, x1)"
    and B: "rollback_body env (if te_serviceEffects env = None then x1 else x1\<lparr>tx_recoveringSource := True\<rparr>) = (Finished, x2)"
    and e: "tx_journal x2 = tx_journal x'" "tx_world x2 = tx_world x'"
    by (rule rollback_run [OF assms(4)])
  obtain y z rv where st: "(case te_BeforeRollback env of None \<Rightarrow> skip | Some f \<Rightarrow> f)
      (if te_serviceEffects env = None then x1 else x1\<lparr>tx_recoveringSource := True\<rparr>) = (Finished, y)"
    and y: "tx_journal y = tx_journal (if te_serviceEffects env = None then x1 else x1\<lparr>tx_recoveringSource := True\<rparr>)"
    and L: "rollback_loop env (rev (jn_Actions (tx_journal y))) False y = ((Finished, rv), z)"
    and g: "journal_grows z x2" and c: "concluded env ''source'' x2"
    and rl: "rv \<Longrightarrow> reload_restored (length (jn_Actions (tx_journal z))) x2"
    by (rule rollback_body_success [OF assms(1,2) B]) blast
  have jy: "tx_journal y = tx_journal x"
    using y keeps_journalD [OF bindRecoveryStopAuthority_keeps x1] by simp
  have "rollback_start env x = (Finished, y)"
    using x1 st by (simp add: rollback_start_def and_then_Finished)
  then have vis: "rollback_visit env x k = rollback_loop env (take k (rev (jn_Actions (tx_journal y)))) False y" for k
    by (simp add: rollback_visit_def jy)
  have gx: "journal_grows z x'" using g same_journal(2) [OF e(1)] by blast
  have yz: "journal_grows y z"
    using rollback_loop_grows [OF L, of 0 "length (jn_Actions (tx_journal y))"] L by simp
  have "concluded env ''source'' x'" using c unfolding concluded_def e .
  moreover have "fst (fst (rollback_visit env x (length (jn_Actions (tx_journal x))))) = Finished"
    using L unfolding vis jy by simp
  moreover have "journal_grows x x'" using journal_grows_trans [OF yz gx] same_journal(1) [OF jy] by blast
  moreover have "settled env (rev (jn_Actions (tx_journal x)) ! k) (snd (rollback_visit env x k)) x'"
    if "k < length (jn_Actions (tx_journal x))" for k
    using settled_grows [OF rollback_loop_settles [OF assms(1) _ L, of k] gx] that assms(3) unfolding vis jy by simp
  moreover have "reload_restored (length (jn_Actions (tx_journal x))) x'" if "snd (fst (rollback_visit env x (length (jn_Actions (tx_journal x)))))"
  proof -
    have "rv" using that L unfolding vis jy by simp
    then have "reload_restored (length (jn_Actions (tx_journal z))) x'" using rl e(1) by (simp add: reload_restored_def)
    moreover have "length (jn_Actions (tx_journal x)) \<le> length (jn_Actions (tx_journal z))"
      using yz jy by (simp add: journal_grows_def actions_grow_def)
    ultimately show ?thesis unfolding reload_restored_def list_ex_iff by (metis of_nat_le_iff order_le_less_trans)
  qed
  ultimately show ?thesis by blast
qed



section \<open>A concrete transaction\<close>

text \<open>The store of \<open>Install_Journal\<close> with effects that always report the new state and a target
  that is not installed.\<close>

definition demo_env :: "journal_codec \<Rightarrow> (string \<Rightarrow> string) tx_env" where
  "demo_env c = \<lparr>te_codec = c, te_Store = Some demo_files,
     te_Effects = Some \<lparr>ie_Observe = (\<lambda>a w. Inr (ja_NewState a)), ie_Apply = (\<lambda>a w. (None, w))\<rparr>,
     te_serviceEffects = None, te_Service = None,
     te_authority = Some \<lparr>au_OldDefinition = demo_definition [],
       au_TargetDefinition = (demo_definition [])\<lparr>sd_Status := StatusNotInstalled\<rparr>\<rparr>,
     te_BootID = ''b'', te_TargetRunning = False, te_TargetEnabled = False, te_OldEnabled = False,
     te_recheckAndPublish = None, te_DataLease = None, te_BeforeRollback = None,
     te_decodeLaunch = (\<lambda>_. Inl ErrInvalid), te_reaper = None, te_crash = None\<rparr>"

definition demo_tx :: "journal \<Rightarrow> (string \<Rightarrow> string) tx" where
  "demo_tx j = \<lparr>tx_journal = j, tx_stepN = 0, tx_recoveringSource = False, tx_world = demo_world\<rparr>"

lemma demo_env_laws: "lawful_store (demo_env c)" "service_grows (demo_env c)"
  using demo_lawful(1) by (simp_all add: lawful_store_def service_grows_def demo_env_def)

text \<open>A codec that writes one text for every journal.\<close>

definition flat_codec :: journal_codec where
  "flat_codec = demo_jcodec\<lparr>jc_marshal := (\<lambda>_. Inr ''0'')\<rparr>"

lemma flat_codec_valid [simp]: "validateInstallJournal flat_codec j = validateInstallJournal demo_jcodec j"
proof -
  have "jc_paths flat_codec = jc_paths demo_jcodec" "sha256Hex flat_codec = sha256Hex demo_jcodec"
    by (auto simp: flat_codec_def sha256Hex_def)
  then show ?thesis unfolding validateInstallJournal_def by (simp only:)
qed

lemma flat_codec_decoder: "jc_parse flat_codec = jc_parse demo_jcodec" "jc_decode flat_codec = jc_decode demo_jcodec"
  by (simp_all add: flat_codec_def)

lemma demo_save_journal:
  assumes "validateInstallJournal demo_jcodec j = None"
  shows "store_Save_journal flat_codec (Some demo_files) j w =
    ((\<lparr>du_Published = True, du_Durable = True, du_Object = no_object\<rparr>, None), w(installJournalFileName := ''0''))"
  using assms by (simp add: store_Save_journal_def EncodeJournal_def)
    (simp add: demo_files_def flat_codec_def)

section \<open>Properties\<close>

text \<open>
  C17. Write-ahead: the effect of a step is called only in a state in which the journal on
  disk is the journal in memory and ends with the intent of exactly this action. Replacing
  the effect by anything else in all other states changes nothing.
\<close>

theorem step_is_write_ahead:
  assumes "te_Store env = Some fs" and "lawful_files fs" and "lawful_codec (te_codec env)"
    and "store_Load_journal (te_codec env) (Some fs) (tx_world x) = Inr (tx_journal x)"
    and "fits env a (tx_journal x)"
  shows "step env a effect x = step env a (\<lambda>y. if intent_on_disk env a x y then effect y else other y) x"
  using step_shape [of env a x]
proof
  assume "\<exists>r. \<forall>f. step env a f x = r"
  then show ?thesis by metis
next
  assume "\<exists>x1. record_durably env (a\<lparr>ja_Status := ''intent''\<rparr>) (x\<lparr>tx_stepN := tx_stepN x + 1\<rparr>) = (Finished, x1) \<and>
    (\<forall>f. step env a f x = and_then f (after_effect env (tx_stepN x + 1)) x1)"
  then obtain x1 where x1: "record_durably env (a\<lparr>ja_Status := ''intent''\<rparr>) (x\<lparr>tx_stepN := tx_stepN x + 1\<rparr>) = (Finished, x1)"
    "\<And>f. step env a f x = and_then f (after_effect env (tx_stepN x + 1)) x1"
    by blast
  have "intent_on_disk env a x x1" by (rule record_intent_on_disk [OF assms x1(1)])
  then show ?thesis unfolding x1(2) by (simp add: and_then_def)
qed

theorem step_is_write_ahead_witness:
  "step (demo_env demo_jcodec) demo_action skip (demo_tx demo_journal) =
   step (demo_env demo_jcodec) demo_action
     (\<lambda>y. if intent_on_disk (demo_env demo_jcodec) demo_action (demo_tx demo_journal) y then skip y else (Crashed, y))
     (demo_tx demo_journal)"
proof (rule step_is_write_ahead)
  have b: "demo_action\<lparr>ja_Status := ''intent''\<rparr> = demo_action" by (simp add: demo_action_def)
  have r: "demo_journal\<lparr>jn_Actions := appended demo_action (jn_Actions demo_journal)\<rparr> = demo_recorded"
    by (simp add: demo_recorded_def demo_journal_def)
  show "fits (demo_env demo_jcodec) demo_action (tx_journal (demo_tx demo_journal))"
    using demo_utf8 demo_fits r unfolding fits_def b Let_def
    by (simp add: demo_tx_def demo_env_def) (simp add: demo_recorded_def demo_journal_def)
qed (use demo_lawful demo_load in \<open>simp_all add: demo_env_def demo_tx_def\<close>)

text \<open>
  Recovery finishes an action exactly once: a successful \<open>finishAction\<close> of a recorded
  service action leaves it done in the journal and its new state observed, whether the
  crash came before or after the effect, and finishing it again does nothing. Journal
  writes must not change what is observed of the service.
\<close>

theorem finishAction_settles:
  assumes "lawful_store env" and "te_serviceEffects env = Some s"
    and "validate_actions 0 (jn_Actions (tx_journal x)) = None" and "k < length (jn_Actions (tx_journal x))"
    and "a = jn_Actions (tx_journal x) ! k" and "ja_Status a = ''intent''"
    and "isConcreteServiceAction a" and "observed_action (te_codec env) s a" and "\<not> ja_Kind a \<in> {''reload'', ''restore_reload''}"
    and "\<And>b y r y'. record_tx env b y = (r, y') \<Longrightarrow> tx_observe env a (tx_world y') = tx_observe env a (tx_world y)"
    and "finishAction env a x = (Finished, x')"
  shows "is_done k x' \<and> tx_observe env a (tx_world x') = Inr (ja_NewState a) \<and> finishAction env a x' = (Finished, x')"
proof -
  have num: "numbered (length (jn_Actions (tx_journal x))) x" by (rule numbered_valid [OF assms(3)])
  have q: "ja_Seq a = int k + 1" using num assms(4,5) by (simp add: numbered_def)
  have d: "is_done k x'" by (rule finishAction_done [OF assms(1,11) num assms(4) q])
  have "finishAction env a x' = (Finished, x')"
  proof -
    have "numbered (length (jn_Actions (tx_journal x))) x'"
      using numbered_grows [OF num] alwaysD [OF finishAction_grows assms(11)] by blast
    from actionBySeq_at [OF this assms(4)] show ?thesis using q d by (simp add: finishAction_def is_done_def)
  qed
  moreover have "tx_observe env a (tx_world x') = Inr (ja_NewState a)"
    using assms(11) num assms(4) q
  proof (cases rule: finishAction_cases)
    case before
    then show ?thesis using assms(5,6) by (simp add: is_done_def)
  next
    case (now cur actual progress y dd)
    have cur: "cur = a" using now(1) assms(5) by simp
    have ob: "tx_observe env a = checked_observe (te_codec env) s a"
      using assms(2,7) by (auto simp: tx_observe_def checked_eq [OF assms(8)])
    have "actual = ja_OldState a \<and> checked_apply (te_codec env) s a (tx_world x) = (None, tx_world y) \<or>
      actual = ja_NewState a \<and> tx_world y = tx_world x"
      using now(4,5) assms(2,7,9) unfolding cur
      by (auto simp: classifyInstallAction_def ClassifyObservedAction_def applyEffect_def checked_eq [OF assms(8)] on_world_def
            skip_def split: if_splits prod.splits option.splits)
    then have "checked_observe (te_codec env) s a (tx_world y) = Inr (ja_NewState a)"
      using svc.settle [where a = a and w = "tx_world x"] now(3) unfolding cur ob by blast
    then show ?thesis using assms(10) [OF now(6)] by (simp add: ob)
  qed
  ultimately show ?thesis using d by blast
qed


text \<open>A world that holds the journal file and the state of the service.\<close>

definition token_effects :: "(string \<Rightarrow> string) service_effects" where
  "token_effects = \<lparr>se_files = None,
     se_adapter = \<lparr>ra_ObserveAction = (\<lambda>d w. Inr (w ''service'')), ra_ReplayAction = (\<lambda>d w. (None, w(''service'' := da_NewState d)))\<rparr>,
     se_old = demo_definition [], se_target = demo_definition []\<rparr>"

definition token_env :: "(string \<Rightarrow> string) tx_env" where
  "token_env = (demo_env flat_codec)\<lparr>te_serviceEffects := Some token_effects\<rparr>"

definition token_journal :: journal where
  "token_journal = demo_journal\<lparr>jn_Actions := [demo_start]\<rparr>"

definition token_tx :: "(string \<Rightarrow> string) tx" where
  "token_tx = (demo_tx token_journal)\<lparr>tx_world := demo_world(''service'' := ''stopped'')\<rparr>"

lemma token_resolve:
  "resolve c token_effects demo_start = Inr \<lparr>da_Path = [], da_File = None, da_Link = [], da_Kind = ''start'',
     da_TargetRole = ''definition'', da_OldState = ''stopped'', da_NewState = ''running''\<rparr>"
  by (simp add: resolve_def demo_start_def resolve_state_def trim_prefix_def has_prefix_def)

lemma token_effects_simps [simp]:
  "da_Path d = [] \<Longrightarrow> observeAction token_effects d w = Inr (w ''service'')"
  "da_Path d = [] \<Longrightarrow> replayAction token_effects d w = (None, w(''service'' := da_NewState d))"
  by (simp_all add: observeAction_def replayAction_def token_effects_def)

lemma demo_start_facts:
  "validate_actions 0 [demo_start] = None" "validate_actions 0 [demo_start\<lparr>ja_Status := ''done''\<rparr>] = None"
  "isConcreteServiceAction demo_start" "observed_action c token_effects demo_start"
  by (simp_all add: demo_start_def validateJournalAction_def validJournalActionKind_def journal_kinds_def
        validJournalRole_def journal_roles_def isConcreteServiceAction_def trim_prefix_def has_prefix_def observed_action_def
        token_resolve [unfolded demo_start_def])

lemma token_journal_done_valid:
  "validateInstallJournal demo_jcodec (demo_journal\<lparr>jn_Actions := [demo_start\<lparr>ja_Status := ''done''\<rparr>]\<rparr>) = None"
proof -
  have "validateInstallJournal demo_jcodec (demo_journal\<lparr>jn_Actions := []\<rparr>) = None"
    using demo_journal_valid validateInstallJournal_split by blast
  then show ?thesis using demo_start_facts(2) validateInstallJournal_actions by blast
qed

definition token_done :: "(string \<Rightarrow> string) tx" where
  "token_done = token_tx\<lparr>tx_journal := demo_journal\<lparr>jn_Actions := [demo_start\<lparr>ja_Status := ''done''\<rparr>]\<rparr>,
     tx_world := demo_world(''service'' := ''running'', installJournalFileName := ''0'')\<rparr>"

lemma token_finish: "finishAction token_env demo_start token_tx = (Finished, token_done)"
proof -
  have o: "tx_observe token_env demo_start w = Inr (w ''service'')" for w
    using demo_start_facts(3) by (simp add: tx_observe_def token_env_def effects_observe_def token_resolve)
  have e: "applyEffect token_env demo_start token_tx = (Finished, token_tx\<lparr>tx_world := demo_world(''service'' := ''running'')\<rparr>)"
    using demo_start_facts(3)
    by (simp add: applyEffect_def token_env_def on_world_def effects_apply_def token_resolve)
       (simp add: token_tx_def demo_start_def)
  have n: "next_actions (demo_start\<lparr>ja_Status := ''done''\<rparr>) [demo_start] = Inr [demo_start\<lparr>ja_Status := ''done''\<rparr>]"
    using demo_start_facts(2) by (simp add: next_actions_def demo_start_def fill_action_def split: option.splits)
  have r: "record_tx token_env (demo_start\<lparr>ja_Status := ''done''\<rparr>) (token_tx\<lparr>tx_world := demo_world(''service'' := ''running'')\<rparr>) =
    ((\<lparr>du_Published = True, du_Durable = True, du_Object = no_object\<rparr>, None), token_done)"
    using n demo_save_journal [OF token_journal_done_valid]
    by (simp add: record_tx_def RecordAction_def token_env_def demo_env_def token_tx_def demo_tx_def token_journal_def token_done_def)
  have f: "actionBySeq token_tx (ja_Seq demo_start) = Some demo_start"
    by (simp add: actionBySeq_def token_tx_def demo_tx_def token_journal_def)
  have c: "classifyInstallAction demo_start ''stopped'' = Inr ActionNotStarted"
    by (simp add: classifyInstallAction_def ClassifyObservedAction_def demo_start_def)
  have w: "tx_world token_tx ''service'' = ''stopped''" by (simp add: token_tx_def)
  have s: "ja_Status demo_start \<noteq> ''done''" by (simp add: demo_start_def)
  show ?thesis using s unfolding finishAction_def f option.case o sum.case w c by (simp add: and_then_def e r)
qed

theorem finishAction_settles_witness:
  "is_done 0 token_done \<and> tx_observe token_env demo_start (tx_world token_done) = Inr ''running''"
proof -
  have "is_done 0 token_done \<and> tx_observe token_env demo_start (tx_world token_done) = Inr (ja_NewState demo_start) \<and>
    finishAction token_env demo_start token_done = (Finished, token_done)"
  proof (rule finishAction_settles [OF _ _ _ _ _ _ _ _ _ _ token_finish])
    show "lawful_store token_env" using demo_env_laws(1) [of flat_codec] by (simp add: token_env_def lawful_store_def)
    fix b y r y' assume "record_tx token_env b y = (r, y')"
    then show "tx_observe token_env demo_start (tx_world y') = tx_observe token_env demo_start (tx_world y)"
      using demo_start_facts(3)
      by (auto simp: record_tx_def RecordAction_def store_Save_journal_def token_env_def demo_env_def demo_files_def
            installJournalFileName_def tx_observe_def effects_observe_def token_resolve
            split: sum.splits prod.splits if_splits)
  qed (use demo_start_facts in \<open>simp_all add: token_env_def token_tx_def demo_tx_def token_journal_def demo_start_def\<close>)
  then show ?thesis by (simp add: demo_start_def)
qed


text \<open>
  C20. Rolling forward completes: a successful \<open>rollforward\<close> of a valid journal leaves every
  action that was recorded before done, only appends to the journal, and ends with the
  phase complete under the target's authority, in memory and in the published file.
\<close>

theorem rollforward_completes:
  assumes "lawful_store env" and "service_grows env" and "validate_actions 0 (jn_Actions (tx_journal x)) = None"
    and "rollforward env x = (Finished, x')"
  shows "concluded env ''target'' x' \<and> journal_grows x x' \<and>
    (\<forall>k < length (jn_Actions (tx_journal x)). is_done k x')"
  by (rule rollforward_success [OF assms])

lemma concluded_valid:
  assumes "validateInstallJournal c j = None" "authority \<in> {''source'', ''target''}"
  shows "validateInstallJournal c (j\<lparr>jn_RecoveryAuthority := authority, jn_Phase := ''complete''\<rparr>) = None"
  using assms unfolding validateInstallJournal_def check_simps validate_identities_def by (auto simp: install_phases_def)

definition rb_tx :: "journal_action list \<Rightarrow> nat \<Rightarrow> (string \<Rightarrow> string) \<Rightarrow> (string \<Rightarrow> string) tx" where
  "rb_tx as n w = \<lparr>tx_journal = demo_journal\<lparr>jn_Actions := as\<rparr>, tx_stepN = n, tx_recoveringSource = False, tx_world = w\<rparr>"

lemma rb_record:
  assumes "next_actions a as = Inr bs" "validate_actions 0 bs = None"
  shows "record_durably (demo_env flat_codec) a (rb_tx as n w) = (Finished, rb_tx bs n (w(installJournalFileName := ''0'')))"
proof -
  have "validateInstallJournal demo_jcodec (demo_journal\<lparr>jn_Actions := []\<rparr>) = None"
    using demo_journal_valid validateInstallJournal_split by blast
  then have v: "validateInstallJournal demo_jcodec (demo_journal\<lparr>jn_Actions := bs\<rparr>) = None"
    using assms(2) validateInstallJournal_actions by blast
  show ?thesis
    using assms(1) demo_save_journal [OF v]
    by (simp add: record_durably_def record_tx_def RecordAction_def rb_tx_def demo_env_def)
qed

lemma rb_complete:
  assumes "validate_actions 0 as = None" "authority \<in> {''source'', ''target''}"
  shows "completeWith (demo_env flat_codec) authority (rb_tx as n w) =
    (Finished, (rb_tx as n (w(installJournalFileName := ''0'')))
       \<lparr>tx_journal := demo_journal\<lparr>jn_Actions := as, jn_RecoveryAuthority := authority, jn_Phase := ''complete''\<rparr>\<rparr>)"
proof -
  have "validateInstallJournal demo_jcodec (demo_journal\<lparr>jn_Actions := []\<rparr>) = None"
    using demo_journal_valid validateInstallJournal_split by blast
  then have "validateInstallJournal demo_jcodec (demo_journal\<lparr>jn_Actions := as\<rparr>) = None"
    using assms(1) validateInstallJournal_actions by blast
  from demo_save_journal [OF concluded_valid [OF this assms(2)]] show ?thesis
    by (simp add: completeWith_def setPhase_def and_then_def set_journal_def save_tx_def rb_tx_def)
       (simp add: demo_env_def)
qed



text \<open>A journal with the intent of one action, which a crash left unfinished.\<close>

definition rf_intent :: journal_action where
  "rf_intent = demo_action\<lparr>ja_Seq := 1\<rparr>"

definition rf_end :: "(string \<Rightarrow> string) tx" where
  "rf_end = (rb_tx [rf_intent\<lparr>ja_Status := ''done''\<rparr>] 0 (demo_world(installJournalFileName := ''0'')))
     \<lparr>tx_journal := demo_journal\<lparr>jn_Actions := [rf_intent\<lparr>ja_Status := ''done''\<rparr>], jn_RecoveryAuthority := ''target'',
        jn_Phase := ''complete''\<rparr>\<rparr>"

lemma rf_actions: "validate_actions 0 [rf_intent] = None" "validate_actions 0 [rf_intent\<lparr>ja_Status := ''done''\<rparr>] = None"
  "next_actions (rf_intent\<lparr>ja_Status := ''done''\<rparr>) [rf_intent] = Inr [rf_intent\<lparr>ja_Status := ''done''\<rparr>]"
  by (code_simp, code_simp, code_simp)

lemma rf_finish:
  "finishAction (demo_env flat_codec) rf_intent (rb_tx [rf_intent] 0 w) =
    (Finished, rb_tx [rf_intent\<lparr>ja_Status := ''done''\<rparr>] 0 (w(installJournalFileName := ''0'')))"
proof -
  have f: "actionBySeq (rb_tx [rf_intent] 0 w) (ja_Seq rf_intent) = Some rf_intent" "tx_world (rb_tx [rf_intent] 0 w) = w"
    by (simp_all add: actionBySeq_def rb_tx_def)
  have o: "tx_observe (demo_env flat_codec) rf_intent w = Inr (ja_NewState rf_intent)" by (simp add: tx_observe_def demo_env_def)
  have p: "classifyInstallAction rf_intent (ja_NewState rf_intent) = Inr ActionStarted" "ja_Status rf_intent \<noteq> ''done''" by code_simp+
  have "record_durably (demo_env flat_codec) (rf_intent\<lparr>ja_Status := ''done''\<rparr>) (rb_tx [rf_intent] 0 w) =
      (Finished, rb_tx [rf_intent\<lparr>ja_Status := ''done''\<rparr>] 0 (w(installJournalFileName := ''0'')))"
    by (rule rb_record [OF rf_actions(3,2)])
  then obtain d where "record_tx (demo_env flat_codec) (rf_intent\<lparr>ja_Status := ''done''\<rparr>) (rb_tx [rf_intent] 0 w) =
      ((d, None), rb_tx [rf_intent\<lparr>ja_Status := ''done''\<rparr>] 0 (w(installJournalFileName := ''0'')))"
    by (auto simp: record_durably_def split: prod.splits option.splits if_splits)
  then show ?thesis
    unfolding finishAction_def f option.case o sum.case p using p(2) by (simp add: and_then_def skip_def)
qed

lemma rf_rollforward: "rollforward (demo_env flat_codec) (rb_tx [rf_intent] 0 demo_world) = (Finished, rf_end)"
proof -
  have b: "bindRecoveryStopAuthority (demo_env flat_codec) x = (Finished, x)" "ensureTarget (demo_env flat_codec) x = (Finished, x)" for x
    by (simp_all add: bindRecoveryStopAuthority_def ensureTarget_def demo_env_def)
  have s: "te_Service (demo_env flat_codec) = None" by (simp add: demo_env_def)
  have a: "jn_Actions (tx_journal (rb_tx [rf_intent] 0 demo_world)) = [rf_intent]" by (simp add: rb_tx_def)
  show ?thesis
    unfolding rollforward_def and_then_def b prod.case outcome.case s option.case skip_def a
    by (simp add: and_then_def rf_finish b rb_complete [OF rf_actions(2)] rf_end_def)
qed

theorem rollforward_completes_witness:
  "concluded (demo_env flat_codec) ''target'' rf_end \<and> \<not> is_done 0 (rb_tx [rf_intent] 0 demo_world) \<and> is_done 0 rf_end"
proof -
  have a: "jn_Actions (tx_journal (rb_tx [rf_intent] 0 demo_world)) = [rf_intent]" by (simp add: rb_tx_def)
  have v: "validate_actions 0 (jn_Actions (tx_journal (rb_tx [rf_intent] 0 demo_world))) = None" using rf_actions(1) a by simp
  have "\<not> is_done 0 (rb_tx [rf_intent] 0 demo_world)" by (simp add: is_done_def rb_tx_def rf_intent_def demo_action_def)
  then show ?thesis
    using rollforward_completes [OF demo_env_laws v rf_rollforward] unfolding a by simp
qed

text \<open>
  C18. Rolling back settles every action, last one first. When \<open>rollback\<close> of a valid journal
  succeeds, its loop has visited every recorded action, and from the state in which it visited
  an action on, each forward action was idle there or has been reversed, the reversal being
  recorded as done, and each action that was itself a reversal is done. It passes over reloads
  (one reload is recorded and done at the end if anything was reversed), over starts and stops
  when the service has native effects (its definition is restored instead), and over the two kinds
  without a reverse, a stopped validation and the activation. The journal only grew and ends complete
  under the source's authority, in memory and in the published file.
\<close>

theorem rollback_settles:
  assumes "lawful_store env" and "service_grows env" and "validate_actions 0 (jn_Actions (tx_journal x)) = None"
    and "rollback env x = (Finished, x')"
  shows "concluded env ''source'' x' \<and> journal_grows x x' \<and>
    fst (fst (rollback_visit env x (length (jn_Actions (tx_journal x))))) = Finished \<and>
    (\<forall>k < length (jn_Actions (tx_journal x)).
       settled env (rev (jn_Actions (tx_journal x)) ! k) (snd (rollback_visit env x k)) x') \<and>
    (snd (fst (rollback_visit env x (length (jn_Actions (tx_journal x))))) \<longrightarrow>
       reload_restored (length (jn_Actions (tx_journal x))) x')"
  using rollback_success [OF assms] by blast

text \<open>A journal with one finished action, which rollback has to reverse.\<close>

definition rb_action :: journal_action where
  "rb_action = demo_action\<lparr>ja_Seq := 1, ja_Status := ''done''\<rparr>"

definition rb_undo :: journal_action where
  "rb_undo = \<lparr>ja_Seq = 2, ja_Kind = ''restore_channel'', ja_TargetRole = ''channel'', ja_OldState = ''new'', ja_BackupRef = [],
     ja_NewState = ''absent'', ja_CandidateRef = [], ja_Status = ''intent''\<rparr>"

definition rb_reload :: journal_action where
  "rb_reload = \<lparr>ja_Seq = 3, ja_Kind = ''restore_reload'', ja_TargetRole = ''definition'', ja_OldState = ''reload:1'', ja_BackupRef = [],
     ja_NewState = ''reload:2'', ja_CandidateRef = [], ja_Status = ''intent''\<rparr>"

lemma rb_step:
  assumes "next_actions (a\<lparr>ja_Status := ''intent''\<rparr>) as = Inr (as @ [b])" "validate_actions 0 (as @ [b]) = None"
    and "next_actions (b\<lparr>ja_Status := ''done''\<rparr>) (as @ [b]) = Inr (as @ [b\<lparr>ja_Status := ''done''\<rparr>])"
    and "validate_actions 0 (as @ [b\<lparr>ja_Status := ''done''\<rparr>]) = None"
  shows "step (demo_env flat_codec) a (applyEffect (demo_env flat_codec) a) (rb_tx as n w) =
    (Finished, rb_tx (as @ [b\<lparr>ja_Status := ''done''\<rparr>]) (Suc n) (w(installJournalFileName := ''0'')))"
proof -
  have c: "crash_at (demo_env flat_codec) m p x = (Finished, x)" for m p and x :: "(string \<Rightarrow> string) tx"
    by (simp add: crash_at_def demo_env_def)
  have e: "applyEffect (demo_env flat_codec) a x = (Finished, x)" for x
    by (simp add: applyEffect_def apply_effects_def on_world_def demo_env_def)
  have f: "finish_last (demo_env flat_codec) (rb_tx (as @ [b]) m v) =
      record_durably (demo_env flat_codec) (b\<lparr>ja_Status := ''done''\<rparr>) (rb_tx (as @ [b]) m v)" for m v
    by (simp add: finish_last_def rb_tx_def)
  have u: "(rb_tx as n w)\<lparr>tx_stepN := Suc n\<rparr> = rb_tx as (Suc n) w" "tx_stepN (rb_tx as n w) = n" by (simp_all add: rb_tx_def)
  show ?thesis
    by (simp add: step_def Let_def and_then_def u c e f rb_record [OF assms(1,2)] rb_record [OF assms(3,4)])
qed

lemma rb_actions:
  "validate_actions 0 [rb_action] = None" "validate_actions 0 [rb_action, rb_undo] = None"
  "validate_actions 0 [rb_action, rb_undo\<lparr>ja_Status := ''done''\<rparr>] = None"
  "validate_actions 0 [rb_action, rb_undo\<lparr>ja_Status := ''done''\<rparr>, rb_reload] = None"
  "validate_actions 0 [rb_action, rb_undo\<lparr>ja_Status := ''done''\<rparr>, rb_reload\<lparr>ja_Status := ''done''\<rparr>] = None"
  by (code_simp, code_simp, code_simp, code_simp, code_simp)

lemma rb_reverse:
  "rollback_one (demo_env flat_codec) rb_action (rb_tx [rb_action] n w) =
    ((Finished, True), rb_tx [rb_action, rb_undo\<lparr>ja_Status := ''done''\<rparr>] (Suc n) (w(installJournalFileName := ''0'')))"
proof -
  let ?a = "restore_action ''restore_channel'' rb_action (ja_NewState rb_action) (ja_OldState rb_action)"
  have n: "next_actions (?a\<lparr>ja_Status := ''intent''\<rparr>) [rb_action] = Inr ([rb_action] @ [rb_undo])" by code_simp
  have d: "next_actions (rb_undo\<lparr>ja_Status := ''done''\<rparr>) ([rb_action] @ [rb_undo]) = Inr ([rb_action] @ [rb_undo\<lparr>ja_Status := ''done''\<rparr>])"
    by code_simp
  have s: "step (demo_env flat_codec) ?a (applyEffect (demo_env flat_codec) ?a) (rb_tx [rb_action] n w) =
    (Finished, rb_tx [rb_action, rb_undo\<lparr>ja_Status := ''done''\<rparr>] (Suc n) (w(installJournalFileName := ''0'')))"
    using rb_step [OF n _ d] rb_actions by simp
  have k: "ja_Kind rb_action = ''channel''" "reverseKind ''channel'' = ''restore_channel''" "\<not> isReverseAction ''channel''" by code_simp+
  have r: "reverse (demo_env flat_codec) rb_action (rb_tx [rb_action] n w) =
      step (demo_env flat_codec) ?a (applyEffect (demo_env flat_codec) ?a) (rb_tx [rb_action] n w)"
    by (simp add: reverse_def k Let_def)
  have o: "tx_observe (demo_env flat_codec) rb_action w = Inr (ja_NewState rb_action)"
    by (simp add: tx_observe_def demo_env_def)
  have p: "classifyInstallAction rb_action (ja_NewState rb_action) = Inr ActionStarted" by code_simp
  have al: "\<not> alreadyReversed (rb_tx [rb_action] n w) rb_action" by (simp add: alreadyReversed_def rb_tx_def)
  have w: "tx_world (rb_tx [rb_action] n w) = w" by (simp add: rb_tx_def)
  show ?thesis unfolding rollback_one_def k w o sum.case p using al by (simp add: k r s)
qed

lemma rb_reloaded:
  "restoreReload (demo_env flat_codec) (rb_tx [rb_action, rb_undo\<lparr>ja_Status := ''done''\<rparr>] n w) =
    (Finished, rb_tx [rb_action, rb_undo\<lparr>ja_Status := ''done''\<rparr>, rb_reload\<lparr>ja_Status := ''done''\<rparr>] (Suc n)
       (w(installJournalFileName := ''0'')))"
proof -
  let ?as = "[rb_action, rb_undo\<lparr>ja_Status := ''done''\<rparr>]"
  let ?a = "new_action ''restore_reload'' ''definition'' ''reload:1'' ''reload:2''"
  have t: "scan_reload (reloadToken 1) = 1" "reloadToken 1 = ''reload:1''" "reloadToken (wrap64 2) = ''reload:2''" by code_simp+
  have c: "currentReload (demo_env flat_codec) x = 1" for x
    by (simp add: currentReload_def demo_env_def new_action_def t(1))
  have n: "next_actions (?a\<lparr>ja_Status := ''intent''\<rparr>) ?as = Inr (?as @ [rb_reload])" by code_simp
  have d: "next_actions (rb_reload\<lparr>ja_Status := ''done''\<rparr>) (?as @ [rb_reload]) = Inr (?as @ [rb_reload\<lparr>ja_Status := ''done''\<rparr>])"
    by code_simp
  show ?thesis using rb_step [OF n _ d] rb_actions by (simp add: restoreReload_def c Let_def t)
qed

definition rb_end :: "(string \<Rightarrow> string) tx" where
  "rb_end = (rb_tx [rb_action, rb_undo\<lparr>ja_Status := ''done''\<rparr>, rb_reload\<lparr>ja_Status := ''done''\<rparr>] 2
     (demo_world(installJournalFileName := ''0'')))
     \<lparr>tx_journal := demo_journal\<lparr>jn_Actions := [rb_action, rb_undo\<lparr>ja_Status := ''done''\<rparr>, rb_reload\<lparr>ja_Status := ''done''\<rparr>],
        jn_RecoveryAuthority := ''source'', jn_Phase := ''complete''\<rparr>\<rparr>"

lemma rb_rollback: "rollback (demo_env flat_codec) (rb_tx [rb_action] 0 demo_world) = (Finished, rb_end)"
proof -
  have b: "bindRecoveryStopAuthority (demo_env flat_codec) x = (Finished, x)" for x
    by (simp add: bindRecoveryStopAuthority_def demo_env_def)
  have s: "te_serviceEffects (demo_env flat_codec) = None" "te_BeforeRollback (demo_env flat_codec) = None"
    by (simp_all add: demo_env_def)
  have r: "restoreService (demo_env flat_codec) = skip" by (simp add: restoreService_def s)
  have a: "jn_Actions (tx_journal (rb_tx [rb_action] 0 demo_world)) = [rb_action]" by (simp add: rb_tx_def)
  show ?thesis
    by (simp add: rollback_def and_then_def b s rollback_body_def skip_def r a rb_reverse rb_reloaded
          rb_complete [OF rb_actions(5)] rb_end_def numeral_2_eq_2)
qed

theorem rollback_settles_witness:
  "concluded (demo_env flat_codec) ''source'' rb_end \<and>
   snd (rollback_visit (demo_env flat_codec) (rb_tx [rb_action] 0 demo_world) 0) = rb_tx [rb_action] 0 demo_world \<and>
   settled (demo_env flat_codec) rb_action (rb_tx [rb_action] 0 demo_world) rb_end \<and>
   reversed_done rb_action rb_end \<and> reload_restored 1 rb_end"
proof -
  have a: "jn_Actions (tx_journal (rb_tx [rb_action] 0 demo_world)) = [rb_action]" by (simp add: rb_tx_def)
  have v: "validate_actions 0 (jn_Actions (tx_journal (rb_tx [rb_action] 0 demo_world))) = None" using rb_actions(1) a by simp
  have b: "rollback_start (demo_env flat_codec) x = (Finished, x)" for x
    by (simp add: rollback_start_def and_then_def bindRecoveryStopAuthority_def skip_def demo_env_def)
  have "reversed_done rb_action rb_end"
    by (simp add: reversed_done_def rb_end_def) (code_simp)
  moreover have z: "snd (rollback_visit (demo_env flat_codec) (rb_tx [rb_action] 0 demo_world) 0) = rb_tx [rb_action] 0 demo_world"
    by (simp add: rollback_visit_def b)
  moreover have "snd (fst (rollback_visit (demo_env flat_codec) (rb_tx [rb_action] 0 demo_world) 1))"
    by (simp add: rollback_visit_def b a rb_reverse)
  ultimately show ?thesis
    using rollback_settles [OF demo_env_laws v rb_rollback] unfolding a by simp
qed





















end
