(* ===== verification/Install_Files.thy ===== *)
theory Install_Files
  imports Install_Journal Catalog
begin

text \<open>
  The files of the installation journal on Unix (\<open>internal/app/install_journal_unix.go\<close>): inspecting,
  reading and replacing the journal and the files of a transaction below a trusted directory. The
  directory (\<open>platform.TrustedRoot\<close>) is an argument: each of its calls may fail, and a write may fail
  before or after the rename. The theory shows that these files keep the laws which the journal rests on
  (\<open>lawful_files\<close>), the double fault after a rename included.
\<close>

section \<open>The trusted directory\<close>

record root_snapshot =
  sn_Path :: string
  sn_Identity :: string
  sn_Owner :: nat
  sn_Mode :: nat

text \<open>An open file: its identity, reading of at most \<open>n\<close> bytes, and the error of closing it.\<close>

record open_file =
  of_Key :: string
  of_read :: "nat \<Rightarrow> go_error + string"
  of_Close :: "go_error option"

text \<open>Directories are named by their path below the root; \<open>tr_OpenDir\<close> opens, or creates, a subdirectory. \<open>tr_Reopen\<close> is
  the \<open>OpenFile\<close> right after a write, which may fail for a passing reason, such as a context that was cancelled
  meanwhile, although the file opens later.\<close>

record 'w trusted_root =
  tr_Snapshot :: "'w \<Rightarrow> go_error + root_snapshot"
  tr_OpenDir :: "string list \<Rightarrow> string \<Rightarrow> bool \<Rightarrow> 'w \<Rightarrow> go_error option \<times> 'w"
  tr_CloseDir :: "string list \<Rightarrow> 'w \<Rightarrow> go_error option"
  tr_OpenFile :: "string list \<Rightarrow> string \<Rightarrow> 'w \<Rightarrow> go_error + open_file"
  tr_Reopen :: "string list \<Rightarrow> string \<Rightarrow> 'w \<Rightarrow> go_error + open_file"
  tr_WriteFile :: "string list \<Rightarrow> string \<Rightarrow> string \<Rightarrow> string option \<Rightarrow> 'w \<Rightarrow> go_error option \<times> 'w"

text \<open>\<open>unixJournalFiles\<close>, with SHA-256 in hexadecimal.\<close>

record 'w unix_files =
  uf_root :: "'w trusted_root"
  uf_path :: string
  uf_identity :: string
  uf_boot :: string
  uf_sha256 :: "string \<Rightarrow> string"

definition ErrPermission :: go_error where
  "ErrPermission = Opaque ''permission denied''"

definition ErrIdentityMismatch :: go_error where
  "ErrIdentityMismatch = Opaque ''identity mismatch''"

section \<open>Paths\<close>

definition installJournalPathAllowed :: "string \<Rightarrow> bool" where
  "installJournalPathAllowed path \<longleftrightarrow>
     path = installJournalFileName \<or>
     (case split_on (CHR ''/'') path of
        [d, i, n] \<Rightarrow> d = ''transactions'' \<and> validTransactionID i \<and>
          n \<in> {''transaction-id'', ''unit'', ''unit-bootstrap'', ''ready.json'', ''validation-launch.json''}
      | _ \<Rightarrow> False)"

definition root_trusted :: "nat \<Rightarrow> nat \<Rightarrow> bool" where
  "root_trusted owner mode \<longleftrightarrow> owner = 0 \<and> (mode = 457 \<or> mode = 448)"

definition NewInstallJournalStore ::
  "'w trusted_root option \<Rightarrow> (go_error + string) \<Rightarrow> (string \<Rightarrow> string) \<Rightarrow> 'w \<Rightarrow> go_error + 'w unix_files" where
  "NewInstallJournalStore root boot sha w =
     (case root of
        None \<Rightarrow> Inl ErrInvalid
      | Some tr \<Rightarrow>
          (case tr_Snapshot tr w of
             Inl e \<Rightarrow> Inl e
           | Inr sn \<Rightarrow>
               if \<not> root_trusted (sn_Owner sn) (sn_Mode sn) \<or> sn_Path sn = [] then Inl ErrPermission
               else (case boot of
                 Inl e \<Rightarrow> Inl e
               | Inr b \<Rightarrow> Inr \<lparr>uf_root = tr, uf_path = sn_Path sn, uf_identity = sn_Identity sn, uf_boot = b, uf_sha256 = sha\<rparr>)))"

definition check_root :: "'w unix_files \<Rightarrow> 'w \<Rightarrow> go_error option" where
  "check_root f w =
     (case tr_Snapshot (uf_root f) w of
        Inl e \<Rightarrow> Some e
      | Inr sn \<Rightarrow>
          if sn_Path sn \<noteq> uf_path f \<or> sn_Identity sn \<noteq> uf_identity f \<or> \<not> root_trusted (sn_Owner sn) (sn_Mode sn)
          then Some ErrPermission else None)"

text \<open>The loop of \<open>parent\<close>: the directory before is closed unless it is the root.\<close>

fun open_dirs :: "'w trusted_root \<Rightarrow> bool \<Rightarrow> string list \<Rightarrow> string list \<Rightarrow> 'w \<Rightarrow> (go_error + string list) \<times> 'w" where
  "open_dirs tr create current [] w = (Inr current, w)"
| "open_dirs tr create current (part # parts) w =
     (case tr_OpenDir tr current part create w of
        (open_err, w1) \<Rightarrow>
          let err = (if current = [] then open_err else errors_join [open_err, tr_CloseDir tr current w1]) in
          (case err of
             None \<Rightarrow> open_dirs tr create (current @ [part]) parts w1
           | Some e \<Rightarrow>
               if open_err = None
               then (Inl (case errors_join [Some e, tr_CloseDir tr (current @ [part]) w1] of None \<Rightarrow> e | Some e' \<Rightarrow> e'), w1)
               else (Inl e, w1)))"

text \<open>\<open>parent\<close>: the directory of a path and the name in it.\<close>

definition parent_dir :: "'w unix_files \<Rightarrow> string \<Rightarrow> bool \<Rightarrow> 'w \<Rightarrow> (go_error + string list \<times> string) \<times> 'w" where
  "parent_dir f path create w =
     (case check_root f w of
        Some e \<Rightarrow> (Inl e, w)
      | None \<Rightarrow>
          if \<not> installJournalPathAllowed path then (Inl ErrInvalid, w)
          else if path = installJournalFileName then (Inr ([], path), w)
          else let parts = split_on (CHR ''/'') path in
            (case open_dirs (uf_root f) create [] (butlast parts) w of
               (r, w1) \<Rightarrow> (map_sum id (\<lambda>dirs. (dirs, last parts)) r, w1)))"

definition closeParent :: "'w unix_files \<Rightarrow> string list \<Rightarrow> 'w \<Rightarrow> go_error option" where
  "closeParent f dirs w = (if dirs = [] then None else tr_CloseDir (uf_root f) dirs w)"

section \<open>Reading\<close>

definition readInstallFile :: "open_file \<Rightarrow> nat \<Rightarrow> go_error + string" where
  "readInstallFile file limit =
     (if limit = 0 then Inl ErrInvalid
      else case of_read file (limit + 1) of
          Inl e \<Rightarrow> Inl e
        | Inr raw \<Rightarrow> if length raw > limit then Inl bad_journal else Inr raw)"

definition mountID :: "'w unix_files \<Rightarrow> string" where
  "mountID f = (case cut (CHR ''@'') (uf_identity f) of None \<Rightarrow> [] | Some (_, rest) \<Rightarrow> rest)"

definition observe_file :: "'w unix_files \<Rightarrow> open_file \<Rightarrow> string \<Rightarrow> go_error + journal_object" where
  "observe_file f file name =
     (case readInstallFile file MaxInstallJournalBytes of
        Inl e \<Rightarrow> Inl e
      | Inr raw \<Rightarrow>
          (let (dev, ino) = (case cut (CHR '':'') (of_Key file) of None \<Rightarrow> (of_Key file, []) | Some di \<Rightarrow> di) in
           Inr \<lparr>jo_Present = True, jo_SHA256 = uf_sha256 f raw, jo_Dev = dev, jo_Ino = ino, jo_MountID = mountID f,
             jo_BootID = uf_boot f, jo_Marker = (if has_suffix name ''/transaction-id'' then raw else []), jo_Identity = of_Key file\<rparr>))"

text \<open>A deferred close: its error joins the result.\<close>

definition join_close :: "(go_error + 'a) \<Rightarrow> go_error option \<Rightarrow> go_error + 'a" where
  "join_close r close_err =
     (case r of
        Inl e \<Rightarrow> Inl (case errors_join [Some e, close_err] of None \<Rightarrow> e | Some e' \<Rightarrow> e')
      | Inr x \<Rightarrow> (case errors_join [None, close_err] of None \<Rightarrow> Inr x | Some e \<Rightarrow> Inl e))"

definition unix_inspect :: "'w unix_files \<Rightarrow> string \<Rightarrow> 'w \<Rightarrow> go_error + journal_object" where
  "unix_inspect f name w =
     (case fst (parent_dir f name False w) of
        Inl e \<Rightarrow> if error_is ErrNotExist e then Inr no_object else Inl e
      | Inr (dirs, fileName) \<Rightarrow>
          join_close
            (case tr_OpenFile (uf_root f) dirs fileName w of
               Inl e \<Rightarrow> if error_is ErrNotExist e then Inr no_object else Inl e
             | Inr file \<Rightarrow> join_close (observe_file f file name) (of_Close file))
            (closeParent f dirs w))"

definition unix_read :: "'w unix_files \<Rightarrow> string \<Rightarrow> nat \<Rightarrow> 'w \<Rightarrow> go_error + string" where
  "unix_read f name limit w =
     (case fst (parent_dir f name False w) of
        Inl e \<Rightarrow> Inl e
      | Inr (dirs, fileName) \<Rightarrow>
          join_close
            (case tr_OpenFile (uf_root f) dirs fileName w of
               Inl e \<Rightarrow> Inl e
             | Inr file \<Rightarrow> join_close (readInstallFile file limit) (of_Close file))
            (closeParent f dirs w))"

section \<open>Writing\<close>

text \<open>The file that a write may replace: \<open>None\<close> when there must be none.\<close>

definition expected_file :: "'w unix_files \<Rightarrow> string list \<Rightarrow> string \<Rightarrow> journal_object \<Rightarrow> 'w \<Rightarrow> go_error + string option" where
  "expected_file f dirs name want w =
     (case tr_OpenFile (uf_root f) dirs name w of
        Inl e \<Rightarrow> if error_is ErrNotExist e \<and> \<not> jo_Present want then Inr None else Inl e
      | Inr file \<Rightarrow>
          (case observe_file f file name of
             Inl e \<Rightarrow> Inl e
           | Inr observed \<Rightarrow>
               if jo_Present want \<and> jo_SHA256 observed \<noteq> jo_SHA256 want then Inl ErrIdentityMismatch
               else if jo_Present want \<and> jo_BootID want = uf_boot f \<and> jo_Identity want \<noteq> jo_Identity observed
               then Inl ErrIdentityMismatch
               else Inr (Some (of_Key file))))"

definition inspectPublished :: "'w unix_files \<Rightarrow> string list \<Rightarrow> string \<Rightarrow> string \<Rightarrow> 'w \<Rightarrow> go_error + journal_object" where
  "inspectPublished f dirs fileName name w =
     (case tr_Reopen (uf_root f) dirs fileName w of
        Inl e \<Rightarrow> Inl e
      | Inr file \<Rightarrow> observe_file f file name)"

definition object_of :: "(go_error + journal_object) \<Rightarrow> journal_object" where
  "object_of r = (case r of Inl _ \<Rightarrow> no_object | Inr x \<Rightarrow> x)"

text \<open>The result of a write, from the outcome of the write and of the inspection after it.\<close>

definition write_result :: "'w unix_files \<Rightarrow> string \<Rightarrow> go_error option \<Rightarrow> (go_error + journal_object) \<Rightarrow> durability \<times> go_error option" where
  "write_result f data write_err actual =
     (let published = (case actual of Inl _ \<Rightarrow> False | Inr x \<Rightarrow> jo_Present x \<and> jo_SHA256 x = uf_sha256 f data) in
      case write_err of
        Some e \<Rightarrow> (\<lparr>du_Published = published, du_Durable = False, du_Object = object_of actual\<rparr>, Some e)
      | None \<Rightarrow>
          (case actual of
             Inl e \<Rightarrow> (\<lparr>du_Published = True, du_Durable = False, du_Object = object_of actual\<rparr>, Some e)
           | Inr x \<Rightarrow> (\<lparr>du_Published = True, du_Durable = True, du_Object = x\<rparr>, None)))"

definition unix_write ::
  "'w unix_files \<Rightarrow> string \<Rightarrow> string \<Rightarrow> journal_object \<Rightarrow> 'w \<Rightarrow> (durability \<times> go_error option) \<times> 'w" where
  "unix_write f name data want w =
     (case parent_dir f name True w of
        (Inl e, w1) \<Rightarrow> ((not_written, Some e), w1)
      | (Inr (dirs, fileName), w1) \<Rightarrow>
          (let ((dur, err), w2) =
             (case expected_file f dirs fileName want w1 of
                Inl e \<Rightarrow> ((not_written, Some e), w1)
              | Inr expected \<Rightarrow>
                  (case tr_WriteFile (uf_root f) dirs fileName data expected w1 of
                     (write_err, w2) \<Rightarrow> (write_result f data write_err (inspectPublished f dirs fileName name w2), w2)))
           in ((dur, errors_join [err, closeParent f dirs w2]), w2)))"

definition unixJournalFiles :: "'w unix_files \<Rightarrow> 'w journal_files" where
  "unixJournalFiles f = \<lparr>jf_inspect = unix_inspect f, jf_read = unix_read f, jf_write = unix_write f\<rparr>"

section \<open>The laws\<close>

text \<open>
  What the journal needs of a trusted directory. A file that opens can be read, whatever the limit, and
  closed. A write below the root itself replaces the file by its data, if it reports no error, and leaves it or
  replaces it otherwise. It changes no other file and no directory. Opening the file right after it gives
  this file or fails. Opening a directory without leave to create it changes nothing.
\<close>

definition file_holds :: "string \<Rightarrow> go_error + open_file \<Rightarrow> bool" where
  "file_holds data r \<longleftrightarrow> (case r of Inl _ \<Rightarrow> False | Inr file \<Rightarrow> (\<forall>n. of_read file n = Inr (take n data)) \<and> of_Close file = None)"

definition lawful_root :: "'w trusted_root \<Rightarrow> bool" where
  "lawful_root tr \<longleftrightarrow>
     (\<forall>dirs part w. snd (tr_OpenDir tr dirs part False w) = w) \<and>
     (\<forall>dirs n w fl. tr_OpenFile tr dirs n w = Inr fl \<longrightarrow> (\<exists>content. file_holds content (Inr fl))) \<and>
     (\<forall>dirs n w fl. tr_Reopen tr dirs n w = Inr fl \<longrightarrow> tr_OpenFile tr dirs n w = Inr fl) \<and>
     (\<forall>name data expected w err w'. tr_WriteFile tr [] name data expected w = (err, w') \<longrightarrow>
        tr_Snapshot tr w' = tr_Snapshot tr w \<and>
        (\<forall>dirs part. fst (tr_OpenDir tr dirs part False w') = fst (tr_OpenDir tr dirs part False w)) \<and>
        (\<forall>dirs. tr_CloseDir tr dirs w' = tr_CloseDir tr dirs w) \<and>
        (\<forall>dirs n. (dirs, n) \<noteq> ([], name) \<longrightarrow> tr_OpenFile tr dirs n w' = tr_OpenFile tr dirs n w) \<and>
        (tr_OpenFile tr [] name w' = tr_OpenFile tr [] name w \<or> file_holds data (tr_OpenFile tr [] name w')) \<and>
        (err = None \<longrightarrow> file_holds data (tr_OpenFile tr [] name w')))"

lemma lawful_rootD:
  assumes "lawful_root tr"
  shows "snd (tr_OpenDir tr dirs part False w) = w"
    "tr_OpenFile tr dirs n w = Inr fl \<Longrightarrow> \<exists>content. file_holds content (Inr fl)"
    "tr_Reopen tr dirs n w = Inr fl \<Longrightarrow> tr_OpenFile tr dirs n w = Inr fl"
  using assms by (simp_all add: lawful_root_def)

text \<open>Two contents with one digest are the same; the hash is what confirms a failed write as published.\<close>

definition collision_free :: "(string \<Rightarrow> string) \<Rightarrow> bool" where
  "collision_free sha \<longleftrightarrow> (\<forall>a b. sha a = sha b \<longrightarrow> a = b)"

text \<open>A write below the root leaves every directory as it is.\<close>

definition same_tree :: "'w trusted_root \<Rightarrow> 'w \<Rightarrow> 'w \<Rightarrow> bool" where
  "same_tree tr w w' \<longleftrightarrow> tr_Snapshot tr w' = tr_Snapshot tr w \<and>
     (\<forall>dirs part. fst (tr_OpenDir tr dirs part False w') = fst (tr_OpenDir tr dirs part False w)) \<and>
     (\<forall>dirs. tr_CloseDir tr dirs w' = tr_CloseDir tr dirs w)"

lemma open_dirs_world:
  assumes "lawful_root tr"
  shows "snd (open_dirs tr False current parts w) = w"
  using assms
proof (induction parts arbitrary: current)
  case (Cons part parts)
  have "snd (tr_OpenDir tr current part False w) = w" using Cons.prems by (simp add: lawful_root_def)
  then obtain e where e: "tr_OpenDir tr current part False w = (e, w)" by (metis prod.collapse)
  show ?case using Cons by (simp add: e Let_def split: option.splits)
qed simp

lemma open_dirs_same:
  assumes "lawful_root tr" "same_tree tr w w'"
  shows "fst (open_dirs tr False current parts w') = fst (open_dirs tr False current parts w)"
proof (induction parts arbitrary: current)
  case (Cons part parts)
  have "snd (tr_OpenDir tr current part False v) = v" for v using assms(1) by (simp add: lawful_root_def)
  then obtain e e' where e: "tr_OpenDir tr current part False w = (e, w)" "tr_OpenDir tr current part False w' = (e', w')"
    by (metis prod.collapse)
  then have "e' = e" using assms(2) by (auto simp: same_tree_def) (metis fst_conv)
  then show ?case using Cons assms(2) by (simp add: e same_tree_def Let_def split: option.splits)
qed simp

lemma parent_same:
  assumes "lawful_root (uf_root f)" "same_tree (uf_root f) w w'"
  shows "fst (parent_dir f path False w') = fst (parent_dir f path False w)"
proof -
  have "check_root f w' = check_root f w" using assms(2) by (simp add: check_root_def same_tree_def)
  then show ?thesis
    using open_dirs_same [OF assms] by (simp add: parent_dir_def Let_def case_prod_beta split: option.splits)
qed

text \<open>The journal itself lies in the root.\<close>

lemma parent_journal:
  "parent_dir f installJournalFileName create w =
     (case check_root f w of Some e \<Rightarrow> (Inl e, w) | None \<Rightarrow> (Inr ([], installJournalFileName), w))"
  by (simp add: parent_dir_def installJournalPathAllowed_def split: option.splits)

lemma parent_root:
  assumes "fst (parent_dir f path create w) = Inr ([], n)" "path \<noteq> installJournalFileName"
  shows "n \<noteq> installJournalFileName"
proof -
  obtain d i m where p: "split_on (CHR ''/'') path = [d, i, m]" and
    m: "m \<in> {''transaction-id'', ''unit'', ''unit-bootstrap'', ''ready.json'', ''validation-launch.json''}"
    using assms by (auto simp: parent_dir_def installJournalPathAllowed_def split: option.splits if_splits list.splits)
  have "n = m" using assms p
    by (auto simp: parent_dir_def Let_def case_prod_beta map_sum_def split: option.splits if_splits sum.splits)
  then show ?thesis using m by (auto simp: installJournalFileName_def)
qed

lemma write_result_laws:
  "write_result f data write_err actual = (d, err) \<Longrightarrow>
     (du_Durable d \<longrightarrow> du_Published d) \<and> (err = None \<longrightarrow> du_Durable d) \<and> (err = None \<longrightarrow> write_err = None) \<and>
     (du_Published d \<longrightarrow> write_err = None \<or> (\<exists>x. actual = Inr x \<and> jo_SHA256 x = uf_sha256 f data))"
  by (auto simp: write_result_def Let_def split: option.splits sum.splits)

lemma holds_read:
  assumes "file_holds data (tr_OpenFile (uf_root f) [] installJournalFileName w)" "check_root f w = None"
    "length data \<le> bound" "0 < bound"
  shows "unix_read f installJournalFileName bound w = Inr data"
proof -
  obtain fl where fl: "tr_OpenFile (uf_root f) [] installJournalFileName w = Inr fl"
    "of_read fl (bound + 1) = Inr (take (bound + 1) data)" "of_Close fl = None"
    using assms(1) by (auto simp: file_holds_def split: sum.splits)
  have "take (bound + 1) data = data" using assms(3) by simp
  then show ?thesis using fl assms(2,3,4)
    by (simp add: unix_read_def parent_journal readInstallFile_def join_close_def closeParent_def)
qed

text \<open>The digest that confirms a write: the file holds the data.\<close>

lemma observed_data:
  assumes "lawful_root (uf_root f)" "collision_free (uf_sha256 f)"
    and "inspectPublished f [] n n w = Inr x" "jo_SHA256 x = uf_sha256 f data"
  shows "file_holds data (tr_OpenFile (uf_root f) [] n w)"
proof -
  obtain fl raw where fl: "tr_Reopen (uf_root f) [] n w = Inr fl" "readInstallFile fl MaxInstallJournalBytes = Inr raw"
    "jo_SHA256 x = uf_sha256 f raw"
    using assms(3) by (auto simp: inspectPublished_def observe_file_def Let_def split: sum.splits prod.splits)
  have op: "tr_OpenFile (uf_root f) [] n w = Inr fl" using lawful_rootD(3) [OF assms(1) fl(1)] .
  obtain content where c: "file_holds content (Inr fl)" using lawful_rootD(2) [OF assms(1) op] by blast
  have "of_read fl (MaxInstallJournalBytes + 1) = Inr (take (MaxInstallJournalBytes + 1) content)"
    using c by (simp add: file_holds_def)
  then have "raw = take (MaxInstallJournalBytes + 1) content" "length raw \<le> MaxInstallJournalBytes"
    using fl(2) by (simp_all add: readInstallFile_def split: if_splits)
  then have "raw = content" by (metis Suc_eq_plus1 length_take min.absorb2 not_less_eq_eq take_all_iff nat_le_linear)
  moreover have "raw = data" using assms(2,4) fl(3) by (simp add: collision_free_def)
  ultimately show ?thesis using c op by simp
qed

lemma write_same_tree: "lawful_root tr \<Longrightarrow> tr_WriteFile tr [] n data e w = (err, w') \<Longrightarrow> same_tree tr w w'"
  unfolding lawful_root_def same_tree_def by blast

lemma unix_other_files:
  assumes "lawful_root (uf_root f)" "tr_WriteFile (uf_root f) [] installJournalFileName data e w = (err, w')"
    and "n \<noteq> installJournalFileName"
  shows "unix_read f n bound w' = unix_read f n bound w" "unix_inspect f n w' = unix_inspect f n w"
proof -
  note st = write_same_tree [OF assms(1,2)]
  note p = parent_same [OF assms(1) st, of n]
  have o: "tr_OpenFile (uf_root f) dirs m w' = tr_OpenFile (uf_root f) dirs m w"
    if "fst (parent_dir f n False w) = Inr (dirs, m)" for dirs m
  proof -
    have "(dirs, m) \<noteq> ([], installJournalFileName)" using parent_root [of f n False w m] that assms(3) by blast
    then show ?thesis using assms(1,2) unfolding lawful_root_def by blast
  qed
  have c: "closeParent f dirs w' = closeParent f dirs w" for dirs using st by (simp add: closeParent_def same_tree_def)
  show "unix_read f n bound w' = unix_read f n bound w" "unix_inspect f n w' = unix_inspect f n w"
    unfolding unix_read_def unix_inspect_def p
    by (cases "fst (parent_dir f n False w)"; simp add: c o split: prod.splits)+
qed

text \<open>The files of \<open>install_journal_unix.go\<close> keep the laws of the journal.\<close>

lemma unix_files_lawful:
  assumes root: "lawful_root (uf_root f)" and sha: "collision_free (uf_sha256 f)"
  shows "lawful_files (unixJournalFiles f)"
proof -
  let ?n = installJournalFileName
  have "(du_Durable d \<longrightarrow> du_Published d) \<and> (err = None \<longrightarrow> du_Durable d) \<and>
      (\<forall>bound > 0. du_Published d \<and> length raw \<le> bound \<longrightarrow> unix_read f ?n bound w' = Inr raw) \<and>
      ((\<forall>bound. unix_read f ?n bound w' = unix_read f ?n bound w) \<or>
       (\<forall>bound > 0. length raw \<le> bound \<longrightarrow> unix_read f ?n bound w' = Inr raw)) \<and>
      (\<forall>n. n \<noteq> ?n \<longrightarrow> (\<forall>bound. unix_read f n bound w' = unix_read f n bound w) \<and> unix_inspect f n w' = unix_inspect f n w)"
    if wr: "unix_write f ?n raw old w = ((d, err), w')" for raw old w d err w'
  proof -
    consider (refused) "d = not_written" "err \<noteq> None" "w' = w"
      | (wrote) expected write_err e where "check_root f w = None" "tr_WriteFile (uf_root f) [] ?n raw expected w = (write_err, w')"
          "write_result f raw write_err (inspectPublished f [] ?n ?n w') = (d, e)" "err = errors_join [e, None]"
    proof (cases "check_root f w")
      case None
      then show ?thesis using wr refused wrote
        by (auto simp: unix_write_def parent_journal closeParent_def split: sum.splits prod.splits)
    next
      case (Some e)
      then have "((not_written, Some e), w) = ((d, err), w')" using wr by (simp add: unix_write_def parent_journal)
      then show ?thesis using refused by blast
    qed
    then show ?thesis
    proof cases
      case refused
      then show ?thesis by (simp add: not_written_def)
    next
      case wrote
      note laws = write_result_laws [OF wrote(3)]
      have st: "same_tree (uf_root f) w w'" by (rule write_same_tree [OF root wrote(2)])
      then have ch: "check_root f w' = None" using wrote(1) by (simp add: check_root_def same_tree_def)
      have ok: "write_err = None \<Longrightarrow> file_holds raw (tr_OpenFile (uf_root f) [] ?n w')"
        and either: "tr_OpenFile (uf_root f) [] ?n w' = tr_OpenFile (uf_root f) [] ?n w \<or>
          file_holds raw (tr_OpenFile (uf_root f) [] ?n w')"
        using root wrote(2) unfolding lawful_root_def by blast+
      have rd: "unix_read f ?n bound w' = Inr raw"
        if "file_holds raw (tr_OpenFile (uf_root f) [] ?n w')" "length raw \<le> bound" "0 < bound" for bound
        by (rule holds_read [OF that(1) ch that(2,3)])
      have pub: "file_holds raw (tr_OpenFile (uf_root f) [] ?n w')" if "du_Published d"
        using laws that ok observed_data [OF root sha] by blast
      have keep: "unix_read f ?n bound w' = unix_read f ?n bound w"
        if "tr_OpenFile (uf_root f) [] ?n w' = tr_OpenFile (uf_root f) [] ?n w" for bound
        using that wrote(1) ch by (simp add: unix_read_def parent_journal closeParent_def)
      have "err = None \<longrightarrow> du_Durable d" using laws wrote(4) by (auto simp: errors_join_None_iff)
      moreover have "(\<forall>bound. unix_read f ?n bound w' = unix_read f ?n bound w) \<or>
          (\<forall>bound > 0. length raw \<le> bound \<longrightarrow> unix_read f ?n bound w' = Inr raw)"
        using either keep rd by blast
      ultimately show ?thesis using laws pub rd unix_other_files [OF root wrote(2)] by blast
    qed
  qed
  then show ?thesis unfolding lawful_files_def unixJournalFiles_def by simp
qed

end
