(* ===== verification/Core_Store.thy ===== *)
theory Core_Store
  imports Installation Operations "HOL-Library.AList"
begin

text \<open>
  The private file store of core updates: \<open>internal/core/update_roles.go\<close>,
  \<open>update_files.go\<close>, \<open>update_files_unix.go\<close>, \<open>update_files_windows.go\<close>,
  \<open>startup_cleanup_files.go\<close> and the object part of \<open>provenance_pair.go\<close>. A world holds the
  tree under the store's root. Every system call takes the next answer of a list of faults, so
  that a statement for all lists covers every pattern of failures; the trees a run passes through
  are kept, so that a statement about all of them covers a crash at any point.

  The root is private to the daemon and its users hold the execution gate: between two calls of
  an operation nobody else changes the tree. Where the code compares two observations of the
  same file, a difference is one of the answers of the fault list.
\<close>

section \<open>Errors\<close>

text \<open>\<open>os.ErrPermission\<close>.\<close>

definition ErrPermission :: go_error where
  "ErrPermission = Opaque ''permission denied''"

definition dataFailure :: "string \<Rightarrow> go_error" where
  "dataFailure message = Api (api CodeDataFailure message)"

definition dataFailureCause :: "string \<Rightarrow> go_error \<Rightarrow> go_error" where
  "dataFailureCause message cause = Failure (api CodeDataFailure message) (Some cause)"

section \<open>Objects and roles\<close>

record prov_object =
  po_Present :: bool
  po_SHA256 :: string
  po_Identity :: string
  po_BootID :: string

definition absent_object :: prov_object where
  "absent_object = \<lparr>po_Present = False, po_SHA256 = [], po_Identity = [], po_BootID = []\<rparr>"

record prov_mutation =
  pm_Role :: string
  pm_Source :: string
  pm_Transaction :: string
  pm_Expected :: prov_object
  pm_SourceExpected :: prov_object

definition InstalledBinary :: string where "InstalledBinary = ''binary''"
definition PairJournal :: string where "PairJournal = ''journal''"
definition UpdateJournal :: string where "UpdateJournal = ''update_journal''"
definition UpdateCandidate :: string where "UpdateCandidate = ''update_candidate''"
definition UpdateBackup :: string where "UpdateBackup = ''update_backup''"
definition UpdateRestore :: string where "UpdateRestore = ''update_restore''"
definition UpdateMarker :: string where "UpdateMarker = ''update_marker''"
definition UpdateInterrupted :: string where "UpdateInterrupted = ''update_interrupted''"
definition UpdateCleanup :: string where "UpdateCleanup = ''update_cleanup''"

lemmas role_defs = InstalledBinary_def PairJournal_def UpdateJournal_def UpdateCandidate_def UpdateBackup_def
  UpdateRestore_def UpdateMarker_def UpdateInterrupted_def UpdateCleanup_def

lemma role_neq [simp]:
  "InstalledBinary \<noteq> PairJournal" "InstalledBinary \<noteq> UpdateJournal" "InstalledBinary \<noteq> UpdateCandidate" "InstalledBinary \<noteq> UpdateBackup" "InstalledBinary \<noteq> UpdateRestore" "InstalledBinary \<noteq> UpdateMarker" "InstalledBinary \<noteq> UpdateInterrupted" "InstalledBinary \<noteq> UpdateCleanup" "InstalledBinary \<noteq> []" "[] \<noteq> InstalledBinary"
  "PairJournal \<noteq> InstalledBinary" "PairJournal \<noteq> UpdateJournal" "PairJournal \<noteq> UpdateCandidate" "PairJournal \<noteq> UpdateBackup" "PairJournal \<noteq> UpdateRestore" "PairJournal \<noteq> UpdateMarker" "PairJournal \<noteq> UpdateInterrupted" "PairJournal \<noteq> UpdateCleanup" "PairJournal \<noteq> []" "[] \<noteq> PairJournal"
  "UpdateJournal \<noteq> InstalledBinary" "UpdateJournal \<noteq> PairJournal" "UpdateJournal \<noteq> UpdateCandidate" "UpdateJournal \<noteq> UpdateBackup" "UpdateJournal \<noteq> UpdateRestore" "UpdateJournal \<noteq> UpdateMarker" "UpdateJournal \<noteq> UpdateInterrupted" "UpdateJournal \<noteq> UpdateCleanup" "UpdateJournal \<noteq> []" "[] \<noteq> UpdateJournal"
  "UpdateCandidate \<noteq> InstalledBinary" "UpdateCandidate \<noteq> PairJournal" "UpdateCandidate \<noteq> UpdateJournal" "UpdateCandidate \<noteq> UpdateBackup" "UpdateCandidate \<noteq> UpdateRestore" "UpdateCandidate \<noteq> UpdateMarker" "UpdateCandidate \<noteq> UpdateInterrupted" "UpdateCandidate \<noteq> UpdateCleanup" "UpdateCandidate \<noteq> []" "[] \<noteq> UpdateCandidate"
  "UpdateBackup \<noteq> InstalledBinary" "UpdateBackup \<noteq> PairJournal" "UpdateBackup \<noteq> UpdateJournal" "UpdateBackup \<noteq> UpdateCandidate" "UpdateBackup \<noteq> UpdateRestore" "UpdateBackup \<noteq> UpdateMarker" "UpdateBackup \<noteq> UpdateInterrupted" "UpdateBackup \<noteq> UpdateCleanup" "UpdateBackup \<noteq> []" "[] \<noteq> UpdateBackup"
  "UpdateRestore \<noteq> InstalledBinary" "UpdateRestore \<noteq> PairJournal" "UpdateRestore \<noteq> UpdateJournal" "UpdateRestore \<noteq> UpdateCandidate" "UpdateRestore \<noteq> UpdateBackup" "UpdateRestore \<noteq> UpdateMarker" "UpdateRestore \<noteq> UpdateInterrupted" "UpdateRestore \<noteq> UpdateCleanup" "UpdateRestore \<noteq> []" "[] \<noteq> UpdateRestore"
  "UpdateMarker \<noteq> InstalledBinary" "UpdateMarker \<noteq> PairJournal" "UpdateMarker \<noteq> UpdateJournal" "UpdateMarker \<noteq> UpdateCandidate" "UpdateMarker \<noteq> UpdateBackup" "UpdateMarker \<noteq> UpdateRestore" "UpdateMarker \<noteq> UpdateInterrupted" "UpdateMarker \<noteq> UpdateCleanup" "UpdateMarker \<noteq> []" "[] \<noteq> UpdateMarker"
  "UpdateInterrupted \<noteq> InstalledBinary" "UpdateInterrupted \<noteq> PairJournal" "UpdateInterrupted \<noteq> UpdateJournal" "UpdateInterrupted \<noteq> UpdateCandidate" "UpdateInterrupted \<noteq> UpdateBackup" "UpdateInterrupted \<noteq> UpdateRestore" "UpdateInterrupted \<noteq> UpdateMarker" "UpdateInterrupted \<noteq> UpdateCleanup" "UpdateInterrupted \<noteq> []" "[] \<noteq> UpdateInterrupted"
  "UpdateCleanup \<noteq> InstalledBinary" "UpdateCleanup \<noteq> PairJournal" "UpdateCleanup \<noteq> UpdateJournal" "UpdateCleanup \<noteq> UpdateCandidate" "UpdateCleanup \<noteq> UpdateBackup" "UpdateCleanup \<noteq> UpdateRestore" "UpdateCleanup \<noteq> UpdateMarker" "UpdateCleanup \<noteq> UpdateInterrupted" "UpdateCleanup \<noteq> []" "[] \<noteq> UpdateCleanup"
  by (simp_all add: role_defs)

text \<open>Lower-case hexadecimal of 32 and of 16 bytes.\<close>

definition validHash :: "string \<Rightarrow> bool" where
  "validHash s = (case hex_decode s of None \<Rightarrow> False | Some b \<Rightarrow> length b = 32 \<and> hex_encode b = s)"

definition validTransaction :: "string \<Rightarrow> bool" where
  "validTransaction tx = (case hex_decode tx of None \<Rightarrow> False | Some b \<Rightarrow> length b = 16 \<and> hex_encode b = tx)"

definition validProvenanceObject :: "prov_object \<Rightarrow> bool" where
  "validProvenanceObject x =
     (if \<not> po_Present x then po_SHA256 x = [] \<and> po_Identity x = [] \<and> po_BootID x = []
      else validHash (po_SHA256 x) \<and> po_Identity x \<noteq> [] \<and> po_BootID x \<noteq> [])"

definition sameObject :: "prov_object \<Rightarrow> prov_object \<Rightarrow> bool" where
  "sameObject a b =
     (if \<not> po_Present a \<or> \<not> po_Present b then po_Present a = po_Present b
      else if po_SHA256 a \<noteq> po_SHA256 b then False
      else po_BootID a \<noteq> po_BootID b \<or> po_Identity a = po_Identity b)"

type_synonym path = "string list"

text \<open>Slash-separated and native paths are lists of components; modes are numbers.\<close>

definition updateRolePath :: "string \<Rightarrow> string \<Rightarrow> go_error + path \<times> nat" where
  "updateRolePath role transaction =
     (if role = UpdateJournal then
        (if transaction \<noteq> [] then Inl ErrInvalid
         else Inr ([''staging'', ''core'', ''update-journal.json''], 384))
      else if \<not> validTransaction transaction then Inl ErrInvalid
      else
        let at = (\<lambda>name mode. Inr ([''staging'', ''core'', ''update'', transaction, name], mode)) in
        if role = UpdateCandidate then at ''candidate-binary'' 448
        else if role = UpdateRestore then at ''restore-binary'' 448
        else if role = UpdateBackup then at ''backup-binary'' 384
        else if role = UpdateInterrupted then at ''interrupted-update.json'' 384
        else if role = UpdateCleanup then at ''pending-cleanup.json'' 384
        else if role = UpdateMarker then at ''transaction-id'' 384
        else Inl ErrInvalid)"

definition fileUpdatePath :: "string \<Rightarrow> string \<Rightarrow> string \<Rightarrow> go_error + path \<times> nat" where
  "fileUpdatePath goos role tx =
     (if role = InstalledBinary then
        Inr ([''bin'', if goos = ''windows'' then ''mihomo.exe'' else ''mihomo''], 448)
      else if role = PairJournal \<and> tx = [] then Inr ([''staging'', ''core'', ''provenance-commit.json''], 384)
      else case updateRolePath role tx of
        Inl e \<Rightarrow> Inl e
      | Inr (path, mode) \<Rightarrow>
          if goos = ''windows'' \<and> (role = UpdateCandidate \<or> role = UpdateRestore)
          then Inr (butlast path @ [last path @ ''.exe''], mode)
          else Inr (path, mode))"

section \<open>The tree and its calls\<close>

record reg_file =
  rf_content :: string
  rf_ident :: string
  rf_perm :: nat
  rf_links :: nat

datatype fnode = Dir | Reg reg_file | Other

type_synonym tree = "(path \<times> fnode) list"
type_synonym tree_map = "path \<rightharpoonup> fnode"

text \<open>A failing call comes with its message and the number of bytes it had transferred.\<close>

type_synonym fault = "(string \<times> nat) option"

text \<open>The execution gate remembers the installed core it has admitted. \<open>cw_fresh\<close> supplies the
  random names and the identities of new files, \<open>cw_seen\<close> holds the earlier trees,
  \<open>cw_channel\<close> the core channel and bundle of the settings file.\<close>

record cworld =
  cw_tree :: tree
  cw_seen :: "tree_map list"
  cw_faults :: "fault list"
  cw_fresh :: "string list"
  cw_installed :: prov_object
  cw_admitted :: bool
  cw_channel :: "string \<times> string"

record store_cfg =
  sc_goos :: string
  sc_sha256 :: "string \<Rightarrow> nat list"

definition digest :: "store_cfg \<Rightarrow> string \<Rightarrow> string" where
  "digest cfg b = hex_encode (sc_sha256 cfg b)"

definition ask :: "cworld \<Rightarrow> fault \<times> cworld" where
  "ask w = (case cw_faults w of [] \<Rightarrow> (None, w) | f # fs \<Rightarrow> (f, w\<lparr>cw_faults := fs\<rparr>))"

definition ask_err :: "cworld \<Rightarrow> go_error option \<times> cworld" where
  "ask_err w = (case ask w of (f, w1) \<Rightarrow> (map_option (\<lambda>(m, _). Opaque m) f, w1))"

definition call :: "(unit, cworld) io" where
  "call w = (case ask_err w of (None, w1) \<Rightarrow> (Inr (), w1) | (Some e, w1) \<Rightarrow> (Inl e, w1))"

text \<open>A comparison of two observations of one file.\<close>

definition unchanged :: "(unit, cworld) io" where
  "unchanged w = (case ask_err w of (None, w1) \<Rightarrow> (Inr (), w1) | (Some _, w1) \<Rightarrow> (Inl ErrPermission, w1))"

text \<open>\<open>ctx.Err()\<close>; a context made by \<open>context.WithoutCancel\<close> has none.\<close>

definition ctx_err :: "bool \<Rightarrow> (unit, cworld) io" where
  "ctx_err cancellable w =
     (if \<not> cancellable then (Inr (), w)
      else case ask_err w of (None, w1) \<Rightarrow> (Inr (), w1) | (Some _, w1) \<Rightarrow> (Inl Canceled, w1))"

definition fresh_name :: "(string, cworld) io" where
  "fresh_name w =
     (case cw_fresh w of [] \<Rightarrow> (Inr ''0'', w) | n # ns \<Rightarrow> (Inr n, w\<lparr>cw_fresh := ns\<rparr>))"

abbreviation nodes :: "cworld \<Rightarrow> tree_map" where
  "nodes w \<equiv> map_of (cw_tree w)"

definition set_tree :: "tree \<Rightarrow> cworld \<Rightarrow> cworld" where
  "set_tree t w = w\<lparr>cw_tree := t, cw_seen := nodes w # cw_seen w\<rparr>"

text \<open>The entries of a directory, in the order of the tree. The root \<open>[]\<close> is a directory.\<close>

definition entries_of :: "path \<Rightarrow> tree \<Rightarrow> string list" where
  "entries_of dir t = remdups (map (last \<circ> fst) (filter (\<lambda>(p, _). p \<noteq> [] \<and> butlast p = dir) t))"

definition is_dir :: "tree_map \<Rightarrow> path \<Rightarrow> bool" where
  "is_dir t p \<longleftrightarrow> p = [] \<or> t p = Some Dir"

definition lstat :: "path \<Rightarrow> (fnode, cworld) io" where
  "lstat p = bindE call (\<lambda>_. \<lambda>w. case nodes w p of None \<Rightarrow> (Inl ErrNotExist, w) | Some n \<Rightarrow> (Inr n, w))"

definition mkdir :: "path \<Rightarrow> (unit, cworld) io" where
  "mkdir p = bindE call (\<lambda>_. \<lambda>w.
     if nodes w p \<noteq> None \<or> p = [] then (Inl ErrExist, w)
     else if \<not> is_dir (nodes w) (butlast p) then (Inl ErrNotExist, w)
     else (Inr (), set_tree (AList.update p Dir (cw_tree w)) w))"

definition remove_path :: "path \<Rightarrow> (unit, cworld) io" where
  "remove_path p = bindE call (\<lambda>_. \<lambda>w.
     case nodes w p of
       None \<Rightarrow> (Inl ErrNotExist, w)
     | Some n \<Rightarrow>
         if n = Dir \<and> entries_of p (cw_tree w) \<noteq> [] then (Inl (Opaque ''directory not empty''), w)
         else (Inr (), set_tree (AList.delete p (cw_tree w)) w))"

text \<open>Renaming, as the store uses it, for files only.\<close>

definition rename_path :: "path \<Rightarrow> path \<Rightarrow> (unit, cworld) io" where
  "rename_path src dst = bindE call (\<lambda>_. \<lambda>w.
     case nodes w src of
       None \<Rightarrow> (Inl ErrNotExist, w)
     | Some n \<Rightarrow>
         if \<not> is_dir (nodes w) (butlast dst) then (Inl ErrNotExist, w)
         else if n = Dir \<or> dst = [] \<or> nodes w dst = Some Dir then (Inl (Opaque ''is a directory''), w)
         else (Inr (), set_tree (AList.update dst n (AList.delete src (cw_tree w))) w))"

text \<open>\<open>syncUpdateDirectory\<close>: opening, syncing and closing the directory; nothing on Windows.\<close>

definition syncUpdateDirectory :: "store_cfg \<Rightarrow> (unit, cworld) io" where
  "syncUpdateDirectory cfg =
     (if sc_goos cfg = ''windows'' then ret () else bindE call (\<lambda>_. deferred call ask_err))"

text \<open>\<open>root\<close> and the deferred \<open>r.Close()\<close> that every method sets up after it.\<close>

definition open_root :: "bool \<Rightarrow> (unit, cworld) io" where
  "open_root c = bindE (ctx_err c) (\<lambda>_. bindE call (\<lambda>_. \<lambda>w.
     case ask_err w of
       (None, w1) \<Rightarrow> (Inr (), w1)
     | (Some e, w1) \<Rightarrow> (case ask_err w1 of (cl, w2) \<Rightarrow>
         (Inl (Joined (some_errors [Some ErrPermission, Some e, cl])), w2))))"

definition with_root :: "bool \<Rightarrow> ('a, cworld) io \<Rightarrow> ('a, cworld) io" where
  "with_root c body = bindE (open_root c) (\<lambda>_. deferred body ask_err)"

fun updateFileParent_from :: "bool \<Rightarrow> path \<Rightarrow> string list \<Rightarrow> (unit, cworld) io" where
  "updateFileParent_from create prefix [] = ret ()"
| "updateFileParent_from create prefix (part # parts) =
     bindE (tryE (lstat (prefix @ [part]))) (\<lambda>r.
     bindE (case r of
         Inr n \<Rightarrow> ret n
       | Inl e \<Rightarrow>
           if error_is ErrNotExist e \<and> create
           then bindE (tryE (mkdir (prefix @ [part]))) (\<lambda>m.
                  case m of
                    Inl e' \<Rightarrow> if error_is ErrExist e' then lstat (prefix @ [part]) else throw e'
                  | Inr _ \<Rightarrow> lstat (prefix @ [part]))
           else throw e) (\<lambda>n.
     bindE (guardE (n = Dir) ErrPermission) (\<lambda>_.
     updateFileParent_from create (prefix @ [part]) parts)))"

definition updateFileParent :: "path \<Rightarrow> bool \<Rightarrow> (unit, cworld) io" where
  "updateFileParent path create = updateFileParent_from create [] (butlast path)"

text \<open>One link, and on Unix not writable by group or others.\<close>

definition updateFileIdentity :: "store_cfg \<Rightarrow> reg_file \<Rightarrow> (string, cworld) io" where
  "updateFileIdentity cfg f = bindE call (\<lambda>_.
     if rf_links f \<noteq> 1 \<or> (sc_goos cfg \<noteq> ''windows'' \<and> (rf_perm f div 2 mod 2 = 1 \<or> rf_perm f div 16 mod 2 = 1))
     then throw ErrPermission else ret (rf_ident f))"

definition maxCoreBinarySize :: nat where
  "maxCoreBinarySize = 268435456"

text \<open>What the store reports of a file.\<close>

definition object_of :: "store_cfg \<Rightarrow> reg_file \<Rightarrow> prov_object" where
  "object_of cfg f = \<lparr>po_Present = True, po_SHA256 = digest cfg (rf_content f), po_Identity = rf_ident f,
     po_BootID = ''file-update-identity-v1''\<rparr>"

text \<open>\<open>readUpdateFile\<close>: the open file is read between two looks at it.\<close>

definition read_held :: "store_cfg \<Rightarrow> bool \<Rightarrow> path \<Rightarrow> reg_file \<Rightarrow> (string \<times> prov_object, cworld) io" where
  "read_held cfg c path f =
     bindE call (\<lambda>_.
     bindE unchanged (\<lambda>_.
     bindE (updateFileIdentity cfg f) (\<lambda>i.
     bindE call (\<lambda>_.
     bindE (guardE (length (rf_content f) \<le> maxCoreBinarySize) ErrInvalid) (\<lambda>_.
     bindE call (\<lambda>_.
     bindE (lstat path) (\<lambda>_.
     bindE unchanged (\<lambda>_.
     bindE (ctx_err c) (\<lambda>_.
     ret (rf_content f, object_of cfg (f\<lparr>rf_ident := i\<rparr>)))))))))))"

definition readUpdateFile :: "store_cfg \<Rightarrow> bool \<Rightarrow> path \<Rightarrow> (string \<times> prov_object, cworld) io" where
  "readUpdateFile cfg c path =
     bindE (updateFileParent path False) (\<lambda>_.
     bindE (lstat path) (\<lambda>named.
     case named of
       Reg f \<Rightarrow>
         if length (rf_content f) > maxCoreBinarySize then throw ErrPermission
         else bindE call (\<lambda>_. deferred (read_held cfg c path f) ask_err)
     | _ \<Rightarrow> throw ErrPermission))"

section \<open>The methods of the store\<close>

definition at_path :: "store_cfg \<Rightarrow> string \<Rightarrow> string \<Rightarrow> (path \<Rightarrow> nat \<Rightarrow> ('a, cworld) io) \<Rightarrow> ('a, cworld) io" where
  "at_path cfg role tx f = (case fileUpdatePath (sc_goos cfg) role tx of Inl e \<Rightarrow> throw e | Inr (p, m) \<Rightarrow> f p m)"

definition store_Load :: "store_cfg \<Rightarrow> bool \<Rightarrow> string \<Rightarrow> string \<Rightarrow> (string, cworld) io" where
  "store_Load cfg c role tx = at_path cfg role tx (\<lambda>path _. with_root c (
     bindE (readUpdateFile cfg c path) (\<lambda>(body, _). ret body)))"

text \<open>The object at a path, absent when there is no file.\<close>

definition observe :: "store_cfg \<Rightarrow> bool \<Rightarrow> path \<Rightarrow> (prov_object, cworld) io" where
  "observe cfg c path = bindE (tryE (readUpdateFile cfg c path)) (\<lambda>r.
     case r of
       Inr (_, x) \<Rightarrow> ret x
     | Inl e \<Rightarrow> if error_is ErrNotExist e then ret absent_object else throw e)"

definition store_Inspect :: "store_cfg \<Rightarrow> bool \<Rightarrow> string \<Rightarrow> string \<Rightarrow> (prov_object, cworld) io" where
  "store_Inspect cfg c role tx = at_path cfg role tx (\<lambda>path _. with_root c (observe cfg c path))"

text \<open>Creating the temporary file, and writing, syncing and closing it.\<close>

definition create_excl :: "path \<Rightarrow> nat \<Rightarrow> (reg_file, cworld) io" where
  "create_excl p mode = bindE call (\<lambda>_. bindE fresh_name (\<lambda>i. \<lambda>w.
     if nodes w p \<noteq> None \<or> p = [] then (Inl ErrExist, w)
     else if \<not> is_dir (nodes w) (butlast p) then (Inl ErrNotExist, w)
     else
       let f = \<lparr>rf_content = [], rf_ident = i, rf_perm = mode, rf_links = 1\<rparr>
       in (Inr f, set_tree (AList.update p (Reg f) (cw_tree w)) w)))"

definition write_sync_close :: "path \<Rightarrow> reg_file \<Rightarrow> string \<Rightarrow> (unit, cworld) io" where
  "write_sync_close p f body w =
     (case ask w of (a, w1) \<Rightarrow>
       let n = (case a of None \<Rightarrow> length body | Some (_, k) \<Rightarrow> k);
           w2 = set_tree (AList.update p (Reg (f\<lparr>rf_content := take n body\<rparr>)) (cw_tree w1)) w1 in
       (case ask_err w2 of (s, w3) \<Rightarrow> (case ask_err w3 of (cl, w4) \<Rightarrow>
         (case errors_join [map_option (\<lambda>(m, _). Opaque m) a, s, cl] of
            None \<Rightarrow> (Inr (), w4) | Some e \<Rightarrow> (Inl e, w4)))))"

definition remove_temp :: "path \<Rightarrow> cworld \<Rightarrow> go_error option \<times> cworld" where
  "remove_temp p w =
     (case remove_path p w of
        (Inr _, w1) \<Rightarrow> (None, w1)
      | (Inl e, w1) \<Rightarrow> (if error_is ErrNotExist e then None else Some e, w1))"

text \<open>The deferred removal joins its error only when there is one.\<close>

definition removing :: "path \<Rightarrow> (unit, cworld) io \<Rightarrow> (unit, cworld) io" where
  "removing p m w =
     (case m w of (r, w1) \<Rightarrow>
       (case remove_temp p w1 of
          (None, w2) \<Rightarrow> (r, w2)
        | (Some c, w2) \<Rightarrow> (Inl (Joined (some_errors [case r of Inl e \<Rightarrow> Some e | Inr _ \<Rightarrow> None, Some c])), w2)))"

text \<open>\<open>Save\<close>: only the journal may be replaced.\<close>

definition save_allowed :: "string \<Rightarrow> path \<Rightarrow> (unit, cworld) io" where
  "save_allowed role path =
     bindE (updateFileParent path True) (\<lambda>_.
     bindE (tryE (lstat path)) (\<lambda>r.
     case r of
       Inr n \<Rightarrow> if role \<noteq> UpdateJournal then throw ErrExist
                else guardE (case n of Reg _ \<Rightarrow> True | _ \<Rightarrow> False) ErrPermission
     | Inl e \<Rightarrow> if error_is ErrNotExist e then ret () else throw e))"

definition save_replace :: "store_cfg \<Rightarrow> bool \<Rightarrow> path \<Rightarrow> path \<Rightarrow> reg_file \<Rightarrow> string \<Rightarrow> (unit, cworld) io" where
  "save_replace cfg c path tmp f body =
     bindE (write_sync_close tmp f body) (\<lambda>_.
     bindE (ctx_err c) (\<lambda>_.
     bindE (rename_path tmp path) (\<lambda>_.
     syncUpdateDirectory cfg)))"

definition save_content :: "store_cfg \<Rightarrow> bool \<Rightarrow> path \<Rightarrow> nat \<Rightarrow> string \<Rightarrow> (unit, cworld) io" where
  "save_content cfg c path mode body =
     bindE call (\<lambda>_.
     bindE fresh_name (\<lambda>random.
     let tmp = butlast path @ [''.core-'' @ random] in
     bindE (create_excl tmp mode) (\<lambda>f. removing tmp (save_replace cfg c path tmp f body))))"

definition store_Save :: "store_cfg \<Rightarrow> bool \<Rightarrow> string \<Rightarrow> string \<Rightarrow> string \<Rightarrow> (unit, cworld) io" where
  "store_Save cfg c role tx body =
     (if length body > maxCoreBinarySize \<or> role = InstalledBinary \<or> role = PairJournal then throw ErrInvalid
      else at_path cfg role tx (\<lambda>path mode. with_root c (
        bindE (save_allowed role path) (\<lambda>_. save_content cfg c path mode body))))"

text \<open>\<open>Apply\<close>: the part that moves a source over the installed binary, and the whole.\<close>

definition apply_move :: "store_cfg \<Rightarrow> bool \<Rightarrow> prov_mutation \<Rightarrow> path \<Rightarrow> (unit, cworld) io" where
  "apply_move cfg c a path = at_path cfg (pm_Source a) (pm_Transaction a) (\<lambda>source _.
       bindE (readUpdateFile cfg c source) (\<lambda>(_, from).
       bindE (guardE (sameObject from (pm_SourceExpected a)) (dataFailure ''core update source identity changed'')) (\<lambda>_.
       bindE (rename_path source path) (\<lambda>_.
       bindE (syncUpdateDirectory cfg) (\<lambda>_.
       syncUpdateDirectory cfg)))))"

definition store_Apply :: "store_cfg \<Rightarrow> bool \<Rightarrow> prov_mutation \<Rightarrow> (unit, cworld) io" where
  "store_Apply cfg c a = at_path cfg (pm_Role a) (pm_Transaction a) (\<lambda>path _. with_root c (
     bindE (updateFileParent path True) (\<lambda>_.
     bindE (observe cfg c path) (\<lambda>actual.
     bindE (guardE (sameObject actual (pm_Expected a)) (dataFailure ''core update destination identity changed'')) (\<lambda>_.
     if pm_Source a = [] then
       (if \<not> po_Present actual then ret ()
        else bindE (remove_path path) (\<lambda>_. syncUpdateDirectory cfg))
     else if pm_Role a \<noteq> InstalledBinary \<or> (pm_Source a \<noteq> UpdateCandidate \<and> pm_Source a \<noteq> UpdateRestore)
     then throw ErrInvalid
     else apply_move cfg c a path)))))"

definition store_Sync :: "store_cfg \<Rightarrow> bool \<Rightarrow> (unit, cworld) io" where
  "store_Sync cfg c = with_root c (syncUpdateDirectory cfg)"

section \<open>Cleanup of transaction directories\<close>

definition syncCleanupRecord :: "store_cfg \<Rightarrow> bool \<Rightarrow> string \<Rightarrow> (unit, cworld) io" where
  "syncCleanupRecord cfg c tx = at_path cfg UpdateCleanup tx (\<lambda>path _. with_root c (
     bindE (updateFileParent path False) (\<lambda>_. syncUpdateDirectory cfg)))"

text \<open>The removal of a directory that was seen empty; an entry that appears in it stops the removal.\<close>

definition remove_empty :: "store_cfg \<Rightarrow> bool \<Rightarrow> path \<Rightarrow> (unit, cworld) io" where
  "remove_empty cfg c dir =
     bindE (lstat dir) (\<lambda>n.
     bindE (guardE (n = Dir) ErrPermission) (\<lambda>_.
     bindE unchanged (\<lambda>_.
     bindE (ctx_err c) (\<lambda>_.
     bindE (tryE (remove_path dir)) (\<lambda>m. case m of
       Inl e \<Rightarrow> if error_is ErrNotExist e then syncUpdateDirectory cfg else throw e
     | Inr _ \<Rightarrow> syncUpdateDirectory cfg)))))"

text \<open>Opening the directory, its first entry and closing it.\<close>

definition list_first :: "path \<Rightarrow> (string list, cworld) io" where
  "list_first dir = bindE call (\<lambda>_. \<lambda>w.
     case ask_err w of (statErr, w1) \<Rightarrow> (case ask_err w1 of (readErr, w2) \<Rightarrow> (case ask_err w2 of (closeErr, w3) \<Rightarrow>
       (case errors_join [statErr, closeErr] of
          Some e \<Rightarrow> (Inl e, w3)
        | None \<Rightarrow> (case readErr of Some e \<Rightarrow> (Inl e, w3) | None \<Rightarrow> (Inr (take 1 (entries_of dir (cw_tree w3))), w3))))))"

definition removeEmptyCleanupDirectory :: "store_cfg \<Rightarrow> bool \<Rightarrow> string \<Rightarrow> (unit, cworld) io" where
  "removeEmptyCleanupDirectory cfg c tx = at_path cfg UpdateCleanup tx (\<lambda>path _. with_root c (
     bindE (tryE (updateFileParent path False)) (\<lambda>r. case r of
       Inl e \<Rightarrow> if error_is ErrNotExist e then ret () else throw e
     | Inr _ \<Rightarrow>
         bindE (list_first (butlast path)) (\<lambda>entries.
         if entries \<noteq> [] then ret () else remove_empty cfg c (butlast path)))))"

fun keep_transactions :: "bool \<Rightarrow> (path \<rightharpoonup> fnode) \<Rightarrow> path \<Rightarrow> string list \<Rightarrow> (string list, cworld) io" where
  "keep_transactions c t dir [] = ret []"
| "keep_transactions c t dir (n # ns) =
     bindE (ctx_err c) (\<lambda>_.
     bindE (keep_transactions c t dir ns) (\<lambda>names.
     ret (if t (dir @ [n]) = Some Dir \<and> validTransaction n then n # names else names)))"

definition cleanupTransactions :: "store_cfg \<Rightarrow> bool \<Rightarrow> (string list, cworld) io" where
  "cleanupTransactions cfg c = with_root c (
     let dir = [''staging'', ''core'', ''update''] in
     bindE (tryE (updateFileParent (dir @ [''entry'']) False)) (\<lambda>r. case r of
       Inl e \<Rightarrow> if error_is ErrNotExist e then ret [] else throw e
     | Inr _ \<Rightarrow> bindE call (\<lambda>_. deferred (
         bindE call (\<lambda>_. \<lambda>w. keep_transactions c (nodes w) dir (entries_of dir (cw_tree w)) w)) ask_err)))"

section \<open>The execution gate\<close>

definition admitInstalled :: "prov_object \<Rightarrow> (unit, cworld) io" where
  "admitInstalled observed w =
     (if cw_admitted w \<and> \<not> sameObject (cw_installed w) observed
      then (Inl (dataFailure ''installed mihomo changed outside a core update transaction''), w)
      else (Inr (), w\<lparr>cw_installed := observed, cw_admitted := True\<rparr>))"

definition acceptPublished :: "prov_object \<Rightarrow> cworld \<Rightarrow> cworld" where
  "acceptPublished observed w = w\<lparr>cw_installed := observed, cw_admitted := po_Present observed\<rparr>"

text \<open>The token serialises the operations; taking it fails when the context is done.\<close>

definition acquire :: "bool \<Rightarrow> (unit, cworld) io" where
  "acquire c = bindE (ctx_err c) (\<lambda>_. ctx_err c)"

section \<open>Frames\<close>

text \<open>Every entry lies in a directory.\<close>

definition wf_tree :: "tree_map \<Rightarrow> bool" where
  "wf_tree t \<longleftrightarrow> (\<forall>p n. t p = Some n \<longrightarrow> p \<noteq> [] \<and> is_dir t (butlast p))"

definition regs :: "tree_map \<Rightarrow> path \<Rightarrow> reg_file option" where
  "regs t p = (case t p of Some (Reg f) \<Rightarrow> Some f | _ \<Rightarrow> None)"

text \<open>The files outside a set of paths stay, at every point of the way.\<close>

definition changes :: "path set \<Rightarrow> cworld \<Rightarrow> cworld \<Rightarrow> bool" where
  "changes A w w' \<longleftrightarrow> (wf_tree (nodes w) \<longrightarrow> wf_tree (nodes w')) \<and>
     (\<forall>p. p \<notin> A \<longrightarrow> regs (nodes w') p = regs (nodes w) p) \<and>
     (\<forall>u \<in> set (cw_seen w'). u \<in> set (cw_seen w) \<or> (\<forall>p. p \<notin> A \<longrightarrow> regs u p = regs (nodes w) p))"

definition keeps :: "path set \<Rightarrow> ('a, cworld) io \<Rightarrow> bool" where
  "keeps A m \<longleftrightarrow> (\<forall>w r w'. m w = (r, w') \<longrightarrow> changes A w w')"

definition same_files :: "cworld \<Rightarrow> cworld \<Rightarrow> bool" where
  "same_files w w' \<longleftrightarrow> cw_tree w' = cw_tree w \<and> cw_seen w' = cw_seen w"

definition reads :: "('a, cworld) io \<Rightarrow> bool" where
  "reads m \<longleftrightarrow> (\<forall>w r w'. m w = (r, w') \<longrightarrow> same_files w w')"

lemma changes_refl [simp]: "changes A w w"
  by (simp add: changes_def)

lemma changes_trans: "changes A w w1 \<Longrightarrow> changes A w1 w2 \<Longrightarrow> changes A w w2"
  unfolding changes_def by fastforce

lemma changes_mono: "changes A w w' \<Longrightarrow> A \<subseteq> B \<Longrightarrow> changes B w w'"
  unfolding changes_def by blast

lemma same_files_changes: "same_files w w' \<Longrightarrow> changes A w w'"
  by (simp add: same_files_def changes_def)

lemma keepsD: "keeps A m \<Longrightarrow> m w = (r, w') \<Longrightarrow> changes A w w'"
  by (simp add: keeps_def)

lemma readsD: "reads m \<Longrightarrow> m w = (r, w') \<Longrightarrow> same_files w w'"
  by (simp add: reads_def)

lemma keeps_mono: "keeps A m \<Longrightarrow> A \<subseteq> B \<Longrightarrow> keeps B m"
  by (meson changes_mono keeps_def)

lemma reads_keeps: "reads m \<Longrightarrow> keeps A m"
  by (meson keeps_def reads_def same_files_changes)

lemma keeps_bind: "keeps A m \<Longrightarrow> (\<And>x. keeps A (f x)) \<Longrightarrow> keeps A (bindE m f)"
  unfolding keeps_def by (meson bindE_cases changes_trans)

lemma same_files_trans: "same_files w w1 \<Longrightarrow> same_files w1 w2 \<Longrightarrow> same_files w w2"
  by (simp add: same_files_def)

lemma reads_bind: "reads m \<Longrightarrow> (\<And>x. reads (f x)) \<Longrightarrow> reads (bindE m f)"
  unfolding reads_def by (meson bindE_cases same_files_trans)

lemma ask_err_same: "ask_err w = (c, w') \<Longrightarrow> same_files w w'"
  by (auto simp: ask_err_def ask_def same_files_def split: list.splits prod.splits)

lemma ask_err_opaque: "ask_err w = (Some e, w') \<Longrightarrow> \<not> error_is ErrNotExist e"
  by (auto simp: ask_err_def ask_def split: list.splits prod.splits)

lemma reads_basic: "reads (ret x)" "reads (throw e)" "reads (guardE b e)" "reads call" "reads unchanged"
  "reads (ctx_err c)" "reads fresh_name"
  by (auto simp: reads_def io_defs call_def unchanged_def ctx_err_def same_files_def fresh_name_def
    split: prod.splits option.splits list.splits if_splits dest!: ask_err_same)

lemma reads_try: "reads m \<Longrightarrow> reads (tryE m)"
  by (auto simp: reads_def tryE_eq)

lemma keeps_try: "keeps A m \<Longrightarrow> keeps A (tryE m)"
  by (auto simp: keeps_def tryE_eq)

lemma reads_deferred: "reads m \<Longrightarrow> reads (deferred m ask_err)"
  unfolding reads_def by (meson ask_err_same deferred_cases same_files_trans)

lemma keeps_deferred: "keeps A m \<Longrightarrow> keeps A (deferred m ask_err)"
  unfolding keeps_def by (meson ask_err_same deferred_cases changes_trans same_files_changes)

lemma reads_lstat: "reads (lstat p)"
proof -
  have "reads (\<lambda>w. case nodes w p of None \<Rightarrow> (Inl ErrNotExist, w) | Some n \<Rightarrow> (Inr n, w))"
    by (auto simp: reads_def same_files_def split: option.splits)
  then show ?thesis unfolding lstat_def by (intro reads_bind reads_basic)
qed

lemma reads_open_root: "reads (open_root c)"
proof -
  have "reads (\<lambda>w. case ask_err w of (None, w1) \<Rightarrow> (Inr (), w1)
     | (Some e, w1) \<Rightarrow> (case ask_err w1 of (cl, w2) \<Rightarrow>
         (Inl (Joined (some_errors [Some ErrPermission, Some e, cl])), w2)))"
    by (auto simp: reads_def same_files_def split: prod.splits option.splits dest!: ask_err_same)
  then show ?thesis unfolding open_root_def by (intro reads_bind reads_basic)
qed

lemma reads_parent: "reads (updateFileParent_from False prefix parts)"
  by (induction parts arbitrary: prefix)
    (auto intro!: reads_bind reads_basic reads_try reads_lstat split: sum.splits)

lemma reads_sync: "reads (syncUpdateDirectory cfg)"
  by (simp add: syncUpdateDirectory_def reads_basic reads_bind reads_deferred)

lemmas reads_rules = reads_bind reads_basic reads_try reads_deferred reads_lstat reads_open_root reads_parent reads_sync

lemma reads_identity: "reads (updateFileIdentity cfg f)"
  unfolding updateFileIdentity_def by (auto intro!: reads_rules)

lemma reads_read_held: "reads (read_held cfg c path f)"
  unfolding read_held_def by (intro reads_rules reads_identity)

lemma reads_readUpdateFile: "reads (readUpdateFile cfg c path)"
  unfolding readUpdateFile_def updateFileParent_def
  by (intro reads_rules) (auto intro!: reads_rules reads_read_held split: fnode.splits)

lemma reads_observe: "reads (observe cfg c path)"
  unfolding observe_def
  by (intro reads_rules reads_readUpdateFile) (auto intro!: reads_rules split: sum.splits)

lemma reads_at_path: "(\<And>p m. reads (f p m)) \<Longrightarrow> reads (at_path cfg role tx f)"
  by (auto simp: at_path_def intro: reads_basic split: sum.splits)

lemma reads_with_root: "reads m \<Longrightarrow> reads (with_root c m)"
  by (simp add: with_root_def reads_rules)

lemma reads_store: "reads (store_Load cfg c role tx)" "reads (store_Inspect cfg c role tx)"
  unfolding store_Load_def store_Inspect_def
  by (auto intro!: reads_at_path reads_with_root reads_bind reads_readUpdateFile reads_basic reads_observe)

section \<open>Changes of the tree\<close>

lemma is_dir_upd: "is_dir (t(p \<mapsto> n)) q \<longleftrightarrow> (if q = p \<and> q \<noteq> [] then n = Dir else is_dir t q)"
  by (auto simp: is_dir_def)

lemma wf_tree_add:
  "wf_tree t \<Longrightarrow> p \<noteq> [] \<Longrightarrow> is_dir t (butlast p) \<Longrightarrow> t p \<noteq> Some Dir \<or> n = Dir \<Longrightarrow> wf_tree (t(p \<mapsto> n))"
  unfolding wf_tree_def is_dir_upd by (auto simp: is_dir_def)

lemma wf_tree_remove: "wf_tree t \<Longrightarrow> (\<And>q. q \<noteq> [] \<Longrightarrow> butlast q = p \<Longrightarrow> t q = None) \<Longrightarrow> wf_tree (t(p := None))"
  unfolding wf_tree_def is_dir_def by (auto split: if_splits)

lemma wf_leaf: "wf_tree t \<Longrightarrow> t p = Some n \<Longrightarrow> n \<noteq> Dir \<Longrightarrow> q \<noteq> [] \<Longrightarrow> butlast q = p \<Longrightarrow> t q = None"
  unfolding wf_tree_def is_dir_def by (metis fnode.simps option.exhaust option.inject)

lemma entries_of_Nil: "entries_of p t = [] \<Longrightarrow> q \<noteq> [] \<Longrightarrow> butlast q = p \<Longrightarrow> map_of t q = None"
  by (auto simp: entries_of_def filter_empty_conv map_of_eq_None_iff)

lemma regs_upd: "regs (t(p \<mapsto> n)) q = (if q = p then (case n of Reg f \<Rightarrow> Some f | _ \<Rightarrow> None) else regs t q)"
  by (auto simp: regs_def split: fnode.splits)

lemma regs_del: "regs (t(p := None)) q = (if q = p then None else regs t q)"
  by (auto simp: regs_def)

lemmas tree_simps = set_tree_def update_conv' delete_conv' regs_upd regs_del

lemma missing_below: "wf_tree t \<Longrightarrow> q \<noteq> [] \<Longrightarrow> t q = None \<Longrightarrow> t (q @ r) = None"
proof (induction r rule: rev_induct)
  case (snoc x xs)
  then show ?case unfolding wf_tree_def is_dir_def
    by (metis append_assoc append_is_Nil_conv butlast_snoc option.distinct(1) option.exhaust)
qed simp

lemma keeps_call_then: "keeps A f \<Longrightarrow> keeps A (bindE call (\<lambda>_. f))"
  by (intro keeps_bind reads_keeps [OF reads_basic(4)])

lemma keeps_mkdir: "keeps A (mkdir p)"
proof -
  have "changes A w (set_tree (AList.update p Dir (cw_tree w)) w)"
    if "nodes w p = None" "p \<noteq> []" "is_dir (nodes w) (butlast p)" for w
    using that by (auto simp: changes_def tree_simps wf_tree_add) (simp add: regs_def)
  then show ?thesis unfolding mkdir_def
    by (intro keeps_call_then) (auto simp: keeps_def split: if_splits)
qed

lemma keeps_remove: "p \<in> A \<Longrightarrow> keeps A (remove_path p)"
proof -
  assume A: "p \<in> A"
  have "changes A w (set_tree (AList.delete p (cw_tree w)) w)"
    if "nodes w p = Some n" "n = Dir \<longrightarrow> entries_of p (cw_tree w) = []" for w n
  proof -
    have "wf_tree (nodes w) \<Longrightarrow> q \<noteq> [] \<Longrightarrow> butlast q = p \<Longrightarrow> nodes w q = None" for q
      using that by (cases "n = Dir") (auto dest: entries_of_Nil wf_leaf)
    then show ?thesis using A by (auto simp: changes_def tree_simps intro: wf_tree_remove)
  qed
  then show ?thesis unfolding remove_path_def
    by (intro keeps_call_then) (auto simp: keeps_def split: option.splits if_splits)
qed

lemma keeps_create: "p \<in> A \<Longrightarrow> keeps A (create_excl p mode)"
proof -
  assume A: "p \<in> A"
  have "changes A w (set_tree (AList.update p (Reg f) (cw_tree w)) w)"
    if "nodes w p = None" "p \<noteq> []" "is_dir (nodes w) (butlast p)" for w f
    using that A by (auto simp: changes_def tree_simps wf_tree_add)
  then show ?thesis unfolding create_excl_def
    by (intro keeps_call_then keeps_bind [OF reads_keeps [OF reads_basic(7)]])
      (auto simp: keeps_def Let_def split: if_splits)
qed

text \<open>The temporary file is there while it is written.\<close>

definition has_file :: "path \<Rightarrow> cworld \<Rightarrow> bool" where
  "has_file p w \<longleftrightarrow> (\<exists>f. nodes w p = Some (Reg f))"

lemma create_excl_has: "create_excl p mode w = (Inr f, w') \<Longrightarrow> nodes w' p = Some (Reg f)"
  unfolding create_excl_def bindE_Inr by (auto simp: Let_def tree_simps split: if_splits)

lemma write_changes:
  assumes "write_sync_close p f body w = (r, w')" "has_file p w"
  shows "changes {p} w w'" "has_file p w'" "r = Inr () \<Longrightarrow> regs (nodes w') p = Some (f\<lparr>rf_content := body\<rparr>)"
proof -
  obtain a w1 where a: "ask w = (a, w1)" by fastforce
  define n where "n = (case a of None \<Rightarrow> length body | Some (_, k) \<Rightarrow> k)"
  define w2 where "w2 = set_tree (AList.update p (Reg (f\<lparr>rf_content := take n body\<rparr>)) (cw_tree w1)) w1"
  obtain s w3 where s: "ask_err w2 = (s, w3)" by fastforce
  obtain cl w4 where cl: "ask_err w3 = (cl, w4)" by fastforce
  have w': "w' = w4" "r = (case errors_join [map_option (\<lambda>(m, _). Opaque m) a, s, cl] of None \<Rightarrow> Inr () | Some e \<Rightarrow> Inl e)"
    using assms(1) unfolding write_sync_close_def a by (auto simp: Let_def s cl n_def [symmetric] w2_def [symmetric] split: option.splits)
  have same: "cw_tree w1 = cw_tree w" "cw_seen w1 = cw_seen w" "same_files w2 w4"
    using a same_files_trans [OF ask_err_same [OF s] ask_err_same [OF cl]] by (auto simp: ask_def split: list.splits)
  obtain g where g: "nodes w p = Some (Reg g)" using assms(2) by (auto simp: has_file_def)
  have n4: "nodes w4 = (nodes w)(p \<mapsto> Reg (f\<lparr>rf_content := take n body\<rparr>))" "cw_seen w4 = nodes w # cw_seen w"
    using same by (auto simp: same_files_def w2_def tree_simps)
  show "changes {p} w w'" unfolding w' changes_def n4
    using g by (auto simp: regs_upd intro!: wf_tree_add) (auto simp: wf_tree_def)
  show "has_file p w'" by (simp add: w' has_file_def n4)
  show "regs (nodes w') p = Some (f\<lparr>rf_content := body\<rparr>)" if "r = Inr ()"
  proof -
    have "a = None" using that w'(2) by (auto split: option.splits simp: go_simps)
    then show ?thesis by (simp add: w' n4 regs_upd n_def)
  qed
qed

text \<open>A rename moves one file and is the only change on the way.\<close>

lemma rename_changes:
  assumes "rename_path src dst w = (r, w')" "regs (nodes w) src = Some f" "src \<noteq> dst"
  shows "(\<exists>e. r = Inl e \<and> same_files w w') \<or>
    (r = Inr () \<and> changes {src, dst} w w' \<and> regs (nodes w') dst = Some f \<and> regs (nodes w') src = None \<and>
     (\<forall>u \<in> set (cw_seen w'). u \<in> set (cw_seen w) \<or> regs u = regs (nodes w)))"
proof -
  from assms(1) have b: "bindE call (\<lambda>_. \<lambda>w. case nodes w src of None \<Rightarrow> (Inl ErrNotExist, w)
     | Some n \<Rightarrow> if \<not> is_dir (nodes w) (butlast dst) then (Inl ErrNotExist, w)
         else if n = Dir \<or> dst = [] \<or> nodes w dst = Some Dir then (Inl (Opaque ''is a directory''), w)
         else (Inr (), set_tree (AList.update dst n (AList.delete src (cw_tree w))) w)) w = (r, w')"
    by (simp add: rename_path_def)
  have src: "nodes w src = Some (Reg f)" using assms(2) by (auto simp: regs_def split: option.splits fnode.splits)
  from b show ?thesis
  proof (cases rule: bindE_cases)
    case (go x w1)
    then have s: "same_files w w1" using readsD reads_basic(4) by blast
    then have n: "nodes w1 = nodes w" "cw_seen w1 = cw_seen w" by (auto simp: same_files_def)
    show ?thesis
    proof (cases "is_dir (nodes w) (butlast dst) \<and> dst \<noteq> [] \<and> nodes w dst \<noteq> Some Dir")
      case True
      have n1: "nodes (set_tree (AList.update dst (Reg f) (AList.delete src (cw_tree w1))) w1) =
          ((nodes w)(src := None))(dst \<mapsto> Reg f)"
        using assms(3) by (simp add: tree_simps n)
      have "wf_tree (nodes w) \<Longrightarrow> wf_tree (((nodes w)(src := None))(dst \<mapsto> Reg f))"
      proof (rule wf_tree_add)
        assume "wf_tree (nodes w)"
        then show "wf_tree ((nodes w)(src := None))" using src by (auto intro: wf_tree_remove dest: wf_leaf)
        show "is_dir ((nodes w)(src := None)) (butlast dst)" using True src by (auto simp: is_dir_def)
      qed (use True assms(3) in auto)
      with go n n1 True assms(3) src show ?thesis
        by (auto simp: changes_def regs_upd regs_del) (auto simp: set_tree_def n)
    qed (use go n s src in \<open>auto split: if_splits\<close>)
  qed (use readsD reads_basic(4) in blast)
qed

section \<open>What reading returns\<close>

text \<open>An operation that never reports a missing file while the tree is as it is.\<close>

definition finds :: "tree \<Rightarrow> ('a, cworld) io \<Rightarrow> bool" where
  "finds t m \<longleftrightarrow> (\<forall>w e w'. cw_tree w = t \<longrightarrow> m w = (Inl e, w') \<longrightarrow> \<not> error_is ErrNotExist e)"

lemma finds_bind: "finds t m \<Longrightarrow> reads m \<Longrightarrow> (\<And>x. finds t (f x)) \<Longrightarrow> finds t (bindE m f)"
  unfolding finds_def
proof (intro allI impI)
  fix w e w' assume f: "\<forall>w e w'. cw_tree w = t \<longrightarrow> m w = (Inl e, w') \<longrightarrow> \<not> error_is ErrNotExist e" and r: "reads m"
    and g: "\<And>x. \<forall>w e w'. cw_tree w = t \<longrightarrow> f x w = (Inl e, w') \<longrightarrow> \<not> error_is ErrNotExist e"
    and w: "cw_tree w = t" and b: "bindE m f w = (Inl e, w')"
  from b show "\<not> error_is ErrNotExist e"
  proof (cases rule: bindE_cases)
    case (go x w1)
    then have "cw_tree w1 = t" using readsD [OF r go(1)] w by (simp add: same_files_def)
    with go g [of x] show ?thesis by blast
  qed (use f w in blast)
qed

lemma finds_basic: "finds t (ret x)" "finds t call" "finds t unchanged" "finds t (ctx_err c)"
  "\<not> error_is ErrNotExist e \<Longrightarrow> finds t (throw e)" "\<not> error_is ErrNotExist e \<Longrightarrow> finds t (guardE b e)"
  by (auto simp: finds_def io_defs call_def unchanged_def ctx_err_def ErrPermission_def ask_err_opaque
    split: prod.splits option.splits if_splits)

lemma finds_lstat: "map_of t p \<noteq> None \<Longrightarrow> finds t (lstat p)"
proof -
  assume p: "map_of t p \<noteq> None"
  then have "finds t (\<lambda>w. case nodes w p of None \<Rightarrow> (Inl ErrNotExist, w) | Some n \<Rightarrow> (Inr n, w))"
    by (auto simp: finds_def)
  then show ?thesis unfolding lstat_def by (intro finds_bind finds_basic reads_rules)
qed

lemma deferred_Inl: "deferred m ask_err w = (Inl e, w') \<Longrightarrow> error_is ErrNotExist e \<Longrightarrow>
    \<exists>e1 w1. m w = (Inl e1, w1) \<and> error_is ErrNotExist e1"
proof -
  assume d: "deferred m ask_err w = (Inl e, w')" and e: "error_is ErrNotExist e"
  from d obtain r1 w1 c where m: "m w = (r1, w1)" and a: "ask_err w1 = (c, w')" and
    r: "Inl e = (case errors_join [case r1 of Inl e \<Rightarrow> Some e | Inr _ \<Rightarrow> None, c] of Some e \<Rightarrow> Inl e | None \<Rightarrow> r1)"
    by (rule deferred_cases)
  have "c = Some x \<Longrightarrow> \<not> error_is ErrNotExist x" for x using a ask_err_opaque by blast
  then show ?thesis using m r e by (cases c; cases r1) auto
qed

lemma deferred_Inr: "deferred m ask_err w = (Inr x, w') \<Longrightarrow> \<exists>w1. m w = (Inr x, w1)"
  by (auto simp: deferred_def split: prod.splits option.splits sum.splits)

lemma finds_deferred: "finds t m \<Longrightarrow> finds t (deferred m ask_err)"
  unfolding finds_def using deferred_Inl by blast

lemma finds_read_held: "map_of t path \<noteq> None \<Longrightarrow> finds t (read_held cfg c path f)"
  unfolding read_held_def updateFileIdentity_def
  by (intro finds_bind finds_lstat reads_rules reads_identity)
    (auto simp: ErrPermission_def intro!: finds_basic reads_rules finds_bind)

lemma parent_missing:
  assumes "updateFileParent_from False prefix parts w = (Inl e, w')" "error_is ErrNotExist e" "wf_tree (nodes w)"
  shows "nodes w (prefix @ parts @ rest) = None"
  using assms
proof (induction parts arbitrary: prefix w)
  case Nil
  then show ?case by (simp add: ret_def)
next
  case (Cons part parts)
  from Cons.prems(1) have "bindE (tryE (lstat (prefix @ [part]))) (\<lambda>r. bindE (case r of Inr n \<Rightarrow> ret n | Inl e \<Rightarrow> throw e)
      (\<lambda>n. bindE (guardE (n = Dir) ErrPermission) (\<lambda>_. updateFileParent_from False (prefix @ [part]) parts))) w = (Inl e, w')"
    by (simp cong: sum.case_cong)
  then obtain r w1 where l: "lstat (prefix @ [part]) w = (r, w1)" and
    b: "bindE (case r of Inr n \<Rightarrow> ret n | Inl e \<Rightarrow> throw e)
      (\<lambda>n. bindE (guardE (n = Dir) ErrPermission) (\<lambda>_. updateFileParent_from False (prefix @ [part]) parts)) w1 = (Inl e, w')"
    by (cases rule: bindE_cases) (auto simp: tryE_eq)
  have same: "cw_tree w1 = cw_tree w" using readsD [OF reads_lstat l] by (simp add: same_files_def)
  show ?case
  proof (cases r)
    case (Inl e1)
    with b have "e1 = e" by (simp add: bindE_def throw_def)
    then have "\<not> finds (cw_tree w) (lstat (prefix @ [part]))"
      using l Inl Cons.prems(2) by (auto simp: finds_def)
    then have "nodes w (prefix @ [part]) = None" using finds_lstat by blast
    with missing_below [OF Cons.prems(3) _ this, of "parts @ rest"] show ?thesis by auto
  next
    case (Inr n)
    with b have "bindE (guardE (n = Dir) ErrPermission) (\<lambda>_. updateFileParent_from False (prefix @ [part]) parts) w1 = (Inl e, w')"
      by (simp add: bindE_def ret_def)
    then have "updateFileParent_from False (prefix @ [part]) parts w1 = (Inl e, w')"
      using Cons.prems(2) by (cases rule: bindE_cases) (auto simp: guardE_def throw_def ret_def ErrPermission_def split: if_splits)
    from Cons.IH [OF this Cons.prems(2)] show ?thesis using Cons.prems(3) same by simp
  qed
qed

lemma readUpdateFile_some:
  "readUpdateFile cfg c path w = (Inr (b, x), w') \<Longrightarrow>
     \<exists>f. regs (nodes w) path = Some f \<and> b = rf_content f \<and> x = object_of cfg f"
proof -
  assume "readUpdateFile cfg c path w = (Inr (b, x), w')"
  then obtain u w1 n w2 where p: "updateFileParent path False w = (Inr u, w1)" and l: "lstat path w1 = (Inr n, w2)"
    and b: "(case n of Reg f \<Rightarrow> if length (rf_content f) > maxCoreBinarySize then throw ErrPermission
         else bindE call (\<lambda>_. deferred (read_held cfg c path f) ask_err) | _ \<Rightarrow> throw ErrPermission) w2 = (Inr (b, x), w')"
    unfolding readUpdateFile_def bindE_Inr by auto
  have "cw_tree w1 = cw_tree w" using p readsD [OF reads_parent] by (auto simp: updateFileParent_def same_files_def)
  with l have n: "nodes w path = Some n"
    by (auto simp: lstat_def bindE_Inr split: option.splits dest!: readsD [OF reads_basic(4)] simp: same_files_def)
  from b obtain f where f: "n = Reg f" by (cases n) (auto simp: throw_def)
  with b obtain v w3 w4 where "read_held cfg c path f w3 = (Inr (b, x), w4)"
    by (auto simp: bindE_Inr throw_def split: if_splits dest: deferred_Inr)
  then have "b = rf_content f \<and> x = object_of cfg f"
    unfolding read_held_def updateFileIdentity_def bindE_Inr by (auto simp: ret_def throw_def split: if_splits)
  then show ?thesis using n f by (simp add: regs_def)
qed

lemma readUpdateFile_none:
  assumes "readUpdateFile cfg c path w = (Inl e, w')" "error_is ErrNotExist e" "wf_tree (nodes w)" "path \<noteq> []"
  shows "nodes w path = None"
proof (rule ccontr)
  assume N: "nodes w path \<noteq> None"
  have "updateFileParent path False w1 \<noteq> (Inl e1, w2) \<or> \<not> error_is ErrNotExist e1" if "cw_tree w1 = cw_tree w" for w1 e1 w2
    using parent_missing [of "[]" "butlast path" w1 e1 w2 "[last path]"] that N assms(3,4)
    by (auto simp: updateFileParent_def)
  then have "finds (cw_tree w) (updateFileParent path False)" by (auto simp: finds_def)
  then have "finds (cw_tree w) (readUpdateFile cfg c path)"
    unfolding readUpdateFile_def using N
    by (intro finds_bind finds_lstat)
      (auto simp: updateFileParent_def ErrPermission_def intro!: reads_rules finds_basic finds_bind finds_deferred finds_read_held
        split: fnode.splits)
  with assms(1,2) show False by (auto simp: finds_def)
qed

section \<open>One change at a time\<close>

definition temps :: "path set" where
  "temps = {p. p \<noteq> [] \<and> has_prefix (last p) ''.core-''}"

definition agree :: "(path \<Rightarrow> reg_file option) \<Rightarrow> (path \<Rightarrow> reg_file option) \<Rightarrow> bool" where
  "agree f g \<longleftrightarrow> (\<forall>p. p \<notin> temps \<longrightarrow> f p = g p)"

text \<open>From one tree to another in one step: every tree on the way has the files of the first or of the second.\<close>

definition jump :: "(path \<Rightarrow> reg_file option) \<Rightarrow> cworld \<Rightarrow> cworld \<Rightarrow> bool" where
  "jump v w w' \<longleftrightarrow> (wf_tree (nodes w) \<longrightarrow> wf_tree (nodes w')) \<and> agree (regs (nodes w')) v \<and>
     (\<forall>u \<in> set (cw_seen w'). u \<in> set (cw_seen w) \<or> agree (regs u) (regs (nodes w)) \<or> agree (regs u) v)"

lemma agree_refl [simp]: "agree f f" by (simp add: agree_def)

lemma agree_sym: "agree f g \<Longrightarrow> agree g f" by (simp add: agree_def)

lemma agree_trans: "agree f g \<Longrightarrow> agree g h \<Longrightarrow> agree f h" by (simp add: agree_def)

lemma agree_upd: "agree f g \<Longrightarrow> agree (f(p := x)) (g(p := x))" by (simp add: agree_def)

lemma changes_agree: "changes temps w w' \<Longrightarrow> agree (regs (nodes w')) (regs (nodes w))"
  by (simp add: changes_def agree_def)

lemma jump_stay: "jump (regs (nodes w)) w w' \<longleftrightarrow> changes temps w w'"
  unfolding jump_def changes_def agree_def by blast

lemma changes_jump: "changes temps w w1 \<Longrightarrow> jump v w1 w2 \<Longrightarrow> jump v w w2"
  unfolding jump_def changes_def agree_def by fastforce

lemma jump_changes: "jump v w w1 \<Longrightarrow> changes temps w1 w2 \<Longrightarrow> jump v w w2"
  unfolding jump_def changes_def agree_def by fastforce

lemma jump_cong: "agree v v' \<Longrightarrow> jump v w w' \<Longrightarrow> jump v' w w'"
  unfolding jump_def by (meson agree_trans)

lemma save_replace_effect:
  assumes "save_replace cfg c path tmp f body w = (r, w')" "nodes w tmp = Some (Reg f)" "tmp \<in> temps" "path \<notin> temps"
  shows "((\<exists>e. r = Inl e) \<and> changes temps w w') \<or>
    (\<exists>g. rf_content g = body \<and> jump ((regs (nodes w))(path := Some g)) w w')"
  using assms(1) unfolding save_replace_def
proof (cases rule: bindE_cases)
  case (stop e)
  then show ?thesis using write_changes(1) assms(2,3) changes_mono by (fastforce simp: has_file_def)
next
  case (go x w1)
  have h: "has_file tmp w" using assms(2) by (simp add: has_file_def)
  have c1: "changes temps w w1" using write_changes(1) [OF go(1) h] assms(3) changes_mono by blast
  have f1: "regs (nodes w1) tmp = Some (f\<lparr>rf_content := body\<rparr>)" using write_changes(3) [OF go(1) h] by simp
  from go(2) show ?thesis
  proof (cases rule: bindE_cases)
    case stop
    then show ?thesis using c1 changes_trans keepsD reads_basic(6) reads_keeps by blast
  next
    case (go x2 w2)
    have s2: "same_files w1 w2" using go(1) readsD reads_basic(6) by blast
    then have c2: "changes temps w w2" using c1 changes_trans same_files_changes by blast
    have f2: "regs (nodes w2) tmp = Some (f\<lparr>rf_content := body\<rparr>)" using f1 s2 by (simp add: same_files_def)
    have ne: "tmp \<noteq> path" using assms(3,4) by blast
    from go(2) show ?thesis
    proof (cases rule: bindE_cases)
      case (stop e)
      then show ?thesis using rename_changes [OF _ f2 ne] c2 changes_trans same_files_changes by blast
    next
      case (go x3 w3)
      let ?v = "(regs (nodes w2))(path := Some (f\<lparr>rf_content := body\<rparr>))"
      from rename_changes [OF go(1) f2 ne] have "jump ?v w2 w3"
        using assms(3) by (auto simp: jump_def changes_def agree_def)
      then have "jump ?v w w'" using c2 changes_jump jump_changes go(2) keepsD reads_keeps reads_sync by blast
      then have "jump ((regs (nodes w))(path := Some (f\<lparr>rf_content := body\<rparr>))) w w'"
        using agree_upd [OF changes_agree [OF c2]] jump_cong by blast
      then show ?thesis by (intro disjI2 exI [of _ "f\<lparr>rf_content := body\<rparr>"]) simp
    qed
  qed
qed

lemma removing_effect:
  assumes "removing p m w = (r, w')" "p \<in> temps"
  obtains r1 w1 where "m w = (r1, w1)" "changes temps w1 w'" "r = Inr () \<longrightarrow> r1 = Inr ()"
proof -
  obtain r1 w1 where m: "m w = (r1, w1)" by fastforce
  obtain d w2 where d: "remove_path p w1 = (d, w2)" by fastforce
  then have "changes temps w1 w2" using keeps_remove assms(2) keepsD by blast
  moreover have "w' = w2 \<and> (r = Inr () \<longrightarrow> r1 = Inr ())"
    using assms(1) m d by (auto simp: removing_def remove_temp_def split: sum.splits if_splits)
  ultimately show ?thesis using that m by blast
qed

lemma temp_in_temps: "butlast p @ [''.core-'' @ x] \<in> temps"
  by (simp add: temps_def has_prefix_iff)

lemma save_content_effect:
  assumes "save_content cfg c path mode body w = (r, w')" "path \<notin> temps"
  shows "((\<exists>e. r = Inl e) \<and> changes temps w w') \<or>
    (\<exists>g. rf_content g = body \<and> jump ((regs (nodes w))(path := Some g)) w w')"
  using assms(1) unfolding save_content_def
proof (cases rule: bindE_cases)
  case (go x w1)
  have c1: "changes temps w w1" using go(1) keepsD reads_basic(4) reads_keeps by blast
  from go(2) obtain random w2 where n: "fresh_name w1 = (Inr random, w2)" and
    b: "bindE (create_excl (butlast path @ [''.core-'' @ random]) mode)
      (\<lambda>f. removing (butlast path @ [''.core-'' @ random]) (save_replace cfg c path (butlast path @ [''.core-'' @ random]) f body)) w2 = (r, w')"
    by (cases rule: bindE_cases) (auto simp: fresh_name_def Let_def split: list.splits)
  define tmp where "tmp = butlast path @ [''.core-'' @ random]"
  have t: "tmp \<in> temps" by (simp only: tmp_def temp_in_temps)
  have c2: "changes temps w w2" using n c1 changes_trans keepsD reads_basic(7) reads_keeps by blast
  from b show ?thesis unfolding tmp_def [symmetric]
  proof (cases rule: bindE_cases)
    case (stop e)
    then show ?thesis using c2 changes_trans keeps_create keepsD t by blast
  next
    case (go f w3)
    have c3: "changes temps w w3" using go(1) c2 changes_trans keeps_create keepsD t by blast
    from go(2) t obtain r1 w4 where s: "save_replace cfg c path tmp f body w3 = (r1, w4)"
      and c4: "changes temps w4 w'" and rr: "r = Inr () \<longrightarrow> r1 = Inr ()" by (rule removing_effect)
    from save_replace_effect [OF s create_excl_has [OF go(1)] t assms(2)] show ?thesis
    proof
      assume "(\<exists>e. r1 = Inl e) \<and> changes temps w3 w4"
      moreover have "changes temps w w'" if "changes temps w3 w4" using that c3 c4 changes_trans by blast
      ultimately show ?thesis using rr by (cases r) auto
    next
      assume "\<exists>g. rf_content g = body \<and> jump ((regs (nodes w3))(path := Some g)) w3 w4"
      then obtain g where g: "rf_content g = body" "jump ((regs (nodes w3))(path := Some g)) w3 w4" by blast
      then have "jump ((regs (nodes w3))(path := Some g)) w w'" using c3 c4 changes_jump jump_changes by blast
      then show ?thesis using g(1) agree_upd [OF changes_agree [OF c3]] jump_cong by blast
    qed
  qed
qed (use keepsD reads_basic(4) reads_keeps in blast)

section \<open>Slots\<close>

text \<open>The file of a role. The installed binary has one path for all transactions.\<close>

type_synonym slots = "string \<Rightarrow> string \<Rightarrow> reg_file option"

definition slot :: "store_cfg \<Rightarrow> tree_map \<Rightarrow> slots" where
  "slot cfg t role tx =
     (case fileUpdatePath (sc_goos cfg) role tx of Inl _ \<Rightarrow> None | Inr (p, _) \<Rightarrow> regs t p)"

definition put :: "slots \<Rightarrow> string \<Rightarrow> string \<Rightarrow> reg_file option \<Rightarrow> slots" where
  "put s role tx v = (\<lambda>r t. if r = role \<and> (t = tx \<or> role = InstalledBinary) then v else s r t)"

definition slot_object :: "store_cfg \<Rightarrow> reg_file option \<Rightarrow> prov_object" where
  "slot_object cfg s = (case s of None \<Rightarrow> absent_object | Some f \<Rightarrow> object_of cfg f)"

lemma put_same [simp]: "put s role tx v role tx = v"
  by (simp add: put_def)

lemma put_other [simp]: "r \<noteq> role \<Longrightarrow> put s role tx v r t = s r t"
  by (simp add: put_def)

lemma updateRolePath_shape:
  "updateRolePath role tx = Inr (p, m) \<Longrightarrow>
     (role = UpdateJournal \<and> p = [''staging'', ''core'', ''update-journal.json'']) \<or>
     (\<exists>name. p = [''staging'', ''core'', ''update'', tx, name] \<and>
       (role, name) \<in> {(UpdateCandidate, ''candidate-binary''), (UpdateRestore, ''restore-binary''),
         (UpdateBackup, ''backup-binary''), (UpdateInterrupted, ''interrupted-update.json''),
         (UpdateCleanup, ''pending-cleanup.json''), (UpdateMarker, ''transaction-id'')})"
  by (auto simp: updateRolePath_def Let_def split: if_splits)

lemma fileUpdatePath_shape:
  "fileUpdatePath g role tx = Inr (p, m) \<Longrightarrow>
     (role = InstalledBinary \<and> length p = 2 \<and> hd p = ''bin'' \<and> last p \<in> {''mihomo.exe'', ''mihomo''}) \<or>
     (role = PairJournal \<and> tx = [] \<and> p = [''staging'', ''core'', ''provenance-commit.json'']) \<or>
     (role = UpdateJournal \<and> tx = [] \<and> p = [''staging'', ''core'', ''update-journal.json'']) \<or>
     (\<exists>name. p = [''staging'', ''core'', ''update'', tx, name] \<and>
       (role, name) \<in> {(UpdateCandidate, ''candidate-binary''), (UpdateCandidate, ''candidate-binary.exe''),
         (UpdateRestore, ''restore-binary''), (UpdateRestore, ''restore-binary.exe''),
         (UpdateBackup, ''backup-binary''), (UpdateInterrupted, ''interrupted-update.json''),
         (UpdateCleanup, ''pending-cleanup.json''), (UpdateMarker, ''transaction-id'')})"
  unfolding fileUpdatePath_def updateRolePath_def
  by (auto simp: Let_def role_defs split: if_splits)

lemma slot_path_not_temp: "fileUpdatePath g role tx = Inr (p, m) \<Longrightarrow> p \<notin> temps \<and> p \<noteq> []"
  by (drule fileUpdatePath_shape) (auto simp: temps_def has_prefix_iff)

lemma fileUpdatePath_inject:
  assumes "fileUpdatePath g role tx = Inr (p, m)" "fileUpdatePath g role' tx' = Inr (p, m')"
  shows "role = role' \<and> (tx = tx' \<or> role = InstalledBinary)"
  using fileUpdatePath_shape [OF assms(1)] fileUpdatePath_shape [OF assms(2)]
  by (elim disjE conjE exE) (auto simp: role_defs)

lemma slot_agree: "agree (regs t) (regs t') \<Longrightarrow> slot cfg t = slot cfg t'"
  by (auto simp: slot_def agree_def fun_eq_iff dest: slot_path_not_temp split: sum.splits)

lemma slot_upd:
  assumes "fileUpdatePath (sc_goos cfg) role tx = Inr (p, m)" "agree (regs t') ((regs t)(p := v))"
  shows "slot cfg t' = put (slot cfg t) role tx v"
proof (intro ext)
  fix r x
  have p: "fileUpdatePath (sc_goos cfg) role x = Inr (p, m)" if "role = InstalledBinary" for x
    using assms(1) that by (simp add: fileUpdatePath_def)
  show "slot cfg t' r x = put (slot cfg t) role tx v r x"
  proof (cases "fileUpdatePath (sc_goos cfg) r x")
    case (Inl e)
    then show ?thesis using assms(1) p by (auto simp: slot_def put_def)
  next
    case (Inr q)
    obtain q' m' where q: "q = (q', m')" by (cases q)
    with Inr have "q' \<notin> temps" using slot_path_not_temp by blast
    then have e: "slot cfg t' r x = ((regs t)(p := v)) q'" using Inr q assms(2) by (simp add: slot_def agree_def)
    show ?thesis
    proof (cases "q' = p")
      case True
      then show ?thesis using e fileUpdatePath_inject [OF assms(1)] Inr q by (auto simp: put_def)
    next
      case False
      then have "\<not> (r = role \<and> (x = tx \<or> role = InstalledBinary))" using assms(1) p Inr q by auto
      then show ?thesis using e False Inr q by (auto simp: put_def slot_def)
    qed
  qed
qed

section \<open>The interface of the store\<close>

text \<open>\<open>ProvenanceStore\<close> with what \<open>coreStore()\<close> gives access to, and \<open>ctx.Err()\<close>. The boolean tells whether the
  context can be cancelled.\<close>

record 'w pstore =
  ps_Load :: "bool \<Rightarrow> string \<Rightarrow> string \<Rightarrow> (string, 'w) io"
  ps_Save :: "bool \<Rightarrow> string \<Rightarrow> string \<Rightarrow> string \<Rightarrow> (unit, 'w) io"
  ps_Apply :: "bool \<Rightarrow> prov_mutation \<Rightarrow> (unit, 'w) io"
  ps_Inspect :: "bool \<Rightarrow> string \<Rightarrow> string \<Rightarrow> (prov_object, 'w) io"
  ps_acquire :: "bool \<Rightarrow> (unit, 'w) io"
  ps_admitInstalled :: "prov_object \<Rightarrow> (unit, 'w) io"
  ps_acceptPublished :: "prov_object \<Rightarrow> (unit, 'w) io"
  ps_syncCleanupRecord :: "bool \<Rightarrow> string \<Rightarrow> (unit, 'w) io"
  ps_cleanupTransactions :: "bool \<Rightarrow> (string list, 'w) io"
  ps_removeEmptyCleanupDirectory :: "bool \<Rightarrow> string \<Rightarrow> (unit, 'w) io"
  ps_ctxErr :: "bool \<Rightarrow> (unit, 'w) io"
  ps_digest :: "string \<Rightarrow> string"
  ps_boot :: string

definition fileUpdateStore :: "store_cfg \<Rightarrow> cworld pstore" where
  "fileUpdateStore cfg = \<lparr>ps_Load = store_Load cfg, ps_Save = store_Save cfg, ps_Apply = store_Apply cfg,
     ps_Inspect = store_Inspect cfg, ps_acquire = acquire, ps_admitInstalled = admitInstalled,
     ps_acceptPublished = (\<lambda>x w. (Inr (), acceptPublished x w)),
     ps_syncCleanupRecord = syncCleanupRecord cfg, ps_cleanupTransactions = cleanupTransactions cfg,
     ps_removeEmptyCleanupDirectory = removeEmptyCleanupDirectory cfg, ps_ctxErr = ctx_err, ps_digest = digest cfg,
     ps_boot = ''file-update-identity-v1''\<rparr>"

text \<open>What the store says of the file in a slot.\<close>

definition observed :: "'w pstore \<Rightarrow> reg_file option \<Rightarrow> prov_object" where
  "observed st s = (case s of None \<Rightarrow> absent_object
     | Some f \<Rightarrow> \<lparr>po_Present = True, po_SHA256 = ps_digest st (rf_content f), po_Identity = rf_ident f, po_BootID = ps_boot st\<rparr>)"

text \<open>An operation that ends with the given slots, and has passed only through them and the ones it began with.\<close>

definition goes :: "('w \<Rightarrow> bool) \<Rightarrow> ('w \<Rightarrow> slots) \<Rightarrow> ('w \<Rightarrow> slots set) \<Rightarrow> slots \<Rightarrow> 'w \<Rightarrow> 'w \<Rightarrow> bool" where
  "goes ok sl past s w w' \<longleftrightarrow> (ok w \<longrightarrow> ok w') \<and> sl w' = s \<and> past w' \<subseteq> past w \<union> {sl w, s}"

locale object_store =
  fixes st :: "'w pstore" and ok :: "'w \<Rightarrow> bool" and sl :: "'w \<Rightarrow> slots" and past :: "'w \<Rightarrow> slots set"
  assumes load: "ok w \<Longrightarrow> ps_Load st c r t w = (x, w') \<Longrightarrow> goes ok sl past (sl w) w w' \<and>
      (\<forall>b. x = Inr b \<longrightarrow> (\<exists>f. sl w r t = Some f \<and> rf_content f = b)) \<and>
      (\<forall>e. x = Inl e \<longrightarrow> error_is ErrNotExist e \<longrightarrow> sl w r t = None)"
    and inspect: "ok w \<Longrightarrow> ps_Inspect st c r t w = (y, w') \<Longrightarrow> goes ok sl past (sl w) w w' \<and>
      (\<forall>z. y = Inr z \<longrightarrow> z = observed st (sl w r t)) \<and> (\<forall>e. y = Inl e \<longrightarrow> \<not> error_is ErrNotExist e)"
    and save: "ok w \<Longrightarrow> ps_Save st c r t b w = (u, w') \<Longrightarrow>
      ((\<exists>e. u = Inl e) \<and> goes ok sl past (sl w) w w') \<or>
      (\<exists>f. rf_content f = b \<and> (r = UpdateJournal \<or> sl w r t = None) \<and> r \<noteq> InstalledBinary \<and>
        goes ok sl past (put (sl w) r t (Some f)) w w')"
    and apply_mutation: "ok w \<Longrightarrow> ps_Apply st c a w = (u, w') \<Longrightarrow>
      ((\<exists>e. u = Inl e) \<and> goes ok sl past (sl w) w w') \<or>
      (sameObject (observed st (sl w (pm_Role a) (pm_Transaction a))) (pm_Expected a) \<and>
       ((pm_Source a = [] \<and> goes ok sl past (put (sl w) (pm_Role a) (pm_Transaction a) None) w w') \<or>
        (pm_Role a = InstalledBinary \<and> pm_Source a \<in> {UpdateCandidate, UpdateRestore} \<and>
         (\<exists>f. sl w (pm_Source a) (pm_Transaction a) = Some f \<and> sameObject (observed st (Some f)) (pm_SourceExpected a) \<and>
           goes ok sl past (put (put (sl w) (pm_Source a) (pm_Transaction a) None) InstalledBinary (pm_Transaction a) (Some f)) w w'))))"
    and gate: "ok w \<Longrightarrow> ps_acquire st c w = (u, w') \<Longrightarrow> goes ok sl past (sl w) w w'"
      "ok w \<Longrightarrow> ps_admitInstalled st z w = (u, w') \<Longrightarrow> goes ok sl past (sl w) w w'"
      "ok w \<Longrightarrow> ps_acceptPublished st z w = (u, w') \<Longrightarrow> goes ok sl past (sl w) w w'"
      "ok w \<Longrightarrow> ps_ctxErr st c w = (u, w') \<Longrightarrow> goes ok sl past (sl w) w w'"
    and directories: "ok w \<Longrightarrow> ps_syncCleanupRecord st c t w = (u, w') \<Longrightarrow> goes ok sl past (sl w) w w'"
      "ok w \<Longrightarrow> ps_cleanupTransactions st c w = (ts, w') \<Longrightarrow> goes ok sl past (sl w) w w'"
      "ok w \<Longrightarrow> ps_removeEmptyCleanupDirectory st c t w = (u, w') \<Longrightarrow> goes ok sl past (sl w) w w'"
    and installed_once: "sl w InstalledBinary t = sl w InstalledBinary []"

section \<open>The file store keeps the interface\<close>

abbreviation file_inv :: "cworld \<Rightarrow> bool" where
  "file_inv w \<equiv> wf_tree (nodes w)"

definition file_slots :: "store_cfg \<Rightarrow> cworld \<Rightarrow> slots" where
  "file_slots cfg w = slot cfg (nodes w)"

definition file_past :: "store_cfg \<Rightarrow> cworld \<Rightarrow> slots set" where
  "file_past cfg w = set (map (slot cfg) (cw_seen w))"

abbreviation file_goes :: "store_cfg \<Rightarrow> slots \<Rightarrow> cworld \<Rightarrow> cworld \<Rightarrow> bool" where
  "file_goes cfg \<equiv> goes file_inv (file_slots cfg) (file_past cfg)"

lemma jump_goes:
  assumes "jump v w w'" "\<And>t. agree (regs t) v \<Longrightarrow> slot cfg t = s"
  shows "file_goes cfg s w w'"
  using assms slot_agree unfolding goes_def jump_def file_slots_def file_past_def by auto

lemma changes_goes: "changes temps w w' \<Longrightarrow> file_goes cfg (file_slots cfg w) w w'"
  by (rule jump_goes [of "regs (nodes w)"]) (simp_all add: jump_stay file_slots_def slot_agree)

lemma reads_goes: "reads m \<Longrightarrow> m w = (r, w') \<Longrightarrow> file_goes cfg (file_slots cfg w) w w'"
  by (intro changes_goes same_files_changes readsD)

lemma observed_file: "observed (fileUpdateStore cfg) s = slot_object cfg s"
  by (simp add: observed_def slot_object_def object_of_def fileUpdateStore_def split: option.splits)

lemma at_path_cases:
  assumes "at_path cfg role tx f w = (r, w')"
  obtains (bad) e where "fileUpdatePath (sc_goos cfg) role tx = Inl e" "r = Inl e" "w' = w" "\<not> error_is ErrNotExist e"
    | (good) p m where "fileUpdatePath (sc_goos cfg) role tx = Inr (p, m)" "f p m w = (r, w')"
proof (cases "fileUpdatePath (sc_goos cfg) role tx")
  case (Inl e)
  then have "e = ErrInvalid" by (auto simp: fileUpdatePath_def updateRolePath_def Let_def split: if_splits sum.splits)
  then show ?thesis using Inl assms that(1) by (simp add: at_path_def throw_def)
next
  case (Inr a)
  then show ?thesis using assms that(2) by (cases a) (simp add: at_path_def)
qed

lemma open_root_finds: "finds t (open_root c)"
proof -
  have "finds t (\<lambda>w. case ask_err w of (None, w1) \<Rightarrow> (Inr (), w1)
     | (Some e, w1) \<Rightarrow> (case ask_err w1 of (cl, w2) \<Rightarrow> (Inl (Joined (some_errors [Some ErrPermission, Some e, cl])), w2)))"
    unfolding finds_def
  proof (intro allI impI)
    fix w e' w' assume a: "(case ask_err w of (None, w1) \<Rightarrow> (Inr (), w1)
     | (Some e, w1) \<Rightarrow> (case ask_err w1 of (cl, w2) \<Rightarrow> (Inl (Joined (some_errors [Some ErrPermission, Some e, cl])), w2))) = (Inl e', w')"
    then obtain e w1 cl w2 where "ask_err w = (Some e, w1)" "ask_err w1 = (cl, w2)" "e' = Joined (some_errors [Some ErrPermission, Some e, cl])"
      by (auto split: prod.splits option.splits)
    then show "\<not> error_is ErrNotExist e'" by (cases cl) (auto simp: ErrPermission_def dest: ask_err_opaque)
  qed
  then show ?thesis unfolding open_root_def by (intro finds_bind finds_basic reads_rules)
qed

text \<open>A method body runs on the same files, and its close changes nothing.\<close>

lemma with_root_cases:
  assumes "with_root c m w = (r, w')"
  obtains (unopened) e where "r = Inl e" "same_files w w'" "\<not> error_is ErrNotExist e"
    | (opened) w1 r1 w2 where "same_files w w1" "m w1 = (r1, w2)" "same_files w2 w'"
      "\<And>x. r = Inr x \<Longrightarrow> r1 = Inr x" "\<And>e. r = Inl e \<Longrightarrow> error_is ErrNotExist e \<Longrightarrow> \<exists>e1. r1 = Inl e1 \<and> error_is ErrNotExist e1"
  using assms unfolding with_root_def
proof (cases rule: bindE_cases)
  case (stop e)
  moreover have "\<not> error_is ErrNotExist e" using open_root_finds [of "cw_tree w" c] stop(1) by (auto simp: finds_def)
  ultimately show ?thesis using unopened readsD [OF reads_open_root] by blast
next
  case (go x w1)
  from go(2) obtain r1 w2 cl where m: "m w1 = (r1, w2)" "ask_err w2 = (cl, w')" by (rule deferred_cases)
  show ?thesis
    by (rule opened [OF readsD [OF reads_open_root go(1)] m(1) ask_err_same [OF m(2)]])
      (use go(2) m deferred_Inr deferred_Inl in fastforce)+
qed

lemma observe_result:
  assumes "observe cfg c p w = (Inr z, w')" "wf_tree (nodes w)" "p \<noteq> []"
  shows "z = slot_object cfg (regs (nodes w) p) \<and> (po_Present z \<longleftrightarrow> nodes w p \<noteq> None)"
proof -
  obtain r w1 where r1: "readUpdateFile cfg c p w = (r, w1)" by fastforce
  with assms(1) have b: "(case r of Inr (_, x) \<Rightarrow> ret x | Inl e \<Rightarrow> if error_is ErrNotExist e then ret absent_object else throw e) w1 = (Inr z, w')"
    by (simp add: observe_def bindE_def tryE_def)
  then have "w1 = w'" by (auto simp: ret_def throw_def split: sum.splits prod.splits if_splits)
  then have r: "readUpdateFile cfg c p w = (r, w')" using r1 by simp
  show ?thesis
  proof (cases r)
    case (Inl e)
    with b have "error_is ErrNotExist e" "z = absent_object" by (auto simp: ret_def throw_def split: if_splits)
    moreover have "nodes w p = None" using readUpdateFile_none r Inl calculation(1) assms(2,3) by blast
    ultimately show ?thesis by (simp add: slot_object_def regs_def absent_object_def)
  next
    case (Inr y)
    obtain body x where y: "y = (body, x)" by (cases y)
    with b Inr have "z = x" by (simp add: ret_def)
    moreover obtain f where "regs (nodes w) p = Some f" "x = object_of cfg f"
      using readUpdateFile_some [of cfg c p w body x w'] r Inr y by blast
    ultimately show ?thesis
      by (auto simp: slot_object_def regs_def object_of_def split: option.splits fnode.splits)
  qed
qed

lemma observe_error: "observe cfg c p w = (Inl e, w') \<Longrightarrow> \<not> error_is ErrNotExist e"
  by (auto simp: observe_def bindE_def tryE_def ret_def throw_def split: prod.splits sum.splits if_splits)

lemma slot_at: "fileUpdatePath (sc_goos cfg) role tx = Inr (p, m) \<Longrightarrow> file_slots cfg w role tx = regs (nodes w) p"
  by (simp add: file_slots_def slot_def)

lemma file_load:
  assumes "wf_tree (nodes w)" "store_Load cfg c role tx w = (x, w')"
  shows "file_goes cfg (file_slots cfg w) w w' \<and>
      (\<forall>b. x = Inr b \<longrightarrow> (\<exists>f. file_slots cfg w role tx = Some f \<and> rf_content f = b)) \<and>
      (\<forall>e. x = Inl e \<longrightarrow> error_is ErrNotExist e \<longrightarrow> file_slots cfg w role tx = None)"
proof -
  have g: "file_goes cfg (file_slots cfg w) w w'" using assms(2) reads_goes reads_store(1) by blast
  from assms(2) show ?thesis unfolding store_Load_def
  proof (cases rule: at_path_cases)
    case (good p m)
    have pn: "p \<noteq> []" using good(1) slot_path_not_temp by blast
    from good(2) show ?thesis
    proof (cases rule: with_root_cases)
      case (opened w1 r1 w2)
      have n: "nodes w1 = nodes w" using opened(1) by (simp add: same_files_def)
      from opened(2) show ?thesis
      proof (cases rule: bindE_cases)
        case (stop e)
        then have "error_is ErrNotExist e \<Longrightarrow> regs (nodes w) p = None"
          using readUpdateFile_none [of cfg c p w1 e w2] n assms(1) pn by (simp add: regs_def)
        then show ?thesis using g stop opened(4,5) good(1) by (auto simp: slot_at)
      next
        case (go y w3)
        then obtain b z where "readUpdateFile cfg c p w1 = (Inr (b, z), w3)" "r1 = Inr b" by (cases y) (auto simp: ret_def)
        then show ?thesis using readUpdateFile_some [of cfg c p w1 b z w3] n g good(1) opened(4,5) by (auto simp: slot_at)
      qed
    qed (use g in auto)
  qed (use g in auto)
qed

lemma file_inspect:
  assumes "wf_tree (nodes w)" "store_Inspect cfg c role tx w = (y, w')"
  shows "file_goes cfg (file_slots cfg w) w w' \<and> (\<forall>z. y = Inr z \<longrightarrow> z = slot_object cfg (file_slots cfg w role tx)) \<and>
    (\<forall>e. y = Inl e \<longrightarrow> \<not> error_is ErrNotExist e)"
proof -
  have g: "file_goes cfg (file_slots cfg w) w w'" using assms(2) reads_goes reads_store(2) by blast
  from assms(2) show ?thesis unfolding store_Inspect_def
  proof (cases rule: at_path_cases)
    case (good p m)
    have pn: "p \<noteq> []" using good(1) slot_path_not_temp by blast
    from good(2) show ?thesis
    proof (cases rule: with_root_cases)
      case (opened w1 r1 w2)
      have n: "nodes w1 = nodes w" using opened(1) by (simp add: same_files_def)
      have "z = slot_object cfg (file_slots cfg w role tx)" if "y = Inr z" for z
        using observe_result [of cfg c p w1 z w2] opened(2) opened(4) [OF that] n assms(1) pn good(1) by (simp add: slot_at)
      moreover have "\<not> error_is ErrNotExist e" if y: "y = Inl e" for e
      proof
        assume "error_is ErrNotExist e"
        then obtain e1 where "r1 = Inl e1" "error_is ErrNotExist e1" using opened(5) [OF y] by blast
        then show False using opened(2) observe_error by blast
      qed
      ultimately show ?thesis using g by blast
    qed (use g in auto)
  qed (use g in auto)
qed

lemma keeps_parent: "keeps A (updateFileParent_from create prefix parts)"
proof (induction parts arbitrary: prefix)
  case (Cons part parts)
  note k = reads_keeps [OF reads_lstat] keeps_mkdir keeps_try reads_keeps [OF reads_basic(1)] reads_keeps [OF reads_basic(2)]
    reads_keeps [OF reads_basic(3)]
  show ?case unfolding updateFileParent_from.simps
    by (intro keeps_bind Cons.IH) (auto intro!: k keeps_bind split: sum.splits)
qed (simp add: reads_keeps reads_basic)

lemma save_allowed_effect:
  assumes "save_allowed role path w = (r, w')"
  shows "changes temps w w'" "r = Inr () \<Longrightarrow> role = UpdateJournal \<or> regs (nodes w') path = None"
proof -
  show "changes temps w w'"
  proof (rule keepsD [of temps "save_allowed role path", OF _ assms])
    show "keeps temps (save_allowed role path)" unfolding save_allowed_def updateFileParent_def
      by (intro keeps_bind keeps_parent keeps_try reads_keeps [OF reads_lstat])
        (auto intro!: reads_keeps [OF reads_basic(1)] reads_keeps [OF reads_basic(2)] reads_keeps [OF reads_basic(3)]
           split: sum.splits)
  qed
  assume r: "r = Inr ()"
  from assms [unfolded r save_allowed_def bindE_Inr tryE_eq] obtain w1 x w2 where l: "lstat path w1 = (x, w2)" and
    b: "(case x of Inr n \<Rightarrow> if role \<noteq> UpdateJournal then throw ErrExist else guardE (case n of Reg _ \<Rightarrow> True | _ \<Rightarrow> False) ErrPermission
     | Inl e \<Rightarrow> if error_is ErrNotExist e then ret () else throw e) w2 = (Inr (), w')"
    by auto
  show "role = UpdateJournal \<or> regs (nodes w') path = None"
  proof (cases x)
    case (Inl e)
    with b have e: "error_is ErrNotExist e" "w2 = w'" by (auto simp: ret_def throw_def split: if_splits)
    then have "\<not> finds (cw_tree w1) (lstat path)" using l Inl by (auto simp: finds_def)
    then have "nodes w1 path = None" using finds_lstat by blast
    then show ?thesis using readsD [OF reads_lstat l] e by (simp add: regs_def same_files_def)
  qed (use b in \<open>auto simp: throw_def split: if_splits\<close>)
qed

lemma failed_unchanged:
  "\<exists>e. u = Inl e \<Longrightarrow> changes temps w w' \<Longrightarrow> ((\<exists>e. u = Inl e) \<and> file_goes cfg (file_slots cfg w) w w') \<or> P"
  by (simp add: changes_goes)

lemma file_save:
  assumes "wf_tree (nodes w)" "store_Save cfg c role tx b w = (u, w')"
  shows "((\<exists>e. u = Inl e) \<and> file_goes cfg (file_slots cfg w) w w') \<or>
      (\<exists>f. rf_content f = b \<and> (role = UpdateJournal \<or> file_slots cfg w role tx = None) \<and> role \<noteq> InstalledBinary \<and>
        file_goes cfg (put (file_slots cfg w) role tx (Some f)) w w')"
proof (cases "length b > maxCoreBinarySize \<or> role = InstalledBinary \<or> role = PairJournal")
  case True
  then have "u = Inl ErrInvalid" "w' = w" using assms(2) by (auto simp: store_Save_def throw_def)
  then show ?thesis by (intro failed_unchanged) simp_all
next
  case False
  with assms(2) have "at_path cfg role tx (\<lambda>path mode. with_root c (
        bindE (save_allowed role path) (\<lambda>_. save_content cfg c path mode b))) w = (u, w')"
    by (simp add: store_Save_def)
  then show ?thesis
  proof (cases rule: at_path_cases)
    case (good p m)
    have pt: "p \<notin> temps" using good(1) slot_path_not_temp by blast
    from good(2) show ?thesis
    proof (cases rule: with_root_cases)
      case (unopened e)
      then show ?thesis by (intro failed_unchanged same_files_changes) simp_all
    next
      case (opened w1 r1 w2)
      have c1: "changes temps w w1" "changes temps w2 w'" using opened(1,3) same_files_changes by blast+
      have fail: "\<exists>e. u = Inl e" if "r1 = Inl e" for e using opened(4) that by (cases u) auto
      from opened(2) show ?thesis
      proof (cases rule: bindE_cases)
        case (stop e)
        then have "changes temps w w'" using changes_trans [OF changes_trans [OF c1(1) save_allowed_effect(1) [OF stop(1)]] c1(2)] by blast
        moreover have "\<exists>e. u = Inl e" using fail [OF stop(2)] .
        ultimately show ?thesis by (intro failed_unchanged)
      next
        case (go y w3)
        have c3: "changes temps w w3" using go(1) save_allowed_effect(1) c1(1) changes_trans by blast
        have free: "role = UpdateJournal \<or> file_slots cfg w role tx = None"
          using save_allowed_effect(2) [OF go(1)] changes_agree [OF c3] pt good(1) by (auto simp: agree_def slot_at)
        from save_content_effect [OF go(2) pt] show ?thesis
        proof
          assume "(\<exists>e. r1 = Inl e) \<and> changes temps w3 w2"
          then show ?thesis using fail changes_trans [OF changes_trans [OF c3] c1(2)] by (intro failed_unchanged) blast+
        next
          assume "\<exists>g. rf_content g = b \<and> jump ((regs (nodes w3))(p := Some g)) w3 w2"
          then obtain g where g: "rf_content g = b" "jump ((regs (nodes w3))(p := Some g)) w3 w2" by blast
          have j: "jump ((regs (nodes w))(p := Some g)) w w'"
            by (rule jump_cong [OF agree_upd [OF changes_agree [OF c3]]]) (rule changes_jump [OF c3 jump_changes [OF g(2) c1(2)]])
          have "file_goes cfg (put (file_slots cfg w) role tx (Some g)) w w'"
            by (rule jump_goes [OF j]) (simp add: file_slots_def slot_upd [OF good(1)])
          then show ?thesis using g(1) free False by (intro disjI2 exI [of _ g]) simp
        qed
      qed
    qed
  qed (intro failed_unchanged, simp_all)
qed

lemma remove_effect:
  assumes "remove_path p w = (r, w')"
  shows "(\<exists>e. r = Inl e \<and> same_files w w') \<or> (r = Inr () \<and> jump ((regs (nodes w))(p := None)) w w')"
proof -
  from keeps_remove [of p "{p}"] assms have c: "changes {p} w w'" using keepsD by blast
  from assms show ?thesis unfolding remove_path_def
  proof (cases rule: bindE_cases)
    case (go x w1)
    then have s: "same_files w w1" using readsD reads_basic(4) by blast
    then have n: "cw_tree w1 = cw_tree w" "cw_seen w1 = cw_seen w" by (auto simp: same_files_def)
    show ?thesis
    proof (cases r)
      case (Inr u)
      with go n have "nodes w' = (nodes w)(p := None)" "cw_seen w' = nodes w # cw_seen w"
        by (auto simp: tree_simps split: option.splits if_splits)
      then show ?thesis using c Inr by (auto simp: jump_def changes_def agree_def regs_del)
    qed (use go s in \<open>auto split: option.splits if_splits\<close>)
  qed (use readsD reads_basic(4) in blast)
qed

text \<open>The two ways a mutation ends.\<close>

definition applied :: "store_cfg \<Rightarrow> prov_mutation \<Rightarrow> cworld \<Rightarrow> cworld \<Rightarrow> bool" where
  "applied cfg a w w' \<longleftrightarrow>
     (pm_Source a = [] \<and> file_goes cfg (put (file_slots cfg w) (pm_Role a) (pm_Transaction a) None) w w') \<or>
     (pm_Role a = InstalledBinary \<and> pm_Source a \<in> {UpdateCandidate, UpdateRestore} \<and>
      (\<exists>f. file_slots cfg w (pm_Source a) (pm_Transaction a) = Some f \<and> sameObject (slot_object cfg (Some f)) (pm_SourceExpected a) \<and>
        file_goes cfg (put (put (file_slots cfg w) (pm_Source a) (pm_Transaction a) None) InstalledBinary (pm_Transaction a) (Some f)) w w'))"

lemma apply_move_effect:
  assumes "apply_move cfg c a path w = (r, w')" "fileUpdatePath (sc_goos cfg) InstalledBinary (pm_Transaction a) = Inr (path, m)"
    "pm_Role a = InstalledBinary" "pm_Source a \<in> {UpdateCandidate, UpdateRestore}"
  shows "((\<exists>e. r = Inl e) \<and> changes temps w w') \<or> applied cfg a w w'"
  using assms(1) unfolding apply_move_def
proof (cases rule: at_path_cases)
  case (good source m')
  have ne: "source \<noteq> path" using fileUpdatePath_inject [OF assms(2), of "pm_Source a" "pm_Transaction a" m'] good(1) assms(4) by (auto simp: role_defs)
  from good(2) show ?thesis
  proof (cases rule: bindE_cases)
    case (stop e)
    then show ?thesis using readsD [OF reads_readUpdateFile] same_files_changes by blast
  next
    case (go y w1)
    obtain b from1 where y: "y = (b, from1)" by (cases y)
    have s1: "same_files w w1" using go(1) readsD reads_readUpdateFile by blast
    obtain f where f: "regs (nodes w) source = Some f" "from1 = object_of cfg f"
      using readUpdateFile_some [of cfg c source w b from1 w1] go(1) y by blast
    from go(2) have "bindE (guardE (sameObject from1 (pm_SourceExpected a)) (dataFailure ''core update source identity changed'')) (\<lambda>_.
       bindE (rename_path source path) (\<lambda>_. bindE (syncUpdateDirectory cfg) (\<lambda>_. syncUpdateDirectory cfg))) w1 = (r, w')"
      by (simp add: y)
    then show ?thesis
    proof (cases rule: bindE_cases)
      case (stop e)
      then have "same_files w w'" using s1 readsD [OF reads_basic(3)] same_files_trans by blast
      then show ?thesis using stop same_files_changes by blast
    next
      case (go u w2)
      have same: "sameObject from1 (pm_SourceExpected a)" and w2: "w2 = w1"
        using go(1) by (auto simp: guardE_def ret_def throw_def split: if_splits)
      have f1: "regs (nodes w1) source = Some f" using f(1) s1 by (simp add: same_files_def)
      from go(2) show ?thesis unfolding w2
      proof (cases rule: bindE_cases)
        case (stop e)
        then have "same_files w w'" using rename_changes [OF stop(1) f1 ne] s1 same_files_trans by blast
        then show ?thesis using stop same_files_changes by blast
      next
        case (go u3 w3)
        let ?v = "((regs (nodes w1))(source := None))(path := Some f)"
        have "jump ?v w1 w3" using rename_changes [OF go(1) f1 ne] ne by (auto simp: jump_def changes_def agree_def)
        moreover have "changes temps w3 w'"
        proof (rule same_files_changes)
          have "reads (bindE (syncUpdateDirectory cfg) (\<lambda>_. syncUpdateDirectory cfg))" by (intro reads_rules)
          then show "same_files w3 w'" using go(2) readsD by blast
        qed
        ultimately have j: "jump ?v w w'"
          using changes_jump [OF same_files_changes [OF s1]] jump_changes by blast
        have "file_goes cfg (put (put (file_slots cfg w) (pm_Source a) (pm_Transaction a) None) InstalledBinary (pm_Transaction a) (Some f)) w w'"
        proof (rule jump_goes [OF j])
          fix t assume t: "agree (regs t) ?v"
          let ?t1 = "(nodes w)(source := None)"
          have r1: "regs ?t1 = (regs (nodes w1))(source := None)" using s1 by (auto simp: regs_del same_files_def fun_eq_iff)
          have "slot cfg ?t1 = put (file_slots cfg w) (pm_Source a) (pm_Transaction a) None"
            using s1 r1 slot_upd [OF good(1), of ?t1 "nodes w" None] by (simp add: file_slots_def same_files_def)
          moreover have "slot cfg t = put (slot cfg ?t1) InstalledBinary (pm_Transaction a) (Some f)"
            by (rule slot_upd [OF assms(2)]) (simp add: r1 t)
          ultimately show "slot cfg t = put (put (file_slots cfg w) (pm_Source a) (pm_Transaction a) None) InstalledBinary (pm_Transaction a) (Some f)"
            by simp
        qed
        then have "applied cfg a w w'"
          unfolding applied_def using assms(3,4) f same good(1) by (auto simp: slot_at slot_object_def)
        then show ?thesis ..
      qed
    qed
  qed
qed simp

lemma installed_path: "fileUpdatePath g InstalledBinary tx = fileUpdatePath g InstalledBinary tx'"
  by (simp add: fileUpdatePath_def)

lemma put_absent: "file_slots cfg w role tx = None \<Longrightarrow> put (file_slots cfg w) role tx None = file_slots cfg w"
proof (intro ext)
  fix r t assume n: "file_slots cfg w role tx = None"
  have "file_slots cfg w InstalledBinary t = file_slots cfg w InstalledBinary tx"
    using installed_path [of "sc_goos cfg" t tx] by (simp add: file_slots_def slot_def)
  then show "put (file_slots cfg w) role tx None r t = file_slots cfg w r t" using n by (auto simp: put_def)
qed

lemma file_apply:
  assumes "wf_tree (nodes w)" "store_Apply cfg c a w = (u, w')"
  shows "((\<exists>e. u = Inl e) \<and> file_goes cfg (file_slots cfg w) w w') \<or>
    (sameObject (slot_object cfg (file_slots cfg w (pm_Role a) (pm_Transaction a))) (pm_Expected a) \<and> applied cfg a w w')"
  using assms(2) unfolding store_Apply_def
proof (cases rule: at_path_cases)
  case (good p m)
  have pn: "p \<noteq> []" and pt: "p \<notin> temps" using good(1) slot_path_not_temp by blast+
  from good(2) show ?thesis
  proof (cases rule: with_root_cases)
    case (unopened e)
    then show ?thesis by (intro failed_unchanged same_files_changes) simp_all
  next
    case (opened w1 r1 w2)
    have c1: "changes temps w w1" "changes temps w2 w'" using opened(1,3) same_files_changes by blast+
    have fail: "\<exists>e. u = Inl e" if "r1 = Inl e" for e using opened(4) that by (cases u) auto
    have stay: ?thesis if "r1 = Inl e" "changes temps w1 w2" for e
      using fail [OF that(1)] changes_trans [OF changes_trans [OF c1(1) that(2)] c1(2)] by (intro failed_unchanged)
    from opened(2) show ?thesis
    proof (cases rule: bindE_cases)
      case (stop e)
      then show ?thesis using stay keepsD [OF keeps_parent] by (auto simp: updateFileParent_def)
    next
      case (go y w3)
      have c3: "changes temps w1 w3" using go(1) keepsD [OF keeps_parent] by (auto simp: updateFileParent_def)
      then have c3': "changes temps w w3" using c1(1) changes_trans by blast
      then have wf3: "wf_tree (nodes w3)" using assms(1) by (simp add: changes_def)
      have s3: "file_slots cfg w3 = file_slots cfg w"
        unfolding file_slots_def by (rule slot_agree [OF changes_agree [OF c3']])
      from go(2) show ?thesis
      proof (cases rule: bindE_cases)
        case (stop e)
        then show ?thesis using stay changes_trans [OF c3] same_files_changes [OF readsD [OF reads_observe]] by blast
      next
        case (go actual w4)
        have f4: "same_files w3 w4" using go(1) readsD reads_observe by blast
        have c4: "changes temps w1 w4" using changes_trans [OF c3 same_files_changes [OF f4]] .
        have act: "actual = slot_object cfg (file_slots cfg w (pm_Role a) (pm_Transaction a))"
          using observe_result [OF go(1) wf3 pn] good(1) s3 by (simp add: slot_at [symmetric])
        from go(2) show ?thesis
        proof (cases rule: bindE_cases)
          case (stop e)
          then show ?thesis using stay changes_trans [OF c4] same_files_changes [OF readsD [OF reads_basic(3)]] by blast
        next
          case (go z w5)
          have same: "sameObject actual (pm_Expected a)" and w5: "w5 = w4"
            using go(1) by (auto simp: guardE_def ret_def throw_def split: if_splits)
          have c4': "changes temps w w4" using changes_trans [OF c1(1) c4] .
          have s4: "file_slots cfg w4 = file_slots cfg w"
            unfolding file_slots_def by (rule slot_agree [OF changes_agree [OF c4']])
          have finish: ?thesis if "applied cfg a w4 w2"
          proof -
            have "goes file_inv (file_slots cfg) (file_past cfg) s w4 w2 \<Longrightarrow> file_goes cfg s w w'" for s
              using changes_goes [OF c4', of cfg] changes_goes [OF c1(2), of cfg] unfolding goes_def by auto
            then show ?thesis using that act same unfolding applied_def s4 by blast
          qed
          have b: "(if pm_Source a = [] then if \<not> po_Present actual then ret () else bindE (remove_path p) (\<lambda>_. syncUpdateDirectory cfg)
              else if pm_Role a \<noteq> InstalledBinary \<or> (pm_Source a \<noteq> UpdateCandidate \<and> pm_Source a \<noteq> UpdateRestore)
              then throw ErrInvalid else apply_move cfg c a p) w4 = (r1, w2)"
            using go(2) by (simp add: w5)
          show ?thesis
          proof (cases "pm_Source a = []")
            case True
            show ?thesis
            proof (cases "po_Present actual")
              case False
              then have "file_slots cfg w (pm_Role a) (pm_Transaction a) = None"
                using act by (auto simp: slot_object_def object_of_def split: option.splits)
              then have "applied cfg a w4 w2"
                using b True False changes_goes [OF changes_refl, of cfg w4]
                  put_absent [of cfg w4 "pm_Role a" "pm_Transaction a"] s4
                by (simp add: applied_def ret_def)
              then show ?thesis by (rule finish)
            next
              case present: True
              with b True have "bindE (remove_path p) (\<lambda>_. syncUpdateDirectory cfg) w4 = (r1, w2)" by simp
              then show ?thesis
              proof (cases rule: bindE_cases)
                case (stop e)
                then have "changes temps w4 w2" using remove_effect [OF stop(1)] same_files_changes by auto
                then show ?thesis using stay stop(2) changes_trans [OF c4] by blast
              next
                case (go x w6)
                then have "jump ((regs (nodes w4))(p := None)) w4 w6" using remove_effect [OF go(1)] by auto
                then have j: "jump ((regs (nodes w4))(p := None)) w4 w2"
                  using jump_changes same_files_changes [OF readsD [OF reads_sync go(2)]] by blast
                have "file_goes cfg (put (file_slots cfg w4) (pm_Role a) (pm_Transaction a) None) w4 w2"
                  by (rule jump_goes [OF j]) (simp add: file_slots_def slot_upd [OF good(1)])
                then show ?thesis by (intro finish) (simp add: applied_def True)
              qed
            qed
          next
            case False
            show ?thesis
            proof (cases "pm_Role a = InstalledBinary \<and> pm_Source a \<in> {UpdateCandidate, UpdateRestore}")
              case True
              with b False have mv: "apply_move cfg c a p w4 = (r1, w2)" by auto
              from apply_move_effect [OF mv _ _ ] good(1) True
              have "((\<exists>e. r1 = Inl e) \<and> changes temps w4 w2) \<or> applied cfg a w4 w2" by auto
              then show ?thesis using stay finish changes_trans [OF c4] by blast
            next
              case bad: False
              then have "r1 = Inl ErrInvalid" "w2 = w4" using b False by (auto simp: throw_def split: if_splits)
              then show ?thesis using stay c4 by blast
            qed
          qed
        qed
      qed
    qed
  qed
qed (intro failed_unchanged, simp_all)

lemma remove_empty_changes:
  assumes "remove_empty cfg c dir w = (r, w')" shows "changes temps w w'"
  using assms unfolding remove_empty_def
proof (cases rule: bindE_cases)
  case (stop e)
  then show ?thesis using same_files_changes readsD [OF reads_lstat] by blast
next
  case (go n w1)
  have s1: "same_files w w1" using go(1) readsD reads_lstat by blast
  from go(2) show ?thesis
  proof (cases rule: bindE_cases)
    case (stop e)
    then show ?thesis using same_files_changes same_files_trans [OF s1] readsD [OF reads_basic(3)] by blast
  next
    case (go u w2)
    have w2: "w2 = w1" "n = Dir" using go(1) by (auto simp: guardE_def ret_def throw_def split: if_splits)
    have d: "nodes w dir = Some Dir"
      using \<open>lstat dir w = (Inr n, w1)\<close> w2 by (auto simp: lstat_def bindE_Inr same_files_def split: option.splits dest!: readsD [OF reads_basic(4)])
    have k: "changes temps x x'" if "remove_path dir x = (y, x')" "cw_tree x = cw_tree w" for x y x'
    proof (cases y)
      case (Inl e)
      then show ?thesis using remove_effect [OF that(1)] same_files_changes by auto
    next
      case (Inr z)
      then have j: "jump ((regs (nodes x))(dir := None)) x x'" using remove_effect [OF that(1)] by auto
      have "(regs (nodes x))(dir := None) = regs (nodes x)" using d that(2) by (auto simp: regs_def fun_eq_iff)
      with j show ?thesis by (simp add: jump_stay)
    qed
    from go(2) obtain v w3 where u: "unchanged w1 = (v, w3)" and
      b: "(\<exists>e. v = Inl e \<and> w' = w3) \<or> bindE (ctx_err c) (\<lambda>_. bindE (tryE (remove_path dir)) (\<lambda>m. case m of
       Inl e \<Rightarrow> if error_is ErrNotExist e then syncUpdateDirectory cfg else throw e | Inr _ \<Rightarrow> syncUpdateDirectory cfg)) w3 = (r, w')"
      unfolding w2(1) by (cases rule: bindE_cases) auto
    have s3: "same_files w w3" using u same_files_trans [OF s1] readsD [OF reads_basic(5)] by blast
    from b show ?thesis
    proof
      assume "bindE (ctx_err c) (\<lambda>_. bindE (tryE (remove_path dir)) (\<lambda>m. case m of
       Inl e \<Rightarrow> if error_is ErrNotExist e then syncUpdateDirectory cfg else throw e | Inr _ \<Rightarrow> syncUpdateDirectory cfg)) w3 = (r, w')"
      then show ?thesis
      proof (cases rule: bindE_cases)
        case (stop e)
        then show ?thesis using same_files_changes same_files_trans [OF s3] readsD [OF reads_basic(6)] by blast
      next
        case (go x w4)
        have s4: "same_files w w4" using go(1) same_files_trans [OF s3] readsD [OF reads_basic(6)] by blast
        from go(2) obtain m w5 where m: "remove_path dir w4 = (m, w5)" and
          t: "(case m of Inl e \<Rightarrow> if error_is ErrNotExist e then syncUpdateDirectory cfg else throw e | Inr _ \<Rightarrow> syncUpdateDirectory cfg) w5 = (r, w')"
          by (cases rule: bindE_cases) (auto simp: tryE_eq)
        have "changes temps w4 w5" using k [OF m] s4 by (simp add: same_files_def)
        moreover have "same_files w5 w'"
          using t readsD [OF reads_sync] readsD [OF reads_basic(2)] by (cases m) (auto split: if_splits)
        ultimately show ?thesis
          using changes_trans [OF same_files_changes [OF s4]] changes_trans same_files_changes by blast
      qed
    qed (use s3 same_files_changes in blast)
  qed
qed

lemma keeps_with_root: "keeps A m \<Longrightarrow> keeps A (with_root c m)"
  unfolding with_root_def by (intro keeps_bind keeps_deferred reads_keeps [OF reads_open_root])

lemma keeps_at_path: "(\<And>p m. keeps A (f p m)) \<Longrightarrow> keeps A (at_path cfg role tx f)"
  by (auto simp: at_path_def intro: reads_keeps [OF reads_basic(2)] split: sum.splits)

lemma reads_list_first: "reads (list_first dir)"
  unfolding list_first_def
  by (intro reads_rules) (auto simp: reads_def same_files_def split: prod.splits option.splits dest!: ask_err_same)

lemma keeps_directories: "keeps temps (syncCleanupRecord cfg c tx)" "keeps temps (cleanupTransactions cfg c)"
  "keeps temps (removeEmptyCleanupDirectory cfg c tx)"
proof -
  show "keeps temps (syncCleanupRecord cfg c tx)" unfolding syncCleanupRecord_def updateFileParent_def
    by (intro keeps_at_path keeps_with_root reads_keeps reads_rules)
  have "reads (keep_transactions c t dir ns)" for t dir ns
    by (induction ns) (auto intro!: reads_rules)
  then have "reads (\<lambda>w. keep_transactions c (nodes w) dir (entries_of dir (cw_tree w)) w)" for dir
    by (simp add: reads_def)
  then show "keeps temps (cleanupTransactions cfg c)" unfolding cleanupTransactions_def updateFileParent_def Let_def
    by (intro keeps_with_root reads_keeps reads_bind reads_try reads_parent)
      (auto intro!: reads_rules split: sum.splits)
  have "keeps temps (remove_empty cfg c dir)" for dir
    using remove_empty_changes by (simp add: keeps_def)
  then show "keeps temps (removeEmptyCleanupDirectory cfg c tx)"
    unfolding removeEmptyCleanupDirectory_def updateFileParent_def
    by (intro keeps_at_path keeps_with_root keeps_bind reads_keeps [OF reads_try] reads_parent)
      (auto intro!: keeps_bind reads_keeps [OF reads_list_first] reads_keeps [OF reads_basic(1)] reads_keeps [OF reads_basic(2)]
        split: sum.splits if_splits)
qed

lemma gate_changes: "acquire c w = (u, w') \<Longrightarrow> changes temps w w'" "admitInstalled z w = (u, w') \<Longrightarrow> changes temps w w'"
  "changes temps w (acceptPublished z w)"
proof -
  have "reads (acquire c)" unfolding acquire_def by (intro reads_rules)
  then show "acquire c w = (u, w') \<Longrightarrow> changes temps w w'" using same_files_changes readsD by blast
qed (auto simp: admitInstalled_def acceptPublished_def changes_def split: if_splits)

lemma fileUpdateStore_methods [simp]:
  "ps_Load (fileUpdateStore cfg) = store_Load cfg" "ps_Save (fileUpdateStore cfg) = store_Save cfg"
  "ps_Apply (fileUpdateStore cfg) = store_Apply cfg" "ps_Inspect (fileUpdateStore cfg) = store_Inspect cfg"
  "ps_acquire (fileUpdateStore cfg) = acquire" "ps_admitInstalled (fileUpdateStore cfg) = admitInstalled"
  "ps_acceptPublished (fileUpdateStore cfg) = (\<lambda>x w. (Inr (), acceptPublished x w))"
  "ps_syncCleanupRecord (fileUpdateStore cfg) = syncCleanupRecord cfg"
  "ps_cleanupTransactions (fileUpdateStore cfg) = cleanupTransactions cfg"
  "ps_removeEmptyCleanupDirectory (fileUpdateStore cfg) = removeEmptyCleanupDirectory cfg"
  "ps_ctxErr (fileUpdateStore cfg) = ctx_err" "ps_digest (fileUpdateStore cfg) = digest cfg"
  by (simp_all add: fileUpdateStore_def)

lemma file_directories:
  "syncCleanupRecord cfg c tx w = (u, w') \<Longrightarrow> changes temps w w'"
  "cleanupTransactions cfg c w = (ts, w') \<Longrightarrow> changes temps w w'"
  "removeEmptyCleanupDirectory cfg c tx w = (u, w') \<Longrightarrow> changes temps w w'"
  by (blast intro: keepsD keeps_directories)+

interpretation file_store: object_store "fileUpdateStore cfg" file_inv "file_slots cfg" "file_past cfg" for cfg
  apply (unfold_locales, unfold observed_file fileUpdateStore_methods)
  subgoal by (rule file_load)
  subgoal by (rule file_inspect)
  subgoal by (rule file_save)
  subgoal by (rule file_apply [unfolded applied_def])
  subgoal by (rule changes_goes [OF gate_changes(1)])
  subgoal by (rule changes_goes [OF gate_changes(2)])
  subgoal using changes_goes [OF gate_changes(3)] by auto
  subgoal by (rule reads_goes [OF reads_basic(6)])
  subgoal by (rule changes_goes [OF file_directories(1)])
  subgoal by (rule changes_goes [OF file_directories(2)])
  subgoal by (rule changes_goes [OF file_directories(3)])
  subgoal for w t using installed_path [of "sc_goos cfg" t "[]"] by (simp add: file_slots_def slot_def)
  done

end
