(* ===== verification/Core_Update.thy ===== *)
theory Core_Update
  imports Core_Store
begin

text \<open>
  \<open>internal/core/update_transaction.go\<close> and \<open>startup_cleanup.go\<close>: the journal of a core update,
  its phases, and the retirement of completed transactions. The operations work on a
  transaction and a world behind the store interface of \<open>Core_Store\<close>. A transaction value is
  never nil here: the constructors return one exactly when they succeed.
\<close>

section \<open>Data\<close>

record core_selection =
  cs_Channel :: string
  cs_Bundle :: string
  cs_Version :: string
  cs_AlphaSHA :: string

record update_intent =
  ui_Previous :: core_selection
  ui_Next :: core_selection
  ui_WasRunning :: bool
  ui_StartNew :: bool
  ui_Reinstall :: bool

record update_journal =
  uj_Schema :: string
  uj_Transaction :: string
  uj_Phase :: string
  uj_Intent :: update_intent
  uj_Old :: prov_object
  uj_New :: prov_object
  uj_Backup :: prov_object
  uj_Restore :: prov_object
  uj_Marker :: prov_object

record utx =
  ut_journal :: update_journal
  ut_warnings :: "go_error list"
  ut_uncertain :: bool

definition updateSchema :: string where
  "updateSchema = ''mihari.core-update/v1''"

text \<open>\<open>json.Marshal\<close> of a journal, the value a JSON text holds with the error of reading the
  token after it (\<open>io.EOF\<close> when nothing follows), and \<open>Decoder.Decode\<close> into a journal with
  unknown fields refused.\<close>

record update_codec =
  uc_marshal :: "update_journal \<Rightarrow> go_error + string"
  uc_parse :: "string \<Rightarrow> go_error + json \<times> go_error option"
  uc_decode :: "string \<Rightarrow> go_error + update_journal"

definition validSelection :: "core_selection \<Rightarrow> bool" where
  "validSelection s \<longleftrightarrow> cs_Channel s = ''stable'' \<or> cs_Channel s = ''alpha''"

definition update_phases :: "string list" where
  "update_phases = [''prepared'', ''publishing'', ''verifying'', ''committing'', ''committed'', ''rolling_back'',
     ''rolled_back'', ''recovery_required'']"

text \<open>No object with the same member twice, at any level.\<close>

fun uniqueJSON :: "json \<Rightarrow> bool" where
  "uniqueJSON (JObj ms) \<longleftrightarrow> distinct (map fst ms) \<and> (\<forall>m \<in> set ms. uniqueJSON (snd m))"
| "uniqueJSON (JArr xs) \<longleftrightarrow> (\<forall>x \<in> set xs. uniqueJSON x)"
| "uniqueJSON _ \<longleftrightarrow> True"

definition decodeStrict :: "update_codec \<Rightarrow> string \<Rightarrow> go_error + update_journal" where
  "decodeStrict cd b =
     (if length b > 1048576 then Inl (dataFailure ''provenance document too large'')
      else case uc_parse cd b of
        Inl e \<Rightarrow> Inl (dataFailureCause ''invalid provenance JSON'' e)
      | Inr (j, tail) \<Rightarrow>
          if \<not> uniqueJSON j then Inl (dataFailureCause ''invalid provenance JSON'' ErrInvalid)
          else if tail \<noteq> Some ErrEOF then Inl (Failure (api CodeDataFailure ''invalid provenance JSON tail'') tail)
          else case uc_decode cd b of
            Inl e \<Rightarrow> Inl (dataFailureCause ''invalid provenance document'' e)
          | Inr x \<Rightarrow> Inr x)"

definition decodeUpdateJournal :: "'w pstore \<Rightarrow> update_codec \<Rightarrow> string \<Rightarrow> go_error + update_journal" where
  "decodeUpdateJournal st cd raw =
     (case decodeStrict cd raw of
        Inl e \<Rightarrow> Inl e
      | Inr j \<Rightarrow>
          if uj_Schema j \<noteq> updateSchema \<or> \<not> validTransaction (uj_Transaction j) \<or>
             \<not> validSelection (ui_Previous (uj_Intent j)) \<or> \<not> validSelection (ui_Next (uj_Intent j))
          then Inl (dataFailure ''invalid core update journal'')
          else if uj_Phase j \<notin> set update_phases then Inl (dataFailure ''invalid core update phase'')
          else if \<not> list_all validProvenanceObject [uj_Old j, uj_New j, uj_Backup j, uj_Restore j, uj_Marker j]
          then Inl (dataFailure ''invalid core update file observation'')
          else if \<not> po_Present (uj_New j) \<or> \<not> po_Present (uj_Marker j) \<or>
             po_SHA256 (uj_Marker j) \<noteq> ps_digest st (uj_Transaction j) \<or>
             po_Present (uj_Old j) \<noteq> po_Present (uj_Backup j) \<or> po_Present (uj_Old j) \<noteq> po_Present (uj_Restore j)
          then Inl (dataFailure ''incomplete core update journal'')
          else if po_Present (uj_Old j) \<and>
             (po_SHA256 (uj_Old j) \<noteq> po_SHA256 (uj_Backup j) \<or> po_SHA256 (uj_Old j) \<noteq> po_SHA256 (uj_Restore j))
          then Inl (dataFailure ''core update recovery hashes disagree'')
          else Inr j)"

section \<open>Operations of a transaction\<close>

type_synonym ('a, 'w) uop = "('a, utx \<times> 'w) io"

definition lift :: "('a, 'w) io \<Rightarrow> ('a, 'w) uop" where
  "lift m = (\<lambda>(u, w). case m w of (r, w') \<Rightarrow> (r, (u, w')))"

text \<open>The journal of the transaction, for the code that reads it.\<close>

definition with_utx :: "(utx \<Rightarrow> ('a, 'w) uop) \<Rightarrow> ('a, 'w) uop" where
  "with_utx f = (\<lambda>(u, w). f u (u, w))"

definition degraded :: "string \<Rightarrow> api_error" where
  "degraded message = \<lparr>err_code = CodeDataFailure, err_message = message, err_details = [(''degraded'', DBool True)]\<rparr>"

definition coreUpdateUncertain :: "go_error option \<Rightarrow> go_error" where
  "coreUpdateUncertain cause =
     Failure (degraded ''core update commit state could not be confirmed; recovery required'') cause"

definition err_of :: "go_error + 'a \<Rightarrow> go_error option" where
  "err_of r = (case r of Inl e \<Rightarrow> Some e | Inr _ \<Rightarrow> None)"

definition is_absent :: "go_error + 'a \<Rightarrow> bool" where
  "is_absent r \<longleftrightarrow> (case r of Inl e \<Rightarrow> error_is ErrNotExist e | Inr _ \<Rightarrow> False)"

definition verifyMarker :: "'w pstore \<Rightarrow> bool \<Rightarrow> (unit, 'w) uop" where
  "verifyMarker st c = with_utx (\<lambda>u.
     bindE (lift (ps_Inspect st c UpdateMarker (uj_Transaction (ut_journal u)))) (\<lambda>marker.
     guardE (sameObject marker (uj_Marker (ut_journal u))) (dataFailure ''core update transaction identity changed'')))"

text \<open>What is left of the previous phase when a save has failed and cannot be confirmed.\<close>

definition still_previous :: "update_codec \<Rightarrow> update_journal \<Rightarrow> go_error + string \<Rightarrow> bool" where
  "still_previous cd j actual \<longleftrightarrow>
     (uj_Phase j = [] \<and> is_absent actual) \<or>
     (case actual of Inl _ \<Rightarrow> False | Inr raw \<Rightarrow> decodeStrict cd raw = Inr j)"

definition writePhase :: "'w pstore \<Rightarrow> update_codec \<Rightarrow> bool \<Rightarrow> string \<Rightarrow> (unit, 'w) uop" where
  "writePhase st cd c phase = (\<lambda>(u, w).
     if ut_uncertain u then (Inl (coreUpdateUncertain None), (u, w))
     else let next = (ut_journal u)\<lparr>uj_Phase := phase\<rparr> in
       case uc_marshal cd next of
         Inl e \<Rightarrow> (Inl e, (u, w))
       | Inr raw \<Rightarrow>
         (case ps_Save st c UpdateJournal [] raw w of
            (Inr _, w1) \<Rightarrow> (Inr (), (u\<lparr>ut_journal := next\<rparr>, w1))
          | (Inl err, w1) \<Rightarrow>
            (case ps_Load st False UpdateJournal [] w1 of (actual, w2) \<Rightarrow>
              (if (case actual of Inl _ \<Rightarrow> True | Inr a \<Rightarrow> ps_digest st a \<noteq> ps_digest st raw)
               then (if still_previous cd (ut_journal u) actual then (Inl err, (u, w2))
                     else (Inl (coreUpdateUncertain (errors_join [Some err, err_of actual])), (u\<lparr>ut_uncertain := True\<rparr>, w2)))
               else (Inr (), (u\<lparr>ut_warnings := ut_warnings u @ [err], ut_journal := next\<rparr>, w2))))))"

definition move :: "'w pstore \<Rightarrow> bool \<Rightarrow> string \<Rightarrow> string \<Rightarrow> prov_object \<Rightarrow> prov_object \<Rightarrow> (unit, 'w) uop" where
  "move st c role source expected sourceExpected = (\<lambda>(u, w).
     let transaction = (if role = UpdateJournal then [] else uj_Transaction (ut_journal u)) in
     case ps_Apply st c \<lparr>pm_Role = role, pm_Source = source, pm_Transaction = transaction, pm_Expected = expected,
         pm_SourceExpected = sourceExpected\<rparr> w of
       (Inr _, w1) \<Rightarrow> (Inr (), (u, w1))
     | (Inl err, w1) \<Rightarrow>
         (case ps_Inspect st False role transaction w1 of (actual, w2) \<Rightarrow>
           let wanted = (if source = [] then absent_object else sourceExpected) in
           (if (case actual of Inl _ \<Rightarrow> True | Inr x \<Rightarrow> \<not> sameObject x wanted)
            then (Inl (Joined (some_errors [Some err, err_of actual])), (u, w2))
            else (Inr (), (u\<lparr>ut_warnings := ut_warnings u @ [err]\<rparr>, w2)))))"

definition recoveryFailure :: "'w pstore \<Rightarrow> update_codec \<Rightarrow> go_error \<Rightarrow> ('a, 'w) uop" where
  "recoveryFailure st cd cause = (\<lambda>(u, w).
     if ut_uncertain u \<or> uj_Phase (ut_journal u) = ''committed'' then (Inl (coreUpdateUncertain (Some cause)), (u, w))
     else case writePhase st cd False ''recovery_required'' (u, w) of (r, uw) \<Rightarrow>
       (Inl (Failure (degraded ''core update recovery failed; automatic execution prohibited'')
          (errors_join [Some cause, err_of r])), uw))"

text \<open>Turn the error of an operation into a recorded recovery failure.\<close>

definition or_recovery :: "'w pstore \<Rightarrow> update_codec \<Rightarrow> ('a, 'w) uop \<Rightarrow> ('a, 'w) uop" where
  "or_recovery st cd m uw = (case m uw of (Inr x, uw') \<Rightarrow> (Inr x, uw') | (Inl e, uw') \<Rightarrow> recoveryFailure st cd e uw')"

definition verifyFinalCore :: "'w pstore \<Rightarrow> bool \<Rightarrow> bool \<Rightarrow> (unit, 'w) uop" where
  "verifyFinalCore st c committed = with_utx (\<lambda>u. let j = ut_journal u in
     bindE (lift (ps_Inspect st c InstalledBinary [])) (\<lambda>current.
     guardE ((committed \<and> sameObject current (uj_New j)) \<or>
         (\<not> committed \<and> (sameObject current (uj_Old j) \<or> (po_Present (uj_Old j) \<and> sameObject current (uj_Restore j)))))
       (dataFailure ''core identity disagrees with completed update'')))"

definition Publish :: "'w pstore \<Rightarrow> update_codec \<Rightarrow> bool \<Rightarrow> (unit, 'w) uop" where
  "Publish st cd c = with_utx (\<lambda>u.
     bindE (guardE (uj_Phase (ut_journal u) = ''prepared'') (dataFailure ''core update is not prepared'')) (\<lambda>_.
     bindE (lift (ps_acquire st c)) (\<lambda>_.
     bindE (verifyMarker st c) (\<lambda>_.
     bindE (writePhase st cd c ''publishing'') (\<lambda>_.
     let j = ut_journal u in
     bindE (move st c InstalledBinary UpdateCandidate (uj_Old j) (uj_New j)) (\<lambda>_.
     bindE (lift (ps_acceptPublished st (uj_New j))) (\<lambda>_.
     writePhase st cd c ''verifying'')))))))"

text \<open>\<open>Rollback\<close>: the installed core goes back to the held copy of the old one, or nothing.\<close>

definition restore_old :: "'w pstore \<Rightarrow> update_codec \<Rightarrow> bool \<Rightarrow> (unit, 'w) uop" where
  "restore_old st cd c = with_utx (\<lambda>u. let j = ut_journal u in
     bindE (lift (ps_Inspect st c InstalledBinary [])) (\<lambda>current.
     if sameObject current (uj_Old j) \<or> (po_Present (uj_Old j) \<and> sameObject current (uj_Restore j)) then ret ()
     else if sameObject current (uj_New j)
     then move st c InstalledBinary (if po_Present (uj_Old j) then UpdateRestore else []) current (uj_Restore j)
     else throw (dataFailure ''unknown core identity prevents rollback'')))"

definition Rollback ::
  "'w pstore \<Rightarrow> update_codec \<Rightarrow> bool \<Rightarrow> (core_selection \<Rightarrow> (unit, 'w) io) option \<Rightarrow> (unit, 'w) uop" where
  "Rollback st cd c restore = with_utx (\<lambda>u. let j = ut_journal u in
     case restore of
       None \<Rightarrow> throw (dataFailure ''core update cannot be rolled back'')
     | Some restore \<Rightarrow>
       bindE (guardE (uj_Phase j \<noteq> ''committed'' \<and> \<not> ui_Reinstall (uj_Intent j)) (dataFailure ''core update cannot be rolled back'')) (\<lambda>_.
       bindE (guardE (\<not> ut_uncertain u) (coreUpdateUncertain None)) (\<lambda>_.
       bindE (lift (ps_acquire st c)) (\<lambda>_.
       or_recovery st cd (
         bindE (verifyMarker st c) (\<lambda>_.
         bindE (writePhase st cd c ''rolling_back'') (\<lambda>_.
         bindE (restore_old st cd c) (\<lambda>_.
         bindE (lift (restore (ui_Previous (uj_Intent j)))) (\<lambda>_.
         bindE (lift (ps_Inspect st c InstalledBinary [])) (\<lambda>current.
         lift (ps_acceptPublished st current)))))))))))"

definition CompleteRollback :: "'w pstore \<Rightarrow> update_codec \<Rightarrow> bool \<Rightarrow> (unit, 'w) uop" where
  "CompleteRollback st cd c = with_utx (\<lambda>u.
     bindE (guardE (uj_Phase (ut_journal u) = ''rolling_back'' \<and> \<not> ut_uncertain u) (dataFailure ''core rollback has not been verified'')) (\<lambda>_.
     bindE (lift (ps_acquire st c)) (\<lambda>_.
     bindE (or_recovery st cd (verifyMarker st c)) (\<lambda>_.
     bindE (or_recovery st cd (verifyFinalCore st c False)) (\<lambda>_.
     writePhase st cd c ''rolled_back'')))))"

definition Commit ::
  "'w pstore \<Rightarrow> update_codec \<Rightarrow> bool \<Rightarrow> (core_selection \<Rightarrow> (unit, 'w) io) option \<Rightarrow> (unit, 'w) uop" where
  "Commit st cd c save = with_utx (\<lambda>u. let j = ut_journal u in
     case save of
       None \<Rightarrow> throw (dataFailure ''core update has not been verified'')
     | Some save \<Rightarrow>
       bindE (guardE (uj_Phase j = ''verifying'') (dataFailure ''core update has not been verified'')) (\<lambda>_.
       bindE (verifyMarker st c) (\<lambda>_.
       bindE (lift (ps_Inspect st c InstalledBinary [])) (\<lambda>current.
       bindE (guardE (sameObject current (uj_New j)) (dataFailure ''published core changed before commit'')) (\<lambda>_.
       bindE (writePhase st cd c ''committing'') (\<lambda>_.
       bindE (lift (save (ui_Next (uj_Intent j)))) (\<lambda>_.
       writePhase st cd c ''committed'')))))))"

definition RequireRecovery :: "'w pstore \<Rightarrow> update_codec \<Rightarrow> go_error \<Rightarrow> (unit, 'w) uop" where
  "RequireRecovery st cd cause = recoveryFailure st cd cause"

definition ReinstallSelection :: "utx \<Rightarrow> core_selection \<times> bool" where
  "ReinstallSelection u = (let j = ut_journal u in
     if uj_Phase j = ''committed'' then (ui_Next (uj_Intent j), ui_StartNew (uj_Intent j))
     else (ui_Previous (uj_Intent j), ui_StartNew (uj_Intent j)))"

definition Phase :: "utx \<Rightarrow> string" where
  "Phase u = uj_Phase (ut_journal u)"

definition HasPreviousCore :: "utx \<Rightarrow> bool" where
  "HasPreviousCore u = po_Present (uj_Old (ut_journal u))"

section \<open>Opening and beginning an update\<close>

definition new_utx :: "update_journal \<Rightarrow> utx" where
  "new_utx j = \<lparr>ut_journal = j, ut_warnings = [], ut_uncertain = False\<rparr>"

text \<open>Run an operation of a transaction on a world and return the transaction.\<close>

definition running :: "utx \<Rightarrow> (unit, 'w) uop \<Rightarrow> (utx, 'w) io" where
  "running u m w = (case m (u, w) of (Inl e, (u', w')) \<Rightarrow> (Inl e, w') | (Inr _, (u', w')) \<Rightarrow> (Inr u', w'))"

text \<open>No journal of the earlier pair format may be there.\<close>

definition no_pair_journal :: "'w pstore \<Rightarrow> bool \<Rightarrow> string \<Rightarrow> (unit, 'w) io" where
  "no_pair_journal st c message = bindE (tryE (ps_Load st c PairJournal [])) (\<lambda>r.
     guardE (is_absent r) (Joined (some_errors [Some (dataFailure message), err_of r])))"

definition OpenUpdate :: "'w pstore option \<Rightarrow> update_codec \<Rightarrow> bool \<Rightarrow> (utx, 'w) io" where
  "OpenUpdate store cd c = (case store of
     None \<Rightarrow> throw (dataFailure ''core update store unavailable'')
   | Some st \<Rightarrow>
     bindE (ps_Load st c UpdateJournal []) (\<lambda>raw.
     bindE (no_pair_journal st c ''legacy and current core recovery journals coexist'') (\<lambda>_.
     case decodeUpdateJournal st cd raw of
       Inl e \<Rightarrow> throw e
     | Inr journal \<Rightarrow> running (new_utx journal) (verifyMarker st c))))"

text \<open>\<open>deferCleanupLocked\<close>: the completed journal is kept under its transaction before it is removed.\<close>

definition archive_record :: "'w pstore \<Rightarrow> bool \<Rightarrow> string \<Rightarrow> string \<Rightarrow> (unit, 'w) io" where
  "archive_record st c tx raw = bindE (tryE (ps_Load st c UpdateCleanup tx)) (\<lambda>archived.
     case archived of
       Inl e \<Rightarrow> if error_is ErrNotExist e then ps_Save st c UpdateCleanup tx raw else throw e
     | Inr a \<Rightarrow> guardE (ps_digest st a = ps_digest st raw) (dataFailure ''core pending cleanup record changed''))"

definition remove_mutation :: "string \<Rightarrow> string \<Rightarrow> prov_object \<Rightarrow> prov_mutation" where
  "remove_mutation role tx expected = \<lparr>pm_Role = role, pm_Source = [], pm_Transaction = tx, pm_Expected = expected,
     pm_SourceExpected = absent_object\<rparr>"

definition deferCleanupLocked :: "'w pstore \<Rightarrow> update_codec \<Rightarrow> bool \<Rightarrow> (unit, 'w) uop" where
  "deferCleanupLocked st cd c = with_utx (\<lambda>u. let j = ut_journal u in
     bindE (guardE (\<not> ut_uncertain u \<and> (uj_Phase j = ''committed'' \<or> uj_Phase j = ''rolled_back''))
       (dataFailure ''core recovery required before update'')) (\<lambda>_.
     bindE (verifyFinalCore st c (uj_Phase j = ''committed'')) (\<lambda>_.
     bindE (verifyMarker st c) (\<lambda>_.
     case uc_marshal cd j of
       Inl e \<Rightarrow> throw e
     | Inr raw \<Rightarrow>
       lift (bindE (ps_Inspect st c UpdateJournal []) (\<lambda>current.
         bindE (guardE (po_Present current \<and> po_SHA256 current = ps_digest st raw) (dataFailure ''completed core journal changed'')) (\<lambda>_.
         bindE (archive_record st c (uj_Transaction j) raw) (\<lambda>_.
         bindE (ps_syncCleanupRecord st c (uj_Transaction j)) (\<lambda>_.
         ps_Apply st c (remove_mutation UpdateJournal [] current))))))))))"

definition DeferCleanup :: "'w pstore \<Rightarrow> update_codec \<Rightarrow> bool \<Rightarrow> (unit, 'w) uop" where
  "DeferCleanup st cd c = bindE (lift (ps_acquire st c)) (\<lambda>_. deferCleanupLocked st cd c)"

text \<open>\<open>beginUpdate\<close>: what becomes of a journal that is still there. The result is the intent,
  and whether an interrupted update was taken over.\<close>

definition archive_interrupted :: "'w pstore \<Rightarrow> bool \<Rightarrow> string \<Rightarrow> string \<Rightarrow> (unit, 'w) io" where
  "archive_interrupted st c tx previous = bindE (tryE (ps_Load st c UpdateInterrupted tx)) (\<lambda>archived.
     case archived of
       Inl e \<Rightarrow> if error_is ErrNotExist e then ps_Save st c UpdateInterrupted tx previous else throw e
     | Inr a \<Rightarrow> guardE (ps_digest st a = ps_digest st previous) (dataFailure ''interrupted update record changed''))"

definition retire_previous ::
  "'w pstore \<Rightarrow> update_codec \<Rightarrow> bool \<Rightarrow> string option \<Rightarrow> update_intent \<Rightarrow> bool \<Rightarrow> (update_intent \<times> bool, 'w) io" where
  "retire_previous st cd c previous intent reinstall =
     (case (previous, reinstall) of
        (None, False) \<Rightarrow> ret (intent, False)
      | (Some _, False) \<Rightarrow>
          bindE (OpenUpdate (Some st) cd c) (\<lambda>completed.
          bindE (running completed (deferCleanupLocked st cd c)) (\<lambda>_. ret (intent, False)))
      | (Some prev, True) \<Rightarrow>
          bindE (OpenUpdate (Some st) cd c) (\<lambda>interrupted.
          let (selection, start) = ReinstallSelection interrupted;
              i = intent\<lparr>ui_WasRunning := ui_WasRunning (uj_Intent (ut_journal interrupted)), ui_StartNew := start\<rparr> in
          bindE (guardE (cs_Channel (ui_Next intent) = cs_Channel selection \<and> ui_Previous intent = selection)
            (dataFailure ''reinstall must use the original core selection'')) (\<lambda>_.
          bindE (archive_interrupted st c (uj_Transaction (ut_journal interrupted)) prev) (\<lambda>_.
          bindE (guardE (cs_Channel (ui_Next i) = cs_Channel (ui_Previous i)) (dataFailure ''reinstall cannot switch the core channel'')) (\<lambda>_.
          ret (i, True)))))
      | (None, True) \<Rightarrow>
          bindE (guardE (cs_Channel (ui_Next intent) = cs_Channel (ui_Previous intent)) (dataFailure ''reinstall cannot switch the core channel'')) (\<lambda>_.
          ret (intent, False)))"

text \<open>The backup and the copy to restore from, both of the installed bytes.\<close>

definition back_up :: "'w pstore \<Rightarrow> bool \<Rightarrow> string \<Rightarrow> prov_object \<Rightarrow> (prov_object \<times> prov_object, 'w) io" where
  "back_up st c tx old =
     (if \<not> po_Present old then ret (absent_object, absent_object)
      else
        bindE (ps_Load st c InstalledBinary []) (\<lambda>content.
        bindE (ps_Inspect st c InstalledBinary []) (\<lambda>current.
        bindE (guardE (sameObject old current \<and> ps_digest st content = po_SHA256 old)
          (dataFailure ''installed core changed while preparing backup'')) (\<lambda>_.
        bindE (ps_Save st c UpdateBackup tx content) (\<lambda>_.
        bindE (ps_Save st c UpdateRestore tx content) (\<lambda>_.
        bindE (ps_Inspect st c UpdateBackup tx) (\<lambda>backup.
        bindE (ps_Inspect st c UpdateRestore tx) (\<lambda>restore.
        bindE (guardE (po_SHA256 backup = po_SHA256 old \<and> po_SHA256 restore = po_SHA256 old)
          (dataFailure ''core update backup changed'')) (\<lambda>_.
        ret (backup, restore))))))))))"

definition admit_old :: "'w pstore \<Rightarrow> prov_object \<Rightarrow> bool \<Rightarrow> (unit, 'w) io" where
  "admit_old st old reinstall = bindE (tryE (ps_admitInstalled st old)) (\<lambda>r.
     case r of Inr _ \<Rightarrow> ret () | Inl e \<Rightarrow> if reinstall then ret () else throw e)"

definition snapshot_core ::
  "'w pstore \<Rightarrow> update_codec \<Rightarrow> bool \<Rightarrow> string \<Rightarrow> prov_object \<Rightarrow> update_intent \<Rightarrow> bool \<Rightarrow> bool \<Rightarrow> (utx, 'w) io" where
  "snapshot_core st cd c transaction expected intent reinstall pending =
     bindE (ps_Inspect st c UpdateCandidate transaction) (\<lambda>new.
     bindE (ps_Inspect st c UpdateMarker transaction) (\<lambda>marker.
     bindE (guardE (po_Present new \<and> sameObject new expected \<and> po_Present marker \<and>
         po_SHA256 marker = ps_digest st transaction) (dataFailure ''core update candidate or marker missing'')) (\<lambda>_.
     bindE (ps_Inspect st c InstalledBinary []) (\<lambda>old.
     bindE (admit_old st old reinstall) (\<lambda>_.
     let intent' = intent\<lparr>ui_Reinstall := reinstall,
           ui_StartNew := (if \<not> reinstall \<or> \<not> pending then ui_WasRunning intent \<or> (\<not> po_Present old \<and> ui_StartNew intent)
             else ui_StartNew intent)\<rparr> in
     bindE (back_up st c transaction old) (\<lambda>(backup, restore).
     running (new_utx \<lparr>uj_Schema = updateSchema, uj_Transaction = transaction, uj_Phase = [], uj_Intent = intent',
         uj_Old = old, uj_New = new, uj_Backup = backup, uj_Restore = restore, uj_Marker = marker\<rparr>)
       (writePhase st cd c ''prepared'')))))))"

definition beginUpdate ::
  "'w pstore option \<Rightarrow> update_codec \<Rightarrow> bool \<Rightarrow> string \<Rightarrow> prov_object \<Rightarrow> update_intent \<Rightarrow> bool \<Rightarrow> (utx, 'w) io" where
  "beginUpdate store cd c transaction expected intent reinstall = (case store of
     None \<Rightarrow> throw (dataFailure ''invalid core update intent'')
   | Some st \<Rightarrow>
     bindE (guardE (validTransaction transaction \<and> validSelection (ui_Previous intent) \<and> validSelection (ui_Next intent))
       (dataFailure ''invalid core update intent'')) (\<lambda>_.
     bindE (ps_acquire st c) (\<lambda>_.
     bindE (no_pair_journal st c ''legacy core recovery required before update'') (\<lambda>_.
     bindE (tryE (ps_Load st c UpdateJournal [])) (\<lambda>previous.
     bindE (case previous of
         Inr raw \<Rightarrow> ret (Some raw)
       | Inl e \<Rightarrow> if error_is ErrNotExist e then ret None else throw e) (\<lambda>previous.
     bindE (retire_previous st cd c previous intent reinstall) (\<lambda>(intent, pending).
     snapshot_core st cd c transaction expected intent reinstall pending)))))))"

definition BeginUpdate ::
  "'w pstore option \<Rightarrow> update_codec \<Rightarrow> bool \<Rightarrow> string \<Rightarrow> prov_object \<Rightarrow> update_intent \<Rightarrow> (utx, 'w) io" where
  "BeginUpdate store cd c transaction expected intent = beginUpdate store cd c transaction expected intent False"

section \<open>Who may run a core while an update is recorded\<close>

text \<open>\<open>updateExecution\<close>, the value of a context; the store it names is compared by identity.\<close>

record update_execution =
  ue_same_store :: bool
  ue_transaction :: string
  ue_newCore :: bool

definition new_core_phase :: "string \<Rightarrow> bool" where
  "new_core_phase phase \<longleftrightarrow> phase = ''verifying'' \<or> phase = ''committing'' \<or> phase = ''committed''"

definition ExecutionContext :: "utx \<Rightarrow> update_execution" where
  "ExecutionContext u = \<lparr>ue_same_store = True, ue_transaction = uj_Transaction (ut_journal u),
     ue_newCore = new_core_phase (uj_Phase (ut_journal u))\<rparr>"

definition authorized :: "update_execution option \<Rightarrow> update_journal \<Rightarrow> go_error option" where
  "authorized authority j =
     (case authority of
        None \<Rightarrow> Some (dataFailure ''core update recovery or transaction ownership required'')
      | Some a \<Rightarrow>
          if \<not> ue_same_store a \<or> ue_transaction a \<noteq> uj_Transaction j
          then Some (dataFailure ''core update recovery or transaction ownership required'')
          else if ue_newCore a \<and> new_core_phase (uj_Phase j) then None
          else if \<not> ue_newCore a \<and> (uj_Phase j = ''rolling_back'' \<or> uj_Phase j = ''rolled_back'') then None
          else Some (dataFailure ''core update phase does not allow this execution''))"

definition authorizePendingUpdate :: "'w pstore option \<Rightarrow> update_codec \<Rightarrow> bool \<Rightarrow> update_execution option \<Rightarrow> (unit, 'w) io" where
  "authorizePendingUpdate store cd c authority = bindE (tryE (OpenUpdate store cd c)) (\<lambda>r.
     case r of
       Inl e \<Rightarrow> if error_is ErrNotExist e then ret () else throw e
     | Inr u \<Rightarrow>
         let phase = uj_Phase (ut_journal u) in
         if phase = ''committed'' \<or> phase = ''rolled_back''
         then (case store of
             None \<Rightarrow> throw (dataFailure ''core update store unavailable'')
           | Some st \<Rightarrow> bindE (running u (verifyFinalCore st c (phase = ''committed''))) (\<lambda>_. ret ()))
         else (case authorized authority (ut_journal u) of None \<Rightarrow> ret () | Some e \<Rightarrow> throw e))"

definition InterruptedUpdate :: "'w pstore \<Rightarrow> update_codec \<Rightarrow> bool \<Rightarrow> (bool, 'w) io" where
  "InterruptedUpdate st cd c = bindE (tryE (OpenUpdate (Some st) cd c)) (\<lambda>r.
     case r of
       Inl e \<Rightarrow> if error_is ErrNotExist e then ret False else throw e
     | Inr pending \<Rightarrow>
         if Phase pending = ''committed'' \<or> Phase pending = ''rolled_back''
         then bindE (tryE (authorizePendingUpdate (Some st) cd c None)) (\<lambda>a. case a of
             Inl _ \<Rightarrow> bindE (ps_ctxErr st c) (\<lambda>_. ret True)
           | Inr _ \<Rightarrow> ret False)
         else ret True)"

section \<open>Cleaning up completed transactions\<close>

fun preflight ::
  "'w pstore \<Rightarrow> bool \<Rightarrow> string \<Rightarrow> prov_object \<Rightarrow> (string \<times> prov_object) list \<Rightarrow> (prov_mutation list, 'w) io" where
  "preflight st c tx marker [] = ret []"
| "preflight st c tx marker ((role, expected) # items) =
     bindE (ps_Inspect st c role tx) (\<lambda>object.
     if \<not> po_Present object then preflight st c tx marker items
     else
       bindE (guardE (po_Present marker \<and> sameObject object expected) (dataFailure ''core cleanup object changed'')) (\<lambda>_.
       bindE (preflight st c tx marker items) (\<lambda>ms.
       ret (remove_mutation role tx object # ms))))"

fun apply_all :: "'w pstore \<Rightarrow> bool \<Rightarrow> prov_mutation list \<Rightarrow> (unit, 'w) io" where
  "apply_all st c [] = ret ()"
| "apply_all st c (m # ms) = bindE (tryE (ps_Apply st c m)) (\<lambda>r.
     case r of Inl e \<Rightarrow> throw (Errorf (''remove '' @ pm_Role m @ '': '') e) | Inr _ \<Rightarrow> apply_all st c ms)"

text \<open>The mutations of \<open>cleanupArchivedUpdate\<close>, all checked before the first is applied.\<close>

definition plan_objects :: "'w pstore \<Rightarrow> bool \<Rightarrow> string \<Rightarrow> prov_object \<Rightarrow> update_journal \<Rightarrow> (prov_mutation list, 'w) io" where
  "plan_objects st c tx record j =
     bindE (guardE (uj_Transaction j = tx \<and> (uj_Phase j = ''committed'' \<or> uj_Phase j = ''rolled_back''))
       (dataFailure ''core cleanup record is not a completed transaction'')) (\<lambda>_.
     bindE (ps_Inspect st c UpdateMarker tx) (\<lambda>marker.
     bindE (guardE (\<not> po_Present marker \<or> sameObject marker (uj_Marker j)) (dataFailure ''core cleanup marker changed'')) (\<lambda>_.
     bindE (preflight st c tx marker [(UpdateCandidate, uj_New j), (UpdateBackup, uj_Backup j), (UpdateRestore, uj_Restore j)]) (\<lambda>ms.
     bindE (ps_Inspect st c UpdateCleanup tx) (\<lambda>current.
     bindE (guardE (sameObject current record) (dataFailure ''core cleanup record changed'')) (\<lambda>_.
     ret (ms @ (if po_Present marker then [remove_mutation UpdateMarker tx marker] else []) @
       [remove_mutation UpdateCleanup tx record])))))))"

definition plan_cleanup :: "'w pstore \<Rightarrow> update_codec \<Rightarrow> bool \<Rightarrow> string \<Rightarrow> prov_object \<Rightarrow> (prov_mutation list, 'w) io" where
  "plan_cleanup st cd c tx record =
     bindE (ps_Load st c UpdateCleanup tx) (\<lambda>raw.
     bindE (guardE (ps_digest st raw = po_SHA256 record) (dataFailure ''core cleanup record changed'')) (\<lambda>_.
     case decodeUpdateJournal st cd raw of
       Inl e \<Rightarrow> throw e
     | Inr j \<Rightarrow> plan_objects st c tx record j))"

definition cleanupArchivedUpdate :: "'w pstore \<Rightarrow> update_codec \<Rightarrow> bool \<Rightarrow> string \<Rightarrow> (unit, 'w) io" where
  "cleanupArchivedUpdate st cd c tx =
     bindE (ps_Inspect st c UpdateCleanup tx) (\<lambda>record.
     if \<not> po_Present record then ps_removeEmptyCleanupDirectory st c tx
     else
       bindE (plan_cleanup st cd c tx record) (\<lambda>ms.
       bindE (apply_all st c ms) (\<lambda>_.
       ps_removeEmptyCleanupDirectory st c tx)))"

text \<open>The loop collects the errors of the transactions and goes on; a done context ends it.\<close>

fun cleanup_all :: "'w pstore \<Rightarrow> update_codec \<Rightarrow> bool \<Rightarrow> string \<Rightarrow> string list \<Rightarrow> go_error option \<Rightarrow> 'w \<Rightarrow> go_error option \<times> 'w" where
  "cleanup_all st cd c active [] result w = (result, w)"
| "cleanup_all st cd c active (tx # txs) result w =
     (case ps_ctxErr st c w of
        (Inl e, w1) \<Rightarrow> (errors_join [result, Some e], w1)
      | (Inr _, w1) \<Rightarrow>
          if \<not> validTransaction tx \<or> tx = active then cleanup_all st cd c active txs result w1
          else (case cleanupArchivedUpdate st cd c tx w1 of
              (Inl e, w2) \<Rightarrow> cleanup_all st cd c active txs
                (errors_join [result, Some (Errorf (''cleanup core transaction '' @ tx @ '': '') e)]) w2
            | (Inr _, w2) \<Rightarrow> cleanup_all st cd c active txs result w2))"

text \<open>The active transaction: a completed one is retired first, and is then no longer active.\<close>

definition retire_active :: "'w pstore \<Rightarrow> update_codec \<Rightarrow> bool \<Rightarrow> (string \<times> go_error option, 'w) io" where
  "retire_active st cd c = bindE (tryE (OpenUpdate (Some st) cd c)) (\<lambda>r.
     case r of
       Inl e \<Rightarrow> if error_is ErrNotExist e then ret ([], None) else throw e
     | Inr current \<Rightarrow>
         let active = uj_Transaction (ut_journal current) in
         if Phase current = ''committed'' \<or> Phase current = ''rolled_back''
         then bindE (tryE (running current (deferCleanupLocked st cd c))) (\<lambda>d.
             case d of
               Inl e \<Rightarrow> ret (active, Some (Errorf (''defer completed core transaction '' @ active @ '': '') e))
             | Inr _ \<Rightarrow> ret ([], None))
         else ret (active, None))"

definition CleanupCompletedUpdates :: "'w pstore option \<Rightarrow> update_codec \<Rightarrow> bool \<Rightarrow> 'w \<Rightarrow> go_error option \<times> 'w" where
  "CleanupCompletedUpdates store cd c w = (case store of
     None \<Rightarrow> (None, w)
   | Some st \<Rightarrow>
     (case bindE (ps_acquire st c) (\<lambda>_.
         bindE (no_pair_journal st c ''legacy core recovery journal retained during cleanup'') (\<lambda>_. retire_active st cd c)) w of
        (Inl e, w1) \<Rightarrow> (Some e, w1)
      | (Inr (active, result), w1) \<Rightarrow>
        (case ps_cleanupTransactions st c w1 of
           (Inl e, w2) \<Rightarrow> (errors_join [result, Some e], w2)
         | (Inr transactions, w2) \<Rightarrow> cleanup_all st cd c active transactions result w2)))"

end
