(* ===== verification/Core_Recovery.thy ===== *)
theory Core_Recovery
  imports Core_Update
begin

text \<open>
  What the transaction of \<open>Core_Update\<close> guarantees over any store that keeps the interface of
  \<open>Core_Store\<close>, and so over the file store: through every operation, failure and crash the old
  core can be found again until the update is committed, and a committed update stays.
\<close>

section \<open>Rules for transactions\<close>

lemma triple_with_utx: "(\<And>u. triple (\<lambda>x. fst x = u \<and> P x) (f u) Q E) \<Longrightarrow> triple P (with_utx f) Q E"
  by (simp add: triple_def with_utx_def split: prod.splits)

section \<open>What a store must hold during an update\<close>

definition at_core :: "'w pstore \<Rightarrow> slots \<Rightarrow> prov_object" where
  "at_core st s = observed st (s InstalledBinary [])"

text \<open>The installed core is the old one, the new one or the restored copy of the old one, and as
  long as there was an old one its backup is there and it can still be put back.\<close>

definition old_core :: "update_journal \<Rightarrow> prov_object \<Rightarrow> bool" where
  "old_core b x \<longleftrightarrow> sameObject x (uj_Old b) \<or> (po_Present (uj_Old b) \<and> sameObject x (uj_Restore b))"

definition core_safe :: "'w pstore \<Rightarrow> update_journal \<Rightarrow> slots \<Rightarrow> bool" where
  "core_safe st b s \<longleftrightarrow>
     (old_core b (at_core st s) \<or> sameObject (at_core st s) (uj_New b)) \<and>
     (po_Present (uj_Old b) \<longrightarrow>
        sameObject (observed st (s UpdateBackup (uj_Transaction b))) (uj_Backup b) \<and>
        (sameObject (observed st (s UpdateRestore (uj_Transaction b))) (uj_Restore b) \<or>
         sameObject (at_core st s) (uj_Restore b)))"

text \<open>The phases that decide which core is installed, and those in which the copy to restore from is untouched.\<close>

definition phase_fits :: "'w pstore \<Rightarrow> update_journal \<Rightarrow> string \<Rightarrow> slots \<Rightarrow> bool" where
  "phase_fits st b p s \<longleftrightarrow>
     (p = ''prepared'' \<longrightarrow> sameObject (at_core st s) (uj_Old b)) \<and>
     (new_core_phase p \<longrightarrow> sameObject (at_core st s) (uj_New b)) \<and>
     (p = ''rolled_back'' \<longrightarrow> old_core b (at_core st s)) \<and>
     (p = ''prepared'' \<or> p = ''publishing'' \<or> new_core_phase p \<longrightarrow> po_Present (uj_Old b) \<longrightarrow>
        sameObject (observed st (s UpdateRestore (uj_Transaction b))) (uj_Restore b))"

definition journal_text :: "update_codec \<Rightarrow> update_journal \<Rightarrow> slots \<Rightarrow> bool" where
  "journal_text cd j s \<longleftrightarrow> (\<exists>f. s UpdateJournal [] = Some f \<and> uc_marshal cd j = Inr (rf_content f))"

definition update_safe :: "'w pstore \<Rightarrow> update_codec \<Rightarrow> update_journal \<Rightarrow> slots \<Rightarrow> bool" where
  "update_safe st cd b s \<longleftrightarrow> core_safe st b s \<and>
     (\<exists>p \<in> set update_phases. journal_text cd (b\<lparr>uj_Phase := p\<rparr>) s \<and> phase_fits st b p s)"

text \<open>The texts of the journal's phases are read back as they were written, and their digests differ.\<close>

definition faithful :: "'w pstore \<Rightarrow> update_codec \<Rightarrow> update_journal \<Rightarrow> bool" where
  "faithful st cd b \<longleftrightarrow>
     (\<forall>p \<in> set update_phases.
        (case uc_marshal cd (b\<lparr>uj_Phase := p\<rparr>) of Inl _ \<Rightarrow> False | Inr raw \<Rightarrow> decodeStrict cd raw = Inr (b\<lparr>uj_Phase := p\<rparr>))) \<and>
     distinct (map (\<lambda>p. case uc_marshal cd (b\<lparr>uj_Phase := p\<rparr>) of Inl _ \<Rightarrow> [] | Inr raw \<Rightarrow> ps_digest st raw) update_phases)"

definition tx_inv ::
  "'w pstore \<Rightarrow> update_codec \<Rightarrow> ('w \<Rightarrow> bool) \<Rightarrow> ('w \<Rightarrow> slots) \<Rightarrow> ('w \<Rightarrow> slots set) \<Rightarrow> update_journal \<Rightarrow> slots set \<Rightarrow> utx \<times> 'w \<Rightarrow> bool" where
  "tx_inv st cd ok sl past b S = (\<lambda>(u, w). ok w \<and> past w \<subseteq> S \<union> Collect (update_safe st cd b) \<and> update_safe st cd b (sl w) \<and>
     (\<exists>p \<in> set update_phases. ut_journal u = b\<lparr>uj_Phase := p\<rparr>) \<and>
     (\<not> ut_uncertain u \<longrightarrow> journal_text cd (ut_journal u) (sl w)))"

definition state ::
  "'w pstore \<Rightarrow> update_codec \<Rightarrow> ('w \<Rightarrow> bool) \<Rightarrow> ('w \<Rightarrow> slots) \<Rightarrow> ('w \<Rightarrow> slots set) \<Rightarrow> update_journal \<Rightarrow> slots set \<Rightarrow>
   (utx \<Rightarrow> slots \<Rightarrow> bool) \<Rightarrow> utx \<times> 'w \<Rightarrow> bool" where
  "state st cd ok sl past b S F x \<longleftrightarrow> tx_inv st cd ok sl past b S x \<and> F (fst x) (sl (snd x))"

lemma sameObject_refl [simp]: "sameObject x x"
  by (simp add: sameObject_def)

lemma faithful_texts:
  assumes "faithful st cd b" "p \<in> set update_phases"
  obtains raw where "uc_marshal cd (b\<lparr>uj_Phase := p\<rparr>) = Inr raw" "decodeStrict cd raw = Inr (b\<lparr>uj_Phase := p\<rparr>)"
proof -
  have "case uc_marshal cd (b\<lparr>uj_Phase := p\<rparr>) of Inl _ \<Rightarrow> False | Inr raw \<Rightarrow> decodeStrict cd raw = Inr (b\<lparr>uj_Phase := p\<rparr>)"
    using assms unfolding faithful_def by blast
  then show ?thesis using that by (cases "uc_marshal cd (b\<lparr>uj_Phase := p\<rparr>)") auto
qed

lemma faithful_digest:
  assumes "faithful st cd b" "p \<in> set update_phases" "q \<in> set update_phases"
    "uc_marshal cd (b\<lparr>uj_Phase := p\<rparr>) = Inr x" "uc_marshal cd (b\<lparr>uj_Phase := q\<rparr>) = Inr y" "ps_digest st x = ps_digest st y"
  shows "p = q"
proof -
  have "inj_on (\<lambda>p. case uc_marshal cd (b\<lparr>uj_Phase := p\<rparr>) of Inl _ \<Rightarrow> [] | Inr raw \<Rightarrow> ps_digest st raw) (set update_phases)"
    using assms(1) unfolding faithful_def distinct_map by blast
  from inj_onD [OF this _ assms(2,3)] assms(4-6) show ?thesis by simp
qed

lemma journal_text_phase:
  assumes "faithful st cd b" "p \<in> set update_phases" "q \<in> set update_phases"
    "journal_text cd (b\<lparr>uj_Phase := p\<rparr>) s" "journal_text cd (b\<lparr>uj_Phase := q\<rparr>) s"
  shows "p = q"
  using assms(4,5) faithful_digest [OF assms(1-3)] by (auto simp: journal_text_def)

lemma put_journal [simp]:
  "at_core st (put s UpdateJournal [] v) = at_core st s" "core_safe st b (put s UpdateJournal [] v) \<longleftrightarrow> core_safe st b s"
  "phase_fits st b p (put s UpdateJournal [] v) \<longleftrightarrow> phase_fits st b p s"
  by (simp_all add: at_core_def core_safe_def phase_fits_def)

text \<open>The recorded update under which a run is allowed.\<close>

definition may_run :: "update_execution option \<Rightarrow> update_journal \<Rightarrow> prov_object \<Rightarrow> bool" where
  "may_run authority j core \<longleftrightarrow>
     (uj_Phase j = ''committed'' \<and> sameObject core (uj_New j)) \<or>
     (uj_Phase j = ''rolled_back'' \<and> old_core j core) \<or>
     (\<exists>a. authority = Some a \<and> ue_same_store a \<and> ue_transaction a = uj_Transaction j \<and>
        (if ue_newCore a then uj_Phase j = ''verifying'' \<or> uj_Phase j = ''committing'' else uj_Phase j = ''rolling_back''))"

text \<open>The JSON decoder never reports a missing file: not for the document and not for what follows it.\<close>

definition json_errors :: "update_codec \<Rightarrow> bool" where
  "json_errors cd \<longleftrightarrow> (\<forall>raw e. uc_parse cd raw = Inl e \<or> (\<exists>j. uc_parse cd raw = Inr (j, Some e)) \<or>
     uc_decode cd raw = Inl e \<longrightarrow> \<not> error_is ErrNotExist e)"

text \<open>Nothing moves any more once the update is committed or its state is unknown.\<close>

definition decided :: "utx \<Rightarrow> bool" where
  "decided u \<longleftrightarrow> ut_uncertain u \<or> uj_Phase (ut_journal u) = ''committed''"

text \<open>The objects a completed transaction leaves behind.\<close>

definition cleanup_roles :: "string list" where
  "cleanup_roles = [UpdateCandidate, UpdateBackup, UpdateRestore, UpdateMarker, UpdateCleanup]"

section \<open>Runs of a transaction\<close>

text \<open>The calls an owner makes on a transaction, in any order and number.\<close>

datatype update_step = DoPublish bool | DoCommit bool | DoRollback bool | DoCompleteRollback bool | DoRequireRecovery go_error

fun take_step :: "'w pstore \<Rightarrow> update_codec \<Rightarrow> (core_selection \<Rightarrow> (unit, 'w) io) \<Rightarrow> update_step \<Rightarrow> (unit, 'w) uop" where
  "take_step st cd cb (DoPublish c) = Publish st cd c"
| "take_step st cd cb (DoCommit c) = Commit st cd c (Some cb)"
| "take_step st cd cb (DoRollback c) = Rollback st cd c (Some cb)"
| "take_step st cd cb (DoCompleteRollback c) = CompleteRollback st cd c"
| "take_step st cd cb (DoRequireRecovery e) = RequireRecovery st cd e"

fun run_steps :: "'w pstore \<Rightarrow> update_codec \<Rightarrow> (core_selection \<Rightarrow> (unit, 'w) io) \<Rightarrow> update_step list \<Rightarrow> utx \<times> 'w \<Rightarrow> utx \<times> 'w" where
  "run_steps st cd cb [] x = x"
| "run_steps st cd cb (a # as) x = run_steps st cd cb as (snd (take_step st cd cb a x))"

context object_store
begin

lemma ok_goes: "ok w \<Longrightarrow> goes ok sl past s w w' \<Longrightarrow> ok w' \<and> sl w' = s \<and> past w' \<subseteq> past w \<union> {sl w, s}"
  by (simp add: goes_def)

abbreviation holds :: "update_codec \<Rightarrow> update_journal \<Rightarrow> slots set \<Rightarrow> (utx \<Rightarrow> slots \<Rightarrow> bool) \<Rightarrow> utx \<times> 'w \<Rightarrow> bool" where
  "holds cd b S \<equiv> state st cd ok sl past b S"

abbreviation safe :: "update_codec \<Rightarrow> update_journal \<Rightarrow> slots set \<Rightarrow> utx \<times> 'w \<Rightarrow> bool" where
  "safe cd b S \<equiv> tx_inv st cd ok sl past b S"

lemma safe_holds: "safe cd b S = holds cd b S (\<lambda>_ _. True)"
  by (simp add: state_def fun_eq_iff)

lemma holds_safe: "holds cd b S F x \<Longrightarrow> safe cd b S x"
  by (simp add: state_def)

lemma holds_mono: "holds cd b S F x \<Longrightarrow> (\<And>u s. F u s \<Longrightarrow> G u s) \<Longrightarrow> holds cd b S G x"
  by (simp add: state_def)

lemma lift_stays:
  assumes "\<And>w r w'. ok w \<Longrightarrow> m w = (r, w') \<Longrightarrow> goes ok sl past (sl w) w w' \<and> (\<forall>y. r = Inr y \<longrightarrow> Y (sl w) y)"
  shows "triple (holds cd b S F) (lift m) (\<lambda>y. holds cd b S (\<lambda>u s. F u s \<and> Y s y)) (safe cd b S)"
proof -
  have "safe cd b S (u, w') \<and> sl w' = sl w \<and> (\<forall>y. r = Inr y \<longrightarrow> Y (sl w) y)"
    if "safe cd b S (u, w)" "m w = (r, w')" for u w r w'
    using assms [OF _ that(2)] that(1) by (auto simp: tx_inv_def goes_def)
  then show ?thesis unfolding triple_iff lift_def state_def by (force split: prod.splits)
qed

lemma inspect_triple:
  "triple (holds cd b S F) (lift (ps_Inspect st c r t)) (\<lambda>y. holds cd b S (\<lambda>u s. F u s \<and> y = observed st (s r t))) (safe cd b S)"
  by (rule lift_stays) (use inspect in blast)

lemma lift_silent:
  assumes "\<And>w r w'. ok w \<Longrightarrow> m w = (r, w') \<Longrightarrow> goes ok sl past (sl w) w w'"
  shows "triple (holds cd b S F) (lift m) (\<lambda>_. holds cd b S F) (safe cd b S)"
  using lift_stays [of m "\<lambda>_ _. True" cd b S F] assms by simp

lemma acquire_triple: "triple (holds cd b S F) (lift (ps_acquire st c)) (\<lambda>_. holds cd b S F) (safe cd b S)"
  by (rule lift_silent) (rule gate(1))

lemma accept_triple: "triple (holds cd b S F) (lift (ps_acceptPublished st z)) (\<lambda>_. holds cd b S F) (safe cd b S)"
  by (rule lift_silent) (rule gate(3))

lemma safe_throw: "triple (holds cd b S F) (throw e) Q (safe cd b S)"
  by (rule triple_throw) (rule holds_safe)

lemma guard_triple: "triple (holds cd b S F) (guardE g e) (\<lambda>_. holds cd b S (\<lambda>u s. F u s \<and> g)) (safe cd b S)"
  by (rule triple_guard) (auto simp: state_def)

lemma utx_triple:
  assumes "\<And>u. triple (holds cd b S (\<lambda>v s. F v s \<and> v = u)) (f u) Q E"
  shows "triple (holds cd b S F) (with_utx f) Q E"
  by (rule triple_with_utx, rule triple_pre [OF assms]) (auto simp: state_def)

lemma verifyMarker_triple: "triple (holds cd b S F) (verifyMarker st c) (\<lambda>_. holds cd b S F) (safe cd b S)"
  unfolding verifyMarker_def
  by (intro utx_triple triple_bind [OF inspect_triple] triple_post [OF guard_triple]) (auto simp: state_def)

text \<open>Recording a phase that fits the installed core keeps the invariant, whatever the save does.\<close>

lemma writePhase_step:
  assumes "faithful st cd b" "q \<in> set update_phases" "tx_inv st cd ok sl past b S (u, w)" "\<not> ut_uncertain u \<Longrightarrow> phase_fits st b q (sl w)"
    "writePhase st cd c q (u, w) = (r, (u', w'))"
  shows "tx_inv st cd ok sl past b S (u', w') \<and> at_core st (sl w') = at_core st (sl w) \<and>
    (r = Inr () \<longrightarrow> \<not> ut_uncertain u' \<and> ut_journal u' = b\<lparr>uj_Phase := q\<rparr>)"
proof (cases "ut_uncertain u")
  case True
  then show ?thesis using assms(3,5) by (auto simp: writePhase_def)
next
  case False
  obtain p where p: "p \<in> set update_phases" "ut_journal u = b\<lparr>uj_Phase := p\<rparr>" and w: "ok w"
    and jt: "journal_text cd (b\<lparr>uj_Phase := p\<rparr>) (sl w)" and safe: "update_safe st cd b (sl w)"
    and trail: "past w \<subseteq> S \<union> Collect (update_safe st cd b)"
    using assms(3) False by (auto simp: tx_inv_def)
  have next_j: "(ut_journal u)\<lparr>uj_Phase := q\<rparr> = b\<lparr>uj_Phase := q\<rparr>" by (simp add: p)
  obtain raw where raw: "uc_marshal cd (b\<lparr>uj_Phase := q\<rparr>) = Inr raw" "decodeStrict cd raw = Inr (b\<lparr>uj_Phase := q\<rparr>)"
    using assms(1,2) by (rule faithful_texts)
  obtain s1 w1 where s1: "ps_Save st c UpdateJournal [] raw w = (s1, w1)" by fastforce
  let ?new = "\<lambda>f. put (sl w) UpdateJournal [] (Some f)"
  have new: "update_safe st cd b (?new f)" "journal_text cd (b\<lparr>uj_Phase := q\<rparr>) (?new f)" if "rf_content f = raw" for f
    using that raw assms(2) assms(4) [OF False] safe by (auto simp: update_safe_def journal_text_def)
  from save [OF w s1] consider (old) e where "s1 = Inl e" "goes ok sl past (sl w) w w1"
    | (written) f where "rf_content f = raw" "goes ok sl past (?new f) w w1" by blast
  then have w1: "ok w1 \<and> past w1 \<subseteq> S \<union> Collect (update_safe st cd b) \<and> update_safe st cd b (sl w1) \<and>
      at_core st (sl w1) = at_core st (sl w) \<and>
      ((\<exists>e. s1 = Inl e) \<and> sl w1 = sl w \<or> journal_text cd (b\<lparr>uj_Phase := q\<rparr>) (sl w1))"
    using ok_goes [OF w] new safe trail by cases (fastforce)+
  show ?thesis
  proof (cases s1)
    case (Inr x)
    then have "r = Inr ()" "u' = u\<lparr>ut_journal := b\<lparr>uj_Phase := q\<rparr>\<rparr>" "w' = w1"
      using assms(5) False raw s1 next_j by (auto simp: writePhase_def)
    then show ?thesis using w1 Inr False assms(2) by (auto simp: tx_inv_def)
  next
    case (Inl err)
    obtain actual w2 where l: "ps_Load st False UpdateJournal [] w1 = (actual, w2)" by fastforce
    note ld = load [OF conjunct1 [OF w1] l]
    have w2: "ok w2 \<and> sl w2 = sl w1 \<and> past w2 \<subseteq> S \<union> Collect (update_safe st cd b)"
      using ld w1 by (auto simp: goes_def)
    show ?thesis
    proof (cases "case actual of Inl _ \<Rightarrow> True | Inr a \<Rightarrow> ps_digest st a \<noteq> ps_digest st raw")
      case True
      then have "w' = w2" "\<exists>e. r = Inl e" and u': "if still_previous cd (ut_journal u) actual then u' = u else u' = u\<lparr>ut_uncertain := True\<rparr>"
        using assms(5) False raw s1 next_j Inl l by (auto simp: writePhase_def split: if_splits)
      moreover have "journal_text cd (ut_journal u) (sl w1)" if sp: "still_previous cd (ut_journal u) actual"
      proof -
        have "p \<noteq> []" using p(1) by (auto simp: update_phases_def)
        with sp p obtain a where a: "actual = Inr a" "decodeStrict cd a = Inr (b\<lparr>uj_Phase := p\<rparr>)"
          by (auto simp: still_previous_def split: sum.splits)
        from ld a obtain g where g: "sl w1 UpdateJournal [] = Some g" "rf_content g = a" by blast
        have "sl w1 = sl w"
        proof (rule ccontr)
          assume "sl w1 \<noteq> sl w"
          with w1 have "journal_text cd (b\<lparr>uj_Phase := q\<rparr>) (sl w1)" by blast
          with g raw have "a = raw" by (auto simp: journal_text_def)
          with True a show False by simp
        qed
        then show ?thesis using jt p by simp
      qed
      ultimately show ?thesis using w1 w2 p by (auto simp: tx_inv_def split: if_splits)
    next
      case same: False
      then obtain a where a: "actual = Inr a" "ps_digest st a = ps_digest st raw" by (cases actual) auto
      from ld a obtain g where g: "sl w1 UpdateJournal [] = Some g" "rf_content g = a" by blast
      have "journal_text cd (b\<lparr>uj_Phase := q\<rparr>) (sl w1)"
      proof (rule ccontr)
        assume n: "\<not> journal_text cd (b\<lparr>uj_Phase := q\<rparr>) (sl w1)"
        with w1 have "sl w1 = sl w" by blast
        with jt g have "uc_marshal cd (b\<lparr>uj_Phase := p\<rparr>) = Inr a" by (auto simp: journal_text_def)
        from faithful_digest [OF assms(1) p(1) assms(2) this raw(1) a(2)] have "p = q" .
        with n jt \<open>sl w1 = sl w\<close> show False by simp
      qed
      moreover have "r = Inr ()" "w' = w2" "ut_journal u' = b\<lparr>uj_Phase := q\<rparr>" "\<not> ut_uncertain u'"
        using assms(5) False raw s1 next_j Inl l a by (auto simp: writePhase_def)
      ultimately show ?thesis using w1 w2 assms(2) by (auto simp: tx_inv_def)
    qed
  qed
qed

lemma known_phase:
  assumes "faithful st cd b" "safe cd b S (u, w)" "\<not> ut_uncertain u" "ut_journal u = b\<lparr>uj_Phase := p\<rparr>" "p \<in> set update_phases"
  shows "phase_fits st b p (sl w)"
proof -
  from assms(2) obtain q where "q \<in> set update_phases" "journal_text cd (b\<lparr>uj_Phase := q\<rparr>) (sl w)" "phase_fits st b q (sl w)"
    by (auto simp: tx_inv_def update_safe_def)
  moreover have "journal_text cd (b\<lparr>uj_Phase := p\<rparr>) (sl w)" using assms(2-4) by (auto simp: tx_inv_def)
  ultimately show ?thesis using journal_text_phase [OF assms(1)] assms(5) by blast
qed

lemma writePhase_triple:
  assumes "faithful st cd b" "q \<in> set update_phases"
    "\<And>u s. F u s \<Longrightarrow> (\<not> ut_uncertain u \<longrightarrow> phase_fits st b q s) \<and> K (at_core st s)"
  shows "triple (holds cd b S F) (writePhase st cd c q)
    (\<lambda>_. holds cd b S (\<lambda>u s. \<not> ut_uncertain u \<and> ut_journal u = b\<lparr>uj_Phase := q\<rparr> \<and> phase_fits st b q s \<and> K (at_core st s))) (safe cd b S)"
proof (rule tripleI)
  fix x y x' assume a: "holds cd b S F x" "writePhase st cd c q x = (Inr y, x')"
  obtain u w u' w' where x: "x = (u, w)" "x' = (u', w')" by (cases x, cases x')
  have F: "F u (sl w)" "safe cd b S (u, w)" using a by (auto simp: state_def x)
  with writePhase_step [OF assms(1,2), of S u w c "Inr y" u' w'] assms(3) [of u "sl w"] a x
  have "safe cd b S (u', w') \<and> at_core st (sl w') = at_core st (sl w) \<and> \<not> ut_uncertain u' \<and> ut_journal u' = b\<lparr>uj_Phase := q\<rparr>"
    by simp
  with known_phase [OF assms(1) _ _ _ assms(2), of S u' w'] assms(3) [of u "sl w"] F
  show "holds cd b S (\<lambda>u s. \<not> ut_uncertain u \<and> ut_journal u = b\<lparr>uj_Phase := q\<rparr> \<and> phase_fits st b q s \<and> K (at_core st s)) x'"
    by (simp add: state_def x)
next
  fix x e x' assume a: "holds cd b S F x" "writePhase st cd c q x = (Inl e, x')"
  obtain u w u' w' where x: "x = (u, w)" "x' = (u', w')" by (cases x, cases x')
  have "F u (sl w)" "safe cd b S (u, w)" using a by (auto simp: state_def x)
  with writePhase_step [OF assms(1,2), of S u w c "Inl e" u' w'] assms(3) [of u "sl w"] a x
  show "safe cd b S x'" by simp
qed

text \<open>A move of the installed binary: nothing, or all of it, and success means the wanted core is there.\<close>

lemma move_step:
  assumes "ok w" "move st c InstalledBinary source expected wanted (u, w) = (r, (u', w'))"
    "source \<noteq> [] \<or> wanted = absent_object"
  shows "ut_journal u' = ut_journal u \<and> ut_uncertain u' = ut_uncertain u \<and> ok w' \<and> past w' \<subseteq> past w \<union> {sl w, sl w'} \<and>
    (sl w' = sl w \<or>
     (source = [] \<and> sl w' = put (sl w) InstalledBinary (uj_Transaction (ut_journal u)) None) \<or>
     (\<exists>f. source \<in> {UpdateCandidate, UpdateRestore} \<and> sl w source (uj_Transaction (ut_journal u)) = Some f \<and>
       sameObject (observed st (Some f)) wanted \<and>
       sl w' = put (put (sl w) source (uj_Transaction (ut_journal u)) None) InstalledBinary (uj_Transaction (ut_journal u)) (Some f))) \<and>
    (r = Inr () \<longrightarrow> sameObject (at_core st (sl w')) wanted)"
proof -
  let ?t = "uj_Transaction (ut_journal u)"
  let ?a = "\<lparr>pm_Role = InstalledBinary, pm_Source = source, pm_Transaction = ?t, pm_Expected = expected, pm_SourceExpected = wanted\<rparr>"
  have nj: "(InstalledBinary = UpdateJournal) = False" by (simp add: role_defs)
  obtain a w1 where ap: "ps_Apply st c ?a w = (a, w1)" by fastforce
  let ?moved = "\<lambda>f s. source \<in> {UpdateCandidate, UpdateRestore} \<and> sl w source ?t = Some f \<and> sameObject (observed st (Some f)) wanted \<and>
       s = put (put (sl w) source ?t None) InstalledBinary ?t (Some f)"
  from apply_mutation [OF assms(1) ap] have "((\<exists>e. a = Inl e) \<and> goes ok sl past (sl w) w w1) \<or>
      (source = [] \<and> goes ok sl past (put (sl w) InstalledBinary ?t None) w w1) \<or>
      (\<exists>f. ?moved f (put (put (sl w) source ?t None) InstalledBinary ?t (Some f)) \<and>
        goes ok sl past (put (put (sl w) source ?t None) InstalledBinary ?t (Some f)) w w1)"
    by auto
  then have w1: "ok w1 \<and> past w1 \<subseteq> past w \<union> {sl w, sl w1} \<and>
      ((\<exists>e. a = Inl e) \<and> sl w1 = sl w \<or> source = [] \<and> sl w1 = put (sl w) InstalledBinary ?t None \<or> (\<exists>f. ?moved f (sl w1)))"
    using ok_goes [OF assms(1)] by metis
  have core: "sameObject (at_core st (sl w1)) wanted" if "a = Inr x" for x
    using w1 that assms(3) by (auto simp: at_core_def put_def observed_def role_defs)
  show ?thesis
  proof (cases a)
    case (Inr x)
    then have "r = Inr ()" "u' = u" "w' = w1" using assms(2) ap by (auto simp: move_def Let_def nj)
    then show ?thesis using w1 core [OF Inr] by blast
  next
    case (Inl e)
    obtain i w2 where i: "ps_Inspect st False InstalledBinary ?t w1 = (i, w2)" by fastforce
    have ins: "ok w2" "sl w2 = sl w1" "past w2 \<subseteq> past w1 \<union> {sl w1}" "\<forall>z. i = Inr z \<longrightarrow> z = at_core st (sl w1)"
      using inspect [OF _ i] w1 installed_once [of w1 ?t] by (auto simp: goes_def at_core_def)
    have "w' = w2" "ut_journal u' = ut_journal u" "ut_uncertain u' = ut_uncertain u"
      "r = Inr () \<longrightarrow> (\<exists>z. i = Inr z \<and> sameObject z wanted)"
      using assms(2,3) ap Inl i by (auto simp: move_def Let_def nj split: if_splits sum.splits)
    then show ?thesis using w1 ins by auto
  qed
qed

lemma put_installed:
  "at_core st (put s InstalledBinary t (Some f)) = observed st (Some f)"
  "at_core st (put s InstalledBinary t None) = absent_object"
  "source \<in> {UpdateCandidate, UpdateRestore} \<Longrightarrow> journal_text cd j (put (put s source t x) InstalledBinary t v) = journal_text cd j s"
  "journal_text cd j (put s InstalledBinary t v) = journal_text cd j s"
  by (auto simp: at_core_def put_def observed_def journal_text_def role_defs)

lemma publish_move:
  "triple (holds cd b S (\<lambda>u s. \<not> ut_uncertain u \<and> ut_journal u = b\<lparr>uj_Phase := ''publishing''\<rparr> \<and> phase_fits st b ''publishing'' s))
     (move st c InstalledBinary UpdateCandidate (uj_Old b) (uj_New b))
     (\<lambda>_. holds cd b S (\<lambda>u s. phase_fits st b ''verifying'' s)) (safe cd b S)"
proof -
  have main: "safe cd b S (u', w') \<and> (r = Inr () \<longrightarrow> phase_fits st b ''verifying'' (sl w'))"
    if a: "safe cd b S (u, w)" "\<not> ut_uncertain u" "ut_journal u = b\<lparr>uj_Phase := ''publishing''\<rparr>" "phase_fits st b ''publishing'' (sl w)"
      "move st c InstalledBinary UpdateCandidate (uj_Old b) (uj_New b) (u, w) = (r, (u', w'))" for u w r u' w'
  proof -
    have w: "ok w" "past w \<subseteq> S \<union> Collect (update_safe st cd b)" and safe: "update_safe st cd b (sl w)"
      and jt: "journal_text cd (b\<lparr>uj_Phase := ''publishing''\<rparr>) (sl w)" using a by (auto simp: tx_inv_def)
    have restore: "po_Present (uj_Old b) \<longrightarrow> sameObject (observed st (sl w UpdateRestore (uj_Transaction b))) (uj_Restore b)"
      using a(4) by (simp add: phase_fits_def)
    note m = move_step [OF w(1) a(5) disjI1 [OF role_neq(39)]]
    have same: "sl w' r t = sl w r t" if "r \<noteq> InstalledBinary" "r \<noteq> UpdateCandidate" for r t using m that by auto
    have jt': "journal_text cd (b\<lparr>uj_Phase := ''publishing''\<rparr>) (sl w')" using jt same by (simp add: journal_text_def)
    have "old_core b (at_core st (sl w')) \<or> sameObject (at_core st (sl w')) (uj_New b)"
      using m safe by (auto simp: update_safe_def core_safe_def put_installed)
    then have "core_safe st b (sl w')" using safe restore same by (simp add: update_safe_def core_safe_def)
    then have "update_safe st cd b (sl w')" unfolding update_safe_def
      using jt' restore same by (intro conjI bexI [of _ "''publishing''"]) (auto simp: phase_fits_def new_core_phase_def update_phases_def)
    moreover have "phase_fits st b ''verifying'' (sl w')" if "r = Inr ()"
      using m that restore same by (simp add: phase_fits_def new_core_phase_def)
    ultimately show ?thesis using m w safe a jt' by (auto simp: tx_inv_def)
  qed
  show ?thesis unfolding triple_iff state_def using main by (fastforce simp: prod_eq_iff)
qed

text \<open>Putting the old core back, under the rolling-back phase.\<close>

lemma restore_triple:
  assumes "po_Present (uj_Restore b) = po_Present (uj_Old b)" "\<not> po_Present (uj_Restore b) \<Longrightarrow> uj_Restore b = absent_object"
  shows "triple (holds cd b S (\<lambda>u s. \<not> ut_uncertain u \<and> ut_journal u = b\<lparr>uj_Phase := ''rolling_back''\<rparr>))
     (restore_old st cd c) (\<lambda>_. holds cd b S (\<lambda>u s. old_core b (at_core st s))) (safe cd b S)"
proof -
  have main: "safe cd b S (u', w') \<and> (r = Inr () \<longrightarrow> old_core b (at_core st (sl w')))"
    if a: "safe cd b S (u, w)" "\<not> ut_uncertain u" "ut_journal u = b\<lparr>uj_Phase := ''rolling_back''\<rparr>"
      "move st c InstalledBinary (if po_Present (uj_Old b) then UpdateRestore else []) x (uj_Restore b) (u, w) = (r, (u', w'))" for x u w r u' w'
  proof -
    have w: "ok w" "past w \<subseteq> S \<union> Collect (update_safe st cd b)" and safe: "update_safe st cd b (sl w)"
      and jt: "journal_text cd (b\<lparr>uj_Phase := ''rolling_back''\<rparr>) (sl w)" using a by (auto simp: tx_inv_def)
    have ne: "(if po_Present (uj_Old b) then UpdateRestore else []) \<noteq> [] \<or> uj_Restore b = absent_object" using assms by auto
    note m = move_step [OF w(1) a(4) ne]
    have same: "sl w' r t = sl w r t" if "r \<noteq> InstalledBinary" "r \<noteq> UpdateRestore" for r t using m that by (auto split: if_splits)
    have jt': "journal_text cd (b\<lparr>uj_Phase := ''rolling_back''\<rparr>) (sl w')" using jt same by (simp add: journal_text_def)
    have unless: "sl w' = sl w \<or> (po_Present (uj_Old b) \<and> sameObject (at_core st (sl w')) (uj_Restore b)) \<or>
        (\<not> po_Present (uj_Old b) \<and> at_core st (sl w') = absent_object)"
      using m by (auto simp: put_installed split: if_splits)
    then have "core_safe st b (sl w')"
    proof (elim disjE conjE)
      assume "\<not> po_Present (uj_Old b)" "at_core st (sl w') = absent_object"
      then show ?thesis by (simp add: core_safe_def old_core_def sameObject_def absent_object_def)
    qed (use safe same in \<open>simp_all add: update_safe_def core_safe_def old_core_def\<close>)
    then have "update_safe st cd b (sl w')" unfolding update_safe_def
      using jt' by (intro conjI bexI [of _ "''rolling_back''"]) (auto simp: phase_fits_def new_core_phase_def update_phases_def)
    moreover have "old_core b (at_core st (sl w'))" if "r = Inr ()"
      using m that assms by (auto simp: old_core_def sameObject_def absent_object_def)
    ultimately show ?thesis using m w safe a jt' by (auto simp: tx_inv_def)
  qed
  have move: "triple (holds cd b S (\<lambda>u s. \<not> ut_uncertain u \<and> ut_journal u = b\<lparr>uj_Phase := ''rolling_back''\<rparr>))
      (move st c InstalledBinary (if po_Present (uj_Old b) then UpdateRestore else []) x (uj_Restore b))
      (\<lambda>_. holds cd b S (\<lambda>u s. old_core b (at_core st s))) (safe cd b S)" for x
    unfolding triple_iff state_def using main by (fastforce simp: prod_eq_iff)
  show ?thesis unfolding restore_old_def Let_def
  proof (intro utx_triple triple_bind [OF inspect_triple])
    fix u y
    show "triple (holds cd b S (\<lambda>v s. ((\<not> ut_uncertain v \<and> ut_journal v = b\<lparr>uj_Phase := ''rolling_back''\<rparr>) \<and> v = u) \<and>
          y = observed st (s InstalledBinary [])))
        (if sameObject y (uj_Old (ut_journal u)) \<or> (po_Present (uj_Old (ut_journal u)) \<and> sameObject y (uj_Restore (ut_journal u))) then ret ()
         else if sameObject y (uj_New (ut_journal u))
         then move st c InstalledBinary (if po_Present (uj_Old (ut_journal u)) then UpdateRestore else []) y (uj_Restore (ut_journal u))
         else throw (dataFailure ''unknown core identity prevents rollback''))
        (\<lambda>_. holds cd b S (\<lambda>u s. old_core b (at_core st s))) (safe cd b S)"
    proof (cases "ut_journal u = b\<lparr>uj_Phase := ''rolling_back''\<rparr>")
      case True
      then have j: "uj_Old (ut_journal u) = uj_Old b" "uj_Restore (ut_journal u) = uj_Restore b" "uj_New (ut_journal u) = uj_New b"
        by simp_all
      show ?thesis unfolding j
      proof (cases "old_core b y")
        case True
        then show "triple (holds cd b S (\<lambda>v s. ((\<not> ut_uncertain v \<and> ut_journal v = b\<lparr>uj_Phase := ''rolling_back''\<rparr>) \<and> v = u) \<and>
            y = observed st (s InstalledBinary [])))
          (if sameObject y (uj_Old b) \<or> (po_Present (uj_Old b) \<and> sameObject y (uj_Restore b)) then ret ()
           else if sameObject y (uj_New b)
           then move st c InstalledBinary (if po_Present (uj_Old b) then UpdateRestore else []) y (uj_Restore b)
           else throw (dataFailure ''unknown core identity prevents rollback''))
          (\<lambda>_. holds cd b S (\<lambda>u s. old_core b (at_core st s))) (safe cd b S)"
          by (simp add: old_core_def) (rule triple_ret, simp add: state_def old_core_def at_core_def)
      next
        case False
        then have n: "(sameObject y (uj_Old b) \<or> (po_Present (uj_Old b) \<and> sameObject y (uj_Restore b))) = False"
          by (simp add: old_core_def)
        show "triple (holds cd b S (\<lambda>v s. ((\<not> ut_uncertain v \<and> ut_journal v = b\<lparr>uj_Phase := ''rolling_back''\<rparr>) \<and> v = u) \<and>
            y = observed st (s InstalledBinary [])))
          (if sameObject y (uj_Old b) \<or> (po_Present (uj_Old b) \<and> sameObject y (uj_Restore b)) then ret ()
           else if sameObject y (uj_New b)
           then move st c InstalledBinary (if po_Present (uj_Old b) then UpdateRestore else []) y (uj_Restore b)
           else throw (dataFailure ''unknown core identity prevents rollback''))
          (\<lambda>_. holds cd b S (\<lambda>u s. old_core b (at_core st s))) (safe cd b S)"
          unfolding n if_False
          by (cases "sameObject y (uj_New b)")
            (simp_all only: if_True if_False safe_throw, rule triple_pre [OF move], auto simp: state_def)
      qed
    qed (auto simp: triple_iff state_def)
  qed
qed

section \<open>Every operation keeps the store safe\<close>

lemma phase_memory: "holds cd b S F (u, w) \<Longrightarrow> \<exists>p \<in> set update_phases. ut_journal u = b\<lparr>uj_Phase := p\<rparr>"
  by (auto simp: state_def tx_inv_def)

text \<open>The journal of the transaction, but for its phase, is \<open>b\<close>.\<close>

lemma utx_base:
  assumes "\<And>u p. p \<in> set update_phases \<Longrightarrow> ut_journal u = b\<lparr>uj_Phase := p\<rparr> \<Longrightarrow>
    triple (holds cd b S (\<lambda>v s. F v s \<and> v = u)) (f u) Q E"
  shows "triple (holds cd b S F) (with_utx f) Q E"
proof (rule utx_triple)
  fix u
  show "triple (holds cd b S (\<lambda>v s. F v s \<and> v = u)) (f u) Q E"
  proof (cases "\<exists>p \<in> set update_phases. ut_journal u = b\<lparr>uj_Phase := p\<rparr>")
    case True
    then show ?thesis using assms by blast
  next
    case False
    then have "\<not> holds cd b S (\<lambda>v s. F v s \<and> v = u) x" for x using phase_memory by (cases x) (fastforce simp: state_def)
    then show ?thesis by (simp add: triple_iff)
  qed
qed

lemma Publish_triple:
  assumes "faithful st cd b"
  shows "triple (holds cd b S (\<lambda>_ _. True)) (Publish st cd c)
    (\<lambda>_. holds cd b S (\<lambda>u s. \<not> ut_uncertain u \<and> ut_journal u = b\<lparr>uj_Phase := ''verifying''\<rparr> \<and> phase_fits st b ''verifying'' s)) (safe cd b S)"
  unfolding Publish_def Let_def
proof (rule utx_base)
  fix u :: utx and p assume u: "ut_journal u = b\<lparr>uj_Phase := p\<rparr>" and p: "p \<in> set update_phases"
  have fits: "triple (holds cd b S (\<lambda>v s. (True \<and> v = u) \<and> uj_Phase (ut_journal u) = ''prepared''))
      (writePhase st cd c ''publishing'')
      (\<lambda>_. holds cd b S (\<lambda>u s. \<not> ut_uncertain u \<and> ut_journal u = b\<lparr>uj_Phase := ''publishing''\<rparr> \<and> phase_fits st b ''publishing'' s)) (safe cd b S)"
  proof (rule triple_post [OF triple_pre])
    show "triple (holds cd b S (\<lambda>v s. v = u \<and> uj_Phase (ut_journal u) = ''prepared'' \<and> (\<not> ut_uncertain u \<longrightarrow> phase_fits st b ''prepared'' s)))
      (writePhase st cd c ''publishing'')
      (\<lambda>_. holds cd b S (\<lambda>u s. \<not> ut_uncertain u \<and> ut_journal u = b\<lparr>uj_Phase := ''publishing''\<rparr> \<and> phase_fits st b ''publishing'' s \<and> True))
      (safe cd b S)"
      by (rule writePhase_triple [OF assms]) (auto simp: phase_fits_def new_core_phase_def update_phases_def)
    fix x assume x: "holds cd b S (\<lambda>v s. (True \<and> v = u) \<and> uj_Phase (ut_journal u) = ''prepared'') x"
    then have "\<not> ut_uncertain u \<Longrightarrow> phase_fits st b ''prepared'' (sl (snd x))"
      using known_phase [OF assms, of S u "snd x" "''prepared''"] u by (cases x) (auto simp: state_def update_phases_def)
    with x show "holds cd b S (\<lambda>v s. v = u \<and> uj_Phase (ut_journal u) = ''prepared'' \<and> (\<not> ut_uncertain u \<longrightarrow> phase_fits st b ''prepared'' s)) x"
      by (simp add: state_def)
  qed (auto simp: state_def)
  have tail: "triple (holds cd b S (\<lambda>u s. \<not> ut_uncertain u \<and> ut_journal u = b\<lparr>uj_Phase := ''publishing''\<rparr> \<and> phase_fits st b ''publishing'' s))
      (bindE (move st c InstalledBinary UpdateCandidate (uj_Old b) (uj_New b)) (\<lambda>_.
       bindE (lift (ps_acceptPublished st (uj_New b))) (\<lambda>_. writePhase st cd c ''verifying'')))
      (\<lambda>_. holds cd b S (\<lambda>u s. \<not> ut_uncertain u \<and> ut_journal u = b\<lparr>uj_Phase := ''verifying''\<rparr> \<and> phase_fits st b ''verifying'' s)) (safe cd b S)"
    by (rule triple_bind [OF publish_move], rule triple_bind [OF accept_triple],
        rule triple_post [OF writePhase_triple [OF assms, where K = "\<lambda>_. True"]])
      (auto simp: state_def update_phases_def)
  show "triple (holds cd b S (\<lambda>v s. True \<and> v = u))
      (bindE (guardE (uj_Phase (ut_journal u) = ''prepared'') (dataFailure ''core update is not prepared'')) (\<lambda>_.
       bindE (lift (ps_acquire st c)) (\<lambda>_. bindE (verifyMarker st c) (\<lambda>_. bindE (writePhase st cd c ''publishing'') (\<lambda>_.
       bindE (move st c InstalledBinary UpdateCandidate (uj_Old (ut_journal u)) (uj_New (ut_journal u))) (\<lambda>_.
       bindE (lift (ps_acceptPublished st (uj_New (ut_journal u)))) (\<lambda>_. writePhase st cd c ''verifying'')))))))
      (\<lambda>_. holds cd b S (\<lambda>u s. \<not> ut_uncertain u \<and> ut_journal u = b\<lparr>uj_Phase := ''verifying''\<rparr> \<and> phase_fits st b ''verifying'' s)) (safe cd b S)"
    unfolding u update_journal.simps update_journal.update_convs
    by (intro triple_bind [OF guard_triple] triple_bind [OF acquire_triple] triple_bind [OF verifyMarker_triple]
        triple_bind [OF fits [unfolded u update_journal.simps]]) (use tail in simp)
qed

lemma recoveryFailure_safe:
  assumes "faithful st cd b"
  shows "triple (safe cd b S) (recoveryFailure st cd e) (\<lambda>_ _. False) (safe cd b S)"
proof -
  have "safe cd b S (u', w')" if "safe cd b S (u, w)" "writePhase st cd False ''recovery_required'' (u, w) = (r, (u', w'))" for u w r u' w'
    using writePhase_step [OF assms _ that(1) _ that(2)]
    by (auto simp: phase_fits_def new_core_phase_def update_phases_def)
  then show ?thesis unfolding triple_iff recoveryFailure_def by (auto split: prod.splits if_splits)
qed

lemma recoveryFailure_fails: "recoveryFailure st cd e x \<noteq> (Inr y, x')"
  by (auto simp: recoveryFailure_def split: prod.splits if_splits)

lemma or_recovery_triple:
  fixes m :: "('c, 'w) uop"
  assumes "faithful st cd b" "triple P m Q (safe cd b S)"
  shows "triple P (or_recovery st cd m) Q (safe cd b S)"
proof (rule tripleI)
  show "Q y x'" if "P x" "or_recovery st cd m x = (Inr y, x')" for x y x'
    using that(2) tripleD(1) [OF assms(2) that(1)]
    by (auto simp: or_recovery_def recoveryFailure_fails split: prod.splits sum.splits)
  show "safe cd b S x'" if "P x" "or_recovery st cd m x = (Inl e, x')" for x e x'
  proof -
    obtain r1 x1 where m: "m x = (r1, x1)" by (cases "m x")
    show ?thesis
    proof (cases r1)
      case (Inl e1)
      then have "safe cd b S x1" using tripleD(2) [OF assms(2) that(1)] m by simp
      moreover have "(recoveryFailure st cd e1 :: ('c, 'w) uop) x1 = (Inl e, x')" using that(2) m Inl by (simp add: or_recovery_def)
      ultimately show ?thesis using tripleD(2) [OF recoveryFailure_safe [OF assms(1)]] by blast
    qed (use that(2) m in \<open>simp add: or_recovery_def\<close>)
  qed
qed

lemma verifyFinalCore_triple:
  "triple (holds cd b S F) (verifyFinalCore st c committed)
    (\<lambda>_. holds cd b S (\<lambda>u s. F u s \<and> (if committed then sameObject (at_core st s) (uj_New b) else old_core b (at_core st s)))) (safe cd b S)"
  unfolding verifyFinalCore_def Let_def
  by (intro utx_base triple_bind [OF inspect_triple] triple_post [OF guard_triple])
    (auto simp: state_def old_core_def at_core_def)

text \<open>A callback that leaves the store alone.\<close>

definition quiet_callback :: "(core_selection \<Rightarrow> (unit, 'w) io) option \<Rightarrow> bool" where
  "quiet_callback cb \<longleftrightarrow> (\<forall>f sel w r w'. cb = Some f \<longrightarrow> ok w \<longrightarrow> f sel w = (r, w') \<longrightarrow> goes ok sl past (sl w) w w')"

lemma callback_triple:
  "quiet_callback (Some f) \<Longrightarrow> triple (holds cd b S F) (lift (f sel)) (\<lambda>_. holds cd b S F) (safe cd b S)"
  by (rule lift_silent) (auto simp: quiet_callback_def)

lemma CompleteRollback_triple:
  assumes "faithful st cd b"
  shows "triple (holds cd b S (\<lambda>_ _. True)) (CompleteRollback st cd c)
    (\<lambda>_. holds cd b S (\<lambda>u s. ut_journal u = b\<lparr>uj_Phase := ''rolled_back''\<rparr> \<and> \<not> ut_uncertain u \<and> old_core b (at_core st s))) (safe cd b S)"
  unfolding CompleteRollback_def
  by (intro utx_base triple_bind [OF guard_triple] triple_bind [OF acquire_triple] triple_bind [OF or_recovery_triple [OF assms verifyMarker_triple]]
      triple_bind [OF or_recovery_triple [OF assms verifyFinalCore_triple]]
      triple_post [OF writePhase_triple [OF assms, where K = "old_core b"]])
    (auto simp: state_def update_phases_def phase_fits_def new_core_phase_def)

lemma Commit_triple:
  assumes "faithful st cd b" "quiet_callback cb"
  shows "triple (holds cd b S (\<lambda>_ _. True)) (Commit st cd c cb)
    (\<lambda>_. holds cd b S (\<lambda>u s. ut_journal u = b\<lparr>uj_Phase := ''committed''\<rparr> \<and> \<not> ut_uncertain u \<and> sameObject (at_core st s) (uj_New b))) (safe cd b S)"
proof (cases cb)
  case None
  then show ?thesis unfolding Commit_def Let_def by (intro utx_base) (simp add: safe_throw)
next
  case (Some f)
  show ?thesis unfolding Commit_def Let_def Some option.case
  proof (rule utx_base)
    fix u :: utx and p assume u: "ut_journal u = b\<lparr>uj_Phase := p\<rparr>" and p: "p \<in> set update_phases"
    let ?F = "\<lambda>v s. (((True \<and> v = u) \<and> uj_Phase (ut_journal u) = ''verifying'') \<and> x = observed st (s InstalledBinary [])) \<and>
        sameObject x (uj_New (ut_journal u))"
    have fits: "triple (holds cd b S (\<lambda>v s. (((True \<and> v = u) \<and> uj_Phase (ut_journal u) = ''verifying'') \<and> x = observed st (s InstalledBinary [])) \<and>
        sameObject x (uj_New (ut_journal u)))) (writePhase st cd c ''committing'')
      (\<lambda>_. holds cd b S (\<lambda>u s. \<not> ut_uncertain u \<and> phase_fits st b ''committing'' s)) (safe cd b S)" for x
    proof (rule triple_post [OF triple_pre])
      show "triple (holds cd b S (\<lambda>v s. v = u \<and> (\<not> ut_uncertain u \<longrightarrow> phase_fits st b ''verifying'' s)))
        (writePhase st cd c ''committing'')
        (\<lambda>_. holds cd b S (\<lambda>u s. \<not> ut_uncertain u \<and> ut_journal u = b\<lparr>uj_Phase := ''committing''\<rparr> \<and> phase_fits st b ''committing'' s \<and> True))
        (safe cd b S)"
        by (rule writePhase_triple [OF assms(1)]) (auto simp: phase_fits_def new_core_phase_def update_phases_def)
      fix y assume y: "holds cd b S (\<lambda>v s. (((True \<and> v = u) \<and> uj_Phase (ut_journal u) = ''verifying'') \<and> x = observed st (s InstalledBinary [])) \<and>
        sameObject x (uj_New (ut_journal u))) y"
      then have "\<not> ut_uncertain u \<Longrightarrow> phase_fits st b ''verifying'' (sl (snd y))"
        using known_phase [OF assms(1), of S u "snd y" "''verifying''"] u by (cases y) (auto simp: state_def update_phases_def)
      with y show "holds cd b S (\<lambda>v s. v = u \<and> (\<not> ut_uncertain u \<longrightarrow> phase_fits st b ''verifying'' s)) y"
        by (simp add: state_def)
    qed (auto simp: state_def)
    have tail: "triple (holds cd b S (\<lambda>u s. \<not> ut_uncertain u \<and> phase_fits st b ''committing'' s))
        (bindE (lift (f sel)) (\<lambda>_. writePhase st cd c ''committed''))
        (\<lambda>_. holds cd b S (\<lambda>u s. ut_journal u = b\<lparr>uj_Phase := ''committed''\<rparr> \<and> \<not> ut_uncertain u \<and> sameObject (at_core st s) (uj_New b)))
        (safe cd b S)" for sel
      by (rule triple_bind [OF callback_triple [OF assms(2) [unfolded Some]]],
          rule triple_post [OF writePhase_triple [OF assms(1), where K = "\<lambda>_. True"]])
        (auto simp: state_def update_phases_def phase_fits_def new_core_phase_def)
    show "triple (holds cd b S (\<lambda>v s. True \<and> v = u))
        (bindE (guardE (uj_Phase (ut_journal u) = ''verifying'') (dataFailure ''core update has not been verified'')) (\<lambda>_.
         bindE (verifyMarker st c) (\<lambda>_.
         bindE (lift (ps_Inspect st c InstalledBinary [])) (\<lambda>current.
         bindE (guardE (sameObject current (uj_New (ut_journal u))) (dataFailure ''published core changed before commit'')) (\<lambda>_.
         bindE (writePhase st cd c ''committing'') (\<lambda>_.
         bindE (lift (f (ui_Next (uj_Intent (ut_journal u))))) (\<lambda>_. writePhase st cd c ''committed'')))))))
        (\<lambda>_. holds cd b S (\<lambda>u s. ut_journal u = b\<lparr>uj_Phase := ''committed''\<rparr> \<and> \<not> ut_uncertain u \<and> sameObject (at_core st s) (uj_New b)))
        (safe cd b S)"
      by (intro triple_bind [OF guard_triple] triple_bind [OF verifyMarker_triple] triple_bind [OF inspect_triple] triple_bind [OF fits] tail)
  qed
qed

lemma Rollback_triple:
  assumes "faithful st cd b" "quiet_callback cb"
    and "po_Present (uj_Restore b) = po_Present (uj_Old b)" "\<not> po_Present (uj_Restore b) \<Longrightarrow> uj_Restore b = absent_object"
  shows "triple (holds cd b S (\<lambda>_ _. True)) (Rollback st cd c cb)
    (\<lambda>_. holds cd b S (\<lambda>u s. old_core b (at_core st s))) (safe cd b S)"
proof (cases cb)
  case None
  then show ?thesis unfolding Rollback_def Let_def by (intro utx_base) (simp add: safe_throw)
next
  case (Some f)
  have rb: "triple (holds cd b S F) (writePhase st cd c ''rolling_back'')
      (\<lambda>_. holds cd b S (\<lambda>u s. \<not> ut_uncertain u \<and> ut_journal u = b\<lparr>uj_Phase := ''rolling_back''\<rparr>)) (safe cd b S)" for F
    by (rule triple_post [OF writePhase_triple [OF assms(1), where K = "\<lambda>_. True"]])
      (auto simp: state_def update_phases_def phase_fits_def new_core_phase_def)
  show ?thesis unfolding Rollback_def Let_def Some option.case
    by (intro utx_base triple_bind [OF guard_triple] triple_bind [OF acquire_triple] or_recovery_triple [OF assms(1)]
        triple_bind [OF verifyMarker_triple] triple_bind [OF rb] triple_bind [OF restore_triple [OF assms(3,4)]]
        triple_bind [OF callback_triple [OF assms(2) [unfolded Some]]] triple_bind [OF inspect_triple] triple_post [OF accept_triple])
      (auto simp: state_def)
qed

section \<open>Beginning an update\<close>

text \<open>What a transaction that has just begun finds in the store.\<close>

definition begun :: "update_codec \<Rightarrow> utx \<Rightarrow> slots \<Rightarrow> bool" where
  "begun cd u s \<longleftrightarrow> (let j = ut_journal u in \<not> ut_uncertain u \<and> uj_Phase j = ''prepared'' \<and> journal_text cd j s \<and>
     at_core st s = uj_Old j \<and> observed st (s UpdateCandidate (uj_Transaction j)) = uj_New j \<and> po_Present (uj_New j) \<and>
     po_Present (uj_Restore j) = po_Present (uj_Old j) \<and> (\<not> po_Present (uj_Restore j) \<longrightarrow> uj_Restore j = absent_object) \<and>
     (po_Present (uj_Old j) \<longrightarrow>
        observed st (s UpdateBackup (uj_Transaction j)) = uj_Backup j \<and> observed st (s UpdateRestore (uj_Transaction j)) = uj_Restore j \<and>
        po_SHA256 (uj_Backup j) = po_SHA256 (uj_Old j) \<and> po_SHA256 (uj_Restore j) = po_SHA256 (uj_Old j)))"

lemma inspect_stays: "ok w \<Longrightarrow> ps_Inspect st c r t w = (Inr z, w') \<Longrightarrow> ok w' \<and> sl w' = sl w \<and> z = observed st (sl w r t)"
  using inspect by (auto simp: goes_def)

lemma save_puts: "ok w \<Longrightarrow> ps_Save st c r t x w = (Inr y, w') \<Longrightarrow>
    ok w' \<and> r \<noteq> InstalledBinary \<and> (\<exists>f. rf_content f = x \<and> sl w' = put (sl w) r t (Some f))"
  using save by (fastforce simp: goes_def)

lemma observed_present [simp]: "po_Present (observed st (Some f))" "\<not> po_Present (observed st None)"
  by (simp_all add: observed_def absent_object_def)

lemma back_up_holds:
  assumes "ok w" "back_up st c tx old w = (Inr (bk, rs), w')" "old = at_core st (sl w)"
  shows "ok w' \<and> (\<forall>r t. r \<noteq> UpdateBackup \<longrightarrow> r \<noteq> UpdateRestore \<longrightarrow> sl w' r t = sl w r t) \<and>
    po_Present rs = po_Present old \<and> (\<not> po_Present rs \<longrightarrow> rs = absent_object) \<and>
    (po_Present old \<longrightarrow> observed st (sl w' UpdateBackup tx) = bk \<and> observed st (sl w' UpdateRestore tx) = rs \<and>
      po_SHA256 bk = po_SHA256 old \<and> po_SHA256 rs = po_SHA256 old)"
proof (cases "po_Present old")
  case False
  then show ?thesis using assms by (auto simp: back_up_def ret_def absent_object_def)
next
  case True
  with assms(2) obtain content w1 cur w2 w3 w4 w5 w6 w7 where
    l: "ps_Load st c InstalledBinary [] w = (Inr content, w1)" and i: "ps_Inspect st c InstalledBinary [] w1 = (Inr cur, w2)" and
    g: "guardE (sameObject old cur \<and> ps_digest st content = po_SHA256 old) (dataFailure ''installed core changed while preparing backup'') w2 = (Inr (), w3)" and
    s1: "ps_Save st c UpdateBackup tx content w3 = (Inr (), w4)" and s2: "ps_Save st c UpdateRestore tx content w4 = (Inr (), w5)" and
    i1: "ps_Inspect st c UpdateBackup tx w5 = (Inr bk, w6)" and i2: "ps_Inspect st c UpdateRestore tx w6 = (Inr rs, w7)" and
    g2: "guardE (po_SHA256 bk = po_SHA256 old \<and> po_SHA256 rs = po_SHA256 old) (dataFailure ''core update backup changed'') w7 = (Inr (), w')"
    by (auto simp: back_up_def bindE_Inr ret_def)
  have w1: "ok w1" "sl w1 = sl w" using load [OF assms(1) l] assms(1) by (auto simp: goes_def)
  have w2: "ok w2" "sl w2 = sl w" using inspect_stays [OF w1(1) i] w1 by auto
  have w3: "w3 = w2" using g by (auto simp: guardE_def ret_def throw_def split: if_splits)
  obtain f where w4: "ok w4" "sl w4 = put (sl w) UpdateBackup tx (Some f)" using save_puts [OF w2(1) s1 [unfolded w3]] w2 by auto
  obtain h where w5: "ok w5" "sl w5 = put (sl w4) UpdateRestore tx (Some h)" using save_puts [OF w4(1) s2] by auto
  have w6: "ok w6" "sl w6 = sl w5" "bk = observed st (sl w5 UpdateBackup tx)" using inspect_stays [OF w5(1) i1] by auto
  have w7: "ok w7" "sl w7 = sl w5" "rs = observed st (sl w5 UpdateRestore tx)" using inspect_stays [OF w6(1) i2] w6 by auto
  have "w' = w7" "po_SHA256 bk = po_SHA256 old" "po_SHA256 rs = po_SHA256 old"
    using g2 by (auto simp: guardE_def ret_def throw_def split: if_splits)
  then show ?thesis using True w4 w5 w6 w7 by (auto simp: put_def)
qed

lemma first_phase:
  assumes "ok w" "sl w UpdateJournal [] = None" "uj_Phase j = []" "running (new_utx j) (writePhase st cd c p) w = (Inr u, w')"
  shows "ok w' \<and> \<not> ut_uncertain u \<and> ut_journal u = j\<lparr>uj_Phase := p\<rparr> \<and> journal_text cd (ut_journal u) (sl w') \<and>
    (\<forall>r t. r \<noteq> UpdateJournal \<longrightarrow> sl w' r t = sl w r t)"
proof -
  obtain raw where raw: "uc_marshal cd (j\<lparr>uj_Phase := p\<rparr>) = Inr raw"
    using assms(4) by (cases "uc_marshal cd (j\<lparr>uj_Phase := p\<rparr>)") (auto simp: running_def writePhase_def new_utx_def)
  obtain s1 w1 where s1: "ps_Save st c UpdateJournal [] raw w = (s1, w1)" by fastforce
  have w1: "ok w1" "(\<exists>e. s1 = Inl e) \<and> sl w1 = sl w \<or> (\<exists>f. rf_content f = raw \<and> sl w1 = put (sl w) UpdateJournal [] (Some f))"
    using save [OF assms(1) s1] ok_goes [OF assms(1)] by blast+
  show ?thesis
  proof (cases s1)
    case (Inr x)
    then have "u = (new_utx j)\<lparr>ut_journal := j\<lparr>uj_Phase := p\<rparr>\<rparr>" "w' = w1"
      using assms(4) raw s1 by (auto simp: running_def writePhase_def new_utx_def)
    then show ?thesis using w1 Inr raw by (auto simp: new_utx_def journal_text_def)
  next
    case (Inl err)
    obtain actual w2 where l: "ps_Load st False UpdateJournal [] w1 = (actual, w2)" by fastforce
    note ld = load [OF w1(1) l]
    obtain a where a: "actual = Inr a" "w' = w2" "\<not> ut_uncertain u" "ut_journal u = j\<lparr>uj_Phase := p\<rparr>"
      using assms(4) raw s1 Inl l by (auto simp: running_def writePhase_def new_utx_def split: if_splits sum.splits)
    with ld have "sl w1 \<noteq> sl w" using assms(2) by auto
    then obtain f where "rf_content f = raw" "sl w1 = put (sl w) UpdateJournal [] (Some f)" using w1(2) by auto
    moreover have "ok w2" "sl w2 = sl w1" using ld w1(1) by (auto simp: goes_def)
    ultimately show ?thesis using a raw by (auto simp: journal_text_def)
  qed
qed

lemma snapshot_begun:
  assumes "ok w" "sl w UpdateJournal [] = None"
    "snapshot_core st cd c tx expected intent reinstall pending w = (Inr u, w')"
  shows "ok w' \<and> begun cd u (sl w') \<and> uj_Transaction (ut_journal u) = tx \<and> sameObject (uj_New (ut_journal u)) expected \<and>
    sl w' InstalledBinary [] = sl w InstalledBinary []"
proof -
  from assms(3) obtain new w1 marker w2 w3 old w4 w5 bk rs w6 intent' where
    i1: "ps_Inspect st c UpdateCandidate tx w = (Inr new, w1)" and i2: "ps_Inspect st c UpdateMarker tx w1 = (Inr marker, w2)" and
    g: "guardE (po_Present new \<and> sameObject new expected \<and> po_Present marker \<and> po_SHA256 marker = ps_digest st tx)
        (dataFailure ''core update candidate or marker missing'') w2 = (Inr (), w3)" and
    i3: "ps_Inspect st c InstalledBinary [] w3 = (Inr old, w4)" and ad: "admit_old st old reinstall w4 = (Inr (), w5)" and
    bu: "back_up st c tx old w5 = (Inr (bk, rs), w6)" and
    run: "running (new_utx \<lparr>uj_Schema = updateSchema, uj_Transaction = tx, uj_Phase = [], uj_Intent = intent',
         uj_Old = old, uj_New = new, uj_Backup = bk, uj_Restore = rs, uj_Marker = marker\<rparr>) (writePhase st cd c ''prepared'') w6 = (Inr u, w')"
    by (auto simp: snapshot_core_def bindE_Inr Let_def)
  have w1: "ok w1" "sl w1 = sl w" "new = observed st (sl w UpdateCandidate tx)" using inspect_stays [OF assms(1) i1] by auto
  have w2: "ok w2" "sl w2 = sl w" using inspect_stays [OF w1(1) i2] w1 by auto
  have w3: "w3 = w2" "po_Present new" "sameObject new expected" using g by (auto simp: guardE_def ret_def throw_def split: if_splits)
  have w4: "ok w4" "sl w4 = sl w" "old = at_core st (sl w)" using inspect_stays [OF _ i3] w2 w3 by (auto simp: at_core_def)
  obtain ar w5' where ar: "ps_admitInstalled st old w4 = (ar, w5')" by fastforce
  with ad have "w5' = w5" by (auto simp: admit_old_def bindE_def tryE_def ret_def throw_def split: sum.splits if_splits)
  then have w5: "ok w5" "sl w5 = sl w" using gate(2) [OF w4(1) ar] w4 by (auto simp: goes_def)
  have w6: "ok w6" "\<forall>r t. r \<noteq> UpdateBackup \<longrightarrow> r \<noteq> UpdateRestore \<longrightarrow> sl w6 r t = sl w r t"
    using back_up_holds [OF w5(1) bu] w4 w5 by auto
  have j6: "sl w6 UpdateJournal [] = None" using w6 assms(2) by simp
  note f = first_phase [OF w6(1) j6 _ run]
  show ?thesis using f back_up_holds [OF w5(1) bu] w1 w3 w4 w5 w6
    by (auto simp: begun_def Let_def at_core_def)
qed

text \<open>Operations that change no file.\<close>

definition silent :: "('c, 'w) io \<Rightarrow> bool" where
  "silent m \<longleftrightarrow> (\<forall>w r w'. ok w \<longrightarrow> m w = (r, w') \<longrightarrow> ok w' \<and> sl w' = sl w)"

lemma silentD: "silent m \<Longrightarrow> ok w \<Longrightarrow> m w = (r, w') \<Longrightarrow> ok w' \<and> sl w' = sl w"
  by (simp add: silent_def)

lemma silent_bind: "silent m \<Longrightarrow> (\<And>x. silent (f x)) \<Longrightarrow> silent (bindE m f)"
  unfolding silent_def by (metis bindE_cases)

lemma silent_basic: "silent (ret x)" "silent (throw e)" "silent (guardE g e)"
  by (auto simp: silent_def ret_def throw_def guardE_def)

lemma silent_try: "silent m \<Longrightarrow> silent (tryE m)"
  by (auto simp: silent_def tryE_eq)

lemma goes_silent: "(\<And>w r w'. ok w \<Longrightarrow> m w = (r, w') \<Longrightarrow> goes ok sl past (sl w) w w') \<Longrightarrow> silent m"
  by (fastforce simp: silent_def goes_def)

lemma silent_store: "silent (ps_Load st c r t)" "silent (ps_Inspect st c r t)" "silent (ps_acquire st c)"
  "silent (ps_syncCleanupRecord st c t)" "silent (ps_ctxErr st c)" "silent (ps_cleanupTransactions st c)"
  "silent (ps_removeEmptyCleanupDirectory st c t)"
  by (rule goes_silent, (drule (1) load inspect gate directories)?, simp)+

lemmas silent_rules = silent_bind silent_basic silent_try silent_store

text \<open>The same for operations of a transaction, run from a fresh one.\<close>

lemma silent_marker: "silent (running u (verifyMarker st c))"
proof -
  have "running u (verifyMarker st c) = bindE (ps_Inspect st c UpdateMarker (uj_Transaction (ut_journal u))) (\<lambda>marker.
      bindE (guardE (sameObject marker (uj_Marker (ut_journal u))) (dataFailure ''core update transaction identity changed'')) (\<lambda>_. ret u))"
    by (rule ext) (simp add: running_def verifyMarker_def with_utx_def bindE_def lift_def guardE_def ret_def throw_def split: prod.splits sum.splits)
  then show ?thesis by (simp add: silent_rules)
qed

lemma silent_open: "silent (OpenUpdate (Some st) cd c)"
  unfolding OpenUpdate_def option.case no_pair_journal_def
  by (intro silent_rules) (auto intro: silent_rules silent_marker split: sum.splits)

lemma silent_final: "silent (running u (verifyFinalCore st c committed))"
proof -
  let ?j = "ut_journal u"
  have "running u (verifyFinalCore st c committed) = bindE (ps_Inspect st c InstalledBinary []) (\<lambda>current.
      bindE (guardE ((committed \<and> sameObject current (uj_New ?j)) \<or>
         (\<not> committed \<and> (sameObject current (uj_Old ?j) \<or> (po_Present (uj_Old ?j) \<and> sameObject current (uj_Restore ?j)))))
       (dataFailure ''core identity disagrees with completed update'')) (\<lambda>_. ret u))"
    by (rule ext) (auto simp: running_def verifyFinalCore_def with_utx_def Let_def bindE_def lift_def guardE_def ret_def throw_def split: prod.splits sum.splits)
  then show ?thesis by (simp add: silent_rules)
qed

lemma archive_steady:
  assumes "ok w" "archive_record st c tx raw w = (r, w')"
  shows "ok w' \<and> (\<forall>q t. q \<noteq> UpdateCleanup \<longrightarrow> sl w' q t = sl w q t)"
proof -
  obtain a w1 where a: "ps_Load st c UpdateCleanup tx w = (a, w1)" by fastforce
  have w1: "ok w1" "sl w1 = sl w" using silentD [OF silent_store(1) assms(1) a] by auto
  have b: "(case a of Inl e \<Rightarrow> if error_is ErrNotExist e then ps_Save st c UpdateCleanup tx raw else throw e
     | Inr x \<Rightarrow> guardE (ps_digest st x = ps_digest st raw) (dataFailure ''core pending cleanup record changed'')) w1 = (r, w')"
    using assms(2) by (simp add: archive_record_def bindE_def tryE_def a)
  have sv: "ok w2 \<and> (\<forall>q t. q \<noteq> UpdateCleanup \<longrightarrow> sl w2 q t = sl w q t)"
    if "ps_Save st c UpdateCleanup tx raw w1 = (x, w2)" for x w2
    using save [OF w1(1) that] w1 ok_goes [OF w1(1)] by auto
  show ?thesis
    using b w1 sv by (cases a) (auto simp: throw_def guardE_def ret_def split: if_splits)
qed

text \<open>Retiring a completed update removes the journal and leaves all but the archive alone.\<close>

lemma defer_retires:
  assumes "ok w" "running u (deferCleanupLocked st cd c) w = (Inr u', w')"
  shows "ok w' \<and> sl w' UpdateJournal [] = None \<and> (\<forall>q t. q \<noteq> UpdateCleanup \<longrightarrow> q \<noteq> UpdateJournal \<longrightarrow> sl w' q t = sl w q t)"
proof -
  let ?j = "ut_journal u"
  have "running u (deferCleanupLocked st cd c) = bindE (guardE (\<not> ut_uncertain u \<and> (uj_Phase ?j = ''committed'' \<or> uj_Phase ?j = ''rolled_back''))
      (dataFailure ''core recovery required before update'')) (\<lambda>_.
    bindE (running u (verifyFinalCore st c (uj_Phase ?j = ''committed''))) (\<lambda>_. bindE (running u (verifyMarker st c)) (\<lambda>_.
    case uc_marshal cd ?j of Inl e \<Rightarrow> throw e | Inr raw \<Rightarrow>
      bindE (ps_Inspect st c UpdateJournal []) (\<lambda>current.
         bindE (guardE (po_Present current \<and> po_SHA256 current = ps_digest st raw) (dataFailure ''completed core journal changed'')) (\<lambda>_.
         bindE (archive_record st c (uj_Transaction ?j) raw) (\<lambda>_.
         bindE (ps_syncCleanupRecord st c (uj_Transaction ?j)) (\<lambda>_.
         bindE (ps_Apply st c (remove_mutation UpdateJournal [] current)) (\<lambda>_. ret u))))))))"
    by (rule ext) (auto simp: running_def deferCleanupLocked_def verifyFinalCore_def verifyMarker_def with_utx_def Let_def bindE_def lift_def
      guardE_def ret_def throw_def split: prod.splits sum.splits)
  with assms(2) obtain raw x1 w1 x2 w2 current w3 w4 w5 x6 w6 where
    f: "running u (verifyFinalCore st c (uj_Phase ?j = ''committed'')) w = (Inr x1, w1)" and
    m: "running u (verifyMarker st c) w1 = (Inr x2, w2)" and i: "ps_Inspect st c UpdateJournal [] w2 = (Inr current, w3)" and
    a: "archive_record st c (uj_Transaction ?j) raw w3 = (Inr (), w4)" and
    s: "ps_syncCleanupRecord st c (uj_Transaction ?j) w4 = (Inr (), w5)" and
    ap: "ps_Apply st c (remove_mutation UpdateJournal [] current) w5 = (Inr x6, w')"
    by (auto simp: bindE_Inr guardE_def ret_def throw_def split: if_splits sum.splits)
  have w1: "ok w1" "sl w1 = sl w" using silentD [OF silent_final assms(1) f] by auto
  have w2: "ok w2" "sl w2 = sl w" using silentD [OF silent_marker w1(1) m] w1 by auto
  have w3: "ok w3" "sl w3 = sl w" using silentD [OF silent_store(2) w2(1) i] w2 by auto
  have w4: "ok w4" "\<forall>q t. q \<noteq> UpdateCleanup \<longrightarrow> sl w4 q t = sl w q t" using archive_steady [OF w3(1) a] w3 by auto
  have w5: "ok w5" "sl w5 = sl w4" using silentD [OF silent_store(4) w4(1) s] by auto
  have "goes ok sl past (put (sl w5) UpdateJournal [] None) w5 w'"
    using apply_mutation [OF w5(1) ap] by (auto simp: remove_mutation_def)
  then show ?thesis using w4 w5 by (auto simp: goes_def)
qed

lemma begin_begun:
  assumes "ok w" "BeginUpdate (Some st) cd c tx expected intent w = (Inr u, w')"
  shows "ok w' \<and> begun cd u (sl w') \<and> uj_Transaction (ut_journal u) = tx \<and> sameObject (uj_New (ut_journal u)) expected \<and>
    sl w' InstalledBinary [] = sl w InstalledBinary []"
proof -
  from assms(2) obtain w1 w2 w3 prev i2 pending prev' w4 w5 where
    q: "ps_acquire st c w = (Inr (), w1)" and n: "no_pair_journal st c ''legacy core recovery required before update'' w1 = (Inr (), w2)" and
    l: "ps_Load st c UpdateJournal [] w2 = (prev, w3)" and
    pv: "(case prev of Inr raw \<Rightarrow> ret (Some raw) | Inl e \<Rightarrow> if error_is ErrNotExist e then ret None else throw e) w3 = (Inr prev', w4)" and
    rt: "retire_previous st cd c prev' intent False w4 = (Inr (i2, pending), w5)" and
    sn: "snapshot_core st cd c tx expected i2 False pending w5 = (Inr u, w')"
    unfolding BeginUpdate_def beginUpdate_def option.case bindE_Inr tryE_eq
    by (auto simp: guardE_def ret_def throw_def split: if_splits)
  have w1: "ok w1" "sl w1 = sl w" using silentD [OF silent_store(3) assms(1) q] by auto
  have np: "silent (no_pair_journal st c m)" for m unfolding no_pair_journal_def by (intro silent_rules)
  have w2: "ok w2" "sl w2 = sl w" using silentD [OF np w1(1) n] w1 by auto
  have w3: "ok w3" "sl w3 = sl w" using silentD [OF silent_store(1) w2(1) l] w2 by auto
  have w4: "w4 = w3" using pv by (auto simp: ret_def throw_def split: sum.splits if_splits)
  have "ok w5 \<and> sl w5 UpdateJournal [] = None \<and> sl w5 InstalledBinary [] = sl w InstalledBinary []"
  proof (cases prev')
    case None
    then have "\<exists>e. prev = Inl e \<and> error_is ErrNotExist e" using pv by (auto simp: ret_def throw_def split: sum.splits if_splits)
    then have "sl w2 UpdateJournal [] = None" using load [OF w2(1) l] by blast
    then show ?thesis using rt None w3 w4 w2 by (auto simp: retire_previous_def ret_def)
  next
    case (Some raw)
    then obtain v w6 x where op: "OpenUpdate (Some st) cd c w3 = (Inr v, w6)" and df: "running v (deferCleanupLocked st cd c) w6 = (Inr x, w5)"
      using rt w4 by (auto simp: retire_previous_def bindE_Inr ret_def)
    have w6: "ok w6" "sl w6 = sl w" using silentD [OF silent_open w3(1) op] w3 by simp_all
    from defer_retires [OF w6(1) df] w6(2) show ?thesis by simp
  qed
  then show ?thesis using snapshot_begun [OF _ _ sn] by simp
qed

lemma begun_safe:
  assumes "ok w" "begun cd u (sl w)" "past w \<subseteq> S"
  shows "safe cd (ut_journal u) S (u, w)"
proof -
  let ?j = "ut_journal u"
  have b: "?j\<lparr>uj_Phase := ''prepared''\<rparr> = ?j" using assms(2) by (simp add: begun_def Let_def)
  have "core_safe st ?j (sl w)" "phase_fits st ?j ''prepared'' (sl w)"
    using assms(2) by (auto simp: begun_def Let_def core_safe_def old_core_def phase_fits_def new_core_phase_def)
  moreover have p: "''prepared'' \<in> set update_phases" by (simp add: update_phases_def)
  moreover have "journal_text cd (?j\<lparr>uj_Phase := ''prepared''\<rparr>) (sl w)"
    using assms(2) unfolding b by (simp add: begun_def Let_def)
  ultimately have "update_safe st cd ?j (sl w)" unfolding update_safe_def by blast
  moreover have "\<exists>p \<in> set update_phases. ?j = ?j\<lparr>uj_Phase := p\<rparr>"
    using b p by metis
  ultimately show ?thesis using assms by (auto simp: tx_inv_def begun_def Let_def)
qed

section \<open>Any run is safe\<close>

lemma take_step_safe:
  assumes "faithful st cd b" "quiet_callback (Some cb)" "po_Present (uj_Restore b) = po_Present (uj_Old b)"
    "\<not> po_Present (uj_Restore b) \<Longrightarrow> uj_Restore b = absent_object" "safe cd b S x"
  shows "safe cd b S (snd (take_step st cd cb a x))"
proof -
  have out: "safe cd b S (snd (m x))" if "triple (holds cd b S (\<lambda>_ _. True)) m (\<lambda>_. holds cd b S F) (safe cd b S)" for m :: "(unit, 'w) uop" and F
  proof -
    obtain r x' where m: "m x = (r, x')" by (cases "m x")
    have "holds cd b S (\<lambda>_ _. True) x" using assms(5) by (simp add: state_def)
    then show ?thesis using tripleD [OF that, of x] m by (cases r) (auto dest: holds_safe)
  qed
  show ?thesis
  proof (cases a)
    case (DoRequireRecovery e)
    obtain r x' where m: "(recoveryFailure st cd e :: (unit, 'w) uop) x = (r, x')"
      by (cases "(recoveryFailure st cd e :: (unit, 'w) uop) x")
    have "safe cd b S x'"
    proof (cases r)
      case (Inl e1)
      then show ?thesis using tripleD(2) [OF recoveryFailure_safe [OF assms(1)] assms(5)] m by blast
    qed (use m in \<open>simp add: recoveryFailure_fails\<close>)
    then show ?thesis using m DoRequireRecovery by (simp add: RequireRecovery_def)
  qed (simp_all add: out [OF Publish_triple [OF assms(1)]] out [OF Commit_triple [OF assms(1,2)]]
      out [OF Rollback_triple [OF assms(1-4)]] out [OF CompleteRollback_triple [OF assms(1)]])
qed

lemma run_steps_safe:
  assumes "faithful st cd b" "quiet_callback (Some cb)" "po_Present (uj_Restore b) = po_Present (uj_Old b)"
    "\<not> po_Present (uj_Restore b) \<Longrightarrow> uj_Restore b = absent_object" "safe cd b S x"
  shows "safe cd b S (run_steps st cd cb as x)"
  using assms(5)
proof (induction as arbitrary: x)
  case (Cons a as)
  from Cons.IH [OF take_step_safe [OF assms(1-4) Cons.prems]] show ?case by simp
qed simp

lemma begin_run_safe:
  assumes "ok w" "begun cd u (sl w)" "past w = {}" "faithful st cd (ut_journal u)" "quiet_callback (Some cb)"
  shows "safe cd (ut_journal u) {} (run_steps st cd cb as (u, w))"
  by (rule run_steps_safe [OF assms(4,5)])
    (use begun_safe [OF assms(1,2), of "{}"] assms(2,3) in \<open>auto simp: begun_def Let_def\<close>)

definition frozen :: "(unit, 'w) uop \<Rightarrow> bool" where
  "frozen m \<longleftrightarrow> (\<forall>u w r u' w'. ok w \<longrightarrow> decided u \<longrightarrow> m (u, w) = (r, (u', w')) \<longrightarrow> ok w' \<and> sl w' = sl w \<and> u' = u)"

lemma verifyMarker_frozen: "ok w \<Longrightarrow> verifyMarker st c (u, w) = (r, (u', w')) \<Longrightarrow> ok w' \<and> sl w' = sl w \<and> u' = u"
proof -
  assume w: "ok w" and v: "verifyMarker st c (u, w) = (r, (u', w'))"
  obtain i w1 where i: "ps_Inspect st c UpdateMarker (uj_Transaction (ut_journal u)) w = (i, w1)" by fastforce
  then have "w' = w1 \<and> u' = u" using v
    by (auto simp: verifyMarker_def with_utx_def bindE_def lift_def guardE_def ret_def throw_def split: sum.splits if_splits)
  then show ?thesis using silentD [OF silent_store(2) w i] by simp
qed

lemma writePhase_frozen: "ut_uncertain u \<Longrightarrow> writePhase st cd c p (u, w) = (Inl (coreUpdateUncertain None), (u, w))"
  by (simp add: writePhase_def)

lemma Publish_frozen: "frozen (Publish st cd c)"
  unfolding frozen_def
proof (intro allI impI)
  fix u w r u' w' assume w: "ok w" and d: "decided u" and p: "Publish st cd c (u, w) = (r, (u', w'))"
  show "ok w' \<and> sl w' = sl w \<and> u' = u"
  proof (cases "uj_Phase (ut_journal u) = ''prepared''")
    case True
    then have unc: "ut_uncertain u" using d by (simp add: decided_def)
    obtain q w1 where q: "ps_acquire st c w = (q, w1)" by fastforce
    note w1 = silentD [OF silent_store(3) w q]
    obtain v u2 w2 where v: "verifyMarker st c (u, w1) = (v, (u2, w2))" by (metis surj_pair)
    note w2 = verifyMarker_frozen [OF conjunct1 [OF w1] v]
    show ?thesis using p True unc q w1 v w2
      by (auto simp: Publish_def with_utx_def bindE_def lift_def guardE_def ret_def writePhase_frozen split: sum.splits)
  qed (use p w in \<open>auto simp: Publish_def with_utx_def bindE_def guardE_def throw_def\<close>)
qed

lemma Commit_frozen: "frozen (Commit st cd c (Some cb))"
  unfolding frozen_def
proof (intro allI impI)
  fix u w r u' w' assume w: "ok w" and d: "decided u" and p: "Commit st cd c (Some cb) (u, w) = (r, (u', w'))"
  show "ok w' \<and> sl w' = sl w \<and> u' = u"
  proof (cases "uj_Phase (ut_journal u) = ''verifying''")
    case True
    then have unc: "ut_uncertain u" using d by (simp add: decided_def)
    obtain v u1 w1 where v: "verifyMarker st c (u, w) = (v, (u1, w1))" by (metis surj_pair)
    note w1 = verifyMarker_frozen [OF w v]
    obtain i w2 where i: "ps_Inspect st c InstalledBinary [] w1 = (i, w2)" by fastforce
    note w2 = silentD [OF silent_store(2) conjunct1 [OF w1] i]
    show ?thesis using p True unc v w1 i w2
      by (auto simp: Commit_def Let_def with_utx_def bindE_def lift_def guardE_def ret_def throw_def writePhase_frozen split: sum.splits if_splits)
  qed (use p w in \<open>auto simp: Commit_def Let_def with_utx_def bindE_def guardE_def throw_def\<close>)
qed

lemma refused: "decided u \<Longrightarrow> \<exists>e. Rollback st cd c (Some cb) (u, w) = (Inl e, (u, w))"
  "decided u \<Longrightarrow> \<exists>e. CompleteRollback st cd c (u, w) = (Inl e, (u, w))"
  "decided u \<Longrightarrow> \<exists>e'. RequireRecovery st cd e (u, w) = (Inl e', (u, w))"
proof -
  assume d: "decided u"
  show "\<exists>e. Rollback st cd c (Some cb) (u, w) = (Inl e, (u, w))"
    using d by (cases "uj_Phase (ut_journal u) \<noteq> ''committed'' \<and> \<not> ui_Reinstall (uj_Intent (ut_journal u))")
      (simp_all add: Rollback_def Let_def with_utx_def bindE_def guardE_def ret_def throw_def decided_def, blast)
  show "\<exists>e. CompleteRollback st cd c (u, w) = (Inl e, (u, w))"
    using d by (auto simp: CompleteRollback_def with_utx_def bindE_def guardE_def throw_def decided_def)
  show "\<exists>e'. RequireRecovery st cd e (u, w) = (Inl e', (u, w))"
    using d by (simp add: RequireRecovery_def recoveryFailure_def decided_def)
qed

lemma take_step_frozen: "frozen (take_step st cd cb a)"
proof (cases a)
  case (DoRollback c)
  then show ?thesis using refused(1) unfolding frozen_def by (metis prod.inject take_step.simps(3))
next
  case (DoCompleteRollback c)
  then show ?thesis using refused(2) unfolding frozen_def by (metis prod.inject take_step.simps(4))
next
  case (DoRequireRecovery e)
  then show ?thesis using refused(3) unfolding frozen_def by (metis prod.inject take_step.simps(5))
qed (simp_all add: Publish_frozen Commit_frozen)

lemma run_steps_frozen:
  "ok w \<Longrightarrow> decided u \<Longrightarrow> run_steps st cd cb as (u, w) = (u', w') \<Longrightarrow> sl w' = sl w \<and> u' = u"
proof (induction as arbitrary: w)
  case (Cons a as)
  obtain r u1 w1 where s: "take_step st cd cb a (u, w) = (r, (u1, w1))" by (metis surj_pair)
  have "ok w1 \<and> sl w1 = sl w \<and> u1 = u"
    using take_step_frozen [of cd cb a, unfolded frozen_def, rule_format, OF Cons.prems(1,2) s] .
  then show ?case using Cons.IH [of w1] Cons.prems s by auto
qed simp

section \<open>Who may run\<close>

lemma open_some:
  assumes "ok w" "OpenUpdate (Some st) cd c w = (Inr u, w')"
  shows "\<exists>f. sl w UpdateJournal [] = Some f \<and> decodeUpdateJournal st cd (rf_content f) = Inr (ut_journal u) \<and> \<not> ut_uncertain u"
proof -
  from assms(2) [unfolded OpenUpdate_def option.case bindE_Inr] obtain raw w1 w2 where
    l: "ps_Load st c UpdateJournal [] w = (Inr raw, w1)" and
    d: "(case decodeUpdateJournal st cd raw of Inl e \<Rightarrow> throw e | Inr journal \<Rightarrow> running (new_utx journal) (verifyMarker st c)) w2 = (Inr u, w')"
    by blast
  from d obtain j where j: "decodeUpdateJournal st cd raw = Inr j" and v: "running (new_utx j) (verifyMarker st c) w2 = (Inr u, w')"
    by (cases "decodeUpdateJournal st cd raw") (auto simp: throw_def)
  have "u = new_utx j" using v
    by (auto simp: running_def verifyMarker_def with_utx_def bindE_def lift_def guardE_def ret_def throw_def
      split: prod.splits sum.splits if_splits)
  then show ?thesis using load [OF assms(1) l] j by (auto simp: new_utx_def)
qed

lemma decode_error: "json_errors cd \<Longrightarrow> decodeUpdateJournal st cd raw = Inl e \<Longrightarrow> \<not> error_is ErrNotExist e"
proof -
  assume c: "json_errors cd" and d: "decodeUpdateJournal st cd raw = Inl e"
  have p: "\<not> error_is ErrNotExist e1" if "uc_parse cd raw = Inl e1" for e1 using c that by (simp add: json_errors_def)
  have t: "\<not> error_is_opt ErrNotExist t1" if "uc_parse cd raw = Inr (j, t1)" for j t1
    using c that by (cases t1) (auto simp: json_errors_def)
  have u: "\<not> error_is ErrNotExist e1" if "uc_decode cd raw = Inl e1" for e1 using c that by (simp add: json_errors_def)
  from d p t u show ?thesis
    by (auto simp: decodeUpdateJournal_def decodeStrict_def dataFailure_def dataFailureCause_def
      split: sum.splits if_splits prod.splits)
qed

lemma open_none:
  assumes "json_errors cd" "ok w" "OpenUpdate (Some st) cd c w = (Inl e, w')" "error_is ErrNotExist e"
  shows "sl w UpdateJournal [] = None"
proof -
  from assms(3) have "bindE (ps_Load st c UpdateJournal []) (\<lambda>raw.
     bindE (no_pair_journal st c ''legacy and current core recovery journals coexist'') (\<lambda>_.
     case decodeUpdateJournal st cd raw of Inl e \<Rightarrow> throw e
     | Inr journal \<Rightarrow> running (new_utx journal) (verifyMarker st c))) w = (Inl e, w')"
    by (simp add: OpenUpdate_def)
  then show ?thesis
  proof (cases rule: bindE_cases)
    case (stop e1)
    then show ?thesis using load [OF assms(2) stop(1)] assms(4) by auto
  next
    case (go raw w1)
    have w1: "ok w1" using silentD [OF silent_store(1) assms(2) go(1)] by simp
    from go(2) show ?thesis
    proof (cases rule: bindE_cases)
      case (stop e1)
      obtain l w2 where l: "ps_Load st c PairJournal [] w1 = (l, w2)" by fastforce
      have "\<not> error_is ErrNotExist e1" using stop(1)
        by (cases l) (auto simp: no_pair_journal_def bindE_def tryE_def l guardE_def ret_def throw_def is_absent_def err_of_def
          dataFailure_def split: if_splits)
      then show ?thesis using stop(2) assms(4) by simp
    next
      case (go y w2)
      have np: "silent (no_pair_journal st c m)" for m unfolding no_pair_journal_def by (intro silent_rules)
      have w2: "ok w2" using silentD [OF np w1 go(1)] by simp
      have "\<not> error_is ErrNotExist e"
      proof (cases "decodeUpdateJournal st cd raw")
        case (Inl e2)
        then show ?thesis using decode_error [OF assms(1)] go(2) by (auto simp: throw_def)
      next
        case (Inr j)
        obtain i w3 where i: "ps_Inspect st c UpdateMarker (uj_Transaction j) w2 = (i, w3)" by fastforce
        show ?thesis using go(2) Inr i inspect [OF w2 i]
          by (auto simp: running_def verifyMarker_def with_utx_def new_utx_def bindE_def lift_def guardE_def ret_def throw_def dataFailure_def
            split: prod.splits sum.splits if_splits)
      qed
      then show ?thesis using assms(4) by simp
    qed
  qed
qed

lemma authorize_allows:
  assumes "json_errors cd" "ok w" "authorizePendingUpdate (Some st) cd c authority w = (Inr (), w')"
  shows "sl w UpdateJournal [] = None \<or>
    (\<exists>f j. sl w UpdateJournal [] = Some f \<and> decodeUpdateJournal st cd (rf_content f) = Inr j \<and> may_run authority j (at_core st (sl w)))"
proof -
  obtain r w1 where op: "OpenUpdate (Some st) cd c w = (r, w1)" by fastforce
  have w1: "ok w1" "sl w1 = sl w" using silentD [OF silent_open assms(2) op] by auto
  show ?thesis
  proof (cases r)
    case (Inl e)
    with op assms(3) have "error_is ErrNotExist e"
      by (auto simp: authorizePendingUpdate_def bindE_def tryE_def throw_def split: if_splits)
    then show ?thesis using open_none [OF assms(1,2)] op Inl by blast
  next
    case (Inr u)
    let ?p = "uj_Phase (ut_journal u)"
    obtain f where f: "sl w UpdateJournal [] = Some f" "decodeUpdateJournal st cd (rf_content f) = Inr (ut_journal u)"
      using open_some [OF assms(2)] op Inr by blast
    have "may_run authority (ut_journal u) (at_core st (sl w))"
    proof (cases "?p = ''committed'' \<or> ?p = ''rolled_back''")
      case True
      obtain i w2 where i: "ps_Inspect st c InstalledBinary [] w1 = (i, w2)" by fastforce
      have "i = Inr z \<Longrightarrow> z = at_core st (sl w)" for z using inspect [OF w1(1) i] w1 by (simp add: at_core_def)
      then show ?thesis using assms(3) op Inr True i
        by (auto simp: authorizePendingUpdate_def may_run_def old_core_def Let_def running_def verifyFinalCore_def with_utx_def bindE_def tryE_def
          lift_def guardE_def ret_def throw_def split: prod.splits sum.splits if_splits)
    next
      case False
      then have "authorized authority (ut_journal u) = None" using assms(3) op Inr
        by (auto simp: authorizePendingUpdate_def Let_def bindE_def tryE_def throw_def split: option.splits)
      then show ?thesis using False
        by (auto simp: authorized_def may_run_def new_core_phase_def split: option.splits if_splits)
    qed
    then show ?thesis using f by blast
  qed
qed

section \<open>Cleanup\<close>

lemma apply_all_removes:
  assumes "ok w" "apply_all st c ms w = (r, w')" "\<forall>m \<in> set ms. \<exists>role x. m = remove_mutation role tx x \<and> role \<noteq> InstalledBinary"
  shows "ok w' \<and> (\<forall>q t. sl w' q t = sl w q t \<or> (sl w' q t = None \<and> t = tx \<and> q \<in> pm_Role ` set ms)) \<and>
    (r = Inr () \<longrightarrow> (\<forall>q \<in> pm_Role ` set ms. sl w' q tx = None))"
  using assms
proof (induction ms arbitrary: w)
  case Nil
  then show ?case by (simp add: ret_def)
next
  case (Cons m ms)
  obtain role x where m: "m = remove_mutation role tx x" "role \<noteq> InstalledBinary" using Cons.prems(3) by auto
  obtain a w1 where a: "ps_Apply st c m w = (a, w1)" by fastforce
  have g: "ok w1 \<and> ((\<exists>e. a = Inl e) \<and> sl w1 = sl w \<or> sl w1 = put (sl w) role tx None)"
    using apply_mutation [OF Cons.prems(1) a] ok_goes [OF Cons.prems(1)] m by (auto simp: remove_mutation_def)
  show ?case
  proof (cases a)
    case (Inl e)
    then have "w' = w1" "\<exists>e. r = Inl e" using Cons.prems(2) a by (auto simp: bindE_def tryE_def throw_def)
    then show ?thesis using g m by (auto simp: put_def remove_mutation_def split: if_splits)
  next
    case (Inr y)
    then have rest: "apply_all st c ms w1 = (r, w')" using Cons.prems(2) a by (simp add: bindE_def tryE_def)
    have s1: "sl w1 = put (sl w) role tx None" using g Inr by blast
    have p3: "\<forall>m \<in> set ms. \<exists>role x. m = remove_mutation role tx x \<and> role \<noteq> InstalledBinary" using Cons.prems(3) by simp
    note IH = Cons.IH [OF conjunct1 [OF g] rest p3]
    have pm: "pm_Role m = role" by (simp add: m remove_mutation_def)
    have gone: "sl w' role tx = None" using IH s1 by (metis put_same)
    have "sl w' q t = sl w q t \<or> (sl w' q t = None \<and> t = tx \<and> q \<in> pm_Role ` set (m # ms))" for q t
    proof (cases "q = role \<and> t = tx")
      case False
      then have "put (sl w) role tx None q t = sl w q t" using m(2) by (auto simp: put_def)
      with IH s1 show ?thesis by (metis image_insert insertCI list.simps(15))
    qed (use gone pm in simp)
    then show ?thesis using IH gone pm by simp
  qed
qed

lemma preflight_result:
  assumes "ok w" "preflight st c tx marker items w = (Inr ms, w')"
  shows "ok w' \<and> sl w' = sl w \<and>
    (\<forall>m \<in> set ms. \<exists>role x. (role, x) \<in> set items \<and> m = remove_mutation role tx (observed st (sl w role tx)) \<and>
      po_Present marker \<and> sameObject (observed st (sl w role tx)) x) \<and>
    (\<forall>(role, x) \<in> set items. sl w role tx \<noteq> None \<longrightarrow> role \<in> pm_Role ` set ms)"
  using assms
proof (induction items arbitrary: w ms)
  case Nil
  then show ?case by (simp add: ret_def)
next
  case (Cons item items)
  obtain role x where item: "item = (role, x)" by (cases item)
  from Cons.prems(2) obtain z w1 where i: "ps_Inspect st c role tx w = (Inr z, w1)" and
    rest: "(if \<not> po_Present z then preflight st c tx marker items
       else bindE (guardE (po_Present marker \<and> sameObject z x) (dataFailure ''core cleanup object changed'')) (\<lambda>_.
         bindE (preflight st c tx marker items) (\<lambda>ms. ret (remove_mutation role tx z # ms)))) w1 = (Inr ms, w')"
    by (auto simp: item bindE_Inr)
  have w1: "ok w1" "sl w1 = sl w" "z = observed st (sl w role tx)" using inspect_stays [OF Cons.prems(1) i] by auto
  show ?case
  proof (cases "po_Present z")
    case False
    then have "sl w role tx = None" using w1(3) by (auto simp: observed_def split: option.splits)
    moreover note Cons.IH [OF w1(1), of ms, unfolded w1(2)]
    ultimately show ?thesis using rest False item by fastforce
  next
    case True
    from rest True obtain ms' where p: "preflight st c tx marker items w1 = (Inr ms', w')"
      and ms: "ms = remove_mutation role tx z # ms'" and g: "po_Present marker" "sameObject z x"
      by (auto simp: bindE_Inr guardE_def ret_def throw_def split: if_splits)
    have rm: "pm_Role (remove_mutation role tx z) = role" by (simp add: remove_mutation_def)
    show ?thesis using Cons.IH [OF w1(1) p, unfolded w1(2)] ms g w1(3) item rm by fastforce
  qed
qed

lemma plan_cleanup_result:
  assumes "ok w" "plan_cleanup st cd c tx record w = (Inr ms, w')"
  shows "ok w' \<and> sl w' = sl w \<and> (\<forall>m \<in> set ms. \<exists>x. m = remove_mutation (pm_Role m) tx x \<and> pm_Role m \<in> set cleanup_roles) \<and>
    (\<forall>role \<in> set cleanup_roles. sl w role tx \<noteq> None \<longrightarrow> role \<in> pm_Role ` set ms) \<and>
    (\<exists>f j. sl w UpdateCleanup tx = Some f \<and> decodeUpdateJournal st cd (rf_content f) = Inr j \<and> uj_Transaction j = tx \<and>
      (uj_Phase j = ''committed'' \<or> uj_Phase j = ''rolled_back'') \<and>
      (\<forall>(role, x) \<in> {(UpdateCandidate, uj_New j), (UpdateBackup, uj_Backup j), (UpdateRestore, uj_Restore j), (UpdateMarker, uj_Marker j)}.
        sl w role tx \<noteq> None \<longrightarrow> sameObject (observed st (sl w role tx)) x))"
proof -
  from assms(2) [unfolded plan_cleanup_def bindE_Inr] obtain raw w1 x w2 where
    l: "ps_Load st c UpdateCleanup tx w = (Inr raw, w1)" and
    g1: "guardE (ps_digest st raw = po_SHA256 record) (dataFailure ''core cleanup record changed'') w1 = (Inr x, w2)" and
    k: "(case decodeUpdateJournal st cd raw of Inl e \<Rightarrow> throw e | Inr j \<Rightarrow> plan_objects st c tx record j) w2 = (Inr ms, w')"
    by blast
  have w2: "ok w2" "sl w2 = sl w" using silentD [OF silent_store(1) assms(1) l] g1
    by (auto simp: guardE_def ret_def throw_def split: if_splits)
  obtain f where f: "sl w UpdateCleanup tx = Some f" "rf_content f = raw" using load [OF assms(1) l] by blast
  from k obtain j where j: "decodeUpdateJournal st cd raw = Inr j" and k': "plan_objects st c tx record j w2 = (Inr ms, w')"
    by (cases "decodeUpdateJournal st cd raw") (auto simp: throw_def)
  from k' obtain marker w3 ms' w4 current w5 where
    done1: "uj_Transaction j = tx" "uj_Phase j = ''committed'' \<or> uj_Phase j = ''rolled_back''" and
    i: "ps_Inspect st c UpdateMarker tx w2 = (Inr marker, w3)" and mk: "\<not> po_Present marker \<or> sameObject marker (uj_Marker j)" and
    p: "preflight st c tx marker [(UpdateCandidate, uj_New j), (UpdateBackup, uj_Backup j), (UpdateRestore, uj_Restore j)] w3 = (Inr ms', w4)" and
    i2: "ps_Inspect st c UpdateCleanup tx w4 = (Inr current, w5)" and w': "w' = w5" and
    ms: "ms = ms' @ (if po_Present marker then [remove_mutation UpdateMarker tx marker] else []) @ [remove_mutation UpdateCleanup tx record]"
    unfolding plan_objects_def bindE_Inr io_Inr by blast
  have w3: "ok w3" "sl w3 = sl w" "marker = observed st (sl w UpdateMarker tx)" using inspect_stays [OF w2(1) i] w2 by auto
  note pf = preflight_result [OF w3(1) p, unfolded w3(2)]
  have w5: "ok w5" "sl w5 = sl w" using inspect_stays [OF _ i2] pf by auto
  have pm: "pm_Role (remove_mutation q tx y) = q" for q y by (simp add: remove_mutation_def)
  have m: "(sl w UpdateMarker tx \<noteq> None) = po_Present marker" using w3(3) by (cases "sl w UpdateMarker tx") simp_all
  have 1: "\<forall>m \<in> set ms. \<exists>x. m = remove_mutation (pm_Role m) tx x \<and> pm_Role m \<in> set cleanup_roles"
    using pf unfolding ms by (fastforce simp: pm cleanup_roles_def split: if_splits)
  have 2: "\<forall>role \<in> set cleanup_roles. sl w role tx \<noteq> None \<longrightarrow> role \<in> pm_Role ` set ms"
    using pf m unfolding ms by (auto simp: pm cleanup_roles_def image_Un)
  have 3: "sl w role tx \<noteq> None \<longrightarrow> sameObject (observed st (sl w role tx)) x"
    if rx: "(role, x) \<in> set [(UpdateCandidate, uj_New j), (UpdateBackup, uj_Backup j), (UpdateRestore, uj_Restore j)]" for role x
  proof
    assume "sl w role tx \<noteq> None"
    then have "role \<in> pm_Role ` set ms'" using pf rx by auto
    then obtain x' where "(role, x') \<in> set [(UpdateCandidate, uj_New j), (UpdateBackup, uj_Backup j), (UpdateRestore, uj_Restore j)]"
      "sameObject (observed st (sl w role tx)) x'" using pf by (fastforce simp: pm)
    then show "sameObject (observed st (sl w role tx)) x" using rx by auto
  qed
  have 4: "sl w UpdateMarker tx \<noteq> None \<longrightarrow> sameObject (observed st (sl w UpdateMarker tx)) (uj_Marker j)" using m mk w3(3) by simp
  show ?thesis using w' w5 1 2 3 4 f j done1 by auto
qed

lemma silent_preflight: "silent (preflight st c tx marker items)"
proof (induction items)
  case (Cons item items)
  then show ?case by (cases item) (auto intro!: silent_rules)
qed (simp add: silent_basic)

lemma silent_plan: "silent (plan_cleanup st cd c tx x)"
  unfolding plan_cleanup_def plan_objects_def by (auto intro!: silent_rules silent_preflight split: sum.splits)

lemma cleanup_result:
  assumes "ok w" "cleanupArchivedUpdate st cd c tx w = (r, w')"
  shows "(\<forall>q t. sl w' q t = sl w q t \<or> (sl w' q t = None \<and> t = tx \<and> q \<in> set cleanup_roles)) \<and>
    (sl w' \<noteq> sl w \<longrightarrow> (\<exists>f j. sl w UpdateCleanup tx = Some f \<and> decodeUpdateJournal st cd (rf_content f) = Inr j \<and> uj_Transaction j = tx \<and>
      (uj_Phase j = ''committed'' \<or> uj_Phase j = ''rolled_back'') \<and>
      (\<forall>(role, x) \<in> {(UpdateCandidate, uj_New j), (UpdateBackup, uj_Backup j), (UpdateRestore, uj_Restore j), (UpdateMarker, uj_Marker j)}.
        sl w role tx \<noteq> None \<longrightarrow> sameObject (observed st (sl w role tx)) x))) \<and>
    (r = Inr () \<and> sl w UpdateCleanup tx \<noteq> None \<longrightarrow> (\<forall>q \<in> set cleanup_roles. sl w' q tx = None))"
proof -
  obtain z w1 where i: "ps_Inspect st c UpdateCleanup tx w = (z, w1)" by fastforce
  have w1: "ok w1" "sl w1 = sl w" using silentD [OF silent_store(2) assms(1) i] by auto
  have rm: "sl w3 = sl w2" if "ok w2" "ps_removeEmptyCleanupDirectory st c tx w2 = (y, w3)" for w2 w3 y
    using silentD [OF silent_store(7) that] by simp
  show ?thesis
  proof (cases z)
    case (Inl e)
    then have "w' = w1" "r = Inl e" using assms(2) i by (auto simp: cleanupArchivedUpdate_def bindE_def)
    then show ?thesis using w1 by simp
  next
    case (Inr rcd)
    then have rec: "rcd = observed st (sl w UpdateCleanup tx)" using inspect_stays [OF assms(1)] i by blast
    show ?thesis
    proof (cases "po_Present rcd")
      case False
      then have "ps_removeEmptyCleanupDirectory st c tx w1 = (r, w')" using assms(2) i Inr by (simp add: cleanupArchivedUpdate_def bindE_def)
      then show ?thesis using rm [OF w1(1)] w1 False rec by (cases "sl w UpdateCleanup tx") auto
    next
      case True
      then have b: "bindE (plan_cleanup st cd c tx rcd) (\<lambda>ms. bindE (apply_all st c ms) (\<lambda>_. ps_removeEmptyCleanupDirectory st c tx)) w1 = (r, w')"
        using assms(2) i Inr by (simp add: cleanupArchivedUpdate_def bindE_def)
      then show ?thesis
      proof (cases rule: bindE_cases)
        case (stop e)
        then have "sl w' = sl w" using silentD [OF silent_plan w1(1) stop(1)] w1 by simp
        then show ?thesis using stop(2) by simp
      next
        case (go ms w2)
        note pl = plan_cleanup_result [OF w1(1) go(1), unfolded w1(2)]
        from go(2) obtain a w3 where ap: "apply_all st c ms w2 = (a, w3)" and
          e: "(\<exists>e. a = Inl e \<and> r = Inl e \<and> w' = w3) \<or> (a = Inr () \<and> ps_removeEmptyCleanupDirectory st c tx w3 = (r, w'))"
          by (cases rule: bindE_cases) auto
        have "\<forall>m \<in> set ms. \<exists>role x. m = remove_mutation role tx x \<and> role \<noteq> InstalledBinary"
          using pl by (fastforce simp: cleanup_roles_def)
        note aa = apply_all_removes [OF conjunct1 [OF pl] ap this]
        have s': "sl w' = sl w3" using e rm aa by blast
        have ok_a: "r = Inr () \<Longrightarrow> a = Inr ()" using e by auto
        have 1: "\<forall>q t. sl w' q t = sl w q t \<or> (sl w' q t = None \<and> t = tx \<and> q \<in> set cleanup_roles)"
          using aa pl unfolding s' by (metis (no_types, lifting) imageE)
        have 2: "\<forall>q \<in> set cleanup_roles. sl w' q tx = None" if "r = Inr ()"
        proof
          fix q assume q: "q \<in> set cleanup_roles"
          show "sl w' q tx = None"
          proof (cases "sl w q tx")
            case None
            then show ?thesis using 1 by metis
          next
            case (Some f)
            then have "q \<in> pm_Role ` set ms" using pl q by auto
            then show ?thesis using aa ok_a [OF that] unfolding s' by auto
          qed
        qed
        show ?thesis
        proof (intro conjI impI)
          assume "sl w' \<noteq> sl w"
          show "\<exists>f j. sl w UpdateCleanup tx = Some f \<and> decodeUpdateJournal st cd (rf_content f) = Inr j \<and> uj_Transaction j = tx \<and>
            (uj_Phase j = ''committed'' \<or> uj_Phase j = ''rolled_back'') \<and>
            (\<forall>(role, x) \<in> {(UpdateCandidate, uj_New j), (UpdateBackup, uj_Backup j), (UpdateRestore, uj_Restore j), (UpdateMarker, uj_Marker j)}.
              sl w role tx \<noteq> None \<longrightarrow> sameObject (observed st (sl w role tx)) x)"
            using pl by (elim conjE)
        qed (use 1 2 in simp_all)
      qed
    qed
  qed
qed

end

end
