(* ===== verification/Core_Claims.thy ===== *)
theory Core_Claims
  imports Core_Recovery "HOL-Library.Code_Target_Nat"
begin

text \<open>
  The properties of core updates over the file store, as the interpretation of \<open>Core_Store\<close>
  gives them, and a small store on which their hypotheses hold.
\<close>

section \<open>A small store\<close>

definition demo_tx :: string where
  "demo_tx = ''000102030405060708090a0b0c0d0e0f''"

definition demo_cfg :: store_cfg where
  "demo_cfg = \<lparr>sc_goos = ''linux'', sc_sha256 = (\<lambda>b. take 32 (map of_char b @ replicate 32 0))\<rparr>"

definition demo_file :: "string \<Rightarrow> string \<Rightarrow> nat \<Rightarrow> fnode" where
  "demo_file content i perm = Reg \<lparr>rf_content = content, rf_ident = i, rf_perm = perm, rf_links = 1\<rparr>"

definition demo_tree :: tree where
  "demo_tree = [([''bin''], Dir), ([''bin'', ''mihomo''], demo_file ''old core'' ''1'' 448), ([''staging''], Dir), ([''staging'', ''core''], Dir),
     ([''staging'', ''core'', ''update''], Dir), ([''staging'', ''core'', ''update'', demo_tx], Dir),
     ([''staging'', ''core'', ''update'', demo_tx, ''candidate-binary''], demo_file ''new core'' ''2'' 448),
     ([''staging'', ''core'', ''update'', demo_tx, ''transaction-id''], demo_file demo_tx ''3'' 384)]"

definition demo_cworld :: cworld where
  "demo_cworld = \<lparr>cw_tree = demo_tree, cw_seen = [], cw_faults = [], cw_fresh = [''a'', ''4'', ''b'', ''5'', ''c'', ''6'', ''d'', ''7'', ''e'', ''8'', ''f'', ''9'', ''g'', ''10''],
     cw_installed = absent_object, cw_admitted = False, cw_channel = (''stable'', [])\<rparr>"

definition demo_sel :: "string \<Rightarrow> core_selection" where
  "demo_sel v = \<lparr>cs_Channel = ''stable'', cs_Bundle = [], cs_Version = v, cs_AlphaSHA = []\<rparr>"

definition demo_intent :: update_intent where
  "demo_intent = \<lparr>ui_Previous = demo_sel ''v1'', ui_Next = demo_sel ''v2'', ui_WasRunning = True, ui_StartNew = True, ui_Reinstall = False\<rparr>"

definition demo_obj :: "string \<Rightarrow> string \<Rightarrow> prov_object" where
  "demo_obj content i = \<lparr>po_Present = True, po_SHA256 = digest demo_cfg content, po_Identity = i, po_BootID = ''file-update-identity-v1''\<rparr>"

definition demo_uj :: update_journal where
  "demo_uj = \<lparr>uj_Schema = updateSchema, uj_Transaction = demo_tx, uj_Phase = ''prepared'', uj_Intent = demo_intent,
     uj_Old = demo_obj ''old core'' ''1'', uj_New = demo_obj ''new core'' ''2'', uj_Backup = demo_obj ''old core'' ''4'',
     uj_Restore = demo_obj ''old core'' ''5'', uj_Marker = demo_obj demo_tx ''3''\<rparr>"

definition demo_ucodec :: update_codec where
  "demo_ucodec = \<lparr>uc_marshal = (\<lambda>j. Inr (uj_Phase j)), uc_parse = (\<lambda>_. Inr (JNull, Some ErrEOF)), uc_decode = (\<lambda>raw. Inr (demo_uj\<lparr>uj_Phase := raw\<rparr>))\<rparr>"

text \<open>The settings file of the owner, outside the store.\<close>

definition demo_keep :: "core_selection \<Rightarrow> (unit, cworld) io" where
  "demo_keep sel w = (Inr (), w\<lparr>cw_channel := (cs_Channel sel, cs_Bundle sel)\<rparr>)"

definition demo_utx :: utx where
  "demo_utx = \<lparr>ut_journal = demo_uj, ut_warnings = [], ut_uncertain = False\<rparr>"

text \<open>The store once the update has begun.\<close>

definition demo_tree1 :: tree where
  "demo_tree1 = demo_tree @
    [([''staging'', ''core'', ''update'', demo_tx, ''backup-binary''], demo_file ''old core'' ''4'' 384),
     ([''staging'', ''core'', ''update'', demo_tx, ''restore-binary''], demo_file ''old core'' ''5'' 448),
     ([''staging'', ''core'', ''update-journal.json''], demo_file ''prepared'' ''6'' 384)]"

definition demo_world1 :: cworld where
  "demo_world1 = \<lparr>cw_tree = demo_tree1, cw_seen = [], cw_faults = [], cw_fresh = [''d'', ''7'', ''e'', ''8'', ''f'', ''9'', ''g'', ''10''],
     cw_installed = demo_obj ''old core'' ''1'', cw_admitted = True, cw_channel = (''stable'', [])\<rparr>"

definition demo_begin :: "(go_error + utx) \<times> cworld" where
  "demo_begin = BeginUpdate (Some (fileUpdateStore demo_cfg)) demo_ucodec True demo_tx (demo_obj ''new core'' ''2'') demo_intent demo_cworld"

lemma demo_begin_ok:
  "case demo_begin of (Inl _, _) \<Rightarrow> False | (Inr u, w) \<Rightarrow> u = demo_utx \<and> cw_tree w = demo_tree1 \<and> cw_faults w = [] \<and>
     cw_fresh w = cw_fresh demo_world1 \<and> cw_installed w = cw_installed demo_world1 \<and> cw_admitted w \<and> cw_channel w = cw_channel demo_world1"
  by code_simp

lemma demo_begun:
  "BeginUpdate (Some (fileUpdateStore demo_cfg)) demo_ucodec True demo_tx (demo_obj ''new core'' ''2'') demo_intent demo_cworld =
    (Inr demo_utx, snd demo_begin)"
  using demo_begin_ok unfolding demo_begin_def by (auto split: prod.splits sum.splits)

lemma demo_begun_world: "(snd demo_begin)\<lparr>cw_seen := []\<rparr> = demo_world1"
proof (cases demo_begin)
  case (Pair r w)
  have "cw_tree w = demo_tree1 \<and> cw_faults w = [] \<and> cw_fresh w = cw_fresh demo_world1 \<and>
      cw_installed w = cw_installed demo_world1 \<and> cw_admitted w \<and> cw_channel w = cw_channel demo_world1"
    using demo_begin_ok unfolding Pair by (cases r) simp_all
  then show ?thesis unfolding Pair snd_conv by (cases w) (simp add: demo_world1_def)
qed

lemma demo_keep_reads: "\<forall>sel. reads (demo_keep sel)"
  by (simp add: reads_def demo_keep_def same_files_def)

lemma wf_entries: "list_all (\<lambda>(p, _). p \<noteq> [] \<and> is_dir (map_of t) (butlast p)) t \<Longrightarrow> wf_tree (map_of t)"
  unfolding wf_tree_def list_all_iff by (fastforce dest: map_of_SomeD)

lemma demo_wf: "wf_tree (nodes demo_cworld)"
  by (rule wf_entries) code_simp

lemma demo_wf1: "wf_tree (nodes demo_world1)"
  by (rule wf_entries) code_simp

text \<open>The published core, with the journal in the phase that lets its owner run it.\<close>

definition demo_world2 :: cworld where
  "demo_world2 = demo_world1\<lparr>cw_tree := AList.update [''staging'', ''core'', ''update-journal.json''] (demo_file ''verifying'' ''7'' 384)
     (AList.update [''bin'', ''mihomo''] (demo_file ''new core'' ''2'' 448) demo_tree1)\<rparr>"

definition demo_utx2 :: utx where
  "demo_utx2 = demo_utx\<lparr>ut_journal := demo_uj\<lparr>uj_Phase := ''verifying''\<rparr>\<rparr>"

text \<open>A committed update whose record is kept for cleanup.\<close>

definition demo_archived :: cworld where
  "demo_archived = demo_world1\<lparr>cw_tree :=
    [([''bin''], Dir), ([''bin'', ''mihomo''], demo_file ''new core'' ''2'' 448), ([''staging''], Dir), ([''staging'', ''core''], Dir),
     ([''staging'', ''core'', ''update''], Dir), ([''staging'', ''core'', ''update'', demo_tx], Dir),
     ([''staging'', ''core'', ''update'', demo_tx, ''transaction-id''], demo_file demo_tx ''3'' 384),
     ([''staging'', ''core'', ''update'', demo_tx, ''restore-binary''], demo_file ''old core'' ''5'' 448),
     ([''staging'', ''core'', ''update'', demo_tx, ''pending-cleanup.json''], demo_file ''committed'' ''9'' 384)]\<rparr>"

lemma demo_cleans: "fst (cleanupArchivedUpdate (fileUpdateStore demo_cfg) demo_ucodec True demo_tx demo_archived) = Inr ()"
  by code_simp

text \<open>Runs of the update, and an operation at the end of a run.\<close>

definition demo_run :: "update_step list \<Rightarrow> utx \<times> cworld" where
  "demo_run steps = run_steps (fileUpdateStore demo_cfg) demo_ucodec demo_keep steps (demo_utx, demo_world1)"

definition demo_next :: "(unit, cworld) uop \<Rightarrow> update_step list \<Rightarrow> (go_error + unit) \<times> utx \<times> cworld" where
  "demo_next m steps = m (demo_run steps)"

lemma core_rolls_back: "fst (demo_next (Rollback (fileUpdateStore demo_cfg) demo_ucodec True (Some demo_keep)) [DoPublish True]) = Inr ()"
  by code_simp

lemma core_commits: "fst (demo_next (Commit (fileUpdateStore demo_cfg) demo_ucodec True (Some demo_keep)) [DoPublish True]) = Inr ()"
  by code_simp

lemma demo_faithful: "faithful (fileUpdateStore demo_cfg) demo_ucodec (ut_journal demo_utx)"
  by code_simp

lemmas demo_hyps = demo_wf demo_begun demo_faithful demo_keep_reads

section \<open>Properties\<close>

text \<open>A callback that reads is quiet for the file store.\<close>

lemma reads_quiet: "(\<And>sel. reads (cb sel)) \<Longrightarrow> file_store.quiet_callback cfg (Some cb)"
  unfolding file_store.quiet_callback_def
  by (auto simp: goes_def reads_def same_files_def file_slots_def file_past_def)

lemma run_after_begin:
  assumes "wf_tree (nodes w)" "BeginUpdate (Some (fileUpdateStore cfg)) cd c tx expected intent w = (Inr u, w1)"
    "faithful (fileUpdateStore cfg) cd (ut_journal u)" "\<forall>sel. reads (cb sel)"
  shows "tx_inv (fileUpdateStore cfg) cd file_inv (file_slots cfg) (file_past cfg) (ut_journal u) {}
    (run_steps (fileUpdateStore cfg) cd cb steps (u, w1\<lparr>cw_seen := []\<rparr>))"
  using file_store.begin_begun [OF assms(1,2)] assms(3) reads_quiet [of cb cfg] assms(4)
  by (intro file_store.begin_run_safe) (auto simp: file_slots_def file_past_def)

lemma same_digest:
  "sameObject (observed (fileUpdateStore cfg) s) x \<Longrightarrow>
    map_option (digest cfg \<circ> rf_content) s = (if po_Present x then Some (po_SHA256 x) else None)"
  by (cases s) (auto simp: sameObject_def observed_def absent_object_def fileUpdateStore_def split: if_splits)

lemma step_after_run:
  assumes "triple (state st cd ok sl past b S (\<lambda>_ _. True)) m (\<lambda>_. state st cd ok sl past b S F) E"
    "tx_inv st cd ok sl past b S x" "m x = (Inr (), u2, w2)"
  shows "tx_inv st cd ok sl past b S (u2, w2) \<and> F u2 (sl w2)"
  using tripleD(1) [OF assms(1) _ assms(3)] assms(2) by (simp add: state_def)

text \<open>C5. A core update can be recovered from at any point: after \<open>BeginUpdate\<close>, whatever calls of
  \<open>Publish\<close>, \<open>Commit\<close>, \<open>Rollback\<close>, \<open>CompleteRollback\<close> and \<open>RequireRecovery\<close> follow, in any order and with any system
  call failing, every state the directory tree goes through (so every state a crash can leave) has a journal
  on disk whose phase fits the installed core, the installed core is the old one, the new one or the restored copy,
  and a copy of the old one is kept.\<close>

theorem update_recoverable:
  assumes "wf_tree (nodes w)" "BeginUpdate (Some (fileUpdateStore cfg)) cd c tx expected intent w = (Inr u, w1)"
    and "faithful (fileUpdateStore cfg) cd (ut_journal u)" "\<forall>sel. reads (cb sel)"
    and "run_steps (fileUpdateStore cfg) cd cb steps (u, w1\<lparr>cw_seen := []\<rparr>) = (u2, w2)"
  shows "list_all (\<lambda>t. update_safe (fileUpdateStore cfg) cd (ut_journal u) (slot cfg t)) (nodes w2 # cw_seen w2)"
  using run_after_begin [OF assms(1-4), of steps] unfolding assms(5)
  by (auto simp: tx_inv_def file_slots_def file_past_def list_all_iff)

theorem update_recoverable_witness:
  "list_all (\<lambda>t. update_safe (fileUpdateStore demo_cfg) demo_ucodec demo_uj (slot demo_cfg t))
     (nodes (snd (demo_run [DoPublish True, DoCommit True])) # cw_seen (snd (demo_run [DoPublish True, DoCommit True])))"
  using update_recoverable [OF demo_hyps, of "[DoPublish True, DoCommit True]"] unfolding demo_begun_world demo_run_def [symmetric]
  by (metis prod.collapse demo_utx_def utx.select_convs(1))

text \<open>C8. A rollback that reports success has put the old core back: whatever calls preceded it, the installed file has the
  content digest it had before the update began, or is absent if it was absent.\<close>

theorem rollback_restores_old:
  assumes "wf_tree (nodes w)" "BeginUpdate (Some (fileUpdateStore cfg)) cd c tx expected intent w = (Inr u, w1)"
    and "faithful (fileUpdateStore cfg) cd (ut_journal u)" "\<forall>sel. reads (cb sel)"
    and "Rollback (fileUpdateStore cfg) cd c2 (Some cb) (run_steps (fileUpdateStore cfg) cd cb steps (u, w1\<lparr>cw_seen := []\<rparr>)) = (Inr (), u2, w2)"
  shows "map_option (digest cfg \<circ> rf_content) (file_slots cfg w2 InstalledBinary []) =
    map_option (digest cfg \<circ> rf_content) (file_slots cfg w InstalledBinary [])"
proof -
  let ?b = "ut_journal u" and ?st = "fileUpdateStore cfg"
  have bg: "file_store.begun cfg cd u (file_slots cfg w1)" "file_slots cfg w1 InstalledBinary [] = file_slots cfg w InstalledBinary []"
    using file_store.begin_begun [OF assms(1,2)] by auto
  have st: "po_Present (uj_Restore ?b) = po_Present (uj_Old ?b)" "\<not> po_Present (uj_Restore ?b) \<Longrightarrow> uj_Restore ?b = absent_object"
    and old: "observed ?st (file_slots cfg w InstalledBinary []) = uj_Old ?b"
    and sha: "po_Present (uj_Old ?b) \<Longrightarrow> po_SHA256 (uj_Restore ?b) = po_SHA256 (uj_Old ?b)"
    using bg unfolding file_store.begun_def Let_def at_core_def by auto
  have q: "file_store.quiet_callback cfg (Some cb)" using assms(4) by (simp add: reads_quiet)
  have "old_core ?b (at_core ?st (file_slots cfg w2))"
    using step_after_run [OF file_store.Rollback_triple [OF assms(3) q st] run_after_begin [OF assms(1-4)] assms(5)] by simp
  moreover have "sameObject (observed ?st (file_slots cfg w InstalledBinary [])) (uj_Old ?b)" using old by simp
  ultimately show ?thesis using st(1) sha unfolding old_core_def at_core_def by (auto dest!: same_digest)
qed

theorem rollback_restores_old_witness:
  "fst (demo_next (Rollback (fileUpdateStore demo_cfg) demo_ucodec True (Some demo_keep)) [DoPublish True]) = Inr () \<and>
   map_option (digest demo_cfg \<circ> rf_content)
     (file_slots demo_cfg (snd (snd (demo_next (Rollback (fileUpdateStore demo_cfg) demo_ucodec True (Some demo_keep)) [DoPublish True]))) InstalledBinary []) =
   map_option (digest demo_cfg \<circ> rf_content) (file_slots demo_cfg demo_cworld InstalledBinary [])"
proof
  let ?x = "demo_next (Rollback (fileUpdateStore demo_cfg) demo_ucodec True (Some demo_keep)) [DoPublish True]"
  show ok: "fst ?x = Inr ()" by (rule core_rolls_back)
  show "map_option (digest demo_cfg \<circ> rf_content) (file_slots demo_cfg (snd (snd ?x)) InstalledBinary []) =
   map_option (digest demo_cfg \<circ> rf_content) (file_slots demo_cfg demo_cworld InstalledBinary [])"
    using rollback_restores_old [OF demo_hyps, of True "[DoPublish True]" "fst (snd ?x)" "snd (snd ?x)"] ok
    unfolding demo_begun_world demo_run_def [symmetric] demo_next_def [symmetric] by (simp add: prod_eq_iff)
qed

text \<open>A commit that reports success has published the accepted candidate: the installed file has the
  digest of the candidate the update was begun with, and the journal on disk says committed.\<close>

theorem commit_installs_new:
  assumes "wf_tree (nodes w)" "BeginUpdate (Some (fileUpdateStore cfg)) cd c tx expected intent w = (Inr u, w1)"
    and "faithful (fileUpdateStore cfg) cd (ut_journal u)" "\<forall>sel. reads (cb sel)"
    and "Commit (fileUpdateStore cfg) cd c2 (Some cb) (run_steps (fileUpdateStore cfg) cd cb steps (u, w1\<lparr>cw_seen := []\<rparr>)) = (Inr (), u2, w2)"
  shows "map_option (digest cfg \<circ> rf_content) (file_slots cfg w2 InstalledBinary []) = Some (po_SHA256 expected) \<and>
    journal_text cd ((ut_journal u)\<lparr>uj_Phase := ''committed''\<rparr>) (file_slots cfg w2)"
proof -
  let ?b = "ut_journal u" and ?st = "fileUpdateStore cfg"
  have bg: "file_store.begun cfg cd u (file_slots cfg w1)" "sameObject (uj_New ?b) expected" "po_Present (uj_New ?b)"
    using file_store.begin_begun [OF assms(1,2)] by (auto simp: file_store.begun_def Let_def)
  have q: "file_store.quiet_callback cfg (Some cb)" using assms(4) by (simp add: reads_quiet)
  have inv: "tx_inv ?st cd file_inv (file_slots cfg) (file_past cfg) ?b {} (u2, w2)"
    and c: "ut_journal u2 = ?b\<lparr>uj_Phase := ''committed''\<rparr>" "\<not> ut_uncertain u2" "sameObject (at_core ?st (file_slots cfg w2)) (uj_New ?b)"
    using step_after_run [OF file_store.Commit_triple [OF assms(3) q] run_after_begin [OF assms(1-4)] assms(5)] by simp_all
  have "po_SHA256 (uj_New ?b) = po_SHA256 expected" using bg(2,3) by (auto simp: sameObject_def split: if_splits)
  then show ?thesis using inv c bg(3) unfolding at_core_def by (auto simp: tx_inv_def dest!: same_digest)
qed

theorem commit_installs_new_witness:
  "fst (demo_next (Commit (fileUpdateStore demo_cfg) demo_ucodec True (Some demo_keep)) [DoPublish True]) = Inr () \<and>
   map_option (digest demo_cfg \<circ> rf_content)
     (file_slots demo_cfg (snd (snd (demo_next (Commit (fileUpdateStore demo_cfg) demo_ucodec True (Some demo_keep)) [DoPublish True]))) InstalledBinary []) =
   Some (digest demo_cfg ''new core'')"
proof
  let ?x = "demo_next (Commit (fileUpdateStore demo_cfg) demo_ucodec True (Some demo_keep)) [DoPublish True]"
  show ok: "fst ?x = Inr ()" by (rule core_commits)
  show "map_option (digest demo_cfg \<circ> rf_content) (file_slots demo_cfg (snd (snd ?x)) InstalledBinary []) = Some (digest demo_cfg ''new core'')"
    using commit_installs_new [OF demo_hyps, of True "[DoPublish True]" "fst (snd ?x)" "snd (snd ?x)"] ok
    unfolding demo_begun_world demo_run_def [symmetric] demo_next_def [symmetric] by (simp add: prod_eq_iff demo_obj_def)
qed

text \<open>A decision is final: once a transaction is committed, or its phase on disk could not be
  confirmed, no sequence of its operations changes an object of the store or the transaction itself.\<close>

theorem decided_is_final:
  assumes "wf_tree (nodes w)" "decided u" "run_steps (fileUpdateStore cfg) cd cb steps (u, w) = (u2, w2)"
    and "\<forall>sel. reads (cb sel)"
  shows "file_slots cfg w2 = file_slots cfg w \<and> u2 = u"
  using file_store.run_steps_frozen [OF assms(1-3)] .

theorem decided_is_final_witness:
  "file_slots demo_cfg (snd (run_steps (fileUpdateStore demo_cfg) demo_ucodec demo_keep [DoRollback True, DoPublish True]
      (demo_utx\<lparr>ut_uncertain := True\<rparr>, demo_world1))) = file_slots demo_cfg demo_world1"
proof -
  have d: "decided (demo_utx\<lparr>ut_uncertain := True\<rparr>)" by (simp add: decided_def)
  from decided_is_final [OF demo_wf1 d _ demo_keep_reads, of demo_cfg demo_ucodec "[DoRollback True, DoPublish True]"]
  show ?thesis by (metis prod.collapse)
qed

text \<open>C33. Running the core is allowed only without a recorded update, with the decided core of a completed
  update in place, or by the owner of the update in a phase that lets it run that core.\<close>

theorem execution_needs_authority:
  assumes "json_errors cd" "wf_tree (nodes w)"
    and "authorizePendingUpdate (Some (fileUpdateStore cfg)) cd c authority w = (Inr (), w2)"
  shows "file_slots cfg w UpdateJournal [] = None \<or>
    (\<exists>f j. file_slots cfg w UpdateJournal [] = Some f \<and> decodeUpdateJournal (fileUpdateStore cfg) cd (rf_content f) = Inr j \<and>
      may_run authority j (at_core (fileUpdateStore cfg) (file_slots cfg w)))"
  using file_store.authorize_allows [OF assms(1,2,3)] .

theorem execution_needs_authority_witness:
  "case file_slots demo_cfg demo_world2 UpdateJournal [] of
     None \<Rightarrow> False
   | Some f \<Rightarrow> (case decodeUpdateJournal (fileUpdateStore demo_cfg) demo_ucodec (rf_content f) of
       Inl _ \<Rightarrow> False
     | Inr j \<Rightarrow> may_run (Some (ExecutionContext demo_utx2)) j (at_core (fileUpdateStore demo_cfg) (file_slots demo_cfg demo_world2)))"
proof -
  have w: "wf_tree (nodes demo_world2)" by (rule wf_entries) code_simp
  have "fst (authorizePendingUpdate (Some (fileUpdateStore demo_cfg)) demo_ucodec True (Some (ExecutionContext demo_utx2)) demo_world2) = Inr ()"
    by code_simp
  then obtain w2 where a: "authorizePendingUpdate (Some (fileUpdateStore demo_cfg)) demo_ucodec True (Some (ExecutionContext demo_utx2)) demo_world2 = (Inr (), w2)"
    by (metis prod.collapse)
  have j: "json_errors demo_ucodec" by (auto simp: json_errors_def demo_ucodec_def)
  have "file_slots demo_cfg demo_world2 UpdateJournal [] \<noteq> None" by code_simp
  then show ?thesis using execution_needs_authority [OF j w a] by auto
qed

text \<open>C34. Cleanup removes only the objects of the transaction it is given, and only if the record kept
  with them says that this transaction is completed and names each object; a cleanup that
  reports success leaves none of them.\<close>

theorem cleanup_is_confined:
  assumes "wf_tree (nodes w)" "cleanupArchivedUpdate (fileUpdateStore cfg) cd c tx w = (r, w2)"
  shows "(\<forall>role t. file_slots cfg w2 role t = file_slots cfg w role t \<or>
      (file_slots cfg w2 role t = None \<and> t = tx \<and> role \<in> set cleanup_roles)) \<and>
    (file_slots cfg w2 \<noteq> file_slots cfg w \<longrightarrow>
      (\<exists>f j. file_slots cfg w UpdateCleanup tx = Some f \<and> decodeUpdateJournal (fileUpdateStore cfg) cd (rf_content f) = Inr j \<and>
        uj_Transaction j = tx \<and> (uj_Phase j = ''committed'' \<or> uj_Phase j = ''rolled_back'') \<and>
        (\<forall>(role, x) \<in> {(UpdateCandidate, uj_New j), (UpdateBackup, uj_Backup j), (UpdateRestore, uj_Restore j), (UpdateMarker, uj_Marker j)}.
          file_slots cfg w role tx \<noteq> None \<longrightarrow> sameObject (observed (fileUpdateStore cfg) (file_slots cfg w role tx)) x))) \<and>
    (r = Inr () \<and> file_slots cfg w UpdateCleanup tx \<noteq> None \<longrightarrow> (\<forall>role \<in> set cleanup_roles. file_slots cfg w2 role tx = None))"
  using file_store.cleanup_result [OF assms] .

theorem cleanup_is_confined_witness:
  "list_all (\<lambda>role. file_slots demo_cfg (snd (cleanupArchivedUpdate (fileUpdateStore demo_cfg) demo_ucodec True demo_tx demo_archived)) role demo_tx = None)
     cleanup_roles \<and>
   file_slots demo_cfg (snd (cleanupArchivedUpdate (fileUpdateStore demo_cfg) demo_ucodec True demo_tx demo_archived)) InstalledBinary [] =
   file_slots demo_cfg demo_archived InstalledBinary []"
proof -
  obtain r w2 where x: "cleanupArchivedUpdate (fileUpdateStore demo_cfg) demo_ucodec True demo_tx demo_archived = (r, w2)" by fastforce
  have w: "wf_tree (nodes demo_archived)" by (rule wf_entries) code_simp
  have "r = Inr ()" using demo_cleans x by simp
  moreover have "file_slots demo_cfg demo_archived UpdateCleanup demo_tx \<noteq> None" by code_simp
  moreover have "InstalledBinary \<notin> set cleanup_roles" by code_simp
  ultimately show ?thesis using cleanup_is_confined [OF w x] unfolding list_all_iff x snd_conv by blast
qed

end
