(* ===== verification/Runtime_Settings.thy ===== *)
theory Runtime_Settings
  imports State_Store Settings Operations
begin

text \<open>
  \<open>internal/runtime/settings.go\<close> and the locking of \<open>manager.go\<close>: how the manager changes the daemon's
  settings. A change is prepared on a copy, validated, saved through \<open>config.SaveWithCommit\<close> and only then
  published to memory; a change that has to be taken back is saved and published again. A change
  that cannot be taken back puts the manager in a state in which it refuses every further mutation.
\<close>

section \<open>The manager\<close>

text \<open>
  The fields of \<open>Manager\<close> that settings mutations use. \<open>mg_fs\<close> is the file system, \<open>mg_faults\<close> how the next
  file writes go, \<open>mg_ctx\<close> what \<open>ctx.Err()\<close> returns next, \<open>mg_os\<close> the state behind the operating-system
  backends. The core update reservation is represented by a number, as the code compares pointers. The
  maintenance channel makes the operations below atomic to each other.
\<close>

record 'p manager =
  mg_settings :: settings
  mg_generation :: u64
  mg_snapshot :: value_snapshot
  mg_mutationDegraded :: bool
  mg_coreRecovery :: bool
  mg_coreUpdate :: "nat option"
  mg_closing :: bool
  mg_validationMode :: bool
  mg_activationPhase :: string
  mg_warnings :: "go_error list"
  mg_fs :: fs
  mg_faults :: "atomic_faults list"
  mg_ctx :: "go_error option list"
  mg_os :: 'p

text \<open>What is fixed when the manager is made: the settings path (empty: not persisted), the address parser and the
  YAML encoder.\<close>

record manager_env =
  me_path :: "(string \<times> string) option"
  me_parse :: addr_parser
  me_marshal :: "settings \<Rightarrow> go_error + string"
  me_rnd :: string

text \<open>A context: the core update it belongs to, and whether it can be cancelled.\<close>

record op_ctx =
  cx_owner :: "nat option"
  cx_cancellable :: bool

definition WithoutCancel :: "op_ctx \<Rightarrow> op_ctx" where
  "WithoutCancel c = c\<lparr>cx_cancellable := False\<rparr>"

definition ctxErr :: "op_ctx \<Rightarrow> (unit, 'p manager) io" where
  "ctxErr c m =
     (if \<not> cx_cancellable c then (Inr (), m)
      else case mg_ctx m of
        [] \<Rightarrow> (Inr (), m)
      | None # es \<Rightarrow> (Inr (), m\<lparr>mg_ctx := es\<rparr>)
      | Some e # es \<Rightarrow> (Inl e, m\<lparr>mg_ctx := es\<rparr>))"

section \<open>Locks\<close>

definition invalid_state :: "string \<Rightarrow> go_error" where
  "invalid_state message = Api (api CodeInvalidState message)"

definition ownsCoreUpdate :: "op_ctx \<Rightarrow> 'p manager \<Rightarrow> bool" where
  "ownsCoreUpdate c m \<longleftrightarrow> (case mg_coreUpdate m of None \<Rightarrow> False | Some r \<Rightarrow> cx_owner c = Some r)"

definition checkCoreUpdateReservation :: "op_ctx \<Rightarrow> (unit, 'p manager) io" where
  "checkCoreUpdateReservation c m =
     guardE (\<not> ((mg_coreUpdate m \<noteq> None \<or> mg_coreRecovery m) \<and> \<not> ownsCoreUpdate c m))
       (invalid_state ''core update or recovery is in progress'') m"

text \<open>Waiting for the maintenance token fails when the context ends first.\<close>

definition lockMaintenance :: "op_ctx \<Rightarrow> (unit, 'p manager) io" where
  "lockMaintenance c = bindE (ctxErr c) (\<lambda>_. \<lambda>m.
     guardE (\<not> (mg_closing m \<and> \<not> ownsCoreUpdate c m)) (invalid_state ''mihari daemon is shutting down'') m)"

definition businessMutationAllowed :: "'p manager \<Rightarrow> bool" where
  "businessMutationAllowed m \<longleftrightarrow>
     \<not> mg_validationMode m \<and> mg_activationPhase m \<in> {[], ''activation_committed'', ''complete''}"

definition mutation_failed :: go_error where
  "mutation_failed = invalid_state ''mutation compensation failed; restart required''"

definition lockMutation :: "op_ctx \<Rightarrow> (unit, 'p manager) io" where
  "lockMutation c =
     bindE (checkCoreUpdateReservation c) (\<lambda>_.
     bindE (lockMaintenance c) (\<lambda>_.
     bindE (checkCoreUpdateReservation c) (\<lambda>_. \<lambda>m.
     bindE (guardE (businessMutationAllowed m) (invalid_state ''install activation is required'')) (\<lambda>_.
     guardE (\<not> mg_mutationDegraded m) mutation_failed) m)))"

definition checkIfRevision :: "u64 option \<Rightarrow> (unit, 'p manager) io" where
  "checkIfRevision revision m =
     (case revision of
        None \<Rightarrow> (Inr (), m)
      | Some r \<Rightarrow> guardE (r = Revision (mg_snapshot m)) (revision_conflict r (Revision (mg_snapshot m))) m)"

section \<open>Settings candidates\<close>

record settings_candidate =
  sc_before :: settings
  sc_after :: settings
  sc_changed :: bool
  sc_generation :: u64

definition settingsSnapshot :: "'p manager \<Rightarrow> settings" where
  "settingsSnapshot m = Clone (mg_settings m)"

definition configInputs :: "'p manager \<Rightarrow> settings \<times> u64" where
  "configInputs m = (Clone (mg_settings m), mg_generation m)"

definition prepareSettings ::
  "manager_env \<Rightarrow> (settings \<Rightarrow> go_error + settings) \<Rightarrow> (settings_candidate, 'p manager) io" where
  "prepareSettings env update m =
     (let (before, generation) = configInputs m in
      case update (Clone before) of
        Inl e \<Rightarrow> (Inl e, m)
      | Inr after \<Rightarrow>
          (case Validate (me_parse env) after of
             Some e \<Rightarrow> (Inl e, m)
           | None \<Rightarrow> (Inr \<lparr>sc_before = before, sc_after = after, sc_changed = (before \<noteq> after), sc_generation = generation\<rparr>, m)))"

definition next_fault :: "'p manager \<Rightarrow> atomic_faults" where
  "next_fault m = (case mg_faults m of [] \<Rightarrow> no_faults | f # _ \<Rightarrow> f)"

definition committed :: commit_result where
  "committed = \<lparr>commit_Committed = True, commit_Warning = None\<rparr>"

definition persist_settings :: "go_error \<Rightarrow> go_error" where
  "persist_settings e = Failure (api CodeDataFailure ''persist settings'') (Some e)"

text \<open>\<open>saveSettingsCandidate\<close>: the result is what the caller gets beside the error.\<close>

definition saveSettingsCandidate ::
  "manager_env \<Rightarrow> settings_candidate \<Rightarrow> 'p manager \<Rightarrow> (commit_result \<times> go_error option) \<times> 'p manager" where
  "saveSettingsCandidate env cand m =
     (if \<not> sc_changed cand then ((committed, None), m)
      else case me_path env of
        None \<Rightarrow> ((committed, None), m)
      | Some (d, b) \<Rightarrow>
        (case SaveWithCommit (me_parse env) (me_marshal env) (write_file (next_fault m) d b (me_rnd env)) (Clone (sc_after cand)) (mg_fs m) of
           ((result, err), f) \<Rightarrow>
             (let m1 = m\<lparr>mg_fs := f, mg_faults := tl (mg_faults m)\<rparr> in
              case err of
                Some e \<Rightarrow>
                  if commit_Committed result then ((no_commit, Some (persist_settings e)), m1)
                  else ((result, Some (persist_settings e)), m1)
              | None \<Rightarrow>
                  if \<not> commit_Committed result
                  then ((no_commit, Some (persist_settings (Opaque ''invalid commit outcome''))), m1)
                  else ((result, None),
                    (case commit_Warning result of None \<Rightarrow> m1 | Some w \<Rightarrow> m1\<lparr>mg_warnings := mg_warnings m1 @ [w]\<rparr>)))))"

definition publishSettings :: "settings_candidate \<Rightarrow> 'p manager \<Rightarrow> 'p manager" where
  "publishSettings cand m =
     (if \<not> sc_changed cand then m
      else m\<lparr>mg_settings := Clone (sc_after cand), mg_generation := mg_generation m + 1\<rparr>)"

definition updateSettings ::
  "manager_env \<Rightarrow> (settings \<Rightarrow> go_error + settings) \<Rightarrow> (settings_candidate, 'p manager) io" where
  "updateSettings env update m =
     bindE (guardE (\<not> mg_mutationDegraded m) mutation_failed) (\<lambda>_.
     bindE (prepareSettings env update) (\<lambda>cand. \<lambda>m1.
       if \<not> sc_changed cand then (Inr cand, m1)
       else (case saveSettingsCandidate env cand m1 of
          ((_, Some e), m2) \<Rightarrow> (Inl e, m2)
        | ((_, None), m2) \<Rightarrow> (Inr cand, publishSettings cand m2)))) m"

definition restoreSettings ::
  "manager_env \<Rightarrow> settings \<Rightarrow> 'p manager \<Rightarrow> (commit_result \<times> go_error option) \<times> 'p manager" where
  "restoreSettings env settings m =
     (let before = settingsSnapshot m;
          cand = \<lparr>sc_before = before, sc_after = Clone settings, sc_changed = (before \<noteq> settings), sc_generation = 0\<rparr> in
      case saveSettingsCandidate env cand m of
        ((result, Some e), m1) \<Rightarrow> ((result, Some e), m1)
      | ((result, None), m1) \<Rightarrow>
          ((result, None), if commit_Committed result then publishSettings cand m1 else m1))"

section \<open>The state snapshot\<close>

definition updateStateLocked :: "command_meta \<Rightarrow> mutation \<Rightarrow> (value_snapshot, 'p manager) io" where
  "updateStateLocked meta mutate m =
     (case coordinator_Do None meta mutate (mg_snapshot m) of
        ((v, None), s) \<Rightarrow> (Inr v, m\<lparr>mg_snapshot := s\<rparr>)
      | ((_, Some e), s) \<Rightarrow> (Inl e, m\<lparr>mg_snapshot := s\<rparr>))"

text \<open>\<open>enterMutationDegraded\<close>: the snapshot it leaves and the error it returns.\<close>

definition degraded_snapshot :: "value_snapshot \<Rightarrow> value_snapshot" where
  "degraded_snapshot s = s\<lparr>Health := ''degraded'', LastError := ''mutation compensation failed; restart required''\<rparr>"

definition compensation_failed :: api_error where
  "compensation_failed = api CodeDataFailure ''mutation compensation failed''"

text \<open>The command that a failed compensation runs. \<open>enterMutationDegraded\<close> sets the flag of the manager
  when the coordinator calls the mutation, that is, after its revision check.\<close>

definition enter_degraded :: "command_meta \<Rightarrow> go_error option list \<Rightarrow> ('a, 'p manager) io" where
  "enter_degraded meta causes m =
     (case updateStateLocked meta
         (\<lambda>s. (degraded_snapshot s, Some (Committed (Failure compensation_failed (errors_join causes))))) m of
        (Inl e, m1) \<Rightarrow>
          (Inl e, if IfRevision meta = None \<or> IfRevision meta = Some (Revision (mg_snapshot m))
             then m1\<lparr>mg_mutationDegraded := True\<rparr> else m1)
      | (Inr _, m1) \<Rightarrow> (Inl (Api compensation_failed), m1))"

section \<open>Memory and file\<close>

text \<open>The settings file holds the encoding of the settings in memory.\<close>

definition file_agrees :: "manager_env \<Rightarrow> 'p manager \<Rightarrow> bool" where
  "file_agrees env m \<longleftrightarrow>
     (case me_path env of
        None \<Rightarrow> True
      | Some (d, b) \<Rightarrow>
          (case me_marshal env (canonical_settings (mg_settings m)) of
             Inl _ \<Rightarrow> False | Inr c \<Rightarrow> mg_fs m (file_path d b) = Some c))"

text \<open>Settings changes leave everything else of the manager alone.\<close>

definition settings_only :: "'p manager \<Rightarrow> 'p manager \<Rightarrow> bool" where
  "settings_only m m' \<longleftrightarrow>
     m' = m\<lparr>mg_settings := mg_settings m', mg_generation := mg_generation m', mg_warnings := mg_warnings m',
       mg_fs := mg_fs m', mg_faults := mg_faults m', mg_ctx := mg_ctx m'\<rparr>"

lemma settings_only_refl [simp]: "settings_only m m"
  by (simp add: settings_only_def)

lemma settings_only_trans: "settings_only m1 m2 \<Longrightarrow> settings_only m2 m3 \<Longrightarrow> settings_only m1 m3"
  unfolding settings_only_def by (cases m1, cases m2, cases m3) simp

lemma settings_only_keeps:
  assumes "settings_only m m'"
  shows "mg_snapshot m' = mg_snapshot m" "mg_mutationDegraded m' = mg_mutationDegraded m"
    "mg_coreRecovery m' = mg_coreRecovery m" "mg_coreUpdate m' = mg_coreUpdate m" "mg_os m' = mg_os m"
    "mg_closing m' = mg_closing m" "mg_validationMode m' = mg_validationMode m" "mg_activationPhase m' = mg_activationPhase m"
  by (subst assms [unfolded settings_only_def]; simp)+

lemma ctxErr_only: "ctxErr c m = (r, m') \<Longrightarrow> settings_only m m' \<and> mg_settings m' = mg_settings m \<and> mg_fs m' = mg_fs m \<and> mg_faults m' = mg_faults m"
  by (auto simp: ctxErr_def settings_only_def split: if_splits list.splits option.splits)

lemma ctxErr_without [simp]: "ctxErr (WithoutCancel c) m = (Inr (), m)"
  by (simp add: ctxErr_def WithoutCancel_def)

lemma file_agrees_cong: "mg_settings m' = mg_settings m \<Longrightarrow> mg_fs m' = mg_fs m \<Longrightarrow> file_agrees env m' = file_agrees env m"
  by (simp add: file_agrees_def split: option.splits sum.splits)

lemma file_agrees_frame [simp]:
  "file_agrees env (m\<lparr>mg_snapshot := x1\<rparr>) = file_agrees env m"
  "file_agrees env (m\<lparr>mg_mutationDegraded := x2\<rparr>) = file_agrees env m"
  "file_agrees env (m\<lparr>mg_os := x3\<rparr>) = file_agrees env m"
  by (rule file_agrees_cong; simp)+

lemma save_result:
  assumes "saveSettingsCandidate env cand m = ((r, e), m')" "me_path env = Some (d, b)"
  shows "settings_only m m' \<and> mg_settings m' = mg_settings m \<and>
    (e = None \<longrightarrow> commit_Committed r \<and> (if sc_changed cand
       then \<exists>c. me_marshal env (canonical_settings (sc_after cand)) = Inr c \<and> mg_fs m' (file_path d b) = Some c
       else mg_fs m' = mg_fs m)) \<and>
    (e \<noteq> None \<longrightarrow> sc_changed cand \<and> mg_fs m' (file_path d b) = mg_fs m (file_path d b))"
proof (cases "sc_changed cand")
  case True
  obtain res err f where sv: "SaveWithCommit (me_parse env) (me_marshal env) (write_file (next_fault m) d b (me_rnd env)) (sc_after cand) (mg_fs m) =
    ((res, err), f)" by (metis surj_pair)
  have keep: "err \<noteq> None \<Longrightarrow> f (file_path d b) = mg_fs m (file_path d b)"
    using sv by (auto simp: SaveWithCommit_def split: option.splits if_splits sum.splits intro: file_writer.error_keeps)
  have put: "err = None \<Longrightarrow> \<exists>c. me_marshal env (canonical_settings (sc_after cand)) = Inr c \<and> f (file_path d b) = Some c"
    using sv by (auto simp: SaveWithCommit_def split: option.splits if_splits sum.splits dest: file_writer.success_replaces)
  have com: "commit_Committed res" if none: "err = None"
  proof (rule ccontr)
    assume nc: "\<not> commit_Committed res"
    from sv none obtain c where "write_file (next_fault m) d b (me_rnd env) c (mg_fs m) = ((res, None), f)"
      by (auto simp: SaveWithCommit_def split: option.splits if_splits sum.splits)
    from file_writer.not_committed [OF this nc] show False by simp
  qed
  show ?thesis using assms True sv keep put com
    by (cases err) (auto simp: saveSettingsCandidate_def settings_only_def Let_def split: if_splits option.splits)
qed (use assms in \<open>auto simp: saveSettingsCandidate_def committed_def\<close>)

lemma save_no_path:
  assumes "me_path env = None"
  shows "saveSettingsCandidate env cand m = ((committed, None), m)"
  using assms by (simp add: saveSettingsCandidate_def)

lemma publish_only: "settings_only m (publishSettings cand m)"
  by (simp add: publishSettings_def settings_only_def)

text \<open>A change of the settings takes effect in memory and on disk, or in neither.\<close>

lemma updateSettings_result:
  assumes "updateSettings env f m = (r, m')" "file_agrees env m"
  shows "settings_only m m' \<and> file_agrees env m' \<and>
    (case r of
       Inl _ \<Rightarrow> mg_settings m' = mg_settings m
     | Inr cand \<Rightarrow> sc_before cand = mg_settings m \<and> f (mg_settings m) = Inr (sc_after cand) \<and> mg_settings m' = sc_after cand \<and>
         Validate (me_parse env) (sc_after cand) = None \<and> \<not> mg_mutationDegraded m)"
proof (cases "mg_mutationDegraded m")
  case True
  then show ?thesis using assms by (auto simp: updateSettings_def bindE_def guardE_def throw_def)
next
  case False
  obtain p m1 where pr: "prepareSettings env f m = (p, m1)" by fastforce
  have m1: "m1 = m" using pr by (auto simp: prepareSettings_def Let_def split: prod.splits sum.splits option.splits)
  show ?thesis
  proof (cases p)
    case (Inl e)
    then show ?thesis using assms False pr m1 by (auto simp: updateSettings_def bindE_def guardE_def ret_def)
  next
    case (Inr cand)
    have c: "sc_before cand = mg_settings m" "f (mg_settings m) = Inr (sc_after cand)" "Validate (me_parse env) (sc_after cand) = None"
      "sc_changed cand \<longleftrightarrow> mg_settings m \<noteq> sc_after cand"
      using pr Inr by (auto simp: prepareSettings_def configInputs_def Let_def split: sum.splits option.splits)
    show ?thesis
    proof (cases "sc_changed cand")
      case False
      then show ?thesis using assms \<open>\<not> mg_mutationDegraded m\<close> pr m1 Inr c by (auto simp: updateSettings_def bindE_def guardE_def ret_def)
    next
      case True
      obtain res e m2 where sv: "saveSettingsCandidate env cand m = ((res, e), m2)" by (metis surj_pair)
      have r: "r = (case e of Some x \<Rightarrow> Inl x | None \<Rightarrow> Inr cand)" "m' = (case e of Some x \<Rightarrow> m2 | None \<Rightarrow> publishSettings cand m2)"
        using assms(1) \<open>\<not> mg_mutationDegraded m\<close> pr m1 Inr True sv
        by (auto simp: updateSettings_def bindE_def guardE_def ret_def split: option.splits)
      show ?thesis
      proof (cases "me_path env")
        case None
        then have "e = None" "m2 = m" using save_no_path [OF None, of cand m] sv by auto
        then show ?thesis using None r c True publish_only [of m cand]
          by (auto simp: file_agrees_def publishSettings_def \<open>\<not> mg_mutationDegraded m\<close>)
      next
        case (Some db)
        then obtain d b where db: "me_path env = Some (d, b)" by (cases db) auto
        note s = save_result [OF sv db]
        show ?thesis
        proof (cases e)
          case (Some x)
          then show ?thesis using s r assms(2) db by (auto simp: file_agrees_def split: sum.splits)
        next
          case None
          then show ?thesis using s r c True db settings_only_trans [OF _ publish_only [of m2 cand], of m]
            by (auto simp: file_agrees_def publishSettings_def \<open>\<not> mg_mutationDegraded m\<close>)
        qed
      qed
    qed
  qed
qed

lemma restoreSettings_result:
  assumes "restoreSettings env old m = ((res, e), m')" "file_agrees env m"
  shows "settings_only m m' \<and> file_agrees env m' \<and> mg_settings m' = (if e = None then old else mg_settings m)"
proof -
  define cand where "cand = \<lparr>sc_before = mg_settings m, sc_after = old, sc_changed = (mg_settings m \<noteq> old), sc_generation = 0\<rparr>"
  obtain r1 e1 m1 where sv: "saveSettingsCandidate env cand m = ((r1, e1), m1)" by (metis surj_pair)
  have r: "e = e1" "m' = (if e1 = None \<and> commit_Committed r1 then publishSettings cand m1 else m1)"
    using assms(1) sv by (auto simp: restoreSettings_def settingsSnapshot_def cand_def Let_def split: option.splits)
  show ?thesis
  proof (cases "me_path env")
    case None
    then have "e1 = None" "m1 = m" "commit_Committed r1" using save_no_path [OF None, of cand m] sv by (auto simp: committed_def)
    then show ?thesis using None r publish_only [of m cand]
      by (auto simp: file_agrees_def publishSettings_def committed_def cand_def)
  next
    case (Some db)
    then obtain d b where db: "me_path env = Some (d, b)" by (cases db) auto
    note s = save_result [OF sv db]
    show ?thesis
    proof (cases e1)
      case (Some x)
      then show ?thesis using s r assms(2) db by (auto simp: file_agrees_def split: sum.splits)
    next
      case None
      then show ?thesis using s r assms(2) db settings_only_trans [OF _ publish_only, of m m1 cand]
        by (auto simp: file_agrees_def publishSettings_def cand_def split: if_splits sum.splits)
    qed
  qed
qed

lemma lock_only:
  assumes "lockMutation c m = (r, m')"
  shows "settings_only m m' \<and> mg_settings m' = mg_settings m \<and> mg_fs m' = mg_fs m \<and> (r = Inr () \<longrightarrow> \<not> mg_mutationDegraded m)"
proof -
  have "settings_only m m' \<and> mg_settings m' = mg_settings m \<and> mg_fs m' = mg_fs m \<and> (r = Inr () \<longrightarrow> \<not> mg_mutationDegraded m')"
    using assms unfolding lockMutation_def lockMaintenance_def checkCoreUpdateReservation_def
    by (auto simp: guardE_eq elim!: bindE_cases dest!: ctxErr_only split: if_splits)
  then show ?thesis using settings_only_keeps(2) by metis
qed

end
