(* ===== verification/Runtime_Proxy.thy ===== *)
theory Runtime_Proxy
  imports Runtime_Settings Catalog
begin

text \<open>
  The system proxy: ownership (\<open>internal/sysproxy/classify.go\<close>, \<open>sysproxy.go\<close>) and the manager's operations on it
  (\<open>internal/runtime/sysproxy.go\<close>). The platform backend is an argument; the calls made to it are recorded, so
  that a statement about them is a statement about what the operating system was asked to do.
\<close>

section \<open>Host and port\<close>

text \<open>\<open>net.JoinHostPort\<close>, with the port printed by \<open>%d\<close>.\<close>

definition NormalizeServer :: "string \<Rightarrow> nat \<Rightarrow> string" where
  "NormalizeServer host port =
     (if CHR '':'' \<in> set host then ''['' @ host @ '']:'' @ nat_digits port
      else host @ '':'' @ nat_digits port)"

text \<open>\<open>net.SplitHostPort\<close>, \<open>None\<close> for each of its errors: the port follows the last colon.\<close>

definition after_last_colon :: "string \<Rightarrow> string" where
  "after_last_colon s = rev (takeWhile (\<lambda>c. c \<noteq> CHR '':'') (rev s))"

definition SplitHostPort :: "string \<Rightarrow> (string \<times> string) option" where
  "SplitHostPort s =
     (if CHR '':'' \<notin> set s then None
      else let port = after_last_colon s; i = length s - length port - 1 in
        if s ! 0 = CHR ''['' then
          (let end1 = length (takeWhile (\<lambda>c. c \<noteq> CHR '']'') s) in
           if CHR '']'' \<notin> set s \<or> end1 + 1 \<noteq> i then None
           else if CHR ''['' \<in> set (drop 1 s) \<or> CHR '']'' \<in> set (drop (end1 + 1) s) then None
           else Some (take (end1 - 1) (drop 1 s), port))
        else (let host = take i s in
           if CHR '':'' \<in> set host \<or> CHR ''['' \<in> set s \<or> CHR '']'' \<in> set s then None
           else Some (host, port)))"

section \<open>Ownership\<close>

record proxy_state =
  px_Enabled :: bool
  px_Server :: string

definition IsOwned :: "proxy_state \<Rightarrow> string \<Rightarrow> bool" where
  "IsOwned observed target = (if \<not> px_Enabled observed then False else px_Server observed = target)"

definition IsForeign :: "proxy_state \<Rightarrow> string \<Rightarrow> bool" where
  "IsForeign observed target =
     (if \<not> px_Enabled observed then False else if px_Server observed = [] then False else \<not> IsOwned observed target)"

section \<open>The backend\<close>

text \<open>\<open>sysproxy.Backend\<close> over the operating system \<open>'q\<close>.\<close>

record 'q proxy_backend =
  pb_Get :: "'q \<Rightarrow> (go_error + proxy_state) \<times> 'q"
  pb_Enable :: "string \<Rightarrow> int \<Rightarrow> 'q \<Rightarrow> go_error option \<times> 'q"
  pb_Disable :: "'q \<Rightarrow> go_error option \<times> 'q"

datatype proxy_call = CallGet "go_error + proxy_state" | CallEnable string int | CallDisable

record 'q proxy_os =
  po_os :: 'q
  po_calls :: "proxy_call list"

type_synonym 'q proxy_manager = "'q proxy_os manager"

definition os_call :: "proxy_call \<Rightarrow> 'q \<Rightarrow> 'q proxy_manager \<Rightarrow> 'q proxy_manager" where
  "os_call c q m = m\<lparr>mg_os := \<lparr>po_os = q, po_calls = po_calls (mg_os m) @ [c]\<rparr>\<rparr>"

definition proxy_Get :: "'q proxy_backend \<Rightarrow> (proxy_state, 'q proxy_manager) io" where
  "proxy_Get bk m = (case pb_Get bk (po_os (mg_os m)) of (r, q) \<Rightarrow> (r, os_call (CallGet r) q m))"

definition proxy_Enable :: "'q proxy_backend \<Rightarrow> string \<Rightarrow> int \<Rightarrow> (unit, 'q proxy_manager) io" where
  "proxy_Enable bk host port m =
     (case pb_Enable bk host port (po_os (mg_os m)) of
        (Some e, q) \<Rightarrow> (Inl e, os_call (CallEnable host port) q m)
      | (None, q) \<Rightarrow> (Inr (), os_call (CallEnable host port) q m))"

definition proxy_Disable :: "'q proxy_backend \<Rightarrow> (unit, 'q proxy_manager) io" where
  "proxy_Disable bk m =
     (case pb_Disable bk (po_os (mg_os m)) of
        (Some e, q) \<Rightarrow> (Inl e, os_call CallDisable q m)
      | (None, q) \<Rightarrow> (Inr (), os_call CallDisable q m))"

definition upstream :: "string \<Rightarrow> go_error \<Rightarrow> go_error" where
  "upstream message e = Failure (api CodeUpstreamFailure message) (Some e)"

section \<open>The manager's operations\<close>

text \<open>\<open>resolveSystemProxyTarget\<close>; \<open>parse\<close> is \<open>netip.ParseAddrPort\<close>, giving the printed address and the port.\<close>

type_synonym addr_port = "string \<Rightarrow> go_error + string \<times> 16 word"

definition resolveSystemProxyTarget :: "addr_port \<Rightarrow> string \<Rightarrow> go_error + string \<times> string \<times> int" where
  "resolveSystemProxyTarget parse mixedAddr =
     (case parse mixedAddr of
        Inl e \<Rightarrow> Inl (Failure (api CodeInvalidArgument ''invalid mixed-addr for system proxy'') (Some e))
      | Inr (host, port) \<Rightarrow> Inr (NormalizeServer host (unat port), host, uint port))"

record proxy_status =
  ps_Revision :: u64
  ps_Desired :: bool
  ps_Target :: string
  ps_Enabled :: bool
  ps_Server :: string
  ps_Owned :: bool
  ps_Foreign :: bool

definition buildSystemProxyStatus :: "bool \<Rightarrow> string \<Rightarrow> proxy_state \<Rightarrow> 'q proxy_manager \<Rightarrow> proxy_status" where
  "buildSystemProxyStatus desired target observed m =
     \<lparr>ps_Revision = Revision (mg_snapshot m), ps_Desired = desired, ps_Target = target,
      ps_Enabled = px_Enabled observed, ps_Server = px_Server observed,
      ps_Owned = IsOwned observed target, ps_Foreign = IsForeign observed target\<rparr>"

text \<open>\<open>restoreSystemProxy\<close>: a disabled proxy cannot be put back with certainty.\<close>

definition restoreSystemProxy :: "'q proxy_backend \<Rightarrow> proxy_state \<Rightarrow> (unit, 'q proxy_manager) io" where
  "restoreSystemProxy bk observed =
     (if \<not> px_Enabled observed then throw (Opaque ''restore disabled system proxy state cannot be proven'')
      else case SplitHostPort (px_Server observed) of
        None \<Rightarrow> throw (Opaque ''restore system proxy state'')
      | Some (host, portText) \<Rightarrow>
          if host = [] \<or> portText = [] then throw (Opaque ''restore system proxy state'')
          else (case parse_int64 portText of
             None \<Rightarrow> throw (Opaque ''restore system proxy state'')
           | Some port \<Rightarrow>
               if port < 1 \<or> port > 65535 then throw (Opaque ''restore system proxy state'')
               else proxy_Enable bk host port))"

definition compensateSystemProxy ::
  "manager_env \<Rightarrow> 'q proxy_backend \<Rightarrow> command_meta \<Rightarrow> settings_candidate \<Rightarrow> proxy_state \<Rightarrow> go_error \<Rightarrow> bool
   \<Rightarrow> ('a, 'q proxy_manager) io" where
  "compensateSystemProxy env bk meta cand observed cause restoreLive m =
     (case restoreSettings env (sc_before cand) m of
        ((_, rollbackErr), m1) \<Rightarrow>
          (case (if restoreLive then restoreSystemProxy bk observed m1 else (Inr (), m1)) of
             (live, m2) \<Rightarrow>
               (let liveRestoreErr = (case live of Inl e \<Rightarrow> Some e | Inr _ \<Rightarrow> None) in
                if rollbackErr = None \<and> liveRestoreErr = None then (Inl cause, m2)
                else enter_degraded meta [Some cause, rollbackErr, liveRestoreErr] m2)))"

text \<open>An action whose failure is compensated.\<close>

definition compensated ::
  "manager_env \<Rightarrow> 'q proxy_backend \<Rightarrow> command_meta \<Rightarrow> settings_candidate \<Rightarrow> proxy_state \<Rightarrow> bool
   \<Rightarrow> ('a, 'q proxy_manager) io \<Rightarrow> ('a, 'q proxy_manager) io" where
  "compensated env bk meta cand observed restoreLive act m =
     (case act m of
        (Inr x, m1) \<Rightarrow> (Inr x, m1)
      | (Inl e, m1) \<Rightarrow> compensateSystemProxy env bk meta cand observed e restoreLive m1)"

text \<open>The refusals of \<open>mutateSystemProxy\<close>.\<close>

definition proxy_refusal :: "bool \<Rightarrow> bool \<Rightarrow> proxy_state \<Rightarrow> string \<Rightarrow> go_error option" where
  "proxy_refusal enable force observed target =
     (let details = [(''current_server'', DStr (px_Server observed)), (''target_server'', DStr target)] in
      if enable \<and> IsForeign observed target \<and> \<not> force
      then Some (Api \<lparr>err_code = CodeSystemProxyConflict, err_message = ''system proxy is managed by another application'', err_details = details\<rparr>)
      else if \<not> enable \<and> IsForeign observed target
      then Some (Api \<lparr>err_code = CodeSystemProxyNotOwned,
        err_message = ''system proxy is managed by another application; Mihari will not clear it'', err_details = details\<rparr>)
      else None)"

text \<open>Changing the live proxy, and looking at it again.\<close>

definition apply_proxy :: "'q proxy_backend \<Rightarrow> bool \<Rightarrow> proxy_state \<Rightarrow> string \<Rightarrow> string \<Rightarrow> int \<Rightarrow> (unit, 'q proxy_manager) io" where
  "apply_proxy bk enable observed target host port =
     (if enable then mapE (upstream ''enable system proxy'') (proxy_Enable bk host port)
      else if IsOwned observed target then mapE (upstream ''disable system proxy'') (proxy_Disable bk)
      else ret ())"

definition confirm_proxy :: "'q proxy_backend \<Rightarrow> bool \<Rightarrow> string \<Rightarrow> (proxy_state, 'q proxy_manager) io" where
  "confirm_proxy bk enable target =
     bindE (mapE (upstream ''read system proxy state'') (proxy_Get bk)) (\<lambda>confirmed.
     if enable \<and> \<not> IsOwned confirmed target then throw (Api (api CodeUpstreamFailure ''enable system proxy''))
     else if \<not> enable \<and> px_Enabled confirmed then throw (Api (api CodeUpstreamFailure ''disable system proxy''))
     else ret confirmed)"

definition change_proxy ::
  "manager_env \<Rightarrow> 'q proxy_backend \<Rightarrow> op_ctx \<Rightarrow> command_meta \<Rightarrow> bool \<Rightarrow> proxy_state \<Rightarrow> string \<Rightarrow> string \<Rightarrow> int
   \<Rightarrow> (proxy_status, 'q proxy_manager) io" where
  "change_proxy env bk c meta enable observed target host port =
     bindE (ctxErr c) (\<lambda>_.
     bindE (updateSettings env (\<lambda>s. Inr (s\<lparr>SystemProxyDesired := enable\<rparr>))) (\<lambda>cand.
     bindE (compensated env bk meta cand observed False (ctxErr c)) (\<lambda>_.
     bindE (compensated env bk meta cand observed True (apply_proxy bk enable observed target host port)) (\<lambda>_.
     bindE (compensated env bk meta cand observed True (ctxErr c)) (\<lambda>_.
     bindE (compensated env bk meta cand observed True (confirm_proxy bk enable target)) (\<lambda>confirmed.
     bindE (updateStateLocked meta (\<lambda>s. (s, None))) (\<lambda>_. \<lambda>m.
     (Inr (buildSystemProxyStatus enable target confirmed m), m))))))))"

definition mutateSystemProxy ::
  "manager_env \<Rightarrow> addr_port \<Rightarrow> 'q proxy_backend option \<Rightarrow> op_ctx \<Rightarrow> command_meta \<Rightarrow> bool \<Rightarrow> bool \<Rightarrow> (proxy_status, 'q proxy_manager) io" where
  "mutateSystemProxy env parse backend c meta enable force =
     (case backend of
        None \<Rightarrow> throw (invalid_state ''system proxy backend is unavailable'')
      | Some bk \<Rightarrow>
        bindE (lockMutation c) (\<lambda>_.
        bindE (ctxErr c) (\<lambda>_.
        bindE (checkIfRevision (IfRevision meta)) (\<lambda>_. \<lambda>m.
        (case resolveSystemProxyTarget parse (MixedAddr (settingsSnapshot m)) of
           Inl e \<Rightarrow> (Inl e, m)
         | Inr (target, host, port) \<Rightarrow>
           bindE (mapE (upstream ''read system proxy state'') (proxy_Get bk)) (\<lambda>observed.
           case proxy_refusal enable force observed target of
             Some e \<Rightarrow> throw e
           | None \<Rightarrow> change_proxy env bk c meta enable observed target host port) m)))))"

text \<open>Start-up and shutdown, and the status.\<close>

definition proxy_failed :: "string \<Rightarrow> go_error \<Rightarrow> go_error" where
  "proxy_failed what e = Errorf (what @ '' system proxy: '') e"

definition disable_owned :: "string \<Rightarrow> 'q proxy_backend \<Rightarrow> string \<Rightarrow> (bool, 'q proxy_manager) io" where
  "disable_owned what bk target =
     bindE (mapE (proxy_failed what) (proxy_Get bk)) (\<lambda>observed.
     if \<not> IsOwned observed target then ret False
     else bindE (mapE (proxy_failed what) (proxy_Disable bk)) (\<lambda>_. ret True))"

definition ApplyDesiredSystemProxy ::
  "addr_port \<Rightarrow> 'q proxy_backend option \<Rightarrow> op_ctx \<Rightarrow> (unit, 'q proxy_manager) io" where
  "ApplyDesiredSystemProxy parse backend c =
     (case backend of
        None \<Rightarrow> ret ()
      | Some bk \<Rightarrow>
        bindE (lockMaintenance c) (\<lambda>_.
        bindE (ctxErr c) (\<lambda>_. \<lambda>m.
        (case resolveSystemProxyTarget parse (MixedAddr (settingsSnapshot m)) of
           Inl e \<Rightarrow> (Inl e, m)
         | Inr (target, host, port) \<Rightarrow>
             if SystemProxyDesired (settingsSnapshot m)
             then mapE (proxy_failed ''apply desired'') (proxy_Enable bk host port) m
             else bindE (disable_owned ''apply desired'' bk target) (\<lambda>_. ret ()) m))))"

definition ClearOwnedSystemProxy ::
  "addr_port \<Rightarrow> 'q proxy_backend option \<Rightarrow> op_ctx \<Rightarrow> (unit, 'q proxy_manager) io" where
  "ClearOwnedSystemProxy parse backend c =
     (case backend of
        None \<Rightarrow> ret ()
      | Some bk \<Rightarrow> (\<lambda>m.
        (case resolveSystemProxyTarget parse (MixedAddr (settingsSnapshot m)) of
           Inl e \<Rightarrow> (Inl e, m)
         | Inr (target, host, port) \<Rightarrow>
             bindE (disable_owned ''clear owned'' bk target) (\<lambda>disabled. if disabled then ctxErr c else ret ()) m)))"

definition SystemProxyStatus ::
  "addr_port \<Rightarrow> 'q proxy_backend option \<Rightarrow> op_ctx \<Rightarrow> (proxy_status, 'q proxy_manager) io" where
  "SystemProxyStatus parse backend c =
     bindE (lockMaintenance c) (\<lambda>_.
     (case backend of
        None \<Rightarrow> throw (invalid_state ''system proxy backend is unavailable'')
      | Some bk \<Rightarrow>
        bindE (ctxErr c) (\<lambda>_. \<lambda>m.
        (case resolveSystemProxyTarget parse (MixedAddr (settingsSnapshot m)) of
           Inl e \<Rightarrow> (Inl e, m)
         | Inr (target, _, _) \<Rightarrow>
             bindE (mapE (upstream ''read system proxy state'') (proxy_Get bk)) (\<lambda>observed. \<lambda>m1.
             (Inr (buildSystemProxyStatus (SystemProxyDesired (settingsSnapshot m)) target observed m1), m1)) m))))"

section \<open>Host and port round trip\<close>

lemma after_last_colon_append: "CHR '':'' \<notin> set p \<Longrightarrow> after_last_colon (h @ CHR '':'' # p) = p"
  unfolding after_last_colon_def by (simp, subst takeWhile_append2) (auto intro: takeWhile_eq_all_conv [THEN iffD2])

lemma digits_no_colon: "CHR '':'' \<notin> set (nat_digits n)" "CHR ''['' \<notin> set (nat_digits n)" "CHR '']'' \<notin> set (nat_digits n)"
  using nat_digits_digits [of _ n] by fastforce+

lemma split_join_plain:
  assumes "CHR '':'' \<notin> set h" "CHR ''['' \<notin> set h" "CHR '']'' \<notin> set h"
  shows "SplitHostPort (NormalizeServer h n) = Some (h, nat_digits n)"
proof -
  have "(h @ CHR '':'' # nat_digits n) ! 0 \<noteq> CHR ''[''" using assms(2) by (cases h) auto
  then show ?thesis using assms digits_no_colon [of n]
    by (simp add: SplitHostPort_def NormalizeServer_def after_last_colon_append Let_def)
qed

lemma split_join_bracket:
  assumes "CHR '':'' \<in> set h" "CHR ''['' \<notin> set h" "CHR '']'' \<notin> set h"
  shows "SplitHostPort (NormalizeServer h n) = Some (h, nat_digits n)"
proof -
  have t: "takeWhile (\<lambda>c. c \<noteq> CHR '']'') (h @ CHR '']'' # CHR '':'' # nat_digits n) = h"
    using assms(3) by (subst takeWhile_append2) auto
  have a: "after_last_colon (CHR ''['' # h @ CHR '']'' # CHR '':'' # nat_digits n) = nat_digits n"
    using after_last_colon_append [OF digits_no_colon(1), of "CHR ''['' # h @ [CHR '']'']" n] by simp
  show ?thesis using assms digits_no_colon [of n] by (simp add: SplitHostPort_def NormalizeServer_def t a Let_def)
qed

lemma host_port_split_join:
  "CHR ''['' \<notin> set h \<Longrightarrow> CHR '']'' \<notin> set h \<Longrightarrow> SplitHostPort (NormalizeServer h n) = Some (h, nat_digits n)"
  using split_join_plain split_join_bracket by blast

lemma decimal_digits:
  "\<forall>c \<in> set s. byte_in c 48 57 \<Longrightarrow> decimal acc s = Some (foldl (\<lambda>n c. 10 * n + (of_char c - 48)) acc s)"
  by (induction s arbitrary: acc) auto

lemma nat_digits_nonempty [simp]: "nat_digits n \<noteq> []"
  by (subst nat_digits.simps) simp

lemma parse_nat_digits: "n < 2 ^ 63 \<Longrightarrow> parse_int64 (nat_digits n) = Some (int n)"
proof -
  assume n: "n < 2 ^ 63"
  have "hd (nat_digits n) \<in> set (nat_digits n)" by simp
  then have "byte_in (hd (nat_digits n)) 48 57" by (rule nat_digits_digits)
  then have "hd (nat_digits n) \<noteq> CHR ''-'' \<and> hd (nat_digits n) \<noteq> CHR ''+''" by auto
  then have "\<not> has_prefix (nat_digits n) ''-'' \<and> \<not> has_prefix (nat_digits n) ''+''"
    by (cases "nat_digits n") (auto simp: has_prefix_def)
  moreover have "decimal 0 (nat_digits n) = Some n"
    using decimal_digits [of "nat_digits n" 0] nat_digits_digits digits_value_nat_digits [of n] by (simp add: digits_value_def)
  moreover have "int n < 2 ^ 63" using n by (metis of_nat_less_iff of_nat_numeral of_nat_power)
  ultimately show ?thesis by (simp add: parse_int64_def Let_def)
qed

section \<open>What the operating system is asked to do\<close>

text \<open>Reading the calls in order: the proxy is disabled only right after it was seen to be owned.\<close>

fun proxy_seen :: "proxy_state option \<Rightarrow> proxy_call list \<Rightarrow> proxy_state option" where
  "proxy_seen p [] = p"
| "proxy_seen p (CallGet (Inr s) # cs) = proxy_seen (Some s) cs"
| "proxy_seen p (_ # cs) = proxy_seen None cs"

fun only_owned :: "string \<Rightarrow> proxy_state option \<Rightarrow> proxy_call list \<Rightarrow> bool" where
  "only_owned target p [] = True"
| "only_owned target p (CallGet (Inr s) # cs) = only_owned target (Some s) cs"
| "only_owned target p (CallDisable # cs) =
     ((case p of None \<Rightarrow> False | Some s \<Rightarrow> IsOwned s target) \<and> only_owned target None cs)"
| "only_owned target p (_ # cs) = only_owned target None cs"

lemma only_owned_append:
  "only_owned t p (xs @ ys) \<longleftrightarrow> only_owned t p xs \<and> only_owned t (proxy_seen p xs) ys"
  by (induction t p xs rule: only_owned.induct) auto

lemma proxy_seen_append: "proxy_seen p (xs @ ys) = proxy_seen (proxy_seen p xs) ys"
  by (induction p xs rule: proxy_seen.induct) auto

definition logged :: "proxy_call list \<Rightarrow> string \<Rightarrow> bool \<Rightarrow> 'q proxy_manager \<Rightarrow> bool" where
  "logged base t q m \<longleftrightarrow> (\<exists>cs. po_calls (mg_os m) = base @ cs \<and> only_owned t None cs \<and>
     (q \<longrightarrow> (case proxy_seen None cs of None \<Rightarrow> False | Some s \<Rightarrow> IsOwned s t)))"

lemma logged_weaken: "logged base t q m \<Longrightarrow> logged base t False m"
  by (auto simp: logged_def)

lemma logged_call:
  "logged base t q m \<Longrightarrow> logged base t (IsOwned s t) (os_call (CallGet (Inr s)) x m)"
  "logged base t q m \<Longrightarrow> logged base t False (os_call (CallGet (Inl e)) x m)"
  "logged base t q m \<Longrightarrow> logged base t False (os_call (CallEnable h p) x m)"
  "logged base t True m \<Longrightarrow> logged base t False (os_call CallDisable x m)"
  unfolding logged_def os_call_def by (fastforce simp: only_owned_append proxy_seen_append)+

lemma logged_cong: "po_calls (mg_os m') = po_calls (mg_os m) \<Longrightarrow> logged base t q m' = logged base t q m"
  by (simp add: logged_def)

text \<open>Operations that do not call the backend.\<close>

lemma logged_quiet:
  assumes "\<And>m r m'. act m = (r, m') \<Longrightarrow> mg_os m' = mg_os m"
  shows "triple (logged base t q) act (\<lambda>_. logged base t q) (logged base t False)"
  by (rule tripleI) (metis assms logged_cong, metis assms logged_cong logged_weaken)

lemma quiet_ctx: "ctxErr c m = (r, m') \<Longrightarrow> mg_os m' = mg_os m"
  using ctxErr_only settings_only_keeps(5) by blast

lemma quiet_update: "updateSettings env f m = (r, m') \<Longrightarrow> mg_os m' = mg_os m"
  by (auto simp: updateSettings_def prepareSettings_def saveSettingsCandidate_def publishSettings_def guardE_eq Let_def
      elim!: bindE_cases split: if_splits prod.splits sum.splits option.splits)

lemma quiet_restore: "restoreSettings env s m = (r, m') \<Longrightarrow> mg_os m' = mg_os m"
  by (auto simp: restoreSettings_def saveSettingsCandidate_def publishSettings_def Let_def
      split: if_splits prod.splits sum.splits option.splits)

lemma quiet_state: "updateStateLocked meta f m = (r, m') \<Longrightarrow> mg_os m' = mg_os m"
  by (auto simp: updateStateLocked_def split: prod.splits option.splits)

lemma quiet_degraded: "enter_degraded meta es m = (r, m') \<Longrightarrow> mg_os m' = mg_os m"
  by (auto simp: enter_degraded_def dest: quiet_state split: prod.splits sum.splits if_splits)

lemma ctx_logged: "triple (logged base t q) (ctxErr c) (\<lambda>_. logged base t q) (logged base t False)"
  by (rule logged_quiet) (rule quiet_ctx)

lemma update_logged: "triple (logged base t q) (updateSettings env f) (\<lambda>_. logged base t q) (logged base t False)"
  by (rule logged_quiet) (rule quiet_update)

lemma state_logged: "triple (logged base t q) (updateStateLocked meta f) (\<lambda>_. logged base t q) (logged base t False)"
  by (rule logged_quiet) (rule quiet_state)

lemma get_logged: "triple (logged base t q) (proxy_Get bk) (\<lambda>s. logged base t (IsOwned s t)) (logged base t False)"
  by (rule tripleI) (auto simp: proxy_Get_def logged_call split: prod.splits)

lemma enable_logged: "triple (logged base t q) (proxy_Enable bk h p) (\<lambda>_. logged base t False) (logged base t False)"
  by (rule tripleI) (auto simp: proxy_Enable_def logged_call split: prod.splits option.splits)

lemma disable_logged: "triple (logged base t True) (proxy_Disable bk) (\<lambda>_. logged base t False) (logged base t False)"
  by (rule tripleI) (auto simp: proxy_Disable_def logged_call split: prod.splits option.splits)

lemma restore_logged: "triple (logged base t q) (restoreSystemProxy bk s) (\<lambda>_. logged base t False) (logged base t False)"
  unfolding restoreSystemProxy_def
  by (auto intro!: triple_throw enable_logged dest: logged_weaken split: option.splits)

lemma degraded_fails: "enter_degraded meta es m \<noteq> (Inr x, m')"
  by (auto simp: enter_degraded_def split: prod.splits sum.splits)

lemma compensate_fails: "compensateSystemProxy env bk meta cand s e live m \<noteq> (Inr x, m')"
  by (simp add: compensateSystemProxy_def Let_def degraded_fails split: prod.splits)

lemma compensate_logged:
  "triple (logged base t q) (compensateSystemProxy env bk meta cand s e live) (\<lambda>_. logged base t False) (logged base t False)"
proof -
  have "logged base t False m'" if l: "logged base t q m" and c: "compensateSystemProxy env bk meta cand s e live m = (r, m')" for m r m'
  proof -
    obtain res rb m1 where r1: "restoreSettings env (sc_before cand) m = ((res, rb), m1)" by (metis surj_pair)
    obtain lv m2 where r2: "(if live then restoreSystemProxy bk s m1 else (Inr (), m1)) = (lv, m2)" by fastforce
    have m1: "logged base t q m1" using l logged_cong [of m1 m base t q] quiet_restore [OF r1] by simp
    have m2: "logged base t False m2"
      using r2 tripleD [OF restore_logged m1] logged_weaken [OF m1] by (cases lv; cases live) auto
    have "mg_os m' = mg_os m2" using c r1 r2 quiet_degraded [of meta] by (auto simp: compensateSystemProxy_def Let_def split: if_splits)
    then show ?thesis using m2 logged_cong [of m' m2 base t False] by simp
  qed
  then show ?thesis by (auto intro!: tripleI)
qed

lemma compensated_logged:
  assumes "triple (logged base t q) act (\<lambda>_. logged base t q2) (logged base t False)"
  shows "triple (logged base t q) (compensated env bk meta cand s live act) (\<lambda>_. logged base t q2) (logged base t False)"
proof -
  have "(\<forall>x. r = Inr x \<longrightarrow> logged base t q2 m') \<and> (\<forall>e. r = Inl e \<longrightarrow> logged base t False m')"
    if l: "logged base t q m" and c: "compensated env bk meta cand s live act m = (r, m')" for m r m'
  proof (cases "act m")
    case (Pair a m1)
    show ?thesis
    proof (cases a)
      case (Inr x)
      then show ?thesis using c Pair tripleD(1) [OF assms l] by (auto simp: compensated_def)
    next
      case (Inl e)
      then have "compensateSystemProxy env bk meta cand s e live m1 = (r, m')" using c Pair by (simp add: compensated_def)
      moreover have "logged base t False m1" using tripleD(2) [OF assms l] Pair Inl by blast
      moreover have "compensateSystemProxy env bk meta cand s e live m1 \<noteq> (Inr x, m')" for x
        by (rule compensate_fails)
      ultimately show ?thesis using tripleD(2) [OF compensate_logged] by (metis)
    qed
  qed
  then show ?thesis by (auto intro!: tripleI)
qed

lemma apply_logged:
  assumes "q = IsOwned seen t"
  shows "triple (logged base t q) (apply_proxy bk enable seen t h p) (\<lambda>_. logged base t False) (logged base t False)"
  unfolding apply_proxy_def using assms
  by (auto intro!: triple_mapE triple_ret enable_logged disable_logged triple_pre [OF enable_logged] dest: logged_weaken)

lemma confirm_logged: "triple (logged base t q) (confirm_proxy bk enable t) (\<lambda>_. logged base t False) (logged base t False)"
  unfolding confirm_proxy_def
  by (rule triple_bind [OF triple_mapE [OF get_logged]]) (auto intro!: triple_throw triple_ret dest: logged_weaken)

lemma change_logged:
  "triple (logged base t (IsOwned seen t)) (change_proxy env bk c meta enable seen t h p) (\<lambda>_. logged base t False) (logged base t False)"
  unfolding change_proxy_def
  by (intro triple_bind [OF ctx_logged] triple_bind [OF update_logged]
      triple_bind [OF compensated_logged [OF ctx_logged]] triple_bind [OF compensated_logged [OF apply_logged [OF refl]]]
      triple_bind [OF compensated_logged [OF confirm_logged]] triple_bind [OF state_logged])
    (auto intro!: tripleI)

text \<open>The settings are read under the lock, so the target is the one of the settings before the call.\<close>

lemma reads_settings:
  assumes "\<And>m r m'. act m = (r, m') \<Longrightarrow> mg_settings m' = mg_settings m \<and> mg_os m' = mg_os m"
  shows "triple (\<lambda>m. mg_settings m = s \<and> logged base t q m) act (\<lambda>_ m. mg_settings m = s \<and> logged base t q m) (logged base t False)"
  by (rule tripleI) (metis assms logged_cong, metis assms logged_cong logged_weaken)

lemma lock_reads: "lockMutation c m = (r, m') \<Longrightarrow> mg_settings m' = mg_settings m \<and> mg_os m' = mg_os m"
  "lockMaintenance c m = (r, m') \<Longrightarrow> mg_settings m' = mg_settings m \<and> mg_os m' = mg_os m"
  "ctxErr c m = (r, m') \<Longrightarrow> mg_settings m' = mg_settings m \<and> mg_os m' = mg_os m"
  "checkIfRevision v m = (r, m') \<Longrightarrow> mg_settings m' = mg_settings m \<and> mg_os m' = mg_os m"
proof -
  have c: "mg_settings m' = mg_settings m \<and> mg_os m' = mg_os m" if "ctxErr c m = (r, m')" for m r m'
    using ctxErr_only [OF that] settings_only_keeps(5) by blast
  show "ctxErr c m = (r, m') \<Longrightarrow> mg_settings m' = mg_settings m \<and> mg_os m' = mg_os m" by (rule c)
  show "lockMutation c m = (r, m') \<Longrightarrow> mg_settings m' = mg_settings m \<and> mg_os m' = mg_os m"
    using lock_only settings_only_keeps(5) by blast
  show "lockMaintenance c m = (r, m') \<Longrightarrow> mg_settings m' = mg_settings m \<and> mg_os m' = mg_os m"
    unfolding lockMaintenance_def by (erule bindE_cases) (use c in \<open>auto simp: guardE_eq\<close>)
  show "checkIfRevision v m = (r, m') \<Longrightarrow> mg_settings m' = mg_settings m \<and> mg_os m' = mg_os m"
    by (auto simp: checkIfRevision_def guardE_eq split: option.splits)
qed

abbreviation fresh_log :: "settings \<Rightarrow> proxy_call list \<Rightarrow> string \<Rightarrow> 'q proxy_manager \<Rightarrow> bool" where
  "fresh_log s base t m \<equiv> mg_settings m = s \<and> logged base t False m"

lemma mutate_logged:
  assumes "resolveSystemProxyTarget parse (MixedAddr s) = Inr (t, h, p)"
  shows "triple (fresh_log s base t) (mutateSystemProxy env parse (Some bk) c meta enable force) (\<lambda>_. logged base t False) (logged base t False)"
proof -
  let ?tail = "\<lambda>m. (case resolveSystemProxyTarget parse (MixedAddr (settingsSnapshot m)) of
           Inl e \<Rightarrow> (Inl e, m)
         | Inr (target, host, port) \<Rightarrow>
           bindE (mapE (upstream ''read system proxy state'') (proxy_Get bk)) (\<lambda>observed.
           case proxy_refusal enable force observed target of
             Some e \<Rightarrow> throw e
           | None \<Rightarrow> change_proxy env bk c meta enable observed target host port) m)"
  have body: "triple (fresh_log s base t) (bindE (mapE (upstream ''read system proxy state'') (proxy_Get bk)) (\<lambda>observed.
           case proxy_refusal enable force observed t of
             Some e \<Rightarrow> throw e
           | None \<Rightarrow> change_proxy env bk c meta enable observed t h p)) (\<lambda>_. logged base t False) (logged base t False)"
    by (rule triple_bind [OF triple_mapE [OF triple_pre [OF get_logged]]])
      (auto intro!: triple_throw change_logged dest: logged_weaken split: option.splits)
  have tail: "triple (fresh_log s base t) ?tail (\<lambda>_. logged base t False) (logged base t False)"
    using body assms unfolding triple_def by (auto simp: settingsSnapshot_def)
  show ?thesis unfolding mutateSystemProxy_def option.case
    by (intro triple_bind [OF reads_settings [OF lock_reads(1)]] triple_bind [OF reads_settings [OF lock_reads(3)]]
        triple_bind [OF reads_settings [OF lock_reads(4)]] tail)
qed

lemma disable_owned_logged: "triple (logged base t q) (disable_owned what bk t) (\<lambda>_. logged base t False) (logged base t False)"
  unfolding disable_owned_def
proof (rule triple_bind [OF triple_mapE [OF get_logged]])
  fix seen
  show "triple (logged base t (IsOwned seen t))
     (if \<not> IsOwned seen t then ret False else bindE (mapE (proxy_failed what) (proxy_Disable bk)) (\<lambda>_. ret True))
     (\<lambda>_. logged base t False) (logged base t False)"
    by (auto intro!: triple_ret triple_bind [OF triple_mapE [OF disable_logged]])
qed

lemma startup_logged:
  fixes bk :: "'q proxy_backend"
  assumes "resolveSystemProxyTarget parse (MixedAddr s) = Inr (t, h, p)"
  shows "triple (fresh_log s base t) (ApplyDesiredSystemProxy parse (Some bk) c) (\<lambda>_. logged base t False) (logged base t False)"
    and "triple (fresh_log s base t) (ClearOwnedSystemProxy parse (Some bk) c) (\<lambda>_. logged base t False) (logged base t False)"
proof -
  have e: "triple (fresh_log s base t) (mapE f (proxy_Enable bk h p)) (\<lambda>_. logged base t False) (logged base t False)" for f
    by (rule triple_mapE [OF triple_pre [OF enable_logged [where q = False]]]) simp
  have d: "triple (fresh_log s base t) (bindE (disable_owned what bk t) g) (\<lambda>_. logged base t False) (logged base t False)"
    if "\<And>x. triple (logged base t False) (g x) (\<lambda>_. logged base t False) (logged base t False)" for what and g :: "bool \<Rightarrow> (unit, 'q proxy_manager) io"
    by (rule triple_bind [OF triple_pre [OF disable_owned_logged]]) (auto intro: that)
  have r: "triple (logged base t False) (ret ()) (\<lambda>_. logged base t False) (logged base t False)" by (rule triple_ret)
  have a: "triple (fresh_log s base t) (\<lambda>m. (case resolveSystemProxyTarget parse (MixedAddr (settingsSnapshot m)) of
           Inl e \<Rightarrow> (Inl e, m)
         | Inr (target, host, port) \<Rightarrow>
             if SystemProxyDesired (settingsSnapshot m)
             then mapE (proxy_failed ''apply desired'') (proxy_Enable bk host port) m
             else bindE (disable_owned ''apply desired'' bk target) (\<lambda>_. ret ()) m)) (\<lambda>_. logged base t False) (logged base t False)"
    using e [of "proxy_failed ''apply desired''"] d [OF r] assms unfolding triple_def by (auto simp: settingsSnapshot_def)
  show "triple (fresh_log s base t) (ApplyDesiredSystemProxy parse (Some bk) c) (\<lambda>_. logged base t False) (logged base t False)"
    unfolding ApplyDesiredSystemProxy_def option.case
    by (intro triple_bind [OF reads_settings [OF lock_reads(2)]] triple_bind [OF reads_settings [OF lock_reads(3)]] a)
  have g: "triple (logged base t False) (if x then ctxErr c else ret ()) (\<lambda>_. logged base t False) (logged base t False)" for x
    by (cases x) (auto intro: ctx_logged triple_ret)
  show "triple (fresh_log s base t) (ClearOwnedSystemProxy parse (Some bk) c) (\<lambda>_. logged base t False) (logged base t False)"
    using d [OF g] assms unfolding triple_def ClearOwnedSystemProxy_def by (auto simp: settingsSnapshot_def)
qed

section \<open>All or nothing\<close>

text \<open>While the operation runs, the settings are those given and the state snapshot is the one at the beginning; when
  it fails, the settings are back or the manager is degraded.\<close>

definition running_with :: "manager_env \<Rightarrow> value_snapshot \<Rightarrow> settings \<Rightarrow> 'q manager \<Rightarrow> bool" where
  "running_with env sn s m \<longleftrightarrow> file_agrees env m \<and> mg_snapshot m = sn \<and> mg_settings m = s \<and> \<not> mg_mutationDegraded m"

definition proxy_undone :: "manager_env \<Rightarrow> settings \<Rightarrow> 'q manager \<Rightarrow> bool" where
  "proxy_undone env s m \<longleftrightarrow> file_agrees env m \<and> (mg_settings m = s \<or> mg_mutationDegraded m)"

lemma running_undone: "running_with env sn s m \<Longrightarrow> proxy_undone env s m"
  by (simp add: running_with_def proxy_undone_def)

lemma running_stays: "settings_only m m' \<Longrightarrow> mg_settings m' = mg_settings m \<Longrightarrow> mg_fs m' = mg_fs m \<Longrightarrow>
    running_with env sn s m \<Longrightarrow> running_with env sn s m'"
  using settings_only_keeps(1,2) file_agrees_cong unfolding running_with_def by metis

lemma ctx_running: "triple (running_with env sn s) (ctxErr c) (\<lambda>_. running_with env sn s) (running_with env sn s)"
  by (rule tripleI) (blast dest: ctxErr_only intro: running_stays)+

lemma os_running: "running_with env sn s (os_call x q m) = running_with env sn s m"
  by (simp add: running_with_def os_call_def)

lemma backend_running:
  "triple (running_with env sn s) (proxy_Get bk) (\<lambda>_. running_with env sn s) (running_with env sn s)"
  "triple (running_with env sn s) (proxy_Enable bk h p) (\<lambda>_. running_with env sn s) (running_with env sn s)"
  "triple (running_with env sn s) (proxy_Disable bk) (\<lambda>_. running_with env sn s) (running_with env sn s)"
  by (rule tripleI; auto simp: proxy_Get_def proxy_Enable_def proxy_Disable_def os_running split: prod.splits option.splits)+

lemma update_running:
  "triple (running_with env sn s) (updateSettings env f)
    (\<lambda>cand m. running_with env sn (sc_after cand) m \<and> sc_before cand = s \<and> f s = Inr (sc_after cand)) (running_with env sn s)"
  by (rule tripleI; drule updateSettings_result) (auto simp: running_with_def settings_only_keeps)

lemma restore_running:
  "triple (running_with env sn s) (restoreSystemProxy bk seen) (\<lambda>_. running_with env sn s) (running_with env sn s)"
  unfolding restoreSystemProxy_def by (auto intro!: triple_throw backend_running split: option.splits)

lemma enter_degraded_result:
  assumes "running_with env sn s m" "IfRevision meta = None \<or> IfRevision meta = Some (Revision sn)"
    "enter_degraded meta es m = (r, m')"
  shows "proxy_undone env s0 m'"
  using assms
  by (auto simp: enter_degraded_def updateStateLocked_def running_with_def proxy_undone_def coordinator_Do_def
      apply_mutation_def Let_def split: option.splits)

lemma compensate_undone:
  assumes "sc_before cand = s0" "IfRevision meta = None \<or> IfRevision meta = Some (Revision sn)"
  shows "triple (running_with env sn s) (compensateSystemProxy env bk meta cand seen e live) Q (proxy_undone env s0)"
proof (rule tripleI)
  fix m e1 m'
  assume m: "running_with env sn s m" and c: "compensateSystemProxy env bk meta cand seen e live m = (Inl e1, m')"
  obtain res rb m1 where r1: "restoreSettings env (sc_before cand) m = ((res, rb), m1)" by (metis surj_pair)
  obtain lv m2 where r2: "(if live then restoreSystemProxy bk seen m1 else (Inr (), m1)) = (lv, m2)" by fastforce
  define s1 where "s1 = (if rb = None then s0 else s)"
  have m1: "running_with env sn s1 m1"
    using restoreSettings_result [OF r1] m assms(1) by (auto simp: running_with_def settings_only_keeps s1_def)
  have m2: "running_with env sn s1 m2"
    using r2 tripleD [OF restore_running m1] m1 by (cases lv; cases live) auto
  show "proxy_undone env s0 m'"
  proof (cases "rb = None \<and> (case lv of Inl e \<Rightarrow> Some e | Inr _ \<Rightarrow> None) = None")
    case True
    then have "m' = m2" using c r1 r2 by (simp add: compensateSystemProxy_def Let_def)
    then show ?thesis using m2 True by (simp add: s1_def running_undone)
  next
    case False
    note c [unfolded compensateSystemProxy_def r1 prod.case r2 Let_def if_not_P [OF False]]
    then show ?thesis by (rule enter_degraded_result [OF m2 assms(2)])
  qed
qed (simp add: compensate_fails)

lemma compensated_running:
  assumes "triple (running_with env sn s) act (\<lambda>x m. running_with env sn s m \<and> R x) (running_with env sn s)"
    "sc_before cand = s0" "IfRevision meta = None \<or> IfRevision meta = Some (Revision sn)"
  shows "triple (running_with env sn s) (compensated env bk meta cand seen live act) (\<lambda>x m. running_with env sn s m \<and> R x) (proxy_undone env s0)"
proof (rule tripleI)
  fix m x m'
  assume m: "running_with env sn s m" and c: "compensated env bk meta cand seen live act m = (Inr x, m')"
  then have "act m = (Inr x, m')" by (auto simp: compensated_def compensate_fails split: prod.splits sum.splits)
  then show "running_with env sn s m' \<and> R x" using tripleD(1) [OF assms(1) m] by blast
next
  fix m e m'
  assume m: "running_with env sn s m" and c: "compensated env bk meta cand seen live act m = (Inl e, m')"
  then obtain e1 m1 where "act m = (Inl e1, m1)" "compensateSystemProxy env bk meta cand seen e1 live m1 = (Inl e :: go_error + 'b, m')"
    by (auto simp: compensated_def split: prod.splits sum.splits)
  then show "proxy_undone env s0 m'"
    using tripleD(2) [OF compensate_undone [OF assms(2,3)]] tripleD(2) [OF assms(1) m] by blast
qed

lemma apply_running:
  "triple (running_with env sn s) (apply_proxy bk enable seen t h p) (\<lambda>_ m. running_with env sn s m \<and> True) (running_with env sn s)"
  unfolding apply_proxy_def by (auto intro!: triple_mapE triple_ret backend_running)

lemma confirm_running:
  "triple (running_with env sn s) (confirm_proxy bk enable t)
    (\<lambda>x m. running_with env sn s m \<and> (if enable then IsOwned x t else \<not> px_Enabled x)) (running_with env sn s)"
  unfolding confirm_proxy_def by (rule triple_bind [OF triple_mapE [OF backend_running(1)]]) (auto intro!: triple_throw triple_ret)

definition proxy_set :: "manager_env \<Rightarrow> value_snapshot \<Rightarrow> settings \<Rightarrow> bool \<Rightarrow> proxy_status \<Rightarrow> 'q manager \<Rightarrow> bool" where
  "proxy_set env sn s enable status m \<longleftrightarrow>
     file_agrees env m \<and> \<not> mg_mutationDegraded m \<and> mg_settings m = s\<lparr>SystemProxyDesired := enable\<rparr> \<and>
     Revision (mg_snapshot m) = Revision sn + 1 \<and> ps_Desired status = enable \<and>
     (if enable then ps_Owned status else \<not> ps_Enabled status)"

lemma finish_running:
  assumes "IfRevision meta = None \<or> IfRevision meta = Some (Revision sn)" "s' = s\<lparr>SystemProxyDesired := enable\<rparr>"
  shows "triple (\<lambda>m. running_with env sn s' m \<and> (if enable then IsOwned x t else \<not> px_Enabled x))
    (bindE (updateStateLocked meta (\<lambda>s. (s, None))) (\<lambda>_. \<lambda>m. (Inr (buildSystemProxyStatus enable t x m), m)))
    (proxy_set env sn s enable) (proxy_undone env s)"
  by (rule tripleI)
    (use assms in \<open>auto simp: bindE_def updateStateLocked_def running_with_def proxy_undone_def proxy_set_def coordinator_Do_def apply_mutation_def
      buildSystemProxyStatus_def Let_def split: option.splits if_splits\<close>)

lemma change_running:
  assumes "IfRevision meta = None \<or> IfRevision meta = Some (Revision sn)"
  shows "triple (running_with env sn s) (change_proxy env bk c meta enable seen t h p) (proxy_set env sn s enable) (proxy_undone env s)"
proof -
  have ctx: "triple (running_with env sn s') (ctxErr c) (\<lambda>_ m. running_with env sn s' m \<and> True) (running_with env sn s')" for s'
    using ctx_running by simp
  have tail: "triple (running_with env sn (sc_after cand))
      (bindE (compensated env bk meta cand seen False (ctxErr c)) (\<lambda>_.
       bindE (compensated env bk meta cand seen True (apply_proxy bk enable seen t h p)) (\<lambda>_.
       bindE (compensated env bk meta cand seen True (ctxErr c)) (\<lambda>_.
       bindE (compensated env bk meta cand seen True (confirm_proxy bk enable t)) (\<lambda>confirmed.
       bindE (updateStateLocked meta (\<lambda>s. (s, None))) (\<lambda>_. \<lambda>m.
       (Inr (buildSystemProxyStatus enable t confirmed m), m)))))))
      (proxy_set env sn s enable) (proxy_undone env s)"
    if "sc_before cand = s" "sc_after cand = s\<lparr>SystemProxyDesired := enable\<rparr>" for cand
    by (intro triple_bind [OF compensated_running [OF ctx that(1) assms]] triple_bind [OF compensated_running [OF apply_running that(1) assms]]
        triple_bind [OF triple_pre [OF compensated_running [OF ctx that(1) assms]]]
        triple_bind [OF triple_pre [OF compensated_running [OF apply_running that(1) assms]]]
        triple_bind [OF triple_pre [OF compensated_running [OF confirm_running that(1) assms]]])
      (rule finish_running [OF assms that(2)] | simp)+
  have up: "triple (running_with env sn s) (updateSettings env (\<lambda>s. Inr (s\<lparr>SystemProxyDesired := enable\<rparr>)))
      (\<lambda>cand m. running_with env sn (sc_after cand) m \<and> sc_before cand = s \<and> sc_after cand = s\<lparr>SystemProxyDesired := enable\<rparr>) (proxy_undone env s)"
    by (rule triple_post [OF update_running]) (auto simp: running_undone)
  have c0: "triple (running_with env sn s) (ctxErr c) (\<lambda>_. running_with env sn s) (proxy_undone env s)"
    by (rule triple_post [OF ctx_running]) (auto simp: running_undone)
  show ?thesis unfolding change_proxy_def
  proof (intro triple_bind [OF c0] triple_bind [OF up])
    fix cand
    show "triple (\<lambda>m. running_with env sn (sc_after cand) m \<and> sc_before cand = s \<and> sc_after cand = s\<lparr>SystemProxyDesired := enable\<rparr>)
      (bindE (compensated env bk meta cand seen False (ctxErr c)) (\<lambda>_.
       bindE (compensated env bk meta cand seen True (apply_proxy bk enable seen t h p)) (\<lambda>_.
       bindE (compensated env bk meta cand seen True (ctxErr c)) (\<lambda>_.
       bindE (compensated env bk meta cand seen True (confirm_proxy bk enable t)) (\<lambda>confirmed.
       bindE (updateStateLocked meta (\<lambda>s. (s, None))) (\<lambda>_. \<lambda>m.
       (Inr (buildSystemProxyStatus enable t confirmed m), m)))))))
      (proxy_set env sn s enable) (proxy_undone env s)"
      by (rule triple_pure) (rule tail; simp)
  qed
qed

lemma lock_running:
  assumes "file_agrees env m0"
  shows "triple (\<lambda>m. m = m0) (lockMutation c) (\<lambda>_. running_with env (mg_snapshot m0) (mg_settings m0)) (proxy_undone env (mg_settings m0))"
proof (rule tripleI)
  fix m r m' assume m: "m = m0" and l: "lockMutation c m = (Inr r, m')"
  then have so: "settings_only m0 m'" "mg_settings m' = mg_settings m0" "mg_fs m' = mg_fs m0" "\<not> mg_mutationDegraded m0"
    using lock_only [OF l] by auto
  show "running_with env (mg_snapshot m0) (mg_settings m0) m'"
    using assms so(4) settings_only_keeps(1,2) [OF so(1)] file_agrees_cong [OF so(2,3)] so(2) by (simp add: running_with_def)
next
  fix m e m' assume m: "m = m0" and l: "lockMutation c m = (Inl e, m')"
  then have so: "mg_settings m' = mg_settings m0" "mg_fs m' = mg_fs m0" using lock_only [OF l] by auto
  show "proxy_undone env (mg_settings m0) m'" using assms file_agrees_cong [OF so] so(1) by (simp add: proxy_undone_def)
qed

lemma revision_running:
  "triple (running_with env sn s) (checkIfRevision v) (\<lambda>_ m. running_with env sn s m \<and> (v = None \<or> v = Some (Revision sn))) (proxy_undone env s)"
  by (rule tripleI) (auto simp: checkIfRevision_def guardE_eq running_with_def proxy_undone_def split: option.splits if_splits)

lemma mutate_running:
  assumes "file_agrees env m0"
  shows "triple (\<lambda>m. m = m0) (mutateSystemProxy env parse backend c meta enable force)
    (proxy_set env (mg_snapshot m0) (mg_settings m0) enable) (proxy_undone env (mg_settings m0))"
proof (cases backend)
  case None
  then show ?thesis using assms by (auto simp: mutateSystemProxy_def proxy_undone_def intro!: triple_throw)
next
  case (Some bk)
  let ?sn = "mg_snapshot m0" and ?s = "mg_settings m0"
  have c0: "triple (running_with env ?sn ?s) (ctxErr c) (\<lambda>_. running_with env ?sn ?s) (proxy_undone env ?s)"
    by (rule triple_post [OF ctx_running]) (auto simp: running_undone)
  have get: "triple (running_with env ?sn ?s) (mapE f (proxy_Get bk)) (\<lambda>_. running_with env ?sn ?s) (proxy_undone env ?s)" for f
    by (rule triple_mapE [OF triple_post [OF backend_running(1)]]) (auto simp: running_undone)
  have body: "triple (running_with env ?sn ?s) (bindE (mapE (upstream ''read system proxy state'') (proxy_Get bk)) (\<lambda>observed.
      case proxy_refusal enable force observed t of Some e \<Rightarrow> throw e
      | None \<Rightarrow> change_proxy env bk c meta enable observed t h p)) (proxy_set env ?sn ?s enable) (proxy_undone env ?s)"
    if "IfRevision meta = None \<or> IfRevision meta = Some (Revision ?sn)" for t h p
    by (rule triple_bind [OF get]) (auto intro!: triple_throw change_running [OF that] simp: running_undone split: option.splits)
  have tail: "triple (running_with env ?sn ?s) (\<lambda>m. case resolveSystemProxyTarget parse (MixedAddr (settingsSnapshot m)) of
      Inl e \<Rightarrow> (Inl e, m)
    | Inr (target, host, port) \<Rightarrow>
      bindE (mapE (upstream ''read system proxy state'') (proxy_Get bk)) (\<lambda>observed.
      case proxy_refusal enable force observed target of Some e \<Rightarrow> throw e
      | None \<Rightarrow> change_proxy env bk c meta enable observed target host port) m) (proxy_set env ?sn ?s enable) (proxy_undone env ?s)"
    if r: "IfRevision meta = None \<or> IfRevision meta = Some (Revision ?sn)"
  proof (rule tripleI)
    show "proxy_set env ?sn ?s enable y m'"
      if "running_with env ?sn ?s m" "(case resolveSystemProxyTarget parse (MixedAddr (settingsSnapshot m)) of
      Inl e \<Rightarrow> (Inl e, m)
    | Inr (target, host, port) \<Rightarrow>
      bindE (mapE (upstream ''read system proxy state'') (proxy_Get bk)) (\<lambda>observed.
      case proxy_refusal enable force observed target of Some e \<Rightarrow> throw e
      | None \<Rightarrow> change_proxy env bk c meta enable observed target host port) m) = (Inr y, m')" for m y m'
      using that tripleD(1) [OF body [OF r] that(1)] by (auto split: sum.splits prod.splits)
    show "proxy_undone env ?s m'"
      if "running_with env ?sn ?s m" "(case resolveSystemProxyTarget parse (MixedAddr (settingsSnapshot m)) of
      Inl e \<Rightarrow> (Inl e, m)
    | Inr (target, host, port) \<Rightarrow>
      bindE (mapE (upstream ''read system proxy state'') (proxy_Get bk)) (\<lambda>observed.
      case proxy_refusal enable force observed target of Some e \<Rightarrow> throw e
      | None \<Rightarrow> change_proxy env bk c meta enable observed target host port) m) = (Inl y, m')" for m y m'
      using that tripleD(2) [OF body [OF r] that(1)] by (auto simp: running_undone split: sum.splits prod.splits)
  qed
  show ?thesis unfolding mutateSystemProxy_def Some option.case
    by (intro triple_bind [OF lock_running [OF assms]] triple_bind [OF c0] triple_bind [OF revision_running]) (rule triple_pure, rule tail)
qed

section \<open>A small system\<close>

definition demo_backend :: "proxy_state proxy_backend" where
  "demo_backend = \<lparr>pb_Get = (\<lambda>q. (Inr q, q)), pb_Enable = (\<lambda>h p q. (None, \<lparr>px_Enabled = True, px_Server = NormalizeServer h (nat p)\<rparr>)),
     pb_Disable = (\<lambda>q. (None, q\<lparr>px_Enabled := False\<rparr>))\<rparr>"

definition demo_manager :: "proxy_state \<Rightarrow> proxy_state proxy_manager" where
  "demo_manager q = \<lparr>mg_settings = demo_settings, mg_generation = 0, mg_snapshot = zero_snapshot, mg_mutationDegraded = False,
     mg_coreRecovery = False, mg_coreUpdate = None, mg_closing = False, mg_validationMode = False, mg_activationPhase = [],
     mg_warnings = [], mg_fs = (\<lambda>_. None), mg_faults = [], mg_ctx = [], mg_os = \<lparr>po_os = q, po_calls = []\<rparr>\<rparr>"

definition demo_menv :: manager_env where
  "demo_menv = \<lparr>me_path = None, me_parse = demo_addr, me_marshal = (\<lambda>_. Inr []), me_rnd = []\<rparr>"

definition demo_ctx :: op_ctx where
  "demo_ctx = \<lparr>cx_owner = None, cx_cancellable = True\<rparr>"

definition demo_op :: command_meta where
  "demo_op = \<lparr>meta_ID = ''1'', meta_Source = ''cli'', IfRevision = Some 0\<rparr>"

definition demo_mixed :: addr_port where
  "demo_mixed a = Inr (''127.0.0.1'', 7890)"

abbreviation proxy_off :: proxy_state where
  "proxy_off \<equiv> \<lparr>px_Enabled = False, px_Server = []\<rparr>"

abbreviation proxy_other :: proxy_state where
  "proxy_other \<equiv> \<lparr>px_Enabled = True, px_Server = ''10.0.0.1:8080''\<rparr>"

lemma demo_valid: "Validate demo_addr (demo_settings\<lparr>SystemProxyDesired := x\<rparr>) = None"
  by (simp add: Validate_def validateRouting_def parseEndpoint_def validateTail_def validateTun_def valid_secret_def hex_decode_encode
      EffectiveLogging_def DefaultLoggingSettings_def demo_addr_def demo_settings_def Settings.Defaults_def zero_settings_def)

lemmas demo_proxy_simps = demo_backend_def demo_manager_def demo_menv_def demo_ctx_def demo_op_def demo_mixed_def
  mutateSystemProxy_def change_proxy_def compensated_def confirm_proxy_def apply_proxy_def proxy_Get_def proxy_Enable_def proxy_Disable_def os_call_def
  updateSettings_def prepareSettings_def configInputs_def saveSettingsCandidate_def publishSettings_def settingsSnapshot_def
  updateStateLocked_def coordinator_Do_def apply_mutation_def proxy_refusal_def resolveSystemProxyTarget_def buildSystemProxyStatus_def
  lockMutation_def lockMaintenance_def checkCoreUpdateReservation_def checkIfRevision_def businessMutationAllowed_def
  ctxErr_def bindE_def guardE_def ret_def throw_def mapE_def IsOwned_def IsForeign_def zero_snapshot_def demo_valid

lemma demo_enables:
  "fst (mutateSystemProxy demo_menv demo_mixed (Some demo_backend) demo_ctx demo_op True False (demo_manager proxy_off)) =
   Inr \<lparr>ps_Revision = 1, ps_Desired = True, ps_Target = NormalizeServer ''127.0.0.1'' 7890, ps_Enabled = True,
     ps_Server = NormalizeServer ''127.0.0.1'' 7890, ps_Owned = True, ps_Foreign = False\<rparr>"
  by (simp add: demo_proxy_simps Let_def)

section \<open>Properties\<close>

text \<open>C35. Turning the system proxy on or off is all or nothing. On success the intent is saved and in memory, the state
  revision moved by one and the operating system confirmed the proxy as owned, or off; on every failure (cancelled context, failed
  write, failed or unconfirmed system call) the settings, in memory and on disk, are those of before, or the manager is degraded
  and refuses further mutations. In every case memory and file agree.\<close>

theorem proxy_all_or_nothing:
  assumes "file_agrees env m" "mutateSystemProxy env parse backend c meta enable force m = (r, m')"
  shows "case r of Inr status \<Rightarrow> proxy_set env (mg_snapshot m) (mg_settings m) enable status m' | Inl _ \<Rightarrow> proxy_undone env (mg_settings m) m'"
  using tripleD [OF mutate_running [OF assms(1)] refl, of _ _ _ _ _ _ _ m'] assms(2) by (cases r) auto

theorem proxy_all_or_nothing_witness:
  "proxy_set demo_menv zero_snapshot demo_settings True
     \<lparr>ps_Revision = 1, ps_Desired = True, ps_Target = NormalizeServer ''127.0.0.1'' 7890, ps_Enabled = True,
      ps_Server = NormalizeServer ''127.0.0.1'' 7890, ps_Owned = True, ps_Foreign = False\<rparr>
     (snd (mutateSystemProxy demo_menv demo_mixed (Some demo_backend) demo_ctx demo_op True False (demo_manager proxy_off)))"
proof -
  let ?x = "mutateSystemProxy demo_menv demo_mixed (Some demo_backend) demo_ctx demo_op True False (demo_manager proxy_off)"
  have "file_agrees demo_menv (demo_manager proxy_off)" by (simp add: file_agrees_def demo_menv_def)
  from proxy_all_or_nothing [OF this, of demo_mixed "Some demo_backend" demo_ctx demo_op True False "fst ?x" "snd ?x"] demo_enables
  show ?thesis by (simp add: demo_manager_def)
qed

text \<open>C36. Mihari never turns off a proxy it does not own: in every run of enabling, disabling, start-up and shutdown, the
  operating system is asked to disable the proxy only right after it was read and found to be Mihari's own.\<close>

theorem proxy_cleared_only_when_owned:
  assumes "resolveSystemProxyTarget parse (MixedAddr (mg_settings m)) = Inr (t, h, p)"
  shows "only_owned t None (drop (length (po_calls (mg_os m))) (po_calls (mg_os (snd (mutateSystemProxy env parse (Some bk) c meta enable force m))))) \<and>
    only_owned t None (drop (length (po_calls (mg_os m))) (po_calls (mg_os (snd (ApplyDesiredSystemProxy parse (Some bk) c m))))) \<and>
    only_owned t None (drop (length (po_calls (mg_os m))) (po_calls (mg_os (snd (ClearOwnedSystemProxy parse (Some bk) c m)))))"
proof -
  let ?b = "po_calls (mg_os m)"
  have f: "fresh_log (mg_settings m) ?b t m" by (auto simp: logged_def)
  have o: "only_owned t None (drop (length ?b) (po_calls (mg_os (snd (act m)))))"
    if "triple (fresh_log (mg_settings m) ?b t) act (\<lambda>_. logged ?b t False) (logged ?b t False)" for act :: "('c, 'a proxy_manager) io"
  proof (cases "act m")
    case (Pair r m')
    then have "logged ?b t False m'" using tripleD [OF that f] by (cases r) auto
    then show ?thesis using Pair by (auto simp: logged_def)
  qed
  show ?thesis using o [OF mutate_logged [OF assms]] startup_logged [OF assms, THEN o] by blast
qed

theorem proxy_cleared_only_when_owned_witness:
  "only_owned (NormalizeServer ''127.0.0.1'' 7890) None (po_calls (mg_os (snd
     (ClearOwnedSystemProxy demo_mixed (Some demo_backend) demo_ctx (demo_manager proxy_other)))))"
proof -
  have "resolveSystemProxyTarget demo_mixed (MixedAddr (mg_settings (demo_manager proxy_other))) =
      Inr (NormalizeServer ''127.0.0.1'' 7890, ''127.0.0.1'', 7890)"
    by (simp add: resolveSystemProxyTarget_def demo_mixed_def)
  from proxy_cleared_only_when_owned [OF this] show ?thesis by (simp add: demo_manager_def)
qed

text \<open>A proxy of another application is left alone: when the proxy is foreign, disabling it, and enabling Mihari's without force, is
  refused, the operating system is at most read, and settings, settings file and state are unchanged.\<close>

theorem foreign_proxy_untouched:
  assumes "resolveSystemProxyTarget parse (MixedAddr (mg_settings m)) = Inr (t, h, p)"
    and "fst (pb_Get bk (po_os (mg_os m))) = Inr seen" "IsForeign seen t" "\<not> (enable \<and> force)"
    and "mutateSystemProxy env parse (Some bk) c meta enable force m = (r, m')"
  shows "(\<exists>e. r = Inl e) \<and> mg_settings m' = mg_settings m \<and> mg_fs m' = mg_fs m \<and> mg_snapshot m' = mg_snapshot m \<and>
    po_calls (mg_os m') \<in> {po_calls (mg_os m), po_calls (mg_os m) @ [CallGet (Inr seen)]}"
proof -
  have stays: "settings_only m1 m2 \<Longrightarrow> mg_snapshot m2 = mg_snapshot m1 \<and> mg_os m2 = mg_os m1" for m1 m2 :: "'a proxy_manager"
    using settings_only_keeps(1,5) by blast
  have ref: "\<exists>e. proxy_refusal enable force seen t = Some e" using assms(3,4) by (auto simp: proxy_refusal_def Let_def)
  from assms(5) consider (early) e where "r = Inl e" "mg_settings m' = mg_settings m" "mg_fs m' = mg_fs m"
      "mg_snapshot m' = mg_snapshot m" "mg_os m' = mg_os m"
    | (late) m1 where "mg_settings m1 = mg_settings m" "mg_fs m1 = mg_fs m" "mg_snapshot m1 = mg_snapshot m" "mg_os m1 = mg_os m"
      "(case resolveSystemProxyTarget parse (MixedAddr (settingsSnapshot m1)) of
           Inl e \<Rightarrow> (Inl e, m1)
         | Inr (target, host, port) \<Rightarrow>
           bindE (mapE (upstream ''read system proxy state'') (proxy_Get bk)) (\<lambda>observed.
           case proxy_refusal enable force observed target of
             Some e \<Rightarrow> throw e
           | None \<Rightarrow> change_proxy env bk c meta enable observed target host port) m1) = (r, m')"
    unfolding mutateSystemProxy_def option.case
    by (auto elim!: bindE_cases dest!: lock_only ctxErr_only stays simp: checkIfRevision_def guardE_eq split: option.splits if_splits)
  then show ?thesis
  proof cases
    case early
    then show ?thesis by simp
  next
    case late
    obtain q where q: "pb_Get bk (po_os (mg_os m)) = (Inr seen, q)" using assms(2) by (cases "pb_Get bk (po_os (mg_os m))") auto
    show ?thesis using late ref assms(1) q
      by (auto simp: settingsSnapshot_def bindE_def mapE_def proxy_Get_def throw_def os_call_def split: prod.splits)
  qed
qed

theorem foreign_proxy_untouched_witness:
  "mg_settings (snd (mutateSystemProxy demo_menv demo_mixed (Some demo_backend) demo_ctx demo_op False False (demo_manager proxy_other))) = demo_settings \<and>
   CallDisable \<notin> set (po_calls (mg_os (snd (mutateSystemProxy demo_menv demo_mixed (Some demo_backend) demo_ctx demo_op False False (demo_manager proxy_other)))))"
proof -
  let ?x = "mutateSystemProxy demo_menv demo_mixed (Some demo_backend) demo_ctx demo_op False False (demo_manager proxy_other)"
  have "resolveSystemProxyTarget demo_mixed (MixedAddr (mg_settings (demo_manager proxy_other))) =
      Inr (NormalizeServer ''127.0.0.1'' 7890, ''127.0.0.1'', 7890)"
    by (simp add: resolveSystemProxyTarget_def demo_mixed_def)
  moreover have "fst (pb_Get demo_backend (po_os (mg_os (demo_manager proxy_other)))) = Inr proxy_other"
    by (simp add: demo_backend_def demo_manager_def)
  moreover have "IsForeign proxy_other (NormalizeServer ''127.0.0.1'' 7890)" by (simp add: IsForeign_def IsOwned_def NormalizeServer_def)
  ultimately show ?thesis
    using foreign_proxy_untouched [of demo_mixed "demo_manager proxy_other" _ _ _ demo_backend proxy_other False False demo_menv demo_ctx demo_op "fst ?x" "snd ?x"]
    by (auto simp: demo_manager_def)
qed

text \<open>Compensation re-enables the same proxy: restoring a proxy whose server is a printed host and port asks the
  operating system for exactly that host and port.\<close>

theorem restore_reenables_server:
  assumes "px_Enabled seen" "px_Server seen = NormalizeServer h n" "h \<noteq> []" "CHR ''['' \<notin> set h" "CHR '']'' \<notin> set h" "1 \<le> n" "n \<le> 65535"
  shows "restoreSystemProxy bk seen m = proxy_Enable bk h (int n) m"
proof -
  have "parse_int64 (nat_digits n) = Some (int n)" using parse_nat_digits [of n] assms(7) by simp
  then show ?thesis using assms host_port_split_join [OF assms(4,5)] by (simp add: restoreSystemProxy_def)
qed

theorem restore_reenables_server_witness:
  "po_calls (mg_os (snd (restoreSystemProxy demo_backend \<lparr>px_Enabled = True, px_Server = NormalizeServer ''::1'' 7890\<rparr> (demo_manager proxy_off)))) =
   [CallEnable ''::1'' 7890]"
  using restore_reenables_server [of "\<lparr>px_Enabled = True, px_Server = NormalizeServer ''::1'' 7890\<rparr>" "''::1''" 7890 demo_backend "demo_manager proxy_off"]
  by (simp add: proxy_Enable_def os_call_def demo_backend_def demo_manager_def)

end
