(* ===== verification/Runtime_Core.thy ===== *)
theory Runtime_Core
  imports Core_Claims Runtime_Proxy Supervisor
begin

text \<open>
  \<open>internal/runtime/core_update.go\<close>: the update of the core as the manager runs it, inside an update session of
  the supervisor: the transaction on the files, the trial of the new core, the settings that record
  the channel, and the way back from a failure of any of them.
\<close>

section \<open>The parts side by side\<close>

text \<open>What the update works on beside the store: the manager, the supervisor with the session and what it was
  asked to do, how starts and stops go (a stop finds the process exited if its flag is set), the running
  intent, and the signal of an installation.\<close>

record 'q runtime_core =
  rc_manager :: "'q proxy_manager"
  rc_sv :: supervisor
  rc_se :: session
  rc_acts :: "session_action list"
  rc_starts :: "(start_outcome \<times> health_env) list"
  rc_stops :: "(bool \<times> stop_outcome \<times> go_error option) list"
  rc_coreRunRequested :: bool
  rc_installed :: bool

text \<open>What is fixed: the settings file, the proxy backend, the process identifiers of children.\<close>

record 'q core_env =
  ce_settings :: manager_env
  ce_parse :: addr_port
  ce_proxy :: "'q proxy_backend option"
  ce_pid :: "nat \<Rightarrow> int"

type_synonym ('s, 'q) core_world = "'s \<times> 'q runtime_core"

text \<open>Operations on one side.\<close>

definition on_store :: "('a, 's) io \<Rightarrow> ('a, 's \<times> 'r) io" where
  "on_store m = (\<lambda>(s, r). case m s of (x, s') \<Rightarrow> (x, (s', r)))"

definition on_manager :: "('a, 'q proxy_manager) io \<Rightarrow> ('a, 's \<times> 'q runtime_core) io" where
  "on_manager m = (\<lambda>(s, r). case m (rc_manager r) of (x, m') \<Rightarrow> (x, (s, r\<lparr>rc_manager := m'\<rparr>)))"

definition beside :: "'s pstore \<Rightarrow> ('s \<times> 'r) pstore" where
  "beside st = \<lparr>ps_Load = (\<lambda>c r t. on_store (ps_Load st c r t)), ps_Save = (\<lambda>c r t b. on_store (ps_Save st c r t b)),
     ps_Apply = (\<lambda>c a. on_store (ps_Apply st c a)), ps_Inspect = (\<lambda>c r t. on_store (ps_Inspect st c r t)),
     ps_acquire = (\<lambda>c. on_store (ps_acquire st c)), ps_admitInstalled = (\<lambda>x. on_store (ps_admitInstalled st x)),
     ps_acceptPublished = (\<lambda>x. on_store (ps_acceptPublished st x)),
     ps_syncCleanupRecord = (\<lambda>c t. on_store (ps_syncCleanupRecord st c t)),
     ps_cleanupTransactions = (\<lambda>c. on_store (ps_cleanupTransactions st c)),
     ps_removeEmptyCleanupDirectory = (\<lambda>c t. on_store (ps_removeEmptyCleanupDirectory st c t)),
     ps_ctxErr = (\<lambda>c. on_store (ps_ctxErr st c)), ps_digest = ps_digest st, ps_boot = ps_boot st\<rparr>"

section \<open>The session\<close>

definition update_Start :: "(unit, ('s, 'q) core_world) io" where
  "update_Start = (\<lambda>(s, r).
     (let (out, env) = (case rc_starts r of [] \<Rightarrow> (StartFails (Opaque ''start''), \<lparr>he_has_checker = False, he_exited = None,
            he_grace = None, he_ctx = (\<lambda>_. None), he_check = (\<lambda>_. None), he_interval = (\<lambda>_. None), he_ctx_end = None\<rparr>) | x # _ \<Rightarrow> x) in
      case session_Start (rc_sv r) (rc_se r) out env of
        (e, sv, se) \<Rightarrow> (case e of None \<Rightarrow> Inr () | Some x \<Rightarrow> Inl x,
          (s, r\<lparr>rc_sv := sv, rc_se := se, rc_acts := rc_acts r @ [AStart out env], rc_starts := tl (rc_starts r)\<rparr>))))"

definition update_Stop :: "(unit, ('s, 'q) core_world) io" where
  "update_Stop = (\<lambda>(s, r).
     (let (exited, out, d) = (case rc_stops r of [] \<Rightarrow> (False, StopKilled None, None) | x # _ \<Rightarrow> x);
          before = (if exited then [AExit] else []);
          (sv0, se0) = foldl session_act (rc_sv r, rc_se r) before in
      case session_Stop sv0 se0 out d of
        (e, sv, se) \<Rightarrow> (case e of None \<Rightarrow> Inr () | Some x \<Rightarrow> Inl x,
          (s, r\<lparr>rc_sv := sv, rc_se := se, rc_acts := rc_acts r @ before @ [AStop out d], rc_stops := tl (rc_stops r)\<rparr>))))"

definition update_KeepStopped :: "(unit, ('s, 'q) core_world) io" where
  "update_KeepStopped = (\<lambda>(s, r). (Inr (), (s, r\<lparr>rc_se := (rc_se r)\<lparr>se_keepStopped := True\<rparr>, rc_acts := rc_acts r @ [AKeepStopped]\<rparr>)))"

definition session_PID :: "'q core_env \<Rightarrow> session \<Rightarrow> int" where
  "session_PID ce se = (case se_process se of None \<Rightarrow> 0 | Some (c, _) \<Rightarrow> ce_pid ce c)"

definition session_StartedAt :: "session \<Rightarrow> go_time" where
  "session_StartedAt se = (case se_process se of None \<Rightarrow> 0 | Some (_, t) \<Rightarrow> t)"

text \<open>The code that depends on the session.\<close>

definition with_session :: "('q runtime_core \<Rightarrow> ('a, ('s, 'q) core_world) io) \<Rightarrow> ('a, ('s, 'q) core_world) io" where
  "with_session f = (\<lambda>(s, r). f r (s, r))"

section \<open>The selection in the settings\<close>

definition select_core :: "core_selection \<Rightarrow> settings \<Rightarrow> go_error + settings" where
  "select_core sel s = Inr (s\<lparr>CoreChannel := cs_Channel sel, CoreChannelBundle := cs_Bundle sel\<rparr>)"

definition saveCoreSelection :: "manager_env \<Rightarrow> op_ctx \<Rightarrow> core_selection \<Rightarrow> (unit, 'p manager) io" where
  "saveCoreSelection env c sel =
     bindE (lockMutation c) (\<lambda>_.
     bindE (prepareSettings env (select_core sel)) (\<lambda>cand. \<lambda>m.
       case saveSettingsCandidate env (cand\<lparr>sc_changed := True\<rparr>) m of
         ((_, Some e), m1) \<Rightarrow> (Inl e, m1)
       | ((_, None), m1) \<Rightarrow> (Inr (), m1)))"

definition core_update_meta :: command_meta where
  "core_update_meta = \<lparr>meta_ID = [], meta_Source = ''core-update'', IfRevision = None\<rparr>"

definition selected_snapshot :: "core_selection \<Rightarrow> int \<Rightarrow> go_time \<Rightarrow> bool \<Rightarrow> value_snapshot \<Rightarrow> value_snapshot" where
  "selected_snapshot sel pid startedAt mutationDegraded s =
     (let s1 = s\<lparr>Core := (Core s)\<lparr>core_Version := cs_Version sel, core_AlphaSHA := cs_AlphaSHA sel, core_Channel := cs_Channel sel,
            core_PID := pid, core_StartedAt := startedAt, core_Status := (if pid \<noteq> 0 then ''running'' else ''stopped''),
            core_LastError := []\<rparr>\<rparr> in
      if LastError s1 = ''Core update recovery required'' \<and> \<not> mutationDegraded
      then s1\<lparr>Health := ''ok'', LastError := []\<rparr> else s1)"

definition publishCoreSelection :: "manager_env \<Rightarrow> op_ctx \<Rightarrow> core_selection \<Rightarrow> int \<Rightarrow> go_time \<Rightarrow> (unit, 'p manager) io" where
  "publishCoreSelection env c sel pid startedAt =
     bindE (lockMaintenance c) (\<lambda>_.
     bindE (prepareSettings env (select_core sel)) (\<lambda>cand. \<lambda>m.
     (let m1 = publishSettings cand m in
      bindE (updateStateLocked core_update_meta (\<lambda>s. (selected_snapshot sel pid startedAt (mg_mutationDegraded m1) s, None))) (\<lambda>_. ret ()) m1)))"

definition recovery_snapshot :: "value_snapshot \<Rightarrow> value_snapshot" where
  "recovery_snapshot s = s\<lparr>Health := ''degraded'', LastError := ''Core update recovery required'',
     Core := (Core s)\<lparr>core_Status := ''degraded'', core_LastError := ''Core update recovery required''\<rparr>\<rparr>"

definition blockCoreUpdate :: "op_ctx \<Rightarrow> go_error \<Rightarrow> ('a, 'p manager) io" where
  "blockCoreUpdate c cause m =
     (let m0 = m\<lparr>mg_coreRecovery := True\<rparr>;
          failed = (\<lambda>e. Failure (degraded ''core update recovery required'') (errors_join [Some cause, e])) in
      case lockMaintenance c m0 of
        (Inl e, m1) \<Rightarrow> (Inl (failed (Some e)), m1)
      | (Inr _, m1) \<Rightarrow>
          (case updateStateLocked core_update_meta (\<lambda>s. (recovery_snapshot s, None)) m1 of
             (r, m2) \<Rightarrow> (Inl (failed (err_of r)), m2)))"

section \<open>The work of an update session\<close>

definition warn :: "go_error option \<Rightarrow> 'p manager \<Rightarrow> 'p manager" where
  "warn e m = (case e of None \<Rightarrow> m | Some w \<Rightarrow> m\<lparr>mg_warnings := mg_warnings m @ [w]\<rparr>)"

text \<open>Failures of a step that only warn.\<close>

definition warning_of :: "(unit, ('s, 'q) core_world) uop \<Rightarrow> (unit, ('s, 'q) core_world) uop" where
  "warning_of m uw = (case m uw of (r, (u, (s, rc))) \<Rightarrow> (Inr (), (u, (s, rc\<lparr>rc_manager := warn (err_of r) (rc_manager rc)\<rparr>))))"

definition joined_errors :: "go_error \<Rightarrow> go_error \<Rightarrow> go_error" where
  "joined_errors a b = Joined [a, b]"

definition block_update :: "op_ctx \<Rightarrow> go_error \<Rightarrow> ('a, ('s, 'q) core_world) uop" where
  "block_update c cause = lift (on_manager (blockCoreUpdate c cause))"

definition require_and_block :: "'s pstore \<Rightarrow> update_codec \<Rightarrow> op_ctx \<Rightarrow> go_error \<Rightarrow> (unit, ('s, 'q) core_world) uop" where
  "require_and_block st cd c cause = catchE (RequireRecovery (beside st) cd cause) (block_update c)"

text \<open>The new core is put in place, tried and accepted.\<close>

definition update_trial :: "'q core_env \<Rightarrow> 's pstore \<Rightarrow> update_codec \<Rightarrow> op_ctx \<Rightarrow> (unit, ('s, 'q) core_world) uop" where
  "update_trial ce st cd c =
     bindE (Publish (beside st) cd True) (\<lambda>_.
     bindE (with_utx (\<lambda>u. lift (if ui_StartNew (uj_Intent (ut_journal u)) then update_Start else update_KeepStopped))) (\<lambda>_.
     Commit (beside st) cd True (Some (\<lambda>sel. on_manager (saveCoreSelection (ce_settings ce) c sel)))))"

definition publish_selection :: "'q core_env \<Rightarrow> op_ctx \<Rightarrow> core_selection \<Rightarrow> (unit, ('s, 'q) core_world) uop" where
  "publish_selection ce c sel = lift (with_session (\<lambda>r.
     on_manager (publishCoreSelection (ce_settings ce) c sel (session_PID ce (rc_se r)) (session_StartedAt (rc_se r)))))"

text \<open>The old core is put back and, if it was running, started again.\<close>

definition restart_old :: "(unit, ('s, 'q) core_world) io" where
  "restart_old = with_session (\<lambda>r. if se_wasRunning (rc_se r) then update_Start else update_KeepStopped)"

definition update_undo ::
  "'q core_env \<Rightarrow> 's pstore \<Rightarrow> update_codec \<Rightarrow> op_ctx \<Rightarrow> core_selection \<Rightarrow> bool \<Rightarrow> go_error \<Rightarrow> (unit, ('s, 'q) core_world) uop" where
  "update_undo ce st cd c previous reinstall updateErr =
     bindE (tryE (lift update_Stop)) (\<lambda>stopped.
     case stopped of
       Inl stopErr \<Rightarrow> require_and_block st cd c (joined_errors updateErr stopErr)
     | Inr _ \<Rightarrow>
     if reinstall then require_and_block st cd c updateErr
     else
       bindE (tryE (Rollback (beside st) cd True (Some (\<lambda>sel. on_manager (saveCoreSelection (ce_settings ce) c sel))))) (\<lambda>rolled.
       case rolled of
         Inl e \<Rightarrow> block_update c (joined_errors updateErr e)
       | Inr _ \<Rightarrow>
       bindE (tryE (lift restart_old)) (\<lambda>restarted.
       case restarted of
         Inl e \<Rightarrow> require_and_block st cd c (joined_errors updateErr e)
       | Inr _ \<Rightarrow>
       bindE (tryE (CompleteRollback (beside st) cd True)) (\<lambda>completed.
       case completed of
         Inl e \<Rightarrow> block_update c (joined_errors updateErr e)
       | Inr _ \<Rightarrow>
       bindE (tryE (publish_selection ce c previous)) (\<lambda>published.
       case published of
         Inl e \<Rightarrow> block_update c (joined_errors updateErr e)
       | Inr _ \<Rightarrow>
       bindE (warning_of (DeferCleanup (beside st) cd True)) (\<lambda>_. throw updateErr))))))"

definition update_accept ::
  "'q core_env \<Rightarrow> 's pstore \<Rightarrow> update_codec \<Rightarrow> op_ctx \<Rightarrow> core_selection \<Rightarrow> bool \<Rightarrow> (unit, ('s, 'q) core_world) uop" where
  "update_accept ce st cd c next reinstall =
     bindE (tryE (publish_selection ce c next)) (\<lambda>published.
     case published of
       Inl e \<Rightarrow> require_and_block st cd c e
     | Inr _ \<Rightarrow>
     bindE (warning_of (DeferCleanup (beside st) cd True)) (\<lambda>_.
     bindE (with_utx (\<lambda>u. warning_of (lift (with_session (\<lambda>r.
       if \<not> HasPreviousCore u \<and> session_PID ce (rc_se r) \<noteq> 0
       then on_manager (ApplyDesiredSystemProxy (ce_parse ce) (ce_proxy ce) c) else ret ()))))) (\<lambda>_.
     (\<lambda>(u, (s, r)). (Inr (), (u, (s, if reinstall
        then r\<lparr>rc_manager := (rc_manager r)\<lparr>mg_coreRecovery := False\<rparr>, rc_installed := True\<rparr> else r)))))))"

definition update_begin_failed ::
  "op_ctx \<Rightarrow> bool \<Rightarrow> go_error \<Rightarrow> (unit, ('s, 'q) core_world) io" where
  "update_begin_failed c reinstall e =
     (if reinstall \<or> maintenanceDegraded (Some e) then on_manager (blockCoreUpdate c e)
      else
        bindE (tryE restart_old) (\<lambda>restored.
        case restored of
          Inl restoreErr \<Rightarrow> on_manager (blockCoreUpdate c (joined_errors e restoreErr))
        | Inr _ \<Rightarrow> throw e))"

text \<open>An update: its candidate, its two selections, and whether it replaces an interrupted one.\<close>

record core_update =
  cu_transaction :: string
  cu_binary :: prov_object
  cu_previous :: core_selection
  cu_next :: core_selection
  cu_reinstall :: bool

definition update_intent_of :: "core_update \<Rightarrow> 'q runtime_core \<Rightarrow> update_intent" where
  "update_intent_of cu r = \<lparr>ui_Previous = cu_previous cu, ui_Next = cu_next cu, ui_WasRunning = se_wasRunning (rc_se r),
     ui_StartNew = rc_coreRunRequested r, ui_Reinstall = False\<rparr>"

definition warn_all :: "go_error list \<Rightarrow> 'q runtime_core \<Rightarrow> 'q runtime_core" where
  "warn_all ws r = r\<lparr>rc_manager := (rc_manager r)\<lparr>mg_warnings := mg_warnings (rc_manager r) @ ws\<rparr>\<rparr>"

definition core_update_work ::
  "'q core_env \<Rightarrow> 's pstore \<Rightarrow> update_codec \<Rightarrow> op_ctx \<Rightarrow> core_update \<Rightarrow> (unit, ('s, 'q) core_world) io" where
  "core_update_work ce st cd c cu = (\<lambda>(s, r).
     case beginUpdate (Some (beside st)) cd True (cu_transaction cu) (cu_binary cu) (update_intent_of cu r) (cu_reinstall cu) (s, r) of
       (Inl e, w) \<Rightarrow> update_begin_failed c (cu_reinstall cu) e w
     | (Inr u, w) \<Rightarrow>
         (case (case update_trial ce st cd c (u, w) of
              (Inl e, uw) \<Rightarrow> update_undo ce st cd c (cu_previous cu) (cu_reinstall cu) e uw
            | (Inr _, uw) \<Rightarrow> update_accept ce st cd c (cu_next cu) (cu_reinstall cu) uw) of
            (res, (u2, (s2, r2))) \<Rightarrow> (res, (s2, warn_all (ut_warnings u2) r2))))"

section \<open>The update in the supervisor\<close>

definition fresh_session :: "bool \<Rightarrow> session" where
  "fresh_session wasRunning = \<lparr>se_process = None, se_wasRunning = wasRunning, se_healthy = False, se_keepStopped = False\<rparr>"

text \<open>\<open>Supervisor.performUpdate\<close> around the work: the supervisor carries out what the work asked its session
  for. \<open>stop\<close> and \<open>d\<close> say how its own stop goes.\<close>

definition in_session ::
  "bool \<Rightarrow> stop_outcome \<Rightarrow> go_error option \<Rightarrow> (unit, ('s, 'q) core_world) io \<Rightarrow> (unit, ('s, 'q) core_world) io" where
  "in_session wasRunning stop d work = (\<lambda>(s, r).
     case work (s, r\<lparr>rc_se := fresh_session wasRunning, rc_acts := []\<rparr>) of
       (res, (s1, r1)) \<Rightarrow>
         (case performUpdate (rc_sv r) \<lparr>uw_actions = rc_acts r1, uw_err = err_of res, uw_stop = stop, uw_descendants = d\<rparr> wasRunning of
            (e, sv) \<Rightarrow> (case e of None \<Rightarrow> Inr () | Some x \<Rightarrow> Inl x, (s1, r1\<lparr>rc_sv := sv\<rparr>))))"

record core_inputs =
  ci_active :: string
  ci_config :: config_state
  ci_generation :: u64
  ci_selection :: core_selection

definition coreUpdateInputs :: "'p manager \<Rightarrow> core_inputs" where
  "coreUpdateInputs m =
     (let (settings, generation) = configInputs m; current = Core (mg_snapshot m) in
      \<lparr>ci_active = ActiveSubscription (mg_snapshot m), ci_config = Config (mg_snapshot m), ci_generation = generation,
       ci_selection = \<lparr>cs_Channel = (if CoreChannel settings = [] then ''stable'' else CoreChannel settings),
         cs_Bundle = CoreChannelBundle settings, cs_Version = core_Version current, cs_AlphaSHA = core_AlphaSHA current\<rparr>\<rparr>)"

definition captureCoreUpdateInputs :: "op_ctx \<Rightarrow> (core_inputs, 'p manager) io" where
  "captureCoreUpdateInputs c = bindE (lockMutation c) (\<lambda>_. \<lambda>m. (Inr (coreUpdateInputs m), m))"

definition next_selection :: "string \<Rightarrow> string \<Rightarrow> string \<Rightarrow> core_selection" where
  "next_selection channel bundle version = \<lparr>cs_Channel = channel, cs_Bundle = bundle, cs_Version = version,
     cs_AlphaSHA = (if channel = ''alpha'' then (if has_prefix version ''alpha-'' then drop 6 version else version) else [])\<rparr>"

definition preparationChanged :: "bool \<Rightarrow> string \<Rightarrow> string \<Rightarrow> go_error" where
  "preparationChanged setup resource message =
     (if setup then Errorf (resource @ '' inputs changed during setup preparation: '')
        (Api (api CodeRevisionConflict (resource @ '' inputs changed during setup preparation'')))
      else Api (api CodeRevisionConflict message))"

record update_request =
  ur_IfRevision :: "u64 option"
  ur_setup :: bool
  ur_inputs :: core_inputs
  ur_reservation :: nat
  ur_channel :: string
  ur_version :: string
  ur_transaction :: string
  ur_binary :: prov_object
  ur_reinstall :: bool

text \<open>The checks of \<open>installCoreUpdate\<close> and its reservation; the result is the inputs the update works with, which a
  setup takes anew. In a setup, \<open>lockSetupMutation\<close> first waits for another update to end; the state given is the one
  after that wait.\<close>

definition same_inputs :: "bool \<Rightarrow> core_inputs \<Rightarrow> core_inputs \<Rightarrow> bool" where
  "same_inputs setup inputs now \<longleftrightarrow> ci_generation inputs = ci_generation now \<and>
     (setup \<longrightarrow> ci_active inputs = ci_active now \<and> ci_config inputs = ci_config now)"

definition reserve_update :: "op_ctx \<Rightarrow> update_request \<Rightarrow> (core_inputs, 'p manager) io" where
  "reserve_update c req =
     bindE (lockMutation c) (\<lambda>_.
     bindE (checkIfRevision (ur_IfRevision req)) (\<lambda>_. \<lambda>m.
     (let now = coreUpdateInputs m; inputs = (if ur_setup req then now else ur_inputs req) in
      bindE (guardE (same_inputs (ur_setup req) (ur_inputs req) now)
        (preparationChanged (ur_setup req) ''Core configuration'' ''configuration changed during core preparation'')) (\<lambda>_.
      bindE (ctxErr c) (\<lambda>_. \<lambda>m1. (Inr inputs, m1\<lparr>mg_coreUpdate := Some (ur_reservation req)\<rparr>))) m)))"

text \<open>How the supervisor takes the request: refused, or carried out for a running or a stopped core.\<close>

record update_turn =
  tn_refused :: "go_error option"
  tn_running :: bool
  tn_stop :: stop_outcome
  tn_descendants :: "go_error option"

record install_result =
  ir_Version :: string
  ir_AlphaSHA :: string
  ir_Updated :: bool

definition request_update :: "update_request \<Rightarrow> core_inputs \<Rightarrow> core_update" where
  "request_update req inputs = \<lparr>cu_transaction = ur_transaction req, cu_binary = ur_binary req,
     cu_previous = ci_selection inputs,
     cu_next = next_selection (ur_channel req) (cs_Bundle (ci_selection (ur_inputs req))) (ur_version req),
     cu_reinstall = ur_reinstall req\<rparr>"

definition release_update :: "nat \<Rightarrow> 'q runtime_core \<Rightarrow> 'q runtime_core" where
  "release_update k r = (if mg_coreUpdate (rc_manager r) = Some k
     then r\<lparr>rc_manager := (rc_manager r)\<lparr>mg_coreUpdate := None\<rparr>\<rparr> else r)"

definition installCoreUpdate ::
  "'q core_env \<Rightarrow> 's pstore \<Rightarrow> update_codec \<Rightarrow> op_ctx \<Rightarrow> update_turn \<Rightarrow> update_request
   \<Rightarrow> (install_result, ('s, 'q) core_world) io" where
  "installCoreUpdate ce st cd c turn req =
     bindE (on_manager (reserve_update c req)) (\<lambda>inputs. \<lambda>w.
     (let owner = c\<lparr>cx_owner := Some (ur_reservation req)\<rparr>; cu = request_update req inputs in
      case (case tn_refused turn of
          Some e \<Rightarrow> throw e w
        | None \<Rightarrow> in_session (tn_running turn) (tn_stop turn) (tn_descendants turn) (core_update_work ce st cd owner cu) w) of
        (res, (s, r)) \<Rightarrow>
          (map_sum id (\<lambda>_. \<lparr>ir_Version = cs_Version (cu_next cu), ir_AlphaSHA = cs_AlphaSHA (cu_next cu), ir_Updated = True\<rparr>) res,
           (s, release_update (ur_reservation req) r))))"

text \<open>\<open>Reinstall\<close>: the channel of the interrupted update is installed anew. \<open>prepare\<close> is the installer, which leaves a candidate in the
  store and returns its version, transaction and observation; \<open>cleanup\<close> is the candidate's own, which runs on every return.\<close>

definition reinstall_selection :: "'s pstore \<Rightarrow> update_codec \<Rightarrow> core_selection \<Rightarrow> (core_selection, 's) io" where
  "reinstall_selection st cd selection = bindE (tryE (OpenUpdate (Some st) cd True)) (\<lambda>r.
     case r of
       Inr pending \<Rightarrow> ret (fst (ReinstallSelection pending))
     | Inl e \<Rightarrow> if error_is ErrNotExist e then ret selection else throw e)"

definition reserve_reinstall :: "op_ctx \<Rightarrow> u64 option \<Rightarrow> nat \<Rightarrow> (unit, 'p manager) io" where
  "reserve_reinstall c revision k =
     bindE (lockMaintenance c) (\<lambda>_. \<lambda>m.
     bindE (guardE (mg_coreUpdate m = None) (invalid_state ''core update already in progress'')) (\<lambda>_.
     bindE (checkIfRevision revision) (\<lambda>_. \<lambda>m1. (Inr (), m1\<lparr>mg_coreUpdate := Some k\<rparr>))) m)"

definition Reinstall ::
  "'q core_env \<Rightarrow> 's pstore \<Rightarrow> update_codec \<Rightarrow> (string \<Rightarrow> (string \<times> string \<times> prov_object, 's) io) \<Rightarrow> (prov_object \<Rightarrow> 's \<Rightarrow> 's) \<Rightarrow> op_ctx \<Rightarrow> update_turn
   \<Rightarrow> u64 option \<Rightarrow> string option \<Rightarrow> nat \<Rightarrow> nat \<Rightarrow> (install_result, ('s, 'q) core_world) io" where
  "Reinstall ce st cd prepare cleanup c turn revision channel k k2 =
     bindE (on_manager (reserve_reinstall c revision k)) (\<lambda>_. \<lambda>w.
     (let owner = c\<lparr>cx_owner := Some k\<rparr> in
      case bindE (on_manager (captureCoreUpdateInputs owner)) (\<lambda>inputs.
        bindE (on_store (reinstall_selection st cd (ci_selection inputs))) (\<lambda>selection.
        bindE (guardE (channel = None \<or> channel = Some (cs_Channel selection))
          (Api (api CodeInvalidArgument ''reinstall uses the original core channel''))) (\<lambda>_.
        bindE (on_store (prepare (cs_Channel selection))) (\<lambda>(version, transaction, binary). \<lambda>w1.
        (case installCoreUpdate ce st cd owner turn \<lparr>ur_IfRevision = revision, ur_setup = False,
            ur_inputs = inputs\<lparr>ci_selection := selection\<rparr>, ur_reservation = k2, ur_channel = cs_Channel selection, ur_version = version,
            ur_transaction = transaction, ur_binary = binary, ur_reinstall = True\<rparr> w1 of
          (out, (s, r)) \<Rightarrow> (out, (cleanup binary s, r))))))) w of
        (res, (s, r)) \<Rightarrow> (res, (s, release_update k r))))"

section \<open>The store beside the rest\<close>

lemma beside_methods [simp]:
  "ps_Load (beside st) c r t = on_store (ps_Load st c r t)" "ps_Save (beside st) c r t b = on_store (ps_Save st c r t b)"
  "ps_Apply (beside st) c a = on_store (ps_Apply st c a)" "ps_Inspect (beside st) c r t = on_store (ps_Inspect st c r t)"
  "ps_acquire (beside st) c = on_store (ps_acquire st c)" "ps_admitInstalled (beside st) x = on_store (ps_admitInstalled st x)"
  "ps_acceptPublished (beside st) x = on_store (ps_acceptPublished st x)"
  "ps_syncCleanupRecord (beside st) c t = on_store (ps_syncCleanupRecord st c t)"
  "ps_cleanupTransactions (beside st) c = on_store (ps_cleanupTransactions st c)"
  "ps_removeEmptyCleanupDirectory (beside st) c t = on_store (ps_removeEmptyCleanupDirectory st c t)"
  "ps_ctxErr (beside st) c = on_store (ps_ctxErr st c)" "ps_digest (beside st) = ps_digest st" "ps_boot (beside st) = ps_boot st"
  by (simp_all add: beside_def)

lemma observed_beside [simp]: "observed (beside st) = observed st"
  by (rule ext) (simp add: observed_def split: option.splits)

lemma on_store_eq: "on_store m w = (x, w') \<longleftrightarrow> m (fst w) = (x, fst w') \<and> snd w' = snd w"
  by (cases w; cases w') (auto simp: on_store_def split: prod.splits)

lemma goes_beside:
  "goes (\<lambda>w. ok (fst w)) (\<lambda>w. sl (fst w)) (\<lambda>w. past (fst w)) s w w' \<longleftrightarrow> goes ok sl past s (fst w) (fst w')"
  by (simp add: goes_def)

text \<open>The store keeps its interface when something is put beside it.\<close>

lemma beside_store:
  assumes "object_store st ok sl past"
  shows "object_store (beside st) (\<lambda>w. ok (fst w)) (\<lambda>w. sl (fst w)) (\<lambda>w. past (fst w))"
  apply (unfold_locales, unfold beside_methods observed_beside on_store_eq goes_beside)
  subgoal using object_store.load [OF assms] by blast
  subgoal using object_store.inspect [OF assms] by blast
  subgoal using object_store.save [OF assms] by blast
  subgoal using object_store.apply_mutation [OF assms] by blast
  subgoal using object_store.gate(1) [OF assms] by blast
  subgoal using object_store.gate(2) [OF assms] by blast
  subgoal using object_store.gate(3) [OF assms] by blast
  subgoal using object_store.gate(4) [OF assms] by blast
  subgoal using object_store.directories(1) [OF assms] by blast
  subgoal using object_store.directories(2) [OF assms] by blast
  subgoal using object_store.directories(3) [OF assms] by blast
  subgoal using object_store.installed_once [OF assms] by blast
  done

interpretation core_files: object_store "beside (fileUpdateStore cfg)" "\<lambda>w. file_inv (fst w)" "\<lambda>w. file_slots cfg (fst w)" "\<lambda>w. file_past cfg (fst w)" for cfg
  by (rule beside_store) (rule file_store.object_store_axioms)

section \<open>What each side leaves alone\<close>

abbreviation rest :: "utx \<times> 's \<times> 'r \<Rightarrow> 'r" where
  "rest x \<equiv> snd (snd x)"

text \<open>A condition on the rest, through an operation of a transaction.\<close>

definition rest_triple :: "('r \<Rightarrow> bool) \<Rightarrow> ('a, 's \<times> 'r) uop \<Rightarrow> ('r \<Rightarrow> bool) \<Rightarrow> ('r \<Rightarrow> bool) \<Rightarrow> bool" where
  "rest_triple R m Q E \<longleftrightarrow> triple (\<lambda>x. R (rest x)) m (\<lambda>_ x. Q (rest x)) (\<lambda>x. E (rest x))"

lemma rest_bind: "rest_triple R m Q E \<Longrightarrow> (\<And>y. rest_triple Q (f y) Q' E) \<Longrightarrow> rest_triple R (bindE m f) Q' E"
  unfolding rest_triple_def by (rule triple_bind)

lemma rest_weaken: "rest_triple R m Q E \<Longrightarrow> (\<And>r. R' r \<Longrightarrow> R r) \<Longrightarrow> (\<And>r. Q r \<Longrightarrow> Q' r) \<Longrightarrow> (\<And>r. E r \<Longrightarrow> E' r) \<Longrightarrow> rest_triple R' m Q' E'"
  unfolding rest_triple_def triple_iff by blast

text \<open>An operation that leaves the rest alone.\<close>

definition frame :: "('a, 's \<times> 'r) uop \<Rightarrow> bool" where
  "frame m \<longleftrightarrow> (\<forall>x y x'. m x = (y, x') \<longrightarrow> rest x' = rest x)"

lemma frameI: "(\<And>x y x'. m x = (y, x') \<Longrightarrow> rest x' = rest x) \<Longrightarrow> frame m"
  unfolding frame_def by blast

lemma frameD: "frame m \<Longrightarrow> m x = (y, x') \<Longrightarrow> rest x' = rest x"
  unfolding frame_def by blast

lemma frame_rest: "frame m \<Longrightarrow> rest_triple R m R R"
  unfolding rest_triple_def by (rule tripleI) (simp_all only: frameD)

lemma frame_bind: "frame m \<Longrightarrow> (\<And>y. frame (f y)) \<Longrightarrow> frame (bindE m f)"
  by (rule frameI, erule bindE_cases) (metis frameD)+

lemma frame_basic: "frame (ret x)" "frame (throw e)" "frame (guardE g e)"
  by (auto simp: frame_def ret_def throw_def guardE_def)

lemma frame_utx: "(\<And>u. frame (f u)) \<Longrightarrow> frame (with_utx f)"
  by (auto simp: frame_def with_utx_def)

lemma frame_store: "frame (lift (on_store m))"
  by (auto simp: frame_def lift_def on_store_def split: prod.splits)

lemma frame_writePhase: "frame (writePhase (beside st) cd c p)"
  by (auto simp: frame_def writePhase_def on_store_def Let_def split: prod.splits sum.splits if_splits)

lemma frame_move: "frame (move (beside st) c role src e se)"
  by (auto simp: frame_def move_def on_store_def Let_def split: prod.splits sum.splits if_splits)

lemma frame_recovery: "frame (recoveryFailure (beside st) cd e)"
  by (rule frameI) (auto simp: recoveryFailure_def dest!: frameD [OF frame_writePhase] split: prod.splits if_splits)

lemma frame_or_recovery: "frame m \<Longrightarrow> frame (or_recovery (beside st) cd m)"
  by (rule frameI) (auto simp: or_recovery_def dest!: frameD frameD [OF frame_recovery] split: prod.splits sum.splits)

lemmas frame_rules = frame_bind frame_basic frame_utx frame_store frame_writePhase frame_move frame_recovery frame_or_recovery

lemma frame_marker: "frame (verifyMarker (beside st) c)"
  unfolding verifyMarker_def beside_methods by (intro frame_rules)

lemma frame_final: "frame (verifyFinalCore (beside st) c b)"
  unfolding verifyFinalCore_def beside_methods Let_def by (intro frame_rules)

lemma frame_Publish: "frame (Publish (beside st) cd c)"
  unfolding Publish_def beside_methods Let_def by (intro frame_rules frame_marker)

lemma frame_CompleteRollback: "frame (CompleteRollback (beside st) cd c)"
  unfolding CompleteRollback_def beside_methods by (intro frame_rules frame_marker frame_final)

text \<open>Operations of the store alone, run beside the rest.\<close>

definition rest_kept :: "('a, 's \<times> 'r) io \<Rightarrow> bool" where
  "rest_kept m \<longleftrightarrow> (\<forall>w y w'. m w = (y, w') \<longrightarrow> snd w' = snd w)"

lemma keptI: "(\<And>w y w'. m w = (y, w') \<Longrightarrow> snd w' = snd w) \<Longrightarrow> rest_kept m"
  unfolding rest_kept_def by blast

lemma keptD: "rest_kept m \<Longrightarrow> m w = (y, w') \<Longrightarrow> snd w' = snd w"
  unfolding rest_kept_def by blast

lemma kept_bind: "rest_kept m \<Longrightarrow> (\<And>y. rest_kept (f y)) \<Longrightarrow> rest_kept (bindE m f)"
  by (rule keptI, erule bindE_cases) (metis keptD)+

lemma kept_basic: "rest_kept (ret x)" "rest_kept (throw e)" "rest_kept (guardE g e)"
  by (auto simp: rest_kept_def ret_def throw_def guardE_def)

lemma kept_try: "rest_kept m \<Longrightarrow> rest_kept (tryE m)"
  by (rule keptI) (simp only: tryE_eq, elim exE conjE, simp only: keptD)

lemma kept_store: "rest_kept (on_store m)"
  by (rule keptI) (simp add: on_store_eq)

lemma kept_running: "frame m \<Longrightarrow> rest_kept (running u m)"
  by (rule keptI) (auto simp: running_def dest!: frameD split: prod.splits sum.splits)

lemma frame_lift: "rest_kept m \<Longrightarrow> frame (lift m)"
  by (rule frameI) (auto simp: lift_def dest!: keptD split: prod.splits)

lemmas kept_rules = kept_bind kept_basic kept_try kept_store kept_running

lemma frame_deferLocked: "frame (deferCleanupLocked (beside st) cd c)"
  unfolding deferCleanupLocked_def archive_record_def beside_methods Let_def
  by (intro frame_utx frame_bind frame_basic frame_marker frame_final)
    (auto intro!: frame_basic frame_lift kept_rules split: sum.splits)

lemma frame_defer: "frame (DeferCleanup (beside st) cd c)"
  unfolding DeferCleanup_def beside_methods by (intro frame_bind frame_store frame_deferLocked)

text \<open>Beginning an update beside the rest is beginning it on the store.\<close>

definition natural :: "('a, 's \<times> 'r) io \<Rightarrow> ('a, 's) io \<Rightarrow> bool" where
  "natural m' m \<longleftrightarrow> m' = on_store m"

definition tx_natural :: "('a, 's \<times> 'r) uop \<Rightarrow> ('a, 's) uop \<Rightarrow> bool" where
  "tx_natural m' m \<longleftrightarrow> (\<forall>u s r. m' (u, (s, r)) = (case m (u, s) of (x, (u', s')) \<Rightarrow> (x, (u', (s', r)))))"

lemma natural_bind: "natural m' m \<Longrightarrow> (\<And>x. natural (f' x) (f x)) \<Longrightarrow> natural (bindE m' f') (bindE m f)"
  by (auto simp: natural_def fun_eq_iff on_store_def bindE_def split: prod.splits sum.splits)

lemma natural_basic: "natural (ret x) (ret x)" "natural (throw e) (throw e)" "natural (guardE g e) (guardE g e)" "natural (on_store m) m"
  by (auto simp: natural_def fun_eq_iff on_store_def ret_def throw_def guardE_def)

lemma natural_try: "natural m' m \<Longrightarrow> natural (tryE m') (tryE m)"
  by (auto simp: natural_def fun_eq_iff on_store_def tryE_def split: prod.splits)

lemma natural_running: "tx_natural m' m \<Longrightarrow> natural (running u m') (running u m)"
  by (auto simp: natural_def tx_natural_def fun_eq_iff on_store_def running_def split: prod.splits sum.splits)

lemma tx_natural_bind: "tx_natural m' m \<Longrightarrow> (\<And>x. tx_natural (f' x) (f x)) \<Longrightarrow> tx_natural (bindE m' f') (bindE m f)"
  by (auto simp: tx_natural_def bindE_def split: prod.splits sum.splits)

lemma tx_natural_basic: "tx_natural (ret x) (ret x)" "tx_natural (throw e) (throw e)" "tx_natural (guardE g e) (guardE g e)"
  by (auto simp: tx_natural_def ret_def throw_def guardE_def)

lemma tx_natural_utx: "(\<And>u. tx_natural (f' u) (f u)) \<Longrightarrow> tx_natural (with_utx f') (with_utx f)"
  by (simp add: tx_natural_def with_utx_def)

lemma tx_natural_lift: "natural m' m \<Longrightarrow> tx_natural (lift m') (lift m)"
  by (auto simp: natural_def tx_natural_def on_store_def lift_def split: prod.splits)

lemma tx_natural_writePhase: "tx_natural (writePhase (beside st) cd c p) (writePhase st cd c p)"
  by (auto simp: tx_natural_def writePhase_def on_store_def Let_def split: prod.splits sum.splits)

lemmas natural_rules = natural_bind natural_basic natural_try natural_running
lemmas tx_natural_rules = tx_natural_bind tx_natural_basic tx_natural_utx tx_natural_lift tx_natural_writePhase

lemma tx_natural_marker: "tx_natural (verifyMarker (beside st) c) (verifyMarker st c)"
  unfolding verifyMarker_def beside_methods by (intro tx_natural_rules natural_rules)

lemma tx_natural_defer: "tx_natural (deferCleanupLocked (beside st) cd c) (deferCleanupLocked st cd c)"
  unfolding deferCleanupLocked_def verifyFinalCore_def archive_record_def beside_methods Let_def
  by (intro tx_natural_rules natural_rules tx_natural_marker)
    (auto intro!: tx_natural_rules natural_rules split: sum.splits)

lemma natural_pair: "natural (no_pair_journal (beside st) c m) (no_pair_journal st c m)"
  unfolding no_pair_journal_def beside_methods by (intro natural_rules)

lemma natural_open: "natural (OpenUpdate (Some (beside st)) cd c) (OpenUpdate (Some st) cd c)"
proof -
  have d: "decodeUpdateJournal (beside st) cd raw = decodeUpdateJournal st cd raw" for raw
    by (simp add: decodeUpdateJournal_def split: sum.splits)
  show ?thesis unfolding OpenUpdate_def option.case beside_methods d
    by (intro natural_rules natural_pair) (auto intro!: natural_rules tx_natural_marker split: sum.splits)
qed

lemma natural_retire: "natural (retire_previous (beside st) cd c p i re) (retire_previous st cd c p i re)"
  unfolding retire_previous_def archive_interrupted_def beside_methods Let_def
  by (cases p; cases re) (auto intro!: natural_rules natural_open tx_natural_defer split: prod.splits sum.splits)

lemma natural_snapshot: "natural (snapshot_core (beside st) cd c t x i re p) (snapshot_core st cd c t x i re p)"
  unfolding snapshot_core_def admit_old_def back_up_def beside_methods Let_def
  by (intro natural_rules)
    (auto intro!: natural_rules tx_natural_writePhase split: prod.splits sum.splits)

lemma natural_begin: "natural (beginUpdate (Some (beside st)) cd c t x i re) (beginUpdate (Some st) cd c t x i re)"
  unfolding beginUpdate_def option.case beside_methods
  by (intro natural_rules natural_pair)
    (auto intro!: natural_rules natural_retire natural_snapshot split: prod.splits sum.splits)

lemma begin_beside:
  "beginUpdate (Some (beside st)) cd c t x i re (s, r) = (y, (s', r')) \<longleftrightarrow> beginUpdate (Some st) cd c t x i re s = (y, s') \<and> r' = r"
  unfolding natural_begin [unfolded natural_def] on_store_eq by auto

section \<open>Operations that leave the installed core alone\<close>

context object_store
begin

definition core_kept :: "('c, 'w) io \<Rightarrow> bool" where
  "core_kept m \<longleftrightarrow> (\<forall>w r w'. ok w \<longrightarrow> m w = (r, w') \<longrightarrow> ok w' \<and> sl w' InstalledBinary [] = sl w InstalledBinary [])"

definition tx_kept :: "('c, 'w) uop \<Rightarrow> bool" where
  "tx_kept m \<longleftrightarrow> (\<forall>u w r u' w'. ok w \<longrightarrow> m (u, w) = (r, (u', w')) \<longrightarrow> ok w' \<and> sl w' InstalledBinary [] = sl w InstalledBinary [])"

lemma core_keptD: "core_kept m \<Longrightarrow> ok w \<Longrightarrow> m w = (r, w') \<Longrightarrow> ok w' \<and> sl w' InstalledBinary [] = sl w InstalledBinary []"
  unfolding core_kept_def by blast

lemma tx_keptD: "tx_kept m \<Longrightarrow> ok w \<Longrightarrow> m (u, w) = (r, (u', w')) \<Longrightarrow> ok w' \<and> sl w' InstalledBinary [] = sl w InstalledBinary []"
  unfolding tx_kept_def by blast

lemma core_kept_bind: "core_kept m \<Longrightarrow> (\<And>y. core_kept (f y)) \<Longrightarrow> core_kept (bindE m f)"
  unfolding core_kept_def by (intro allI impI, erule bindE_cases) metis+

lemma tx_kept_bind:
  assumes "tx_kept m" "\<And>y. tx_kept (f y)"
  shows "tx_kept (bindE m f)"
  unfolding tx_kept_def
proof (intro allI impI)
  fix u w r u' w' assume w: "ok w" and b: "bindE m f (u, w) = (r, (u', w'))"
  from b show "ok w' \<and> sl w' InstalledBinary [] = sl w InstalledBinary []"
  proof (cases rule: bindE_cases)
    case (go y x1)
    obtain u1 w1 where x: "x1 = (u1, w1)" by (cases x1)
    from tx_keptD [OF assms(1) w go(1) [unfolded x]] tx_keptD [OF assms(2) _ go(2) [unfolded x]] show ?thesis by simp
  qed (use tx_keptD [OF assms(1) w] in blast)
qed

lemma core_kept_silent: "silent m \<Longrightarrow> core_kept m"
  unfolding core_kept_def silent_def by metis

lemma core_kept_try: "core_kept m \<Longrightarrow> core_kept (tryE m)"
  unfolding core_kept_def by (simp add: tryE_eq) metis

lemma core_kept_save: "core_kept (ps_Save st c r t b)"
  unfolding core_kept_def
proof (intro allI impI)
  fix w u w' assume w: "ok w" and s: "ps_Save st c r t b w = (u, w')"
  show "ok w' \<and> sl w' InstalledBinary [] = sl w InstalledBinary []" using save [OF w s] ok_goes [OF w] by auto
qed

lemma core_kept_remove: "r \<noteq> InstalledBinary \<Longrightarrow> core_kept (ps_Apply st c (remove_mutation r t x))"
  unfolding core_kept_def
proof (intro allI impI)
  fix w u w' assume r: "r \<noteq> InstalledBinary" and w: "ok w" and s: "ps_Apply st c (remove_mutation r t x) w = (u, w')"
  show "ok w' \<and> sl w' InstalledBinary [] = sl w InstalledBinary []"
    using apply_mutation [OF w s] r ok_goes [OF w] by (auto simp: remove_mutation_def)
qed

lemma core_kept_admit: "core_kept (ps_admitInstalled st x)"
  by (intro core_kept_silent goes_silent gate(2))

lemma tx_kept_basic: "tx_kept (ret x)" "tx_kept (throw e)" "tx_kept (guardE g e)"
  by (auto simp: tx_kept_def ret_def throw_def guardE_def)

lemma tx_kept_utx: "(\<And>u. tx_kept (f u)) \<Longrightarrow> tx_kept (with_utx f)"
  by (simp add: tx_kept_def with_utx_def)

lemma tx_kept_lift: "core_kept m \<Longrightarrow> tx_kept (lift m)"
  by (fastforce simp: tx_kept_def core_kept_def lift_def split: prod.splits)

lemma kept_by_running: "tx_kept m \<Longrightarrow> core_kept (running u m)"
  unfolding core_kept_def running_def by (auto split: prod.splits sum.splits dest!: tx_keptD)

lemma tx_kept_writePhase: "tx_kept (writePhase st cd c p)"
  unfolding tx_kept_def
proof (intro allI impI)
  fix u w r u' w' assume w: "ok w" and b: "writePhase st cd c p (u, w) = (r, (u', w'))"
  have l: "ok w2 \<and> sl w2 InstalledBinary [] = sl w1 InstalledBinary []" if "ok w1" "ps_Load st False UpdateJournal [] w1 = (x, w2)" for w1 x w2
    using silentD [OF silent_store(1) that] by simp
  show "ok w' \<and> sl w' InstalledBinary [] = sl w InstalledBinary []"
  proof (cases "ut_uncertain u \<or> (\<exists>e. uc_marshal cd ((ut_journal u)\<lparr>uj_Phase := p\<rparr>) = Inl e)")
    case False
    then obtain raw where m: "uc_marshal cd ((ut_journal u)\<lparr>uj_Phase := p\<rparr>) = Inr raw" "\<not> ut_uncertain u" by (metis sum.exhaust_sel)
    obtain x w1 where s: "ps_Save st c UpdateJournal [] raw w = (x, w1)" by fastforce
    obtain a w2 where a: "ps_Load st False UpdateJournal [] w1 = (a, w2)" by fastforce
    have "w' = w1 \<or> w' = w2" using b m s a by (auto simp: writePhase_def Let_def split: if_splits sum.splits)
    then show ?thesis using core_keptD [OF core_kept_save w s] l [OF _ a] by auto
  qed (use b w in \<open>auto simp: writePhase_def Let_def split: if_splits\<close>)
qed

lemmas core_kept_rules = core_kept_bind core_kept_silent [OF silent_basic(1)] core_kept_silent [OF silent_basic(2)]
  core_kept_silent [OF silent_basic(3)] core_kept_try core_kept_save core_kept_silent [OF silent_store(1)] core_kept_silent [OF silent_store(2)]
  core_kept_silent [OF silent_store(3)] core_kept_silent [OF silent_store(4)] core_kept_admit

lemma tx_kept_defer: "tx_kept (deferCleanupLocked st cd c)"
  unfolding deferCleanupLocked_def verifyFinalCore_def verifyMarker_def archive_record_def Let_def
  by (intro tx_kept_utx tx_kept_bind tx_kept_basic tx_kept_lift core_kept_rules)
    (auto intro!: tx_kept_basic tx_kept_lift core_kept_rules core_kept_remove split: sum.splits simp: UpdateJournal_def InstalledBinary_def)

lemma tx_kept_DeferCleanup: "tx_kept (DeferCleanup st cd c)"
  unfolding DeferCleanup_def by (intro tx_kept_bind tx_kept_lift core_kept_rules tx_kept_defer)

lemma core_kept_begin: "core_kept (beginUpdate (Some st) cd c tx expected intent reinstall)"
proof -
  have retire: "core_kept (retire_previous st cd c p i re)" for p i re
    unfolding retire_previous_def archive_interrupted_def Let_def
    by (cases p; cases re) (auto intro!: core_kept_rules core_kept_silent [OF silent_open] kept_by_running tx_kept_defer split: prod.splits sum.splits)
  have snap: "core_kept (snapshot_core st cd c tx expected i re p)" for i re p
    unfolding snapshot_core_def admit_old_def back_up_def Let_def
    by (intro core_kept_rules) (auto intro!: core_kept_rules kept_by_running tx_kept_writePhase split: prod.splits sum.splits)
  show ?thesis unfolding beginUpdate_def option.case no_pair_journal_def
    by (intro core_kept_rules) (auto intro!: core_kept_rules retire snap split: prod.splits sum.splits)
qed

end

end
