(* ===== verification/Core_Outcome.thy ===== *)
theory Core_Outcome
  imports Runtime_Core
begin

text \<open>
  How an update of the core ends. The conditions between its steps speak of the three parts at once: the
  transaction on the files, the session of the supervisor and the settings of the manager; each step is
  shown to keep the parts it does not touch.
\<close>

section \<open>The session\<close>

text \<open>The session is what the recorded actions made of a fresh one.\<close>

definition acted :: "supervisor \<Rightarrow> bool \<Rightarrow> 'q runtime_core \<Rightarrow> bool" where
  "acted sv wr r \<longleftrightarrow> foldl session_act (sv, fresh_session wr) (rc_acts r) = (rc_sv r, rc_se r) \<and> se_wasRunning (rc_se r) = wr"

text \<open>A session that ended well: the process it owns is healthy and is to run, or there is none and there is to be none.\<close>

definition settled :: "supervisor \<Rightarrow> bool \<Rightarrow> 'q runtime_core \<Rightarrow> bool" where
  "settled sv wr r \<longleftrightarrow> acted sv wr r \<and> (wr \<longrightarrow> se_process (rc_se r) \<noteq> None) \<and>
     (if se_process (rc_se r) = None then se_keepStopped (rc_se r) else se_healthy (rc_se r) \<and> \<not> se_keepStopped (rc_se r))"

text \<open>A session in which the core may be started, with no process of its own or after a failed trial.\<close>

definition open_session :: "supervisor \<Rightarrow> bool \<Rightarrow> bool \<Rightarrow> 'q runtime_core \<Rightarrow> bool" where
  "open_session sv wr idle r \<longleftrightarrow> acted sv wr r \<and> (wr \<longrightarrow> \<not> se_keepStopped (rc_se r)) \<and> (idle \<longrightarrow> se_process (rc_se r) = None)"

lemma session_Start_frame: "session_Start sv se out env = (e, sv', se') \<Longrightarrow>
    se_wasRunning se' = se_wasRunning se \<and> se_keepStopped se' = se_keepStopped se \<and>
    (e = None \<longrightarrow> se_process se' \<noteq> None \<and> se_healthy se')"
  by (auto simp: session_Start_def Let_def split: if_splits prod.splits sum.splits option.splits)

lemma session_Stop_frame: "session_Stop sv se out d = (e, sv', se') \<Longrightarrow>
    se_wasRunning se' = se_wasRunning se \<and> se_keepStopped se' = se_keepStopped se \<and> (e = None \<longrightarrow> se_process se' = None)"
  by (auto simp: session_Stop_def Let_def split: if_splits prod.splits option.splits)

lemma acted_more:
  assumes "acted sv wr r" "foldl session_act (rc_sv r, rc_se r) as = (sv', se')" "se_wasRunning se' = wr"
    "rc_acts r' = rc_acts r @ as" "rc_sv r' = sv'" "rc_se r' = se'"
  shows "acted sv wr r'"
  using assms by (simp add: acted_def)

lemma Start_settles:
  assumes "acted sv wr r" "\<not> se_keepStopped (rc_se r)" "update_Start (s, r) = (x, (s', r'))"
  shows "s' = s \<and> rc_manager r' = rc_manager r \<and> acted sv wr r' \<and> \<not> se_keepStopped (rc_se r') \<and> (x = Inr () \<longrightarrow> settled sv wr r')"
proof -
  obtain out env where oe: "(case rc_starts r of [] \<Rightarrow> (StartFails (Opaque ''start''), \<lparr>he_has_checker = False, he_exited = None,
            he_grace = None, he_ctx = (\<lambda>_. None), he_check = (\<lambda>_. None), he_interval = (\<lambda>_. None), he_ctx_end = None\<rparr>) | x # _ \<Rightarrow> x) = (out, env)"
    by fastforce
  obtain e sv1 se1 where st: "session_Start (rc_sv r) (rc_se r) out env = (e, sv1, se1)" by (metis surj_pair)
  have r': "r' = r\<lparr>rc_sv := sv1, rc_se := se1, rc_acts := rc_acts r @ [AStart out env], rc_starts := tl (rc_starts r)\<rparr>" "s' = s"
    "x = (case e of None \<Rightarrow> Inr () | Some x \<Rightarrow> Inl x)"
    using assms(3) st by (auto simp: update_Start_def oe)
  have a: "acted sv wr r'"
    by (rule acted_more [OF assms(1), of "[AStart out env]" sv1 se1])
      (use st session_Start_frame [OF st] assms(1) r' in \<open>simp_all add: acted_def\<close>)
  show ?thesis using a r' session_Start_frame [OF st] assms(2) by (auto simp: settled_def split: option.splits)
qed

lemma Stop_empties:
  assumes "open_session sv wr False r" "update_Stop (s, r) = (x, (s', r'))"
  shows "s' = s \<and> rc_manager r' = rc_manager r \<and> (x = Inr () \<longrightarrow> open_session sv wr True r')"
proof -
  obtain exited out d where sp: "(case rc_stops r of [] \<Rightarrow> (False, StopKilled None, None) | x # _ \<Rightarrow> x) = (exited, out, d)"
    by (metis surj_pair)
  define before where "before = (if exited then [AExit] else [])"
  obtain sv0 se0 where b: "foldl session_act (rc_sv r, rc_se r) before = (sv0, se0)" by fastforce
  have s0: "se_wasRunning se0 = se_wasRunning (rc_se r)" "se_keepStopped se0 = se_keepStopped (rc_se r)"
    using b by (auto simp: before_def split: if_splits option.splits)
  obtain e sv1 se1 where st: "session_Stop sv0 se0 out d = (e, sv1, se1)" by (metis surj_pair)
  have r': "r' = r\<lparr>rc_sv := sv1, rc_se := se1, rc_acts := rc_acts r @ before @ [AStop out d], rc_stops := tl (rc_stops r)\<rparr>" "s' = s"
    "x = (case e of None \<Rightarrow> Inr () | Some x \<Rightarrow> Inl x)"
    using assms(2) st b by (auto simp: update_Stop_def sp before_def Let_def)
  have "acted sv wr r'"
    by (rule acted_more [of sv wr r "before @ [AStop out d]" sv1 se1])
      (use st b s0 session_Stop_frame [OF st] assms(1) r' in \<open>simp_all add: open_session_def acted_def\<close>)
  then show ?thesis using r' session_Stop_frame [OF st] s0 assms(1)
    by (auto simp: open_session_def split: option.splits)
qed

lemma Keep_settles:
  assumes "open_session sv wr True r" "\<not> wr" "update_KeepStopped (s, r) = (x, (s', r'))"
  shows "s' = s \<and> rc_manager r' = rc_manager r \<and> x = Inr () \<and> settled sv wr r'"
  using assms by (auto simp: update_KeepStopped_def open_session_def settled_def acted_def)

lemma restart_settles:
  assumes "open_session sv wr True r" "restart_old (s, r) = (x, (s', r'))"
  shows "s' = s \<and> rc_manager r' = rc_manager r \<and> (x = Inr () \<longrightarrow> settled sv wr r')"
proof (cases wr)
  case True
  then have u: "update_Start (s, r) = (x, (s', r'))" "acted sv wr r" "\<not> se_keepStopped (rc_se r)"
    using assms by (auto simp: restart_old_def with_session_def open_session_def acted_def)
  from Start_settles [OF u(2,3,1)] show ?thesis by simp
next
  case False
  then have u: "update_KeepStopped (s, r) = (x, (s', r'))"
    using assms by (auto simp: restart_old_def with_session_def open_session_def acted_def)
  from Keep_settles [OF assms(1) False u] show ?thesis by simp
qed

text \<open>What the supervisor makes of the work.\<close>

lemma performUpdate_settled:
  assumes "settled sv wr r" "performUpdate sv \<lparr>uw_actions = rc_acts r, uw_err = err, uw_stop = stop, uw_descendants = d\<rparr> wr = (e, sv')"
  shows "sv_blocked sv' \<or> (e = err \<and> sv_pending sv' = se_process (rc_se r))"
proof -
  have f: "foldl session_act (sv, \<lparr>se_process = None, se_wasRunning = wr, se_healthy = False, se_keepStopped = False\<rparr>) (rc_acts r) = (rc_sv r, rc_se r)"
    using assms(1) by (simp add: settled_def acted_def fresh_session_def)
  show ?thesis using assms unfolding performUpdate_def
    by (auto simp: f Let_def settled_def observe_def split: prod.splits if_splits)
qed

lemma performUpdate_degraded:
  assumes "maintenanceDegraded err" "performUpdate sv \<lparr>uw_actions = as, uw_err = err, uw_stop = stop, uw_descendants = d\<rparr> wr = (e, sv')"
  shows "sv_blocked sv'"
  using assms by (auto simp: performUpdate_def Let_def observe_def split: prod.splits)

section \<open>The manager\<close>

definition chosen :: "core_selection \<Rightarrow> settings \<Rightarrow> settings" where
  "chosen sel s = s\<lparr>CoreChannel := cs_Channel sel, CoreChannelBundle := cs_Bundle sel\<rparr>"

text \<open>The settings file holds the encoding of these settings.\<close>

definition file_holds :: "manager_env \<Rightarrow> settings \<Rightarrow> 'p manager \<Rightarrow> bool" where
  "file_holds env s m \<longleftrightarrow> file_agrees env (m\<lparr>mg_settings := s\<rparr>)"

lemma file_holds_agrees: "file_agrees env m \<longleftrightarrow> file_holds env (mg_settings m) m"
  by (simp add: file_holds_def)

lemma file_holds_cong: "mg_fs m' = mg_fs m \<Longrightarrow> file_holds env s m' = file_holds env s m"
  by (simp add: file_holds_def file_agrees_def split: option.splits sum.splits)

lemma prepare_result:
  "prepareSettings env (select_core sel) m = (r, m') \<Longrightarrow> m' = m \<and> (\<forall>cand. r = Inr cand \<longrightarrow>
     sc_after cand = chosen sel (mg_settings m) \<and> (sc_changed cand \<longleftrightarrow> mg_settings m \<noteq> chosen sel (mg_settings m)))"
  by (auto simp: prepareSettings_def select_core_def configInputs_def chosen_def Let_def split: option.splits)

lemma lockMaintenance_only:
  "lockMaintenance c m = (r, m') \<Longrightarrow> settings_only m m' \<and> mg_settings m' = mg_settings m \<and> mg_fs m' = mg_fs m"
  unfolding lockMaintenance_def by (auto simp: guardE_eq elim!: bindE_cases dest!: ctxErr_only)

lemma saveCoreSelection_result:
  assumes "saveCoreSelection env c sel m = (r, m')"
  shows "mg_settings m' = mg_settings m \<and> mg_coreRecovery m' = mg_coreRecovery m \<and>
    (r = Inr () \<longrightarrow> file_holds env (chosen sel (mg_settings m)) m')"
  using assms unfolding saveCoreSelection_def
proof (cases rule: bindE_cases)
  case (stop e)
  then show ?thesis using lock_only [OF stop(1)] settings_only_keeps(3) [of m m'] by auto
next
  case (go x m1)
  have l: "settings_only m m1" "mg_settings m1 = mg_settings m" using lock_only [OF go(1)] by auto
  from go(2) show ?thesis
  proof (cases rule: bindE_cases)
    case (stop e)
    then show ?thesis using prepare_result [OF stop(1)] l settings_only_keeps(3) [OF l(1)] by auto
  next
    case (go cand m2)
    have c: "m2 = m1" "sc_after cand = chosen sel (mg_settings m)" using prepare_result [OF go(1)] l by auto
    obtain r1 e m3 where sv: "saveSettingsCandidate env (cand\<lparr>sc_changed := True\<rparr>) m1 = ((r1, e), m3)" by (metis surj_pair)
    have out: "m' = m3" "r = Inr () \<longleftrightarrow> e = None" using go(2) sv c(1) by (auto split: option.splits)
    show ?thesis
    proof (cases "me_path env")
      case None
      then have "m3 = m1" using save_no_path [OF None, of "cand\<lparr>sc_changed := True\<rparr>" m1] sv by simp
      then show ?thesis using None out l settings_only_keeps(3) [OF l(1)] by (simp add: file_holds_def file_agrees_def)
    next
      case (Some db)
      then obtain d b where db: "me_path env = Some (d, b)" by (cases db) auto
      note s = save_result [OF sv db]
      have "settings_only m m3" using s settings_only_trans [OF l(1)] by blast
      then show ?thesis using s out l c settings_only_keeps(3) [of m m3] db
        by (auto simp: file_holds_def file_agrees_def)
    qed
  qed
qed

lemma updateState_result:
  "updateStateLocked meta (\<lambda>s. (f s, None)) m = (r, m') \<Longrightarrow> IfRevision meta = None \<Longrightarrow>
    mg_settings m' = mg_settings m \<and> mg_fs m' = mg_fs m \<and> Core (mg_snapshot m') = Core (f (mg_snapshot m))"
  by (auto simp: updateStateLocked_def coordinator_Do_def apply_mutation_def Let_def split: prod.splits option.splits if_splits)

text \<open>The selection is what the settings in memory and on disk and the state say.\<close>

definition recorded :: "manager_env \<Rightarrow> core_selection \<Rightarrow> settings \<Rightarrow> 'p manager \<Rightarrow> bool" where
  "recorded env sel s m \<longleftrightarrow> mg_settings m = chosen sel s \<and> file_agrees env m \<and> core_Version (Core (mg_snapshot m)) = cs_Version sel"

definition saved :: "manager_env \<Rightarrow> core_selection \<Rightarrow> settings \<Rightarrow> 'p manager \<Rightarrow> bool" where
  "saved env sel s m \<longleftrightarrow> mg_settings m = s \<and> file_holds env (chosen sel s) m"

lemma selected_version [simp]: "core_Version (Core (selected_snapshot sel pid t d s)) = cs_Version sel"
  by (simp add: selected_snapshot_def Let_def)

lemma publishCoreSelection_result:
  assumes "saved env sel s m" "publishCoreSelection env c sel pid t m = (Inr u, m')"
  shows "recorded env sel s m'"
proof -
  from assms(2) obtain m1 cand m2 v where l: "lockMaintenance c m = (Inr (), m1)" and
    p: "prepareSettings env (select_core sel) m1 = (Inr cand, m2)" and
    w: "updateStateLocked core_update_meta (\<lambda>s. (selected_snapshot sel pid t (mg_mutationDegraded (publishSettings cand m2)) s, None))
      (publishSettings cand m2) = (Inr v, m')"
    unfolding publishCoreSelection_def Let_def bindE_Inr by (auto simp: ret_def)
  have m1: "mg_settings m1 = s" "mg_fs m1 = mg_fs m" using lockMaintenance_only [OF l] assms(1) by (auto simp: saved_def)
  have c: "m2 = m1" "sc_after cand = chosen sel s" "sc_changed cand \<longleftrightarrow> s \<noteq> chosen sel s" using prepare_result [OF p] m1 by auto
  have m3: "mg_settings (publishSettings cand m2) = chosen sel s" "mg_fs (publishSettings cand m2) = mg_fs m"
    using c m1 by (auto simp: publishSettings_def)
  note u = updateState_result [OF w]
  have m': "mg_settings m' = chosen sel s" "mg_fs m' = mg_fs m" "core_Version (Core (mg_snapshot m')) = cs_Version sel"
    using u m3 by (simp_all add: core_update_meta_def)
  then show ?thesis using assms(1) file_holds_cong [of m' m] by (simp add: recorded_def saved_def file_holds_agrees)
qed

text \<open>The proxy operation changes neither settings nor state.\<close>

definition records :: "'p manager \<Rightarrow> settings \<times> fs \<times> value_snapshot" where
  "records m = (mg_settings m, mg_fs m, mg_snapshot m)"

definition records_kept :: "('a, 'p manager) io \<Rightarrow> bool" where
  "records_kept act \<longleftrightarrow> (\<forall>m x m'. act m = (x, m') \<longrightarrow> records m' = records m)"

lemma records_keptD: "records_kept act \<Longrightarrow> act m = (x, m') \<Longrightarrow> records m' = records m"
  unfolding records_kept_def by blast

lemma records_bind: "records_kept m \<Longrightarrow> (\<And>y. records_kept (f y)) \<Longrightarrow> records_kept (bindE m f)"
  unfolding records_kept_def by (intro allI impI, erule bindE_cases) metis+

lemma records_only: "settings_only m m' \<Longrightarrow> mg_settings m' = mg_settings m \<Longrightarrow> mg_fs m' = mg_fs m \<Longrightarrow> records m' = records m"
  using settings_only_keeps(1) by (simp add: records_def)

lemma records_basic: "records_kept (ret x)" "records_kept (throw e)" "records_kept (lockMaintenance c)" "records_kept (ctxErr c)"
  "records_kept (proxy_Get b)" "records_kept (proxy_Enable b h p)" "records_kept (proxy_Disable b)"
  unfolding records_kept_def
  by (auto simp: ret_def throw_def proxy_Get_def proxy_Enable_def proxy_Disable_def os_call_def records_def [symmetric]
      dest!: lockMaintenance_only ctxErr_only intro: records_only split: prod.splits option.splits)
    (simp_all add: records_def)

lemma records_mapE: "records_kept m \<Longrightarrow> records_kept (mapE f m)"
  unfolding records_kept_def mapE_def by (auto split: prod.splits sum.splits)

lemma records_if: "records_kept m \<Longrightarrow> records_kept m' \<Longrightarrow> records_kept (if b then m else m')"
  by simp

lemma apply_proxy_keeps: "records_kept (ApplyDesiredSystemProxy parse bk c)"
proof (cases bk)
  case (Some b)
  have d: "records_kept (bindE (disable_owned w b t) (\<lambda>_. ret ()))" for w t
    unfolding disable_owned_def by (intro records_bind records_mapE records_basic records_if)
  have e: "records_kept (mapE f (proxy_Enable b h p))" for f h p by (intro records_mapE records_basic)
  have "records_kept (\<lambda>m. (case resolveSystemProxyTarget parse (MixedAddr (settingsSnapshot m)) of
           Inl e \<Rightarrow> (Inl e, m)
         | Inr (target, host, port) \<Rightarrow>
             if SystemProxyDesired (settingsSnapshot m)
             then mapE (proxy_failed ''apply desired'') (proxy_Enable b host port) m
             else bindE (disable_owned ''apply desired'' b target) (\<lambda>_. ret ()) m))"
    unfolding records_kept_def
    by (auto split: sum.splits if_splits dest: records_keptD [OF d] records_keptD [OF e])
  then show ?thesis unfolding ApplyDesiredSystemProxy_def Some option.case by (intro records_bind records_basic)
qed (simp add: ApplyDesiredSystemProxy_def records_basic)

lemma recorded_cong: "records m' = records m \<Longrightarrow> recorded env sel s m' = recorded env sel s m"
  by (simp add: recorded_def records_def file_agrees_def split: option.splits sum.splits)

section \<open>Ways out\<close>

abbreviation doubtful :: "go_error \<Rightarrow> bool" where
  "doubtful e \<equiv> maintenanceDegraded (Some e)"

lemma block_fails: "blockCoreUpdate c cause m = (r, m') \<Longrightarrow> \<exists>e. r = Inl e \<and> doubtful e"
  by (auto simp: blockCoreUpdate_def Let_def maintenanceDegraded_def degraded_def split: prod.splits sum.splits)

lemma block_work_fails: "\<exists>e w'. on_manager (blockCoreUpdate c cause) w = (Inl e, w') \<and> doubtful e"
  by (cases w) (auto simp: on_manager_def dest: block_fails split: prod.splits)

lemma block_work_result: "on_manager (blockCoreUpdate c cause) w = (r, w') \<Longrightarrow> \<exists>e. r = Inl e \<and> doubtful e"
  by (cases w) (auto simp: on_manager_def dest: block_fails split: prod.splits)

lemma block_update_fails: "\<exists>e x'. block_update c cause x = (Inl e, x') \<and> doubtful e"
  by (cases x) (auto simp: block_update_def lift_def on_manager_def dest: block_fails split: prod.splits)

lemma require_fails: "\<exists>e x'. require_and_block st cd c cause x = (Inl e, x') \<and> doubtful e"
proof -
  obtain r x1 where r: "RequireRecovery (beside st) cd cause x = (r, x1)" by (metis surj_pair)
  then obtain e where "r = Inl e" by (cases r) (auto simp: RequireRecovery_def recoveryFailure_def split: prod.splits if_splits)
  then show ?thesis using block_update_fails [of c e x1] r by (simp add: require_and_block_def catchE_def)
qed

lemma block_exits: "exits P (block_update c cause) Q (\<lambda>e x. doubtful e \<or> E x)"
  by (rule exits_any [OF block_update_fails])

lemma block_work_exits: "exits P (on_manager (blockCoreUpdate c cause)) Q (\<lambda>e x. doubtful e \<or> E x)"
  by (rule exits_any [OF block_work_fails])

lemma require_exits: "exits P (require_and_block st cd c cause) Q (\<lambda>e x. doubtful e \<or> E x)"
  by (rule exits_any [OF require_fails])

section \<open>Conditions during an update\<close>

abbreviation files :: "store_cfg \<Rightarrow> update_codec \<Rightarrow> update_journal \<Rightarrow> (utx \<Rightarrow> slots \<Rightarrow> bool) \<Rightarrow> utx \<times> cworld \<times> 'r \<Rightarrow> bool" where
  "files cfg cd b \<equiv> state (beside (fileUpdateStore cfg)) cd (\<lambda>w. file_inv (fst w)) (\<lambda>w. file_slots cfg (fst w)) (\<lambda>w. file_past cfg (fst w)) b UNIV"

definition in_update ::
  "store_cfg \<Rightarrow> update_codec \<Rightarrow> update_journal \<Rightarrow> (utx \<Rightarrow> slots \<Rightarrow> bool) \<Rightarrow> ('r \<Rightarrow> bool) \<Rightarrow> utx \<times> cworld \<times> 'r \<Rightarrow> bool" where
  "in_update cfg cd b F R x \<longleftrightarrow> files cfg cd b F x \<and> R (rest x)"

lemma in_update_mono:
  "in_update cfg cd b F R x \<Longrightarrow> (\<And>u s. F u s \<Longrightarrow> F' u s) \<Longrightarrow> (\<And>r. R r \<Longrightarrow> R' r) \<Longrightarrow> in_update cfg cd b F' R' x"
  by (simp add: in_update_def state_def)

abbreviation anything :: "utx \<Rightarrow> slots \<Rightarrow> bool" where
  "anything \<equiv> \<lambda>_ _. True"

text \<open>An operation of the transaction with its effect on the rest.\<close>

lemma step_with_rest:
  assumes "triple (files cfg cd b F) m (\<lambda>_. files cfg cd b G) (core_files.safe cfg cd b UNIV)"
    "triple (\<lambda>x. P x \<and> R (rest x)) m (\<lambda>_ x. Q (rest x)) (\<lambda>x. E (rest x))" "\<And>x. files cfg cd b F x \<Longrightarrow> P x"
  shows "triple (in_update cfg cd b F R) m (\<lambda>_. in_update cfg cd b G Q) (in_update cfg cd b anything E)"
  by (rule triple_post [OF triple_pre [OF triple_both [OF assms(1,2)]]])
    (auto simp: in_update_def core_files.safe_holds assms(3))

lemma step_frame:
  assumes "triple (files cfg cd b F) m (\<lambda>_. files cfg cd b G) (core_files.safe cfg cd b UNIV)" "frame m"
  shows "triple (in_update cfg cd b F R) m (\<lambda>_. in_update cfg cd b G R) (in_update cfg cd b anything R)"
  by (rule step_with_rest [OF assms(1), where P = "\<lambda>_. True"])
    (use frame_rest [OF assms(2), of R] in \<open>simp_all add: rest_triple_def\<close>)

text \<open>An operation on the rest.\<close>

lemma step_aside:
  assumes "\<And>s r x s' r'. R r \<Longrightarrow> m (s, r) = (x, (s', r')) \<Longrightarrow> s' = s \<and> (case x of Inr _ \<Rightarrow> Q r' | Inl _ \<Rightarrow> E r')"
  shows "triple (in_update cfg cd b F R) (lift m) (\<lambda>_. in_update cfg cd b F Q) (in_update cfg cd b F E)"
proof -
  have "in_update cfg cd b F (case y of Inr _ \<Rightarrow> Q | Inl _ \<Rightarrow> E) x'" if i: "in_update cfg cd b F R x" and l: "lift m x = (y, x')" for x y x'
  proof -
    obtain u s r where x: "x = (u, (s, r))" by (metis surj_pair)
    obtain u' s' r' where x': "x' = (u', (s', r'))" by (metis surj_pair)
    have m: "m (s, r) = (y, (s', r'))" "u' = u" using l by (auto simp: x x' lift_def split: prod.splits)
    have "s' = s \<and> (case y of Inr _ \<Rightarrow> Q r' | Inl _ \<Rightarrow> E r')" using assms [OF _ m(1)] i by (simp add: in_update_def x)
    then show ?thesis using i m(2) by (auto simp: in_update_def state_def tx_inv_def x x' split: sum.splits)
  qed
  then show ?thesis by (intro tripleI) fastforce+
qed

text \<open>The intent that an update begins with.\<close>

lemma begin_intent:
  assumes "BeginUpdate (Some st) cd c tx expected intent w = (Inr u, w')"
  shows "ui_Next (uj_Intent (ut_journal u)) = ui_Next intent \<and> ui_Previous (uj_Intent (ut_journal u)) = ui_Previous intent \<and>
    (ui_WasRunning intent \<longrightarrow> ui_StartNew (uj_Intent (ut_journal u)))"
proof -
  from assms obtain w4 w5 prev i2 pending where
    rt: "retire_previous st cd c prev intent False w4 = (Inr (i2, pending), w5)" and
    sn: "snapshot_core st cd c tx expected i2 False pending w5 = (Inr u, w')"
    unfolding BeginUpdate_def beginUpdate_def option.case bindE_Inr by auto
  have "i2 = intent" using rt by (cases prev) (auto simp: retire_previous_def bindE_Inr ret_def)
  moreover obtain j w6 where "running (new_utx j) (writePhase st cd c ''prepared'') w6 = (Inr u, w')"
    "uj_Intent j = i2\<lparr>ui_Reinstall := False, ui_StartNew := ui_WasRunning i2 \<or> ui_StartNew (uj_Intent j)\<rparr>"
    using sn unfolding snapshot_core_def Let_def bindE_Inr by (fastforce split: prod.splits)
  moreover have "uj_Intent (ut_journal u) = uj_Intent j"
    using calculation(2) by (auto simp: running_def writePhase_def new_utx_def Let_def split: if_splits sum.splits prod.splits)
  ultimately show ?thesis by (metis update_intent.select_convs update_intent.surjective update_intent.update_convs)
qed

section \<open>The callbacks\<close>

lemma frame_to: "frame m \<Longrightarrow> (\<And>r. R r \<Longrightarrow> E r) \<Longrightarrow> rest_triple R m R E"
  by (rule rest_weaken [OF frame_rest])

lemma rest_utx:
  assumes "\<And>u. P u \<Longrightarrow> rest_triple R (f u) Q E"
  shows "triple (\<lambda>x. P (fst x) \<and> R (rest x)) (with_utx f) (\<lambda>_ x. Q (rest x)) (\<lambda>x. E (rest x))"
proof (rule triple_with_utx)
  fix u
  show "triple (\<lambda>x. fst x = u \<and> P (fst x) \<and> R (rest x)) (f u) (\<lambda>_ x. Q (rest x)) (\<lambda>x. E (rest x))"
    by (cases "P u") (use assms [of u] in \<open>auto simp: rest_triple_def triple_def\<close>)
qed

lemma Commit_rest:
  assumes "rest_triple R (lift (cb sel)) Q E" "\<And>r. R r \<Longrightarrow> E r" "\<And>r. Q r \<Longrightarrow> E r"
  shows "triple (\<lambda>x. ui_Next (uj_Intent (ut_journal (fst x))) = sel \<and> R (rest x)) (Commit (beside st) cd c (Some cb)) (\<lambda>_ x. Q (rest x)) (\<lambda>x. E (rest x))"
  unfolding Commit_def Let_def option.case beside_methods
proof (rule rest_utx [where P = "\<lambda>u. ui_Next (uj_Intent (ut_journal u)) = sel"])
  fix u assume "ui_Next (uj_Intent (ut_journal u)) = sel"
  then have cb: "rest_triple R (lift (cb (ui_Next (uj_Intent (ut_journal u))))) Q E" using assms(1) by simp
  show "rest_triple R (bindE (guardE (uj_Phase (ut_journal u) = ''verifying'') (dataFailure ''core update has not been verified'')) (\<lambda>_.
       bindE (verifyMarker (beside st) c) (\<lambda>_.
       bindE (lift (on_store (ps_Inspect st c InstalledBinary []))) (\<lambda>current.
       bindE (guardE (sameObject current (uj_New (ut_journal u))) (dataFailure ''published core changed before commit'')) (\<lambda>_.
       bindE (writePhase (beside st) cd c ''committing'') (\<lambda>_.
       bindE (lift (cb (ui_Next (uj_Intent (ut_journal u))))) (\<lambda>_.
       writePhase (beside st) cd c ''committed''))))))) Q E"
    by (intro rest_bind [OF frame_to [OF frame_basic(3)]] rest_bind [OF frame_to [OF frame_marker]] rest_bind [OF frame_to [OF frame_store]]
        rest_bind [OF frame_to [OF frame_writePhase]] rest_bind [OF cb] frame_to [OF frame_writePhase] assms(2,3))
qed

lemma or_recovery_rest:
  assumes "rest_triple R m Q E"
  shows "rest_triple R (or_recovery (beside st) cd m) Q E"
  unfolding rest_triple_def
proof (rule tripleI)
  fix x y x' assume x: "R (rest x)" and o: "or_recovery (beside st) cd m x = (Inr y, x')"
  then have "m x = (Inr y, x')"
    by (auto simp: or_recovery_def recoveryFailure_def split: prod.splits sum.splits if_splits)
  then show "Q (rest x')" using tripleD(1) [OF assms [unfolded rest_triple_def] x] by blast
next
  fix x e x' assume x: "R (rest x)" and o: "or_recovery (beside st) cd m x = (Inl e, x')"
  obtain r1 x1 where m: "m x = (r1, x1)" by (metis surj_pair)
  have r: "rest x' = rest x1" using o m by (cases r1) (simp_all add: or_recovery_def frameD [OF frame_recovery])
  obtain e1 where e1: "r1 = Inl e1" using o m by (cases r1) (simp_all add: or_recovery_def)
  have "E (rest x1)" using tripleD(2) [OF assms [unfolded rest_triple_def] x m [unfolded e1]] .
  then show "E (rest x')" using r by simp
qed

lemma Rollback_rest:
  assumes "rest_triple R (lift (cb sel)) Q E" "\<And>r. R r \<Longrightarrow> E r" "\<And>r. Q r \<Longrightarrow> E r"
  shows "triple (\<lambda>x. ui_Previous (uj_Intent (ut_journal (fst x))) = sel \<and> R (rest x)) (Rollback (beside st) cd c (Some cb)) (\<lambda>_ x. Q (rest x)) (\<lambda>x. E (rest x))"
  unfolding Rollback_def Let_def option.case beside_methods
proof (rule rest_utx [where P = "\<lambda>u. ui_Previous (uj_Intent (ut_journal u)) = sel"])
  fix u assume "ui_Previous (uj_Intent (ut_journal u)) = sel"
  then have cb: "rest_triple R (lift (cb (ui_Previous (uj_Intent (ut_journal u))))) Q E" using assms(1) by simp
  have r: "frame (restore_old (beside st) cd c)" unfolding restore_old_def Let_def beside_methods
    by (intro frame_utx frame_bind frame_store) (auto intro: frame_basic frame_move)
  show "rest_triple R (bindE (guardE (uj_Phase (ut_journal u) \<noteq> ''committed'' \<and> \<not> ui_Reinstall (uj_Intent (ut_journal u))) (dataFailure ''core update cannot be rolled back'')) (\<lambda>_.
       bindE (guardE (\<not> ut_uncertain u) (coreUpdateUncertain None)) (\<lambda>_.
       bindE (lift (on_store (ps_acquire st c))) (\<lambda>_.
       or_recovery (beside st) cd (
         bindE (verifyMarker (beside st) c) (\<lambda>_.
         bindE (writePhase (beside st) cd c ''rolling_back'') (\<lambda>_.
         bindE (restore_old (beside st) cd c) (\<lambda>_.
         bindE (lift (cb (ui_Previous (uj_Intent (ut_journal u))))) (\<lambda>_.
         bindE (lift (on_store (ps_Inspect st c InstalledBinary []))) (\<lambda>current.
         lift (on_store (ps_acceptPublished st current)))))))))))) Q E"
    by (intro rest_bind [OF frame_to [OF frame_basic(3)]] rest_bind [OF frame_to [OF frame_marker]] rest_bind [OF frame_to [OF frame_store]]
        rest_bind [OF frame_to [OF frame_writePhase]] rest_bind [OF frame_to [OF r]] or_recovery_rest rest_bind [OF cb]
        frame_to [OF frame_store] assms(2,3))
qed

section \<open>An update from beginning to end\<close>

text \<open>The states between the steps: the manager with the settings \<open>s0\<close> it began with.\<close>

definition ready :: "supervisor \<Rightarrow> bool \<Rightarrow> settings \<Rightarrow> 'q runtime_core \<Rightarrow> bool" where
  "ready sv wr s0 r \<longleftrightarrow> acted sv wr r \<and> se_process (rc_se r) = None \<and> \<not> se_keepStopped (rc_se r) \<and> mg_settings (rc_manager r) = s0"

definition tried :: "supervisor \<Rightarrow> bool \<Rightarrow> settings \<Rightarrow> 'q runtime_core \<Rightarrow> bool" where
  "tried sv wr s0 r \<longleftrightarrow> open_session sv wr False r \<and> mg_settings (rc_manager r) = s0"

definition stopped :: "supervisor \<Rightarrow> bool \<Rightarrow> settings \<Rightarrow> 'q runtime_core \<Rightarrow> bool" where
  "stopped sv wr s0 r \<longleftrightarrow> open_session sv wr True r \<and> mg_settings (rc_manager r) = s0"

definition settled_with :: "supervisor \<Rightarrow> bool \<Rightarrow> ('q proxy_manager \<Rightarrow> bool) \<Rightarrow> 'q runtime_core \<Rightarrow> bool" where
  "settled_with sv wr M r \<longleftrightarrow> settled sv wr r \<and> M (rc_manager r)"

lemma settled_tried: "settled sv wr r \<Longrightarrow> mg_settings (rc_manager r) = s0 \<Longrightarrow> tried sv wr s0 r"
  by (auto simp: settled_def tried_def open_session_def split: if_splits)

lemma ready_tried: "ready sv wr s0 r \<Longrightarrow> tried sv wr s0 r"
  by (auto simp: ready_def tried_def open_session_def)

lemma settled_manager [simp]: "settled sv wr (r\<lparr>rc_manager := m\<rparr>) = settled sv wr r" "acted sv wr (r\<lparr>rc_manager := m\<rparr>) = acted sv wr r"
  "open_session sv wr i (r\<lparr>rc_manager := m\<rparr>) = open_session sv wr i r"
  by (simp_all add: settled_def acted_def open_session_def)

text \<open>Saving a selection, as a callback of the transaction.\<close>

lemma save_rest:
  assumes "\<And>r m. A (r\<lparr>rc_manager := m\<rparr>) \<longleftrightarrow> A r"
  shows "rest_triple (\<lambda>r. A r \<and> mg_settings (rc_manager r) = s0) (lift (on_manager (saveCoreSelection env c sel)))
    (\<lambda>r. A r \<and> saved env sel s0 (rc_manager r)) (\<lambda>r. A r \<and> mg_settings (rc_manager r) = s0)"
  unfolding rest_triple_def
proof (rule tripleI)
  fix x y x' assume a: "A (rest x) \<and> mg_settings (rc_manager (rest x)) = s0"
    and l: "lift (on_manager (saveCoreSelection env c sel)) x = (Inr y, x')"
  obtain m' where "saveCoreSelection env c sel (rc_manager (rest x)) = (Inr (), m')" "rest x' = (rest x)\<lparr>rc_manager := m'\<rparr>"
    using l by (cases x; cases x') (auto simp: lift_def on_manager_def split: prod.splits)
  then show "A (rest x') \<and> saved env sel s0 (rc_manager (rest x'))"
    using a assms saveCoreSelection_result [of env c sel "rc_manager (rest x)" "Inr ()" m'] by (simp add: saved_def)
next
  fix x e x' assume a: "A (rest x) \<and> mg_settings (rc_manager (rest x)) = s0"
    and l: "lift (on_manager (saveCoreSelection env c sel)) x = (Inl e, x')"
  obtain m' where "saveCoreSelection env c sel (rc_manager (rest x)) = (Inl e, m')" "rest x' = (rest x)\<lparr>rc_manager := m'\<rparr>"
    using l by (cases x; cases x') (auto simp: lift_def on_manager_def split: prod.splits)
  then show "A (rest x') \<and> mg_settings (rc_manager (rest x')) = s0"
    using a assms saveCoreSelection_result [of env c sel "rc_manager (rest x)" "Inl e" m'] by simp
qed

lemma on_manager_quiet: "core_files.quiet_callback cfg (Some (\<lambda>sel. on_manager (f sel)))"
  unfolding core_files.quiet_callback_def by (auto simp: goes_def on_manager_def split: prod.splits)

lemma publish_step:
  "triple (in_update cfg cd b F (settled_with sv wr (saved (ce_settings ce) sel s0))) (publish_selection ce c sel)
    (\<lambda>_. in_update cfg cd b F (settled_with sv wr (recorded (ce_settings ce) sel s0))) (\<lambda>_. True)"
  unfolding publish_selection_def
  by (rule triple_post [OF step_aside [where E = "\<lambda>_. True"]])
    (auto simp: settled_with_def with_session_def on_manager_def dest: publishCoreSelection_result split: prod.splits sum.splits)

definition intends :: "core_selection \<Rightarrow> core_selection \<Rightarrow> bool \<Rightarrow> update_journal \<Rightarrow> bool" where
  "intends previous next wr b \<longleftrightarrow> ui_Previous (uj_Intent b) = previous \<and> ui_Next (uj_Intent b) = next \<and> (wr \<longrightarrow> ui_StartNew (uj_Intent b))"

lemma files_intent: "files cfg cd b F x \<Longrightarrow> uj_Intent (ut_journal (fst x)) = uj_Intent b"
  by (cases x) (auto simp: state_def tx_inv_def)

definition new_installed :: "store_cfg \<Rightarrow> update_journal \<Rightarrow> utx \<Rightarrow> slots \<Rightarrow> bool" where
  "new_installed cfg b u s \<longleftrightarrow> sameObject (at_core (fileUpdateStore cfg) s) (uj_New b)"

definition old_installed :: "store_cfg \<Rightarrow> update_journal \<Rightarrow> utx \<Rightarrow> slots \<Rightarrow> bool" where
  "old_installed cfg b u s \<longleftrightarrow> old_core b (at_core (fileUpdateStore cfg) s)"

lemma at_core_beside [simp]: "at_core (beside st) = at_core st"
  by (rule ext) (simp add: at_core_def)

lemma faithful_beside: "faithful st cd b \<Longrightarrow> faithful (beside st) cd b"
  unfolding faithful_def beside_methods .

lemma trial_step:
  assumes "faithful (fileUpdateStore cfg) cd b" "intends previous next wr b"
  shows "triple (in_update cfg cd b anything (ready sv wr s0)) (update_trial ce (fileUpdateStore cfg) cd c)
    (\<lambda>_. in_update cfg cd b (new_installed cfg b) (settled_with sv wr (saved (ce_settings ce) next s0)))
    (in_update cfg cd b anything (tried sv wr s0))"
proof -
  let ?J = "\<lambda>m. mg_settings m = s0"
  have p: "triple (in_update cfg cd b anything (ready sv wr s0)) (Publish (beside (fileUpdateStore cfg)) cd True)
      (\<lambda>_. in_update cfg cd b anything (ready sv wr s0)) (in_update cfg cd b anything (tried sv wr s0))"
    by (rule triple_post [OF step_frame [OF core_files.Publish_triple [OF faithful_beside [OF assms(1)]] frame_Publish]])
      (auto elim: in_update_mono dest: ready_tried)
  have go: "triple (in_update cfg cd b anything (ready sv wr s0)) (lift (if ui_StartNew (uj_Intent b) then update_Start else update_KeepStopped))
      (\<lambda>_. in_update cfg cd b anything (settled_with sv wr ?J)) (in_update cfg cd b anything (tried sv wr s0))"
  proof (rule step_aside)
    fix s r x s' r' assume r: "ready sv wr s0 r"
      and m: "(if ui_StartNew (uj_Intent b) then update_Start else update_KeepStopped) (s, r) = (x, (s', r'))"
    show "s' = s \<and> (case x of Inr _ \<Rightarrow> settled_with sv wr ?J r' | Inl _ \<Rightarrow> tried sv wr s0 r')"
    proof (cases "ui_StartNew (uj_Intent b)")
      case True
      then show ?thesis using Start_settles [of sv wr r s x s' r'] m r
        by (auto simp: ready_def settled_with_def tried_def open_session_def split: sum.splits)
    next
      case False
      then have "\<not> wr" using assms(2) by (auto simp: intends_def)
      moreover have "open_session sv wr True r" using r by (simp add: ready_def open_session_def)
      ultimately show ?thesis using Keep_settles [of sv wr r s x s' r'] m r False by (auto simp: ready_def settled_with_def)
    qed
  qed
  have st: "triple (in_update cfg cd b anything (ready sv wr s0))
      (with_utx (\<lambda>u. lift (if ui_StartNew (uj_Intent (ut_journal u)) then update_Start else update_KeepStopped)))
      (\<lambda>_. in_update cfg cd b anything (settled_with sv wr ?J)) (in_update cfg cd b anything (tried sv wr s0))"
  proof (rule triple_with_utx)
    fix u show "triple (\<lambda>x. fst x = u \<and> in_update cfg cd b anything (ready sv wr s0) x)
      (lift (if ui_StartNew (uj_Intent (ut_journal u)) then update_Start else update_KeepStopped))
      (\<lambda>_. in_update cfg cd b anything (settled_with sv wr ?J)) (in_update cfg cd b anything (tried sv wr s0))"
    proof (cases "uj_Intent (ut_journal u) = uj_Intent b")
      case True
      show ?thesis unfolding True by (rule triple_pre [OF go]) simp
    next
      case False
      show ?thesis by (rule triple_never) (metis False files_intent in_update_def)
    qed
  qed
  have cb: "rest_triple (settled_with sv wr ?J) (lift (on_manager (saveCoreSelection (ce_settings ce) c next)))
      (settled_with sv wr (saved (ce_settings ce) next s0)) (tried sv wr s0)"
    by (rule rest_weaken [OF save_rest [where A = "settled sv wr"]]) (auto simp: settled_with_def settled_tried)
  have cm: "triple (in_update cfg cd b anything (settled_with sv wr ?J))
      (Commit (beside (fileUpdateStore cfg)) cd True (Some (\<lambda>sel. on_manager (saveCoreSelection (ce_settings ce) c sel))))
      (\<lambda>_. in_update cfg cd b (new_installed cfg b) (settled_with sv wr (saved (ce_settings ce) next s0)))
      (in_update cfg cd b anything (tried sv wr s0))"
  proof (rule triple_post [OF step_with_rest [OF core_files.Commit_triple [OF faithful_beside [OF assms(1)] on_manager_quiet] Commit_rest [where cb = "\<lambda>sel. on_manager (saveCoreSelection (ce_settings ce) c sel)" and sel = "next", OF cb]]])
    show "ui_Next (uj_Intent (ut_journal (fst x))) = next" if "files cfg cd b anything x" for x
      using files_intent [OF that] assms(2) by (simp add: intends_def)
  qed (auto elim: in_update_mono simp: new_installed_def settled_with_def saved_def settled_tried)
  show ?thesis unfolding update_trial_def by (intro triple_bind [OF p] triple_bind [OF st] cm)
qed


text \<open>Once the journal may be retired, only the installed core matters.\<close>

definition ended :: "store_cfg \<Rightarrow> (reg_file option \<Rightarrow> bool) \<Rightarrow> ('r \<Rightarrow> bool) \<Rightarrow> cworld \<times> 'r \<Rightarrow> bool" where
  "ended cfg I R = (\<lambda>(w, r). file_inv w \<and> I (file_slots cfg w InstalledBinary []) \<and> R r)"

definition is_object :: "store_cfg \<Rightarrow> (prov_object \<Rightarrow> bool) \<Rightarrow> reg_file option \<Rightarrow> bool" where
  "is_object cfg P f \<longleftrightarrow> P (observed (fileUpdateStore cfg) f)"

lemma in_update_ended:
  "in_update cfg cd b (\<lambda>u s. P (at_core (fileUpdateStore cfg) s)) R x \<Longrightarrow> ended cfg (is_object cfg P) R (snd x)"
  by (cases x) (auto simp: in_update_def state_def tx_inv_def ended_def is_object_def at_core_def)

lemma defer_step:
  assumes "\<And>r m. R (r\<lparr>rc_manager := m\<rparr>) \<longleftrightarrow> R r" "\<And>m e. M (warn e m) \<longleftrightarrow> M m"
  shows "triple (\<lambda>x. ended cfg I (\<lambda>r. R r \<and> M (rc_manager r)) (snd x)) (warning_of (DeferCleanup (beside (fileUpdateStore cfg)) cd c))
    (\<lambda>_ x. ended cfg I (\<lambda>r. R r \<and> M (rc_manager r)) (snd x)) (\<lambda>_. False)"
proof -
  have "ended cfg I (\<lambda>r. R r \<and> M (rc_manager r)) (snd x') \<and> y = Inr ()"
    if e: "ended cfg I (\<lambda>r. R r \<and> M (rc_manager r)) (snd x)" and d: "warning_of (DeferCleanup (beside (fileUpdateStore cfg)) cd c) x = (y, x')" for x y x'
  proof -
    obtain u w r where x: "x = (u, (w, r))" by (metis surj_pair)
    obtain z u1 w1 r1 where z: "DeferCleanup (beside (fileUpdateStore cfg)) cd c (u, (w, r)) = (z, (u1, (w1, r1)))" by (metis surj_pair)
    have k: "file_inv w1 \<and> file_slots cfg w1 InstalledBinary [] = file_slots cfg w InstalledBinary []"
      using core_files.tx_keptD [OF core_files.tx_kept_DeferCleanup _ z] e by (simp add: x ended_def)
    have "r1 = r" using frameD [OF frame_defer z] by simp
    then show ?thesis using e d z k assms by (auto simp: x warning_of_def ended_def)
  qed
  then show ?thesis by (intro tripleI) blast+
qed

lemma warn_records [simp]: "records (warn e m) = records m"
  by (simp add: warn_def records_def split: option.splits)

lemma recorded_warn [simp]: "recorded env sel s (warn e m) = recorded env sel s m"
  by (rule recorded_cong) simp

lemma defer_settled:
  "triple (\<lambda>x. ended cfg I (settled_with sv wr (recorded env sel s0)) (snd x)) (warning_of (DeferCleanup (beside (fileUpdateStore cfg)) cd c))
    (\<lambda>_ x. ended cfg I (settled_with sv wr (recorded env sel s0)) (snd x)) (\<lambda>_. False)"
  unfolding settled_with_def [abs_def] by (rule defer_step) simp_all

definition update_undone :: "store_cfg \<Rightarrow> update_journal \<Rightarrow> supervisor \<Rightarrow> bool \<Rightarrow> manager_env \<Rightarrow> core_selection \<Rightarrow> settings \<Rightarrow> cworld \<times> 'q runtime_core \<Rightarrow> bool" where
  "update_undone cfg b sv wr env sel s0 = ended cfg (is_object cfg (old_core b)) (settled_with sv wr (recorded env sel s0))"

lemma undo_step:
  assumes "faithful (fileUpdateStore cfg) cd b" "intends previous next wr b"
    "po_Present (uj_Restore b) = po_Present (uj_Old b)" "\<not> po_Present (uj_Restore b) \<Longrightarrow> uj_Restore b = absent_object"
  shows "exits (in_update cfg cd b anything (tried sv wr s0)) (update_undo ce (fileUpdateStore cfg) cd c previous False e) (\<lambda>_ _. False)
    (\<lambda>e x. doubtful e \<or> update_undone cfg b sv wr (ce_settings ce) previous s0 (snd x))"
proof -
  let ?st = "fileUpdateStore cfg" and ?env = "ce_settings ce"
  have st: "triple (in_update cfg cd b anything (tried sv wr s0)) (lift update_Stop)
      (\<lambda>_. in_update cfg cd b anything (stopped sv wr s0)) (in_update cfg cd b anything (\<lambda>_. True))"
    by (rule step_aside) (auto simp: tried_def stopped_def dest!: Stop_empties split: sum.splits)
  have cb: "rest_triple (stopped sv wr s0) (lift (on_manager (saveCoreSelection ?env c previous)))
      (\<lambda>r. open_session sv wr True r \<and> saved ?env previous s0 (rc_manager r)) (\<lambda>_. True)"
    by (rule rest_weaken [OF save_rest [where A = "open_session sv wr True"]]) (auto simp: stopped_def)
  have rb: "triple (in_update cfg cd b anything (stopped sv wr s0))
      (Rollback (beside ?st) cd True (Some (\<lambda>sel. on_manager (saveCoreSelection ?env c sel))))
      (\<lambda>_. in_update cfg cd b anything (\<lambda>r. open_session sv wr True r \<and> saved ?env previous s0 (rc_manager r))) (in_update cfg cd b anything (\<lambda>_. True))"
  proof (rule triple_post [OF step_with_rest [OF core_files.Rollback_triple [OF faithful_beside [OF assms(1)] on_manager_quiet assms(3,4)] Rollback_rest [where cb = "\<lambda>sel. on_manager (saveCoreSelection ?env c sel)" and sel = previous, OF cb]]])
    show "ui_Previous (uj_Intent (ut_journal (fst x))) = previous" if "files cfg cd b anything x" for x
      using files_intent [OF that] assms(2) by (simp add: intends_def)
  qed (auto elim: in_update_mono)
  have rs: "triple (in_update cfg cd b anything (\<lambda>r. open_session sv wr True r \<and> saved ?env previous s0 (rc_manager r))) (lift restart_old)
      (\<lambda>_. in_update cfg cd b anything (settled_with sv wr (saved ?env previous s0))) (in_update cfg cd b anything (\<lambda>_. True))"
    by (rule step_aside) (auto simp: settled_with_def dest!: restart_settles split: sum.splits)
  have cr: "triple (in_update cfg cd b anything (settled_with sv wr (saved ?env previous s0))) (CompleteRollback (beside ?st) cd True)
      (\<lambda>_. in_update cfg cd b (\<lambda>u s. old_core b (at_core ?st s)) (settled_with sv wr (saved ?env previous s0))) (in_update cfg cd b anything (\<lambda>_. True))"
    by (rule triple_post [OF step_frame [OF core_files.CompleteRollback_triple [OF faithful_beside [OF assms(1)]] frame_CompleteRollback]])
      (auto elim: in_update_mono)
  have df: "triple (in_update cfg cd b (\<lambda>u s. old_core b (at_core ?st s)) (settled_with sv wr (recorded ?env previous s0)))
      (warning_of (DeferCleanup (beside ?st) cd True)) (\<lambda>_ x. update_undone cfg b sv wr ?env previous s0 (snd x)) (\<lambda>_. False)"
    unfolding update_undone_def
    by (rule triple_pre [OF defer_settled]) (rule in_update_ended)
  show ?thesis unfolding update_undo_def if_False
    apply (rule exits_try [OF st]; simp only: sum.case)
     apply (rule require_exits)
    apply (rule exits_try [OF rb]; simp only: sum.case)
     apply (rule block_exits)
    apply (rule exits_try [OF rs]; simp only: sum.case)
     apply (rule require_exits)
    apply (rule exits_try [OF cr]; simp only: sum.case)
     apply (rule block_exits)
    apply (rule exits_try [OF publish_step]; simp only: sum.case)
     apply (rule block_exits)
    apply (rule exits_bind [OF exits_post [OF exits_triple [OF df, where D = "\<lambda>_. False"]]])
      apply assumption
     apply simp
    apply (rule exits_throw, simp)
    done
qed

definition update_accepted :: "store_cfg \<Rightarrow> update_journal \<Rightarrow> supervisor \<Rightarrow> bool \<Rightarrow> manager_env \<Rightarrow> core_selection \<Rightarrow> settings \<Rightarrow> cworld \<times> 'q runtime_core \<Rightarrow> bool" where
  "update_accepted cfg b sv wr env sel s0 = ended cfg (is_object cfg (\<lambda>x. sameObject x (uj_New b))) (settled_with sv wr (recorded env sel s0))"

lemma proxy_settled:
  "triple (\<lambda>x. ended cfg I (settled_with sv wr (recorded env sel s0)) (snd x))
    (warning_of (lift (with_session (\<lambda>r. if g r then on_manager (ApplyDesiredSystemProxy parse bk c) else ret ()))))
    (\<lambda>_ x. ended cfg I (settled_with sv wr (recorded env sel s0)) (snd x)) (\<lambda>_. False)"
proof -
  let ?R = "settled_with sv wr (recorded env sel s0)"
  have "ended cfg I ?R (snd x') \<and> y = Inr ()"
    if e: "ended cfg I ?R (snd x)" and
      d: "warning_of (lift (with_session (\<lambda>r. if g r then on_manager (ApplyDesiredSystemProxy parse bk c) else ret ()))) x = (y, x')" for x y x'
  proof -
    obtain u w r where x: "x = (u, (w, r))" by (metis surj_pair)
    obtain z m where z: "ApplyDesiredSystemProxy parse bk c (rc_manager r) = (z, m)" by fastforce
    have "recorded env sel s0 m = recorded env sel s0 (rc_manager r)"
      by (rule recorded_cong, rule records_keptD [OF apply_proxy_keeps z])
    then show ?thesis using e d z
      by (cases "g r") (auto simp: x warning_of_def lift_def with_session_def on_manager_def ret_def ended_def settled_with_def)
  qed
  then show ?thesis by (intro tripleI) blast+
qed

lemma accept_step:
  "exits (in_update cfg cd b (new_installed cfg b) (settled_with sv wr (saved (ce_settings ce) sel s0)))
    (update_accept ce (fileUpdateStore cfg) cd c sel False)
    (\<lambda>_ x. update_accepted cfg b sv wr (ce_settings ce) sel s0 (snd x)) (\<lambda>e x. doubtful e \<or> False)"
proof -
  let ?env = "ce_settings ce" and ?st = "fileUpdateStore cfg"
  have df: "triple (in_update cfg cd b (new_installed cfg b) (settled_with sv wr (recorded ?env sel s0)))
      (warning_of (DeferCleanup (beside ?st) cd True)) (\<lambda>_ x. update_accepted cfg b sv wr ?env sel s0 (snd x)) (\<lambda>_. False)"
    unfolding update_accepted_def new_installed_def [abs_def] by (rule triple_pre [OF defer_settled]) (rule in_update_ended)
  have px: "triple (\<lambda>x. update_accepted cfg b sv wr ?env sel s0 (snd x)) (with_utx (\<lambda>u. warning_of (lift (with_session (\<lambda>r.
       if \<not> HasPreviousCore u \<and> session_PID ce (rc_se r) \<noteq> 0
       then on_manager (ApplyDesiredSystemProxy (ce_parse ce) (ce_proxy ce) c) else ret ())))))
      (\<lambda>_ x. update_accepted cfg b sv wr ?env sel s0 (snd x)) (\<lambda>_. False)"
    unfolding update_accepted_def by (rule triple_with_utx, rule triple_pre [OF proxy_settled]) simp
  show ?thesis unfolding update_accept_def if_False
    apply (rule exits_try [OF publish_step]; simp only: sum.case)
     apply (rule require_exits)
    apply (rule exits_bind [OF exits_triple [OF df]])
    apply (rule exits_bind [OF exits_triple [OF px]])
    apply (auto simp: exits_def)
    done
qed

text \<open>How the work of an update ends: the new core accepted, or nothing changed, or the update undone, or in doubt.\<close>

definition work_ended ::
  "'q core_env \<Rightarrow> store_cfg \<Rightarrow> supervisor \<Rightarrow> bool \<Rightarrow> core_update \<Rightarrow> reg_file option \<Rightarrow> settings \<Rightarrow> go_error + unit \<Rightarrow> cworld \<times> 'q runtime_core \<Rightarrow> bool" where
  "work_ended ce cfg sv wr cu f s0 res x \<longleftrightarrow>
     (case res of
        Inr _ \<Rightarrow> ended cfg (\<lambda>g. map_option (digest cfg \<circ> rf_content) g = Some (po_SHA256 (cu_binary cu)))
          (settled_with sv wr (recorded (ce_settings ce) (cu_next cu) s0)) x
      | Inl e \<Rightarrow> doubtful e \<or> ended cfg (\<lambda>g. map_option (digest cfg \<circ> rf_content) g = map_option (digest cfg \<circ> rf_content) f)
          (settled_with sv wr (\<lambda>m. file_agrees (ce_settings ce) m \<and> (mg_settings m = s0 \<or> mg_settings m = chosen (cu_previous cu) s0))) x)"

lemma begin_failed_exits:
  assumes "file_inv w" "ready sv wr s0 r" "file_agrees (ce_settings ce) (rc_manager r)"
    "update_begin_failed c False e (w, r) = (res, (w', r'))" "file_slots cfg w InstalledBinary [] = f"
  shows "work_ended ce cfg sv wr cu f s0 res (w', r')"
proof (cases "doubtful e")
  case True
  then show ?thesis using assms(4) by (auto simp: update_begin_failed_def work_ended_def dest: block_work_result)
next
  case False
  have o: "open_session sv wr True r" using assms(2) by (simp add: ready_def open_session_def)
  obtain z w1 r1 where z: "restart_old (w, r) = (z, (w1, r1))" by (metis surj_pair)
  note rs = restart_settles [OF o z]
  show ?thesis
  proof (cases z)
    case (Inl e1)
    then show ?thesis using assms(4) False z
      by (auto simp: update_begin_failed_def work_ended_def bindE_def tryE_def dest: block_work_result)
  next
    case (Inr x)
    then have "res = Inl e" "w' = w" "r' = r1" using assms(4) False z rs by (auto simp: update_begin_failed_def bindE_def tryE_def throw_def)
    then show ?thesis using rs Inr assms(1,2,3,5) by (auto simp: work_ended_def ended_def settled_with_def ready_def)
  qed
qed


lemma ended_mono: "ended cfg I R x \<Longrightarrow> (\<And>g. I g \<Longrightarrow> I' g) \<Longrightarrow> (\<And>r. R r \<Longrightarrow> R' r) \<Longrightarrow> ended cfg I' R' x"
  by (auto simp: ended_def)

lemma accepted_digest:
  assumes "update_accepted cfg b sv wr env sel s0 x" "po_Present (uj_New b)" "sameObject (uj_New b) expected"
  shows "ended cfg (\<lambda>g. map_option (digest cfg \<circ> rf_content) g = Some (po_SHA256 expected)) (settled_with sv wr (recorded env sel s0)) x"
proof -
  have "po_SHA256 (uj_New b) = po_SHA256 expected" using assms(2,3) by (auto simp: sameObject_def split: if_splits)
  then show ?thesis using assms(1,2) unfolding update_accepted_def is_object_def
    by (auto elim!: ended_mono dest!: same_digest)
qed

lemma undone_digest:
  assumes "update_undone cfg b sv wr env sel s0 x" "observed (fileUpdateStore cfg) f = uj_Old b" "po_Present (uj_Restore b) = po_Present (uj_Old b)"
    "po_Present (uj_Old b) \<Longrightarrow> po_SHA256 (uj_Restore b) = po_SHA256 (uj_Old b)"
  shows "ended cfg (\<lambda>g. map_option (digest cfg \<circ> rf_content) g = map_option (digest cfg \<circ> rf_content) f) (settled_with sv wr (recorded env sel s0)) x"
proof -
  have "sameObject (observed (fileUpdateStore cfg) f) (uj_Old b)" using assms(2) by simp
  then show ?thesis using assms(1,3,4) unfolding update_undone_def is_object_def old_core_def
    by (auto elim!: ended_mono dest!: same_digest)
qed

lemma settled_warn_all [simp]: "settled sv wr (warn_all ws r) = settled sv wr r"
  by (simp add: warn_all_def)

lemma file_agrees_warnings [simp]: "file_agrees env (m\<lparr>mg_warnings := ws\<rparr>) = file_agrees env m"
  by (rule file_agrees_cong) simp_all

lemma recorded_warnings [simp]: "recorded env sel s (m\<lparr>mg_warnings := ws\<rparr>) = recorded env sel s m"
  by (simp add: recorded_def)

lemma work_outcome:
  fixes r :: "'q runtime_core"
  assumes w: "file_inv w" and r: "ready sv wr s0 r" and a: "file_agrees (ce_settings ce) (rc_manager r)" and n: "\<not> cu_reinstall cu"
    and f: "\<And>u x. BeginUpdate (Some (fileUpdateStore cfg)) cd True (cu_transaction cu) (cu_binary cu) (update_intent_of cu r) w = (Inr u, x) \<Longrightarrow>
      faithful (fileUpdateStore cfg) cd (ut_journal u)"
    and u: "core_update_work ce (fileUpdateStore cfg) cd c cu (w, r) = (res, x')"
  shows "work_ended ce cfg sv wr cu (file_slots cfg w InstalledBinary []) s0 res x'"
proof -
  let ?st = "fileUpdateStore cfg" and ?env = "ce_settings ce" and ?f = "file_slots cfg w InstalledBinary []"
  obtain z w1 where bg: "BeginUpdate (Some ?st) cd True (cu_transaction cu) (cu_binary cu) (update_intent_of cu r) w = (z, w1)"
    by fastforce
  then have bs: "beginUpdate (Some (beside ?st)) cd True (cu_transaction cu) (cu_binary cu) (update_intent_of cu r) False (w, r) = (z, (w1, r))"
    by (simp add: begin_beside BeginUpdate_def)
  have w1: "file_inv w1" "file_slots cfg w1 InstalledBinary [] = ?f"
    using file_store.core_keptD [OF file_store.core_kept_begin w bg [unfolded BeginUpdate_def]] by simp_all
  show ?thesis
  proof (cases z)
    case (Inl e)
    then have "update_begin_failed c False e (w1, r) = (res, x')" using u bs n by (simp add: core_update_work_def)
    then show ?thesis using begin_failed_exits [OF w1(1) r a _ w1(2)] by (metis surj_pair)
  next
    case (Inr tx)
    let ?b = "ut_journal tx"
    note bg' = bg [unfolded Inr]
    have fb: "faithful ?st cd ?b" using f [OF bg'] .
    have bn: "file_store.begun cfg cd tx (file_slots cfg w1)" "sameObject (uj_New ?b) (cu_binary cu)"
      using file_store.begin_begun [OF w bg'] by simp_all
    have b: "po_Present (uj_New ?b)" "po_Present (uj_Restore ?b) = po_Present (uj_Old ?b)" "\<not> po_Present (uj_Restore ?b) \<Longrightarrow> uj_Restore ?b = absent_object"
      "observed ?st ?f = uj_Old ?b" "po_Present (uj_Old ?b) \<Longrightarrow> po_SHA256 (uj_Restore ?b) = po_SHA256 (uj_Old ?b)"
      using bn(1) w1(2) unfolding file_store.begun_def Let_def by (auto simp: at_core_def)
    have it: "intends (cu_previous cu) (cu_next cu) wr ?b"
      using begin_intent [OF bg'] r by (auto simp: intends_def update_intent_of_def ready_def acted_def)
    have pre: "in_update cfg cd ?b anything (ready sv wr s0) (tx, (w1, r))"
      using core_files.begun_safe [of "(w1, r)" cfg cd tx UNIV] bn(1) w1(1) r
      by (simp add: in_update_def state_def core_files.begun_def file_store.begun_def)
    obtain t y where t: "update_trial ce ?st cd c (tx, (w1, r)) = (t, y)" by (metis surj_pair)
    obtain res2 u2 w2 r2 where fin: "(case t of Inl e \<Rightarrow> update_undo ce ?st cd c (cu_previous cu) False e y | Inr _ \<Rightarrow> update_accept ce ?st cd c (cu_next cu) False y)
      = (res2, (u2, (w2, r2)))" by (metis surj_pair)
    have out: "res = res2" "x' = (w2, warn_all (ut_warnings u2) r2)"
      using u bs [unfolded Inr] n t fin unfolding core_update_work_def by (auto split: sum.splits)
    show ?thesis
    proof (cases t)
      case (Inl e)
      have p: "in_update cfg cd ?b anything (tried sv wr s0) y" using tripleD(2) [OF trial_step [OF fb it] pre t [unfolded Inl]] .
      note un = undo_step [OF fb it b(2,3), of sv s0 ce c e, unfolded exits_def]
      show ?thesis
      proof (cases res2)
        case (Inl e2)
        have "doubtful e2 \<or> update_undone cfg ?b sv wr ?env (cu_previous cu) s0 (w2, r2)"
          using un p fin \<open>t = Inl e\<close> Inl by fastforce
        then show ?thesis using undone_digest [OF _ b(4,2,5), of sv wr ?env "cu_previous cu" s0 "(w2, r2)"] Inl out
          by (auto simp: work_ended_def ended_def settled_with_def recorded_def warn_all_def)
      qed (use un p fin \<open>t = Inl e\<close> in fastforce)
    next
      case (Inr v)
      have p: "in_update cfg cd ?b (new_installed cfg ?b) (settled_with sv wr (saved ?env (cu_next cu) s0)) y"
        using tripleD(1) [OF trial_step [OF fb it] pre t [unfolded Inr]] .
      note ac = accept_step [of cfg cd ?b sv wr ce "cu_next cu" s0 c, unfolded exits_def]
      show ?thesis
      proof (cases res2)
        case (Inl e2)
        then have "doubtful e2" using ac p fin \<open>t = Inr v\<close> by fastforce
        then show ?thesis using Inl out by (simp add: work_ended_def)
      next
        case (Inr v2)
        have "update_accepted cfg ?b sv wr ?env (cu_next cu) s0 (w2, r2)"
          using ac p fin \<open>t = Inr v\<close> Inr by fastforce
        from accepted_digest [OF this b(1) bn(2)] show ?thesis using Inr out
          by (auto simp: work_ended_def ended_def settled_with_def warn_all_def)
      qed
    qed
  qed
qed


text \<open>The reservation only reads the settings.\<close>

lemma reserve_result:
  fixes m :: "'p manager"
  assumes "reserve_update c req m = (x, m')"
  shows "mg_settings m' = mg_settings m \<and> mg_fs m' = mg_fs m \<and>
    (\<forall>inputs. x = Inr inputs \<longrightarrow> ci_selection inputs = (if ur_setup req then ci_selection (coreUpdateInputs m) else ci_selection (ur_inputs req)))"
proof -
  have r: "m2 = m1" if "checkIfRevision iv m1 = (y, m2)" for m1 m2 :: "'p manager" and iv y
    using that by (auto simp: checkIfRevision_def guardE_eq split: option.splits)
  from assms [unfolded reserve_update_def] show ?thesis
  proof (cases rule: bindE_cases)
    case (stop e) then show ?thesis using lock_only by blast
  next
    case (go y m1)
    have m1: "mg_settings m1 = mg_settings m" "mg_fs m1 = mg_fs m" "mg_snapshot m1 = mg_snapshot m"
      using lock_only [OF go(1)] settings_only_keeps(1) by auto
    then have c: "ci_selection (coreUpdateInputs m1) = ci_selection (coreUpdateInputs m)"
      by (simp add: coreUpdateInputs_def configInputs_def Let_def)
    from go(2) show ?thesis
    proof (cases rule: bindE_cases)
      case (stop e) then show ?thesis using r [OF stop(1)] m1 by simp
    next
      case (go y m2)
      then show ?thesis using r [OF go(1)] m1 c
        by (auto simp: guardE_eq Let_def elim!: bindE_cases dest!: ctxErr_only)
    qed
  qed
qed

text \<open>The selection that an update falls back to: in a setup, the one at the time of the update.\<close>

definition previous_selection :: "update_request \<Rightarrow> 'p manager \<Rightarrow> core_selection" where
  "previous_selection req m = (if ur_setup req then ci_selection (coreUpdateInputs m) else ci_selection (ur_inputs req))"

definition requested_selection :: "update_request \<Rightarrow> core_selection" where
  "requested_selection req = next_selection (ur_channel req) (cs_Bundle (ci_selection (ur_inputs req))) (ur_version req)"

lemma release_keeps [simp]: "mg_settings (rc_manager (release_update k r)) = mg_settings (rc_manager r)"
  "mg_snapshot (rc_manager (release_update k r)) = mg_snapshot (rc_manager r)" "rc_sv (release_update k r) = rc_sv r"
  "file_agrees env (rc_manager (release_update k r)) = file_agrees env (rc_manager r)"
  by (simp_all add: release_update_def file_agrees_cong [of "(rc_manager r)\<lparr>mg_coreUpdate := None\<rparr>" "rc_manager r" env])

text \<open>What remains of an update when the supervisor has taken it.\<close>

lemma install_taken:
  assumes "installCoreUpdate ce st cd c turn req (w, r) = (res, (w', r'))" "reserve_update c req (rc_manager r) = (Inr inputs, m1)"
    "tn_refused turn = None"
  obtains wres w3 r3 pe sv where
    "core_update_work ce st cd (c\<lparr>cx_owner := Some (ur_reservation req)\<rparr>) (request_update req inputs)
       (w, r\<lparr>rc_manager := m1, rc_se := fresh_session (tn_running turn), rc_acts := []\<rparr>) = (wres, (w3, r3))"
    "performUpdate (rc_sv r) \<lparr>uw_actions = rc_acts r3, uw_err = err_of wres, uw_stop = tn_stop turn, uw_descendants = tn_descendants turn\<rparr>
       (tn_running turn) = (pe, sv)"
    "w' = w3" "r' = release_update (ur_reservation req) (r3\<lparr>rc_sv := sv\<rparr>)"
    "res = (case pe of None \<Rightarrow> Inr \<lparr>ir_Version = cs_Version (requested_selection req), ir_AlphaSHA = cs_AlphaSHA (requested_selection req), ir_Updated = True\<rparr>
       | Some e \<Rightarrow> Inl e)"
proof -
  obtain wres w3 r3 where wk: "core_update_work ce st cd (c\<lparr>cx_owner := Some (ur_reservation req)\<rparr>) (request_update req inputs)
       (w, r\<lparr>rc_manager := m1, rc_se := fresh_session (tn_running turn), rc_acts := []\<rparr>) = (wres, (w3, r3))" by (metis surj_pair)
  obtain pe sv where pu: "performUpdate (rc_sv r) \<lparr>uw_actions = rc_acts r3, uw_err = err_of wres, uw_stop = tn_stop turn, uw_descendants = tn_descendants turn\<rparr>
       (tn_running turn) = (pe, sv)" by fastforce
  show thesis
    by (rule that [OF wk pu]) (use assms wk pu in
      \<open>auto simp: installCoreUpdate_def bindE_def on_manager_def in_session_def requested_selection_def request_update_def Let_def split: option.splits\<close>)
qed

lemma install_not_taken:
  assumes "installCoreUpdate ce st cd c turn req (w, r) = (res, (w', r'))" "reserve_update c req (rc_manager r) = (z, m1)"
    "(\<exists>e. z = Inl e) \<or> tn_refused turn \<noteq> None"
  shows "w' = w \<and> rc_sv r' = rc_sv r \<and> (\<exists>e. res = Inl e) \<and> mg_settings (rc_manager r') = mg_settings m1 \<and>
    file_agrees env (rc_manager r') = file_agrees env m1"
  using assms by (cases z) (auto simp: installCoreUpdate_def bindE_def on_manager_def throw_def Let_def split: option.splits)

text \<open>C6. An update of the core, as the manager runs it with any step failing, ends in one of three ways.
  The installed binary is the accepted candidate, and the settings in memory and on disk and the state name the new
  selection. Or the update reports its error, the installed binary has the bytes it had before and the settings in memory
  and on disk are the previous selection. Or the supervisor is blocked, so that nothing is started before
  a reinstallation. Unless it is blocked, a core that was running before is running, healthy and owned, afterwards.\<close>

theorem core_update_outcome:
  assumes "file_inv w" "file_agrees (ce_settings ce) (rc_manager r)" "\<not> ur_reinstall req"
    and "\<forall>u x. BeginUpdate (Some (fileUpdateStore cfg)) cd True (ur_transaction req) (ur_binary req)
        \<lparr>ui_Previous = previous_selection req (rc_manager r), ui_Next = requested_selection req, ui_WasRunning = tn_running turn,
          ui_StartNew = rc_coreRunRequested r, ui_Reinstall = False\<rparr> w = (Inr u, x) \<longrightarrow> faithful (fileUpdateStore cfg) cd (ut_journal u)"
    and "installCoreUpdate ce (fileUpdateStore cfg) cd c turn req (w, r) = (res, (w', r'))"
  shows "sv_blocked (rc_sv r') \<or>
    (case res of
       Inr result \<Rightarrow>
         map_option (digest cfg \<circ> rf_content) (file_slots cfg w' InstalledBinary []) = Some (po_SHA256 (ur_binary req)) \<and>
         mg_settings (rc_manager r') = chosen (requested_selection req) (mg_settings (rc_manager r)) \<and>
         core_Version (Core (mg_snapshot (rc_manager r'))) = ir_Version result
     | Inl _ \<Rightarrow>
         map_option (digest cfg \<circ> rf_content) (file_slots cfg w' InstalledBinary []) =
           map_option (digest cfg \<circ> rf_content) (file_slots cfg w InstalledBinary []) \<and>
         (mg_settings (rc_manager r') = mg_settings (rc_manager r) \<or>
          mg_settings (rc_manager r') = chosen (previous_selection req (rc_manager r)) (mg_settings (rc_manager r)))) \<and>
    file_agrees (ce_settings ce) (rc_manager r') \<and>
    (rc_sv r' = rc_sv r \<or> (tn_running turn \<longrightarrow> sv_pending (rc_sv r') \<noteq> None))"
proof -
  let ?s0 = "mg_settings (rc_manager r)" and ?env = "ce_settings ce" and ?wr = "tn_running turn"
  obtain z m1 where rv: "reserve_update c req (rc_manager r) = (z, m1)" by fastforce
  note rr = reserve_result [OF rv]
  have m1: "mg_settings m1 = ?s0" "file_agrees ?env m1" using rr assms(2) file_agrees_cong [of m1 "rc_manager r" ?env] by auto
  show ?thesis
  proof (cases "(\<exists>e. z = Inl e) \<or> tn_refused turn \<noteq> None")
    case True
    then show ?thesis using install_not_taken [OF assms(5) rv, of ?env] m1 by auto
  next
    case False
    then obtain inputs where z: "z = Inr inputs" and n: "tn_refused turn = None" by (cases z) auto
    let ?cu = "request_update req inputs" and ?r2 = "r\<lparr>rc_manager := m1, rc_se := fresh_session ?wr, rc_acts := []\<rparr>"
    have cu: "cu_previous ?cu = previous_selection req (rc_manager r)" "cu_next ?cu = requested_selection req" "cu_binary ?cu = ur_binary req"
      "cu_transaction ?cu = ur_transaction req" "\<not> cu_reinstall ?cu"
      using rr z assms(3) by (simp_all add: request_update_def previous_selection_def requested_selection_def)
    from install_taken [OF assms(5) rv [unfolded z] n] obtain wres w3 r3 pe sv where
      wk: "core_update_work ce (fileUpdateStore cfg) cd (c\<lparr>cx_owner := Some (ur_reservation req)\<rparr>) ?cu (w, ?r2) = (wres, (w3, r3))" and
      pu: "performUpdate (rc_sv r) \<lparr>uw_actions = rc_acts r3, uw_err = err_of wres, uw_stop = tn_stop turn, uw_descendants = tn_descendants turn\<rparr> ?wr = (pe, sv)" and
      out: "w' = w3" "r' = release_update (ur_reservation req) (r3\<lparr>rc_sv := sv\<rparr>)"
        "res = (case pe of None \<Rightarrow> Inr \<lparr>ir_Version = cs_Version (requested_selection req), ir_AlphaSHA = cs_AlphaSHA (requested_selection req), ir_Updated = True\<rparr> | Some e \<Rightarrow> Inl e)"
      by metis
    have rd: "ready (rc_sv r) ?wr ?s0 ?r2" using m1 by (simp add: ready_def acted_def fresh_session_def)
    have e: "work_ended ce cfg (rc_sv r) ?wr ?cu (file_slots cfg w InstalledBinary []) ?s0 wres (w3, r3)"
      by (rule work_outcome [OF assms(1) rd _ cu(5) _ wk])
        (use m1 cu assms(4) in \<open>simp_all add: update_intent_of_def fresh_session_def\<close>)
    show ?thesis
    proof (cases "\<exists>e. wres = Inl e \<and> doubtful e")
      case True
      then have "sv_blocked sv" using performUpdate_degraded [OF _ pu] by (auto simp: err_of_def)
      then show ?thesis using out by simp
    next
      case False
      then have st: "settled (rc_sv r) ?wr r3" using e by (auto simp: work_ended_def ended_def settled_with_def split: sum.splits)
      from performUpdate_settled [OF st pu] show ?thesis
      proof
        assume "sv_blocked sv" then show ?thesis using out by simp
      next
        assume p: "pe = err_of wres \<and> sv_pending sv = se_process (rc_se r3)"
        then have "?wr \<longrightarrow> sv_pending sv \<noteq> None" using st by (simp add: settled_def)
        then show ?thesis using e False p out cu
          by (auto simp: work_ended_def ended_def settled_with_def recorded_def err_of_def split: sum.splits)
      qed
    qed
  qed
qed

section \<open>Reinstallation\<close>

lemma require_result: "require_and_block st cd c cause x = (r, x') \<Longrightarrow> \<exists>e. r = Inl e \<and> doubtful e"
  using require_fails [of st cd c cause x] by auto

text \<open>The work of a reinstallation: every error blocks the supervisor, and success ends the recovery.\<close>

abbreviation recovered :: "'q runtime_core \<Rightarrow> bool" where
  "recovered r \<equiv> \<not> mg_coreRecovery (rc_manager r) \<and> rc_installed r"

lemma reinstall_undo:
  "update_undo ce st cd c previous True e x = (r, x') \<Longrightarrow> \<exists>e'. r = Inl e' \<and> doubtful e'"
  by (auto simp: update_undo_def bindE_def tryE_def split: prod.splits sum.splits dest!: require_result)

lemma warning_always: "warning_of m x = (y, x') \<Longrightarrow> y = Inr ()"
  by (auto simp: warning_of_def split: prod.splits)

lemma warning_utx_always: "with_utx (\<lambda>u. warning_of (f u)) x = (y, x') \<Longrightarrow> y = Inr ()"
  by (cases x) (auto simp: with_utx_def dest: warning_always)

lemma reinstall_accept:
  assumes "update_accept ce st cd c next True x = (r, (u, (s, rc)))"
  shows "case r of Inl e \<Rightarrow> doubtful e | Inr _ \<Rightarrow> recovered rc"
  using assms unfolding update_accept_def
  by (auto simp: bindE_def tryE_def split: prod.splits sum.splits dest!: require_result warning_always warning_utx_always)

lemma reinstall_work:
  assumes "core_update_work ce st cd c cu (s, r) = (res, (s', r'))" "cu_reinstall cu"
  shows "case res of Inl e \<Rightarrow> doubtful e | Inr _ \<Rightarrow> recovered r'"
proof -
  obtain b w where Pair: "beginUpdate (Some (beside st)) cd True (cu_transaction cu) (cu_binary cu) (update_intent_of cu r) (cu_reinstall cu) (s, r) = (b, w)"
    by (metis surj_pair)
  show ?thesis
  proof (cases b)
    case (Inl e)
    then have "on_manager (blockCoreUpdate c e) w = (res, (s', r'))"
      using assms Pair by (simp add: core_update_work_def update_begin_failed_def)
    from block_work_result [OF this] show ?thesis by auto
  next
    case (Inr u)
    obtain t uw where t: "update_trial ce st cd c (u, w) = (t, uw)" by (metis surj_pair)
    obtain y u2 s2 r2 where y: "(case t of Inl e \<Rightarrow> update_undo ce st cd c (cu_previous cu) True e uw
        | Inr _ \<Rightarrow> update_accept ce st cd c (cu_next cu) True uw) = (y, (u2, (s2, r2)))" by (metis surj_pair)
    have "case y of Inl e \<Rightarrow> doubtful e | Inr _ \<Rightarrow> recovered r2"
      using y reinstall_undo [of ce st cd c "cu_previous cu" _ uw] reinstall_accept [of ce st cd c "cu_next cu" uw]
      by (cases t) fastforce+
    moreover have "res = y" "r' = warn_all (ut_warnings u2) r2"
      using assms Pair Inr t y by (auto simp: core_update_work_def split: sum.splits)
    ultimately show ?thesis by (auto simp: warn_all_def split: sum.splits)
  qed
qed

lemma performUpdate_error:
  assumes "performUpdate sv \<lparr>uw_actions = as, uw_err = err, uw_stop = stop, uw_descendants = d\<rparr> wr = (e, sv')"
  shows "e = err \<or> (sv_blocked sv' \<and> e \<noteq> None)"
  using assms by (cases err) (auto simp: performUpdate_def Let_def observe_def errors_join_def split: prod.splits if_splits)

lemma release_recovered [simp]: "recovered (release_update k r) = recovered r"
  by (simp add: release_update_def)

lemma reinstall_result:
  assumes "installCoreUpdate ce st cd c turn req (w, r) = (res, (w', r'))" "ur_reinstall req"
  shows "case res of Inl _ \<Rightarrow> sv_blocked (rc_sv r') \<or> rc_sv r' = rc_sv r | Inr _ \<Rightarrow> recovered r'"
proof -
  obtain z m1 where rv: "reserve_update c req (rc_manager r) = (z, m1)" by fastforce
  show ?thesis
  proof (cases "(\<exists>e. z = Inl e) \<or> tn_refused turn \<noteq> None")
    case True
    then show ?thesis using install_not_taken [OF assms(1) rv, of undefined] by auto
  next
    case False
    then obtain inputs where z: "z = Inr inputs" and n: "tn_refused turn = None" by (cases z) auto
    from install_taken [OF assms(1) rv [unfolded z] n] obtain wres w3 r3 pe sv where
      wk: "core_update_work ce st cd (c\<lparr>cx_owner := Some (ur_reservation req)\<rparr>) (request_update req inputs)
        (w, r\<lparr>rc_manager := m1, rc_se := fresh_session (tn_running turn), rc_acts := []\<rparr>) = (wres, (w3, r3))" and
      pu: "performUpdate (rc_sv r) \<lparr>uw_actions = rc_acts r3, uw_err = err_of wres, uw_stop = tn_stop turn, uw_descendants = tn_descendants turn\<rparr> (tn_running turn) = (pe, sv)" and
      out: "r' = release_update (ur_reservation req) (r3\<lparr>rc_sv := sv\<rparr>)" "(\<exists>e. res = Inl e) \<longleftrightarrow> pe \<noteq> None"
      by (fastforce split: option.splits)
    have "case wres of Inl e \<Rightarrow> doubtful e | Inr _ \<Rightarrow> recovered r3"
      by (rule reinstall_work [OF wk]) (simp add: request_update_def assms(2))
    then show ?thesis using performUpdate_error [OF pu] performUpdate_degraded [OF _ pu] out
      by (auto simp: err_of_def split: sum.splits)
  qed
qed

text \<open>C37. A reinstallation that succeeds ends the recovery and wakes the supervision. One that fails either
  was turned away before the supervisor took it, with the supervisor as it was, or leaves the supervisor blocked.\<close>

theorem reinstall_outcome:
  "case Reinstall ce st cd prepare cleanup c turn revision channel k k2 (w, r) of
     (Inl _, (_, r')) \<Rightarrow> sv_blocked (rc_sv r') \<or> rc_sv r' = rc_sv r
   | (Inr _, (_, r')) \<Rightarrow> \<not> mg_coreRecovery (rc_manager r') \<and> rc_installed r'"
  unfolding Reinstall_def
  by (auto simp: bindE_def on_manager_def on_store_def Let_def guardE_eq split: prod.splits sum.splits dest!: reinstall_result)

section \<open>A first installation\<close>

definition demo_core_env :: "proxy_state core_env" where
  "demo_core_env = \<lparr>ce_settings = demo_menv, ce_parse = demo_mixed, ce_proxy = Some demo_backend, ce_pid = (\<lambda>n. 100 + int n)\<rparr>"

definition demo_rcore :: "proxy_state runtime_core" where
  "demo_rcore = \<lparr>rc_manager = demo_manager proxy_off, rc_sv = demo_running\<lparr>sv_alive := {}\<rparr>, rc_se = fresh_session False, rc_acts = [],
     rc_starts = [(Starts 5, demo_env)], rc_stops = [], rc_coreRunRequested = True, rc_installed = False\<rparr>"

definition first_cworld :: cworld where
  "first_cworld = demo_cworld\<lparr>cw_tree := [([''bin''], Dir), ([''staging''], Dir), ([''staging'', ''core''], Dir),
     ([''staging'', ''core'', ''update''], Dir), ([''staging'', ''core'', ''update'', demo_tx], Dir),
     ([''staging'', ''core'', ''update'', demo_tx, ''candidate-binary''], demo_file ''new core'' ''2'' 448),
     ([''staging'', ''core'', ''update'', demo_tx, ''transaction-id''], demo_file demo_tx ''3'' 384)]\<rparr>"

definition first_request :: update_request where
  "first_request = \<lparr>ur_IfRevision = None, ur_setup = False, ur_inputs = coreUpdateInputs (demo_manager proxy_off), ur_reservation = 1, ur_channel = ''stable'', ur_version = ''v2'',
     ur_transaction = demo_tx, ur_binary = demo_obj ''new core'' ''2'', ur_reinstall = False\<rparr>"

definition first_turn :: update_turn where
  "first_turn = \<lparr>tn_refused = None, tn_running = False, tn_stop = StopKilled None, tn_descendants = None\<rparr>"

definition first_intent :: update_intent where
  "first_intent = \<lparr>ui_Previous = previous_selection first_request (demo_manager proxy_off), ui_Next = requested_selection first_request, ui_WasRunning = False,
     ui_StartNew = True, ui_Reinstall = False\<rparr>"

definition first_uj :: update_journal where
  "first_uj = demo_uj\<lparr>uj_Intent := first_intent, uj_Old := absent_object, uj_Backup := absent_object, uj_Restore := absent_object\<rparr>"

definition first_codec :: update_codec where
  "first_codec = \<lparr>uc_marshal = (\<lambda>j. Inr (uj_Phase j)), uc_parse = (\<lambda>_. Inr (JNull, Some ErrEOF)), uc_decode = (\<lambda>raw. Inr (first_uj\<lparr>uj_Phase := raw\<rparr>))\<rparr>"

definition first_run :: "(go_error + install_result) \<times> cworld \<times> proxy_state runtime_core" where
  "first_run = installCoreUpdate demo_core_env (fileUpdateStore demo_cfg) first_codec demo_ctx first_turn first_request (first_cworld, demo_rcore)"

lemma first_installs:
  "case first_run of (Inl _, _) \<Rightarrow> False
   | (Inr x, (_, r)) \<Rightarrow> ir_Version x = ''v2'' \<and> \<not> sv_blocked (rc_sv r) \<and> sv_pending (rc_sv r) = Some (2, 5) \<and>
       core_PID (Core (mg_snapshot (rc_manager r))) = 102"
  by code_simp

lemma first_begins:
  "case BeginUpdate (Some (fileUpdateStore demo_cfg)) first_codec True demo_tx (demo_obj ''new core'' ''2'') first_intent first_cworld of
     (Inl _, _) \<Rightarrow> False | (Inr u, _) \<Rightarrow> faithful (fileUpdateStore demo_cfg) first_codec (ut_journal u)"
  by code_simp

theorem core_update_outcome_witness:
  "map_option (digest demo_cfg \<circ> rf_content) (file_slots demo_cfg (fst (snd first_run)) InstalledBinary []) = Some (digest demo_cfg ''new core'') \<and>
   core_Version (Core (mg_snapshot (rc_manager (snd (snd first_run))))) = ''v2''"
proof -
  obtain res w r where run: "first_run = (res, (w, r))" by (metis surj_pair)
  have ok: "\<not> sv_blocked (rc_sv r)" and x: "\<exists>x. res = Inr x \<and> ir_Version x = ''v2''"
    using first_installs unfolding run by (auto split: sum.splits)
  have tree: "file_inv first_cworld" by (rule wf_entries) code_simp
  have agrees: "file_agrees (ce_settings demo_core_env) (rc_manager demo_rcore)"
    by (simp add: file_agrees_def demo_core_env_def demo_menv_def)
  have keeps: "\<not> ur_reinstall first_request" by (simp add: first_request_def)
  have faith: "\<forall>u x. BeginUpdate (Some (fileUpdateStore demo_cfg)) first_codec True (ur_transaction first_request) (ur_binary first_request)
        \<lparr>ui_Previous = previous_selection first_request (rc_manager demo_rcore), ui_Next = requested_selection first_request, ui_WasRunning = tn_running first_turn,
          ui_StartNew = rc_coreRunRequested demo_rcore, ui_Reinstall = False\<rparr> first_cworld = (Inr u, x) \<longrightarrow>
      faithful (fileUpdateStore demo_cfg) first_codec (ut_journal u)"
    using first_begins unfolding first_intent_def
    by (auto simp: first_request_def first_turn_def demo_rcore_def split: prod.splits sum.splits)
  from core_update_outcome [OF tree agrees keeps faith run [unfolded first_run_def]] ok x
  show ?thesis unfolding run by (auto simp: first_request_def demo_obj_def)
qed

end
