(* ===== verification/Runtime_Operations.thy ===== *)
theory Runtime_Operations
  imports Prelude "HOL-Library.AList"
begin

text \<open>
  \<open>Manager.doOperation\<close> of \<open>internal/runtime/manager.go\<close>: requests with the same key share one execution through a table of at
  most 256 operations. Any number of callers run; the table is read and changed under its mutex, so
  that a caller's section is one step. Diagnostics and warnings are left out of the outcome.
\<close>

section \<open>Callers and the table\<close>

text \<open>A caller is refused, runs the operation (for an entry of the table or on its own, and with the execution refused
  when a reinstallation is required), waits for an entry, has returned, or was cancelled. An entry is a number; its
  outcome is there when it is done.\<close>

datatype 'r op_caller =
    Refused go_error
  | Running "nat option" bool
  | Waiting nat
  | Returned "nat option" "go_error + 'r"
  | Gone go_error

record 'r op_state =
  os_table :: "(string \<times> nat) list"
  os_done :: "nat \<Rightarrow> (go_error + 'r) option"
  os_next :: nat
  os_callers :: "nat \<Rightarrow> (string \<times> 'r op_caller) option"
  os_closing :: bool
  os_recovery :: bool

definition maxOperations :: nat where
  "maxOperations = 256"

definition checkOpen :: "bool \<Rightarrow> go_error option" where
  "checkOpen closing = (if closing then Some (Api (api CodeInvalidState ''mihari daemon is shutting down'')) else None)"

definition unshared_key :: "string \<Rightarrow> bool" where
  "unshared_key key \<longleftrightarrow> key = [] \<or> last key = CHR '':''"

text \<open>The source reads the recovery flag when the execution starts, right after the section under the mutex; the model reads it in
  that section. Nothing shown of the table depends on it.\<close>

definition reinstall_required :: "bool \<Rightarrow> string \<Rightarrow> bool" where
  "reinstall_required recovery key \<longleftrightarrow> recovery \<and> \<not> has_prefix key ''reinstall:''"

definition execute_once :: "bool \<Rightarrow> (go_error + 'r) \<Rightarrow> go_error + 'r" where
  "execute_once refused outcome = (if refused then Inl (Api (api CodeInvalidState ''core reinstall required'')) else outcome)"

text \<open>The eviction runs over the entries in the order of Go's map iteration, which is any order, and stops when there is
  room.\<close>

fun evict :: "(nat \<Rightarrow> bool) \<Rightarrow> string list \<Rightarrow> (string \<times> nat) list \<Rightarrow> (string \<times> nat) list" where
  "evict fin [] t = t"
| "evict fin (k # ks) t =
     (let t1 = (case map_of t k of Some e \<Rightarrow> if fin e then AList.delete k t else t | None \<Rightarrow> t) in
      if length t1 < maxOperations then t1 else evict fin ks t1)"

definition make_room :: "(nat \<Rightarrow> bool) \<Rightarrow> string list \<Rightarrow> (string \<times> nat) list \<Rightarrow> (string \<times> nat) list" where
  "make_room fin order t = (if length t \<ge> maxOperations then evict fin order t else t)"

text \<open>The section under the mutex: wait for an entry, run without one when the table stays full, or run for a new
  entry.\<close>

definition join_table :: "string list \<Rightarrow> string \<Rightarrow> 'r op_state \<Rightarrow> 'r op_caller \<times> 'r op_state" where
  "join_table order key s =
     (let refused = reinstall_required (os_recovery s) key in
      case map_of (os_table s) key of
        Some e \<Rightarrow> (Waiting e, s)
      | None \<Rightarrow>
          (let t = make_room (\<lambda>e. os_done s e \<noteq> None) order (os_table s) in
           if length t \<ge> maxOperations then (Running None refused, s\<lparr>os_table := t\<rparr>)
           else (Running (Some (os_next s)) refused, s\<lparr>os_table := (key, os_next s) # t, os_next := os_next s + 1\<rparr>)))"

definition begin_operation :: "string list \<Rightarrow> bool \<Rightarrow> string \<Rightarrow> 'r op_state \<Rightarrow> 'r op_caller \<times> 'r op_state" where
  "begin_operation order owner key s =
     (if owner then (Running None False, s)
      else case checkOpen (os_closing s) of
          Some e \<Rightarrow> (Refused e, s)
        | None \<Rightarrow>
            if unshared_key key then (Running None (reinstall_required (os_recovery s) key), s)
            else join_table order key s)"

definition set_caller :: "nat \<Rightarrow> string \<Rightarrow> 'r op_caller \<Rightarrow> 'r op_state \<Rightarrow> 'r op_state" where
  "set_caller c key x s = s\<lparr>os_callers := (os_callers s)(c \<mapsto> (key, x))\<rparr>"

definition finish_entry :: "nat option \<Rightarrow> (go_error + 'r) \<Rightarrow> 'r op_state \<Rightarrow> 'r op_state" where
  "finish_entry e outcome s = (case e of None \<Rightarrow> s | Some i \<Rightarrow> s\<lparr>os_done := (os_done s)(i \<mapsto> outcome)\<rparr>)"

inductive op_step :: "'r op_state \<Rightarrow> 'r op_state \<Rightarrow> bool" where
  request: "op_step s (set_caller c key x s')"
    if "os_callers s c = None" "set order = fst ` set (os_table s)" "begin_operation order owner key s = (x, s')"
| finish: "op_step s (set_caller c key (Returned e (execute_once refused outcome)) (finish_entry e (execute_once refused outcome) s))"
    if "os_callers s c = Some (key, Running e refused)"
| deliver: "op_step s (set_caller c key (Returned (Some e) outcome) s)"
    if "os_callers s c = Some (key, Waiting e)" "os_done s e = Some outcome"
| cancel: "op_step s (set_caller c key (Gone err) s)"
    if "os_callers s c = Some (key, Waiting e)"
| close: "op_step s (s\<lparr>os_closing := True\<rparr>)"
| recovery: "op_step s (s\<lparr>os_recovery := b\<rparr>)"

inductive_cases op_stepE: "op_step s s'"

definition initial_operations :: "'r op_state" where
  "initial_operations = \<lparr>os_table = [], os_done = (\<lambda>_. None), os_next = 0, os_callers = (\<lambda>_. None), os_closing = False, os_recovery = False\<rparr>"

abbreviation op_reachable :: "'r op_state \<Rightarrow> bool" where
  "op_reachable s \<equiv> op_step\<^sup>*\<^sup>* initial_operations s"

section \<open>The invariant\<close>

definition running_for :: "'r op_state \<Rightarrow> nat \<Rightarrow> string \<Rightarrow> nat \<Rightarrow> bool" where
  "running_for s c key e \<longleftrightarrow> (\<exists>refused. os_callers s c = Some (key, Running (Some e) refused))"

definition table_ok :: "'r op_state \<Rightarrow> bool" where
  "table_ok s \<longleftrightarrow> distinct (map fst (os_table s)) \<and> length (os_table s) \<le> maxOperations \<and> (\<forall>(k, e) \<in> set (os_table s). e < os_next s) \<and>
     (\<forall>e \<ge> os_next s. os_done s e = None)"

definition runners_ok :: "'r op_state \<Rightarrow> bool" where
  "runners_ok s \<longleftrightarrow>
     (\<forall>c k e. running_for s c k e \<longrightarrow> (k, e) \<in> set (os_table s) \<and> os_done s e = None) \<and>
     (\<forall>c c' k k' e. running_for s c k e \<longrightarrow> running_for s c' k' e \<longrightarrow> c = c') \<and>
     (\<forall>k e. (k, e) \<in> set (os_table s) \<longrightarrow> os_done s e \<noteq> None \<or> (\<exists>c. running_for s c k e))"

definition results_ok :: "'r op_state \<Rightarrow> bool" where
  "results_ok s \<longleftrightarrow> (\<forall>c k e outcome. os_callers s c = Some (k, Returned (Some e) outcome) \<longrightarrow> os_done s e = Some outcome) \<and>
     (\<forall>c k e. os_callers s c = Some (k, Waiting e) \<longrightarrow> os_done s e \<noteq> None \<or> (\<exists>r. running_for s r k e))"

definition op_inv :: "'r op_state \<Rightarrow> bool" where
  "op_inv s \<longleftrightarrow> table_ok s \<and> runners_ok s \<and> results_ok s"

lemma evict_subset: "set (evict fin ks t) \<subseteq> set t"
proof (induction fin ks t rule: evict.induct)
  case (2 don k ks t)
  have "set (case map_of t k of Some e \<Rightarrow> if don e then AList.delete k t else t | None \<Rightarrow> t) \<subseteq> set t"
    by (auto simp: AList.delete_eq split: option.splits)
  then show ?case using 2 by (auto simp: Let_def)
qed simp

lemma evict_keeps_running: "(k, e) \<in> set t \<Longrightarrow> distinct (map fst t) \<Longrightarrow> \<not> fin e \<Longrightarrow> (k, e) \<in> set (evict fin ks t)"
proof (induction fin ks t rule: evict.induct)
  case (2 don k' ks t)
  let ?t = "case map_of t k' of Some e \<Rightarrow> if don e then AList.delete k' t else t | None \<Rightarrow> t"
  have "map_of t k = Some e" using 2(2,3) by (simp add: map_of_is_SomeI)
  then have "(k, e) \<in> set ?t" using 2(2,4) by (auto simp: AList.delete_eq split: option.splits)
  moreover have "distinct (map fst ?t)" using 2 by (auto simp: AList.distinct_delete split: option.splits)
  ultimately show ?case using 2 by (simp add: Let_def)
qed simp

lemma evict_distinct: "distinct (map fst t) \<Longrightarrow> distinct (map fst (evict fin ks t))"
proof (induction fin ks t rule: evict.induct)
  case (2 don k ks t)
  have "distinct (map fst (case map_of t k of Some e \<Rightarrow> if don e then AList.delete k t else t | None \<Rightarrow> t))"
    using 2 by (auto simp: AList.distinct_delete split: option.splits)
  then show ?case using 2 by (simp add: Let_def)
qed simp

lemma evict_length: "length (evict fin ks t) \<le> length t"
proof (induction fin ks t rule: evict.induct)
  case (2 don k ks t)
  have "length (case map_of t k of Some e \<Rightarrow> if don e then AList.delete k t else t | None \<Rightarrow> t) \<le> length t"
    by (auto simp: AList.delete_eq split: option.splits)
  then show ?case using 2 by (auto simp: Let_def)
qed simp

text \<open>An operation runs outside the table only when every entry of a full table is still running.\<close>

lemma evict_full: "length (evict fin ks t) \<ge> maxOperations \<Longrightarrow> length t \<le> maxOperations \<Longrightarrow> k \<in> set ks \<Longrightarrow> map_of t k = Some e \<Longrightarrow> \<not> fin e"
proof (induction fin ks t rule: evict.induct)
  case (2 don k' ks t)
  show ?case
  proof (cases "\<exists>e. map_of t k' = Some e \<and> don e")
    case True
    then have t: "(case map_of t k' of Some e \<Rightarrow> if don e then AList.delete k' t else t | None \<Rightarrow> t) = AList.delete k' t" by auto
    have "length (AList.delete k' t) < length t"
      using True by (auto simp: AList.delete_eq dest!: map_of_SomeD intro: length_filter_less)
    then show ?thesis using 2 t by (auto simp: Let_def split: if_splits)
  next
    case False
    then have t: "(case map_of t k' of Some e \<Rightarrow> if don e then AList.delete k' t else t | None \<Rightarrow> t) = t" by (auto split: option.splits)
    show ?thesis using 2 False t by (auto simp: Let_def split: if_splits)
  qed
qed simp

lemma room_facts:
  assumes "table_ok s" "set order = fst ` set (os_table s)"
  defines "t \<equiv> make_room (\<lambda>e. os_done s e \<noteq> None) order (os_table s)"
  shows "distinct (map fst t)" "set t \<subseteq> set (os_table s)" "length t \<le> maxOperations"
    "(k, e) \<in> set (os_table s) \<Longrightarrow> os_done s e = None \<Longrightarrow> (k, e) \<in> set t"
    "length t \<ge> maxOperations \<Longrightarrow> (k, e) \<in> set (os_table s) \<Longrightarrow> os_done s e = None"
proof -
  have d: "distinct (map fst (os_table s))" and l: "length (os_table s) \<le> maxOperations" using assms(1) by (simp_all add: table_ok_def)
  show "distinct (map fst t)" "set t \<subseteq> set (os_table s)" "length t \<le> maxOperations"
    using d l evict_distinct evict_subset evict_length [of "\<lambda>e. os_done s e \<noteq> None" order "os_table s"]
    by (auto simp: t_def make_room_def)
  show "(k, e) \<in> set (os_table s) \<Longrightarrow> os_done s e = None \<Longrightarrow> (k, e) \<in> set t"
    using evict_keeps_running [OF _ d, of k e "\<lambda>e. os_done s e \<noteq> None"] by (simp add: t_def make_room_def)
  show "os_done s e = None" if "length t \<ge> maxOperations" "(k, e) \<in> set (os_table s)"
  proof -
    have "map_of (os_table s) k = Some e" "k \<in> set order" using that(2) d assms(2) by force+
    then show ?thesis using evict_full [of "\<lambda>e. os_done s e \<noteq> None" order "os_table s" k e] that(1) l
      by (auto simp: t_def make_room_def split: if_splits)
  qed
qed

lemma begin_kinds [consumes 3, case_names same waits full new]:
  assumes "begin_operation order owner key s = (x, s')" "table_ok s" "set order = fst ` set (os_table s)"
  obtains (same) "s' = s" "\<forall>e refused. x \<noteq> Running (Some e) refused" "\<forall>e. x \<noteq> Waiting e" "\<forall>e r. x \<noteq> Returned (Some e) r"
  | (waits) e where "s' = s" "x = Waiting e" "(key, e) \<in> set (os_table s)"
  | (full) t refused where "s' = s\<lparr>os_table := t\<rparr>" "x = Running None refused" "length t = maxOperations" "distinct (map fst t)" "set t \<subseteq> set (os_table s)"
      "\<forall>k e. (k, e) \<in> set (os_table s) \<longrightarrow> os_done s e = None \<longrightarrow> (k, e) \<in> set t" "\<forall>(k, e) \<in> set (os_table s). os_done s e = None"
  | (new) t refused where "s' = s\<lparr>os_table := (key, os_next s) # t, os_next := os_next s + 1\<rparr>" "x = Running (Some (os_next s)) refused"
      "length t < maxOperations" "distinct (map fst t)" "set t \<subseteq> set (os_table s)" "key \<notin> fst ` set (os_table s)"
      "\<forall>k e. (k, e) \<in> set (os_table s) \<longrightarrow> os_done s e = None \<longrightarrow> (k, e) \<in> set t"
proof -
  note room = room_facts [OF assms(2,3)]
  show thesis
  proof (cases "owner \<or> os_closing s \<or> unshared_key key")
    case True
    then show thesis using assms(1) by (intro same) (auto simp: begin_operation_def checkOpen_def split: if_splits)
  next
    case False
    then have j: "join_table order key s = (x, s')" using assms(1) by (simp add: begin_operation_def checkOpen_def)
    show thesis
    proof (cases "map_of (os_table s) key")
      case (Some e)
      then show thesis using j by (intro waits [of e]) (auto simp: join_table_def Let_def dest: map_of_SomeD)
    next
      case None
      let ?t = "make_room (\<lambda>e. os_done s e \<noteq> None) order (os_table s)"
      have k: "key \<notin> fst ` set (os_table s)" using None by (simp add: map_of_eq_None_iff)
      show thesis
      proof (cases "length ?t \<ge> maxOperations")
        case True
        then show thesis using j None room
          by (intro full [of ?t "reinstall_required (os_recovery s) key"]) (auto simp: join_table_def Let_def)
      next
        case False
        then show thesis using j None room k
          by (intro new [of ?t "reinstall_required (os_recovery s) key"]) (auto simp: join_table_def Let_def)
      qed
    qed
  qed
qed

lemma running_set_caller:
  "running_for (set_caller c key x s) c' k e \<longleftrightarrow> (if c' = c then k = key \<and> (\<exists>refused. x = Running (Some e) refused) else running_for s c' k e)"
  by (auto simp: running_for_def set_caller_def)

lemma running_frame [simp]:
  "running_for (s\<lparr>os_table := t\<rparr>) = running_for s" "running_for (s\<lparr>os_next := n\<rparr>) = running_for s"
  "running_for (s\<lparr>os_closing := b\<rparr>) = running_for s" "running_for (s\<lparr>os_recovery := b\<rparr>) = running_for s"
  "running_for (s\<lparr>os_done := d\<rparr>) = running_for s"
  by (auto simp: running_for_def fun_eq_iff)

lemma set_caller_sel [simp]:
  "os_table (set_caller c key x s) = os_table s" "os_done (set_caller c key x s) = os_done s" "os_next (set_caller c key x s) = os_next s"
  "os_callers (set_caller c key x s) = (os_callers s)(c \<mapsto> (key, x))"
  by (simp_all add: set_caller_def)

text \<open>What a new caller leaves of the invariant.\<close>

lemma running_fresh:
  assumes "os_callers s c = None" "os_callers s' = os_callers s"
  shows "running_for (set_caller c key x s') r k e \<longleftrightarrow> running_for s r k e \<or> (r = c \<and> k = key \<and> (\<exists>refused. x = Running (Some e) refused))"
  using assms by (auto simp: running_for_def)

lemma results_fresh:
  assumes "results_ok s" "os_callers s c = None" "os_callers s' = os_callers s" "os_done s' = os_done s"
    and "\<forall>e r. x \<noteq> Returned (Some e) r" "\<forall>e. x = Waiting e \<longrightarrow> os_done s e \<noteq> None \<or> (\<exists>r. running_for s r key e)"
  shows "results_ok (set_caller c key x s')"
  unfolding results_ok_def running_fresh [OF assms(2,3)]
proof (intro conjI allI impI)
  fix c' k e outcome
  assume "os_callers (set_caller c key x s') c' = Some (k, Returned (Some e) outcome)"
  then have "os_callers s c' = Some (k, Returned (Some e) outcome)" using assms(3,5) by (auto split: if_splits)
  then show "os_done (set_caller c key x s') e = Some outcome" using assms(1,4) by (auto simp: results_ok_def)
next
  fix c' k e
  assume "os_callers (set_caller c key x s') c' = Some (k, Waiting e)"
  then have "os_callers s c' = Some (k, Waiting e) \<or> (k = key \<and> x = Waiting e)" using assms(3) by (auto split: if_splits)
  then have "os_done s e \<noteq> None \<or> (\<exists>r. running_for s r k e)" using assms(1,6) unfolding results_ok_def by blast
  then show "os_done (set_caller c key x s') e \<noteq> None \<or> (\<exists>r. running_for s r k e \<or> r = c \<and> k = key \<and> (\<exists>refused. x = Running (Some e) refused))"
    using assms(4) by auto
qed

lemma runners_fresh:
  assumes "runners_ok s" "os_callers s c = None" "os_callers s' = os_callers s" "os_done s' = os_done s"
    and "set (os_table s') \<subseteq> set (os_table s)" "\<forall>k e. (k, e) \<in> set (os_table s) \<longrightarrow> os_done s e = None \<longrightarrow> (k, e) \<in> set (os_table s')"
    and "\<forall>e refused. x \<noteq> Running (Some e) refused"
  shows "runners_ok (set_caller c key x s')"
proof -
  have r: "running_for (set_caller c key x s') r k e \<longleftrightarrow> running_for s r k e" for r k e
    using running_fresh [OF assms(2,3)] assms(7) by auto
  show ?thesis using assms(1,4-6) unfolding runners_ok_def r by (simp add: subset_iff)
qed

lemma runners_new:
  assumes "runners_ok s" "table_ok s" "os_callers s c = None" "os_callers s' = os_callers s" "os_done s' = os_done s"
    and "os_table s' = (key, os_next s) # t" "set t \<subseteq> set (os_table s)" "\<forall>k e. (k, e) \<in> set (os_table s) \<longrightarrow> os_done s e = None \<longrightarrow> (k, e) \<in> set t"
  shows "runners_ok (set_caller c key (Running (Some (os_next s)) refused) s')"
proof -
  have r: "running_for (set_caller c key (Running (Some (os_next s)) refused) s') r k e \<longleftrightarrow>
      running_for s r k e \<or> (r = c \<and> k = key \<and> e = os_next s)" for r k e
    using running_fresh [OF assms(3,4)] by auto
  have n: "\<not> running_for s r k (os_next s)" for r k using assms(1,2) by (fastforce simp: runners_ok_def table_ok_def)
  have d: "os_done s (os_next s) = None" using assms(2) by (simp add: table_ok_def)
  show ?thesis unfolding runners_ok_def r
  proof (intro conjI allI impI)
    fix r k e
    assume "running_for s r k e \<or> r = c \<and> k = key \<and> e = os_next s"
    then show "(k, e) \<in> set (os_table (set_caller c key (Running (Some (os_next s)) refused) s'))"
      "os_done (set_caller c key (Running (Some (os_next s)) refused) s') e = None"
      using assms d by (auto simp: runners_ok_def)
  next
    fix r r' k k' e
    assume "running_for s r k e \<or> r = c \<and> k = key \<and> e = os_next s" "running_for s r' k' e \<or> r' = c \<and> k' = key \<and> e = os_next s"
    then show "r = r'" using assms(1) n by (auto simp: runners_ok_def)
  next
    fix k e
    assume "(k, e) \<in> set (os_table (set_caller c key (Running (Some (os_next s)) refused) s'))"
    then have "(k, e) = (key, os_next s) \<or> (k, e) \<in> set (os_table s)" using assms(6,7) by auto
    then show "os_done (set_caller c key (Running (Some (os_next s)) refused) s') e \<noteq> None \<or>
        (\<exists>r. running_for s r k e \<or> r = c \<and> k = key \<and> e = os_next s)"
    proof
      assume "(k, e) \<in> set (os_table s)"
      then have "os_done s e \<noteq> None \<or> (\<exists>r. running_for s r k e)" using assms(1) unfolding runners_ok_def by blast
      then show ?thesis using assms(5) by auto
    qed auto
  qed
qed

lemma begin_keeps_inv:
  assumes "op_inv s" "os_callers s c = None" "set order = fst ` set (os_table s)" "begin_operation order owner key s = (x, s')"
  shows "op_inv (set_caller c key x s')"
proof -
  have t: "table_ok s" and ru: "runners_ok s" and re: "results_ok s" using assms(1) by (simp_all add: op_inv_def)
  from assms(4) t assms(3) show ?thesis
  proof (cases rule: begin_kinds)
    case same
    have "runners_ok (set_caller c key x s)" by (rule runners_fresh [OF ru assms(2)]) (use same in auto)
    moreover have "results_ok (set_caller c key x s)" by (rule results_fresh [OF re assms(2)]) (use same in auto)
    ultimately show ?thesis using same t by (simp add: op_inv_def table_ok_def)
  next
    case (waits e)
    have w: "os_done s e \<noteq> None \<or> (\<exists>r. running_for s r key e)" using ru waits(3) unfolding runners_ok_def by blast
    have "runners_ok (set_caller c key x s)" by (rule runners_fresh [OF ru assms(2)]) (use waits in auto)
    moreover have "results_ok (set_caller c key x s)" by (rule results_fresh [OF re assms(2)]) (use waits(2) w in auto)
    ultimately show ?thesis using waits(1) t by (simp add: op_inv_def table_ok_def)
  next
    case (full ta refused)
    have "runners_ok (set_caller c key x s')" by (rule runners_fresh [OF ru assms(2)]) (use full in auto)
    moreover have "results_ok (set_caller c key x s')" by (rule results_fresh [OF re assms(2)]) (use full(1,2) in auto)
    moreover have "table_ok (set_caller c key x s')" using full t by (auto simp: table_ok_def)
    ultimately show ?thesis by (simp add: op_inv_def)
  next
    case (new ta refused)
    have "runners_ok (set_caller c key x s')" unfolding new(2) by (rule runners_new [OF ru t assms(2) _ _ _ new(5,7)]) (simp_all add: new(1))
    moreover have "results_ok (set_caller c key x s')" by (rule results_fresh [OF re assms(2)]) (use new(1,2) in auto)
    moreover have "\<forall>(k, e) \<in> set ta. e < os_next s" using new(5) t by (auto simp: table_ok_def)
    then have "table_ok (set_caller c key x s')"
      unfolding table_ok_def new(1) using new(3-6) t by (auto simp: table_ok_def less_Suc_eq)
    ultimately show ?thesis by (simp add: op_inv_def)
  qed
qed

lemma running_finish:
  assumes "runners_ok s" "running_for s c key e" "x = Returned (Some e) r"
  shows "running_for (set_caller c key x (s\<lparr>os_done := d\<rparr>)) c' k e' \<longleftrightarrow> running_for s c' k e' \<and> e' \<noteq> e"
proof (cases "c' = c")
  case True
  then show ?thesis using assms(2,3) by (auto simp: running_for_def)
next
  case False
  then have "\<not> running_for s c' k e" using assms(1,2) by (auto simp: runners_ok_def)
  then show ?thesis using False by (auto simp: running_for_def)
qed

lemma finish_keeps_inv:
  assumes "op_inv s" "os_callers s c = Some (key, Running e refused)"
  shows "op_inv (set_caller c key (Returned e outcome) (finish_entry e outcome s))"
proof (cases e)
  case None
  have r: "running_for (set_caller c key (Returned None outcome) s) = running_for s"
    using assms(2) None by (auto simp: running_for_def fun_eq_iff)
  then show ?thesis using assms None unfolding op_inv_def table_ok_def runners_ok_def results_ok_def
    by (auto simp: finish_entry_def r split: if_splits)
next
  case (Some i)
  have ru: "runners_ok s" and t: "table_ok s" and re: "results_ok s" using assms(1) by (simp_all add: op_inv_def)
  have run: "running_for s c key i" using assms(2) Some by (auto simp: running_for_def)
  note r = running_finish [OF ru run refl]
  have i: "(key, i) \<in> set (os_table s)" "os_done s i = None" using ru run by (auto simp: runners_ok_def)
  have "table_ok (set_caller c key (Returned e outcome) (finish_entry e outcome s))"
    using t i by (auto simp: Some finish_entry_def table_ok_def)
  moreover have "runners_ok (set_caller c key (Returned e outcome) (finish_entry e outcome s))"
    using ru unfolding runners_ok_def Some finish_entry_def option.case r by (auto 0 3)
  moreover have "results_ok (set_caller c key (Returned e outcome) (finish_entry e outcome s))"
    using re i(2) unfolding results_ok_def Some finish_entry_def option.case r by (auto split: if_splits)
  ultimately show ?thesis by (simp add: op_inv_def)
qed

lemma leave_keeps_inv:
  assumes "op_inv s" "os_callers s c = Some (key, Waiting e)" "x = Gone err \<or> x = Returned (Some e) outcome \<and> os_done s e = Some outcome"
  shows "op_inv (set_caller c key x s)"
proof -
  have r: "running_for (set_caller c key x s) = running_for s" using assms(2,3) by (auto simp: running_for_def fun_eq_iff)
  then show ?thesis using assms unfolding op_inv_def table_ok_def runners_ok_def results_ok_def by (auto split: if_splits)
qed

lemma op_step_inv: "op_step s s' \<Longrightarrow> op_inv s \<Longrightarrow> op_inv s'"
proof (induction rule: op_step.induct)
  case (request s c order owner key x s')
  then show ?case by (intro begin_keeps_inv)
next
  case (finish s c key e refused outcome)
  then show ?case by (intro finish_keeps_inv)
next
  case (deliver s c key e outcome)
  then show ?case by (intro leave_keeps_inv) auto
next
  case (cancel s c key e err)
  then show ?case by (intro leave_keeps_inv) auto
qed (simp_all add: op_inv_def table_ok_def runners_ok_def results_ok_def)

lemma op_reachable_inv: "op_reachable s \<Longrightarrow> op_inv s"
proof (induction rule: rtranclp_induct)
  case base
  then show ?case by (simp add: op_inv_def table_ok_def runners_ok_def results_ok_def initial_operations_def running_for_def)
next
  case (step s s')
  then show ?case using op_step_inv by blast
qed

lemma operation_facts:
  assumes "op_reachable s"
  shows "length (os_table s) \<le> 256"
    and "\<forall>c c' k e e'. running_for s c k e \<longrightarrow> running_for s c' k e' \<longrightarrow> c = c'"
    and "\<forall>c c' k k' e r r'. os_callers s c = Some (k, Returned (Some e) r) \<longrightarrow> os_callers s c' = Some (k', Returned (Some e) r') \<longrightarrow> r = r'"
    and "\<forall>c k e. os_callers s c = Some (k, Waiting e) \<longrightarrow> os_done s e \<noteq> None \<or> (\<exists>c'. running_for s c' k e)"
    and "\<forall>order key refused s'. set order = fst ` set (os_table s) \<longrightarrow> \<not> unshared_key key \<longrightarrow>
      begin_operation order False key s = (Running None refused, s') \<longrightarrow>
      length (os_table s) = 256 \<and> (\<forall>(k, e) \<in> set (os_table s). \<exists>c. running_for s c k e)"
proof -
  have t: "table_ok s" and ru: "runners_ok s" and re: "results_ok s" using op_reachable_inv [OF assms] by (simp_all add: op_inv_def)
  show "length (os_table s) \<le> 256" using t by (simp add: table_ok_def maxOperations_def)
  show "\<forall>c c' k e e'. running_for s c k e \<longrightarrow> running_for s c' k e' \<longrightarrow> c = c'"
  proof (intro allI impI)
    fix c c' k e e' assume r: "running_for s c k e" "running_for s c' k e'"
    then have "(k, e) \<in> set (os_table s)" "(k, e') \<in> set (os_table s)" using ru unfolding runners_ok_def by blast+
    then have "e = e'" using t eq_key_imp_eq_value by (fastforce simp: table_ok_def)
    then show "c = c'" using r ru unfolding runners_ok_def by blast
  qed
  show "\<forall>c c' k k' e r r'. os_callers s c = Some (k, Returned (Some e) r) \<longrightarrow> os_callers s c' = Some (k', Returned (Some e) r') \<longrightarrow> r = r'"
    using re unfolding results_ok_def by (metis option.inject)
  show "\<forall>c k e. os_callers s c = Some (k, Waiting e) \<longrightarrow> os_done s e \<noteq> None \<or> (\<exists>c'. running_for s c' k e)"
    using re by (simp add: results_ok_def)
  show "\<forall>order key refused s'. set order = fst ` set (os_table s) \<longrightarrow> \<not> unshared_key key \<longrightarrow>
      begin_operation order False key s = (Running None refused, s') \<longrightarrow>
      length (os_table s) = 256 \<and> (\<forall>(k, e) \<in> set (os_table s). \<exists>c. running_for s c k e)"
  proof (intro allI impI)
    fix order key refused s'
    assume o: "set order = fst ` set (os_table s)" and k: "\<not> unshared_key key" and b: "begin_operation order False key s = (Running None refused, s')"
    let ?t = "make_room (\<lambda>e. os_done s e \<noteq> None) order (os_table s)"
    have l: "length ?t \<ge> maxOperations"
      using b k by (auto simp: begin_operation_def join_table_def checkOpen_def Let_def split: option.splits if_splits)
    then have "length (os_table s) = 256"
      using t evict_length [of "\<lambda>e. os_done s e \<noteq> None" order "os_table s"] by (auto simp: table_ok_def make_room_def maxOperations_def split: if_splits)
    moreover have "\<forall>(k, e) \<in> set (os_table s). \<exists>c. running_for s c k e"
      using room_facts(5) [OF t o l] ru unfolding runners_ok_def by fastforce
    ultimately show "length (os_table s) = 256 \<and> (\<forall>(k, e) \<in> set (os_table s). \<exists>c. running_for s c k e)" by simp
  qed
qed

text \<open>C4. Requests with one key share one execution. In every reachable state at most one caller runs for
  the entry of a key, the table holds at most 256 operations, everyone that got its outcome from an entry got the same one, and
  a caller that waits has an outcome or a running caller to wait for. A request with a key runs on its own only
  when 256 other operations are running.\<close>

theorem operations_run_once:
  assumes "op_reachable s"
  shows "length (os_table s) \<le> 256 \<and>
    (\<forall>c c' k e e'. running_for s c k e \<longrightarrow> running_for s c' k e' \<longrightarrow> c = c') \<and>
    (\<forall>c c' k k' e r r'. os_callers s c = Some (k, Returned (Some e) r) \<longrightarrow> os_callers s c' = Some (k', Returned (Some e) r') \<longrightarrow> r = r') \<and>
    (\<forall>c k e. os_callers s c = Some (k, Waiting e) \<longrightarrow> os_done s e \<noteq> None \<or> (\<exists>c'. running_for s c' k e)) \<and>
    (\<forall>order key refused s'. set order = fst ` set (os_table s) \<longrightarrow> \<not> unshared_key key \<longrightarrow>
      begin_operation order False key s = (Running None refused, s') \<longrightarrow>
      length (os_table s) = 256 \<and> (\<forall>(k, e) \<in> set (os_table s). \<exists>c. running_for s c k e))"
  by (intro conjI operation_facts [OF assms])

section \<open>Two requests with one key\<close>

definition demo_key :: string where
  "demo_key = ''install:1''"

definition demo_first :: "unit op_state" where
  "demo_first = set_caller 0 demo_key (Running (Some 0) False) (initial_operations\<lparr>os_table := [(demo_key, 0)], os_next := 1\<rparr>)"

definition demo_second :: "unit op_state" where
  "demo_second = set_caller 1 demo_key (Waiting 0) demo_first"

definition demo_finished :: "unit op_state" where
  "demo_finished = set_caller 0 demo_key (Returned (Some 0) (execute_once False (Inr ()))) (finish_entry (Some 0) (execute_once False (Inr ())) demo_second)"

definition demo_delivered :: "unit op_state" where
  "demo_delivered = set_caller 1 demo_key (Returned (Some 0) (Inr ())) demo_finished"

lemma demo_operations: "op_reachable demo_delivered"
proof -
  have "op_step initial_operations demo_first" unfolding demo_first_def
    by (rule op_step.request [where order = "[]" and owner = False])
      (simp_all add: initial_operations_def begin_operation_def checkOpen_def unshared_key_def join_table_def make_room_def
        maxOperations_def reinstall_required_def demo_key_def)
  moreover have "op_step demo_first demo_second" unfolding demo_second_def
    by (rule op_step.request [where order = "[demo_key]" and owner = False])
      (simp_all add: demo_first_def initial_operations_def begin_operation_def checkOpen_def unshared_key_def join_table_def demo_key_def set_caller_def)
  moreover have "op_step demo_second demo_finished" unfolding demo_finished_def
    by (rule op_step.finish) (simp add: demo_second_def demo_first_def)
  moreover have "op_step demo_finished demo_delivered" unfolding demo_delivered_def
    by (rule op_step.deliver) (simp_all add: demo_finished_def demo_second_def finish_entry_def execute_once_def)
  ultimately show ?thesis by (meson r_into_rtranclp rtranclp_trans)
qed

theorem operations_run_once_witness:
  "length (os_table demo_delivered) \<le> 256 \<and> os_callers demo_delivered 0 = Some (demo_key, Returned (Some 0) (Inr ())) \<and>
   os_callers demo_delivered 1 = Some (demo_key, Returned (Some 0) (Inr ()))"
proof -
  have "os_callers demo_delivered 0 = Some (demo_key, Returned (Some 0) (Inr ()))"
    by (simp add: demo_delivered_def demo_finished_def execute_once_def)
  moreover have "os_callers demo_delivered 1 = Some (demo_key, Returned (Some 0) (Inr ()))" by (simp add: demo_delivered_def)
  ultimately show ?thesis using operations_run_once [OF demo_operations] by blast
qed

end
