(* ===== verification/Runtime_Routing.thy ===== *)
theory Runtime_Routing
  imports Runtime_Settings Catalog Document
begin

text \<open>
  \<open>internal/runtime/routing.go\<close> and the selection of the GLOBAL exit in \<open>manager.go\<close>: the routing mode and the exit are
  changed in the running core first, confirmed by reading them back, and only then saved; when the core or the
  save fails, the old values are put back and confirmed, or the manager refuses further mutations.
\<close>

section \<open>The core's controller\<close>

record proxy =
  px_Type :: string
  px_Now :: string
  px_All :: "string list"

text \<open>The calls to the running core, whose state has the type \<open>'c\<close>. A call that fails may have taken effect.\<close>

record 'c controller =
  ct_Configs :: "(document, 'c) io"
  ct_Proxies :: "((string \<times> proxy) list, 'c) io"
  ct_SelectProxy :: "string \<Rightarrow> string \<Rightarrow> (unit, 'c) io"
  ct_PatchMode :: "string \<Rightarrow> (unit, 'c) io"

text \<open>What the manager has beside its settings: the core and \<open>routingMessage\<close>.\<close>

record 'c routing_world =
  ro_core :: 'c
  ro_message :: string

type_synonym 'c routing_manager = "'c routing_world manager"

record 'c routing_env =
  rv_settings :: manager_env
  rv_controller :: "'c controller option"
  rv_subscriptions :: "catalog option"

definition on_core :: "('a, 'c) io \<Rightarrow> ('a, 'c routing_manager) io" where
  "on_core act m = (case act (ro_core (mg_os m)) of (r, c) \<Rightarrow> (r, m\<lparr>mg_os := (mg_os m)\<lparr>ro_core := c\<rparr>\<rparr>))"

definition set_message :: "string \<Rightarrow> 'c routing_manager \<Rightarrow> 'c routing_manager" where
  "set_message s m = m\<lparr>mg_os := (mg_os m)\<lparr>ro_message := s\<rparr>\<rparr>"

definition routingArgument :: "string \<Rightarrow> go_error" where
  "routingArgument message = Api (api CodeInvalidArgument message)"

definition routingUnavailable :: "string \<Rightarrow> go_error option \<Rightarrow> go_error" where
  "routingUnavailable message cause = Failure (api CodeUpstreamFailure message) cause"

section \<open>Observation\<close>

definition routingSubscriptionID :: "'c routing_env \<Rightarrow> 'c routing_manager \<Rightarrow> string" where
  "routingSubscriptionID env m = (case rv_subscriptions env of Some c \<Rightarrow> cat_ActiveID c | None \<Rightarrow> ActiveSubscription (mg_snapshot m))"

definition routingCoreStopped :: "'c routing_manager \<Rightarrow> bool" where
  "routingCoreStopped m \<longleftrightarrow> (let core = Core (mg_snapshot m) in
     core_PID core = 0 \<and> (core_Status core = ''stopped'' \<or> core_Status core = ''missing''))"

record routing_status =
  rs_Revision :: u64
  rs_DesiredMode :: string
  rs_LiveMode :: string
  rs_State :: string
  rs_SubscriptionID :: string
  rs_GlobalSelection :: string
  rs_LiveGlobalSelection :: string
  rs_Message :: string

definition savedRoutingStatus :: "'c routing_env \<Rightarrow> 'c routing_manager \<Rightarrow> routing_status" where
  "savedRoutingStatus env m =
     (let s = settingsSnapshot m; sid = routingSubscriptionID env m in
      \<lparr>rs_Revision = Revision (mg_snapshot m), rs_DesiredMode = RoutingMode s, rs_LiveMode = [], rs_State = ''unknown'',
       rs_SubscriptionID = sid, rs_GlobalSelection = GlobalSelection s sid, rs_LiveGlobalSelection = [], rs_Message = ro_message (mg_os m)\<rparr>)"

definition mode_field :: "document \<Rightarrow> string" where
  "mode_field d = (case map_of d ''mode'' of Some (AStr s) \<Rightarrow> s | _ \<Rightarrow> [])"

definition observeRoutingMode :: "'c routing_env \<Rightarrow> (string, 'c routing_manager) io" where
  "observeRoutingMode env =
     (case rv_controller env of
        None \<Rightarrow> throw (routingUnavailable ''mihomo controller is unavailable'' None)
      | Some ct \<Rightarrow>
          bindE (on_core (ct_Configs ct)) (\<lambda>document.
          bindE (guardE (ValidRoutingMode (mode_field document)) (routingUnavailable ''mihomo returned an invalid routing mode'' None)) (\<lambda>_.
          ret (mode_field document))))"

definition observeGlobal :: "'c routing_env \<Rightarrow> (proxy, 'c routing_manager) io" where
  "observeGlobal env =
     (case rv_controller env of
        None \<Rightarrow> throw (routingUnavailable ''mihomo controller is unavailable'' None)
      | Some ct \<Rightarrow>
          bindE (on_core (ct_Proxies ct)) (\<lambda>proxies.
          case map_of proxies ''GLOBAL'' of
            None \<Rightarrow> throw (routingUnavailable ''GLOBAL group is unavailable'' None)
          | Some grp \<Rightarrow> ret grp))"

definition RoutingStatus :: "'c routing_env \<Rightarrow> op_ctx \<Rightarrow> (routing_status, 'c routing_manager) io" where
  "RoutingStatus env c =
     bindE (lockMaintenance c) (\<lambda>_. \<lambda>m.
     (let status = savedRoutingStatus env m in
      if routingCoreStopped m then (Inr (status\<lparr>rs_State := ''pending''\<rparr>), m)
      else
        bindE (tryE (observeRoutingMode env)) (\<lambda>mode.
        case mode of
          Inl _ \<Rightarrow> ret (status\<lparr>rs_Message := ''Routing state is unavailable''\<rparr>)
        | Inr mode \<Rightarrow>
            bindE (tryE (observeGlobal env)) (\<lambda>grp. \<lambda>m1.
            (let s1 = status\<lparr>rs_LiveMode := mode,
                   rs_State := (if mode = rs_DesiredMode status \<and> \<not> mg_mutationDegraded m1 then ''applied'' else rs_State status)\<rparr>;
                 s2 = (case grp of Inr g \<Rightarrow> s1\<lparr>rs_LiveGlobalSelection := px_Now g\<rparr> | Inl _ \<Rightarrow> s1);
                 differs = (case grp of Inl _ \<Rightarrow> True | Inr g \<Rightarrow> px_Now g \<noteq> rs_GlobalSelection status) in
             (Inr (if (rs_DesiredMode status = ''global'' \<or> rs_GlobalSelection status \<noteq> []) \<and> differs
                then s2\<lparr>rs_State := ''unknown''\<rparr> else s2), m1)))) m))"

section \<open>Changing the running core\<close>

text \<open>The error of a call as a value.\<close>

definition attempt :: "(unit, 's) io \<Rightarrow> (go_error option, 's) io" where
  "attempt act s = (case act s of (Inl e, s') \<Rightarrow> (Inr (Some e), s') | (Inr _, s') \<Rightarrow> (Inr None, s'))"

definition controller_call :: "'c routing_env \<Rightarrow> ('c controller \<Rightarrow> (unit, 'c) io) \<Rightarrow> (unit, 'c routing_manager) io" where
  "controller_call env f = (case rv_controller env of None \<Rightarrow> throw (routingUnavailable ''mihomo controller is unavailable'' None) | Some ct \<Rightarrow> on_core (f ct))"

definition select_exit :: "'c routing_env \<Rightarrow> string \<Rightarrow> (go_error option, 'c routing_manager) io" where
  "select_exit env exit =
     (if exit = [] then ret None
      else bindE (observeGlobal env) (\<lambda>grp.
        if px_Now grp \<noteq> exit then attempt (controller_call env (\<lambda>ct. ct_SelectProxy ct ''GLOBAL'' exit)) else ret None))"

definition patch_mode :: "'c routing_env \<Rightarrow> string \<Rightarrow> go_error option \<Rightarrow> (go_error option, 'c routing_manager) io" where
  "patch_mode env mode applyErr =
     (if applyErr \<noteq> None then ret applyErr
      else bindE (tryE (observeRoutingMode env)) (\<lambda>now.
        case now of
          Inl e \<Rightarrow> ret (Some e)
        | Inr live \<Rightarrow> if live \<noteq> mode then attempt (controller_call env (\<lambda>ct. ct_PatchMode ct mode)) else ret None))"

definition confirm_routing :: "'c routing_env \<Rightarrow> string \<Rightarrow> string \<Rightarrow> go_error option \<Rightarrow> (unit, 'c routing_manager) io" where
  "confirm_routing env mode exit applyErr =
     (let unconfirmed = (\<lambda>e. routingUnavailable ''routing change could not be confirmed'' (errors_join [applyErr, e])) in
      bindE (tryE (observeRoutingMode env)) (\<lambda>observed.
      case observed of
        Inl e \<Rightarrow> throw (unconfirmed (Some e))
      | Inr live \<Rightarrow>
          if live \<noteq> mode then throw (unconfirmed None)
          else if exit = [] then ret ()
          else bindE (tryE (observeGlobal env)) (\<lambda>grp.
            case grp of
              Inl e \<Rightarrow> throw (unconfirmed (errors_join [None, Some e]))
            | Inr g \<Rightarrow> if px_Now g = exit then ret () else throw (unconfirmed None))))"

definition applyRoutingLive :: "'c routing_env \<Rightarrow> string \<Rightarrow> string \<Rightarrow> (unit, 'c routing_manager) io" where
  "applyRoutingLive env mode exit =
     bindE (select_exit env exit) (\<lambda>selectErr.
     bindE (patch_mode env mode selectErr) (\<lambda>applyErr.
     confirm_routing env mode exit applyErr))"

definition recovery_unconfirmed :: string where
  "recovery_unconfirmed = ''Routing recovery could not be confirmed; restart required''"

definition degraded_routing :: api_error where
  "degraded_routing = \<lparr>err_code = CodeUpstreamFailure, err_message = recovery_unconfirmed, err_details = [(''degraded'', DBool True)]\<rparr>"

definition compensateRouting :: "'c routing_env \<Rightarrow> string \<Rightarrow> string \<Rightarrow> go_error \<Rightarrow> ('a, 'c routing_manager) io" where
  "compensateRouting env mode exit cause m =
     (case applyRoutingLive env mode exit m of
        (Inl e, m1) \<Rightarrow> (Inl (Failure degraded_routing (errors_join [Some cause, Some e])), set_message recovery_unconfirmed (m1\<lparr>mg_mutationDegraded := True\<rparr>))
      | (Inr _, m1) \<Rightarrow> (Inl cause, m1))"

section \<open>Changing the intent\<close>

text \<open>Exits of subscriptions that are gone are forgotten.\<close>

definition prune_selections :: "catalog option \<Rightarrow> settings \<Rightarrow> settings" where
  "prune_selections catalog s =
     (case (catalog, Routing s) of
        (Some c, Some r) \<Rightarrow> s\<lparr>Routing := Some (r\<lparr>rt_GlobalSelections :=
          map_option (filter (\<lambda>(sid, _). Index c sid \<noteq> None)) (rt_GlobalSelections r)\<rparr>)\<rparr>
      | _ \<Rightarrow> s)"

record routing_plan =
  rp_mode :: string
  rp_exit :: string
  rp_after :: settings
  rp_message :: string

text \<open>What becomes of the wanted mode and exit, given the candidates of the GLOBAL group.\<close>

definition plan_exit :: "string \<Rightarrow> string \<Rightarrow> string \<Rightarrow> settings \<Rightarrow> proxy \<Rightarrow> go_error + routing_plan" where
  "plan_exit mode explicitExit saved after grp =
     (let selectable = equal_fold (px_Type grp) ''selector'' in
      if explicitExit \<noteq> [] then
        (if \<not> selectable \<or> explicitExit \<notin> set (px_All grp)
         then Inl (routingArgument ''GLOBAL candidate is unavailable or not selectable'')
         else Inr \<lparr>rp_mode = mode, rp_exit = explicitExit, rp_after = after, rp_message = []\<rparr>)
      else if \<not> selectable \<or> saved \<notin> set (px_All grp) then
        (if selectable \<and> ''DIRECT'' \<in> set (px_All grp)
         then Inr \<lparr>rp_mode = mode, rp_exit = ''DIRECT'', rp_after = after, rp_message = ''GLOBAL uses DIRECT; the saved exit was unavailable''\<rparr>
         else Inr \<lparr>rp_mode = (if mode = ''global'' then ''rule'' else mode), rp_exit = [],
           rp_after = (if mode = ''global'' then SetRoutingMode after ''rule'' else after),
           rp_message = ''GLOBAL exit is unavailable; choose an exit before using Global''\<rparr>)
      else Inr \<lparr>rp_mode = mode, rp_exit = saved, rp_after = after, rp_message = []\<rparr>)"

definition plan_routing :: "string \<Rightarrow> string \<Rightarrow> string \<Rightarrow> string \<Rightarrow> settings \<Rightarrow> proxy option \<Rightarrow> go_error + routing_plan" where
  "plan_routing mode explicitExit sid saved after grp =
     (case grp of
        None \<Rightarrow> Inr \<lparr>rp_mode = mode, rp_exit = saved, rp_after = after, rp_message = []\<rparr>
      | Some g \<Rightarrow>
          (case plan_exit mode explicitExit saved after g of
             Inl e \<Rightarrow> Inl e
           | Inr p \<Rightarrow> Inr (if rp_exit p \<noteq> saved then p\<lparr>rp_after := SetGlobalSelection (rp_after p) sid (rp_exit p)\<rparr> else p)))"

definition routing_candidate :: "settings \<Rightarrow> settings \<Rightarrow> settings_candidate" where
  "routing_candidate before after = \<lparr>sc_before = before, sc_after = after, sc_changed = (before \<noteq> after), sc_generation = 0\<rparr>"

definition save_stopped :: "'c routing_env \<Rightarrow> settings \<Rightarrow> settings \<Rightarrow> string \<Rightarrow> (routing_status \<times> bool, 'c routing_manager) io" where
  "save_stopped env before after explicitExit =
     (case Validate (me_parse (rv_settings env)) after of
        Some e \<Rightarrow> throw e
      | None \<Rightarrow>
          bindE (guardE (explicitExit = []) (routingUnavailable ''GLOBAL candidates are unavailable while the core is stopped'' None)) (\<lambda>_. \<lambda>m.
          (let cand = routing_candidate before after in
           case saveSettingsCandidate (rv_settings env) cand m of
             ((_, Some e), m1) \<Rightarrow> (Inl e, m1)
           | ((_, None), m1) \<Rightarrow>
               (let m2 = set_message ''Saved; waiting for the core to start'' (publishSettings cand m1) in
                (Inr ((savedRoutingStatus env m2)\<lparr>rs_State := ''pending''\<rparr>, sc_changed cand), m2)))))"

text \<open>The plan is carried out: in the core, then in the settings.\<close>

definition old_now :: "proxy option \<Rightarrow> string" where
  "old_now oldGlobal = (case oldGlobal of None \<Rightarrow> [] | Some g \<Rightarrow> px_Now g)"

definition live_changed :: "string \<Rightarrow> proxy option \<Rightarrow> routing_plan \<Rightarrow> bool" where
  "live_changed oldMode oldGlobal p \<longleftrightarrow> oldMode \<noteq> rp_mode p \<or> (rp_exit p \<noteq> [] \<and> rp_exit p \<noteq> old_now oldGlobal)"

definition save_routing ::
  "'c routing_env \<Rightarrow> settings \<Rightarrow> bool \<Rightarrow> string \<Rightarrow> proxy option \<Rightarrow> routing_plan \<Rightarrow> (routing_status \<times> bool, 'c routing_manager) io" where
  "save_routing env before restore oldMode oldGlobal p m =
     (let changed = live_changed oldMode oldGlobal p; cand = routing_candidate before (rp_after p) in
      case saveSettingsCandidate (rv_settings env) cand m of
        ((_, Some e), m1) \<Rightarrow> (if changed then compensateRouting env oldMode (old_now oldGlobal) e m1 else (Inl e, m1))
      | ((_, None), m1) \<Rightarrow>
          (let m2 = publishSettings cand m1;
               m3 = (if \<not> restore \<or> sc_changed cand \<or> changed then set_message (rp_message p) m2 else m2);
               status = (savedRoutingStatus env m3)\<lparr>rs_LiveMode := rp_mode p, rs_State := ''applied'',
                 rs_LiveGlobalSelection := (case oldGlobal of None \<Rightarrow> [] | Some g \<Rightarrow> if rp_exit p \<noteq> [] then rp_exit p else px_Now g)\<rparr> in
           (Inr (status, sc_changed cand \<or> changed), m3)))"

definition change_live :: "'c routing_env \<Rightarrow> string \<Rightarrow> proxy option \<Rightarrow> routing_plan \<Rightarrow> (unit, 'c routing_manager) io" where
  "change_live env oldMode oldGlobal p =
     (if live_changed oldMode oldGlobal p
      then catchE (applyRoutingLive env (rp_mode p) (rp_exit p)) (compensateRouting env oldMode (old_now oldGlobal))
      else ret ())"

definition commit_routing ::
  "'c routing_env \<Rightarrow> settings \<Rightarrow> bool \<Rightarrow> string \<Rightarrow> proxy option \<Rightarrow> routing_plan \<Rightarrow> (routing_status \<times> bool, 'c routing_manager) io" where
  "commit_routing env before restore oldMode oldGlobal p =
     (case Validate (me_parse (rv_settings env)) (rp_after p) of
        Some e \<Rightarrow> throw e
      | None \<Rightarrow> bindE (change_live env oldMode oldGlobal p) (\<lambda>_. save_routing env before restore oldMode oldGlobal p))"

definition changeRoutingLocked ::
  "'c routing_env \<Rightarrow> op_ctx \<Rightarrow> string \<Rightarrow> string \<Rightarrow> bool \<Rightarrow> bool \<Rightarrow> (routing_status \<times> bool, 'c routing_manager) io" where
  "changeRoutingLocked env c mode explicitExit restore stopped =
     bindE (ctxErr c) (\<lambda>_. \<lambda>m.
     (let before = settingsSnapshot m;
          after = prune_selections (rv_subscriptions env) (if mode \<noteq> RoutingMode before then SetRoutingMode (Clone before) mode else Clone before);
          sid = routingSubscriptionID env m;
          saved = GlobalSelection before sid in
      if stopped then save_stopped env before after explicitExit m
      else
        bindE (mapE (\<lambda>e. routingUnavailable ''read routing state before apply'' (Some e)) (observeRoutingMode env)) (\<lambda>oldMode.
        bindE (if mode = ''global'' \<or> saved \<noteq> [] \<or> explicitExit \<noteq> []
          then mapE (\<lambda>e. routingUnavailable ''read GLOBAL candidates before apply'' (Some e)) (bindE (observeGlobal env) (\<lambda>g. ret (Some g)))
          else ret None) (\<lambda>oldGlobal.
        case plan_routing mode explicitExit sid saved after oldGlobal of
          Inl e \<Rightarrow> throw e
        | Inr p \<Rightarrow> commit_routing env before restore oldMode oldGlobal p)) m))"

definition degraded_error :: "go_error \<Rightarrow> bool" where
  "degraded_error e = (case as_api e of None \<Rightarrow> False | Some a \<Rightarrow> map_of (err_details a) ''degraded'' = Some (DBool True))"

definition source_meta :: "string \<Rightarrow> string \<Rightarrow> command_meta" where
  "source_meta i source = \<lparr>meta_ID = i, meta_Source = source, IfRevision = None\<rparr>"

definition markRoutingDegraded :: "go_error \<Rightarrow> 'c routing_manager \<Rightarrow> 'c routing_manager" where
  "markRoutingDegraded e m =
     (if \<not> degraded_error e then m
      else snd (updateStateLocked (source_meta [] ''routing'')
        (\<lambda>s. (s\<lparr>Health := ''degraded'', LastError := recovery_unconfirmed\<rparr>, None)) m))"

definition bump_state :: "command_meta \<Rightarrow> (unit, 'c routing_manager) io" where
  "bump_state meta = bindE (updateStateLocked meta (\<lambda>s. (s, None))) (\<lambda>_. ret ())"

definition change_and_publish ::
  "'c routing_env \<Rightarrow> op_ctx \<Rightarrow> command_meta \<Rightarrow> string \<Rightarrow> string \<Rightarrow> bool \<Rightarrow> bool \<Rightarrow> (routing_status, 'c routing_manager) io" where
  "change_and_publish env c meta mode explicitExit restore stopped m =
     (case changeRoutingLocked env c mode explicitExit restore stopped m of
        (Inl e, m1) \<Rightarrow> (Inl e, markRoutingDegraded e m1)
      | (Inr (status, changed), m1) \<Rightarrow> bindE (if changed then bump_state meta else ret ()) (\<lambda>_. ret status) m1)"

definition UpdateRouting ::
  "'c routing_env \<Rightarrow> op_ctx \<Rightarrow> u64 option \<Rightarrow> string \<Rightarrow> string \<Rightarrow> string \<Rightarrow> (routing_status, 'c routing_manager) io" where
  "UpdateRouting env c revision i source mode =
     bindE (guardE (ValidRoutingMode mode) (routingArgument ''invalid routing mode'')) (\<lambda>_.
     bindE (lockMutation c) (\<lambda>_.
     bindE (checkIfRevision revision) (\<lambda>_. \<lambda>m.
     bindE (change_and_publish env c (source_meta i source) mode [] False (routingCoreStopped m)) (\<lambda>status. \<lambda>m1.
       (Inr (status\<lparr>rs_Revision := Revision (mg_snapshot m1)\<rparr>), m1)) m)))"

definition RestoreRouting :: "'c routing_env \<Rightarrow> op_ctx \<Rightarrow> (unit, 'c routing_manager) io" where
  "RestoreRouting env c =
     bindE (lockMutation c) (\<lambda>_. \<lambda>m.
     bindE (change_and_publish env c (source_meta [] ''routing-restore'') (RoutingMode (settingsSnapshot m)) [] True False) (\<lambda>_. ret ()) m)"

text \<open>\<open>SelectProxy\<close> for the GLOBAL group.\<close>

definition SelectGlobal :: "'c routing_env \<Rightarrow> op_ctx \<Rightarrow> u64 option \<Rightarrow> string \<Rightarrow> string \<Rightarrow> string \<Rightarrow> (unit, 'c routing_manager) io" where
  "SelectGlobal env c revision i source name =
     bindE (guardE (name \<noteq> []) (routingArgument ''GLOBAL selection is empty'')) (\<lambda>_.
     bindE (lockMutation c) (\<lambda>_.
     bindE (checkIfRevision revision) (\<lambda>_. \<lambda>m.
     bindE (change_and_publish env c (source_meta i source) (RoutingMode (settingsSnapshot m)) name False (routingCoreStopped m)) (\<lambda>_. ret ()) m)))"

section \<open>What the core answers\<close>

text \<open>The controller reads what the core does and changes nothing by reading, and a change of the mode leaves the exit alone. Nothing is
  asked of the outcome of a write.\<close>

definition faithful_controller :: "'c controller \<Rightarrow> ('c \<Rightarrow> string) \<Rightarrow> ('c \<Rightarrow> string) \<Rightarrow> bool" where
  "faithful_controller ct live exit \<longleftrightarrow>
     (\<forall>c r c'. ct_Configs ct c = (r, c') \<longrightarrow> live c' = live c \<and> exit c' = exit c \<and> (\<forall>d. r = Inr d \<longrightarrow> mode_field d = live c)) \<and>
     (\<forall>c r c'. ct_Proxies ct c = (r, c') \<longrightarrow> live c' = live c \<and> exit c' = exit c \<and>
        (\<forall>ps g. r = Inr ps \<longrightarrow> map_of ps ''GLOBAL'' = Some g \<longrightarrow> px_Now g = exit c)) \<and>
     (\<forall>mode c r c'. ct_PatchMode ct mode c = (r, c') \<longrightarrow> exit c' = exit c)"

abbreviation in_core :: "('c \<Rightarrow> 'a) \<Rightarrow> 'c routing_manager \<Rightarrow> 'a" where
  "in_core f m \<equiv> f (ro_core (mg_os m))"

text \<open>An operation on the core only.\<close>

definition core_only :: "'c routing_manager \<Rightarrow> 'c routing_manager \<Rightarrow> bool" where
  "core_only m m' \<longleftrightarrow> (\<exists>c. m' = m\<lparr>mg_os := (mg_os m)\<lparr>ro_core := c\<rparr>\<rparr>)"

lemma core_only_refl [simp]: "core_only m m"
  unfolding core_only_def by (rule exI [of _ "ro_core (mg_os m)"]) simp

lemma core_only_trans: "core_only m1 m2 \<Longrightarrow> core_only m2 m3 \<Longrightarrow> core_only m1 m3"
  by (auto simp: core_only_def)

lemma core_only_keeps: "core_only m m' \<Longrightarrow> mg_settings m' = mg_settings m \<and> mg_fs m' = mg_fs m \<and> mg_snapshot m' = mg_snapshot m \<and> mg_mutationDegraded m' = mg_mutationDegraded m"
  by (auto simp: core_only_def)

lemma on_core_only: "on_core act m = (r, m') \<Longrightarrow> core_only m m'"
  by (auto simp: on_core_def core_only_def split: prod.splits)

text \<open>The same with the routing of the core as it was.\<close>

definition reads :: "('c \<Rightarrow> string) \<Rightarrow> ('c \<Rightarrow> string) \<Rightarrow> 'c routing_manager \<Rightarrow> 'c routing_manager \<Rightarrow> bool" where
  "reads live exit m m' \<longleftrightarrow> core_only m m' \<and> in_core live m' = in_core live m \<and> in_core exit m' = in_core exit m"

lemma reads_refl [simp]: "reads live exit m m"
  by (simp add: reads_def)

lemma observe_mode:
  assumes "faithful_controller ct live exit" "rv_controller env = Some ct" "observeRoutingMode env m = (r, m')"
  shows "reads live exit m m' \<and> (\<forall>x. r = Inr x \<longrightarrow> x = in_core live m)"
proof -
  obtain y c where c: "ct_Configs ct (ro_core (mg_os m)) = (y, c)" by fastforce
  from assms(1) [unfolded faithful_controller_def, THEN conjunct1, THEN spec, THEN spec, THEN spec, THEN mp, OF c]
  have "live c = in_core live m" "exit c = in_core exit m" "\<forall>d. y = Inr d \<longrightarrow> mode_field d = in_core live m" by auto
  then show ?thesis using assms(2,3) c
    by (cases y) (auto simp: observeRoutingMode_def bindE_def on_core_def guardE_def ret_def throw_def reads_def core_only_def split: if_splits)
qed

lemma observe_global:
  assumes "faithful_controller ct live exit" "rv_controller env = Some ct" "observeGlobal env m = (r, m')"
  shows "reads live exit m m' \<and> (\<forall>g. r = Inr g \<longrightarrow> px_Now g = in_core exit m)"
proof -
  obtain y c where c: "ct_Proxies ct (ro_core (mg_os m)) = (y, c)" by fastforce
  from assms(1) [unfolded faithful_controller_def, THEN conjunct2, THEN conjunct1, THEN spec, THEN spec, THEN spec, THEN mp, OF c]
  have "live c = in_core live m" "exit c = in_core exit m"
    "\<forall>ps g. y = Inr ps \<longrightarrow> map_of ps ''GLOBAL'' = Some g \<longrightarrow> px_Now g = in_core exit m" by auto
  then show ?thesis using assms(2,3) c
    by (cases y) (auto simp: observeGlobal_def bindE_def on_core_def ret_def throw_def reads_def core_only_def split: option.splits)
qed

lemma attempt_call:
  assumes "attempt (controller_call env f) m = (r, m')" "rv_controller env = Some ct"
  shows "core_only m m' \<and> (\<exists>e. r = Inr e) \<and> (\<exists>x. f ct (ro_core (mg_os m)) = (x, ro_core (mg_os m')))"
  using assms by (auto simp: attempt_def controller_call_def on_core_def core_only_def split: prod.splits sum.splits)

lemma select_result:
  assumes "faithful_controller ct live exit" "rv_controller env = Some ct" "select_exit env e m = (r, m')"
  shows "core_only m m' \<and> (e = [] \<longrightarrow> reads live exit m m')"
proof (cases "e = []")
  case False
  then have s: "bindE (observeGlobal env) (\<lambda>grp.
        if px_Now grp \<noteq> e then attempt (controller_call env (\<lambda>ct. ct_SelectProxy ct ''GLOBAL'' e)) else ret None) m = (r, m')"
    using assms(3) by (simp add: select_exit_def)
  then show ?thesis
  proof (cases rule: bindE_cases)
    case (stop x)
    then show ?thesis using observe_global [OF assms(1,2)] False by (auto simp: reads_def)
  next
    case (go g m1)
    then have "core_only m m1" using observe_global [OF assms(1,2)] by (auto simp: reads_def)
    moreover have "core_only m1 m'" using go(2) attempt_call [OF _ assms(2)] by (auto simp: ret_def split: if_splits)
    ultimately show ?thesis using False core_only_trans by blast
  qed
qed (use assms(3) in \<open>auto simp: select_exit_def ret_def\<close>)

lemma patch_result:
  assumes "faithful_controller ct live exit" "rv_controller env = Some ct" "patch_mode env mode e m = (r, m')"
  shows "core_only m m' \<and> in_core exit m' = in_core exit m \<and> (\<exists>x. r = Inr x)"
proof (cases "e = None")
  case True
  then obtain now m1 where o: "observeRoutingMode env m = (now, m1)"
    and p: "(case now of Inl e \<Rightarrow> ret (Some e) | Inr l \<Rightarrow> if l \<noteq> mode then attempt (controller_call env (\<lambda>ct. ct_PatchMode ct mode)) else ret None) m1 = (r, m')"
    using assms(3) by (fastforce simp: patch_mode_def bindE_def tryE_def split: prod.splits)
  have m1: "reads live exit m m1" using observe_mode [OF assms(1,2) o] by blast
  show ?thesis
  proof (cases "\<exists>l. now = Inr l \<and> l \<noteq> mode")
    case True
    then have a: "attempt (controller_call env (\<lambda>ct. ct_PatchMode ct mode)) m1 = (r, m')" using p by auto
    from attempt_call [OF a assms(2)] have "core_only m1 m'" "\<exists>e. r = Inr e" "\<exists>x. ct_PatchMode ct mode (ro_core (mg_os m1)) = (x, ro_core (mg_os m'))" by auto
    moreover from this have "in_core exit m' = in_core exit m1" using assms(1) by (auto simp: faithful_controller_def)
    ultimately show ?thesis using m1 core_only_trans unfolding reads_def by fastforce
  next
    case False
    then show ?thesis using p m1 by (auto simp: ret_def reads_def split: sum.splits if_splits)
  qed
qed (use assms(3) in \<open>auto simp: patch_mode_def ret_def\<close>)

lemma reads_trans: "reads live exit m1 m2 \<Longrightarrow> reads live exit m2 m3 \<Longrightarrow> reads live exit m1 m3"
  using core_only_trans by (fastforce simp: reads_def)

lemma confirm_result:
  assumes "faithful_controller ct live exit" "rv_controller env = Some ct" "confirm_routing env mode e a m = (r, m')"
  shows "reads live exit m m' \<and> (r = Inr () \<longrightarrow> in_core live m = mode \<and> (e \<noteq> [] \<longrightarrow> in_core exit m = e))"
proof -
  obtain o1 m1 where o: "observeRoutingMode env m = (o1, m1)" by fastforce
  have m1: "reads live exit m m1" "\<forall>x. o1 = Inr x \<longrightarrow> x = in_core live m" using observe_mode [OF assms(1,2) o] by auto
  obtain g m2 where g: "observeGlobal env m1 = (g, m2)" by fastforce
  have m2: "reads live exit m1 m2" "\<forall>p. g = Inr p \<longrightarrow> px_Now p = in_core exit m" using observe_global [OF assms(1,2) g] m1 by (auto simp: reads_def)
  show ?thesis using assms(3) o g m1 m2 reads_trans [OF m1(1) m2(1)]
    by (auto simp: confirm_routing_def bindE_def tryE_def throw_def ret_def Let_def split: sum.splits if_splits)
qed

lemma apply_result:
  assumes "faithful_controller ct live exit" "rv_controller env = Some ct" "applyRoutingLive env mode e m = (r, m')"
  shows "core_only m m' \<and> (e = [] \<longrightarrow> in_core exit m' = in_core exit m) \<and>
    (r = Inr () \<longrightarrow> in_core live m' = mode \<and> (e \<noteq> [] \<longrightarrow> in_core exit m' = e))"
  using assms(3) unfolding applyRoutingLive_def
proof (cases rule: bindE_cases)
  case (stop x)
  then show ?thesis using select_result [OF assms(1,2)] by (auto simp: reads_def)
next
  case (go s m1)
  have m1: "core_only m m1" "e = [] \<longrightarrow> reads live exit m m1" using select_result [OF assms(1,2) go(1)] by auto
  from go(2) show ?thesis
  proof (cases rule: bindE_cases)
    case (stop x)
    then show ?thesis using patch_result [OF assms(1,2) stop(1)] by auto
  next
    case (go a m2)
    have m2: "core_only m1 m2" "in_core exit m2 = in_core exit m1" using patch_result [OF assms(1,2) go(1)] by auto
    have c: "reads live exit m2 m'" "r = Inr () \<longrightarrow> in_core live m2 = mode \<and> (e \<noteq> [] \<longrightarrow> in_core exit m2 = e)"
      using confirm_result [OF assms(1,2) go(2)] by auto
    have "core_only m m'" using m1(1) m2(1) c(1) core_only_trans unfolding reads_def by blast
    then show ?thesis using m1 m2 c by (auto simp: reads_def)
  qed
qed

text \<open>After a failure the routing is as it was, or the manager is degraded.\<close>

lemma compensate_result:
  assumes "faithful_controller ct live exit" "rv_controller env = Some ct" "compensateRouting env mode e cause m = (r, m')"
  shows "(\<exists>x. r = Inl x) \<and> mg_settings m' = mg_settings m \<and> mg_fs m' = mg_fs m \<and>
    (mg_mutationDegraded m' \<or> in_core live m' = mode \<and> (if e = [] then in_core exit m' = in_core exit m else in_core exit m' = e))"
proof -
  obtain a m1 where ap: "applyRoutingLive env mode e m = (a, m1)" by fastforce
  note ar = apply_result [OF assms(1,2) ap]
  then show ?thesis using assms(3) ap core_only_keeps [of m m1]
    by (cases a) (auto simp: compensateRouting_def set_message_def)
qed

section \<open>The intent\<close>

lemma map_of_kept: "map_of (filter (\<lambda>(k, _). P k) xs) k = (if P k then map_of xs k else None)"
  by (induction xs) auto

lemma prune_keeps: "RoutingMode (prune_selections c s) = RoutingMode s"
  "(case c of Some k \<Rightarrow> sid = [] \<or> Index k sid \<noteq> None | None \<Rightarrow> True) \<Longrightarrow> GlobalSelection (prune_selections c s) sid = GlobalSelection s sid"
  by (auto simp: prune_selections_def RoutingMode_def GlobalSelection_def map_get_def map_of_kept split: option.splits)

text \<open>The plan saves what it applies. It gives up the wanted mode only for rule, when Global has no exit.\<close>

lemma plan_result:
  assumes "plan_routing mode explicitExit sid saved after grp = Inr p" "RoutingMode after = mode" "GlobalSelection after sid = saved"
  shows "RoutingMode (rp_after p) = rp_mode p \<and> GlobalSelection (rp_after p) sid = rp_exit p \<and> (grp = None \<longrightarrow> rp_exit p = saved) \<and>
    (rp_mode p = mode \<or> mode = ''global'' \<and> rp_mode p = ''rule'' \<and> rp_exit p = []) \<and>
    (explicitExit \<noteq> [] \<and> grp \<noteq> None \<longrightarrow> rp_mode p = mode \<and> rp_exit p = explicitExit)"
  using assms routing_intent_laws
  by (auto simp: plan_routing_def plan_exit_def Let_def split: option.splits sum.splits if_splits)

lemma save_publish:
  assumes "saveSettingsCandidate env (routing_candidate (mg_settings m) after) m = ((x, e), m1)" "file_agrees env m"
  shows "settings_only m m1 \<and> mg_settings m1 = mg_settings m \<and> (e \<noteq> None \<longrightarrow> file_agrees env m1) \<and>
    (e = None \<longrightarrow> mg_settings (publishSettings (routing_candidate (mg_settings m) after) m1) = after \<and>
       file_agrees env (publishSettings (routing_candidate (mg_settings m) after) m1))"
proof -
  let ?c = "routing_candidate (mg_settings m) after"
  have ch: "sc_changed ?c \<longleftrightarrow> mg_settings m \<noteq> after" "sc_after ?c = after" by (simp_all add: routing_candidate_def)
  show ?thesis
  proof (cases "me_path env")
    case None
    then have "e = None" "m1 = m" using save_no_path [OF None, of ?c m] assms(1) by auto
    then show ?thesis using None ch by (auto simp: publishSettings_def file_agrees_def)
  next
    case (Some db)
    then obtain d b where db: "me_path env = Some (d, b)" by (cases db) auto
    note r = save_result [OF assms(1) db]
    show ?thesis using r assms(2) db ch
      by (cases "mg_settings m = after"; cases e) (auto simp: publishSettings_def file_agrees_def split: sum.splits)
  qed
qed

lemma message_keeps [simp]: "mg_settings (set_message s m) = mg_settings m" "mg_fs (set_message s m) = mg_fs m"
  "in_core f (set_message s m) = in_core f m" "file_agrees env (set_message s m) = file_agrees env m"
  "mg_mutationDegraded (set_message s m) = mg_mutationDegraded m"
  by (auto simp: set_message_def)

text \<open>The routing of the core as it was, as far as it can be put back.\<close>

definition routing_kept :: "('c \<Rightarrow> string) \<Rightarrow> ('c \<Rightarrow> string) \<Rightarrow> 'c routing_manager \<Rightarrow> 'c routing_manager \<Rightarrow> bool" where
  "routing_kept live exit m m' \<longleftrightarrow> mg_mutationDegraded m' \<or>
     in_core live m' = in_core live m \<and> (in_core exit m \<noteq> [] \<longrightarrow> in_core exit m' = in_core exit m)"

lemma core_only_agrees: "core_only m m' \<Longrightarrow> file_agrees env m' = file_agrees env m"
  using core_only_keeps by (metis file_agrees_cong)

lemma settings_only_core: "settings_only m m' \<Longrightarrow> in_core f m' = in_core f m"
  using settings_only_keeps(5) by metis

lemma publish_core [simp]: "in_core f (publishSettings c m) = in_core f m"
  by (simp add: publishSettings_def)

lemma compensate_keeps:
  assumes "faithful_controller ct live exit" "rv_controller env = Some ct" "compensateRouting env (in_core live m0) oldNow cause m = (r, m')"
    and "mg_settings m = mg_settings m0" "file_agrees (rv_settings env) m" "oldNow \<noteq> [] \<longrightarrow> oldNow = in_core exit m0"
    and "oldNow = [] \<longrightarrow> in_core exit m0 = [] \<or> in_core exit m = in_core exit m0"
  shows "(\<exists>e. r = Inl e) \<and> mg_settings m' = mg_settings m0 \<and> file_agrees (rv_settings env) m' \<and> routing_kept live exit m0 m'"
  using compensate_result [OF assms(1-3)] assms(4-7) file_agrees_cong [of m' m "rv_settings env"]
  by (auto simp: routing_kept_def split: if_splits)

lemma live_result:
  assumes f: "faithful_controller ct live exit" "rv_controller env = Some ct"
    and c: "change_live env (in_core live m) oldGlobal p m = (x, m1)" and a: "file_agrees (rv_settings env) m"
    and now: "old_now oldGlobal \<noteq> [] \<longrightarrow> old_now oldGlobal = in_core exit m" "rp_exit p \<noteq> [] \<longrightarrow> old_now oldGlobal = in_core exit m"
  shows "case x of Inl _ \<Rightarrow> mg_settings m1 = mg_settings m \<and> file_agrees (rv_settings env) m1 \<and> routing_kept live exit m m1
    | Inr _ \<Rightarrow> core_only m m1 \<and> in_core live m1 = rp_mode p \<and> (rp_exit p \<noteq> [] \<longrightarrow> in_core exit m1 = rp_exit p) \<and>
        (rp_exit p = [] \<longrightarrow> in_core exit m1 = in_core exit m)"
proof (cases "live_changed (in_core live m) oldGlobal p")
  case False
  then show ?thesis using c now by (auto simp: change_live_def ret_def live_changed_def)
next
  case True
  obtain y m2 where y: "applyRoutingLive env (rp_mode p) (rp_exit p) m = (y, m2)" by fastforce
  note ar = apply_result [OF f y]
  show ?thesis
  proof (cases y)
    case (Inl e)
    then have cp: "compensateRouting env (in_core live m) (old_now oldGlobal) e m2 = (x, m1)" using True c y by (simp add: catchE_def change_live_def)
    have "mg_settings m2 = mg_settings m" "file_agrees (rv_settings env) m2" using ar core_only_keeps core_only_agrees a by blast+
    moreover have "old_now oldGlobal = [] \<longrightarrow> in_core exit m = [] \<or> in_core exit m2 = in_core exit m" using now ar by auto
    ultimately show ?thesis using compensate_keeps [OF f cp _ _ now(1)] by auto
  next
    case (Inr u)
    then show ?thesis using True c y ar by (auto simp: catchE_def change_live_def)
  qed
qed

lemma commit_result:
  assumes f: "faithful_controller ct live exit" "rv_controller env = Some ct"
    and c: "commit_routing env (mg_settings m) restore (in_core live m) oldGlobal p m = (r, m')"
    and a: "file_agrees (rv_settings env) m"
    and g: "\<forall>g. oldGlobal = Some g \<longrightarrow> px_Now g = in_core exit m" "oldGlobal = None \<longrightarrow> rp_exit p = []"
  shows "file_agrees (rv_settings env) m' \<and>
    (case r of Inl _ \<Rightarrow> mg_settings m' = mg_settings m \<and> routing_kept live exit m m'
     | Inr (status, _) \<Rightarrow> mg_settings m' = rp_after p \<and> in_core live m' = rp_mode p \<and> (rp_exit p \<noteq> [] \<longrightarrow> in_core exit m' = rp_exit p) \<and>
         rs_LiveMode status = rp_mode p)"
proof (cases "Validate (me_parse (rv_settings env)) (rp_after p)")
  case (Some e)
  then show ?thesis using c a by (auto simp: commit_routing_def throw_def routing_kept_def)
next
  case None
  have now: "old_now oldGlobal \<noteq> [] \<longrightarrow> old_now oldGlobal = in_core exit m" "rp_exit p \<noteq> [] \<longrightarrow> old_now oldGlobal = in_core exit m"
    using g by (auto simp: old_now_def split: option.splits)
  from c None have "bindE (change_live env (in_core live m) oldGlobal p) (\<lambda>_. save_routing env (mg_settings m) restore (in_core live m) oldGlobal p) m = (r, m')"
    by (simp add: commit_routing_def)
  then show ?thesis
  proof (cases rule: bindE_cases)
    case (stop e)
    then show ?thesis using live_result [OF f stop(1) a now] by auto
  next
    case (go u m1)
    have m1: "core_only m m1" "in_core live m1 = rp_mode p" "rp_exit p \<noteq> [] \<longrightarrow> in_core exit m1 = rp_exit p"
      "rp_exit p = [] \<longrightarrow> in_core exit m1 = in_core exit m" using live_result [OF f go(1) a now] by auto
    have s1: "mg_settings m1 = mg_settings m" "file_agrees (rv_settings env) m1" using m1(1) core_only_keeps core_only_agrees a by blast+
    let ?cand = "routing_candidate (mg_settings m) (rp_after p)"
    obtain res e m2 where sv: "saveSettingsCandidate (rv_settings env) ?cand m1 = ((res, e), m2)" by (metis surj_pair)
    have sp: "settings_only m1 m2" "mg_settings m2 = mg_settings m" "e \<noteq> None \<longrightarrow> file_agrees (rv_settings env) m2"
      "e = None \<longrightarrow> mg_settings (publishSettings ?cand m2) = rp_after p \<and> file_agrees (rv_settings env) (publishSettings ?cand m2)"
      using save_publish [of "rv_settings env" m1 "rp_after p" res e m2] sv s1 by auto
    have m2: "in_core live m2 = in_core live m1" "in_core exit m2 = in_core exit m1" using settings_only_core [OF sp(1)] by auto
    let ?changed = "live_changed (in_core live m) oldGlobal p"
    consider (ok) "e = None" | (undo) err where "e = Some err" "?changed" | (plain) err where "e = Some err" "\<not> ?changed" by blast
    then show ?thesis
    proof cases
      case ok
      then show ?thesis using go(2) sv sp(4) m1 m2 by (auto simp: save_routing_def Let_def)
    next
      case (undo err)
      then have cp: "compensateRouting env (in_core live m) (old_now oldGlobal) err m2 = (r, m')" using go(2) sv by (simp add: save_routing_def)
      have "old_now oldGlobal = [] \<longrightarrow> in_core exit m = [] \<or> in_core exit m2 = in_core exit m" using now m1(4) m2 by auto
      then show ?thesis using compensate_keeps [OF f cp sp(2) _ now(1)] sp(3) undo by auto
    next
      case (plain err)
      then have "r = Inl err" "m' = m2" using go(2) sv by (auto simp: save_routing_def)
      then show ?thesis using plain sp m1 m2 now by (auto simp: routing_kept_def live_changed_def)
    qed
  qed
qed

text \<open>The active subscription is in the catalog.\<close>

definition active_known :: "'c routing_env \<Rightarrow> bool" where
  "active_known env \<longleftrightarrow> (case rv_subscriptions env of None \<Rightarrow> True | Some k \<Rightarrow> cat_ActiveID k = [] \<or> Index k (cat_ActiveID k) \<noteq> None)"

text \<open>The outcome for a running core: what it does is what is saved.\<close>

definition routing_set :: "'c routing_env \<Rightarrow> ('c \<Rightarrow> string) \<Rightarrow> ('c \<Rightarrow> string) \<Rightarrow> string \<Rightarrow> string \<Rightarrow> 'c routing_manager \<Rightarrow> 'c routing_manager \<Rightarrow> bool" where
  "routing_set env live exit mode explicitExit m m' \<longleftrightarrow>
     (let now = RoutingMode (mg_settings m'); chosen = GlobalSelection (mg_settings m') (routingSubscriptionID env m) in
      in_core live m' = now \<and> (chosen \<noteq> [] \<longrightarrow> in_core exit m' = chosen) \<and>
      (now = mode \<or> mode = ''global'' \<and> now = ''rule'' \<and> chosen = []) \<and>
      (explicitExit \<noteq> [] \<longrightarrow> now = mode \<and> chosen = explicitExit))"

text \<open>The outcome for a stopped core: the mode is saved, the exits are as they were.\<close>

definition routing_pending :: "'c routing_env \<Rightarrow> string \<Rightarrow> 'c routing_manager \<Rightarrow> 'c routing_manager \<Rightarrow> bool" where
  "routing_pending env mode m m' \<longleftrightarrow> RoutingMode (mg_settings m') = mode \<and> ro_core (mg_os m') = ro_core (mg_os m) \<and>
     GlobalSelection (mg_settings m') (routingSubscriptionID env m) = GlobalSelection (mg_settings m) (routingSubscriptionID env m)"

definition locked_outcome ::
  "'c routing_env \<Rightarrow> ('c \<Rightarrow> string) \<Rightarrow> ('c \<Rightarrow> string) \<Rightarrow> string \<Rightarrow> string \<Rightarrow> bool \<Rightarrow> 'c routing_manager \<Rightarrow> go_error + routing_status \<Rightarrow> 'c routing_manager \<Rightarrow> bool" where
  "locked_outcome env live exit mode explicitExit stopped m r m' \<longleftrightarrow> file_agrees (rv_settings env) m' \<and>
     (case r of
        Inl _ \<Rightarrow> mg_settings m' = mg_settings m \<and> routing_kept live exit m m'
      | Inr status \<Rightarrow>
          if stopped then rs_State status = ''pending'' \<and> explicitExit = [] \<and> routing_pending env mode m m'
          else rs_State status = ''applied'' \<and> rs_LiveMode status = in_core live m' \<and> routing_set env live exit mode explicitExit m m')"

lemma wanted_settings:
  assumes "active_known env" "mode \<noteq> []"
  shows "RoutingMode (prune_selections (rv_subscriptions env) (if mode \<noteq> RoutingMode s then SetRoutingMode s mode else s)) = mode"
    "GlobalSelection (prune_selections (rv_subscriptions env) (if mode \<noteq> RoutingMode s then SetRoutingMode s mode else s)) (routingSubscriptionID env m) =
     GlobalSelection s (routingSubscriptionID env m)"
proof -
  show "RoutingMode (prune_selections (rv_subscriptions env) (if mode \<noteq> RoutingMode s then SetRoutingMode s mode else s)) = mode"
    using assms(2) routing_intent_laws by (simp add: prune_keeps)
  have "case rv_subscriptions env of Some k \<Rightarrow> routingSubscriptionID env m = [] \<or> Index k (routingSubscriptionID env m) \<noteq> None | None \<Rightarrow> True"
    using assms(1) by (auto simp: active_known_def routingSubscriptionID_def split: option.splits)
  then show "GlobalSelection (prune_selections (rv_subscriptions env) (if mode \<noteq> RoutingMode s then SetRoutingMode s mode else s)) (routingSubscriptionID env m) =
     GlobalSelection s (routingSubscriptionID env m)"
    using routing_intent_laws by (simp add: prune_keeps)
qed

lemma stopped_result:
  assumes "save_stopped env (mg_settings m) after explicitExit m = (r, m')" "file_agrees (rv_settings env) m"
    and "RoutingMode after = mode" "GlobalSelection after (routingSubscriptionID env m) = GlobalSelection (mg_settings m) (routingSubscriptionID env m)"
  shows "locked_outcome env live exit mode explicitExit True m (map_sum id fst r) m'"
proof (cases "Validate (me_parse (rv_settings env)) after = None \<and> explicitExit = []")
  case False
  then show ?thesis using assms(1,2)
    by (auto simp: save_stopped_def throw_def bindE_def guardE_def locked_outcome_def routing_kept_def split: option.splits)
next
  case True
  let ?c = "routing_candidate (mg_settings m) after"
  obtain res e m1 where sv: "saveSettingsCandidate (rv_settings env) ?c m = ((res, e), m1)" by (metis surj_pair)
  note sp = save_publish [OF sv assms(2)]
  have "mg_os m1 = mg_os m" using sp settings_only_keeps(5) by blast
  then show ?thesis using assms True sv sp
    by (cases e) (auto simp: save_stopped_def bindE_def guardE_def ret_def locked_outcome_def routing_kept_def routing_pending_def Let_def)
qed


lemma mapE_state: "mapE f act m = (r, m') \<Longrightarrow> \<exists>x. act m = (x, m') \<and> (\<forall>v. r = Inr v \<longrightarrow> x = Inr v)"
  by (auto simp: mapE_def split: prod.splits sum.splits)

lemma same_subscription: "mg_snapshot m' = mg_snapshot m \<Longrightarrow> routingSubscriptionID env m' = routingSubscriptionID env m"
  by (simp add: routingSubscriptionID_def cong: option.case_cong)

lemma core_reads_keeps:
  assumes "reads live exit m m'"
  shows "mg_settings m' = mg_settings m" "mg_snapshot m' = mg_snapshot m" "in_core live m' = in_core live m" "in_core exit m' = in_core exit m"
    "file_agrees env m' = file_agrees env m" "routingSubscriptionID renv m' = routingSubscriptionID renv m"
  using assms core_only_keeps [of m m'] core_only_agrees [of m m' env] same_subscription [of m' m renv] by (simp_all add: reads_def)

lemma reads_outcome:
  assumes "reads live exit m m'" "file_agrees (rv_settings env) m"
  shows "locked_outcome env live exit mode explicitExit stopped m (Inl e) m'"
  using assms(2) core_reads_keeps [OF assms(1)] by (simp add: locked_outcome_def routing_kept_def)

text \<open>The outcome carries over from where the core was only read.\<close>

lemma outcome_after_reads:
  assumes "reads live exit m m1" "locked_outcome env live exit mode explicitExit False m1 r m'"
  shows "locked_outcome env live exit mode explicitExit False m r m'"
  using assms(2) core_reads_keeps(1,3,4) [OF assms(1)] core_reads_keeps(6) [OF assms(1), of env]
  by (simp add: locked_outcome_def routing_set_def routing_kept_def cong: sum.case_cong)

lemma commit_outcome:
  assumes f: "faithful_controller ct live exit" "rv_controller env = Some ct" and a: "file_agrees (rv_settings env) m"
    and p: "plan_routing mode explicitExit (routingSubscriptionID env m) saved after oldGlobal = Inr p"
    and w: "RoutingMode after = mode" "GlobalSelection after (routingSubscriptionID env m) = saved"
    and c: "commit_routing env (mg_settings m) restore (in_core live m) oldGlobal p m = (r, m')"
    and g: "\<forall>g. oldGlobal = Some g \<longrightarrow> px_Now g = in_core exit m" "oldGlobal = None \<longrightarrow> saved = [] \<and> explicitExit = []"
  shows "locked_outcome env live exit mode explicitExit False m (map_sum id fst r) m'"
proof -
  note pr = plan_result [OF p w]
  have n: "oldGlobal = None \<longrightarrow> rp_exit p = []" using pr g(2) by auto
  note cr = commit_result [OF f c a g(1) n]
  show ?thesis
  proof (cases r)
    case (Inl e)
    then show ?thesis using cr by (simp add: locked_outcome_def)
  next
    case (Inr x)
    obtain st ch where x: "x = (st, ch)" by fastforce
    have "rs_State st = ''applied''" using c Inr x
      by (auto simp: commit_routing_def save_routing_def compensateRouting_def throw_def Let_def elim!: bindE_cases split: option.splits prod.splits sum.splits if_splits)
    then show ?thesis using cr pr g(2) Inr x by (auto simp: locked_outcome_def routing_set_def Let_def)
  qed
qed

lemma reads_result:
  assumes f: "faithful_controller ct live exit" "rv_controller env = Some ct" and a: "file_agrees (rv_settings env) m"
    and w: "RoutingMode after = mode" "GlobalSelection after (routingSubscriptionID env m) = saved"
    and c: "bindE (mapE f1 (observeRoutingMode env)) (\<lambda>oldMode.
        bindE (if mode = ''global'' \<or> saved \<noteq> [] \<or> explicitExit \<noteq> []
          then mapE f2 (bindE (observeGlobal env) (\<lambda>g. ret (Some g))) else ret None) (\<lambda>oldGlobal.
        case plan_routing mode explicitExit (routingSubscriptionID env m) saved after oldGlobal of
          Inl e \<Rightarrow> throw e
        | Inr p \<Rightarrow> commit_routing env (mg_settings m) restore oldMode oldGlobal p)) m = (r, m')"
  shows "locked_outcome env live exit mode explicitExit False m (map_sum id fst r) m'"
  using c
proof (cases rule: bindE_cases)
  case (stop e)
  then obtain x where "observeRoutingMode env m = (x, m')" using mapE_state [OF stop(1)] by auto
  then have "reads live exit m m'" using observe_mode [OF f] by blast
  then show ?thesis using stop reads_outcome a by simp
next
  case (go oldMode m1)
  then obtain x where "observeRoutingMode env m = (x, m1)" "x = Inr oldMode" using mapE_state [OF go(1)] by auto
  then have m1: "reads live exit m m1" "oldMode = in_core live m" using observe_mode [OF f] by auto
  from go(2) show ?thesis
  proof (cases rule: bindE_cases)
    case (stop e)
    then obtain x where "bindE (observeGlobal env) (\<lambda>g. ret (Some g)) m1 = (x, m')"
      using mapE_state [of f2 "bindE (observeGlobal env) (\<lambda>g. ret (Some g))" m1 "Inl e" m'] by (auto simp: ret_def split: if_splits)
    then have "reads live exit m1 m'" using observe_global [OF f] by (auto simp: ret_def elim!: bindE_cases)
    then show ?thesis using stop reads_outcome [OF reads_trans [OF m1(1)] a] by simp
  next
    case (go oldGlobal m2)
    have g: "reads live exit m1 m2 \<and> (\<forall>g. oldGlobal = Some g \<longrightarrow> px_Now g = in_core exit m1) \<and> (oldGlobal = None \<longrightarrow> saved = [] \<and> explicitExit = [])"
    proof (cases "mode = ''global'' \<or> saved \<noteq> [] \<or> explicitExit \<noteq> []")
      case True
      then obtain x where "bindE (observeGlobal env) (\<lambda>g. ret (Some g)) m1 = (x, m2)" "x = Inr oldGlobal" using go(1) mapE_state by fastforce
      then show ?thesis using observe_global [OF f] by (auto simp: ret_def elim!: bindE_cases)
    qed (use go(1) in \<open>auto simp: ret_def\<close>)
    then have m2: "reads live exit m m2" using reads_trans [OF m1(1)] by blast
    note k = core_reads_keeps [OF m2]
    have sid: "routingSubscriptionID env m2 = routingSubscriptionID env m" and a2: "file_agrees (rv_settings env) m2" using k a by simp_all
    have gs: "\<forall>g. oldGlobal = Some g \<longrightarrow> px_Now g = in_core exit m2" "oldGlobal = None \<longrightarrow> saved = [] \<and> explicitExit = []"
      using g core_reads_keeps(4) [OF m1(1)] k(4) by auto
    show ?thesis
    proof (cases "plan_routing mode explicitExit (routingSubscriptionID env m) saved after oldGlobal")
      case (Inl e)
      then show ?thesis using go(2) reads_outcome [OF m2 a] by (auto simp: throw_def)
    next
      case (Inr p)
      then have cm: "commit_routing env (mg_settings m2) restore (in_core live m2) oldGlobal p m2 = (r, m')" using go(2) m1(2) k(1,3) by simp
      from commit_outcome [OF f a2 Inr [folded sid] w(1) w(2) [folded sid] cm gs]
      show ?thesis using outcome_after_reads [OF m2] by blast
    qed
  qed
qed

lemma outcome_cong:
  assumes "settings_only m m1" "mg_settings m1 = mg_settings m"
  shows "locked_outcome env live exit mode explicitExit stopped m1 r m' = locked_outcome env live exit mode explicitExit stopped m r m'"
  using assms(2) settings_only_keeps [OF assms(1)] same_subscription [of m1 m env]
  by (simp add: locked_outcome_def routing_set_def routing_kept_def routing_pending_def cong: sum.case_cong)

lemma locked_result:
  assumes f: "faithful_controller ct live exit" "rv_controller env = Some ct" and a: "file_agrees (rv_settings env) m" and k: "active_known env" "mode \<noteq> []"
    and c: "changeRoutingLocked env cx mode explicitExit restore stopped m = (r, m')"
  shows "locked_outcome env live exit mode explicitExit stopped m (map_sum id fst r) m'"
  using c unfolding changeRoutingLocked_def
proof (cases rule: bindE_cases)
  case (stop e)
  have m': "mg_settings m' = mg_settings m" "mg_fs m' = mg_fs m" "settings_only m m'" using ctxErr_only [OF stop(1)] by auto
  then have "file_agrees (rv_settings env) m'" using a file_agrees_cong by blast
  then show ?thesis using stop m' settings_only_keeps(5) [OF m'(3)] by (simp add: locked_outcome_def routing_kept_def)
next
  case (go u m1)
  have m1: "mg_settings m1 = mg_settings m" "mg_fs m1 = mg_fs m" "settings_only m m1" using ctxErr_only [OF go(1)] by auto
  have a1: "file_agrees (rv_settings env) m1" using a m1 file_agrees_cong by blast
  define after where "after = prune_selections (rv_subscriptions env) (if mode \<noteq> RoutingMode (mg_settings m1) then SetRoutingMode (mg_settings m1) mode else mg_settings m1)"
  define saved where "saved = GlobalSelection (mg_settings m1) (routingSubscriptionID env m1)"
  note w = wanted_settings [OF k, of "mg_settings m1", folded after_def] wanted_settings(2) [OF k, of "mg_settings m1" m1, folded after_def saved_def]
  have "locked_outcome env live exit mode explicitExit stopped m1 (map_sum id fst r) m'"
  proof (cases stopped)
    case True
    then have "save_stopped env (mg_settings m1) after explicitExit m1 = (r, m')" using go(2)
      unfolding after_def settingsSnapshot_def Clone_id by (simp add: Let_def)
    then show ?thesis using True stopped_result [OF _ a1 w(1,2)] by simp
  next
    case False
    have "bindE (mapE (\<lambda>e. routingUnavailable ''read routing state before apply'' (Some e)) (observeRoutingMode env)) (\<lambda>oldMode.
        bindE (if mode = ''global'' \<or> saved \<noteq> [] \<or> explicitExit \<noteq> []
          then mapE (\<lambda>e. routingUnavailable ''read GLOBAL candidates before apply'' (Some e)) (bindE (observeGlobal env) (\<lambda>g. ret (Some g)))
          else ret None) (\<lambda>oldGlobal.
        case plan_routing mode explicitExit (routingSubscriptionID env m1) saved after oldGlobal of
          Inl e \<Rightarrow> throw e
        | Inr p \<Rightarrow> commit_routing env (mg_settings m1) restore oldMode oldGlobal p)) m1 = (r, m')"
      using go(2) False unfolding after_def saved_def settingsSnapshot_def Clone_id by (simp add: Let_def)
    then show ?thesis using False reads_result [OF f a1 w(1,3)] by simp
  qed
  then show ?thesis using outcome_cong [OF m1(3,1)] by blast
qed


section \<open>The operations\<close>

lemma mark_keeps:
  "mg_settings (markRoutingDegraded e m) = mg_settings m" "mg_fs (markRoutingDegraded e m) = mg_fs m" "mg_os (markRoutingDegraded e m) = mg_os m"
  "mg_mutationDegraded (markRoutingDegraded e m) = mg_mutationDegraded m"
  by (auto simp: markRoutingDegraded_def updateStateLocked_def split: prod.splits option.splits)

lemma bump_keeps:
  "bump_state (source_meta i source) m = (r, m') \<Longrightarrow> r = Inr () \<and> mg_settings m' = mg_settings m \<and> mg_fs m' = mg_fs m \<and> mg_os m' = mg_os m"
  by (auto simp: bump_state_def bindE_def ret_def source_meta_def updateStateLocked_def coordinator_Do_def apply_mutation_def Let_def split: prod.splits option.splits)

lemma published_result:
  assumes f: "faithful_controller ct live exit" "rv_controller env = Some ct" and a: "file_agrees (rv_settings env) m" and k: "active_known env" "mode \<noteq> []"
    and c: "change_and_publish env cx (source_meta i source) mode explicitExit restore stopped m = (r, m')"
  shows "locked_outcome env live exit mode explicitExit stopped m r m'"
proof -
  obtain x m1 where x: "changeRoutingLocked env cx mode explicitExit restore stopped m = (x, m1)" by fastforce
  note o = locked_result [OF f a k x]
  show ?thesis
  proof (cases x)
    case (Inl e)
    then have "r = Inl e" "m' = markRoutingDegraded e m1" using c x by (auto simp: change_and_publish_def)
    then show ?thesis using o Inl mark_keeps [of e m1] file_agrees_cong [of m' m1 "rv_settings env"]
      by (simp add: locked_outcome_def routing_kept_def)
  next
    case (Inr y)
    then obtain status changed where y: "x = Inr (status, changed)" by (cases y) auto
    then have "bindE (if changed then bump_state (source_meta i source) else ret ()) (\<lambda>_. ret status) m1 = (r, m')"
      using c x by (simp add: change_and_publish_def)
    then have "r = Inr status \<and> mg_settings m' = mg_settings m1 \<and> mg_fs m' = mg_fs m1 \<and> mg_os m' = mg_os m1"
      by (auto simp: ret_def elim!: bindE_cases dest!: bump_keeps split: if_splits)
    then show ?thesis using o y file_agrees_cong [of m' m1 "rv_settings env"]
      by (cases stopped) (simp_all add: locked_outcome_def routing_set_def routing_pending_def)
  qed
qed

text \<open>Locking and the revision check leave all this alone.\<close>

lemma checked_state:
  assumes "lockMutation cx m = (x, m1)" "checkIfRevision v m1 = (y, m2)"
  shows "settings_only m m1 \<and> mg_settings m1 = mg_settings m \<and> mg_fs m1 = mg_fs m \<and> m2 = m1"
  using lock_only [OF assms(1)] assms(2) by (auto simp: checkIfRevision_def guardE_eq split: option.splits)

lemma update_result:
  assumes f: "faithful_controller ct live exit" "rv_controller env = Some ct" and a: "file_agrees (rv_settings env) m" and k: "active_known env"
    and c: "UpdateRouting env cx v i source mode m = (r, m')"
  shows "locked_outcome env live exit mode [] (routingCoreStopped m) m r m'"
proof (cases "ValidRoutingMode mode")
  case False
  then show ?thesis using c a by (auto simp: UpdateRouting_def bindE_def guardE_def throw_def locked_outcome_def routing_kept_def)
next
  case True
  then have "mode \<noteq> []" by (auto simp: ValidRoutingMode_def)
  obtain x m1 where x: "lockMutation cx m = (x, m1)" by fastforce
  obtain y m2 where y: "checkIfRevision v m1 = (y, m2)" by fastforce
  have m1: "settings_only m m1" "mg_settings m1 = mg_settings m" "mg_fs m1 = mg_fs m" "m2 = m1" using checked_state [OF x y] by auto
  have a1: "file_agrees (rv_settings env) m1" using a m1 file_agrees_cong by blast
  have st: "routingCoreStopped m1 = routingCoreStopped m" using settings_only_keeps(1) [OF m1(1)] by (simp add: routingCoreStopped_def)
  have refuse: "locked_outcome env live exit mode [] (routingCoreStopped m) m (Inl e) m1" for e
    using a1 m1 settings_only_keeps(5) [OF m1(1)] by (simp add: locked_outcome_def routing_kept_def)
  obtain z m3 where z: "change_and_publish env cx (source_meta i source) mode [] False (routingCoreStopped m1) m1 = (z, m3)" by fastforce
  have o: "locked_outcome env live exit mode [] (routingCoreStopped m) m z m3"
    using published_result [OF f a1 k \<open>mode \<noteq> []\<close> z] outcome_cong [OF m1(1,2)] st by simp
  have "(\<exists>e. r = Inl e) \<and> m' = m1 \<or> m' = m3 \<and> (case z of Inl e \<Rightarrow> r = Inl e | Inr status \<Rightarrow> r = Inr (status\<lparr>rs_Revision := Revision (mg_snapshot m3)\<rparr>))"
    using c True x y z m1(4) by (cases x; cases y; cases z) (auto simp: UpdateRouting_def bindE_def guardE_def ret_def)
  then show ?thesis using refuse o by (cases z) (auto simp: locked_outcome_def)
qed

lemma select_global_result:
  assumes f: "faithful_controller ct live exit" "rv_controller env = Some ct" and a: "file_agrees (rv_settings env) m" and k: "active_known env"
    and c: "SelectGlobal env cx v i source name m = (r, m')"
  shows "file_agrees (rv_settings env) m' \<and>
    (case r of Inl _ \<Rightarrow> mg_settings m' = mg_settings m \<and> routing_kept live exit m m'
     | Inr _ \<Rightarrow> \<not> routingCoreStopped m \<and> name \<noteq> [] \<and> routing_set env live exit (RoutingMode (mg_settings m)) name m m')"
proof (cases "name = []")
  case True
  then show ?thesis using c a by (auto simp: SelectGlobal_def bindE_def guardE_def throw_def routing_kept_def)
next
  case False
  obtain x m1 where x: "lockMutation cx m = (x, m1)" by fastforce
  obtain y m2 where y: "checkIfRevision v m1 = (y, m2)" by fastforce
  have m1: "settings_only m m1" "mg_settings m1 = mg_settings m" "mg_fs m1 = mg_fs m" "m2 = m1" using checked_state [OF x y] by auto
  have a1: "file_agrees (rv_settings env) m1" using a m1 file_agrees_cong by blast
  have st: "routingCoreStopped m1 = routingCoreStopped m" using settings_only_keeps(1) [OF m1(1)] by (simp add: routingCoreStopped_def)
  have refuse: "file_agrees (rv_settings env) m1 \<and> mg_settings m1 = mg_settings m \<and> routing_kept live exit m m1"
    using a1 m1 settings_only_keeps(5) [OF m1(1)] by (simp add: routing_kept_def)
  let ?mode = "RoutingMode (mg_settings m)"
  have ne: "?mode \<noteq> []" by (simp add: RoutingMode_def split: option.splits)
  obtain z m3 where z: "change_and_publish env cx (source_meta i source) ?mode name False (routingCoreStopped m1) m1 = (z, m3)" by fastforce
  have o: "locked_outcome env live exit ?mode name (routingCoreStopped m) m z m3"
    using published_result [OF f a1 k ne z] outcome_cong [OF m1(1,2)] st by simp
  have "(\<exists>e. r = Inl e) \<and> m' = m1 \<or> m' = m3 \<and> (case z of Inl e \<Rightarrow> r = Inl e | Inr _ \<Rightarrow> r = Inr ())"
    using c False x y z m1(2,4) by (cases x; cases y; cases z) (auto simp: SelectGlobal_def bindE_def guardE_def ret_def settingsSnapshot_def)
  then show ?thesis using refuse o False by (cases z) (auto simp: locked_outcome_def split: if_splits)
qed

text \<open>C7. A change of the routing mode, or of the exit, takes effect in the core, in the settings in memory and in the settings
  file, or in none of them. On success the running core does what is saved: its mode is the saved mode, and the exit saved
  for the active subscription, when there is one, is the exit it uses; the saved mode is the wanted one, except that Global
  without an exit becomes rule. For a stopped core the mode is saved and the status is pending; an exit cannot be chosen
  then. On failure the settings are as they were and the core has its old mode and exit again, or the manager
  refuses further mutations. The controller may fail at every call, also after it took effect.\<close>

theorem routing_change_outcome:
  assumes "faithful_controller ct live exit" "rv_controller env = Some ct" "file_agrees (rv_settings env) m" "active_known env"
  shows "(case UpdateRouting env cx v i source mode m of (r, m') \<Rightarrow> locked_outcome env live exit mode [] (routingCoreStopped m) m r m') \<and>
    (case SelectGlobal env cx v i source name m of (r, m') \<Rightarrow>
       file_agrees (rv_settings env) m' \<and>
       (case r of Inl _ \<Rightarrow> mg_settings m' = mg_settings m \<and> routing_kept live exit m m'
        | Inr _ \<Rightarrow> \<not> routingCoreStopped m \<and> name \<noteq> [] \<and> routing_set env live exit (RoutingMode (mg_settings m)) name m m'))"
proof -
  obtain r m' where u: "UpdateRouting env cx v i source mode m = (r, m')" by fastforce
  obtain r2 m2 where s: "SelectGlobal env cx v i source name m = (r2, m2)" by fastforce
  show ?thesis using update_result [OF assms u] select_global_result [OF assms s] u s by simp
qed


text \<open>A core with the mode and the exit as its state, and a manager that has saved nothing yet.\<close>

definition route_controller :: "(string \<times> string) controller" where
  "route_controller = \<lparr>ct_Configs = (\<lambda>c. (Inr [(''mode'', AStr (fst c))], c)),
     ct_Proxies = (\<lambda>c. (Inr [(''GLOBAL'', \<lparr>px_Type = ''Selector'', px_Now = snd c, px_All = [''DIRECT'', ''Tokyo'']\<rparr>)], c)),
     ct_SelectProxy = (\<lambda>grp name c. (Inr (), (fst c, name))), ct_PatchMode = (\<lambda>mode c. (Inr (), (mode, snd c)))\<rparr>"

definition route_env :: "(string \<times> string) routing_env" where
  "route_env = \<lparr>rv_settings = \<lparr>me_path = None, me_parse = demo_addr, me_marshal = (\<lambda>_. Inr []), me_rnd = []\<rparr>,
     rv_controller = Some route_controller, rv_subscriptions = None\<rparr>"

definition route_manager :: "(string \<times> string) routing_manager" where
  "route_manager = \<lparr>mg_settings = demo_settings, mg_generation = 0, mg_snapshot = zero_snapshot, mg_mutationDegraded = False,
     mg_coreRecovery = False, mg_coreUpdate = None, mg_closing = False, mg_validationMode = False, mg_activationPhase = [],
     mg_warnings = [], mg_fs = (\<lambda>_. None), mg_faults = [], mg_ctx = [], mg_os = \<lparr>ro_core = (''rule'', ''Tokyo''), ro_message = []\<rparr>\<rparr>"

definition route_ctx :: op_ctx where
  "route_ctx = \<lparr>cx_owner = None, cx_cancellable = True\<rparr>"

lemma route_valid:
  "Validate demo_addr (SetGlobalSelection (SetRoutingMode demo_settings ''global'') [] ''DIRECT'') = None"
  by (simp add: Validate_def validateRouting_def parseEndpoint_def validateTail_def validateTun_def valid_secret_def hex_decode_encode
      EffectiveLogging_def DefaultLoggingSettings_def demo_addr_def demo_settings_def Settings.Defaults_def zero_settings_def
      SetGlobalSelection_def SetRoutingMode_def zero_routing_def ValidRoutingMode_def valid_selection_name_def)

lemma route_facts:
  "Routing demo_settings = None" "RoutingMode demo_settings = ''rule''" "GlobalSelection demo_settings sid = []"
  "ValidRoutingMode ''global''" "ValidRoutingMode ''rule''" "prune_selections None s = s"
  "demo_settings \<noteq> SetGlobalSelection (SetRoutingMode demo_settings ''global'') [] ''DIRECT''"
  by (simp_all add: demo_settings_def Settings.Defaults_def zero_settings_def RoutingMode_def GlobalSelection_def ValidRoutingMode_def
      prune_selections_def SetGlobalSelection_def SetRoutingMode_def Let_def)

lemma route_selector: "equal_fold ''Selector'' ''selector''"
  by code_simp

lemmas route_simps = route_env_def route_ctx_def route_controller_def route_valid
  UpdateRouting_def change_and_publish_def changeRoutingLocked_def plan_routing_def plan_exit_def commit_routing_def change_live_def
  save_routing_def live_changed_def old_now_def routing_candidate_def applyRoutingLive_def select_exit_def patch_mode_def confirm_routing_def
  attempt_def controller_call_def observeRoutingMode_def observeGlobal_def on_core_def mode_field_def routingSubscriptionID_def bump_state_def source_meta_def
  saveSettingsCandidate_def publishSettings_def settingsSnapshot_def updateStateLocked_def coordinator_Do_def apply_mutation_def
  lockMutation_def lockMaintenance_def checkCoreUpdateReservation_def checkIfRevision_def businessMutationAllowed_def
  ctxErr_def bindE_def guardE_def ret_def throw_def mapE_def tryE_def catchE_def

lemma route_applied:
  "\<exists>status. fst (UpdateRouting route_env route_ctx None ''1'' ''cli'' ''global'' route_manager) = Inr status"
  by (simp add: route_simps route_facts route_selector route_manager_def ownsCoreUpdate_def routingCoreStopped_def zero_snapshot_def State_Store.zero_core_def Let_def)


lemma route_faithful: "faithful_controller route_controller fst snd"
  by (simp add: faithful_controller_def route_controller_def mode_field_def)

theorem routing_change_outcome_witness:
  "\<exists>status m'. UpdateRouting route_env route_ctx None ''1'' ''cli'' ''global'' route_manager = (Inr status, m') \<and> rs_State status = ''applied'' \<and>
     rs_LiveMode status = in_core fst m' \<and> routing_set route_env fst snd ''global'' [] route_manager m'"
proof -
  let ?run = "UpdateRouting route_env route_ctx None ''1'' ''cli'' ''global'' route_manager"
  obtain status m' where run: "?run = (Inr status, m')" using route_applied by (cases ?run) auto
  have c: "rv_controller route_env = Some route_controller" by (simp add: route_env_def)
  have a: "file_agrees (rv_settings route_env) route_manager" by (simp add: file_agrees_def route_env_def)
  have k: "active_known route_env" by (simp add: active_known_def route_env_def)
  have n: "\<not> routingCoreStopped route_manager" by (simp add: routingCoreStopped_def route_manager_def zero_snapshot_def State_Store.zero_core_def)
  have "locked_outcome route_env fst snd ''global'' [] False route_manager (Inr status) m'"
    using routing_change_outcome [OF route_faithful c a k, where cx = route_ctx and v = None and i = "''1''" and source = "''cli''" and mode = "''global''"] run n by simp
  then show ?thesis using run by (auto simp: locked_outcome_def)
qed

end
