(* ===== verification/Web_Static.thy ===== *)
theory Web_Static
  imports Catalog Document
begin

text \<open>
  The static side of the web gateway (\<open>internal/web/server.go\<close>, \<open>internal/panel/static_root.go\<close>): which file of which
  panel a request path names, and the rewriting of a panel's index page to its mount point.
\<close>

section \<open>Requests\<close>

text \<open>A request as the handlers read it: header lines carry canonical names, query and form are parsed. The path, the query and the
  request URI are what \<open>net/http\<close> made of one request line; nothing here relates them, so every statement holds for any such parser.\<close>

type_synonym header = "(string \<times> string) list"

record http_request =
  rq_Method :: string
  rq_Path :: string
  rq_Host :: string
  rq_RequestURI :: string
  rq_Query :: "(string \<times> string) list"
  rq_Header :: header
  rq_Form :: "go_error + (string \<times> string) list"
  rq_Body :: string

definition get_first :: "(string \<times> string) list \<Rightarrow> string \<Rightarrow> string" where
  "get_first kvs k = (case map_of kvs k of None \<Rightarrow> [] | Some v \<Rightarrow> v)"

text \<open>\<open>strings.Contains\<close>.\<close>

fun str_contains :: "string \<Rightarrow> string \<Rightarrow> bool" where
  "str_contains [] p = (p = [])"
| "str_contains (c # cs) p = (has_prefix (c # cs) p \<or> str_contains cs p)"

section \<open>Paths\<close>

abbreviation slash :: char where
  "slash \<equiv> CHR ''/''"

text \<open>\<open>path.Clean("/" + p)\<close>: empty and \<open>.\<close> elements are dropped, \<open>..\<close> takes the element before it away.\<close>

definition clean_step :: "string list \<Rightarrow> string \<Rightarrow> string list" where
  "clean_step out c = (if c = [] \<or> c = ''.'' then out else if c = ''..'' then butlast out else out @ [c])"

definition clean_elements :: "string \<Rightarrow> string list" where
  "clean_elements p = foldl clean_step [] (split_on slash p)"

definition clean_root :: "string \<Rightarrow> string" where
  "clean_root p = slash # join_with slash (clean_elements p)"

text \<open>\<open>path.Base\<close>.\<close>

definition path_Base :: "string \<Rightarrow> string" where
  "path_Base p = (if p = [] then ''.''
     else let q = rev (dropWhile (\<lambda>c. c = slash) (rev p)); b = rev (takeWhile (\<lambda>c. c \<noteq> slash) (rev q)) in
       if b = [] then ''/'' else b)"

definition plain_element :: "string \<Rightarrow> bool" where
  "plain_element c \<longleftrightarrow> c \<noteq> [] \<and> c \<noteq> ''.'' \<and> c \<noteq> ''..'' \<and> slash \<notin> set c"

section \<open>Panels\<close>

definition UIPathPrefix :: string where
  "UIPathPrefix = ''/__mihari/panels''"

definition trim_slashes :: "string \<Rightarrow> string" where
  "trim_slashes s = rev (dropWhile (\<lambda>c. c = slash) (rev (dropWhile (\<lambda>c. c = slash) s)))"

definition UIMount :: "string \<Rightarrow> string" where
  "UIMount panelID = (let p = trim_slashes panelID in if p = [] then UIPathPrefix else UIPathPrefix @ slash # p)"

definition panelIDFromPath :: "string \<Rightarrow> string" where
  "panelIDFromPath reqPath =
     (let cleaned = clean_root reqPath; prefix = UIPathPrefix @ [slash] in
      if cleaned = UIPathPrefix \<or> cleaned = UIPathPrefix @ [slash] then []
      else if \<not> has_prefix cleaned prefix then []
      else let panel = trim_space (takeWhile (\<lambda>c. c \<noteq> slash) (drop (length prefix) cleaned)) in
        if panel = [] \<or> str_contains panel ''..'' then [] else panel)"

definition isPanelEntryPath :: "string \<Rightarrow> bool" where
  "isPanelEntryPath reqPath =
     (let cleaned = clean_root reqPath; panelID = panelIDFromPath cleaned in
      cleaned = ''/'' \<or> (panelID \<noteq> [] \<and> (cleaned = UIMount panelID \<or> cleaned = UIMount panelID @ [slash])))"

text \<open>Where panels come from, and the file system below them. A native path is a directory the source named
  with the elements joined to it.\<close>

record panel_source =
  pn_ActiveDir :: "go_error + string"
  pn_SetupPath :: "string \<Rightarrow> string"
  pn_PanelDir :: "string \<Rightarrow> go_error + string"
  pn_SetupPathFor :: "string \<Rightarrow> string \<Rightarrow> string"

type_synonym native_path = "string \<times> string list"

text \<open>\<open>url.Parse\<close> of the Referer, \<open>os.Stat\<close> (whether it is a directory), and \<open>fs.Stat\<close> in a directory.\<close>

record static_env =
  en_url_path :: "string \<Rightarrow> go_error + string"
  en_stat :: "native_path \<Rightarrow> go_error + bool"
  en_dir_stat :: "native_path \<Rightarrow> string \<Rightarrow> go_error + bool"

definition panelIDFromReferer :: "static_env \<Rightarrow> http_request \<Rightarrow> string" where
  "panelIDFromReferer env r =
     (let ref = trim_space (get_first (rq_Header r) ''Referer'') in
      if ref = [] then []
      else case en_url_path env ref of Inl _ \<Rightarrow> [] | Inr p \<Rightarrow> panelIDFromPath p)"

definition staticNames :: "string list" where
  "staticNames = [''registersw.js'', ''sw.js'', ''service-worker.js'', ''manifest.webmanifest'', ''manifest.json'', ''favicon.ico'', ''index.html'']"

definition staticExtensions :: "string list" where
  "staticExtensions = [''.js'', ''.mjs'', ''.css'', ''.map'', ''.svg'', ''.png'', ''.jpg'', ''.jpeg'', ''.gif'', ''.webp'',
     ''.ico'', ''.woff'', ''.woff2'', ''.ttf'', ''.otf'', ''.eot'', ''.webmanifest'', ''.wasm'', ''.html'']"

definition looksLikeStaticAssetPath :: "string \<Rightarrow> bool" where
  "looksLikeStaticAssetPath reqPath =
     (let base = lower_key (path_Base reqPath) in
      base \<noteq> [] \<and> base \<noteq> ''.'' \<and> base \<noteq> ''/'' \<and>
      (base \<in> set staticNames \<or> list_ex (has_suffix base) staticExtensions))"

section \<open>Serving files\<close>

datatype static_response =
    PanelIndex native_path string
  | FileServer native_path string
  | StaticNotFound
  | PanelNotInstalled
  | NoActivePanel

text \<open>The directory of a request, the path below it and the mount that its pages are rewritten to.\<close>

definition static_root :: "panel_source \<Rightarrow> static_env \<Rightarrow> http_request \<Rightarrow> static_response + string \<times> string \<times> string" where
  "static_root panel env r =
     (let reqPath = clean_root (rq_Path r); panelID = panelIDFromPath reqPath in
      if panelID \<noteq> [] then
        (case pn_PanelDir panel panelID of
           Inl _ \<Rightarrow> Inl PanelNotInstalled
         | Inr root \<Rightarrow>
             if root = [] then Inl PanelNotInstalled
             else let servePath = trim_prefix reqPath (UIMount panelID) in
               Inr (root, if servePath = [] then ''/'' else servePath, UIMount panelID))
      else
        (let refID = panelIDFromReferer env r;
             fromRef = (if refID = [] then None
               else case pn_PanelDir panel refID of Inl _ \<Rightarrow> None | Inr root \<Rightarrow> if root = [] then None else Some root) in
         case fromRef of
           Some root \<Rightarrow> Inr (root, reqPath, UIMount refID)
         | None \<Rightarrow>
             (case pn_ActiveDir panel of
                Inl _ \<Rightarrow> Inl NoActivePanel
              | Inr root \<Rightarrow> if root = [] then Inl NoActivePanel else Inr (root, reqPath, []))))"

definition dist_root :: "static_env \<Rightarrow> string \<Rightarrow> native_path" where
  "dist_root env root =
     (case en_stat env (root, [''dist'']) of
        Inr True \<Rightarrow> (case en_stat env (root, [''dist'', ''index.html'']) of Inr _ \<Rightarrow> (root, [''dist'']) | Inl _ \<Rightarrow> (root, []))
      | _ \<Rightarrow> (root, []))"

definition below :: "native_path \<Rightarrow> string list \<Rightarrow> native_path" where
  "below d es = (fst d, snd d @ es)"

definition serve_index :: "static_env \<Rightarrow> native_path \<Rightarrow> string \<Rightarrow> static_response" where
  "serve_index env fileRoot mount =
     (let index = below fileRoot [''index.html''] in
      case en_stat env index of Inr _ \<Rightarrow> PanelIndex index mount | Inl _ \<Rightarrow> StaticNotFound)"

definition serveStatic :: "panel_source option \<Rightarrow> static_env \<Rightarrow> http_request \<Rightarrow> static_response" where
  "serveStatic panel env r =
     (case panel of
        None \<Rightarrow> NoActivePanel
      | Some source \<Rightarrow>
          (case static_root source env r of
             Inl e \<Rightarrow> e
           | Inr (root, servePath, mount) \<Rightarrow>
               (let fileRoot = dist_root env root; upath = clean_root servePath; rel = tl upath in
                if upath = ''/'' then serve_index env fileRoot mount
                else
                  (case en_dir_stat env fileRoot rel of
                     Inr False \<Rightarrow>
                       if equal_fold (path_Base upath) ''index.html''
                       then PanelIndex (below fileRoot (split_on slash rel)) mount
                       else FileServer fileRoot upath
                   | _ \<Rightarrow>
                       if looksLikeStaticAssetPath upath then StaticNotFound
                       else serve_index env fileRoot mount))))"

section \<open>Rewriting an index page\<close>

text \<open>\<open>strings.Index\<close>.\<close>

fun str_index :: "string \<Rightarrow> string \<Rightarrow> nat option" where
  "str_index [] p = (if p = [] then Some 0 else None)"
| "str_index (c # cs) p = (if has_prefix (c # cs) p then Some 0 else map_option Suc (str_index cs p))"

text \<open>\<open>strings.ReplaceAll\<close> for a pattern that is not empty.\<close>

function replace_all :: "string \<Rightarrow> string \<Rightarrow> string \<Rightarrow> string" where
  "replace_all s old new = (case str_index s old of
     None \<Rightarrow> s
   | Some i \<Rightarrow> if old = [] then s else take i s @ new @ replace_all (drop (i + length old) s) old new)"
  by pat_completeness auto

lemma str_index_spec: "str_index s p = Some i \<Longrightarrow> has_prefix (drop i s) p \<and> i \<le> length s \<and> (\<forall>j < i. \<not> has_prefix (drop j s) p)"
proof (induction s arbitrary: i)
  case Nil
  then show ?case by (auto simp: has_prefix_def split: if_splits)
next
  case (Cons c cs)
  show ?case
  proof (cases "has_prefix (c # cs) p")
    case False
    then obtain k where "str_index cs p = Some k" "i = Suc k" using Cons.prems by auto
    with Cons.IH [of k] False show ?thesis by (auto simp: less_Suc_eq_0_disj)
  qed (use Cons.prems in simp)
qed

lemma str_index_length: "str_index s p = Some i \<Longrightarrow> i + length p \<le> length s"
  by (drule str_index_spec) (auto simp: has_prefix_iff dest!: arg_cong [where f = length])

lemma str_index_shorter: "str_index s p = Some i \<Longrightarrow> p \<noteq> [] \<Longrightarrow> length s - (i + length p) < length s"
  using str_index_length [of s p i] by (cases p) auto

termination replace_all
  by (relation "measure (\<lambda>(s, _, _). length s)") (auto dest: str_index_shorter)

declare replace_all.simps [simp del]

definition mounted_at :: "string \<Rightarrow> char \<Rightarrow> string \<Rightarrow> bool" where
  "mounted_at mount quote rest \<longleftrightarrow>
     has_prefix rest ''//'' \<or> has_prefix rest (mount @ [slash]) \<or> has_prefix rest (mount @ [quote])"

function rewriteRootAbsoluteAttr :: "string \<Rightarrow> string \<Rightarrow> string \<Rightarrow> string" where
  "rewriteRootAbsoluteAttr s attr mount = (case str_index s (attr @ [slash]) of
     None \<Rightarrow> s
   | Some i \<Rightarrow>
       (let rest = drop (i + length attr) s; tail = drop (i + length attr + 1) s in
        if mounted_at mount (last attr) rest
        then take (i + length attr + 1) s @ rewriteRootAbsoluteAttr tail attr mount
        else take i s @ attr @ mount @ slash # rewriteRootAbsoluteAttr tail attr mount))"
  by pat_completeness auto
termination
  by (relation "measure (\<lambda>(s, _, _). length s)") (auto dest: str_index_length)

declare rewriteRootAbsoluteAttr.simps [simp del]

definition rewriteRootAbsoluteURLs :: "string \<Rightarrow> string \<Rightarrow> string" where
  "rewriteRootAbsoluteURLs html mount0 =
     (let m = trim_space mount0; mount = (if has_suffix m ''/'' then butlast m else m) in
      if mount = [] \<or> mount = ''/'' then html
      else
        (let s = foldl (\<lambda>s attr. rewriteRootAbsoluteAttr s attr mount) html
               [''src='' @ [CHR 0x22], ''href='' @ [CHR 0x22], ''src='' @ [CHR 0x27], ''href='' @ [CHR 0x27]];
             s1 = replace_all s (CHR 0x22 # ''/assets/'') (CHR 0x22 # mount @ ''/assets/'')
         in replace_all s1 (CHR 0x27 # ''/assets/'') (CHR 0x27 # mount @ ''/assets/'')))"

section \<open>Rewriting is settled after one pass\<close>

lemma str_index_skip:
  "(\<forall>j < length g. \<not> has_prefix (drop j (g @ x)) p) \<Longrightarrow> str_index (g @ x) p = map_option ((+) (length g)) (str_index x p)"
proof (induction g)
  case Nil
  then show ?case by (simp add: option.map_ident)
next
  case (Cons c g)
  have "\<not> has_prefix (c # g @ x) p" using Cons.prems [rule_format, of 0] by simp
  moreover have "\<forall>j < length g. \<not> has_prefix (drop j (g @ x)) p" using Cons.prems by fastforce
  ultimately show ?case using Cons.IH by (simp add: option.map_comp comp_def)
qed

lemma str_index_here:
  assumes "has_prefix (drop i s) p" "\<forall>j < i. \<not> has_prefix (drop j s) p" "i \<le> length s"
  shows "str_index s p = Some i"
proof -
  have "str_index (take i s @ drop i s) p = map_option ((+) (length (take i s))) (str_index (drop i s) p)"
    by (rule str_index_skip) (use assms in simp)
  moreover have "str_index (drop i s) p = Some 0" using assms(1) by (cases "drop i s") (auto simp: has_prefix_def)
  ultimately show ?thesis using assms(3) by simp
qed

lemma prefix_nth: "has_prefix s p \<Longrightarrow> k < length p \<Longrightarrow> s ! k = p ! k \<and> k < length s"
  by (auto simp: has_prefix_iff nth_append)

text \<open>An attribute with its opening quote, and a mount that it cannot overlap with.\<close>

definition attr_of :: "string \<Rightarrow> char \<Rightarrow> string \<Rightarrow> bool" where
  "attr_of attr q m \<longleftrightarrow> (\<exists>name. attr = name @ [CHR ''='', q] \<and> q \<notin> set name) \<and> slash \<notin> set attr \<and> q \<noteq> CHR ''='' \<and>
     q \<notin> set m \<and> CHR ''='' \<notin> set m"

lemma attr_last: "attr_of attr q m \<Longrightarrow> last attr = q"
  by (auto simp: attr_of_def)

lemma attr_positions:
  assumes "attr_of attr q m" "k < length (attr @ [slash])"
  shows "(attr @ [slash]) ! k = slash \<longleftrightarrow> k = length attr" "(attr @ [slash]) ! k = q \<longleftrightarrow> k + 1 = length attr"
    "2 \<le> length attr" "attr ! (length attr - 1) = q" "attr ! (length attr - 2) = CHR ''=''"
proof -
  obtain name where n: "attr = name @ [CHR ''='', q]" "q \<notin> set name" using assms(1) by (auto simp: attr_of_def)
  have s: "slash \<notin> set attr" "q \<noteq> slash" "q \<noteq> CHR ''=''" using assms(1) n by (auto simp: attr_of_def)
  show "(attr @ [slash]) ! k = slash \<longleftrightarrow> k = length attr"
    using s assms(2) by (auto simp: nth_append less_Suc_eq dest: nth_mem)
  show "(attr @ [slash]) ! k = q \<longleftrightarrow> k + 1 = length attr"
    using s n assms(2) by (auto simp: nth_append less_Suc_eq nth_Cons split: nat.splits dest: nth_mem)
  show "2 \<le> length attr" "attr ! (length attr - 1) = q" "attr ! (length attr - 2) = CHR ''=''"
    using n by (simp_all add: nth_append)
qed

lemma region_free:
  assumes "attr_of attr q m" "set g \<subseteq> set m" "e = slash \<or> e = q" "j < length (g @ [e])"
  shows "\<not> has_prefix (drop j ((g @ [e]) @ x)) (attr @ [slash])"
proof
  let ?t = "(g @ [e]) @ x" and ?old = "attr @ [slash]"
  assume h: "has_prefix (drop j ?t) ?old"
  have at: "?t ! (j + k) = ?old ! k" if "k < length ?old" for k
  proof -
    have "drop j ?t ! k = ?t ! (j + k)" by (rule nth_drop) (use assms(4) in simp)
    then show ?thesis using prefix_nth [OF h that] by simp
  qed
  have q: "q \<notin> set g" "CHR ''='' \<notin> set g" using assms(1,2) by (auto simp: attr_of_def)
  define k where "k = length g - j"
  have jk: "j + k = length g" using assms(4) by (simp add: k_def)
  note pos = attr_positions [OF assms(1)]
  have l: "2 \<le> length attr" using pos(3) [of 0] by simp
  show False
  proof (cases "k < length ?old")
    case True
    then have e: "?old ! k = e" using at [OF True] jk by (simp add: nth_append)
    show False
    proof (cases "e = slash")
      case True
      then have "k = length attr" using pos(1) [OF \<open>k < length ?old\<close>] e by simp
      then have "?t ! (j + (length attr - 1)) = q" "j + (length attr - 1) < length g"
        using at [of "length attr - 1"] pos(4) [of 0] l jk by (auto simp: nth_append)
      then show False using q(1) by (auto simp: nth_append in_set_conv_nth)
    next
      case False
      then have "k + 1 = length attr" using pos(2) [OF \<open>k < length ?old\<close>] e assms(3) by simp
      then have "?t ! (j + (length attr - 2)) = CHR ''=''" "j + (length attr - 2) < length g"
        using at [of "length attr - 2"] pos(5) [of 0] l jk by (auto simp: nth_append)
      then show False using q(2) by (auto simp: nth_append in_set_conv_nth)
    qed
  next
    case False
    then have "?t ! (j + (length attr - 1)) = q" "j + (length attr - 1) < length g"
      using at [of "length attr - 1"] pos(4) [of 0] l jk by (auto simp: nth_append)
    then show False using q(1) by (auto simp: nth_append in_set_conv_nth)
  qed
qed

abbreviation rewritten :: "string \<Rightarrow> string \<Rightarrow> string \<Rightarrow> string" where
  "rewritten attr mount s \<equiv> rewriteRootAbsoluteAttr s attr mount"

lemma rewrite_skip:
  assumes "attr_of attr q mount" "set g \<subseteq> set mount" "e = slash \<or> e = q"
  shows "rewritten attr mount (g @ e # x) = g @ e # rewritten attr mount x"
proof -
  have "str_index ((g @ [e]) @ x) (attr @ [slash]) = map_option ((+) (length (g @ [e]))) (str_index x (attr @ [slash]))"
    by (rule str_index_skip) (use region_free [OF assms] in blast)
  then have i: "str_index (g @ e # x) (attr @ [slash]) = map_option ((+) (length g + 1)) (str_index x (attr @ [slash]))" by simp
  show ?thesis
    by (subst rewriteRootAbsoluteAttr.simps, subst (3) rewriteRootAbsoluteAttr.simps)
      (simp add: i Let_def add.assoc split: option.splits)
qed

lemma rewrite_at:
  assumes "attr_of attr q mount" "\<forall>j < length pre. \<not> has_prefix (drop j (pre @ attr @ [slash])) (attr @ [slash])"
  shows "rewritten attr mount (pre @ attr @ slash # y) =
    (if mounted_at mount q (slash # y) then pre @ attr @ slash # rewritten attr mount y
     else pre @ attr @ mount @ slash # rewritten attr mount y)"
proof -
  have "\<not> has_prefix (drop j (pre @ attr @ slash # y)) (attr @ [slash])" if "j < length pre" for j
  proof -
    have "take (length attr + 1) (drop j (pre @ attr @ slash # y)) = take (length attr + 1) (drop j (pre @ attr @ [slash]))"
      using that by (simp add: take_Cons')
    then show ?thesis using assms(2) that by (simp add: has_prefix_def)
  qed
  then have i: "str_index (pre @ attr @ slash # y) (attr @ [slash]) = Some (length pre)"
    by (intro str_index_here) (auto simp: has_prefix_def)
  show ?thesis
    by (subst rewriteRootAbsoluteAttr.simps) (simp add: i Let_def attr_last [OF assms(1)])
qed

lemma mounted_after:
  assumes "attr_of attr q (slash # m)" "mounted_at (slash # m) q (slash # y)"
  shows "mounted_at (slash # m) q (slash # rewritten attr (slash # m) y)"
proof -
  from assms(2) consider (p) t where "y = slash # t" | (s) t where "y = m @ slash # t" | (q) t where "y = m @ q # t"
    by (auto simp: mounted_at_def has_prefix_iff)
  then show ?thesis
  proof cases
    case (p t)
    then show ?thesis using rewrite_skip [OF assms(1), of "[]" slash t] by (simp add: mounted_at_def has_prefix_def)
  next
    case (s t)
    then show ?thesis using rewrite_skip [OF assms(1), of m slash t] by (auto simp: mounted_at_def has_prefix_iff)
  next
    case (q t)
    then show ?thesis using rewrite_skip [OF assms(1), of m q t] by (auto simp: mounted_at_def has_prefix_iff)
  qed
qed

text \<open>Rewriting the links of an attribute to the mount of a panel is settled after one pass: links that
  are mounted or name another host are left alone.\<close>

lemma rewrite_idempotent:
  assumes "attr_of attr q (slash # m)"
  shows "rewritten attr (slash # m) (rewritten attr (slash # m) s) = rewritten attr (slash # m) s"
proof (induction "length s" arbitrary: s rule: less_induct)
  case less
  show ?case
  proof (cases "str_index s (attr @ [slash])")
    case None
    then have "rewritten attr (slash # m) s = s" by (subst rewriteRootAbsoluteAttr.simps) simp
    then show ?thesis by simp
  next
    case (Some i)
    define pre where "pre = take i s"
    obtain y where y: "drop i s = attr @ slash # y" and l: "i \<le> length s"
      using str_index_spec [OF Some] by (auto simp: has_prefix_iff)
    have s: "s = pre @ attr @ slash # y" using y append_take_drop_id [of i s] by (simp add: pre_def)
    have pre: "\<forall>j < length pre. \<not> has_prefix (drop j (pre @ attr @ [slash])) (attr @ [slash])"
    proof (intro allI impI)
      fix j assume j: "j < length pre"
      then have "\<not> has_prefix (drop j s) (attr @ [slash])" using str_index_spec [OF Some] l by (simp add: pre_def)
      moreover have "take (length attr + 1) (drop j s) = take (length attr + 1) (drop j (pre @ attr @ [slash]))"
        using j by (simp add: s take_Cons')
      ultimately show "\<not> has_prefix (drop j (pre @ attr @ [slash])) (attr @ [slash])" by (simp add: has_prefix_def)
    qed
    have IH: "rewritten attr (slash # m) (rewritten attr (slash # m) y) = rewritten attr (slash # m) y"
      by (rule less) (simp add: s)
    note at = rewrite_at [OF assms pre]
    show ?thesis
    proof (cases "mounted_at (slash # m) q (slash # y)")
      case True
      then show ?thesis using at IH mounted_after [OF assms True] by (simp add: s)
    next
      case False
      then have "rewritten attr (slash # m) s = pre @ attr @ slash # (m @ slash # rewritten attr (slash # m) y)" using at by (simp add: s)
      moreover have "mounted_at (slash # m) q (slash # (m @ slash # x))" for x by (simp add: mounted_at_def has_prefix_def)
      ultimately show ?thesis using at [of "m @ slash # rewritten attr (slash # m) y"] IH
          rewrite_skip [OF assms, of m slash "rewritten attr (slash # m) y"] by auto
    qed
  qed
qed

section \<open>Confinement\<close>

lemma clean_step_plain: "list_all plain_element out \<Longrightarrow> slash \<notin> set c \<Longrightarrow> list_all plain_element (clean_step out c)"
  by (auto simp: clean_step_def plain_element_def list_all_iff dest: in_set_butlastD)

lemma clean_fold_plain:
  "list_all plain_element out \<Longrightarrow> (\<forall>c \<in> set cs. slash \<notin> set c) \<Longrightarrow> list_all plain_element (foldl clean_step out cs)"
  by (induction cs arbitrary: out) (auto simp: clean_step_plain)

lemma clean_elements_plain: "list_all plain_element (clean_elements p)"
  unfolding clean_elements_def by (rule clean_fold_plain) (auto dest: split_on_free)

lemma join_plain:
  assumes "list_all plain_element es" "es \<noteq> []"
  shows "split_on slash (join_with slash es) = es" "join_with slash es \<noteq> []"
proof -
  show e: "split_on slash (join_with slash es) = es"
    using assms by (intro split_join) (auto simp: list_all_iff plain_element_def)
  show "join_with slash es \<noteq> []"
  proof
    assume "join_with slash es = []"
    then have "es = [[]]" using e by simp
    then show False using assms(1) by (simp add: plain_element_def)
  qed
qed

lemma clean_root_split:
  assumes "clean_root p \<noteq> ''/''"
  shows "list_all plain_element (split_on slash (tl (clean_root p)))"
  using assms clean_elements_plain [of p] join_plain(1) [of "clean_elements p"]
  by (cases "clean_elements p = []") (auto simp: clean_root_def)

lemma set_trim_left: "set (trim_left rs s) \<subseteq> set s"
  using trim_left_suffix [of s rs] by (metis Un_upper2 set_append)

lemma set_trim_space: "set (trim_space s) \<subseteq> set s"
  unfolding trim_space_def using set_trim_left [of space_runes s] set_trim_left [of "map rev space_runes" "rev (trim_left space_runes s)"] by auto

definition panel_name :: "string \<Rightarrow> bool" where
  "panel_name i \<longleftrightarrow> i \<noteq> [] \<and> \<not> str_contains i ''..'' \<and> slash \<notin> set i"

lemma panel_name_from_path: "panelIDFromPath p \<noteq> [] \<Longrightarrow> panel_name (panelIDFromPath p)"
  using set_trim_space by (auto simp: panelIDFromPath_def panel_name_def Let_def split: if_splits dest: set_takeWhileD)

lemma panel_name_from_referer: "panelIDFromReferer env r \<noteq> [] \<Longrightarrow> panel_name (panelIDFromReferer env r)"
  by (auto simp: panelIDFromReferer_def Let_def panel_name_from_path split: if_splits sum.splits)

definition named_root :: "panel_source \<Rightarrow> string \<Rightarrow> bool" where
  "named_root panel root \<longleftrightarrow> pn_ActiveDir panel = Inr root \<or> (\<exists>i. panel_name i \<and> pn_PanelDir panel i = Inr root)"

lemma static_root_named: "static_root panel env r = Inr (root, servePath, mount) \<Longrightarrow> named_root panel root"
  using panel_name_from_path panel_name_from_referer
  by (auto simp: static_root_def named_root_def Let_def split: if_splits sum.splits option.splits)

lemma dist_root_below: "\<exists>es. dist_root env root = (root, es) \<and> list_all plain_element es"
  by (auto simp: dist_root_def plain_element_def split: sum.splits bool.splits)

definition confined :: "panel_source \<Rightarrow> static_response \<Rightarrow> bool" where
  "confined panel x = (case x of
     PanelIndex (root, es) _ \<Rightarrow> named_root panel root \<and> list_all plain_element es
   | FileServer (root, es) upath \<Rightarrow> named_root panel root \<and> list_all plain_element (es @ split_on slash (tl upath)) \<and> hd upath = slash
   | _ \<Rightarrow> True)"

lemma serve_index_confined:
  "named_root panel root \<Longrightarrow> list_all plain_element es \<Longrightarrow> confined panel (serve_index env (root, es) mount)"
  by (auto simp: Let_def serve_index_def confined_def below_def plain_element_def split: sum.splits)

text \<open>C39. Whatever path a request names, the file that is served for it lies below a directory that the panel source gave
  for the active panel or for a panel name without a slash or \<open>..\<close>, and the path below it has no \<open>..\<close> or empty element.\<close>

theorem static_files_confined: "confined panel (serveStatic (Some panel) env r)"
proof (cases "static_root panel env r")
  case (Inl e)
  then show ?thesis by (auto simp: serveStatic_def confined_def static_root_def Let_def split: if_splits sum.splits option.splits)
next
  case (Inr t)
  obtain root servePath mount where t: "t = (root, servePath, mount)" by (cases t) auto
  obtain es where d: "dist_root env root = (root, es)" "list_all plain_element es" using dist_root_below by blast
  have n: "named_root panel root" using static_root_named Inr t by blast
  let ?u = "clean_root servePath"
  show ?thesis
  proof (cases "?u = ''/''")
    case True
    then show ?thesis using Inr t d n serve_index_confined by (simp add: serveStatic_def)
  next
    case False
    then show ?thesis using Inr t d n serve_index_confined [OF n d(2)] clean_root_split [OF False]
      by (auto simp: serveStatic_def Let_def below_def confined_def [of _ "PanelIndex _ _"] confined_def [of _ "FileServer _ _"]
        confined_def [of _ StaticNotFound] clean_root_def split: sum.splits bool.splits)
  qed
qed

end
