(* ===== verification/Web_Gateway.thy ===== *)
theory Web_Gateway
  imports Web_Static Settings
begin

text \<open>
  The web gateway in front of the core's controller (\<open>internal/web\<close>): the classification of requests, the
  web credential, the forwarding to the controller, the mutations that a browser may ask for, and the handler
  that composes them; and the runtime side of configuration patches (\<open>internal/app/runtime.go\<close>). Diagnostic reports and
  the count of sessions are left out.
\<close>

section \<open>Classification\<close>

datatype action =
    ActionProxyRead | ActionProxyWS | ActionProxyStorage
  | ActionMutateSelectProxy | ActionMutateClose | ActionMutateDelayTest | ActionMutateRestart | ActionMutateConfigs
  | ActionRejectUpgrade | ActionRejectManaged | ActionRejectUnknown | ActionNotAPI

text \<open>\<open>strings.ToUpper\<close> of a method, which is an ASCII token.\<close>

definition upper_char :: "char \<Rightarrow> char" where
  "upper_char c = (if byte_in c 97 122 then char_of (of_char c - 32 :: nat) else c)"

definition to_upper :: "string \<Rightarrow> string" where
  "to_upper s = map upper_char s"

definition normalizeAPIPath :: "string \<Rightarrow> string" where
  "normalizeAPIPath path0 =
     (if path0 = [] then []
      else let path = (if has_prefix path0 ''/'' then path0 else slash # path0) in
        if length path > 1 \<and> has_suffix path ''/'' then butlast path else path)"

definition isPanelMountPath :: "string \<Rightarrow> bool" where
  "isPanelMountPath path0 =
     (path0 \<noteq> [] \<and>
      (let path = (if has_prefix path0 ''/'' then path0 else slash # path0) in
       path = ''/__mihari/panels'' \<or> has_prefix path ''/__mihari/panels/''))"

definition isStoragePath :: "string \<Rightarrow> bool" where
  "isStoragePath path \<longleftrightarrow> path = ''/storage'' \<or> has_prefix path ''/storage/''"

definition apiPrefixes :: "string list" where
  "apiPrefixes = [''/version'', ''/proxies'', ''/proxy-providers'', ''/rules'', ''/rule-providers'',
     ''/connections'', ''/configs'', ''/providers'', ''/cache'', ''/dns'', ''/traffic'',
     ''/memory'', ''/logs'', ''/upgrade'', ''/restart'', ''/group'', ''/script'',
     ''/meta'', ''/debug'', ''/ui'', ''/fakeip'', ''/storage'']"

definition looksLikeAPIPath :: "string \<Rightarrow> bool" where
  "looksLikeAPIPath path = list_ex (\<lambda>p. path = p \<or> has_prefix path (p @ [slash])) apiPrefixes"

definition isSafeReadPath :: "string \<Rightarrow> bool" where
  "isSafeReadPath path \<longleftrightarrow>
     path = ''/version'' \<or> path = ''/configs'' \<or>
     has_prefix path ''/proxies'' \<or> has_prefix path ''/proxy-providers'' \<or>
     has_prefix path ''/rules'' \<or> has_prefix path ''/rule-providers'' \<or>
     path = ''/connections'' \<or> has_prefix path ''/connections/'' \<or>
     path = ''/providers/proxies'' \<or> has_prefix path ''/providers/'' \<or>
     path = ''/dns/query'' \<or> has_prefix path ''/cache'' \<or>
     path = ''/traffic'' \<or> path = ''/memory'' \<or> path = ''/logs''"

definition isUpgradePath :: "string \<Rightarrow> bool" where
  "isUpgradePath path \<longleftrightarrow> path = ''/upgrade'' \<or> has_prefix path ''/upgrade/'' \<or> path = ''/upgrade/ui'' \<or> path = ''/configs/upgrade''"

definition isProxyGroupSelect :: "string \<Rightarrow> bool" where
  "isProxyGroupSelect path \<longleftrightarrow> has_prefix path ''/proxies/'' \<and>
     (let rest = trim_prefix path ''/proxies/'' in \<not> (rest = [] \<or> str_contains rest ''/''))"

definition isDelayTestPath :: "string \<Rightarrow> bool" where
  "isDelayTestPath path \<longleftrightarrow> has_suffix path ''/delay'' \<and> has_prefix path ''/proxies/'' \<or>
     has_prefix path ''/group/'' \<and> has_suffix path ''/delay''"

definition streamPaths :: "string list" where
  "streamPaths = [''/traffic'', ''/memory'', ''/logs'', ''/connections'']"

definition Classify :: "string \<Rightarrow> string \<Rightarrow> action" where
  "Classify method0 path0 =
     (let method = to_upper method0 in
      if isPanelMountPath path0 then ActionNotAPI
      else let path = normalizeAPIPath path0 in
        if path = [] then ActionNotAPI
        else if isStoragePath path then
          (if method \<in> {''GET'', ''HEAD'', ''PUT'', ''DELETE''} then ActionProxyStorage else ActionRejectUnknown)
        else if path \<in> set streamPaths \<and> method = ''GET'' then ActionProxyRead
        else if method = ''GET'' \<or> method = ''HEAD'' then
          (if isSafeReadPath path then ActionProxyRead
           else if looksLikeAPIPath path then ActionProxyRead else ActionNotAPI)
        else if isUpgradePath path then ActionRejectUpgrade
        else if method = ''PUT'' \<and> isProxyGroupSelect path then ActionMutateSelectProxy
        else if method = ''DELETE'' \<and> (path = ''/connections'' \<or> has_prefix path ''/connections/'') then ActionMutateClose
        else if method = ''POST'' \<and> isDelayTestPath path then ActionMutateDelayTest
        else if method = ''POST'' \<and> (path = ''/restart'' \<or> path = ''/configs/restart'') then ActionMutateRestart
        else if (method = ''PATCH'' \<or> method = ''PUT'') \<and> path = ''/configs'' then ActionMutateConfigs
        else if looksLikeAPIPath path then ActionRejectUnknown
        else ActionNotAPI)"

definition ClassifyUpgrade :: "string \<Rightarrow> string \<Rightarrow> bool \<Rightarrow> action" where
  "ClassifyUpgrade method path connectionUpgrade =
     (let action = Classify method path in
      if connectionUpgrade \<and> action = ActionProxyRead \<and> normalizeAPIPath path \<in> set streamPaths then ActionProxyWS else action)"

section \<open>The web credential\<close>

record authenticator =
  WebCredential :: string
  auth_ControllerSecret :: string
  CookieSecure :: bool
  SessionTTL :: int

definition CookieName :: string where
  "CookieName = ''mihari_web_auth''"

definition AuthPath :: string where
  "AuthPath = ''/__mihari/auth''"

definition matchesWeb :: "authenticator \<Rightarrow> string \<Rightarrow> bool" where
  "matchesWeb a candidate \<longleftrightarrow> WebCredential a \<noteq> [] \<and> candidate \<noteq> [] \<and> candidate = WebCredential a"

definition bearerToken :: "string \<Rightarrow> string" where
  "bearerToken h = (if has_prefix h ''Bearer '' then trim_space (trim_prefix h ''Bearer '') else [])"

text \<open>\<open>http.Request.Cookie\<close>: the first cookie of the name with a valid value, in the Cookie lines.\<close>

definition ascii_trim :: "string \<Rightarrow> string" where
  "ascii_trim s = (let ws = [[CHR 0x20], [CHR 0x09], [CHR 0x0A], [CHR 0x0D]] in rev (trim_left ws (rev (trim_left ws s))))"

definition cookie_value :: "string \<Rightarrow> string option" where
  "cookie_value v =
     (let q = CHR 0x22; u = (if length v > 1 \<and> hd v = q \<and> last v = q then butlast (tl v) else v) in
      if list_all (\<lambda>c. byte_in c 32 126 \<and> c \<noteq> q \<and> c \<noteq> CHR '';'' \<and> c \<noteq> CHR 0x5C) u then Some u else None)"

definition cookie_part :: "string \<Rightarrow> string \<Rightarrow> string option" where
  "cookie_part name part =
     (let (k, v) = (case cut (CHR ''='') (ascii_trim part) of None \<Rightarrow> (ascii_trim part, []) | Some kv \<Rightarrow> kv) in
      if ascii_trim k = name then cookie_value v else None)"

definition first_some :: "'a option list \<Rightarrow> 'a option" where
  "first_some xs = (case filter (\<lambda>x. x \<noteq> None) xs of [] \<Rightarrow> None | x # _ \<Rightarrow> x)"

definition request_cookie :: "header \<Rightarrow> string \<Rightarrow> string option" where
  "request_cookie h name =
     first_some (concat (map (\<lambda>(k, line). if k = ''Cookie'' then map (cookie_part name) (split_on (CHR '';'') line) else []) h))"

definition Authorized :: "authenticator \<Rightarrow> http_request \<Rightarrow> bool" where
  "Authorized a r =
     (if WebCredential a = [] then False
      else let token = bearerToken (get_first (rq_Header r) ''Authorization'') in
        if token \<noteq> [] then matchesWeb a token
        else case request_cookie (rq_Header r) CookieName of
            Some v \<Rightarrow> matchesWeb a v
          | None \<Rightarrow>
              (let q = get_first (rq_Query r) ''token'' in if q \<noteq> [] then matchesWeb a q else False))"

definition AuthenticateForm :: "authenticator \<Rightarrow> string \<Rightarrow> bool" where
  "AuthenticateForm a password = matchesWeb a password"

record cookie =
  ck_Name :: string
  ck_Value :: string
  ck_HttpOnly :: bool
  ck_Secure :: bool
  ck_MaxAge :: int

text \<open>Durations are nanoseconds; \<open>int(ttl.Seconds())\<close> truncates.\<close>

definition session_cookie :: "authenticator \<Rightarrow> cookie" where
  "session_cookie a =
     (let ttl = (if SessionTTL a \<le> 0 then 24 * 3600 * 1000000000 else SessionTTL a) in
      \<lparr>ck_Name = CookieName, ck_Value = WebCredential a, ck_HttpOnly = True, ck_Secure = CookieSecure a, ck_MaxAge = ttl div 1000000000\<rparr>)"

section \<open>The gateway\<close>

text \<open>The interface to the daemon: each call reports its error.\<close>

record mutator =
  mu_SelectProxy :: "string \<Rightarrow> string \<Rightarrow> go_error option"
  mu_CloseConnection :: "string \<Rightarrow> go_error option"
  mu_CloseAllConnections :: "go_error option"
  mu_ApplyConfigPatch :: "document \<Rightarrow> go_error option"

text \<open>Beside the fields of \<open>Server\<close>: the address it listens on, \<open>json.Decode\<close> of a body into a name and into a map (keys are
  distinct) with the error of a second decoding, \<open>url.Values.Encode\<close>, and \<open>httputil.ReverseProxy\<close>, which copies a header without
  its hop-by-hop lines and forwards a request.\<close>

record gateway =
  gw_Auth :: authenticator
  gw_ControllerURL :: "go_error + string \<times> string"
  gw_ControllerSecret :: string
  gw_Panel :: "panel_source option"
  gw_Mutator :: "mutator option"
  gw_static :: static_env
  gw_ListenAddr :: string
  gw_decode_name :: "string \<Rightarrow> go_error + string"
  gw_decode_patch :: "string \<Rightarrow> go_error + document"
  gw_decode_trailing :: "string \<Rightarrow> go_error option"
  gw_encode :: "(string \<times> string) list \<Rightarrow> string"
  gw_outgoing :: "header \<Rightarrow> header"

text \<open>What a request makes the gateway do beside answering.\<close>

datatype effect =
    Forward string string header
  | Relay string header
  | SelectProxy string string
  | CloseConnection string
  | CloseAllConnections
  | ApplyConfigPatch document
  | SetSessionCookie cookie

datatype response =
    HTTPError nat
  | Redirect string
  | LoginPage
  | Rejected error_code
  | NoContent
  | MutationFailed nat
  | StaticResponse static_response
  | FromController
  | Relayed

definition WriteReject :: "action \<Rightarrow> response" where
  "WriteReject a = Rejected (case a of
     ActionRejectUpgrade \<Rightarrow> CodeManagedOperation
   | ActionRejectManaged \<Rightarrow> CodeManagedField
   | _ \<Rightarrow> CodeUnsupportedMutation)"

definition writeMutationError :: "go_error \<Rightarrow> response" where
  "writeMutationError e = MutationFailed (case as_api e of Some _ \<Rightarrow> 400 | None \<Rightarrow> 502)"

definition mutation_result :: "go_error option \<Rightarrow> response" where
  "mutation_result e = (case e of None \<Rightarrow> NoContent | Some x \<Rightarrow> writeMutationError x)"

text \<open>\<open>NewControllerProxy\<close>: the credentials of the browser are replaced by the controller's secret.\<close>

definition bearer :: "string \<Rightarrow> string" where
  "bearer secret = ''Bearer '' @ secret"

definition rewrite_header :: "string \<Rightarrow> header \<Rightarrow> header" where
  "rewrite_header secret h =
     (let stripped = filter (\<lambda>(k, _). k \<noteq> ''Authorization'') h in
      if secret \<noteq> [] then stripped @ [(''Authorization'', bearer secret)] else stripped)"

definition modify_response :: "string \<Rightarrow> header \<Rightarrow> header" where
  "modify_response secret h = filter (\<lambda>(k, _). \<not> (lower_key k = ''authorization'' \<or>
     list_ex (\<lambda>(k', v). k' = k \<and> secret \<noteq> [] \<and> str_contains v secret) h)) h"

definition isUpgradeRequest :: "http_request \<Rightarrow> bool" where
  "isUpgradeRequest r = equal_fold (get_first (rq_Header r) ''Upgrade'') ''websocket''"

definition isManagedConfigField :: "string \<Rightarrow> bool" where
  "isManagedConfigField key \<longleftrightarrow>
     key \<in> {''external-controller'', ''secret'', ''mixed-port'', ''bind-address'', ''external-ui'', ''external-ui-name'', ''external-ui-url''} \<or>
     has_prefix key ''external-ui''"

definition applyConfigMutation :: "mutator \<Rightarrow> document \<Rightarrow> effect list \<times> response" where
  "applyConfigMutation m patch = ([ApplyConfigPatch patch], mutation_result (mu_ApplyConfigPatch m patch))"

definition handleTunMutation :: "mutator \<Rightarrow> document \<Rightarrow> effect list \<times> response" where
  "handleTunMutation m patch =
     (if list_ex (\<lambda>(k, _). k \<noteq> ''tun'') patch then ([], WriteReject ActionRejectUnknown)
      else case map_of patch ''tun'' of
          None \<Rightarrow> ([], WriteReject ActionRejectUnknown)
        | Some (AMap tun) \<Rightarrow>
            (case map_of tun ''enable'' of
               Some (ABool _) \<Rightarrow>
                 (case map_of tun ''stack'' of
                    None \<Rightarrow> applyConfigMutation m patch
                  | Some (AStr _) \<Rightarrow> applyConfigMutation m patch
                  | Some _ \<Rightarrow> ([], HTTPError 400))
             | _ \<Rightarrow> ([], HTTPError 400))
        | Some _ \<Rightarrow> ([], HTTPError 400))"

definition handleConfigMutation :: "gateway \<Rightarrow> mutator \<Rightarrow> http_request \<Rightarrow> effect list \<times> response" where
  "handleConfigMutation gw m r =
     (case gw_decode_patch gw (rq_Body r) of
        Inl _ \<Rightarrow> ([], HTTPError 400)
      | Inr patch \<Rightarrow>
          if gw_decode_trailing gw (rq_Body r) \<noteq> Some ErrEOF then ([], HTTPError 400)
          else if patch = [] then ([], WriteReject ActionRejectUnknown)
          else if list_ex (\<lambda>(k, _). isManagedConfigField k) patch then ([], WriteReject ActionRejectManaged)
          else case map_of patch ''log-level'' of
              Some raw \<Rightarrow>
                if length patch \<noteq> 1 \<or> rq_Method r \<noteq> ''PATCH'' then ([], WriteReject ActionRejectUnknown)
                else (case raw of
                    AStr level \<Rightarrow> if level \<in> {''debug'', ''info'', ''warn'', ''warning'', ''error''}
                      then applyConfigMutation m patch else ([], HTTPError 400)
                  | _ \<Rightarrow> ([], HTTPError 400))
            | None \<Rightarrow>
                (case map_of patch ''mode'' of
                   Some raw \<Rightarrow>
                     if length patch \<noteq> 1 \<or> rq_Method r \<noteq> ''PATCH'' then ([], WriteReject ActionRejectUnknown)
                     else (case raw of
                         AStr mode \<Rightarrow> if ValidRoutingMode mode then applyConfigMutation m patch else ([], HTTPError 400)
                       | _ \<Rightarrow> ([], HTTPError 400))
                 | None \<Rightarrow> handleTunMutation m patch))"

definition handleMutation :: "gateway \<Rightarrow> http_request \<Rightarrow> action \<Rightarrow> effect list \<times> response" where
  "handleMutation gw r action =
     (case gw_Mutator gw of
        None \<Rightarrow> ([], WriteReject ActionRejectUnknown)
      | Some m \<Rightarrow>
          (case action of
             ActionMutateSelectProxy \<Rightarrow>
               (let group = trim_prefix (normalizeAPIPath (rq_Path r)) ''/proxies/'' in
                case gw_decode_name gw (rq_Body r) of
                  Inl _ \<Rightarrow> ([], HTTPError 400)
                | Inr name \<Rightarrow>
                    if name = [] \<or> group = [] then ([], HTTPError 400)
                    else ([SelectProxy group name], mutation_result (mu_SelectProxy m group name)))
           | ActionMutateClose \<Rightarrow>
               (let p = normalizeAPIPath (rq_Path r) in
                if p = ''/connections'' then ([CloseAllConnections], mutation_result (mu_CloseAllConnections m))
                else let i = trim_prefix p ''/connections/'' in
                  if i = [] then ([], HTTPError 400)
                  else ([CloseConnection i], mutation_result (mu_CloseConnection m i)))
           | ActionMutateConfigs \<Rightarrow> handleConfigMutation gw m r
           | _ \<Rightarrow> ([], WriteReject ActionRejectUnknown)))"

definition panelSetupPath :: "gateway \<Rightarrow> http_request \<Rightarrow> string" where
  "panelSetupPath gw r =
     (let host = (if rq_Host r = [] then gw_ListenAddr gw else rq_Host r) in
      case gw_Panel gw of
        None \<Rightarrow> ''/''
      | Some panel \<Rightarrow>
          (let panelID = panelIDFromPath (rq_Path r); own = (if panelID = [] then [] else pn_SetupPathFor panel panelID host) in
           if own \<noteq> [] then own
           else let setup = pn_SetupPath panel host in if setup \<noteq> [] then setup else ''/''))"

definition handleAuth :: "gateway \<Rightarrow> http_request \<Rightarrow> effect list \<times> response" where
  "handleAuth gw r =
     (if rq_Method r = ''GET'' then ([], LoginPage)
      else if rq_Method r = ''POST'' then
        (case rq_Form r of
           Inl _ \<Rightarrow> ([], HTTPError 400)
         | Inr form \<Rightarrow>
             if \<not> AuthenticateForm (gw_Auth gw) (get_first form ''password'') then ([], HTTPError 401)
             else let to = get_first form ''next'' in
               ([SetSessionCookie (session_cookie (gw_Auth gw))],
                Redirect (if to = [] \<or> to = ''/'' \<or> \<not> has_prefix to ''/'' \<or> has_prefix to ''//'' then panelSetupPath gw r else to)))
      else ([], HTTPError 405))"

definition proxyWebSocket :: "gateway \<Rightarrow> http_request \<Rightarrow> effect list \<times> response" where
  "proxyWebSocket gw r =
     (case gw_ControllerURL gw of
        Inl _ \<Rightarrow> ([], HTTPError 502)
      | Inr (scheme, host) \<Rightarrow>
          ([Relay ((if scheme = ''https'' then ''wss'' else ''ws'') @ ''://'' @ host @ rq_RequestURI r)
             (if gw_ControllerSecret gw \<noteq> [] then [(''Authorization'', bearer (gw_ControllerSecret gw))] else [])], Relayed))"

definition open_with_token :: "gateway \<Rightarrow> http_request \<Rightarrow> effect list \<times> response" where
  "open_with_token gw r =
     (let q = gw_encode gw (filter (\<lambda>(k, _). k \<noteq> ''token'') (rq_Query r));
          reqPath = (if rq_Path r = [] then ''/'' else rq_Path r) in
      ([SetSessionCookie (session_cookie (gw_Auth gw))],
       Redirect (if q = [] \<and> isPanelEntryPath reqPath then panelSetupPath gw r
         else if q \<noteq> [] then reqPath @ CHR ''?'' # q else reqPath)))"

definition handler :: "gateway \<Rightarrow> http_request \<Rightarrow> effect list \<times> response" where
  "handler gw r =
     (let token = get_first (rq_Query r) ''token''; static = ([], StaticResponse (serveStatic (gw_Panel gw) (gw_static gw) r)) in
      if rq_Path r = AuthPath then handleAuth gw r
      else if token \<noteq> [] \<and> matchesWeb (gw_Auth gw) token then open_with_token gw r
      else if rq_Path r = ''/__mihari/setup'' then
        (if \<not> Authorized (gw_Auth gw) r then ([], LoginPage) else ([], Redirect (panelSetupPath gw r)))
      else if \<not> Authorized (gw_Auth gw) r then
        (if looksLikeAPIPath (normalizeAPIPath (rq_Path r)) \<or> isUpgradeRequest r then ([], HTTPError 401)
         else if rq_Method r = ''GET'' \<or> rq_Method r = ''HEAD'' \<or> rq_Method r = [] then static
         else ([], LoginPage))
      else
        (case ClassifyUpgrade (rq_Method r) (rq_Path r) (isUpgradeRequest r) of
           ActionProxyRead \<Rightarrow> ([Forward (rq_Method r) (rq_RequestURI r) (rewrite_header (gw_ControllerSecret gw) (gw_outgoing gw (rq_Header r)))], FromController)
         | ActionProxyStorage \<Rightarrow> ([Forward (rq_Method r) (rq_RequestURI r) (rewrite_header (gw_ControllerSecret gw) (gw_outgoing gw (rq_Header r)))], FromController)
         | ActionProxyWS \<Rightarrow> proxyWebSocket gw r
         | ActionRejectUpgrade \<Rightarrow> ([], WriteReject ActionRejectUpgrade)
         | ActionRejectManaged \<Rightarrow> ([], WriteReject ActionRejectManaged)
         | ActionRejectUnknown \<Rightarrow> ([], WriteReject ActionRejectUnknown)
         | ActionNotAPI \<Rightarrow> static
         | action \<Rightarrow> handleMutation gw r action))"

section \<open>Configuration patches in the runtime\<close>

datatype web_call =
    UpdateLogging string
  | UpdateRouting string
  | EnableTun
  | DisableTun

text \<open>
  The runtime manager behind \<open>webMutator\<close>, by the outcome of each call. Logging and routing are optional interfaces
  of it, which \<open>ApplyConfigPatch\<close> asks for with a type assertion: \<open>None\<close> is a manager without the method.
\<close>

record web_runtime =
  wr_UpdateLogging :: "(string \<Rightarrow> go_error option) option"
  wr_UpdateRouting :: "(string \<Rightarrow> go_error option) option"
  wr_EnableTun :: "go_error option"
  wr_DisableTun :: "go_error option"

text \<open>\<open>webMutator.ApplyConfigPatch\<close>: the calls it makes to the runtime, and its error; operation IDs and the report of the
  result are left out.\<close>

definition web_ApplyConfigPatch :: "web_runtime \<Rightarrow> document \<Rightarrow> web_call list \<times> go_error option" where
  "web_ApplyConfigPatch rt patch =
     (case map_of patch ''log-level'' of
        Some raw \<Rightarrow>
          (case raw of
             AStr level0 \<Rightarrow>
               (let level = (if level0 = ''warning'' then ''warn'' else level0) in
                if length patch \<noteq> 1 \<or> \<not> ActiveLoggingLevel level then ([], Some (Api (api CodeInvalidArgument ''invalid logging patch'')))
                else case wr_UpdateLogging rt of
                    None \<Rightarrow> ([], Some (Api (api CodeInvalidState ''logging runtime is unavailable'')))
                  | Some owner \<Rightarrow> ([UpdateLogging level], owner level))
           | _ \<Rightarrow> ([], Some (Api (api CodeInvalidArgument ''invalid logging patch''))))
      | None \<Rightarrow>
          (case map_of patch ''mode'' of
             Some raw \<Rightarrow>
               (case raw of
                  AStr mode \<Rightarrow>
                    if length patch \<noteq> 1 \<or> \<not> ValidRoutingMode mode then ([], Some (Api (api CodeInvalidArgument ''invalid routing patch'')))
                    else (case wr_UpdateRouting rt of
                        None \<Rightarrow> ([], Some (Api (api CodeInvalidState ''routing mode is unavailable'')))
                      | Some routing \<Rightarrow> ([UpdateRouting mode], routing mode))
                | _ \<Rightarrow> ([], Some (Api (api CodeInvalidArgument ''invalid routing patch''))))
           | None \<Rightarrow>
               (case map_of patch ''tun'' of
                  None \<Rightarrow> ([], Some (Api (api CodeUnsupportedMutation ''unsupported config mutation'')))
                | Some (AMap tun) \<Rightarrow>
                    (case map_of tun ''enable'' of
                       Some (ABool enable) \<Rightarrow>
                         if enable then ([EnableTun], wr_EnableTun rt) else ([DisableTun], wr_DisableTun rt)
                     | _ \<Rightarrow> ([], Some (Api (api CodeInvalidArgument ''tun.enable must be a boolean''))))
                | Some _ \<Rightarrow> ([], Some (Api (api CodeInvalidArgument ''tun config must be an object''))))))"

section \<open>The policy of the gateway\<close>

definition presents_credential :: "authenticator \<Rightarrow> http_request \<Rightarrow> bool" where
  "presents_credential a r \<longleftrightarrow> WebCredential a \<noteq> [] \<and>
     (bearerToken (get_first (rq_Header r) ''Authorization'') = WebCredential a \<or>
      request_cookie (rq_Header r) CookieName = Some (WebCredential a) \<or>
      get_first (rq_Query r) ''token'' = WebCredential a)"

text \<open>The patches that may reach the runtime, each with the one operation it stands for.\<close>

inductive patch_asks :: "document \<Rightarrow> web_call \<Rightarrow> bool" where
  logging: "level \<in> {''debug'', ''info'', ''warn'', ''error''} \<Longrightarrow> patch_asks [(''log-level'', AStr level)] (UpdateLogging level)"
| warning: "patch_asks [(''log-level'', AStr ''warning'')] (UpdateLogging ''warn'')"
| routing: "mode \<in> {''rule'', ''global'', ''direct''} \<Longrightarrow> patch_asks [(''mode'', AStr mode)] (UpdateRouting mode)"
| tun: "list_all (\<lambda>(k, _). k = ''tun'') patch \<Longrightarrow> map_of patch ''tun'' = Some (AMap tun) \<Longrightarrow>
    map_of tun ''enable'' = Some (ABool b) \<Longrightarrow> patch_asks patch (if b then EnableTun else DisableTun)"

definition patch_typed :: "document \<Rightarrow> bool" where
  "patch_typed p \<longleftrightarrow> (\<exists>c. patch_asks p c)"

lemma patch_typed_intros:
  "level \<in> {''debug'', ''info'', ''warn'', ''warning'', ''error''} \<Longrightarrow> patch_typed [(''log-level'', AStr level)]"
  "ValidRoutingMode mode \<Longrightarrow> patch_typed [(''mode'', AStr mode)]"
  "list_all (\<lambda>(k, _). k = ''tun'') patch \<Longrightarrow> map_of patch ''tun'' = Some (AMap tun) \<Longrightarrow>
    map_of tun ''enable'' = Some (ABool b) \<Longrightarrow> patch_typed patch"
  unfolding patch_typed_def by (auto simp: ValidRoutingMode_def intro: patch_asks.intros)

text \<open>Whether the runtime has an operation, what it answers, and the refusal when it has not.\<close>

fun runtime_offers :: "web_runtime \<Rightarrow> web_call \<Rightarrow> bool" where
  "runtime_offers rt (UpdateLogging _) \<longleftrightarrow> wr_UpdateLogging rt \<noteq> None"
| "runtime_offers rt (UpdateRouting _) \<longleftrightarrow> wr_UpdateRouting rt \<noteq> None"
| "runtime_offers rt _ \<longleftrightarrow> True"

fun runtime_answer :: "web_runtime \<Rightarrow> web_call \<Rightarrow> go_error option" where
  "runtime_answer rt (UpdateLogging level) = the (wr_UpdateLogging rt) level"
| "runtime_answer rt (UpdateRouting mode) = the (wr_UpdateRouting rt) mode"
| "runtime_answer rt EnableTun = wr_EnableTun rt"
| "runtime_answer rt DisableTun = wr_DisableTun rt"

fun allowed_effect :: "gateway \<Rightarrow> http_request \<Rightarrow> effect \<Rightarrow> bool" where
  "allowed_effect gw r (Forward m _ h) \<longleftrightarrow> presents_credential (gw_Auth gw) r \<and> m = rq_Method r \<and>
     (to_upper m \<in> {''GET'', ''HEAD''} \<or> to_upper m \<in> {''PUT'', ''DELETE''} \<and> isStoragePath (normalizeAPIPath (rq_Path r))) \<and>
     list_all (\<lambda>(k, v). k = ''Authorization'' \<longrightarrow> v = bearer (gw_ControllerSecret gw)) h"
| "allowed_effect gw r (Relay _ h) \<longleftrightarrow> presents_credential (gw_Auth gw) r \<and> to_upper (rq_Method r) \<in> {''GET'', ''HEAD''} \<and>
     normalizeAPIPath (rq_Path r) \<in> set streamPaths \<and> list_all (\<lambda>kv. kv = (''Authorization'', bearer (gw_ControllerSecret gw))) h"
| "allowed_effect gw r (SelectProxy g n) \<longleftrightarrow> presents_credential (gw_Auth gw) r \<and> to_upper (rq_Method r) = ''PUT'' \<and>
     normalizeAPIPath (rq_Path r) = ''/proxies/'' @ g \<and> \<not> str_contains g ''/'' \<and> g \<noteq> [] \<and> n \<noteq> []"
| "allowed_effect gw r (CloseConnection i) \<longleftrightarrow> presents_credential (gw_Auth gw) r \<and> to_upper (rq_Method r) = ''DELETE'' \<and>
     normalizeAPIPath (rq_Path r) = ''/connections/'' @ i \<and> i \<noteq> []"
| "allowed_effect gw r CloseAllConnections \<longleftrightarrow> presents_credential (gw_Auth gw) r \<and> to_upper (rq_Method r) = ''DELETE'' \<and>
     normalizeAPIPath (rq_Path r) = ''/connections''"
| "allowed_effect gw r (ApplyConfigPatch p) \<longleftrightarrow> presents_credential (gw_Auth gw) r \<and> to_upper (rq_Method r) \<in> {''PATCH'', ''PUT''} \<and>
     normalizeAPIPath (rq_Path r) = ''/configs'' \<and> list_all (\<lambda>(k, _). \<not> isManagedConfigField k) p"
| "allowed_effect gw r (SetSessionCookie c) \<longleftrightarrow> ck_Value c = WebCredential (gw_Auth gw) \<and> WebCredential (gw_Auth gw) \<noteq> [] \<and> ck_HttpOnly c \<and>
     (get_first (rq_Query r) ''token'' = WebCredential (gw_Auth gw) \<or>
      rq_Path r = AuthPath \<and> rq_Method r = ''POST'' \<and>
        (case rq_Form r of Inl _ \<Rightarrow> False | Inr form \<Rightarrow> get_first form ''password'' = WebCredential (gw_Auth gw)))"

lemma authorized_presents: "Authorized a r \<Longrightarrow> presents_credential a r"
  by (auto simp: Authorized_def presents_credential_def matchesWeb_def Let_def split: if_splits option.splits)

lemma rewrite_header_secret: "list_all (\<lambda>(k, v). k = ''Authorization'' \<longrightarrow> v = bearer secret) (rewrite_header secret h)"
  by (auto simp: rewrite_header_def Let_def list_all_iff)

text \<open>No response header that carries the secret is passed on.\<close>

lemma response_hides_secret:
  assumes "(k, v) \<in> set (modify_response secret h)" "secret \<noteq> []"
  shows "\<not> str_contains v secret" "lower_key k \<noteq> ''authorization''"
  using assms by (auto simp: modify_response_def list_ex_iff)

text \<open>What each class of a request says of its method and path.\<close>

definition class_fits :: "string \<Rightarrow> string \<Rightarrow> action \<Rightarrow> bool" where
  "class_fits m p a = (case a of
     ActionProxyRead \<Rightarrow> m \<in> {''GET'', ''HEAD''}
   | ActionProxyWS \<Rightarrow> m \<in> {''GET'', ''HEAD''} \<and> p \<in> set streamPaths
   | ActionProxyStorage \<Rightarrow> isStoragePath p \<and> m \<in> {''GET'', ''HEAD'', ''PUT'', ''DELETE''}
   | ActionMutateSelectProxy \<Rightarrow> m = ''PUT'' \<and> isProxyGroupSelect p
   | ActionMutateClose \<Rightarrow> m = ''DELETE'' \<and> (p = ''/connections'' \<or> has_prefix p ''/connections/'')
   | ActionMutateConfigs \<Rightarrow> m \<in> {''PATCH'', ''PUT''} \<and> p = ''/configs''
   | _ \<Rightarrow> True)"

lemma Classify_fits: "class_fits (to_upper m) (normalizeAPIPath p) (Classify m p)"
  unfolding Classify_def Let_def by (simp add: class_fits_def)

lemma ClassifyUpgrade_fits: "class_fits (to_upper m) (normalizeAPIPath p) (ClassifyUpgrade m p u)"
  using Classify_fits [of m p] by (auto simp: ClassifyUpgrade_def Let_def class_fits_def)

lemma typed_unmanaged: "patch_typed p \<Longrightarrow> list_all (\<lambda>(k, _). \<not> isManagedConfigField k) p"
  unfolding patch_typed_def
  by (auto elim!: patch_asks.cases list.pred_mono_strong simp: isManagedConfigField_def has_prefix_def)

definition config_effect :: "effect \<Rightarrow> bool" where
  "config_effect e \<longleftrightarrow> (\<exists>p. e = ApplyConfigPatch p \<and> patch_typed p)"

lemma tun_effects: "list_all config_effect (fst (handleTunMutation m p))"
proof (cases "list_ex (\<lambda>(k, _). k \<noteq> ''tun'') p")
  case False
  then have k: "list_all (\<lambda>(k, _). k = ''tun'') p" by (auto simp: list_ex_iff list_all_iff)
  have "config_effect (ApplyConfigPatch p)" if "map_of p ''tun'' = Some (AMap tun)" "map_of tun ''enable'' = Some (ABool b)" for tun b
    using patch_typed_intros(3) [OF k that] by (simp add: config_effect_def)
  then show ?thesis using False unfolding handleTunMutation_def
    by (simp add: applyConfigMutation_def split: option.splits any.splits)
qed (simp add: handleTunMutation_def)

lemma config_effects: "list_all config_effect (fst (handleConfigMutation gw m r))"
proof -
  have one: "p = [(k, v)]" if "map_of p k = Some v" "length p = 1" for p :: document and k v
    using that by (cases p) (auto split: if_splits)
  have l: "config_effect (ApplyConfigPatch p)"
    if "map_of p ''log-level'' = Some (AStr level)" "length p = 1" "level \<in> {''debug'', ''info'', ''warn'', ''warning'', ''error''}" for p level
    using one [OF that(1,2)] patch_typed_intros(1) [OF that(3)] by (simp add: config_effect_def)
  have r: "config_effect (ApplyConfigPatch p)"
    if "map_of p ''mode'' = Some (AStr mode)" "length p = 1" "ValidRoutingMode mode" for p mode
    using one [OF that(1,2)] patch_typed_intros(2) [OF that(3)] by (simp add: config_effect_def)
  have log: "list_all config_effect (fst (case raw of AStr level \<Rightarrow> if level \<in> {''debug'', ''info'', ''warn'', ''warning'', ''error''}
      then applyConfigMutation m p else ([], HTTPError 400) | _ \<Rightarrow> ([], HTTPError 400)))"
    if "map_of p ''log-level'' = Some raw" "length p = 1" for p raw
    using l [OF _ that(2)] that(1) by (cases raw) (simp_all add: applyConfigMutation_def)
  have mode: "list_all config_effect (fst (case raw of AStr mode \<Rightarrow> if ValidRoutingMode mode
      then applyConfigMutation m p else ([], HTTPError 400) | _ \<Rightarrow> ([], HTTPError 400)))"
    if "map_of p ''mode'' = Some raw" "length p = 1" for p raw
    using r [OF _ that(2)] that(1) by (cases raw) (simp_all add: applyConfigMutation_def)
  show ?thesis unfolding handleConfigMutation_def
    by (simp add: tun_effects log mode split: sum.split option.split)
qed

lemma mutation_effects:
  assumes "class_fits (to_upper (rq_Method r)) (normalizeAPIPath (rq_Path r)) a" "presents_credential (gw_Auth gw) r"
  shows "list_all (\<lambda>e. allowed_effect gw r e \<and> (\<forall>p. e = ApplyConfigPatch p \<longrightarrow> patch_typed p)) (fst (handleMutation gw r a))"
proof (cases "gw_Mutator gw")
  case (Some m)
  show ?thesis
  proof (cases a)
    case ActionMutateSelectProxy
    then show ?thesis using assms Some
      by (auto simp: handleMutation_def class_fits_def isProxyGroupSelect_def trim_prefix_def has_prefix_iff Let_def split: sum.splits)
  next
    case ActionMutateClose
    then show ?thesis using assms Some
      by (auto simp: handleMutation_def class_fits_def trim_prefix_def has_prefix_iff Let_def)
  next
    case ActionMutateConfigs
    then have f: "fst (handleMutation gw r a) = fst (handleConfigMutation gw m r)" using Some by (simp add: handleMutation_def)
    show ?thesis unfolding f
      by (rule list.pred_mono_strong [OF config_effects]) (use ActionMutateConfigs assms typed_unmanaged in \<open>auto simp: config_effect_def class_fits_def\<close>)
  qed (use Some in \<open>simp_all add: handleMutation_def\<close>)
qed (simp add: handleMutation_def)

lemma handler_effects:
  "list_all (\<lambda>e. allowed_effect gw r e \<and> (\<forall>p. e = ApplyConfigPatch p \<longrightarrow> patch_typed p)) (fst (handler gw r))"
proof (cases "Authorized (gw_Auth gw) r")
  case False
  then show ?thesis
    by (auto simp: handler_def handleAuth_def open_with_token_def AuthenticateForm_def matchesWeb_def session_cookie_def Let_def
      split: sum.splits)
next
  case True
  have p: "presents_credential (gw_Auth gw) r" by (rule authorized_presents [OF True])
  have f: "class_fits (to_upper (rq_Method r)) (normalizeAPIPath (rq_Path r)) (ClassifyUpgrade (rq_Method r) (rq_Path r) (isUpgradeRequest r))"
    by (rule ClassifyUpgrade_fits)
  note m = mutation_effects [OF f p]
  show ?thesis
  proof (cases "rq_Path r = AuthPath \<or> matchesWeb (gw_Auth gw) (get_first (rq_Query r) ''token'') \<or> rq_Path r = ''/__mihari/setup''")
    case True
    then show ?thesis
      by (auto simp: handler_def handleAuth_def open_with_token_def AuthenticateForm_def matchesWeb_def session_cookie_def Let_def
        split: sum.splits)
  next
    case False
    then show ?thesis
    proof (cases "ClassifyUpgrade (rq_Method r) (rq_Path r) (isUpgradeRequest r)")
      case ActionProxyRead
      then show ?thesis using True False p f by (simp add: handler_def class_fits_def rewrite_header_secret Let_def)
    next
      case ActionProxyStorage
      then show ?thesis using True False p f by (auto simp: handler_def class_fits_def rewrite_header_secret Let_def)
    next
      case ActionProxyWS
      then show ?thesis using True False p f by (auto simp: handler_def class_fits_def proxyWebSocket_def Let_def split: sum.splits)
    qed (use True False m in \<open>simp_all add: handler_def Let_def\<close>)
  qed
qed

text \<open>C3. What a browser can make the gateway do. A request reaches the controller only with the web credential, never with
  the browser's own authorization, and only to read or, below \<open>/storage\<close>, to write; the daemon is asked only for what
  the allow list names, with the web credential, and never for a field that Mihari manages; and a session cookie is
  given only for the credential.\<close>

theorem gateway_policy: "list_all (allowed_effect gw r) (fst (handler gw r))"
  by (rule list.pred_mono_strong [OF handler_effects]) simp

text \<open>What a runtime does with a patch that stands for an operation.\<close>

definition patch_obeyed :: "web_runtime \<Rightarrow> document \<Rightarrow> web_call \<Rightarrow> bool" where
  "patch_obeyed rt p c =
     (if runtime_offers rt c then web_ApplyConfigPatch rt p = ([c], runtime_answer rt c)
      else fst (web_ApplyConfigPatch rt p) = [] \<and>
        (\<exists>msg. snd (web_ApplyConfigPatch rt p) = Some (Api (api CodeInvalidState msg))))"

lemma asks_obeyed: "patch_asks p c \<Longrightarrow> patch_obeyed rt p c"
proof (induction rule: patch_asks.induct)
  case (tun patch tun b)
  then have "map_of patch ''log-level'' = None" "map_of patch ''mode'' = None"
    by (auto simp: map_of_eq_None_iff list_all_iff)
  with tun show ?case by (simp add: patch_obeyed_def web_ApplyConfigPatch_def)
qed (auto simp: patch_obeyed_def web_ApplyConfigPatch_def ActiveLoggingLevel_def ValidRoutingMode_def Let_def split: option.splits)

lemma typed_obeyed: "patch_typed p \<Longrightarrow> \<exists>c. patch_asks p c \<and> (\<forall>rt. patch_obeyed rt p c)"
  unfolding patch_typed_def using asks_obeyed by blast

text \<open>C38. A configuration patch that the gateway hands over stands for one operation of the runtime (one logging level, with
  \<open>warning\<close> read as \<open>warn\<close>, one routing mode, or a TUN object with a boolean). If the runtime has this operation, the patch makes
  exactly this one call and its error is the patch's; if it has not (logging and routing are optional interfaces), the patch
  calls nothing and fails as an invalid state. No patch that is handed over fails as an invalid argument or as unsupported
  before it reaches the runtime.\<close>

theorem config_patches_typed:
  "list_all (\<lambda>e. case e of ApplyConfigPatch p \<Rightarrow> (\<exists>c. patch_asks p c \<and> (\<forall>rt. patch_obeyed rt p c)) | _ \<Rightarrow> True)
     (fst (handler gw r))"
  by (rule list.pred_mono_strong [OF handler_effects])
     (auto split: effect.splits dest!: typed_obeyed)







end
